(* ===== verification/Prelude.thy ===== *)
theory Prelude
  imports Main "HOL-Library.AList"
begin

section \<open>Prelude: results, insertion-ordered dictionaries and shared automation\<close>

text \<open>
  What every component theory shares.  A Python function that may raise is modelled by
  a result \<open>'a res\<close>: \<open>Inl e\<close> is the exception that leaves the function, \<open>Inr v\<close>
  the returned value.  A Python \<open>dict\<close> iterates in insertion order, and several
  components rely on that, so a dictionary is an association list with one entry per key,
  updated in place or at the end as \<open>dict.__setitem__\<close> does.
\<close>

named_theorems res_simps "unfolding rules of the error monad"
named_theorems dict_simps "rules for insertion-ordered dictionaries"

subsection \<open>Exceptions and results\<close>

text \<open>The exception classes the modelled code raises or lets escape; messages are not kept.\<close>

datatype py_error =
    Value_Error
  | Type_Error
  | Key_Error
  | Index_Error
  | Assertion_Error
  | Attribute_Error
  | Runtime_Error
  | Name_Error
  | Exit_Error
  | Unicode_Error
  | Stop_Iteration

type_synonym 'a res = "py_error + 'a"

definition rbind :: "'a res \<Rightarrow> ('a \<Rightarrow> 'b res) \<Rightarrow> 'b res" where
  "rbind x f = (case x of Inl e \<Rightarrow> Inl e | Inr v \<Rightarrow> f v)"

definition rassert :: "bool \<Rightarrow> py_error \<Rightarrow> unit res" where
  "rassert b e = (if b then Inr () else Inl e)"

definition of_option :: "py_error \<Rightarrow> 'a option \<Rightarrow> 'a res" where
  "of_option e x = (case x of None \<Rightarrow> Inl e | Some v \<Rightarrow> Inr v)"

definition is_ok :: "'a res \<Rightarrow> bool" where
  "is_ok x = (case x of Inl _ \<Rightarrow> False | Inr _ \<Rightarrow> True)"

lemma rbind_simps [simp, res_simps]:
  "rbind (Inl e) f = Inl e"
  "rbind (Inr v) f = f v"
  by (simp_all add: rbind_def)

lemma rbind_Inr_iff [res_simps]:
  "rbind x f = Inr v \<longleftrightarrow> (\<exists>u. x = Inr u \<and> f u = Inr v)"
  by (cases x) simp_all

lemma rbind_Inl_iff:
  "rbind x f = Inl e \<longleftrightarrow> x = Inl e \<or> (\<exists>u. x = Inr u \<and> f u = Inl e)"
  by (cases x) simp_all

lemma rassert_simps [simp, res_simps]:
  "rassert True e = Inr ()"
  "rassert False e = Inl e"
  "rassert b e = Inr u \<longleftrightarrow> b"
  by (simp_all add: rassert_def)

lemma of_option_simps [simp, res_simps]:
  "of_option e None = Inl e"
  "of_option e (Some v) = Inr v"
  "of_option e x = Inr v \<longleftrightarrow> x = Some v"
  by (auto simp: of_option_def split: option.splits)

lemma is_ok_simps [simp, res_simps]:
  "is_ok (Inl e) = False"
  "is_ok (Inr v) = True"
  by (simp_all add: is_ok_def)

text \<open>A list comprehension or loop whose body may raise: it stops at the first error.\<close>

fun rmap :: "('a \<Rightarrow> 'b res) \<Rightarrow> 'a list \<Rightarrow> 'b list res" where
  "rmap f [] = Inr []"
| "rmap f (x # xs) = rbind (f x) (\<lambda>y. rbind (rmap f xs) (\<lambda>ys. Inr (y # ys)))"

fun rfold :: "('a \<Rightarrow> 's \<Rightarrow> 's res) \<Rightarrow> 'a list \<Rightarrow> 's \<Rightarrow> 's res" where
  "rfold f [] s = Inr s"
| "rfold f (x # xs) s = rbind (f x s) (rfold f xs)"

lemma rmap_cong [fundef_cong]:
  assumes "xs = ys" and "\<And>x. x \<in> set ys \<Longrightarrow> f x = g x"
  shows "rmap f xs = rmap g ys"
  using assms(2) unfolding assms(1) by (induction ys) auto

lemma rfold_cong [fundef_cong]:
  assumes "xs = ys" and "s = t" and "\<And>x u. x \<in> set ys \<Longrightarrow> f x u = g x u"
  shows "rfold f xs s = rfold g ys t"
  using assms(3) unfolding assms(1,2)
proof (induction ys arbitrary: t)
  case (Cons y ys)
  then have "f y t = g y t" by simp
  then show ?case using Cons by (cases "g y t") auto
qed simp

lemma rmap_Inr_iff:
  "rmap f xs = Inr ys \<longleftrightarrow> length xs = length ys \<and> (\<forall>i < length xs. f (xs ! i) = Inr (ys ! i))"
proof (induction xs arbitrary: ys)
  case (Cons x xs)
  show ?case
    by (cases ys) (auto simp: rbind_Inr_iff Cons.IH nth_Cons split: nat.splits)
qed auto

lemma rmap_length: "rmap f xs = Inr ys \<Longrightarrow> length ys = length xs"
  by (simp add: rmap_Inr_iff)

lemma rmap_total: "(\<And>x. x \<in> set xs \<Longrightarrow> f x = Inr (g x)) \<Longrightarrow> rmap f xs = Inr (map g xs)"
  by (induction xs) auto

lemma rmap_in_set:
  "rmap f xs = Inr ys \<Longrightarrow> y \<in> set ys \<Longrightarrow> \<exists>x \<in> set xs. f x = Inr y"
  by (metis rmap_Inr_iff in_set_conv_nth)

text \<open>The loop rule: an invariant every successful body keeps holds after the loop.\<close>

lemma rfold_invariant:
  assumes "rfold f xs s = Inr t" and "I s"
    and "\<And>x u v. x \<in> set xs \<Longrightarrow> I u \<Longrightarrow> f x u = Inr v \<Longrightarrow> I v"
  shows "I t"
  using assms
proof (induction xs arbitrary: s)
  case (Cons x xs)
  from Cons.prems(1) obtain u where "f x s = Inr u" and "rfold f xs u = Inr t"
    by (auto simp: rbind_Inr_iff)
  with Cons show ?case by (metis list.set_intros)
qed simp

lemma rfold_append:
  "rfold f (xs @ ys) s = rbind (rfold f xs s) (rfold f ys)"
proof (induction xs arbitrary: s)
  case (Cons x xs)
  then show ?case by (cases "f x s") auto
qed simp

lemma list_all2_partner: "list_all2 P ns xs \<Longrightarrow> x \<in> set xs \<Longrightarrow> \<exists>n \<in> set ns. P n x"
  by (induction rule: list_all2_induct) auto

end
