(* ===== verification/Py_Str.thy ===== *)
theory Py_Str
  imports Prelude "HOL-Library.Sublist" "HOL-Library.Char_ord" "HOL-Library.List_Lexorder"
begin

section \<open>Python string operations\<close>

text \<open>
  The \<open>str\<close> methods and number conversions the components call, over HOL strings.
  Characters are the 8-bit characters of HOL; white space is Python's on all of them, the other
  character classes (digits, word characters, case) are Python's on the ASCII range.
\<close>

definition nl :: char where "nl = CHR 0x0A"

definition is_space :: "char \<Rightarrow> bool" where
  "is_space c \<longleftrightarrow> (let n = of_char c :: nat in n = 32 \<or> (9 \<le> n \<and> n \<le> 13) \<or> (28 \<le> n \<and> n \<le> 31) \<or> n = 133 \<or> n = 160)"

definition is_digit :: "char \<Rightarrow> bool" where
  "is_digit c \<longleftrightarrow> (let n = of_char c :: nat in 48 \<le> n \<and> n \<le> 57)"

definition is_lower :: "char \<Rightarrow> bool" where
  "is_lower c \<longleftrightarrow> (let n = of_char c :: nat in 97 \<le> n \<and> n \<le> 122)"

definition is_upper :: "char \<Rightarrow> bool" where
  "is_upper c \<longleftrightarrow> (let n = of_char c :: nat in 65 \<le> n \<and> n \<le> 90)"

definition is_word :: "char \<Rightarrow> bool" where
  "is_word c \<longleftrightarrow> is_digit c \<or> is_lower c \<or> is_upper c \<or> c = CHR ''_''"

definition to_lower :: "char \<Rightarrow> char" where
  "to_lower c = (if is_upper c then char_of (of_char c + 32 :: nat) else c)"

definition str_lower :: "string \<Rightarrow> string" where
  "str_lower s = map to_lower s"

subsection \<open>Strip, prefix, suffix\<close>

definition lstrip_by :: "(char \<Rightarrow> bool) \<Rightarrow> string \<Rightarrow> string" where
  "lstrip_by p s = dropWhile p s"

definition rstrip_by :: "(char \<Rightarrow> bool) \<Rightarrow> string \<Rightarrow> string" where
  "rstrip_by p s = rev (dropWhile p (rev s))"

definition strip_by :: "(char \<Rightarrow> bool) \<Rightarrow> string \<Rightarrow> string" where
  "strip_by p s = rstrip_by p (lstrip_by p s)"

definition str_strip :: "string \<Rightarrow> string" where
  "str_strip = strip_by is_space"

definition startswith :: "string \<Rightarrow> string \<Rightarrow> bool" where
  "startswith s p = prefix p s"

definition endswith :: "string \<Rightarrow> string \<Rightarrow> bool" where
  "endswith s p = suffix p s"

definition removeprefix :: "string \<Rightarrow> string \<Rightarrow> string" where
  "removeprefix s p = (if startswith s p then drop (length p) s else s)"

definition str_contains :: "string \<Rightarrow> string \<Rightarrow> bool" where
  "str_contains s p = sublist p s"

subsection \<open>Split, join, replace\<close>

text \<open>\<open>s.split(sep)\<close>: \<open>sep\<close> is not empty (Python raises on an empty separator).\<close>

fun split_go :: "string \<Rightarrow> string \<Rightarrow> string \<Rightarrow> string list" where
  "split_go sep acc [] = [rev acc]"
| "split_go sep acc (c # cs) =
     (if prefix sep (c # cs) then rev acc # split_go sep [] (drop (length sep - 1) cs)
      else split_go sep (c # acc) cs)"

definition str_split :: "string \<Rightarrow> string \<Rightarrow> string list" where
  "str_split sep s = split_go sep [] s"

text \<open>\<open>s.split(c, 1)\<close> for one character: the part before the first \<open>c\<close>, and the rest if any.\<close>

definition split_once :: "char \<Rightarrow> string \<Rightarrow> string list" where
  "split_once c s =
     (if c \<in> set s then [takeWhile (\<lambda>x. x \<noteq> c) s, tl (dropWhile (\<lambda>x. x \<noteq> c) s)] else [s])"

fun str_join :: "string \<Rightarrow> string list \<Rightarrow> string" where
  "str_join sep [] = []"
| "str_join sep [x] = x"
| "str_join sep (x # y # xs) = x @ sep @ str_join sep (y # xs)"

definition str_replace :: "string \<Rightarrow> string \<Rightarrow> string \<Rightarrow> string" where
  "str_replace old new s = str_join new (str_split old s)"

subsection \<open>Numbers\<close>

fun dec_digits :: "nat \<Rightarrow> string" where
  "dec_digits n =
     (if n < 10 then [char_of (48 + n)] else dec_digits (n div 10) @ [char_of (48 + n mod 10)])"

declare dec_digits.simps [simp del]

definition str_of_int :: "int \<Rightarrow> string" where
  "str_of_int i = (if i < 0 then CHR ''-'' # dec_digits (nat (- i)) else dec_digits (nat i))"

definition digit_val :: "char \<Rightarrow> nat option" where
  "digit_val c =
     (let n = of_char c :: nat in
      if is_digit c then Some (n - 48)
      else if is_lower c then Some (n - 87)
      else if is_upper c then Some (n - 55) else None)"

text \<open>
  \<open>int(s, base)\<close>: surrounding white space, a sign, for base 16 an optional \<open>0x\<close>, then
  digits with single underscores between them (or right after the \<open>0x\<close>).
\<close>

fun digits_val :: "nat \<Rightarrow> nat \<Rightarrow> string \<Rightarrow> nat option" where
  "digits_val base acc [] = Some acc"
| "digits_val base acc (c # cs) =
     (if c = CHR ''_'' then
        (case cs of [] \<Rightarrow> None
         | d # ds \<Rightarrow> (case digit_val d of None \<Rightarrow> None
             | Some v \<Rightarrow> if v < base then digits_val base (acc * base + v) ds else None))
      else (case digit_val c of None \<Rightarrow> None
         | Some v \<Rightarrow> if v < base then digits_val base (acc * base + v) cs else None))"

definition nat_literal :: "nat \<Rightarrow> string \<Rightarrow> nat option" where
  "nat_literal base s =
     (let t = (if base = 16 \<and> (startswith s ''0x'' \<or> startswith s ''0X'') then drop 2 s else s) in
      if t = [] then None
      else if hd t = CHR ''_'' \<and> t = s then None
      else digits_val base 0 t)"

definition py_int :: "nat \<Rightarrow> string \<Rightarrow> int res" where
  "py_int base s =
     (let t = str_strip s in
      of_option Value_Error
        (case t of
          [] \<Rightarrow> None
        | c # cs \<Rightarrow>
            if c = CHR ''-'' then map_option (\<lambda>n. - int n) (nat_literal base cs)
            else if c = CHR ''+'' then map_option int (nat_literal base cs)
            else map_option int (nat_literal base t)))"

subsection \<open>Lemmas\<close>

lemma startswith_append [simp]: "startswith (p @ s) p"
  by (simp add: startswith_def)

lemma startswith_refl [simp]: "startswith s s" and startswith_Nil [simp]: "startswith s []"
  by (simp_all add: startswith_def)

lemma startswith_trans: "startswith s p \<Longrightarrow> startswith p q \<Longrightarrow> startswith s q"
  unfolding startswith_def by (rule prefix_order.trans)

lemma removeprefix_append [simp]: "removeprefix (p @ s) p = s"
  by (simp add: removeprefix_def)

lemma startswith_code [code]: "startswith s p = (take (length p) s = p)"
  by (simp add: startswith_def prefix_def) (metis append_eq_conv_conj append_take_drop_id)

lemma rstrip_by_no: "(s = [] \<or> \<not> p (last s)) \<Longrightarrow> rstrip_by p s = s"
  by (cases s rule: rev_cases) (auto simp: rstrip_by_def)

lemma strip_by_idem: "strip_by p (strip_by p s) = strip_by p s"
proof -
  let ?l = "lstrip_by p s"
  let ?t = "rstrip_by p ?l"
  have last: "?t = [] \<or> \<not> p (last ?t)"
    unfolding rstrip_by_def
    by (metis dropWhile_eq_Nil_conv hd_dropWhile last_rev rev_is_Nil_conv)
  have "?t \<noteq> [] \<Longrightarrow> \<not> p (hd ?t)"
  proof -
    assume ne: "?t \<noteq> []"
    have "?l \<noteq> []" using ne by (auto simp: rstrip_by_def)
    moreover have "prefix ?t ?l"
      unfolding rstrip_by_def
      by (metis suffix_dropWhile suffix_to_prefix rev_rev_ident)
    ultimately have "hd ?t = hd ?l" using ne by (metis hd_append2 prefixE)
    moreover have "\<not> p (hd ?l)"
      using \<open>?l \<noteq> []\<close> unfolding lstrip_by_def by (metis hd_dropWhile)
    ultimately show ?thesis by simp
  qed
  then have "lstrip_by p ?t = ?t"
    by (auto simp: lstrip_by_def dropWhile_eq_self_iff)
  with last show ?thesis by (simp add: strip_by_def rstrip_by_no)
qed

lemma split_go_nonempty [simp]: "split_go sep acc s \<noteq> []"
  by (induction sep acc s rule: split_go.induct) auto

lemma str_split_nonempty [simp]: "str_split sep s \<noteq> []"
  by (simp add: str_split_def)

lemma str_join_Cons: "xs \<noteq> [] \<Longrightarrow> str_join sep (x # xs) = x @ sep @ str_join sep xs"
  by (cases xs) auto

lemma join_split_go:
  "sep \<noteq> [] \<Longrightarrow> str_join sep (split_go sep acc s) = rev acc @ s"
proof (induction sep acc s rule: split_go.induct)
  case (2 sep acc c cs)
  show ?case
  proof (cases "prefix sep (c # cs)")
    case True
    then obtain t where t: "c # cs = sep @ t" by (auto simp: prefix_def)
    with 2(3) have d: "drop (length sep - 1) cs = t"
      by (cases sep) auto
    have "split_go sep acc (c # cs) = rev acc # split_go sep [] t"
      using True d by simp
    moreover have "str_join sep (split_go sep [] t) = t"
      using 2(1) [OF True 2(3)] d by simp
    ultimately show ?thesis by (simp only: str_join_Cons [OF split_go_nonempty] t)
  next
    case False
    with 2 show ?thesis by simp
  qed
qed simp

text \<open>Splitting and joining with the same separator give the string back.\<close>

lemma str_join_split: "sep \<noteq> [] \<Longrightarrow> str_join sep (str_split sep s) = s"
  by (simp add: str_split_def join_split_go)

text \<open>With a one-character separator, no part contains it, and such parts survive the round trip.\<close>

lemma split_go_char_free:
  "x \<in> set (split_go [c] acc s) \<Longrightarrow> c \<notin> set acc \<Longrightarrow> c \<notin> set x"
  by (induction "[c]" acc s rule: split_go.induct) (auto split: if_splits)

lemma str_split_char_free: "x \<in> set (str_split [c] s) \<Longrightarrow> c \<notin> set x"
  unfolding str_split_def using split_go_char_free by fastforce

lemma split_go_prefix_free:
  "c \<notin> set x \<Longrightarrow> split_go [c] acc (x @ c # s) = (rev acc @ x) # split_go [c] [] s"
  by (induction x arbitrary: acc) auto

lemma split_go_free: "c \<notin> set x \<Longrightarrow> split_go [c] acc x = [rev acc @ x]"
  by (induction x arbitrary: acc) auto

lemma str_split_Cons: "c \<notin> set x \<Longrightarrow> str_split [c] (x @ c # s) = x # str_split [c] s"
  by (simp add: str_split_def split_go_prefix_free)

lemma str_split_free: "c \<notin> set x \<Longrightarrow> str_split [c] x = [x]"
  by (simp add: str_split_def split_go_free)

lemma str_split_join:
  "xs \<noteq> [] \<Longrightarrow> (\<And>x. x \<in> set xs \<Longrightarrow> c \<notin> set x) \<Longrightarrow> str_split [c] (str_join [c] xs) = xs"
proof (induction "[c]" xs rule: str_join.induct)
  case (3 x y xs)
  then show ?case by (simp add: str_split_Cons)
qed (auto simp: str_split_free)

lemma str_split_append:
  "str_split [c] (s @ c # t) = str_split [c] s @ str_split [c] t"
proof -
  have "split_go [c] acc (s @ c # t) = split_go [c] acc s @ split_go [c] [] t" for acc
    by (induction s arbitrary: acc) auto
  then show ?thesis by (simp add: str_split_def)
qed

lemma split_once_join: "length (split_once c s) = 2 \<Longrightarrow> s = split_once c s ! 0 @ c # split_once c s ! 1"
proof -
  assume "length (split_once c s) = 2"
  then have "c \<in> set s" by (auto simp: split_once_def split: if_splits)
  then have "dropWhile (\<lambda>x. x \<noteq> c) s = c # tl (dropWhile (\<lambda>x. x \<noteq> c) s)"
    by (metis (mono_tags, lifting) dropWhile_eq_Nil_conv hd_dropWhile list.collapse)
  with \<open>c \<in> set s\<close> show ?thesis
    by (simp add: split_once_def)
qed

subsection \<open>Printed numbers are read back\<close>

lemma digit_char:
  assumes "n < 10"
  shows "digit_val (char_of (48 + n)) = Some n" "(char_of (48 + n) :: char) \<noteq> CHR ''_''"
proof -
  have "list_all (\<lambda>n. digit_val (char_of (48 + n)) = Some n \<and> (char_of (48 + n) :: char) \<noteq> CHR ''_'') [0..<10]" by code_simp
  with assms show "digit_val (char_of (48 + n)) = Some n" "(char_of (48 + n) :: char) \<noteq> CHR ''_''" by (auto simp: list_all_iff)
qed

lemma dec_digits_chars: "CHR ''_'' \<notin> set (dec_digits n)"
proof (induction n rule: dec_digits.induct)
  case (1 n)
  show ?case
  proof (cases "n < 10")
    case True
    then show ?thesis using digit_char(2) [of n] by (subst dec_digits.simps) auto
  next
    case False
    then show ?thesis using 1 digit_char(2) [of "n mod 10"] by (subst dec_digits.simps) auto
  qed
qed

lemma digits_val_append:
  "CHR ''_'' \<notin> set xs \<Longrightarrow> digits_val b acc (xs @ ys) = (case digits_val b acc xs of None \<Rightarrow> None | Some v \<Rightarrow> digits_val b v ys)"
  by (induction xs arbitrary: acc) (auto split: option.splits)

lemma digits_val_dec: "digits_val 10 0 (dec_digits n) = Some n"
proof (induction n rule: dec_digits.induct)
  case (1 n)
  show ?case
  proof (cases "n < 10")
    case True
    then show ?thesis using digit_char [of n] by (subst dec_digits.simps) auto
  next
    case False
    then show ?thesis
      using 1 digit_char [of "n mod 10"] by (subst dec_digits.simps) (simp add: digits_val_append dec_digits_chars)
  qed
qed

end
