(* ===== verification/Py_Re.thy ===== *)
theory Py_Re
  imports Py_Str
begin

section \<open>The regular expressions of Python's \<open>re\<close>\<close>

text \<open>
  A backtracking matcher for the operators the modelled patterns use, in the form of a
  list of successes: \<open>ms r st\<close> lists the states in which a match of \<open>r\<close> started in \<open>st\<close>
  can end, in the order in which \<open>re\<close> tries them (greedy operators try the longest
  first, lazy ones the shortest, alternatives from left to right), so that the first
  element is the match \<open>re.match\<close> returns.  A state is the position in the subject, the
  rest of the subject and the groups captured so far, the latest first.  A loop body
  that matches the empty string ends the loop.
\<close>

type_synonym captures = "(nat \<times> string) list"
type_synonym mstate = "nat \<times> string \<times> captures"

datatype re =
    Eps
  | Chr "char \<Rightarrow> bool"
  | Cat re re
  | Alt re re
  | Star re
  | LazyStar re
  | Grp nat re
  | Bos
  | Eos

fun star_ms :: "(mstate \<Rightarrow> mstate list) \<Rightarrow> nat \<Rightarrow> mstate \<Rightarrow> mstate list" where
  "star_ms f 0 st = [st]"
| "star_ms f (Suc n) (i, s, g) =
     concat (map (\<lambda>(i', s', g'). if length s' < length s then star_ms f n (i', s', g') else [])
       (f (i, s, g))) @ [(i, s, g)]"

fun lazy_ms :: "(mstate \<Rightarrow> mstate list) \<Rightarrow> nat \<Rightarrow> mstate \<Rightarrow> mstate list" where
  "lazy_ms f 0 st = [st]"
| "lazy_ms f (Suc n) (i, s, g) =
     (i, s, g) # concat (map (\<lambda>(i', s', g').
       if length s' < length s then lazy_ms f n (i', s', g') else []) (f (i, s, g)))"

primrec ms :: "re \<Rightarrow> mstate \<Rightarrow> mstate list" where
  "ms Eps st = [st]"
| "ms (Chr p) st =
     (case st of (i, s, g) \<Rightarrow>
       (case s of [] \<Rightarrow> [] | c # cs \<Rightarrow> if p c then [(Suc i, cs, g)] else []))"
| "ms (Cat a b) st = concat (map (ms b) (ms a st))"
| "ms (Alt a b) st = ms a st @ ms b st"
| "ms (Star a) st = star_ms (ms a) (length (fst (snd st))) st"
| "ms (LazyStar a) st = lazy_ms (ms a) (length (fst (snd st))) st"
| "ms (Grp n a) st =
     (case st of (i, s, g) \<Rightarrow>
       map (\<lambda>(i', s', g'). (i', s', (n, take (length s - length s') s) # g')) (ms a st))"
| "ms Bos st = (case st of (i, s, g) \<Rightarrow> if i = 0 then [st] else [])"
| "ms Eos st = (case st of (i, s, g) \<Rightarrow> if s = [] \<or> s = [nl] then [st] else [])"

subsection \<open>Derived operators\<close>

definition Opt :: "re \<Rightarrow> re" where "Opt r = Alt r Eps"

definition Plus :: "re \<Rightarrow> re" where "Plus r = Cat r (Star r)"

fun Lit :: "string \<Rightarrow> re" where
  "Lit [] = Eps"
| "Lit (c # cs) = Cat (Chr (\<lambda>x. x = c)) (Lit cs)"

fun Seq :: "re list \<Rightarrow> re" where
  "Seq [] = Eps"
| "Seq [r] = r"
| "Seq (r # rs) = Cat r (Seq rs)"

fun Choice :: "re list \<Rightarrow> re" where
  "Choice [] = Chr (\<lambda>_. False)"
| "Choice [r] = r"
| "Choice (r # rs) = Alt r (Choice rs)"

text \<open>\<open>r{n}\<close> and \<open>r{m,n}\<close>, greedy.\<close>

fun Times :: "nat \<Rightarrow> re \<Rightarrow> re" where
  "Times 0 r = Eps"
| "Times (Suc n) r = Cat r (Times n r)"

fun UpTo :: "nat \<Rightarrow> re \<Rightarrow> re" where
  "UpTo 0 r = Eps"
| "UpTo (Suc n) r = Opt (Cat r (UpTo n r))"

definition Rep :: "nat \<Rightarrow> nat \<Rightarrow> re \<Rightarrow> re" where
  "Rep m n r = Cat (Times m r) (UpTo (n - m) r)"

definition any_char :: "char \<Rightarrow> bool" where "any_char c \<longleftrightarrow> c \<noteq> nl"

subsection \<open>\<open>match\<close>, \<open>fullmatch\<close>, \<open>search\<close>, \<open>finditer\<close>, \<open>split\<close> and \<open>sub\<close>\<close>

definition re_match :: "re \<Rightarrow> string \<Rightarrow> mstate option" where
  "re_match r s = (case ms r (0, s, []) of [] \<Rightarrow> None | st # _ \<Rightarrow> Some st)"

definition re_fullmatch :: "re \<Rightarrow> string \<Rightarrow> mstate option" where
  "re_fullmatch r s = find (\<lambda>st. fst (snd st) = []) (ms r (0, s, []))"

definition re_group :: "mstate \<Rightarrow> nat \<Rightarrow> string option" where
  "re_group st n = map_of (snd (snd st)) n"

text \<open>The first match at or after position \<open>i\<close>: where it starts and its final state.\<close>

fun re_search_from :: "re \<Rightarrow> nat \<Rightarrow> string \<Rightarrow> (nat \<times> mstate) option" where
  "re_search_from r i s =
     (case ms r (i, s, []) of
        st # _ \<Rightarrow> Some (i, st)
      | [] \<Rightarrow> (case s of [] \<Rightarrow> None | c # cs \<Rightarrow> re_search_from r (Suc i) cs))"

declare re_search_from.simps [simp del]

definition re_search :: "re \<Rightarrow> string \<Rightarrow> (nat \<times> mstate) option" where
  "re_search r s = re_search_from r 0 s"

text \<open>
  \<open>re.sub\<close>: after an empty match the next one has to advance, and where none does, one
  character is copied.  The flag says that the next match has to advance.  The third
  branch of the inner test cannot be reached (an accepted match is not empty when the
  flag is set); it is there for the termination proof only.
\<close>

function sub_from :: "re \<Rightarrow> (mstate \<Rightarrow> string) \<Rightarrow> bool \<Rightarrow> nat \<Rightarrow> string \<Rightarrow> string" where
  "sub_from r f adv i s =
     (case filter (\<lambda>(i', s', g'). \<not> adv \<or> length s' < length s) (ms r (i, s, [])) of
        [] \<Rightarrow> (case s of [] \<Rightarrow> [] | c # cs \<Rightarrow> c # sub_from r f False (Suc i) cs)
      | (i', s', g') # _ \<Rightarrow>
          (if length s' < length s then f (i', s', g') @ sub_from r f False i' s'
           else if \<not> adv then f (i', s', g') @ sub_from r f True i s
           else []))"
  by pat_completeness auto
termination
  by (relation "measures [\<lambda>(r, f, adv, i, s). length s, \<lambda>(r, f, adv, i, s). if adv then 0 else 1]")
     auto

declare sub_from.simps [simp del]

definition re_sub :: "re \<Rightarrow> (mstate \<Rightarrow> string) \<Rightarrow> string \<Rightarrow> string" where
  "re_sub r f s = sub_from r f False 0 s"

text \<open>
  \<open>re.finditer\<close> and \<open>re.split\<close> for patterns whose matches are never empty (all the
  patterns the code passes to them): the matches in order, and the parts between them.
\<close>

function finditer_from :: "re \<Rightarrow> nat \<Rightarrow> string \<Rightarrow> mstate list" where
  "finditer_from r i s =
     (case ms r (i, s, []) of
        [] \<Rightarrow> (case s of [] \<Rightarrow> [] | c # cs \<Rightarrow> finditer_from r (Suc i) cs)
      | (i', s', g') # _ \<Rightarrow>
          (if length s' < length s then (i', s', g') # finditer_from r i' s' else []))"
  by pat_completeness auto
termination
  by (relation "measure (\<lambda>(r, i, s). length s)") auto

declare finditer_from.simps [simp del]

definition re_finditer :: "re \<Rightarrow> string \<Rightarrow> mstate list" where
  "re_finditer r s = finditer_from r 0 s"

function resplit_from :: "re \<Rightarrow> nat \<Rightarrow> string \<Rightarrow> string \<Rightarrow> string list" where
  "resplit_from r i acc s =
     (case ms r (i, s, []) of
        [] \<Rightarrow> (case s of [] \<Rightarrow> [rev acc] | c # cs \<Rightarrow> resplit_from r (Suc i) (c # acc) cs)
      | (i', s', g') # _ \<Rightarrow>
          (if length s' < length s then rev acc # resplit_from r i' [] s' else [rev acc @ s]))"
  by pat_completeness auto
termination
  by (relation "measure (\<lambda>(r, i, acc, s). length s)") auto

declare resplit_from.simps [simp del]

definition re_split :: "re \<Rightarrow> string \<Rightarrow> string list" where
  "re_split r s = resplit_from r 0 [] s"

subsection \<open>The language of a pattern, and the matcher against it\<close>

text \<open>
  The reference semantics: the set of strings a pattern without anchors describes.  The
  matcher enumerates exactly the prefixes of the subject in that set, so \<open>fullmatch\<close>
  succeeds exactly on the strings of the language; the fuel of the star (the length of the
  rest of the subject) is always enough.
\<close>

inductive_set kstar :: "string set \<Rightarrow> string set" for A where
  kstar_Nil: "[] \<in> kstar A"
| kstar_step: "u \<in> A \<Longrightarrow> u \<noteq> [] \<Longrightarrow> v \<in> kstar A \<Longrightarrow> u @ v \<in> kstar A"

primrec lang :: "re \<Rightarrow> string set" where
  "lang Eps = {[]}"
| "lang (Chr p) = {[c] |c. p c}"
| "lang (Cat a b) = {u @ v |u v. u \<in> lang a \<and> v \<in> lang b}"
| "lang (Alt a b) = lang a \<union> lang b"
| "lang (Star a) = kstar (lang a)"
| "lang (LazyStar a) = kstar (lang a)"
| "lang (Grp n a) = lang a"
| "lang Bos = {}"
| "lang Eos = {}"

primrec anchor_free :: "re \<Rightarrow> bool" where
  "anchor_free Eps = True"
| "anchor_free (Chr p) = True"
| "anchor_free (Cat a b) = (anchor_free a \<and> anchor_free b)"
| "anchor_free (Alt a b) = (anchor_free a \<and> anchor_free b)"
| "anchor_free (Star a) = anchor_free a"
| "anchor_free (LazyStar a) = anchor_free a"
| "anchor_free (Grp n a) = anchor_free a"
| "anchor_free Bos = False"
| "anchor_free Eos = False"

text \<open>What a matcher that consumes a string of \<open>A\<close> returns, and that it returns all of them.\<close>

definition ms_sound :: "(mstate \<Rightarrow> mstate list) \<Rightarrow> string set \<Rightarrow> bool" where
  "ms_sound f A \<longleftrightarrow> (\<forall>i s g i' s' g'. (i', s', g') \<in> set (f (i, s, g)) \<longrightarrow>
     (\<exists>u \<in> A. s = u @ s' \<and> i' = i + length u))"

definition ms_complete :: "(mstate \<Rightarrow> mstate list) \<Rightarrow> string set \<Rightarrow> bool" where
  "ms_complete f A \<longleftrightarrow> (\<forall>i u s' g. u \<in> A \<longrightarrow>
     (\<exists>g'. (i + length u, s', g') \<in> set (f (i, u @ s', g))))"

lemma ms_soundD:
  "ms_sound f A \<Longrightarrow> (i', s', g') \<in> set (f (i, s, g)) \<Longrightarrow> \<exists>u \<in> A. s = u @ s' \<and> i' = i + length u"
  unfolding ms_sound_def by blast

lemma ms_completeD:
  "ms_complete f A \<Longrightarrow> u \<in> A \<Longrightarrow> \<exists>g'. (i + length u, s', g') \<in> set (f (i, u @ s', g))"
  by (simp add: ms_complete_def)

lemma star_sound:
  assumes "ms_sound f A" and "(i', s', g') \<in> set (star_ms f n (i, s, g))"
  shows "\<exists>u \<in> kstar A. s = u @ s' \<and> i' = i + length u"
  using assms(2)
proof (induction n arbitrary: i s g)
  case (Suc n)
  then consider "(i', s', g') = (i, s, g)"
    | i1 s1 g1 where "(i1, s1, g1) \<in> set (f (i, s, g))" "length s1 < length s"
        "(i', s', g') \<in> set (star_ms f n (i1, s1, g1))"
    by (auto split: prod.splits if_splits)
  then show ?case
  proof cases
    case 1
    then show ?thesis by (auto intro: kstar_Nil)
  next
    case 2
    from Suc.IH [OF 2(3)] obtain v where "v \<in> kstar A" "s1 = v @ s'" "i' = i1 + length v"
      by blast
    moreover from ms_soundD [OF assms(1) 2(1)] obtain u where "u \<in> A" "s = u @ s1" "i1 = i + length u"
      by blast
    ultimately show ?thesis using 2(2) by (intro bexI [of _ "u @ v"]) (auto intro: kstar_step)
  qed
qed (auto intro: kstar_Nil)

lemma star_complete:
  assumes "ms_complete f A" and "u \<in> kstar A" and "length u \<le> n"
  shows "\<exists>g'. (i + length u, s', g') \<in> set (star_ms f n (i, u @ s', g))"
  using assms(2,3)
proof (induction u arbitrary: n i g rule: kstar.induct)
  case kstar_Nil
  then show ?case by (cases n) auto
next
  case (kstar_step u v)
  then obtain m where n: "n = Suc m" and "length v \<le> m" by (cases n; cases u) auto
  from ms_completeD [OF assms(1) kstar_step.hyps(1)] obtain g1
    where g1: "(i + length u, v @ s', g1) \<in> set (f (i, u @ v @ s', g))" by blast
  from kstar_step.IH [OF \<open>length v \<le> m\<close>] obtain g2
    where g2: "(i + length u + length v, s', g2) \<in> set (star_ms f m (i + length u, v @ s', g1))" by blast
  have "(i + length u + length v, s', g2) \<in> set (star_ms f n (i, u @ v @ s', g))"
  proof -
    have "\<exists>x \<in> set (f (i, u @ v @ s', g)). (i + length u + length v, s', g2) \<in>
        set (case x of (i', t, g') \<Rightarrow>
          if length t < length (u @ v @ s') then star_ms f m (i', t, g') else [])"
      using g2 kstar_step.hyps(2) by (intro bexI [OF _ g1]) simp
    then show ?thesis by (simp add: n)
  qed
  then show ?case by (auto simp: add.assoc)
qed

text \<open>The lazy star tries the same states in another order.\<close>

lemma set_lazy_ms: "set (lazy_ms f n st) = set (star_ms f n st)"
proof (induction n arbitrary: st)
  case (Suc n)
  obtain i s g where "st = (i, s, g)" using prod_cases3 by blast
  with Suc show ?case by (auto split: prod.splits if_splits)
qed simp

lemma ms_sound_lang: "anchor_free r \<Longrightarrow> ms_sound (ms r) (lang r)"
proof (induction r)
  case (Cat a b)
  then have "ms_sound (ms a) (lang a)" "ms_sound (ms b) (lang b)" by auto
  then show ?case
    unfolding ms_sound_def by (auto 0 3) (metis add.assoc append.assoc length_append)
next
  case (Star a)
  then have "ms_sound (ms a) (lang a)" by simp
  from star_sound [OF this] show ?case unfolding ms_sound_def by simp
next
  case (LazyStar a)
  then have "ms_sound (ms a) (lang a)" by simp
  from star_sound [OF this] show ?case unfolding ms_sound_def by (simp add: set_lazy_ms)
next
  case (Alt a b)
  then show ?case unfolding ms_sound_def by fastforce
next
  case (Grp n a)
  then have "ms_sound (ms a) (lang a)" by simp
  from ms_soundD [OF this] show ?case unfolding ms_sound_def by fastforce
qed (auto simp: ms_sound_def split: list.splits if_splits)

lemma ms_complete_lang: "anchor_free r \<Longrightarrow> ms_complete (ms r) (lang r)"
proof (induction r)
  case (Cat a b)
  then have a: "ms_complete (ms a) (lang a)" and b: "ms_complete (ms b) (lang b)" by auto
  show ?case
    unfolding ms_complete_def
  proof (intro allI impI)
    fix i w s' g
    assume "w \<in> lang (Cat a b)"
    then obtain u v where w: "w = u @ v" "u \<in> lang a" "v \<in> lang b" by auto
    from ms_completeD [OF a w(2)] obtain g1
      where g1: "(i + length u, v @ s', g1) \<in> set (ms a (i, u @ v @ s', g))" by blast
    from ms_completeD [OF b w(3)] obtain g2
      where "(i + length u + length v, s', g2) \<in> set (ms b (i + length u, v @ s', g1))" by blast
    with g1 show "\<exists>g'. (i + length w, s', g') \<in> set (ms (Cat a b) (i, w @ s', g))"
      by (auto simp: w(1) add.assoc intro!: exI [of _ g2] bexI [of _ "(i + length u, v @ s', g1)"])
  qed
next
  case (Star a)
  then have "ms_complete (ms a) (lang a)" by simp
  from star_complete [OF this] show ?case by (simp add: ms_complete_def)
next
  case (LazyStar a)
  then have "ms_complete (ms a) (lang a)" by simp
  from star_complete [OF this] show ?case by (simp add: ms_complete_def set_lazy_ms)
next
  case (Alt a b)
  then show ?case unfolding ms_complete_def by fastforce
next
  case (Grp n a)
  then have c: "ms_complete (ms a) (lang a)" by simp
  show ?case
    unfolding ms_complete_def
  proof (intro allI impI)
    fix i u s' g
    assume "u \<in> lang (Grp n a)"
    then obtain g1 where "(i + length u, s', g1) \<in> set (ms a (i, u @ s', g))"
      using ms_completeD [OF c] by fastforce
    then have "(i + length u, s', (n, take (length (u @ s') - length s') (u @ s')) # g1)
        \<in> set (ms (Grp n a) (i, u @ s', g))"
      by (simp add: image_iff) (rule bexI [rotated], assumption, simp)
    then show "\<exists>g'. (i + length u, s', g') \<in> set (ms (Grp n a) (i, u @ s', g))" by blast
  qed
qed (auto simp: ms_complete_def)

theorem fullmatch_lang:
  assumes "anchor_free r"
  shows "re_fullmatch r s \<noteq> None \<longleftrightarrow> s \<in> lang r"
proof -
  have "re_fullmatch r s \<noteq> None \<longleftrightarrow> (\<exists>i' g'. (i', [], g') \<in> set (ms r (0, s, [])))"
    by (auto simp: re_fullmatch_def find_None_iff)
  also have "\<dots> \<longleftrightarrow> s \<in> lang r"
    using ms_soundD [OF ms_sound_lang [OF assms], of _ "[]" _ 0 s]
      ms_completeD [OF ms_complete_lang [OF assms], of s 0 "[]" "[]"]
    by fastforce
  finally show ?thesis .
qed

theorem match_lang:
  assumes "anchor_free r"
  shows "re_match r s \<noteq> None \<longleftrightarrow> (\<exists>u v. u \<in> lang r \<and> s = u @ v)"
proof -
  have "re_match r s \<noteq> None \<longleftrightarrow> (\<exists>st. st \<in> set (ms r (0, s, [])))"
    by (auto simp: re_match_def split: list.splits)
  also have "\<dots> \<longleftrightarrow> (\<exists>u v. u \<in> lang r \<and> s = u @ v)"
    using ms_soundD [OF ms_sound_lang [OF assms], of _ _ _ 0 s]
      ms_completeD [OF ms_complete_lang [OF assms], of _ 0 _ "[]"]
    by fastforce
  finally show ?thesis .
qed

subsection \<open>Languages of the derived operators\<close>

lemma lang_Lit [simp]: "lang (Lit w) = {w}"
  by (induction w) auto

lemma anchor_free_Lit [simp]: "anchor_free (Lit w)"
  by (induction w) auto

lemma lang_Opt [simp]: "lang (Opt r) = insert [] (lang r)"
  by (auto simp: Opt_def)

lemma anchor_free_Opt [simp]: "anchor_free (Opt r) = anchor_free r"
  by (simp add: Opt_def)

lemma lang_Choice [simp]: "lang (Choice rs) = (\<Union>r \<in> set rs. lang r)"
  by (induction rs rule: Choice.induct) auto

lemma anchor_free_Choice [simp]: "anchor_free (Choice rs) \<longleftrightarrow> (\<forall>r \<in> set rs. anchor_free r)"
  by (induction rs rule: Choice.induct) auto

lemma kstar_chars: "kstar {[c] |c. p c} = {s. \<forall>c \<in> set s. p c}"
proof (intro set_eqI iffI)
  fix s
  assume "s \<in> kstar {[c] |c. p c}"
  then show "s \<in> {s. \<forall>c \<in> set s. p c}" by (induction rule: kstar.induct) auto
next
  fix s
  assume "s \<in> {s. \<forall>c \<in> set s. p c}"
  then show "s \<in> kstar {[c] |c. p c}"
  proof (induction s)
    case (Cons c s)
    then show ?case using kstar_step [of "[c]" "{[c] |c. p c}" s] by auto
  qed (rule kstar_Nil)
qed

lemma lang_Star_Chr [simp]: "lang (Star (Chr p)) = {s. \<forall>c \<in> set s. p c}"
  by (simp add: kstar_chars)

lemma lang_Plus_Chr [simp]: "lang (Plus (Chr p)) = {s. s \<noteq> [] \<and> (\<forall>c \<in> set s. p c)}"
proof -
  have "s \<in> lang (Plus (Chr p)) \<longleftrightarrow> s \<noteq> [] \<and> (\<forall>c \<in> set s. p c)" for s
  proof (cases s)
    case (Cons c cs)
    have "\<exists>u v. c # cs = u @ v \<and> (\<exists>d. u = [d] \<and> p d) \<and> (\<forall>x \<in> set v. p x)"
      if "p c" "\<forall>x \<in> set cs. p x"
      using that by (intro exI [of _ "[c]"] exI [of _ cs]) auto
    then show ?thesis by (auto simp: Cons Plus_def kstar_chars)
  qed (auto simp: Plus_def)
  then show ?thesis by blast
qed

lemma anchor_free_Plus [simp]: "anchor_free (Plus r) = anchor_free r"
  by (simp add: Plus_def)

declare lang.simps(3) [simp del]

lemma lang_Cat: "lang (Cat a b) = {u @ v |u v. u \<in> lang a \<and> v \<in> lang b}"
  by (simp add: lang.simps(3))

lemma in_lang_Cat: "w \<in> lang (Cat a b) \<longleftrightarrow> (\<exists>u v. w = u @ v \<and> u \<in> lang a \<and> v \<in> lang b)"
  by (auto simp: lang_Cat)

subsection \<open>The first success\<close>

text \<open>
  \<open>re.match\<close>, \<open>re.sub\<close> and \<open>re.finditer\<close> use the first success only.  These rules
  compute it symbolically for the deterministic patterns of the code: a run of characters
  of a class followed by something outside the class is taken whole.
\<close>

named_theorems firsts_intros "introduction rules for the first success of a pattern"

definition firsts :: "re \<Rightarrow> mstate \<Rightarrow> mstate \<Rightarrow> bool" where
  "firsts r st st' \<longleftrightarrow> (\<exists>l. ms r st = st' # l)"

lemma firsts_Eps [firsts_intros]: "firsts Eps st st"
  by (simp add: firsts_def)

lemma firsts_Chr [firsts_intros]: "p c \<Longrightarrow> firsts (Chr p) (i, c # cs, g) (Suc i, cs, g)"
  by (simp add: firsts_def)

lemma firsts_Cat [firsts_intros]: "firsts a st x \<Longrightarrow> firsts b x y \<Longrightarrow> firsts (Cat a b) st y"
  by (auto simp: firsts_def)

lemma firsts_Grp [firsts_intros]:
  "firsts a (i, u @ s, g) (i', s, g') \<Longrightarrow> firsts (Grp n a) (i, u @ s, g) (i', s, (n, u) # g')"
  by (auto simp: firsts_def)

lemma firsts_Alt_left: "firsts a st x \<Longrightarrow> firsts (Alt a b) st x"
  by (auto simp: firsts_def)

lemma firsts_Alt_right: "ms a st = [] \<Longrightarrow> firsts b st x \<Longrightarrow> firsts (Alt a b) st x"
  by (auto simp: firsts_def)

lemma firsts_Opt_some: "firsts a st x \<Longrightarrow> firsts (Opt a) st x"
  by (simp add: Opt_def firsts_Alt_left)

lemma firsts_Opt_none: "ms a st = [] \<Longrightarrow> firsts (Opt a) st st"
  by (simp add: Opt_def firsts_Alt_right firsts_Eps)

lemma star_ms_run:
  assumes "\<forall>c \<in> set u. p c" and "s = [] \<or> \<not> p (hd s)" and "length u \<le> n"
  shows "\<exists>l. star_ms (ms (Chr p)) n (i, u @ s, g) = (i + length u, s, g) # l"
  using assms(1,3)
proof (induction u arbitrary: n i)
  case Nil
  have "ms (Chr p) (i, s, g) = []" using assms(2) by (cases s) auto
  then show ?case by (cases n) auto
next
  case (Cons c u)
  then obtain m where n: "n = Suc m" and "length u \<le> m" by (cases n) auto
  with Cons.prems Cons.IH [of m "Suc i"] show ?case by (auto simp: n)
qed

lemma firsts_Star_run [firsts_intros]:
  "\<forall>c \<in> set u. p c \<Longrightarrow> s = [] \<or> \<not> p (hd s) \<Longrightarrow>
     firsts (Star (Chr p)) (i, u @ s, g) (i + length u, s, g)"
  using star_ms_run [of u p s "length (u @ s)"] by (simp add: firsts_def)

lemma firsts_Plus_run [firsts_intros]:
  assumes "u \<noteq> []" and "\<forall>c \<in> set u. p c" and "s = [] \<or> \<not> p (hd s)"
  shows "firsts (Plus (Chr p)) (i, u @ s, g) (i + length u, s, g)"
proof -
  obtain c v where u: "u = c # v" using assms(1) by (cases u) auto
  have "firsts (Chr p) (i, u @ s, g) (Suc i, v @ s, g)"
    using assms(2) by (auto simp: u intro: firsts_Chr)
  moreover have "firsts (Star (Chr p)) (Suc i, v @ s, g) (Suc i + length v, s, g)"
    using assms(2,3) by (intro firsts_Star_run) (auto simp: u)
  ultimately show ?thesis
    unfolding Plus_def by (simp add: u firsts_Cat)
qed

lemma firsts_Lit [firsts_intros]: "firsts (Lit w) (i, w @ s, g) (i + length w, s, g)"
proof (induction w arbitrary: i)
  case (Cons c w)
  have "firsts (Chr (\<lambda>x. x = c)) (i, c # w @ s, g) (Suc i, w @ s, g)" by (rule firsts_Chr) simp
  with Cons [of "Suc i"] show ?case by (auto intro: firsts_Cat)
qed (auto intro: firsts_Eps)

lemma firsts_match: "firsts r (0, s, []) st \<Longrightarrow> re_match r s = Some st"
  by (auto simp: firsts_def re_match_def)

lemma no_match_lang:
  assumes "anchor_free r" and "\<And>u v. s = u @ v \<Longrightarrow> u \<notin> lang r"
  shows "ms r (i, s, g) = []"
proof (rule ccontr)
  assume "ms r (i, s, g) \<noteq> []"
  then obtain i' s' g' where "(i', s', g') \<in> set (ms r (i, s, g))"
    by (metis list.set_intros(1) neq_Nil_conv prod_cases3)
  from ms_soundD [OF ms_sound_lang [OF assms(1)] this] assms(2) show False by blast
qed

text \<open>A substitution whose pattern matches the whole subject once and not the empty string.\<close>

lemma sub_whole:
  assumes "firsts r (0, s, []) (i', [], g')" and "s \<noteq> []" and "ms r (i', [], []) = []"
  shows "re_sub r f s = f (i', [], g')"
  using assms by (auto simp: re_sub_def firsts_def sub_from.simps [of r f False])

text \<open>All the successes of a run, longest first, for patterns that do backtrack.\<close>

lemma star_ms_all:
  assumes "\<forall>c \<in> set u. p c" and "s = [] \<or> \<not> p (hd s)" and "length u \<le> n"
  shows "star_ms (ms (Chr p)) n (i, u @ s, g) =
    map (\<lambda>k. (i + k, drop k u @ s, g)) (rev [0..<Suc (length u)])"
  using assms(1,3)
proof (induction u arbitrary: n i)
  case Nil
  have "ms (Chr p) (i, s, g) = []" using assms(2) by (cases s) auto
  then show ?case by (cases n) auto
next
  case (Cons c u)
  then obtain m where n: "n = Suc m" and "length u \<le> m" by (cases n) auto
  have "[0..<Suc (length (c # u))] = 0 # map Suc [0..<Suc (length u)]"
    by (simp add: map_Suc_upt upt_conv_Cons del: upt_Suc)
  then have "rev [0..<Suc (length (c # u))] = map Suc (rev [0..<Suc (length u)]) @ [0]"
    by (metis rev.simps(2) rev_map)
  with Cons \<open>length u \<le> m\<close> show ?case by (simp add: n del: upt_Suc)
qed

lemma Plus_ms_all:
  assumes "u \<noteq> []" and "\<forall>c \<in> set u. p c" and "s = [] \<or> \<not> p (hd s)"
  shows "ms (Plus (Chr p)) (i, u @ s, g) =
    map (\<lambda>k. (i + k, drop k u @ s, g)) (rev [1..<Suc (length u)])"
proof -
  obtain c v where u: "u = c # v" using assms(1) by (cases u) auto
  have up: "[1..<Suc (length u)] = map Suc [0..<Suc (length v)]"
    unfolding map_Suc_upt u by simp
  have "star_ms (ms (Chr p)) (length (v @ s)) (Suc i, v @ s, g) =
      map (\<lambda>k. (Suc i + k, drop k v @ s, g)) (rev [0..<Suc (length v)])"
    using assms by (intro star_ms_all) (auto simp: u)
  then show ?thesis
    unfolding up Plus_def using assms(2) by (simp add: u rev_map del: upt_Suc)
qed

lemma ms_Grp_runs:
  assumes "ms a (i, s, g) = map (\<lambda>k. (i + k, drop k s, g)) ks" and "\<And>k. k \<in> set ks \<Longrightarrow> k \<le> length s"
  shows "ms (Grp n a) (i, s, g) = map (\<lambda>k. (i + k, drop k s, (n, take k s) # g)) ks"
  using assms by simp

lemma firsts_Cat_skip:
  assumes "ms a st = xs @ y # ys" and "\<And>x. x \<in> set xs \<Longrightarrow> ms b x = []" and "firsts b y z"
  shows "firsts (Cat a b) st z"
proof -
  have dead: "concat (map (ms b) xs) = []" using assms(2) by simp
  obtain l where "ms b y = z # l" using assms(3) by (auto simp: firsts_def)
  then have "ms (Cat a b) st = [] @ (z # l) @ concat (map (ms b) ys)"
    by (simp only: ms.simps(3) assms(1) map_append list.map concat_append concat.simps dead)
  then show ?thesis by (simp add: firsts_def)
qed

subsection \<open>What a group captures\<close>

text \<open>A pattern without groups captures nothing.\<close>

primrec group_free :: "re \<Rightarrow> bool" where
  "group_free Eps = True"
| "group_free (Chr p) = True"
| "group_free (Cat a b) = (group_free a \<and> group_free b)"
| "group_free (Alt a b) = (group_free a \<and> group_free b)"
| "group_free (Star a) = group_free a"
| "group_free (LazyStar a) = group_free a"
| "group_free (Grp n a) = False"
| "group_free Bos = True"
| "group_free Eos = True"

lemma star_group_free:
  assumes "\<And>i s g i' s' g'. (i', s', g') \<in> set (f (i, s, g)) \<Longrightarrow> g' = g"
    and "(i', s', g') \<in> set (star_ms f n (i, s, g))"
  shows "g' = g"
  using assms(2)
proof (induction n arbitrary: i s g)
  case (Suc n)
  then show ?case using assms(1) by (fastforce split: prod.splits if_splits)
qed simp

lemma group_free_captures:
  "group_free r \<Longrightarrow> (i', s', g') \<in> set (ms r (i, s, g)) \<Longrightarrow> g' = g"
proof (induction r arbitrary: i s g i' s' g')
  case (Star r)
  then show ?case using star_group_free [of "ms r"] by auto
next
  case (LazyStar r)
  then show ?case using star_group_free [of "ms r"] by (auto simp: set_lazy_ms)
next
  case (Cat a b)
  then show ?case by fastforce
qed (auto split: list.splits if_splits)

lemma group_free_UpTo [simp]: "group_free r \<Longrightarrow> group_free (UpTo n r)"
  by (induction n) (auto simp: Opt_def)

lemma group_free_Lit [simp]: "group_free (Lit w)"
  by (induction w) auto

lemma Grp_result:
  assumes "(i', s', g') \<in> set (ms (Grp n r) (i, s, g))" and "anchor_free r" and "group_free r"
  shows "\<exists>u \<in> lang r. s = u @ s' \<and> i' = i + length u \<and> g' = (n, u) # g"
proof -
  from assms(1) obtain g1 where m: "(i', s', g1) \<in> set (ms r (i, s, g))"
    and g: "g' = (n, take (length s - length s') s) # g1" by auto
  from ms_soundD [OF ms_sound_lang [OF assms(2)] m] obtain u
    where "u \<in> lang r" "s = u @ s'" "i' = i + length u" by blast
  with group_free_captures [OF assms(3) m] g show ?thesis by auto
qed

end
