(* ===== verification/Py_Dict.thy ===== *)
theory Py_Dict
  imports Prelude
begin

section \<open>Insertion-ordered dictionaries\<close>

text \<open>
  The contract of a Python \<open>dict\<close> the components rely on, as a locale: lookup, store
  and the key order.  The lemmas about grouping (\<open>d.setdefault(k, []) + vs\<close>, the way
  \<open>get_rules\<close>, \<open>load\<close> and the manifest editor build their tables) are proved once
  against the contract and used through its interpretation on association lists.
\<close>

locale ordered_dict =
  fixes lookup :: "'d \<Rightarrow> 'k \<Rightarrow> 'v option"
    and store :: "'k \<Rightarrow> 'v \<Rightarrow> 'd \<Rightarrow> 'd"
    and key_list :: "'d \<Rightarrow> 'k list"
  assumes lookup_store: "lookup (store k v d) = (lookup d)(k \<mapsto> v)"
    and keys_store: "key_list (store k v d) =
      (if k \<in> set (key_list d) then key_list d else key_list d @ [k])"
    and lookup_keys: "lookup d k = None \<longleftrightarrow> k \<notin> set (key_list d)"
begin

text \<open>Storing a list of bindings in order, as \<open>dict.update\<close> or a loop of assignments.\<close>

lemma lookup_fold_store:
  "lookup (fold (\<lambda>(k, v). store k v) ps d) k =
     (case map_of (rev ps) k of None \<Rightarrow> lookup d k | Some v \<Rightarrow> Some v)"
proof (induction ps arbitrary: d)
  case (Cons p ps)
  obtain k' v' where "p = (k', v')" by force
  with Cons show ?case
    by (auto simp: lookup_store map_add_def map_of_append split: option.splits)
qed simp

lemma keys_fold_store_distinct:
  "distinct (key_list d) \<Longrightarrow> distinct (key_list (fold (\<lambda>(k, v). store k v) ps d))"
  by (induction ps arbitrary: d) (auto simp: keys_store split: prod.splits if_splits)

lemma keys_fold_store_set:
  "set (key_list (fold (\<lambda>(k, v). store k v) ps d)) = set (key_list d) \<union> fst ` set ps"
proof (induction ps arbitrary: d)
  case (Cons p ps)
  then show ?case by (cases p) (auto simp: keys_store)
qed simp

text \<open>The keys present at the start keep their places and lead the key order.\<close>

lemma keys_fold_store_prefix:
  "\<exists>more. key_list (fold (\<lambda>(k, v). store k v) ps d) = key_list d @ more"
proof (induction ps arbitrary: d)
  case (Cons p ps)
  obtain k v where p: "p = (k, v)" by force
  from Cons.IH [of "store k v d"] show ?case by (auto simp: p keys_store)
qed simp

end

text \<open>Grouping: appending values to the list held under a key.\<close>

locale grouping_dict = ordered_dict lookup store key_list
  for lookup :: "'d \<Rightarrow> 'k \<Rightarrow> 'v list option"
    and store :: "'k \<Rightarrow> 'v list \<Rightarrow> 'd \<Rightarrow> 'd"
    and key_list :: "'d \<Rightarrow> 'k list" +
  fixes extend :: "'k \<Rightarrow> 'v list \<Rightarrow> 'd \<Rightarrow> 'd"
  assumes extend_store: "extend k vs d =
    store k ((case lookup d k of None \<Rightarrow> [] | Some xs \<Rightarrow> xs) @ vs) d"
begin

definition group :: "'d \<Rightarrow> 'k \<Rightarrow> 'v list" where
  "group d k = (case lookup d k of None \<Rightarrow> [] | Some xs \<Rightarrow> xs)"

lemma group_extend: "group (extend k vs d) k' = (if k' = k then group d k @ vs else group d k')"
  by (simp add: group_def extend_store lookup_store)

lemma lookup_extend:
  "lookup (extend k vs d) k' = (if k' = k then Some (group d k @ vs) else lookup d k')"
  by (simp add: group_def extend_store lookup_store)

lemma group_fold_extend:
  "group (fold (\<lambda>(k, vs). extend k vs) ps d) k =
     group d k @ concat (map snd (filter (\<lambda>p. fst p = k) ps))"
  by (induction ps arbitrary: d) (auto simp: group_extend)

lemma keys_fold_extend:
  "set (key_list (fold (\<lambda>(k, vs). extend k vs) ps d)) = set (key_list d) \<union> fst ` set ps"
proof (induction ps arbitrary: d)
  case (Cons p ps)
  then show ?case by (cases p) (auto simp: extend_store keys_store)
qed simp

lemma lookup_fold_extend:
  "lookup (fold (\<lambda>(k, vs). extend k vs) ps d) k =
     (if k \<in> fst ` set ps
      then Some (group d k @ concat (map snd (filter (\<lambda>p. fst p = k) ps)))
      else lookup d k)"
proof (cases "k \<in> set (key_list (fold (\<lambda>(k, vs). extend k vs) ps d))")
  case True
  then obtain xs where xs: "lookup (fold (\<lambda>(k, vs). extend k vs) ps d) k = Some xs"
    using lookup_keys by fastforce
  then have "xs = group (fold (\<lambda>(k, vs). extend k vs) ps d) k" by (simp add: group_def)
  moreover have "k \<notin> fst ` set ps \<Longrightarrow> lookup d k = Some xs"
  proof -
    assume out: "k \<notin> fst ` set ps"
    with True have "lookup d k \<noteq> None" by (simp add: keys_fold_extend lookup_keys)
    moreover from out have "filter (\<lambda>p. fst p = k) ps = []" by (auto simp: filter_empty_conv)
    ultimately show ?thesis
      using xs group_fold_extend [of ps d k] by (auto simp: group_def)
  qed
  ultimately show ?thesis using xs by (auto simp: group_fold_extend)
next
  case False
  then show ?thesis by (metis (no_types, lifting) Un_iff keys_fold_extend lookup_keys)
qed

lemma keys_fold_extend_distinct:
  "distinct (key_list d) \<Longrightarrow> distinct (key_list (fold (\<lambda>(k, vs). extend k vs) ps d))"
proof (induction ps arbitrary: d)
  case (Cons p ps)
  obtain k vs where p: "p = (k, vs)" by force
  have "distinct (key_list (extend k vs d))"
    using Cons.prems by (simp add: extend_store keys_store)
  then show ?case using Cons.IH by (simp add: p)
qed simp

end

subsection \<open>Association lists implement the contract\<close>

type_synonym ('k, 'v) dict = "('k \<times> 'v) list"

definition dict_wf :: "('k, 'v) dict \<Rightarrow> bool" where
  "dict_wf d \<longleftrightarrow> distinct (map fst d)"

abbreviation dget :: "('k, 'v) dict \<Rightarrow> 'k \<Rightarrow> 'v option" where
  "dget \<equiv> map_of"

abbreviation dset :: "'k \<Rightarrow> 'v \<Rightarrow> ('k, 'v) dict \<Rightarrow> ('k, 'v) dict" where
  "dset \<equiv> AList.update"

definition dkeys :: "('k, 'v) dict \<Rightarrow> 'k list" where
  "dkeys d = map fst d"

definition dhas :: "('k, 'v) dict \<Rightarrow> 'k \<Rightarrow> bool" where
  "dhas d k \<longleftrightarrow> map_of d k \<noteq> None"

definition ddel :: "'k \<Rightarrow> ('k, 'v) dict \<Rightarrow> ('k, 'v) dict" where
  "ddel k d = AList.delete k d"

text \<open>\<open>d[k]\<close>, which raises \<open>KeyError\<close> when the key is missing.\<close>

definition dgetitem :: "('k, 'v) dict \<Rightarrow> 'k \<Rightarrow> 'v res" where
  "dgetitem d k = of_option Key_Error (map_of d k)"

text \<open>\<open>if k not in d: d[k] = []\<close> followed by \<open>d[k] += vs\<close>.\<close>

definition dextend :: "'k \<Rightarrow> 'v list \<Rightarrow> ('k, 'v list) dict \<Rightarrow> ('k, 'v list) dict" where
  "dextend k vs d = dset k ((case dget d k of None \<Rightarrow> [] | Some xs \<Rightarrow> xs) @ vs) d"

lemma dkeys_dset: "dkeys (dset k v d) = (if k \<in> set (dkeys d) then dkeys d else dkeys d @ [k])"
  by (induction d) (auto simp: dkeys_def)

interpretation od: ordered_dict dget dset dkeys
proof unfold_locales
  show "dget (dset k v d) = (dget d)(k \<mapsto> v)" for k :: 'k and v :: 'v and d
    by (rule update_conv')
  show "dkeys (dset k v d) = (if k \<in> set (dkeys d) then dkeys d else dkeys d @ [k])"
    for k :: 'k and v :: 'v and d
    by (rule dkeys_dset)
  show "dget d k = None \<longleftrightarrow> k \<notin> set (dkeys d)" for d :: "('k, 'v) dict" and k
    by (simp add: dkeys_def map_of_eq_None_iff)
qed

interpretation gd: grouping_dict dget dset dkeys dextend
  by unfold_locales (simp add: dextend_def)

lemma dget_dset [simp, dict_simps]: "dget (dset k v d) k' = (if k' = k then Some v else dget d k')"
  by (simp add: update_conv')

lemma dhas_dset [simp, dict_simps]: "dhas (dset k v d) k' \<longleftrightarrow> k' = k \<or> dhas d k'"
  by (simp add: dhas_def)

lemma dhas_keys: "dhas d k \<longleftrightarrow> k \<in> set (dkeys d)"
  by (auto simp: dhas_def od.lookup_keys)

lemma dict_wf_dset [simp, dict_simps, intro]: "dict_wf d \<Longrightarrow> dict_wf (dset k v d)"
  by (simp add: dict_wf_def distinct_update)

lemma dict_wf_dextend [simp, dict_simps, intro]: "dict_wf d \<Longrightarrow> dict_wf (dextend k vs d)"
  by (simp add: dextend_def)

lemma dict_wf_Nil [simp, intro]: "dict_wf []"
  by (simp add: dict_wf_def)

lemma dict_wf_ddel [simp, dict_simps, intro]: "dict_wf d \<Longrightarrow> dict_wf (ddel k d)"
  by (simp add: dict_wf_def ddel_def distinct_delete)

lemma dget_ddel [simp, dict_simps]: "dget (ddel k d) k' = (if k' = k then None else dget d k')"
  by (simp add: ddel_def delete_conv')

lemma dgetitem_Inr [simp, dict_simps]: "dgetitem d k = Inr v \<longleftrightarrow> dget d k = Some v"
  by (simp add: dgetitem_def)

lemma dget_in_set: "dict_wf d \<Longrightarrow> dget d k = Some v \<longleftrightarrow> (k, v) \<in> set d"
  by (simp add: dict_wf_def)

lemma dset_twice: "dset k v (dset k w d) = dset k v d"
  by (induction d) auto

lemma dextend_twice: "dextend k ys (dextend k xs d) = dextend k (xs @ ys) d"
  by (auto simp: dextend_def dset_twice split: option.splits)

lemma dset_new: "k \<notin> fst ` set d \<Longrightarrow> dset k v d = d @ [(k, v)]"
  by (induction d) auto

lemma dextend_new: "k \<notin> fst ` set d \<Longrightarrow> dextend k vs d = d @ [(k, vs)]"
proof -
  assume new: "k \<notin> fst ` set d"
  then have "dget d k = None" by (simp add: map_of_eq_None_iff)
  with new show ?thesis by (simp add: dextend_def dset_new)
qed

text \<open>Two insertions at different keys of the same dictionary: only the key order can differ.\<close>

lemma dget_dset_commute: "k \<noteq> k' \<Longrightarrow> dget (dset k v (dset k' v' d)) = dget (dset k' v' (dset k v d))"
  by (auto simp: fun_eq_iff)

end
