(* ===== verification/Component_Version.thy ===== *)
theory Component_Version
  imports Py_Re Py_Dict
begin

section \<open>Component versions (\<open>utils/_context/component_version.py\<close>)\<close>

text \<open>
  \<open>Version\<close> wraps the \<open>Version\<close> of the third-party package \<open>semantic_version\<close>; its
  documented attributes are the record \<open>version\<close>, and the package's functions
  (\<open>coerce\<close>, the precedence order, printing) are the fields of a parameter of type
  \<open>semver_lib\<close>.  \<open>ComponentVersion\<close> rewrites the version strings of each component
  into semantic versions before parsing them, compares components with each other and
  with \<open>"library@version"\<close> strings, and records every version it has seen in the
  class attribute \<open>known_versions\<close>, which the operations here take and return.
\<close>

record version =
  major :: int
  minor :: int
  patch :: int
  prerelease :: "string list"
  build :: "string list"

record semver_lib =
  lib_coerce :: "string \<Rightarrow> version option"
  lib_eq :: "version \<Rightarrow> version \<Rightarrow> bool"
  lib_lt :: "version \<Rightarrow> version \<Rightarrow> bool"
  lib_le :: "version \<Rightarrow> version \<Rightarrow> bool"
  lib_gt :: "version \<Rightarrow> version \<Rightarrow> bool"
  lib_ge :: "version \<Rightarrow> version \<Rightarrow> bool"
  lib_str :: "version \<Rightarrow> string"

subsection \<open>\<open>Version\<close>\<close>

text \<open>\<open>Version(s)\<close>: any leading \<open>v\<close> goes, and \<open>coerce\<close> accepts the rest or raises.\<close>

definition version_of_str :: "semver_lib \<Rightarrow> string \<Rightarrow> version res" where
  "version_of_str L s =
     rbind (of_option Value_Error (lib_coerce L (removeprefix s ''v'')))
       (\<lambda>x. Inr \<lparr>major = major x, minor = minor x, patch = patch x,
                 prerelease = prerelease x, build = build x\<rparr>)"

text \<open>What the operators of \<open>Version\<close> accept on the right, and \<open>_build\<close>.\<close>

datatype operand = Op_str string | Op_version version | Op_other

definition build_operand :: "semver_lib \<Rightarrow> operand \<Rightarrow> version res" where
  "build_operand L x =
     (case x of
        Op_str s \<Rightarrow> version_of_str L s
      | Op_version v \<Rightarrow> Inr v
      | Op_other \<Rightarrow> Inl Type_Error)"

definition version_eq :: "semver_lib \<Rightarrow> version \<Rightarrow> operand \<Rightarrow> bool res" where
  "version_eq L v x = rbind (build_operand L x) (\<lambda>w. Inr (lib_eq L v w))"

definition version_lt :: "semver_lib \<Rightarrow> version \<Rightarrow> operand \<Rightarrow> bool res" where
  "version_lt L v x = rbind (build_operand L x) (\<lambda>w. Inr (lib_lt L v w))"

definition version_le :: "semver_lib \<Rightarrow> version \<Rightarrow> operand \<Rightarrow> bool res" where
  "version_le L v x = rbind (build_operand L x) (\<lambda>w. Inr (lib_le L v w))"

definition version_gt :: "semver_lib \<Rightarrow> version \<Rightarrow> operand \<Rightarrow> bool res" where
  "version_gt L v x = rbind (build_operand L x) (\<lambda>w. Inr (lib_gt L v w))"

definition version_ge :: "semver_lib \<Rightarrow> version \<Rightarrow> operand \<Rightarrow> bool res" where
  "version_ge L v x = rbind (build_operand L x) (\<lambda>w. Inr (lib_ge L v w))"

subsection \<open>Rewriting the version strings of each component\<close>

definition dot :: "char \<Rightarrow> bool" where "dot c \<longleftrightarrow> c = CHR ''.''"

definition dot_or_space :: "char \<Rightarrow> bool" where
  "dot_or_space c \<longleftrightarrow> c = CHR ''.'' \<or> c = CHR '' ''"

definition word_or_plus :: "char \<Rightarrow> bool" where
  "word_or_plus c \<longleftrightarrow> is_word c \<or> c = CHR ''+''"

definition is_hex :: "char \<Rightarrow> bool" where
  "is_hex c \<longleftrightarrow> is_digit c \<or> c \<in> set ''abcdef''"

definition number_re :: re where "number_re = Plus (Chr is_digit)"

definition ruby_base :: re where
  "ruby_base = Seq [number_re, Chr dot, number_re, Chr dot, number_re]"

definition ruby_prerelease :: re where "ruby_prerelease = Plus (Chr word_or_plus)"

definition ruby_build :: re where "ruby_build = Plus (Chr is_hex)"

definition tpl :: "mstate \<Rightarrow> nat \<Rightarrow> string" where
  "tpl st n = (case re_group st n of None \<Rightarrow> [] | Some s \<Rightarrow> s)"

definition sub_ruby_full :: "string \<Rightarrow> string" where
  "sub_ruby_full v =
     re_sub (Seq [Grp 1 ruby_base, Chr dot_or_space, Grp 2 ruby_prerelease, Chr dot_or_space,
       Grp 3 ruby_build]) (\<lambda>st. tpl st 1 @ ''-'' @ tpl st 2 @ ''+'' @ tpl st 3) v"

definition sub_ruby_build :: "string \<Rightarrow> string" where
  "sub_ruby_build v =
     re_sub (Seq [Grp 1 ruby_base, Chr dot_or_space, Grp 2 ruby_build])
       (\<lambda>st. tpl st 1 @ ''+'' @ tpl st 2) v"

definition sub_ruby_prerelease :: "string \<Rightarrow> string" where
  "sub_ruby_prerelease v =
     re_sub (Seq [Grp 1 ruby_base, Chr dot_or_space, Grp 2 ruby_prerelease])
       (\<lambda>st. tpl st 1 @ ''-'' @ tpl st 2) v"

definition normalize_ruby :: "string \<Rightarrow> string" where
  "normalize_ruby v =
     (if re_match (Seq [ruby_base, Chr dot_or_space, ruby_prerelease, Chr dot_or_space, ruby_build]) v
         \<noteq> None then sub_ruby_full v
      else if re_match (Seq [ruby_base, Chr (\<lambda>c. c = CHR '' ''), ruby_build]) v \<noteq> None
        then sub_ruby_build v
      else if re_match (Seq [ruby_base, Chr dot_or_space, ruby_prerelease]) v \<noteq> None
        then sub_ruby_prerelease v
      else v)"

definition normalize_libddwaf :: "string \<Rightarrow> string" where
  "normalize_libddwaf v =
     (if startswith v ''* libddwaf'' then
        re_sub (Seq [Lit ''*'', Star (Chr (\<lambda>c. c = CHR '' '')), Lit ''libddwaf'',
          Star (Chr (\<lambda>c. c = CHR '' '')), Lit ''('', Grp 1 (Star (Chr any_char)), Lit '')''])
          (\<lambda>st. tpl st 1) v
      else v)"

definition normalize_java :: "string \<Rightarrow> string" where
  "normalize_java v = map (\<lambda>c. if c = CHR ''~'' then CHR ''+'' else c) v"

definition normalize_dotnet :: "string \<Rightarrow> string" where
  "normalize_dotnet v =
     re_sub (Seq [Opt (Grp 1 (Lit ''datadog-dotnet-apm-'')), Grp 2 (LazyStar (Chr any_char)),
       Opt (Grp 3 (Lit ''.tar.gz''))]) (\<lambda>st. tpl st 2) v"

definition normalize_php :: "string \<Rightarrow> string" where
  "normalize_php v =
     re_sub (Seq [Lit ''-'', Grp 1 (Rep 32 100 (Chr is_hex)), Eos]) (\<lambda>st. ''+'' @ tpl st 1) v"

definition python_re :: re where
  "python_re = Seq [Grp 1 (Seq [number_re, Chr dot, number_re, Chr any_char, number_re]),
     Chr dot, Grp 2 (Plus (Chr (\<lambda>c. \<not> dot c)))]"

definition normalize_python :: "string \<Rightarrow> string" where
  "normalize_python v = re_sub python_re (\<lambda>st. tpl st 1 @ ''-'' @ tpl st 2) v"

definition normalize_version :: "string \<Rightarrow> string \<Rightarrow> string" where
  "normalize_version name v =
     (if name = ''ruby'' then normalize_ruby v
      else if name = ''libddwaf'' then normalize_libddwaf v
      else if name = ''java'' \<or> name = ''java_lambda'' then normalize_java v
      else if name = ''dotnet'' then normalize_dotnet v
      else if name = ''php'' then normalize_php v
      else if name = ''python'' then normalize_python v
      else v)"

subsection \<open>\<open>ComponentVersion\<close>\<close>

record component_version =
  cv_name :: string
  cv_raw :: string
  cv_version :: version

text \<open>The class attribute \<open>known_versions\<close>, a \<open>defaultdict(set)\<close>.\<close>

type_synonym known = "string \<Rightarrow> string set"

definition add_known_version :: "semver_lib \<Rightarrow> known \<Rightarrow> string \<Rightarrow> version \<Rightarrow> known" where
  "add_known_version L k library v = k(library := insert (lib_str L v) (k library))"

definition component_version_init ::
  "semver_lib \<Rightarrow> known \<Rightarrow> string \<Rightarrow> string \<Rightarrow> (component_version \<times> known) res" where
  "component_version_init L k name v =
     (if CHR ''@'' \<in> set name then Inl Value_Error
      else if v \<noteq> [] then
        rbind (version_of_str L (normalize_version name (str_strip v))) (\<lambda>ver.
          Inr (\<lparr>cv_name = name, cv_raw = str_strip v, cv_version = ver\<rparr>,
               add_known_version L k name ver))
      else
        rbind (version_of_str L ''0.0.0'') (\<lambda>ver.
          Inr (\<lparr>cv_name = name, cv_raw = str_strip v, cv_version = ver\<rparr>, k)))"

definition component_version_str :: "semver_lib \<Rightarrow> component_version \<Rightarrow> string" where
  "component_version_str L c =
     (if cv_name c = [] then ''None'' else cv_name c @ ''@'' @ lib_str L (cv_version c))"

datatype cv_operand = Cv_component component_version | Cv_str string | Cv_other

definition component_version_eq ::
  "semver_lib \<Rightarrow> known \<Rightarrow> component_version \<Rightarrow> cv_operand \<Rightarrow> (bool \<times> known) res" where
  "component_version_eq L k c x =
     (case x of
        Cv_component d \<Rightarrow> Inr (cv_name c = cv_name d \<and> lib_eq L (cv_version c) (cv_version d), k)
      | Cv_other \<Rightarrow> Inl Type_Error
      | Cv_str s \<Rightarrow>
          (case split_once CHR ''@'' s of
             [library, version_str] \<Rightarrow>
               rbind (version_of_str L version_str) (\<lambda>w.
                 let k' = add_known_version L k library w in
                 if cv_name c \<noteq> library then Inr (False, k')
                 else Inr (lib_eq L (cv_version c) w, k'))
           | _ \<Rightarrow> Inr (cv_name c = s, k)))"

definition extract_members ::
  "semver_lib \<Rightarrow> known \<Rightarrow> component_version \<Rightarrow> cv_operand \<Rightarrow> ((string \<times> version) \<times> known) res" where
  "extract_members L k c x =
     (case x of
        Cv_component d \<Rightarrow> Inr ((cv_name d, cv_version d), k)
      | Cv_other \<Rightarrow> Inl Type_Error
      | Cv_str s \<Rightarrow>
          (case split_once CHR ''@'' s of
             [library, version_str] \<Rightarrow>
               rbind (version_of_str L version_str) (\<lambda>w.
                 Inr ((library, w), add_known_version L k library w))
           | _ \<Rightarrow> Inl Value_Error))"

definition cv_compare ::
  "(version \<Rightarrow> version \<Rightarrow> bool) \<Rightarrow> semver_lib \<Rightarrow> known \<Rightarrow> component_version \<Rightarrow> cv_operand \<Rightarrow>
     (bool \<times> known) res" where
  "cv_compare cmp L k c x =
     rbind (extract_members L k c x) (\<lambda>((library, w), k').
       Inr (cv_name c = library \<and> cmp (cv_version c) w, k'))"

definition component_version_lt where
  "component_version_lt L = cv_compare (lib_lt L) L"

definition component_version_le where
  "component_version_le L = cv_compare (lib_le L) L"

definition component_version_gt where
  "component_version_gt L = cv_compare (lib_gt L) L"

definition component_version_ge where
  "component_version_ge L = cv_compare (lib_ge L) L"

definition serialize :: "semver_lib \<Rightarrow> component_version \<Rightarrow> (string, string) dict" where
  "serialize L c = [(''library'', cv_name c), (''version'', lib_str L (cv_version c))]"

subsection \<open>What the rewriting computes on the documented shapes\<close>

definition digit_run :: "string \<Rightarrow> bool" where
  "digit_run s \<longleftrightarrow> s \<noteq> [] \<and> (\<forall>c \<in> set s. is_digit c)"

lemma is_digit_dot [simp]: "\<not> is_digit CHR ''.''" and is_digit_space [simp]: "\<not> is_digit CHR '' ''"
  by (simp_all add: is_digit_def)

lemma dot_dot [simp]: "dot CHR ''.''"
  by (simp add: dot_def)

lemma firsts_number [firsts_intros]:
  "digit_run u \<Longrightarrow> s = [] \<or> \<not> is_digit (hd s) \<Longrightarrow>
     firsts number_re (i, u @ s, g) (i + length u, s, g)"
  unfolding number_re_def digit_run_def by (rule firsts_Plus_run) auto

text \<open>\<open>a.b.c\<close> for three digit runs, where the second separator may be any separator.\<close>

lemma firsts_triple:
  assumes "digit_run a" "digit_run b" "digit_run c" "p CHR ''.''"
    and "s = [] \<or> \<not> is_digit (hd s)"
  shows "firsts (Seq [number_re, Chr dot, number_re, Chr p, number_re])
    (i, (a @ ''.'' @ b @ ''.'' @ c) @ s, g)
    (i + length (a @ ''.'' @ b @ ''.'' @ c), s, g)"
proof -
  have 1: "firsts number_re (i, a @ CHR ''.'' # b @ CHR ''.'' # c @ s, g)
      (i + length a, CHR ''.'' # b @ CHR ''.'' # c @ s, g)"
    using assms by (intro firsts_number) auto
  have 2: "firsts (Chr dot) (i + length a, CHR ''.'' # b @ CHR ''.'' # c @ s, g)
      (Suc (i + length a), b @ CHR ''.'' # c @ s, g)"
    by (rule firsts_Chr) simp
  have 3: "firsts number_re (Suc (i + length a), b @ CHR ''.'' # c @ s, g)
      (Suc (i + length a) + length b, CHR ''.'' # c @ s, g)"
    using assms by (intro firsts_number) auto
  have 4: "firsts (Chr p) (Suc (i + length a) + length b, CHR ''.'' # c @ s, g)
      (Suc (Suc (i + length a) + length b), c @ s, g)"
    using assms by (intro firsts_Chr) simp
  have 5: "firsts number_re (Suc (Suc (i + length a) + length b), c @ s, g)
      (Suc (Suc (i + length a) + length b) + length c, s, g)"
    using assms by (intro firsts_number) auto
  show ?thesis
    using firsts_Cat [OF 1 firsts_Cat [OF 2 firsts_Cat [OF 3 firsts_Cat [OF 4 5]]]]
    by (simp add: add.commute add.left_commute)
qed

lemma no_match_number_empty [simp]: "ms number_re (i, [], g) = []"
  by (simp add: number_re_def Plus_def)

lemma ms_Cat_empty: "ms a st = [] \<Longrightarrow> ms (Cat a b) st = []"
  by simp

text \<open>A development version as PyPI wants it, \<open>a.b.c.tag\<close> with a dot before the tag, is
  rewritten to the semantic version \<open>a.b.c-tag\<close>, for all numbers and every tag without a
  dot, so that \<open>coerce\<close> reads the tag as a pre-release and not as build metadata.
\<close>

theorem normalize_python_dev:
  assumes "digit_run a" and "digit_run b" and "digit_run c"
    and "tag \<noteq> []" and "CHR ''.'' \<notin> set tag"
  shows "normalize_version ''python'' (a @ ''.'' @ b @ ''.'' @ c @ ''.'' @ tag) =
    a @ ''.'' @ b @ ''.'' @ c @ ''-'' @ tag"
proof -
  let ?abc = "a @ ''.'' @ b @ ''.'' @ c"
  let ?n = "length ?abc"
  have grp1: "firsts (Grp 1 (Seq [number_re, Chr dot, number_re, Chr any_char, number_re]))
      (0, ?abc @ CHR ''.'' # tag, []) (0 + ?n, CHR ''.'' # tag, [(1, ?abc)])"
    using assms by (intro firsts_Grp firsts_triple) (auto simp: any_char_def nl_def)
  have sep: "firsts (Chr dot) (0 + ?n, CHR ''.'' # tag, [(1, ?abc)]) (Suc (0 + ?n), tag @ [], [(1, ?abc)])"
    by (simp add: firsts_def)
  have grp2: "firsts (Grp 2 (Plus (Chr (\<lambda>c. \<not> dot c)))) (Suc (0 + ?n), tag @ [], [(1, ?abc)])
      (Suc (0 + ?n) + length tag, [], [(2, tag), (1, ?abc)])"
    using assms by (intro firsts_Grp firsts_Plus_run) (auto simp: dot_def)
  have whole: "firsts python_re (0, ?abc @ CHR ''.'' # tag, [])
      (Suc (0 + ?n) + length tag, [], [(2, tag), (1, ?abc)])"
    unfolding python_re_def Seq.simps(2,3)
    using firsts_Cat [OF grp1 firsts_Cat [OF sep grp2]] by simp
  have "normalize_python (?abc @ CHR ''.'' # tag) = ?abc @ ''-'' @ tag"
    unfolding normalize_python_def
    by (subst sub_whole [OF whole])
       (auto simp: python_re_def tpl_def re_group_def)
  then show ?thesis by (simp add: normalize_version_def)
qed

lemma normalize_python_dev_witness:
  "digit_run ''4'' \<and> digit_run ''3'' \<and> digit_run ''0'' \<and>
   normalize_version ''python'' ''4.3.0.dev0'' = ''4.3.0-dev0''"
  using normalize_python_dev [of "''4''" "''3''" "''0''" "''dev0''"]
  by (simp add: digit_run_def is_digit_def)

subsection \<open>Ruby versions\<close>

definition word_run :: "string \<Rightarrow> bool" where
  "word_run s \<longleftrightarrow> s \<noteq> [] \<and> (\<forall>c \<in> set s. word_or_plus c)"

definition hex_run :: "string \<Rightarrow> bool" where
  "hex_run s \<longleftrightarrow> s \<noteq> [] \<and> (\<forall>c \<in> set s. is_hex c)"

lemma word_or_plus_sep [simp]: "\<not> word_or_plus CHR ''.''" "\<not> word_or_plus CHR '' ''"
  by (simp_all add: word_or_plus_def is_word_def is_digit_def is_lower_def is_upper_def)

lemma hex_word: "is_hex c \<Longrightarrow> word_or_plus c"
  by (auto simp: is_hex_def word_or_plus_def is_word_def is_lower_def)

lemma dot_or_space_sep [simp]: "dot_or_space CHR ''.''" "dot_or_space CHR '' ''"
  by (simp_all add: dot_or_space_def)

lemma word_not_sep: "word_or_plus c \<Longrightarrow> \<not> dot_or_space c"
  unfolding dot_or_space_def using word_or_plus_sep by blast

lemma digit_not_sep: "is_digit c \<Longrightarrow> \<not> dot_or_space c"
  by (rule word_not_sep) (simp add: word_or_plus_def is_word_def)

text \<open>How many separators a string holds: what tells the three shapes apart.\<close>

definition seps :: "string \<Rightarrow> nat" where
  "seps s = length (filter dot_or_space s)"

lemma seps_append [simp]: "seps (s @ t) = seps s + seps t"
  by (simp add: seps_def)

lemma seps_Cons [simp]: "seps (c # s) = (if dot_or_space c then Suc (seps s) else seps s)"
  by (simp add: seps_def)

lemma seps_Nil [simp]: "seps [] = 0"
  by (simp add: seps_def)

lemma seps_free: "(\<forall>c \<in> set s. \<not> dot_or_space c) \<Longrightarrow> seps s = 0"
  by (simp add: seps_def filter_empty_conv)

lemma digit_run_seps [simp]: "digit_run s \<Longrightarrow> seps s = 0"
  by (rule seps_free) (auto simp: digit_run_def digit_not_sep)

lemma word_run_seps [simp]: "word_run s \<Longrightarrow> seps s = 0"
  by (rule seps_free) (auto simp: word_run_def word_not_sep)

lemma hex_run_seps [simp]: "hex_run s \<Longrightarrow> seps s = 0"
  by (rule seps_free) (auto simp: hex_run_def word_not_sep hex_word)

lemma anchor_free_ruby [simp]:
  "anchor_free ruby_base" "anchor_free ruby_prerelease" "anchor_free ruby_build"
  by (simp_all add: ruby_base_def ruby_prerelease_def ruby_build_def number_re_def)

lemma lang_number: "lang number_re = {s. digit_run s}"
  by (simp add: number_re_def digit_run_def)

lemma lang_ruby_base: "u \<in> lang ruby_base \<Longrightarrow> seps u = 2"
  by (auto simp: ruby_base_def in_lang_Cat lang_number dot_def)

lemma lang_ruby_full:
  "u \<in> lang (Seq [ruby_base, Chr dot_or_space, ruby_prerelease, Chr dot_or_space, ruby_build]) \<Longrightarrow>
     4 \<le> seps u"
  by (auto simp: in_lang_Cat dest!: lang_ruby_base)

lemma firsts_ruby_base:
  assumes "digit_run a" "digit_run b" "digit_run c" and "s = [] \<or> \<not> is_digit (hd s)"
  shows "firsts ruby_base (i, (a @ ''.'' @ b @ ''.'' @ c) @ s, g)
    (i + length (a @ ''.'' @ b @ ''.'' @ c), s, g)"
  unfolding ruby_base_def using assms by (intro firsts_triple) auto

lemma firsts_prerelease:
  "word_run u \<Longrightarrow> s = [] \<or> \<not> word_or_plus (hd s) \<Longrightarrow>
     firsts ruby_prerelease (i, u @ s, g) (i + length u, s, g)"
  unfolding ruby_prerelease_def word_run_def by (rule firsts_Plus_run) auto

lemma firsts_build: "hex_run u \<Longrightarrow> firsts ruby_build (i, u @ [], g) (i + length u, [], g)"
  unfolding ruby_build_def hex_run_def by (rule firsts_Plus_run) auto

lemma no_match_ruby_base_empty: "ms (Cat (Grp n ruby_base) r) (i, [], g) = []"
  by (simp add: ruby_base_def)

lemma digit_run_tl: "digit_run c \<Longrightarrow> dot_or_space x \<Longrightarrow> \<not> is_digit x"
  using digit_not_sep by blast

lemma firsts_sep: "p x \<Longrightarrow> firsts (Chr p) (i, x # s, g) (Suc i, s, g)"
  by (rule firsts_Chr)

lemma ruby_two_parts:
  assumes base: "digit_run a" "digit_run b" "digit_run c" and x: "dot_or_space x" "p x"
    and tail: "\<And>i g. firsts r (i, u, g) (i + length u, [], g)"
  defines "abc \<equiv> a @ ''.'' @ b @ ''.'' @ c"
  shows "re_match (Seq [ruby_base, Chr p, r]) (abc @ x # u) \<noteq> None"
    and "re_sub (Seq [Grp 1 ruby_base, Chr p, Grp 2 r]) (\<lambda>st. tpl st 1 @ t @ tpl st 2) (abc @ x # u) =
      abc @ t @ u"
proof -
  have sx: "firsts (Chr p) (i, x # s, g) (Suc i, s, g)" for i s g
    using x(2) by (rule firsts_sep)
  have b: "firsts ruby_base (0, abc @ x # u, []) (0 + length abc, x # u, [])"
    unfolding abc_def using base x(1) digit_not_sep by (intro firsts_ruby_base) auto
  have "firsts (Seq [ruby_base, Chr p, r]) (0, abc @ x # u, []) (Suc (0 + length abc) + length u, [], [])"
    unfolding Seq.simps using firsts_Cat [OF b firsts_Cat [OF sx tail]] .
  then show "re_match (Seq [ruby_base, Chr p, r]) (abc @ x # u) \<noteq> None"
    by (simp add: firsts_match)
  have g1: "firsts (Grp 1 ruby_base) (0, abc @ x # u, []) (0 + length abc, x # u, [(1, abc)])"
    by (rule firsts_Grp [OF b])
  have g2: "firsts (Grp 2 r) (Suc (0 + length abc), u @ [], [(1, abc)])
      (Suc (0 + length abc) + length u, [], [(2, u), (1, abc)])"
    by (rule firsts_Grp, unfold append_Nil2) (rule tail)
  have whole: "firsts (Seq [Grp 1 ruby_base, Chr p, Grp 2 r]) (0, abc @ x # u, [])
      (Suc (0 + length abc) + length u, [], [(2, u), (1, abc)])"
    unfolding Seq.simps using firsts_Cat [OF g1 firsts_Cat [OF sx g2 [unfolded append_Nil2]]] .
  show "re_sub (Seq [Grp 1 ruby_base, Chr p, Grp 2 r]) (\<lambda>st. tpl st 1 @ t @ tpl st 2) (abc @ x # u) =
      abc @ t @ u"
    by (subst sub_whole [OF whole]) (simp_all add: no_match_ruby_base_empty tpl_def re_group_def del: ms.simps)
qed

lemma ruby_four_parts:
  assumes base: "digit_run a" "digit_run b" "digit_run c" and x: "dot_or_space x" "dot_or_space y"
    and u: "word_run u" and w: "hex_run w"
  defines "abc \<equiv> a @ ''.'' @ b @ ''.'' @ c"
  shows "normalize_ruby (abc @ x # u @ y # w) = abc @ ''-'' @ u @ ''+'' @ w"
proof -
  let ?s = "abc @ x # u @ y # w"
  have sx: "firsts (Chr dot_or_space) (i, x # s, g) (Suc i, s, g)" for i s g
    using x(1) by (rule firsts_sep)
  have sy: "firsts (Chr dot_or_space) (i, y # s, g) (Suc i, s, g)" for i s g
    using x(2) by (rule firsts_sep)
  have b: "firsts ruby_base (0, ?s, []) (length abc, x # u @ y # w, [])"
    using firsts_ruby_base [OF base, of "x # u @ y # w" 0] x(1) digit_not_sep
    by (auto simp: abc_def)
  have p: "firsts ruby_prerelease (i, u @ y # w, g) (i + length u, y # w, g)" for i g
    using u x(2) word_not_sep by (intro firsts_prerelease) auto
  have d: "firsts ruby_build (i, w, g) (i + length w, [], g)" for i g
    using firsts_build [OF w] by simp
  have "firsts (Seq [ruby_base, Chr dot_or_space, ruby_prerelease, Chr dot_or_space, ruby_build])
      (0, ?s, []) (Suc (Suc (length abc) + length u) + length w, [], [])"
    unfolding Seq.simps
    using firsts_Cat [OF b firsts_Cat [OF sx firsts_Cat [OF p
      firsts_Cat [OF sy d]]]] .
  then have m: "re_match (Seq [ruby_base, Chr dot_or_space, ruby_prerelease, Chr dot_or_space,
      ruby_build]) ?s \<noteq> None"
    by (simp add: firsts_match)
  have g1: "firsts (Grp 1 ruby_base) (0, ?s, []) (length abc, x # u @ y # w, [(1, abc)])"
    by (rule firsts_Grp [OF b])
  have g2: "firsts (Grp 2 ruby_prerelease) (i, u @ y # w, g) (i + length u, y # w, (2, u) # g)" for i g
    by (rule firsts_Grp [OF p])
  have g3: "firsts (Grp 3 ruby_build) (i, w, g) (i + length w, [], (3, w) # g)" for i g
    using firsts_Grp [of ruby_build i w "[]"] d by simp
  have whole: "firsts (Seq [Grp 1 ruby_base, Chr dot_or_space, Grp 2 ruby_prerelease,
      Chr dot_or_space, Grp 3 ruby_build]) (0, ?s, [])
      (Suc (Suc (length abc) + length u) + length w, [], [(3, w), (2, u), (1, abc)])"
    unfolding Seq.simps
    using firsts_Cat [OF g1 firsts_Cat [OF sx firsts_Cat [OF g2
      firsts_Cat [OF sy g3]]]] .
  have "sub_ruby_full ?s = abc @ ''-'' @ u @ ''+'' @ w"
    unfolding sub_ruby_full_def
    by (subst sub_whole [OF whole]) (simp_all add: no_match_ruby_base_empty tpl_def re_group_def del: ms.simps)
  with m show ?thesis by (simp add: normalize_ruby_def)
qed

text \<open>
  The three shapes of Ruby versions the comments name: a pre-release and a commit
  (\<open>2.0.0.rc1 b908262\<close>) become pre-release and build metadata, a commit alone
  (\<open>2.0.0 b908262\<close>) becomes build metadata, a pre-release alone (\<open>2.0.0.rc1\<close>) a
  pre-release, for all numbers, tags and commits.
\<close>

theorem normalize_ruby_shapes:
  assumes "digit_run a" and "digit_run b" and "digit_run c"
    and "word_run tag" and "hex_run commit"
  shows "normalize_version ''ruby'' (a @ ''.'' @ b @ ''.'' @ c @ ''.'' @ tag @ '' '' @ commit) =
      a @ ''.'' @ b @ ''.'' @ c @ ''-'' @ tag @ ''+'' @ commit \<and>
    normalize_version ''ruby'' (a @ ''.'' @ b @ ''.'' @ c @ '' '' @ commit) =
      a @ ''.'' @ b @ ''.'' @ c @ ''+'' @ commit \<and>
    normalize_version ''ruby'' (a @ ''.'' @ b @ ''.'' @ c @ ''.'' @ tag) =
      a @ ''.'' @ b @ ''.'' @ c @ ''-'' @ tag"
proof -
  let ?abc = "a @ ''.'' @ b @ ''.'' @ c"
  let ?full = "Seq [ruby_base, Chr dot_or_space, ruby_prerelease, Chr dot_or_space, ruby_build]"
  let ?build = "Seq [ruby_base, Chr (\<lambda>c. c = CHR '' ''), ruby_build]"
  note runs = assms(1-3)
  have few: "re_match ?full (?abc @ x # u) = None" if "dot_or_space x" "seps u = 0" for x u
  proof -
    have "\<not> (\<exists>v w. v \<in> lang ?full \<and> ?abc @ x # u = v @ w)"
    proof
      assume "\<exists>v w. v \<in> lang ?full \<and> ?abc @ x # u = v @ w"
      then obtain v w where "4 \<le> seps v" "?abc @ x # u = v @ w" using lang_ruby_full by blast
      then have "4 \<le> seps (?abc @ x # u)" by simp
      then show False using runs that by simp
    qed
    then show ?thesis using match_lang [of ?full "?abc @ x # u"] by auto
  qed
  have prerelease_tail: "firsts ruby_prerelease (i, tag, g) (i + length tag, [], g)" for i g
    using firsts_prerelease [OF assms(4), of "[]"] by simp
  have build_tail: "firsts ruby_build (i, commit, g) (i + length commit, [], g)" for i g
    using firsts_build [OF assms(5)] by simp
  have "normalize_ruby (?abc @ CHR ''.'' # tag @ CHR '' '' # commit) = ?abc @ ''-'' @ tag @ ''+'' @ commit"
    using assms by (intro ruby_four_parts) auto
  moreover have "normalize_ruby (?abc @ CHR '' '' # commit) = ?abc @ ''+'' @ commit"
    using few [of "CHR '' ''" commit] assms(5)
      ruby_two_parts(1) [OF runs, of "CHR '' ''" "\<lambda>c. c = CHR '' ''" ruby_build commit, OF _ _ build_tail]
      ruby_two_parts(2) [OF runs, of "CHR '' ''" dot_or_space ruby_build commit "''+''", OF _ _ build_tail]
    by (simp add: normalize_ruby_def sub_ruby_build_def)
  moreover have "normalize_ruby (?abc @ CHR ''.'' # tag) = ?abc @ ''-'' @ tag"
  proof -
    have "CHR '' '' \<notin> set (?abc @ CHR ''.'' # tag)"
      using assms by (auto simp: digit_run_def word_run_def)
    moreover have "CHR '' '' \<in> set v" if "v \<in> lang ?build" for v
      using that by (auto simp: in_lang_Cat)
    ultimately have "\<not> (\<exists>v w. v \<in> lang ?build \<and> ?abc @ CHR ''.'' # tag = v @ w)"
      by (metis UnCI set_append)
    then have "re_match ?build (?abc @ CHR ''.'' # tag) = None"
      using match_lang [of ?build "?abc @ CHR ''.'' # tag"] by auto
    then show ?thesis
      using few [of "CHR ''.''" tag] assms(4)
        ruby_two_parts(1) [OF runs, of "CHR ''.''" dot_or_space ruby_prerelease tag, OF _ _ prerelease_tail]
        ruby_two_parts(2) [OF runs, of "CHR ''.''" dot_or_space ruby_prerelease tag "''-''", OF _ _ prerelease_tail]
      by (simp add: normalize_ruby_def sub_ruby_prerelease_def)
  qed
  ultimately show ?thesis by (simp add: normalize_version_def)
qed

lemma normalize_ruby_shapes_witness:
  "normalize_version ''ruby'' ''2.0.0.rc1 b908262'' = ''2.0.0-rc1+b908262'' \<and>
   normalize_version ''ruby'' ''2.0.0 b908262'' = ''2.0.0+b908262'' \<and>
   normalize_version ''ruby'' ''2.0.0.rc1'' = ''2.0.0-rc1''"
proof -
  have "digit_run ''2''" "digit_run ''0''" "word_run ''rc1''" "hex_run ''b908262''"
    by (simp_all add: digit_run_def word_run_def hex_run_def is_hex_def word_or_plus_def
        is_word_def is_digit_def is_lower_def)
  from normalize_ruby_shapes [OF this(1,2,2,3,4)] show ?thesis by simp
qed

subsection \<open>A Python release whose minor has three digits\<close>

text \<open>
  The second separator of the Python pattern is an unescaped dot, so it can match a
  digit.  For a plain release \<open>a.b.c\<close> whose minor number has at least three digits the
  matcher backtracks into that number.
\<close>

lemma number_ms_all:
  "digit_run u \<Longrightarrow> s = [] \<or> \<not> is_digit (hd s) \<Longrightarrow>
     ms number_re (i, u @ s, g) = map (\<lambda>k. (i + k, drop k u @ s, g)) (rev [1..<Suc (length u)])"
  unfolding number_re_def digit_run_def by (rule Plus_ms_all) auto

lemma digit_run_drop_hd: "digit_run u \<Longrightarrow> 0 < k \<Longrightarrow> k < length u \<Longrightarrow> is_digit (hd (drop k u @ s))"
  by (simp add: digit_run_def hd_append hd_drop_conv_nth)

lemma not_dot_digit: "is_digit c \<Longrightarrow> \<not> dot c"
  by (auto simp: dot_def)

text \<open>What follows the first number and its dot inside the group.\<close>

lemma python_tail_ms:
  assumes "digit_run u" "is_digit x" "is_digit y" "digit_run c"
  shows "\<exists>l. ms (Cat number_re (Cat (Chr any_char) number_re)) (i, u @ [x, y] @ CHR ''.'' # c, g) =
    map (\<lambda>k. (i + length u + 3 + k, drop k c, g)) (rev [1..<Suc (length c)]) @
    (i + length u + 2, CHR ''.'' # c, g) # l"
proof -
  let ?d = "u @ [x, y]"
  let ?s = "CHR ''.'' # c"
  let ?rest = "Cat (Chr any_char) number_re"
  have d: "digit_run ?d" using assms by (auto simp: digit_run_def)
  have ac: "any_char z" if "is_digit z" for z
    using that by (auto simp: any_char_def nl_def is_digit_def)
  have up: "rev [1..<Suc (length ?d)] = (length u + 2) # (length u + 1) # rev [1..<Suc (length u)]"
    by simp
  have "Suc 0 \<le> length u" using assms(1) by (cases u) (auto simp: digit_run_def)
  then have uv: "rev [1..<Suc (length u)] = length u # rev [1..<length u]" by simp
  have n: "ms number_re (i, ?d @ ?s, g) =
      (i + (length u + 2), ?s, g) # (i + (length u + 1), y # ?s, g) #
      (i + length u, x # y # ?s, g) # map (\<lambda>k. (i + k, drop k ?d @ ?s, g)) (rev [1..<length u])"
    using number_ms_all [OF d, of ?s i g] by (simp only: up uv) simp
  have r1: "ms ?rest (i + (length u + 2), ?s, g) =
      map (\<lambda>k. (i + length u + 3 + k, drop k c, g)) (rev [1..<Suc (length c)])"
    using number_ms_all [OF assms(4), of "[]" "Suc (i + (length u + 2))" g]
    by (simp add: any_char_def nl_def del: upt_Suc)
  have r2: "ms ?rest (i + (length u + 1), y # ?s, g) = []"
    using ac [OF assms(3)] by (simp add: number_re_def Plus_def)
  have r3: "ms ?rest (i + length u, x # y # ?s, g) = [(i + length u + 2, ?s, g)]"
    using number_ms_all [of "[y]" ?s "Suc (i + length u)" g] assms(2,3) ac
    by (simp add: digit_run_def)
  have "ms (Cat number_re ?rest) (i, ?d @ ?s, g) =
      map (\<lambda>k. (i + length u + 3 + k, drop k c, g)) (rev [1..<Suc (length c)]) @
      (i + length u + 2, ?s, g) #
      concat (map (ms ?rest) (map (\<lambda>k. (i + k, drop k ?d @ ?s, g)) (rev [1..<length u])))"
    unfolding ms.simps(3) [of number_re ?rest] n by (simp only: list.map concat.simps r1 r2 r3) simp
  then show ?thesis by simp
qed

text \<open>The first number of the group can only be taken whole, because a dot follows it.\<close>

lemma python_group_ms:
  assumes "digit_run a"
  shows "ms (Seq [number_re, Chr dot, number_re, Chr any_char, number_re]) (i, a @ CHR ''.'' # t, g) =
    ms (Cat number_re (Cat (Chr any_char) number_re)) (Suc (i + length a), t, g)"
proof -
  let ?tail = "Cat number_re (Cat (Chr any_char) number_re)"
  have "Suc 0 \<le> length a" using assms by (cases a) (auto simp: digit_run_def)
  then have "rev [1..<Suc (length a)] = length a # rev [1..<length a]" by simp
  with number_ms_all [OF assms, of "CHR ''.'' # t" i g]
  have first: "ms number_re (i, a @ CHR ''.'' # t, g) = (i + length a, CHR ''.'' # t, g) #
      map (\<lambda>k. (i + k, drop k a @ CHR ''.'' # t, g)) (rev [1..<length a])"
    by (simp del: upt_Suc)
  have dead: "ms (Cat (Chr dot) ?tail) (j, drop k a @ w, h) = []" if "k \<in> set (rev [1..<length a])" for j k w h
    using that digit_run_drop_hd [OF assms, of k w] not_dot_digit by (cases "drop k a @ w") auto
  then have "concat (map (ms (Cat (Chr dot) ?tail))
      (map (\<lambda>k. (i + k, drop k a @ CHR ''.'' # t, g)) (rev [1..<length a]))) = []"
    by simp
  moreover have "ms (Cat (Chr dot) ?tail) (i + length a, CHR ''.'' # t, g) =
      ms ?tail (Suc (i + length a), t, g)"
    by (simp del: ms.simps(3) add: ms.simps(3) [of "Chr dot"])
  ultimately show ?thesis
    unfolding Seq.simps ms.simps(3) [of number_re "Cat (Chr dot) ?tail"] first
    by (simp only: list.map concat.simps append_Nil2)
qed

text \<open>
  A plain Python release \<open>a.b.c\<close> whose minor number has three digits or more is not
  left alone: the patch number is moved into the pre-release part (\<open>1.234.5\<close> becomes
  \<open>1.234-5\<close>).
\<close>

theorem normalize_python_long_minor:
  assumes "digit_run a" and "digit_run u" and "is_digit x" and "is_digit y" and "digit_run c"
  shows "normalize_version ''python'' (a @ ''.'' @ (u @ [x, y]) @ ''.'' @ c) =
    a @ ''.'' @ (u @ [x, y]) @ ''-'' @ c"
proof -
  let ?ab = "a @ CHR ''.'' # u @ [x, y]"
  let ?tail = "Cat number_re (Cat (Chr any_char) number_re)"
  let ?inner = "Seq [number_re, Chr dot, number_re, Chr any_char, number_re]"
  let ?sep = "Cat (Chr dot) (Grp 2 (Plus (Chr (\<lambda>c. \<not> dot c))))"
  let ?s = "a @ CHR ''.'' # u @ [x, y] @ CHR ''.'' # c"
  let ?st = "\<lambda>k. (Suc (length a) + length u + 3 + k, drop k c, [])"
  from python_tail_ms [OF assms(2-5), of "Suc (length a)" "[]"] obtain l where tail:
    "ms ?tail (Suc (length a), u @ [x, y] @ CHR ''.'' # c, []) =
      map ?st (rev [1..<Suc (length c)]) @ (Suc (length a) + length u + 2, CHR ''.'' # c, []) # l"
    by blast
  have inner: "ms ?inner (0, ?s, []) =
      map ?st (rev [1..<Suc (length c)]) @ (Suc (length a) + length u + 2, CHR ''.'' # c, []) # l"
    using python_group_ms [OF assms(1), of 0 "u @ [x, y] @ CHR ''.'' # c"] tail by simp
  let ?grp = "\<lambda>st :: mstate. case st of (i', s', g') \<Rightarrow> (i', s', (1, take (length ?s - length s') ?s) # g')"
  have grp: "ms (Grp 1 ?inner) (0, ?s, []) =
      map ?grp (map ?st (rev [1..<Suc (length c)])) @
      ?grp (Suc (length a) + length u + 2, CHR ''.'' # c, []) # map ?grp l"
    unfolding ms.simps(7) by (simp only: inner prod.case map_append list.map)
  have skip: "ms ?sep z = []" if "z \<in> set (map ?grp (map ?st (rev [1..<Suc (length c)])))" for z
  proof -
    from that obtain k where "k \<in> set (rev [1..<Suc (length c)])" and z: "z = ?grp (?st k)"
      by (auto simp del: upt_Suc)
    then have k: "0 < k" "k \<le> length c" by auto
    then have "drop k c = [] \<or> is_digit (hd (drop k c))"
      using digit_run_drop_hd [OF assms(5), of k "[]"] by (cases "k = length c") auto
    then show ?thesis using z not_dot_digit by (cases "drop k c") auto
  qed
  have take: "take (length ?s - length (CHR ''.'' # c)) ?s = ?ab"
  proof -
    have "take (length (p @ t) - length t) (p @ t) = p" for p t :: string by simp
    from this [of ?ab "CHR ''.'' # c"] show ?thesis by (simp only: append.simps append_assoc)
  qed
  have run: "firsts (Grp 2 (Plus (Chr (\<lambda>c. \<not> dot c)))) (i, c @ [], g) (i + length c, [], (2, c) # g)"
    for i g
    using assms(5) not_dot_digit by (intro firsts_Grp firsts_Plus_run) (auto simp: digit_run_def)
  have "firsts ?sep (?grp (Suc (length a) + length u + 2, CHR ''.'' # c, []))
      (Suc (Suc (length a) + length u + 2) + length c, [], [(2, c), (1, ?ab)])"
    unfolding prod.case take
    by (rule firsts_Cat [OF firsts_Chr run [unfolded append_Nil2]]) simp
  from firsts_Cat_skip [OF grp skip this]
  have whole: "firsts python_re (0, ?s, [])
      (Suc (Suc (length a) + length u + 2) + length c, [], [(2, c), (1, ?ab)])"
    by (simp add: python_re_def)
  have "normalize_python ?s = ?ab @ ''-'' @ c"
    unfolding normalize_python_def
    by (subst sub_whole [OF whole]) (auto simp: python_re_def tpl_def re_group_def)
  then show ?thesis by (simp add: normalize_version_def)
qed

lemma normalize_python_long_minor_witness:
  "digit_run ''1'' \<and> normalize_version ''python'' ''1.234.5'' = ''1.234-5''"
  using normalize_python_long_minor [of "''1''" "''2''" "CHR ''3''" "CHR ''4''" "''5''"]
  by (simp add: digit_run_def is_digit_def)

subsection \<open>Comparisons\<close>

lemma split_once_at:
  "c \<notin> set x \<Longrightarrow> split_once c (x @ c # y) = [x, y]"
proof -
  assume "c \<notin> set x"
  then have "takeWhile (\<lambda>z. z \<noteq> c) (x @ c # y) = x" "dropWhile (\<lambda>z. z \<noteq> c) (x @ c # y) = c # y"
    by (metis (mono_tags, lifting) takeWhile_append2 takeWhile.simps(2) append_Nil2,
        metis (mono_tags, lifting) dropWhile_append2 dropWhile.simps(2))
  then show ?thesis by (simp add: split_once_def)
qed

text \<open>Comparing with the string \<open>name@v\<close> gives the same answer as comparing with the
  component built from \<open>name\<close> and \<open>v\<close>, for equality and the four orders, whenever the
  component's rewriting leaves \<open>v\<close> alone; the two differ only in what they record in
  \<open>known_versions\<close>.
\<close>

theorem compare_string_component:
  assumes "component_version_init L k0 name v = Inr (d, k1)"
    and "v \<noteq> []" and "normalize_version name (str_strip v) = v"
    and "op \<in> {component_version_eq, component_version_lt, component_version_le,
      component_version_gt, component_version_ge}"
  shows "(\<exists>k'. op L k c (Cv_str (name @ ''@'' @ v)) = Inr (b, k')) \<longleftrightarrow>
    (\<exists>k'. op L k c (Cv_component d) = Inr (b, k'))"
proof -
  from assms(1-3) have at: "CHR ''@'' \<notin> set name" and "cv_name d = name"
    and v: "version_of_str L v = Inr (cv_version d)"
    by (auto simp: component_version_init_def rbind_Inr_iff split: if_splits)
  with assms(4) show ?thesis
    by (auto simp: component_version_eq_def component_version_lt_def component_version_le_def
        component_version_gt_def component_version_ge_def cv_compare_def extract_members_def
        split_once_at Let_def split: if_splits)
qed

definition sample_version :: version where
  "sample_version = \<lparr>major = 1, minor = 2, patch = 3, prerelease = [], build = []\<rparr>"

text \<open>One library that satisfies the documented laws on the versions used by the witnesses.\<close>

definition sample_lib :: semver_lib where
  "sample_lib = \<lparr>lib_coerce = (\<lambda>s. if s = ''1.2.3'' then Some sample_version else None),
     lib_eq = (=),
     lib_lt = (\<lambda>v w. major v < major w),
     lib_le = (\<lambda>v w. major v \<le> major w),
     lib_gt = (\<lambda>v w. major v > major w),
     lib_ge = (\<lambda>v w. major v \<ge> major w),
     lib_str = (\<lambda>_. ''1.2.3'')\<rparr>"

lemma sample_parse [simp]: "version_of_str sample_lib ''1.2.3'' = Inr sample_version"
  by (simp add: version_of_str_def sample_lib_def removeprefix_def startswith_def sample_version_def)

lemma compare_string_component_witness:
  "component_version_le sample_lib (\<lambda>_. {}) \<lparr>cv_name = ''golang'', cv_raw = ''1.2.3'',
     cv_version = sample_version\<rparr> (Cv_str ''golang@1.2.3'') \<noteq> Inl Value_Error"
proof -
  let ?d = "\<lparr>cv_name = ''golang'', cv_raw = ''1.2.3'', cv_version = sample_version\<rparr>"
  have strip: "str_strip ''1.2.3'' = ''1.2.3''" by code_simp
  have init: "component_version_init sample_lib (\<lambda>_. {}) ''golang'' ''1.2.3'' =
      Inr (?d, add_known_version sample_lib (\<lambda>_. {}) ''golang'' sample_version)"
    by (simp add: component_version_init_def normalize_version_def strip)
  have "\<exists>k'. component_version_le sample_lib (\<lambda>_. {}) ?d (Cv_component ?d) = Inr (True, k')"
    by (simp add: component_version_le_def cv_compare_def extract_members_def sample_lib_def)
  then have "\<exists>k'. component_version_le sample_lib (\<lambda>_. {}) ?d (Cv_str (''golang'' @ ''@'' @ ''1.2.3'')) =
      Inr (True, k')"
    using compare_string_component [OF init, of component_version_le "\<lambda>_. {}" ?d True]
    by (simp add: normalize_version_def strip)
  then show ?thesis by auto
qed

text \<open>
  A component whose name is not empty equals its own printed form: printing and
  comparing agree, given that \<open>coerce\<close> reads back what the package prints (no leading
  \<open>v\<close>) and that its equality is reflexive.
\<close>

theorem component_version_str_roundtrip:
  assumes "component_version_init L k0 name v = Inr (c, k1)" and "name \<noteq> []"
    and "lib_coerce L (lib_str L (cv_version c)) = Some (cv_version c)"
    and "\<not> startswith (lib_str L (cv_version c)) ''v''"
    and "lib_eq L (cv_version c) (cv_version c)"
  shows "component_version_eq L k c (Cv_str (component_version_str L c)) =
    Inr (True, add_known_version L k name (cv_version c))"
proof -
  from assms(1) have "CHR ''@'' \<notin> set name" "cv_name c = name"
    by (auto simp: component_version_init_def rbind_Inr_iff split: if_splits)
  moreover from assms(3,4) have "version_of_str L (lib_str L (cv_version c)) = Inr (cv_version c)"
    by (simp add: version_of_str_def removeprefix_def)
  ultimately show ?thesis
    using assms(2,5)
    by (simp add: component_version_eq_def component_version_str_def split_once_at Let_def)
qed

lemma component_version_str_roundtrip_witness:
  "component_version_eq sample_lib (\<lambda>_. {}) \<lparr>cv_name = ''golang'', cv_raw = ''1.2.3'',
     cv_version = sample_version\<rparr> (Cv_str ''golang@1.2.3'') =
   Inr (True, add_known_version sample_lib (\<lambda>_. {}) ''golang'' sample_version)"
proof -
  let ?d = "\<lparr>cv_name = ''golang'', cv_raw = ''1.2.3'', cv_version = sample_version\<rparr>"
  have strip: "str_strip ''1.2.3'' = ''1.2.3''" by code_simp
  have "component_version_init sample_lib (\<lambda>_. {}) ''golang'' ''1.2.3'' =
      Inr (?d, add_known_version sample_lib (\<lambda>_. {}) ''golang'' sample_version)"
    by (simp add: component_version_init_def normalize_version_def strip)
  from component_version_str_roundtrip [OF this] show ?thesis
    by (simp add: sample_lib_def component_version_str_def startswith_def)
qed

text \<open>
  \<open>known_versions\<close> only grows: no constructor or comparison forgets a version, and
  every successful construction records the version it built under the component's name.
\<close>

theorem known_versions_grow:
  "(\<forall>c k'. component_version_init L k name v = Inr (c, k') \<longrightarrow>
      (\<forall>n. k n \<subseteq> k' n) \<and> (v \<noteq> [] \<longrightarrow> lib_str L (cv_version c) \<in> k' name)) \<and>
   (\<forall>b k'. component_version_eq L k c0 x = Inr (b, k') \<longrightarrow> (\<forall>n. k n \<subseteq> k' n)) \<and>
   (\<forall>b k'. cv_compare cmp L k c0 x = Inr (b, k') \<longrightarrow> (\<forall>n. k n \<subseteq> k' n))"
proof (intro conjI allI impI)
  fix c k'
  assume "component_version_init L k name v = Inr (c, k')"
  then show "k n \<subseteq> k' n" and "v \<noteq> [] \<Longrightarrow> lib_str L (cv_version c) \<in> k' name" for n
    by (auto simp: component_version_init_def rbind_Inr_iff add_known_version_def split: if_splits)
next
  fix b k' n
  assume "component_version_eq L k c0 x = Inr (b, k')"
  then show "k n \<subseteq> k' n"
    by (auto simp: component_version_eq_def rbind_Inr_iff add_known_version_def Let_def
        split: cv_operand.splits list.splits if_splits)
next
  fix b k' n
  assume "cv_compare cmp L k c0 x = Inr (b, k')"
  then show "k n \<subseteq> k' n"
    by (auto simp: cv_compare_def extract_members_def rbind_Inr_iff add_known_version_def
        split: cv_operand.splits list.splits if_splits)
qed

lemma known_versions_grow_witness:
  "''1.2.3'' \<in> add_known_version sample_lib (\<lambda>_. {}) ''golang'' sample_version ''golang''"
proof -
  have strip: "str_strip ''1.2.3'' = ''1.2.3''" by code_simp
  have init: "component_version_init sample_lib (\<lambda>_. {}) ''golang'' ''1.2.3'' =
      Inr (\<lparr>cv_name = ''golang'', cv_raw = ''1.2.3'', cv_version = sample_version\<rparr>,
        add_known_version sample_lib (\<lambda>_. {}) ''golang'' sample_version)"
    by (simp add: component_version_init_def normalize_version_def strip)
  show ?thesis
    using known_versions_grow [of sample_lib "\<lambda>_. {}" "''golang''" "''1.2.3''"] init
    by (auto simp: sample_lib_def)
qed

end
