(* ===== verification/Semver_Range.thy ===== *)
theory Semver_Range
  imports Component_Version
begin

section \<open>Version ranges (\<open>utils/manifest/_internal/types.py\<close>, the specification engine)\<close>

text \<open>
  \<open>SemverRange\<close> is \<open>semantic_version.NpmSpec\<close> with its own parser, \<open>_CustomParser\<close>.
  The package is not part of the repository: its constants, its parser of one block, the
  algebra of its clauses and the match of one comparison are the fields of a parameter of
  type \<open>npm_lib\<close>, and \<open>npm_documented\<close> is what its documentation promises of them.
  \<open>parse_simple\<close> builds its comparisons with the constructor it is given, which is how the
  overridden class method \<open>range\<close> takes effect.
\<close>

datatype operator = OP_EQ | OP_GT | OP_GTE | OP_LT | OP_LTE | OP_NEQ

datatype prerelease_policy = PRERELEASE_ALWAYS | PRERELEASE_NATURAL | PRERELEASE_SAMEPATCH

record range =
  r_operator :: operator
  r_target :: version
  r_policy :: prerelease_policy

record 'c npm_lib =
  joiner :: string
  hyphen :: string
  block_ok :: "string \<Rightarrow> bool"
  parse_simple :: "(operator \<Rightarrow> version \<Rightarrow> range) \<Rightarrow> string \<Rightarrow> range list res"
  never :: 'c
  all_of :: "range list \<Rightarrow> 'c"
  or_clause :: "'c \<Rightarrow> 'c \<Rightarrow> 'c"
  clause_match :: "'c \<Rightarrow> version \<Rightarrow> bool"
  range_match :: "range \<Rightarrow> version \<Rightarrow> bool"

definition custom_range :: "operator \<Rightarrow> version \<Rightarrow> range" where
  "custom_range op target = \<lparr>r_operator = op, r_target = target, r_policy = PRERELEASE_ALWAYS\<rparr>"

text \<open>The upper bound of a caret block gets the pre-release \<open>0\<close>, the least of its version.\<close>

definition caret_clause :: "range \<Rightarrow> range" where
  "caret_clause c =
     (if r_operator c = OP_LT \<and> prerelease (r_target c) = [] then
        custom_range OP_LT \<lparr>major = major (r_target c), minor = minor (r_target c),
          patch = patch (r_target c), prerelease = [''0''], build = []\<rparr>
      else c)"

definition parse_block :: "'c npm_lib \<Rightarrow> string \<Rightarrow> range list res" where
  "parse_block N block =
     (if \<not> block_ok N block then Inl Value_Error
      else rbind (parse_simple N custom_range block) (\<lambda>parsed.
        if startswith block ''^'' then Inr (map caret_clause parsed) else Inr parsed))"

definition parse_group :: "'c npm_lib \<Rightarrow> string \<Rightarrow> range list res" where
  "parse_group N raw_group =
     (let group = (if str_strip raw_group = [] then ''>=0.0.0'' else str_strip raw_group) in
      if str_contains group (hyphen N) then
        (case str_split (hyphen N) group of
           [low, high] \<Rightarrow>
             rbind (parse_simple N custom_range (''>='' @ low)) (\<lambda>l.
             rbind (parse_simple N custom_range (''<='' @ high)) (\<lambda>h. Inr (l @ h)))
         | _ \<Rightarrow> Inl Value_Error)
      else rbind (rmap (parse_block N) (str_split '' '' group)) (\<lambda>cs. Inr (concat cs)))"

definition npm_parse :: "'c npm_lib \<Rightarrow> string \<Rightarrow> 'c res" where
  "npm_parse N expression =
     rfold (\<lambda>raw_group result. rbind (parse_group N raw_group) (\<lambda>subclauses.
         Inr (or_clause N result (all_of N subclauses))))
       (str_split (joiner N) expression) (never N)"

text \<open>\<open>SemverRange(expression)\<close> and \<open>version in range\<close>.\<close>

record 'c semver_range =
  expression :: string
  clause :: 'c

definition semver_range_init :: "'c npm_lib \<Rightarrow> string \<Rightarrow> 'c semver_range res" where
  "semver_range_init N e = rbind (npm_parse N e) (\<lambda>c. Inr \<lparr>expression = e, clause = c\<rparr>)"

definition in_range :: "'c npm_lib \<Rightarrow> version \<Rightarrow> 'c semver_range \<Rightarrow> bool" where
  "in_range N v r = clause_match N (clause r) v"

subsection \<open>Meaning of an expression\<close>

definition npm_documented :: "'c npm_lib \<Rightarrow> bool" where
  "npm_documented N \<longleftrightarrow>
     (\<forall>v. \<not> clause_match N (never N) v) \<and>
     (\<forall>a b v. clause_match N (or_clause N a b) v \<longleftrightarrow> clause_match N a v \<or> clause_match N b v) \<and>
     (\<forall>cs v. clause_match N (all_of N cs) v \<longleftrightarrow> (\<forall>c \<in> set cs. range_match N c v))"

text \<open>Parsing an expression is parsing its groups one by one, in order.\<close>

lemma npm_fold_match:
  assumes "npm_documented N"
    and "rfold (\<lambda>raw result. rbind (parse_group N raw) (\<lambda>cs.
      Inr (or_clause N result (all_of N cs)))) gs c0 = Inr c"
  shows "\<exists>css. rmap (parse_group N) gs = Inr css \<and>
    (\<forall>v. clause_match N c v \<longleftrightarrow>
      clause_match N c0 v \<or> (\<exists>cs \<in> set css. \<forall>r \<in> set cs. range_match N r v))"
  using assms(2)
proof (induction gs arbitrary: c0)
  case (Cons g gs)
  then obtain cs where cs: "parse_group N g = Inr cs"
    and rest: "rfold (\<lambda>raw result. rbind (parse_group N raw) (\<lambda>cs.
      Inr (or_clause N result (all_of N cs)))) gs (or_clause N c0 (all_of N cs)) = Inr c"
    by (auto simp: rbind_Inr_iff)
  from Cons.IH [OF rest] obtain css where css: "rmap (parse_group N) gs = Inr css"
    and m: "\<And>v. clause_match N c v \<longleftrightarrow> clause_match N (or_clause N c0 (all_of N cs)) v \<or>
      (\<exists>cs \<in> set css. \<forall>r \<in> set cs. range_match N r v)"
    by blast
  have "clause_match N c v \<longleftrightarrow>
      clause_match N c0 v \<or> (\<exists>x \<in> set (cs # css). \<forall>r \<in> set x. range_match N r v)" for v
    using m [of v] assms(1) by (auto simp: npm_documented_def)
  with cs css show ?case by (intro exI [of _ "cs # css"]) auto
qed simp

text \<open>
  A range is the union of its \<open>||\<close> groups, and a group is the intersection of its
  comparisons: a version is in a parsed range iff it satisfies every comparison of one of
  the groups, in the order the expression lists them, with no branch added or dropped.
\<close>

theorem semver_range_meaning:
  assumes "npm_documented N" and "semver_range_init N e = Inr r"
  shows "\<exists>css. rmap (parse_group N) (str_split (joiner N) e) = Inr css \<and>
    (\<forall>v. in_range N v r \<longleftrightarrow> (\<exists>cs \<in> set css. \<forall>c \<in> set cs. range_match N c v))"
proof -
  from assms(2) have "npm_parse N e = Inr (clause r)"
    by (auto simp: semver_range_init_def rbind_Inr_iff)
  from npm_fold_match [OF assms(1) this [unfolded npm_parse_def]] assms(1) show ?thesis
    by (auto simp: in_range_def npm_documented_def)
qed

text \<open>
  A concrete package for the witnesses: one comparison per block, an operator of one or
  two characters and a major number of one digit.
\<close>

definition sample_block :: "(operator \<Rightarrow> version \<Rightarrow> range) \<Rightarrow> string \<Rightarrow> range list res" where
  "sample_block mk s =
     (let num = (\<lambda>t. case t of [d] \<Rightarrow>
            (if is_digit d then Some \<lparr>major = int (of_char d) - 48, minor = 0, patch = 0,
               prerelease = [], build = []\<rparr> else None) | _ \<Rightarrow> None)
      in if startswith s ''^'' then
           (case num (tl s) of None \<Rightarrow> Inl Value_Error
            | Some v \<Rightarrow> Inr [mk OP_GTE v, mk OP_LT (v\<lparr>major := major v + 1\<rparr>)])
         else if startswith s ''<'' then
           (case num (tl s) of None \<Rightarrow> Inl Value_Error | Some v \<Rightarrow> Inr [mk OP_LT v])
         else Inl Value_Error)"

definition sample_range_match :: "range \<Rightarrow> version \<Rightarrow> bool" where
  "sample_range_match c v =
     (let key = (\<lambda>w. 2 * major w + (if prerelease w = [] then 1 else 0)) in
      case r_operator c of
        OP_GTE \<Rightarrow> key (r_target c) \<le> key v
      | OP_LT \<Rightarrow> key v < key (r_target c)
      | _ \<Rightarrow> False)"

definition sample_npm :: "range list list npm_lib" where
  "sample_npm = \<lparr>joiner = ''||'', hyphen = '' - '', block_ok = (\<lambda>b. b \<noteq> []),
     parse_simple = sample_block, never = [], all_of = (\<lambda>cs. [cs]), or_clause = (@),
     clause_match = (\<lambda>css v. \<exists>cs \<in> set css. \<forall>c \<in> set cs. sample_range_match c v),
     range_match = sample_range_match\<rparr>"

lemma sample_npm_documented: "npm_documented sample_npm"
  by (auto simp: npm_documented_def sample_npm_def)

lemma sample_groups:
  "rmap (parse_group sample_npm) (str_split ''||'' ''<2 || ^5'') = Inr [
     [custom_range OP_LT \<lparr>major = 2, minor = 0, patch = 0, prerelease = [], build = []\<rparr>],
     [custom_range OP_GTE \<lparr>major = 5, minor = 0, patch = 0, prerelease = [], build = []\<rparr>,
      custom_range OP_LT \<lparr>major = 6, minor = 0, patch = 0, prerelease = [''0''], build = []\<rparr>]]"
  by code_simp

lemma semver_range_meaning_witness:
  "\<exists>r. semver_range_init sample_npm ''<2 || ^5'' = Inr r \<and>
     in_range sample_npm \<lparr>major = 5, minor = 0, patch = 0, prerelease = [], build = []\<rparr> r"
proof -
  have "is_ok (semver_range_init sample_npm ''<2 || ^5'')" by code_simp
  then obtain r where r: "semver_range_init sample_npm ''<2 || ^5'' = Inr r"
    by (auto simp: is_ok_def split: sum.splits)
  let ?v = "\<lparr>major = 5, minor = 0, patch = 0, prerelease = [], build = []\<rparr>"
  from semver_range_meaning [OF sample_npm_documented r] obtain css
    where css: "rmap (parse_group sample_npm) (str_split ''||'' ''<2 || ^5'') = Inr css"
      and m: "\<And>v. in_range sample_npm v r \<longleftrightarrow>
        (\<exists>cs \<in> set css. \<forall>c \<in> set cs. range_match sample_npm c v)"
    by (auto simp: sample_npm_def)
  from css [unfolded sample_groups] have "\<exists>cs \<in> set css. \<forall>c \<in> set cs. range_match sample_npm c ?v"
    by (auto simp: sample_npm_def sample_range_match_def custom_range_def Let_def)
  with m r show ?thesis by blast
qed

end
