(* ===== verification/Declaration.thy ===== *)
theory Declaration
  imports Semver_Range
begin

section \<open>Declarations (\<open>utils/manifest/_internal/const.py\<close>, \<open>declaration.py\<close>, \<open>types.py\<close>)\<close>

text \<open>
  A declaration of a manifest is a string such as \<open>bug (APMAPI-1)\<close> or \<open>v1.2.3\<close>: it skips a
  test or gives the versions it runs on.  The parser reads what the YAML library returns,
  the datatype \<open>yaml\<close>.  Parsing a version builds a \<open>ComponentVersion\<close>, so it takes and
  returns \<open>known_versions\<close>: \<open>'a parser\<close> is the type of such a computation.
\<close>

subsection \<open>Values of the YAML library\<close>

text \<open>
  \<open>Y_scalar b\<close> is any scalar that is not a string (a number, a Boolean, a date) with its
  truth value.
\<close>

datatype yaml =
    Y_null
  | Y_scalar bool
  | Y_str string
  | Y_list "yaml list"
  | Y_map "(yaml \<times> yaml) list"

fun truthy :: "yaml \<Rightarrow> bool" where
  "truthy Y_null = False"
| "truthy (Y_scalar b) = b"
| "truthy (Y_str s) = (s \<noteq> [])"
| "truthy (Y_list xs) = (xs \<noteq> [])"
| "truthy (Y_map m) = (m \<noteq> [])"

subsection \<open>Computations that extend \<open>known_versions\<close>\<close>

type_synonym 'a parser = "known \<Rightarrow> ('a \<times> known) res"

definition preturn :: "'a \<Rightarrow> 'a parser" where
  "preturn x k = Inr (x, k)"

definition pfail :: "py_error \<Rightarrow> 'a parser" where
  "pfail e k = Inl e"

definition pbind :: "'a parser \<Rightarrow> ('a \<Rightarrow> 'b parser) \<Rightarrow> 'b parser" where
  "pbind m f k = rbind (m k) (\<lambda>(x, k'). f x k')"

definition plift :: "'a res \<Rightarrow> 'a parser" where
  "plift x k = rbind x (\<lambda>v. Inr (v, k))"

fun pmap :: "('a \<Rightarrow> 'b parser) \<Rightarrow> 'a list \<Rightarrow> 'b list parser" where
  "pmap f [] = preturn []"
| "pmap f (x # xs) = pbind (f x) (\<lambda>y. pbind (pmap f xs) (\<lambda>ys. preturn (y # ys)))"

lemma pbind_Inr_iff [res_simps]:
  "pbind m f k = Inr (y, k'') \<longleftrightarrow> (\<exists>x k'. m k = Inr (x, k') \<and> f x k' = Inr (y, k''))"
  by (auto simp: pbind_def rbind_Inr_iff)

lemma preturn_Inr_iff [simp, res_simps]: "preturn x k = Inr (y, k') \<longleftrightarrow> x = y \<and> k = k'"
  by (auto simp: preturn_def)

lemma pfail_Inr_iff [simp, res_simps]: "pfail e k = Inr y \<longleftrightarrow> False"
  by (simp add: pfail_def)

lemma plift_Inr_iff [simp, res_simps]: "plift x k = Inr (y, k') \<longleftrightarrow> x = Inr y \<and> k = k'"
  by (auto simp: plift_def rbind_Inr_iff)

lemma pmap_in_set:
  "pmap f xs k = Inr (ys, k') \<Longrightarrow> y \<in> set ys \<Longrightarrow> \<exists>x \<in> set xs. \<exists>k1 k2. f x k1 = Inr (y, k2)"
proof (induction xs arbitrary: ys k)
  case (Cons x xs)
  from Cons.prems(1) obtain z ks zs where *: "f x k = Inr (z, ks)" "pmap f xs ks = Inr (zs, k')"
    "ys = z # zs"
    by (auto simp: pbind_Inr_iff)
  show ?case
  proof (cases "y = z")
    case True
    with *(1) show ?thesis by auto
  next
    case False
    with *(3) Cons.prems(2) have "y \<in> set zs" by simp
    from Cons.IH [OF *(2) this] show ?thesis by auto
  qed
qed simp

subsection \<open>\<open>TestDeclaration\<close> and \<open>SkipDeclaration\<close>\<close>

datatype test_declaration = BUG | FLAKY | INCOMPLETE_TEST_APP | IRRELEVANT | MISSING_FEATURE

fun td_str :: "test_declaration \<Rightarrow> string" where
  "td_str BUG = ''bug''"
| "td_str FLAKY = ''flaky''"
| "td_str INCOMPLETE_TEST_APP = ''incomplete_test_app''"
| "td_str IRRELEVANT = ''irrelevant''"
| "td_str MISSING_FEATURE = ''missing_feature''"

definition test_declarations :: "test_declaration list" where
  "test_declarations = [BUG, FLAKY, INCOMPLETE_TEST_APP, IRRELEVANT, MISSING_FEATURE]"

text \<open>\<open>TestDeclaration(s)\<close>: the member with that value, or \<open>ValueError\<close>.\<close>

definition td_of_str :: "string \<Rightarrow> test_declaration res" where
  "td_of_str s = of_option Value_Error (find (\<lambda>d. td_str d = s) test_declarations)"

record skip_declaration =
  sd_value :: test_declaration
  sd_details :: "string option"

definition skip_init :: "string \<Rightarrow> string option \<Rightarrow> skip_declaration res" where
  "skip_init v details = rbind (td_of_str v) (\<lambda>d. Inr \<lparr>sd_value = d, sd_details = details\<rparr>)"

datatype skip_operand = Sk_skip skip_declaration | Sk_test test_declaration | Sk_other

definition skip_eq :: "skip_declaration \<Rightarrow> skip_operand \<Rightarrow> bool res" where
  "skip_eq s x =
     (case x of
        Sk_skip t \<Rightarrow> Inr (sd_value s = sd_value t \<and> sd_details s = sd_details t)
      | Sk_test d \<Rightarrow> Inr (sd_value s = d)
      | Sk_other \<Rightarrow> Inl Type_Error)"

definition skip_str :: "skip_declaration \<Rightarrow> string" where
  "skip_str s =
     (case sd_details s of
        None \<Rightarrow> td_str (sd_value s)
      | Some t \<Rightarrow> if t = [] then td_str (sd_value s) else td_str (sd_value s) @ '' ('' @ t @ '')'')"

subsection \<open>The patterns\<close>

text \<open>The group of the reason is numbered as in \<open>full_regex\<close>.\<close>

definition reason_re :: re where
  "reason_re = Cat (Opt (Chr (\<lambda>c. c = CHR '' '')))
     (Opt (Cat (Chr (\<lambda>c. c = CHR ''(''))
        (Cat (Grp 3 (Star (Chr any_char))) (Lit '')''))))"

definition skip_declaration_re :: re where
  "skip_declaration_re =
     Cat (Grp 1 (Choice (map (\<lambda>d. Lit (td_str d)) test_declarations))) reason_re"

definition full_re :: re where
  "full_re = Cat (Opt (Grp 1 (Chr (\<lambda>c. c = CHR ''v''))))
     (Cat (Grp 2 (Star (Chr (\<lambda>c. c \<noteq> CHR ''('' \<and> c \<noteq> CHR '')'')))) reason_re)"

definition jira_ticket_re :: re where
  "jira_ticket_re = Cat (Times 3 (Chr is_upper))
     (Cat (Star (Chr is_upper)) (Cat (Chr (\<lambda>c. c = CHR ''-'')) (Plus (Chr is_digit))))"

definition jira_tickets_re :: re where
  "jira_tickets_re = Cat (Grp 1 jira_ticket_re) (Star (Grp 2 (Cat (Lit '', '') jira_ticket_re)))"

definition parse_skip_re :: re where
  "parse_skip_re = Cat Bos (Cat (Grp 1 (Plus (Chr is_word)))
     (Cat (Opt (Grp 2 (Cat (Lit '' ('') (Cat (Grp 3 (Star (Chr any_char))) (Lit '')''))))) Eos))"

subsection \<open>Parsing a declaration\<close>

definition validate_declaration_reason :: "test_declaration \<Rightarrow> string option \<Rightarrow> unit res" where
  "validate_declaration_reason d reason =
     (if d \<noteq> BUG \<and> d \<noteq> FLAKY then Inr ()
      else case reason of
        None \<Rightarrow> Inl Value_Error
      | Some r \<Rightarrow> if re_fullmatch jira_tickets_re r = None then Inl Value_Error else Inr ())"

definition parse_skip_declaration :: "string \<Rightarrow> (test_declaration \<times> string option) res" where
  "parse_skip_declaration s =
     (if \<not> list_ex (\<lambda>d. startswith s (td_str d)) test_declarations then Inl Value_Error
      else case re_match parse_skip_re s of
        None \<Rightarrow> Inl Assertion_Error
      | Some st \<Rightarrow>
          rbind (td_of_str (case re_group st 1 of None \<Rightarrow> [] | Some g \<Rightarrow> g)) (\<lambda>d.
            Inr (d, re_group st 3)))"

text \<open>
  The attribute \<open>reason\<close> is not always assigned: \<open>dc_reason d = None\<close> is an object without
  the attribute, \<open>Some r\<close> an object whose attribute is \<open>r\<close>.
\<close>

datatype 'c decl_value = Dv_range "'c semver_range" | Dv_test test_declaration

record 'c parsed_declaration =
  dc_raw :: string
  dc_inline :: bool
  dc_component :: string
  dc_is_skip :: bool
  dc_value :: "'c decl_value"
  dc_reason :: "string option option"

definition sanitize_version :: "semver_lib \<Rightarrow> string \<Rightarrow> mstate \<Rightarrow> string parser" where
  "sanitize_version L component st =
     (let raw_version = tpl st 2 in
      if re_group st 1 = Some ''v'' then
        (\<lambda>k. rbind (component_version_init L k component raw_version) (\<lambda>(c, k').
           Inr (''>='' @ lib_str L (cv_version c), k')))
      else preturn raw_version)"

text \<open>\<open>parse_declaration\<close>, which fills in the fields of the object.\<close>

definition parse_declaration ::
  "semver_lib \<Rightarrow> 'c npm_lib \<Rightarrow> string \<Rightarrow> string \<Rightarrow> bool \<Rightarrow> 'c parsed_declaration parser" where
  "parse_declaration L N raw component is_inline =
     (if re_fullmatch skip_declaration_re raw \<noteq> None then
        plift (rbind (parse_skip_declaration raw) (\<lambda>(d, reason).
          rbind (validate_declaration_reason d reason) (\<lambda>_.
            Inr \<lparr>dc_raw = raw, dc_inline = is_inline, dc_component = component,
              dc_is_skip = True, dc_value = Dv_test d, dc_reason = Some reason\<rparr>)))
      else if \<not> is_inline then pfail Value_Error
      else case re_fullmatch full_re raw of
        None \<Rightarrow> pfail Value_Error
      | Some st \<Rightarrow>
          pbind (sanitize_version L component st) (\<lambda>sanitized_version.
          pbind (plift (semver_range_init N sanitized_version)) (\<lambda>r.
          preturn \<lparr>dc_raw = raw, dc_inline = is_inline, dc_component = component,
              dc_is_skip = False, dc_value = Dv_range r,
              dc_reason = (if tpl st 2 = [] then None else Some (Some (tpl st 2)))\<rparr>)))"

definition declaration_init ::
  "semver_lib \<Rightarrow> 'c npm_lib \<Rightarrow> yaml \<Rightarrow> string \<Rightarrow> bool \<Rightarrow> 'c parsed_declaration parser" where
  "declaration_init L N raw_declaration component is_inline =
     (if \<not> truthy raw_declaration then pfail Value_Error
      else case raw_declaration of
        Y_str s \<Rightarrow> parse_declaration L N (str_strip s) component is_inline
      | _ \<Rightarrow> pfail Assertion_Error)"

definition declaration_str :: "('c semver_range \<Rightarrow> string) \<Rightarrow> 'c parsed_declaration \<Rightarrow> string res" where
  "declaration_str range_str d =
     (let v = (case dc_value d of Dv_range r \<Rightarrow> range_str r | Dv_test t \<Rightarrow> td_str t) in
      case dc_reason d of
        None \<Rightarrow> Inl Attribute_Error
      | Some (Some r) \<Rightarrow> if r = [] then Inr v else Inr (v @ '' ('' @ r @ '')'')
      | Some None \<Rightarrow> Inr v)"

subsection \<open>Round trips and errors of the skip declarations\<close>

lemma td_of_str_td_str [simp]: "td_of_str (td_str d) = Inr d"
  by (cases d) (simp_all add: td_of_str_def test_declarations_def)

lemma test_declarations_all [simp]: "set test_declarations = UNIV"
  using test_declaration.exhaust by (auto simp: test_declarations_def)

lemma td_str_word: "td_str d \<noteq> [] \<and> (\<forall>c \<in> set (td_str d). is_word c)"
  by (cases d) (simp_all add: is_word_def is_lower_def)

lemma td_str_not_space: "\<not> is_space (hd (td_str d))"
  by (cases d) (simp_all add: is_space_def)

lemma skip_init_td_str [simp]: "skip_init (td_str d) r = Inr \<lparr>sd_value = d, sd_details = r\<rparr>"
  by (simp add: skip_init_def)

lemma anchor_free_skip [simp]: "anchor_free skip_declaration_re"
  by (simp add: skip_declaration_re_def reason_re_def)

lemma strip_bracketed:
  assumes "s \<noteq> []" and "\<not> is_space (hd s)" and "\<not> is_space (last s)"
  shows "str_strip s = s"
proof -
  from assms have "dropWhile is_space s = s" by (cases s) auto
  with assms show ?thesis
    by (simp add: str_strip_def strip_by_def lstrip_by_def rstrip_by_no)
qed

lemma strip_declaration: "str_strip (td_str d @ u @ '')'') = td_str d @ u @ '')''"
  using td_str_word [of d] td_str_not_space [of d]
  by (intro strip_bracketed) (auto simp: is_space_def)

lemma skip_re_lang:
  assumes "sp = [] \<or> sp = '' ''" and "\<forall>c \<in> set t. any_char c"
  shows "td_str d @ sp @ ''('' @ t @ '')'' \<in> lang skip_declaration_re"
proof -
  have "td_str d \<in> lang (Grp 1 (Choice (map (\<lambda>d. Lit (td_str d)) test_declarations)))"
    by (auto simp: image_iff)
  moreover have "sp \<in> lang (Opt (Chr (\<lambda>c. c = CHR '' '')))"
    using assms(1) by auto
  moreover have "''('' @ t @ '')'' \<in> lang (Opt (Cat (Chr (\<lambda>c. c = CHR ''(''))
        (Cat (Grp 3 (Star (Chr any_char))) (Lit '')''))))"
    using assms(2) by (auto simp: in_lang_Cat lang_Star_Chr simp del: lang.simps(5))
  ultimately show ?thesis
    unfolding skip_declaration_re_def reason_re_def in_lang_Cat by blast
qed

text \<open>The reason between the first bracket and the last one, found by backtracking one step.\<close>

lemma star_then_close:
  assumes "\<forall>c \<in> set t. any_char c"
  shows "firsts (Cat (Grp n (Star (Chr any_char))) (Lit '')'')) (i, t @ '')'', g)
    (i + length t + 1, [], (n, t) # g)"
proof -
  have all: "\<forall>c \<in> set (t @ '')''). any_char c" using assms by (auto simp: any_char_def nl_def)
  let ?pick = "\<lambda>k. (i + k, drop k (t @ '')''), (n, take k (t @ '')'')) # g)"
  have "ms (Star (Chr any_char)) (i, t @ '')'', g) =
      map (\<lambda>k. (i + k, drop k (t @ '')''), g)) (rev [0..<Suc (Suc (length t))])"
    using star_ms_all [OF all, of "[]" "length (t @ '')'')" i g] by (simp del: upt_Suc)
  then have "ms (Grp n (Star (Chr any_char))) (i, t @ '')'', g) =
      map ?pick (rev [0..<Suc (Suc (length t))])"
    by (rule ms_Grp_runs) auto
  also have "\<dots> = [?pick (Suc (length t))] @ ?pick (length t) # map ?pick (rev [0..<length t])"
    by simp
  finally show ?thesis
    by (rule firsts_Cat_skip) (auto simp: firsts_def)
qed

lemma parse_skip_spaced:
  assumes "\<forall>c \<in> set t. any_char c"
  shows "parse_skip_declaration (td_str d @ '' ('' @ t @ '')'') = Inr (d, Some t)"
proof -
  let ?w = "td_str d" and ?r = "'' ('' @ t @ '')''"
  define n where "n = length ?w"
  have "firsts (Plus (Chr is_word)) (0, ?w @ ?r, []) (0 + length ?w, ?r, [])"
    using td_str_word [of d] by (intro firsts_Plus_run) (auto simp: is_word_def is_digit_def is_lower_def is_upper_def)
  then have word: "firsts (Grp 1 (Plus (Chr is_word))) (0, ?w @ ?r, []) (n, ?r, [(1, ?w)])"
    unfolding n_def by (auto intro: firsts_Grp)
  have "firsts (Lit '' ('') (n, '' ('' @ t @ '')'', [(1, ?w)])
      (n + length '' (''  , t @ '')'', [(1, ?w)])"
    by (rule firsts_Lit)
  from firsts_Cat [OF this star_then_close [OF assms]]
  have "firsts (Cat (Lit '' ('') (Cat (Grp 3 (Star (Chr any_char))) (Lit '')'')))
      (n, ?r @ [], [(1, ?w)]) (n + 2 + length t + 1, [], [(3, t), (1, ?w)])"
    by simp
  from firsts_Grp [OF this, of 2]
  have "firsts (Opt (Grp 2 (Cat (Lit '' ('') (Cat (Grp 3 (Star (Chr any_char))) (Lit '')'')))))
      (n, ?r, [(1, ?w)]) (n + 2 + length t + 1, [], [(2, ?r), (3, t), (1, ?w)])"
    by (intro firsts_Opt_some) simp
  from firsts_Cat [OF word firsts_Cat [OF this, of Eos]]
  have "firsts parse_skip_re (0, ?w @ ?r, [])
      (n + 2 + length t + 1, [], [(2, ?r), (3, t), (1, ?w)])"
    unfolding parse_skip_re_def by (intro firsts_Cat [of Bos]) (auto simp: firsts_def)
  then have "re_match parse_skip_re (?w @ ?r) =
      Some (n + 2 + length t + 1, [], [(2, ?r), (3, t), (1, ?w)])"
    by (rule firsts_match)
  moreover have "list_ex (\<lambda>d'. startswith (?w @ ?r) (td_str d')) test_declarations"
    unfolding list_ex_iff by (rule bexI [of _ d]) (auto simp del: append_Cons)
  ultimately show ?thesis
    by (simp add: parse_skip_declaration_def re_group_def del: append_Cons)
qed

text \<open>Without the blank the second pattern finds nothing: the assertion fails.\<close>

lemma parse_skip_unspaced:
  "parse_skip_declaration (td_str d @ ''('' @ t) = Inl Assertion_Error"
proof -
  let ?w = "td_str d" and ?r = "''('' @ t"
  have "ms (Plus (Chr is_word)) (0, ?w @ ?r, []) =
      map (\<lambda>k. (0 + k, drop k (?w @ ?r), [])) (rev [1..<Suc (length ?w)])"
    using Plus_ms_all [of ?w is_word ?r 0 "[]"] td_str_word [of d]
    by (auto simp: is_word_def is_digit_def is_lower_def is_upper_def)
  then have all: "ms (Grp 1 (Plus (Chr is_word))) (0, ?w @ ?r, []) =
      map (\<lambda>k. (0 + k, drop k (?w @ ?r), [(1, take k (?w @ ?r))])) (rev [1..<Suc (length ?w)])"
    by (rule ms_Grp_runs) auto
  obtain B where B: "parse_skip_re = Cat Bos (Cat (Grp 1 (Plus (Chr is_word))) B)"
    and B': "\<exists>z. B = Cat (Opt (Grp 2 (Cat (Lit '' ('') z))) Eos"
    unfolding parse_skip_re_def by blast
  have dead: "ms B (i, drop k (?w @ ?r), g) = []" if "k \<le> length ?w" for i k g
  proof -
    have eq: "drop k (?w @ ?r) = drop k ?w @ ?r" using that by simp
    have "drop k ?w @ ?r = c # u \<Longrightarrow> c \<noteq> CHR '' '' \<and> c \<noteq> nl" for c u
      using td_str_word [of d] set_drop_subset [of k ?w]
      by (cases "drop k ?w") (auto simp: is_word_def is_digit_def is_lower_def is_upper_def nl_def)
    with B' show ?thesis
      unfolding eq by (cases "drop k ?w @ ?r") (auto simp: Opt_def)
  qed
  have "ms (Cat (Grp 1 (Plus (Chr is_word))) B) (0, ?w @ ?r, []) = []"
    unfolding ms.simps(3) [of "Grp 1 (Plus (Chr is_word))"] all map_map concat_eq_Nil_conv
    using dead by (auto simp del: drop_append append_Cons)
  then have "ms parse_skip_re (0, ?w @ ?r, []) = []" by (simp add: B)
  then have "re_match parse_skip_re (?w @ ?r) = None" by (simp add: re_match_def)
  moreover have "list_ex (\<lambda>d'. startswith (?w @ ?r) (td_str d')) test_declarations"
    unfolding list_ex_iff by (rule bexI [of _ d]) (auto simp del: append_Cons)
  ultimately show ?thesis
    by (simp add: parse_skip_declaration_def del: append_Cons)
qed

text \<open>The reasons a bug or a flaky test accepts: tickets joined by a comma and a blank.\<close>

definition jira_ticket :: "string \<Rightarrow> bool" where
  "jira_ticket s \<longleftrightarrow> (\<exists>p n. s = p @ ''-'' @ n \<and> length p \<ge> 3 \<and> (\<forall>c \<in> set p. is_upper c) \<and>
     n \<noteq> [] \<and> (\<forall>c \<in> set n. is_digit c))"

lemma lang_Times_Chr: "lang (Times n (Chr p)) = {s. length s = n \<and> (\<forall>c \<in> set s. p c)}"
proof (induction n)
  case (Suc n)
  show ?case
  proof (intro set_eqI iffI)
    fix s
    assume "s \<in> {s. length s = Suc n \<and> (\<forall>c \<in> set s. p c)}"
    then obtain c u where "s = [c] @ u" "p c" "length u = n" "\<forall>c \<in> set u. p c"
      by (cases s) auto
    then show "s \<in> lang (Times (Suc n) (Chr p))"
      unfolding Times.simps in_lang_Cat Suc by (intro exI [of _ "[c]"] exI [of _ u]) auto
  qed (auto simp: in_lang_Cat Suc)
qed auto

lemma lang_jira_ticket: "s \<in> lang jira_ticket_re \<longleftrightarrow> jira_ticket s"
proof
  assume "s \<in> lang jira_ticket_re"
  then obtain a b n where "s = a @ b @ ''-'' @ n" "length a = 3" "\<forall>c \<in> set a. is_upper c"
    "\<forall>c \<in> set b. is_upper c" "n \<noteq> []" "\<forall>c \<in> set n. is_digit c"
    by (auto simp: jira_ticket_re_def in_lang_Cat lang_Times_Chr simp del: lang.simps(5) Times.simps)
  then show "jira_ticket s"
    unfolding jira_ticket_def by (intro exI [of _ "a @ b"] exI [of _ n]) auto
next
  assume "jira_ticket s"
  then obtain p n where s: "s = p @ ''-'' @ n" and p: "length p \<ge> 3" "\<forall>c \<in> set p. is_upper c"
    and n: "n \<noteq> []" "\<forall>c \<in> set n. is_digit c"
    by (auto simp: jira_ticket_def)
  have "take 3 p \<in> lang (Times 3 (Chr is_upper))"
    using p set_take_subset [of 3 p] by (auto simp: lang_Times_Chr)
  moreover have "drop 3 p \<in> lang (Star (Chr is_upper))"
    using p set_drop_subset [of 3 p] by (auto simp: lang_Star_Chr simp del: lang.simps(5))
  moreover have "''-'' @ n \<in> lang (Cat (Chr (\<lambda>c. c = CHR ''-'')) (Plus (Chr is_digit)))"
    using n by (auto simp: in_lang_Cat)
  moreover have "s = take 3 p @ drop 3 p @ ''-'' @ n" by (simp add: s)
  ultimately show "s \<in> lang jira_ticket_re"
    unfolding jira_ticket_re_def in_lang_Cat by blast
qed

lemma kstar_separated:
  assumes "sep \<noteq> []"
  shows "s \<in> kstar {sep @ t |t. P t} \<longleftrightarrow> (\<exists>ts. (\<forall>t \<in> set ts. P t) \<and> s = concat (map ((@) sep) ts))"
proof
  assume "s \<in> kstar {sep @ t |t. P t}"
  then show "\<exists>ts. (\<forall>t \<in> set ts. P t) \<and> s = concat (map ((@) sep) ts)"
  proof induction
    case (kstar_step u v)
    from kstar_step.IH obtain ts where "\<forall>t \<in> set ts. P t" and "v = concat (map ((@) sep) ts)"
      by blast
    moreover from kstar_step.hyps obtain t where "u = sep @ t" and "P t" by blast
    ultimately show ?case by (intro exI [of _ "t # ts"]) auto
  qed (auto intro: exI [of _ "[]"])
next
  assume "\<exists>ts. (\<forall>t \<in> set ts. P t) \<and> s = concat (map ((@) sep) ts)"
  then obtain ts where "\<forall>t \<in> set ts. P t" and s: "s = concat (map ((@) sep) ts)" by auto
  then show "s \<in> kstar {sep @ t |t. P t}"
    unfolding s
  proof (induction ts)
    case (Cons t ts)
    then have "(sep @ t) @ concat (map ((@) sep) ts) \<in> kstar {sep @ t |t. P t}"
      using assms by (intro kstar_step) auto
    then show ?case by simp
  qed (auto intro: kstar_Nil)
qed

lemma str_join_tail: "str_join sep (t # ts) = t @ concat (map ((@) sep) ts)"
  by (induction ts arbitrary: t) auto

text \<open>
  C26.  A printed skip declaration is parsed back: the string form of a
  \<open>SkipDeclaration\<close> whose details hold no line break gives its value and its details,
  surrounding white space aside, for every declaration whose reason is accepted.
\<close>

theorem skip_declaration_roundtrip:
  assumes "t \<noteq> []" and "\<forall>c \<in> set t. any_char c"
    and "validate_declaration_reason d (Some t) = Inr ()"
  shows "declaration_init L N (Y_str (skip_str \<lparr>sd_value = d, sd_details = Some t\<rparr>)) component inl k =
    Inr (\<lparr>dc_raw = skip_str \<lparr>sd_value = d, sd_details = Some t\<rparr>, dc_inline = inl,
      dc_component = component, dc_is_skip = True, dc_value = Dv_test d,
      dc_reason = Some (Some t)\<rparr>, k)"
proof -
  let ?s = "td_str d @ '' ('' @ t @ '')''"
  have str: "skip_str \<lparr>sd_value = d, sd_details = Some t\<rparr> = ?s"
    using assms(1) by (simp add: skip_str_def)
  have "?s \<in> lang skip_declaration_re"
    using skip_re_lang [of "'' ''" t d] assms(2) by simp
  then have skip: "re_fullmatch skip_declaration_re ?s \<noteq> None"
    by (simp only: fullmatch_lang [OF anchor_free_skip] simp_thms)
  have strip: "str_strip ?s = ?s"
    using strip_declaration [of d "'' ('' @ t"] by simp
  show ?thesis
    unfolding str declaration_init_def parse_declaration_def
    using skip assms(3) strip
    by (simp add: parse_skip_spaced [OF assms(2)] plift_def del: append_Cons)
qed

lemma skip_declaration_roundtrip_witness:
  "\<exists>r. declaration_init sample_lib sample_npm (Y_str ''irrelevant (no (such) API)'') ''golang'' False
     (\<lambda>_. {}) = Inr r \<and> dc_reason (fst r) = Some (Some ''no (such) API'')"
proof -
  let ?d = "\<lparr>sd_value = IRRELEVANT, sd_details = Some ''no (such) API''\<rparr>"
  have "skip_str ?d = ''irrelevant (no (such) API)''" by code_simp
  then show ?thesis
    using skip_declaration_roundtrip [of "''no (such) API''" IRRELEVANT sample_lib sample_npm
        "''golang''" False "\<lambda>_. {}"]
    by (simp add: validate_declaration_reason_def any_char_def nl_def)
qed

text \<open>A bug or a flaky test is accepted exactly with a reason that is a list of tickets
  (three capital letters or more, a dash, digits) joined by a comma and a blank; every
  other declaration takes any reason.
\<close>

theorem validate_reason_iff:
  "validate_declaration_reason d reason = Inr () \<longleftrightarrow>
     (d \<in> {BUG, FLAKY} \<longrightarrow>
       (\<exists>ts. ts \<noteq> [] \<and> (\<forall>t \<in> set ts. jira_ticket t) \<and> reason = Some (str_join '', '' ts)))"
proof -
  have "anchor_free jira_tickets_re"
    by (simp add: jira_tickets_re_def jira_ticket_re_def numeral_3_eq_3)
  from fullmatch_lang [OF this] have full:
    "re_fullmatch jira_tickets_re r = None \<longleftrightarrow> r \<notin> lang jira_tickets_re" for r by blast
  have "lang (Grp 2 (Cat (Lit '', '') jira_ticket_re)) = {'', '' @ t |t. jira_ticket t}"
    unfolding lang.simps(7) lang_Cat lang_Lit lang_jira_ticket by auto
  then have "r \<in> lang jira_tickets_re \<longleftrightarrow>
      (\<exists>t ts. jira_ticket t \<and> (\<forall>t \<in> set ts. jira_ticket t) \<and> r = t @ concat (map ((@) '', '') ts))" for r
    unfolding jira_tickets_re_def in_lang_Cat lang.simps(5)
    by (simp only: lang.simps(7) lang_jira_ticket kstar_separated [OF list.distinct(2)]) blast
  then have tickets: "r \<in> lang jira_tickets_re \<longleftrightarrow>
      (\<exists>ts. ts \<noteq> [] \<and> (\<forall>t \<in> set ts. jira_ticket t) \<and> r = str_join '', '' ts)" for r
    by (metis (no_types, lifting) list.set_intros list.distinct(1) neq_Nil_conv set_ConsD str_join_tail)
  show ?thesis
    by (cases d; cases reason) (simp_all add: validate_declaration_reason_def full tickets)
qed

lemma validate_reason_iff_witness:
  "jira_ticket ''APMAPI-12'' \<and> validate_declaration_reason BUG (Some ''APMAPI-12, XYZ-1'') = Inr ()"
proof -
  have t: "jira_ticket ''APMAPI-12''" "jira_ticket ''XYZ-1''"
    unfolding jira_ticket_def
    by (intro exI [of _ "''APMAPI''"] exI [of _ "''12''"], simp add: is_upper_def is_digit_def)
      (intro exI [of _ "''XYZ''"] exI [of _ "''1''"], simp add: is_upper_def is_digit_def)
  moreover have "''APMAPI-12, XYZ-1'' = str_join '', '' [''APMAPI-12'', ''XYZ-1'']" by simp
  ultimately show ?thesis
    unfolding validate_reason_iff
    by (intro conjI impI exI [of _ "[''APMAPI-12'', ''XYZ-1'']"]) simp_all
qed

text \<open>
  A reason written without the blank, as in \<open>bug(APMAPI-1)\<close>, passes the first
  pattern (the blank is optional there) and then fails the assertion of
  \<open>_parse_skip_declaration\<close>, whose pattern requires it: the declaration is not reported
  as a malformed one.
\<close>

theorem skip_without_blank_asserts:
  assumes "\<forall>c \<in> set t. any_char c"
  shows "declaration_init L N (Y_str (td_str d @ ''('' @ t @ '')'')) component inl k =
    Inl Assertion_Error"
proof -
  let ?s = "td_str d @ ''('' @ t @ '')''"
  have "?s \<in> lang skip_declaration_re"
    using skip_re_lang [of "[]" t d] assms by simp
  then have skip: "re_fullmatch skip_declaration_re ?s \<noteq> None"
    by (simp only: fullmatch_lang [OF anchor_free_skip] simp_thms)
  have strip: "str_strip ?s = ?s"
    using strip_declaration [of d "''('' @ t"] by simp
  show ?thesis
    unfolding declaration_init_def parse_declaration_def
    using skip strip parse_skip_unspaced [of d "t @ '')''"]
    by (simp add: plift_def del: append_Cons)
qed

lemma skip_without_blank_asserts_witness:
  "declaration_init sample_lib sample_npm (Y_str ''bug(APMAPI-1)'') ''golang'' False (\<lambda>_. {}) =
    Inl Assertion_Error"
  using skip_without_blank_asserts [of "''APMAPI-1''" sample_lib sample_npm BUG "''golang''" False "\<lambda>_. {}"]
  by (simp add: any_char_def nl_def)

text \<open>The first success of \<open>full_regex\<close> on a version followed by a reason in brackets.\<close>

lemma full_re_first:
  assumes "ver \<noteq> []" and "hd ver \<noteq> CHR ''v''"
    and "\<forall>c \<in> set ver. c \<noteq> CHR ''('' \<and> c \<noteq> CHR '')''" and "\<forall>c \<in> set why. any_char c"
  shows "firsts full_re (0, ver @ '' ('' @ why @ '')'', [])
    (length ver + length why + 3, [], [(3, why), (2, ver @ '' '')])"
proof -
  let ?p = "\<lambda>c. c \<noteq> CHR ''('' \<and> c \<noteq> CHR '')''"
  let ?v = "ver @ '' ''" and ?r = "''('' @ why @ '')''"
  let ?g = "[(2, ?v)]"
  have "ms (Grp 1 (Chr (\<lambda>c. c = CHR ''v''))) (0, ?v @ ?r, []) = []"
    using assms(1,2) by (cases ver) auto
  then have v: "firsts (Opt (Grp 1 (Chr (\<lambda>c. c = CHR ''v'')))) (0, ?v @ ?r, []) (0, ?v @ ?r, [])"
    by (rule firsts_Opt_none)
  have "firsts (Star (Chr ?p)) (0, ?v @ ?r, []) (0 + length ?v, ?r, [])"
    using assms(3) by (intro firsts_Star_run) auto
  then have g: "firsts (Grp 2 (Star (Chr ?p))) (0, ?v @ ?r, []) (0 + length ?v, ?r, ?g)"
    by (rule firsts_Grp)
  have blank: "firsts (Opt (Chr (\<lambda>c. c = CHR '' ''))) (0 + length ?v, ?r, ?g) (0 + length ?v, ?r, ?g)"
    by (rule firsts_Opt_none) simp
  have close: "firsts (Cat (Grp 3 (Star (Chr any_char))) (Lit '')''))
      (Suc (0 + length ?v), why @ '')'', ?g) (Suc (0 + length ?v) + length why + 1, [], (3, why) # ?g)"
    using star_then_close [OF assms(4), of 3 "Suc (0 + length ?v)" ?g]
    by simp
  have "firsts (Chr (\<lambda>c. c = CHR ''('')) (0 + length ?v, ?r, ?g) (Suc (0 + length ?v), why @ '')'', ?g)"
    by (simp add: firsts_Chr)
  from firsts_Opt_some [OF firsts_Cat [OF this close]]
  have "firsts reason_re (0 + length ?v, ?r, ?g) (Suc (0 + length ?v) + length why + 1, [], (3, why) # ?g)"
    unfolding reason_re_def by (rule firsts_Cat [OF blank])
  from firsts_Cat [OF v firsts_Cat [OF g this]]
  show ?thesis unfolding full_re_def by (simp add: add.commute numeral_3_eq_3)
qed

lemma skip_re_starts_lower: "s \<in> lang skip_declaration_re \<Longrightarrow> s \<noteq> [] \<and> is_lower (hd s)"
proof -
  assume "s \<in> lang skip_declaration_re"
  then obtain u v where "s = u @ v" and "u \<in> lang (Choice (map (\<lambda>d. Lit (td_str d)) test_declarations))"
    unfolding skip_declaration_re_def in_lang_Cat lang.simps(7) by blast
  then obtain d where "s = td_str d @ v" by auto
  then show ?thesis by (cases d) (simp_all add: is_lower_def)
qed

text \<open>
  The reason of a version declaration is lost: the last-but-one group of the second
  pattern is the version, not the text in the brackets, so the attribute \<open>reason\<close> of
  \<open><1.2.3 (some reason)\<close> is the version with its trailing blank, whatever the reason says.
\<close>

theorem version_reason_is_version:
  assumes "ver \<noteq> []" and "\<not> is_lower (hd ver)" and "\<not> is_space (hd ver)"
    and "\<forall>c \<in> set ver. c \<noteq> CHR ''('' \<and> c \<noteq> CHR '')''" and "\<forall>c \<in> set why. any_char c"
    and "semver_range_init N (ver @ '' '') = Inr r"
  shows "\<exists>d. declaration_init L N (Y_str (ver @ '' ('' @ why @ '')'')) component True k = Inr (d, k) \<and>
    dc_value d = Dv_range r \<and> dc_reason d = Some (Some (ver @ '' ''))"
proof -
  let ?s = "ver @ '' ('' @ why @ '')''"
  let ?st = "(length ver + length why + 3, [], [(3, why), (2, ver @ '' '')])"
  have "hd ver \<noteq> CHR ''v''" using assms(2) by (auto simp: is_lower_def)
  from full_re_first [OF assms(1) this assms(4,5)]
  have full: "re_fullmatch full_re ?s = Some ?st"
    by (auto simp: firsts_def re_fullmatch_def)
  have "hd ?s = hd ver" using assms(1) by simp
  with skip_re_starts_lower [of ?s] assms(2) have "?s \<notin> lang skip_declaration_re" by metis
  then have skip: "re_fullmatch skip_declaration_re ?s = None"
    using fullmatch_lang [OF anchor_free_skip] by blast
  have strip: "str_strip ?s = ?s"
    using assms(1,3) by (intro strip_bracketed) (auto simp: is_space_def)
  have "parse_declaration L N ?s component True k =
      Inr (\<lparr>dc_raw = ?s, dc_inline = True, dc_component = component, dc_is_skip = False,
        dc_value = Dv_range r, dc_reason = Some (Some (ver @ '' ''))\<rparr>, k)"
    unfolding parse_declaration_def skip full
    by (simp add: sanitize_version_def re_group_def tpl_def pbind_def preturn_def plift_def assms(6)
        del: append_Cons)
  then show ?thesis
    unfolding declaration_init_def using assms(1) strip by simp
qed

lemma version_reason_is_version_witness:
  "\<exists>d. declaration_init sample_lib sample_npm (Y_str ''<2 (some reason)'') ''golang'' True (\<lambda>_. {}) =
     Inr (d, \<lambda>_. {}) \<and> dc_reason d = Some (Some ''<2 '')"
proof -
  have "is_ok (semver_range_init sample_npm ''<2 '')" by code_simp
  then obtain r where "semver_range_init sample_npm (''<2'' @ '' '') = Inr r"
    by (auto simp: is_ok_def split: sum.splits)
  from version_reason_is_version [OF _ _ _ _ _ this, of "''some reason''" sample_lib "''golang''" "\<lambda>_. {}"]
  show ?thesis by (auto simp: is_lower_def is_space_def any_char_def nl_def)
qed

end
