(* ===== verification/Manifest_Rule.thy ===== *)
theory Manifest_Rule
  imports Declaration
begin

section \<open>Rules of the manifests (\<open>rule.py\<close>, \<open>core.py\<close> and the types of \<open>types.py\<close>)\<close>

text \<open>
  A loaded manifest maps node ids (rules) to conditions, the record \<open>condition\<close> of the
  code's \<open>TypedDict\<close>.  \<open>get_rules\<close> keeps the declarations of the conditions that match
  the tested components, with a tracker of the indices they come from, and
  \<open>get_declarations\<close> collects the rules that apply to a test.  The components are given
  with their versions; \<open>None\<close> stands for a value that is not a \<open>Version\<close>.
\<close>

record 'c condition =
  cd_component :: string
  cd_version :: "'c semver_range option"
  cd_excluded_version :: "'c semver_range option"
  cd_weblog :: "string list option"
  cd_excluded_weblog :: "string list option"
  cd_declaration :: skip_declaration

type_synonym 'c manifest_data = "(string, 'c condition list) dict"
type_synonym components = "(string, version option) dict"
type_synonym tracker = "(string, (nat \<times> int) list) dict"

subsection \<open>Conditions\<close>

definition match_condition ::
  "'c npm_lib \<Rightarrow> 'c condition \<Rightarrow> components \<Rightarrow> string option \<Rightarrow> bool res" where
  "match_condition N c components weblog =
     (case dget components (cd_component c) of
        None \<Rightarrow> Inr False
      | Some None \<Rightarrow> Inl Assertion_Error
      | Some (Some tested) \<Rightarrow>
          Inr ((case cd_version c of None \<Rightarrow> True | Some r \<Rightarrow> in_range N tested r) \<and>
               (case cd_excluded_version c of None \<Rightarrow> True | Some r \<Rightarrow> \<not> in_range N tested r) \<and>
               (case (cd_weblog c, weblog) of
                  (Some (x # xs), Some (w # ws)) \<Rightarrow> (w # ws) \<in> set (x # xs)
                | _ \<Rightarrow> True) \<and>
               (case (cd_excluded_weblog c, weblog) of
                  (Some (x # xs), Some (w # ws)) \<Rightarrow> (w # ws) \<notin> set (x # xs)
                | _ \<Rightarrow> True)))"

definition path_elements :: "string \<Rightarrow> string list" where
  "path_elements s = str_split ''/'' (str_replace ''::'' ''/'' s)"

definition match_rule :: "string \<Rightarrow> string \<Rightarrow> bool" where
  "match_rule rule nodeid =
     (let rule_elements = path_elements (strip_by (\<lambda>c. c = CHR ''/'') rule);
          nodeid_elements = path_elements (hd (str_split ''['' nodeid))
      in if length rule_elements > length nodeid_elements then False
         else take (length rule_elements) nodeid_elements = rule_elements)"

text \<open>The inner loop of \<open>get_rules\<close>, over the conditions of one rule.\<close>

fun rule_conditions ::
  "'c npm_lib \<Rightarrow> components \<Rightarrow> string option \<Rightarrow> string \<Rightarrow> 'c condition list \<Rightarrow> nat \<Rightarrow> int \<Rightarrow>
     (string, skip_declaration list) dict \<times> tracker \<Rightarrow>
     ((string, skip_declaration list) dict \<times> tracker) res" where
  "rule_conditions N components weblog rule [] condition_index in_component_index st = Inr st"
| "rule_conditions N components weblog rule (c # cs) condition_index in_component_index (rules, tr) =
     (let i = (if dhas components (cd_component c) then in_component_index + 1
               else in_component_index) in
      rbind (match_condition N c components weblog) (\<lambda>matched.
        rule_conditions N components weblog rule cs (condition_index + 1) i
          (if matched
           then (dextend rule [cd_declaration c] rules, dextend rule [(condition_index, i)] tr)
           else (rules, tr))))"

definition get_rules ::
  "'c npm_lib \<Rightarrow> 'c manifest_data \<Rightarrow> components \<Rightarrow> string option \<Rightarrow>
     ((string, skip_declaration list) dict \<times> tracker) res" where
  "get_rules N manifest components weblog =
     rfold (\<lambda>(rule, conditions) st. rule_conditions N components weblog rule conditions 0 (-1) st)
       manifest ([], [])"

subsection \<open>\<open>Manifest\<close>\<close>

record 'c manifest =
  mf_data :: "'c manifest_data"
  mf_rules :: "(string, skip_declaration list) dict option"
  mf_tracker :: tracker
  mf_components :: "components option"

definition update_rules ::
  "'c npm_lib \<Rightarrow> 'c manifest \<Rightarrow> components \<Rightarrow> string option \<Rightarrow> 'c manifest res" where
  "update_rules N m components weblog =
     rbind (get_rules N (mf_data m) components weblog) (\<lambda>(rules, tr).
       Inr (m\<lparr>mf_rules := Some rules, mf_tracker := tr\<rparr>))"

text \<open>The constructor, given the data that \<open>load\<close> returned.\<close>

definition manifest_init ::
  "'c npm_lib \<Rightarrow> 'c manifest_data \<Rightarrow> components option \<Rightarrow> string option \<Rightarrow> 'c manifest res" where
  "manifest_init N data components weblog =
     (let m = \<lparr>mf_data = data, mf_rules = None, mf_tracker = [], mf_components = None\<rparr> in
      case components of
        None \<Rightarrow> Inr m
      | Some cs \<Rightarrow> update_rules N (m\<lparr>mf_components := Some cs\<rparr>) cs weblog)"

type_synonym declaration_sources = "(string \<times> (nat \<times> int) list) list"

definition get_declarations ::
  "'c manifest \<Rightarrow> string \<Rightarrow> (skip_declaration list \<times> declaration_sources) res" where
  "get_declarations m nodeid =
     (case mf_rules m of
        None \<Rightarrow> Inl Assertion_Error
      | Some rules \<Rightarrow>
          rfold (\<lambda>(rule, declarations) (ret, sources).
              if \<not> match_rule rule nodeid then Inr (ret, sources)
              else rbind (dgetitem (mf_tracker m) rule) (\<lambda>tr.
                Inr (ret @ declarations, sources @ [(rule, tr)])))
            rules ([], []))"

text \<open>\<open>_RANGE_RE\<close> and the check of the declared boundaries.\<close>

definition range_re :: re where
  "range_re = Cat
     (Choice [Cat (Lit ''>'') (Opt (Lit ''='')), Cat (Lit ''<'') (Opt (Lit ''='')), Lit ''^''])
     (Grp 1 (Seq [Plus (Chr is_digit), Lit ''.'', Plus (Chr is_digit),
        Opt (Cat (Lit ''.'') (Plus (Chr is_digit))),
        Star (Chr (\<lambda>c. c = CHR ''.'' \<or> is_word c \<or> c = CHR ''+'' \<or> c = CHR ''-''))]))"

definition boundaries :: "string \<Rightarrow> string list" where
  "boundaries expr = map (\<lambda>st. tpl st 1) (re_finditer range_re expr)"

definition ahead_of ::
  "semver_lib \<Rightarrow> string \<Rightarrow> string \<Rightarrow> version option \<Rightarrow> 'c semver_range \<Rightarrow> string list res" where
  "ahead_of L nodeid component current r =
     rbind (rmap (\<lambda>b. case version_of_str L b of
          Inl _ \<Rightarrow> Inr []
        | Inr declared \<Rightarrow>
            rbind (version_gt L declared (case current of None \<Rightarrow> Op_other | Some v \<Rightarrow> Op_version v))
              (\<lambda>above. case current of
                Some v \<Rightarrow>
                  if above then
                    Inr [nodeid @ '' ['' @ component @ '']: declared version '' @
                      lib_str L declared @ '' exceeds current version '' @ lib_str L v]
                  else Inr []
              | None \<Rightarrow> Inr []))
       (boundaries (expression r))) (\<lambda>ess. Inr (concat ess))"

definition assert_versions_not_ahead_of_current ::
  "semver_lib \<Rightarrow> 'c manifest \<Rightarrow> string list res" where
  "assert_versions_not_ahead_of_current L m =
     rbind (rmap (\<lambda>(nodeid, conditions).
         rbind (rmap (\<lambda>c.
             case mf_components m of
               None \<Rightarrow> Inl Attribute_Error
             | Some cs \<Rightarrow>
               (case dget cs (cd_component c) of
                  None \<Rightarrow> Inr []
                | Some current \<Rightarrow>
                    rbind (rmap (\<lambda>r. case r of
                        None \<Rightarrow> Inr []
                      | Some sr \<Rightarrow> ahead_of L nodeid (cd_component c) current sr)
                      [cd_version c, cd_excluded_version c]) (\<lambda>ess. Inr (concat ess))))
           conditions) (\<lambda>ess. Inr (concat ess)))
       (mf_data m)) (\<lambda>ess. Inr (concat ess))"

subsection \<open>Paths\<close>

text \<open>A path spelled with \<open>/\<close> or \<open>::\<close> (where the flag is set) between its segments.\<close>

fun spell :: "string list \<Rightarrow> bool list \<Rightarrow> string" where
  "spell [] bs = []"
| "spell [x] bs = x"
| "spell (x # y # xs) [] = x @ ''/'' @ spell (y # xs) []"
| "spell (x # y # xs) (b # bs) = x @ (if b then ''::'' else ''/'') @ spell (y # xs) bs"

definition segment :: "string \<Rightarrow> bool" where
  "segment x \<longleftrightarrow> x \<noteq> [] \<and> CHR ''/'' \<notin> set x \<and> CHR '':'' \<notin> set x \<and> CHR ''['' \<notin> set x"

lemma split_go_hd: "hd (split_go sep (c # acc) s) = rev acc @ [c] @ hd (split_go sep [] s)"
  and split_go_tl: "tl (split_go sep (c # acc) s) = tl (split_go sep [] s)"
proof -
  have "split_go sep (a @ b) s = (rev b @ hd (split_go sep a s)) # tl (split_go sep a s)" for a b
  proof (induction sep a s arbitrary: b rule: split_go.induct)
    case (2 sep acc c cs)
    show ?case
    proof (cases "prefix sep (c # cs)")
      case True
      then show ?thesis by simp
    next
      case False
      from 2(2) [OF this, of b] False show ?thesis by simp
    qed
  qed simp
  from this [of "[]" "c # acc"]
  show "hd (split_go sep (c # acc) s) = rev acc @ [c] @ hd (split_go sep [] s)"
    and "tl (split_go sep (c # acc) s) = tl (split_go sep [] s)"
    by auto
qed

lemma replace_other: "\<not> prefix old (c # s) \<Longrightarrow> str_replace old new (c # s) = c # str_replace old new s"
proof -
  assume no: "\<not> prefix old (c # s)"
  obtain h t where ht: "split_go old [] s = h # t" by (cases "split_go old [] s") auto
  have "split_go old [c] s = (c # h) # t"
    using split_go_hd [of old c "[]" s] split_go_tl [of old c "[]" s]
    by (cases "split_go old [c] s") (auto simp: ht)
  then show ?thesis
    using no ht by (cases t) (auto simp: str_replace_def str_split_def)
qed

lemma replace_free: "c \<notin> set x \<Longrightarrow> str_replace (c # old) new (x @ s) = x @ str_replace (c # old) new s"
  by (induction x) (auto simp: replace_other)

lemma replace_here:
  "str_replace (c # cs) new ((c # cs) @ s) = new @ str_replace (c # cs) new s"
  by (simp add: str_replace_def str_split_def str_join_Cons)

lemma replace_Nil [simp]: "str_replace old new [] = []"
  by (simp add: str_replace_def str_split_def)

lemma replace_spell:
  assumes "\<forall>x \<in> set xs. segment x"
  shows "str_replace ''::'' ''/'' (spell xs bs) = str_join ''/'' xs"
  using assms
proof (induction xs bs rule: spell.induct)
  case (2 x bs)
  then show ?case using replace_free [of "CHR '':''" x "'':''" "''/''" "[]"] by (simp add: segment_def)
next
  case (3 x y xs)
  have "str_replace ''::'' ''/'' (''/'' @ spell (y # xs) []) = ''/'' @ str_replace ''::'' ''/'' (spell (y # xs) [])"
    by (simp add: replace_other)
  with 3 show ?case by (simp add: replace_free segment_def)
next
  case (4 x y xs b bs)
  have "str_replace ''::'' ''/'' ((if b then ''::'' else ''/'') @ spell (y # xs) bs) =
      ''/'' @ str_replace ''::'' ''/'' (spell (y # xs) bs)"
    using replace_here [of "CHR '':''" "'':''" "''/''"] by (simp add: replace_other)
  with 4 show ?case by (simp add: replace_free segment_def)
qed simp

lemma path_elements_spell:
  "xs \<noteq> [] \<Longrightarrow> \<forall>x \<in> set xs. segment x \<Longrightarrow> path_elements (spell xs bs) = xs"
  by (auto simp: path_elements_def replace_spell segment_def intro!: str_split_join)

lemma spell_ends:
  assumes "xs \<noteq> []" and "\<forall>x \<in> set xs. segment x"
  shows "spell xs bs \<noteq> [] \<and> hd (spell xs bs) \<noteq> CHR ''/'' \<and> last (spell xs bs) \<noteq> CHR ''/'' \<and>
    CHR ''['' \<notin> set (spell xs bs)"
  using assms
  by (induction xs bs rule: spell.induct)
     (auto simp: segment_def hd_append dest: hd_in_set last_in_set)

lemma strip_slashes:
  assumes "s \<noteq> []" and "hd s \<noteq> CHR ''/''" and "last s \<noteq> CHR ''/''"
    and "\<forall>c \<in> set pre. c = CHR ''/''" and "\<forall>c \<in> set post. c = CHR ''/''"
  shows "strip_by (\<lambda>c. c = CHR ''/'') (pre @ s @ post) = s"
proof -
  have "dropWhile (\<lambda>c. c = CHR ''/'') (pre @ s @ post) = s @ post"
    using assms(1,2,4) by (cases s) (auto simp: dropWhile_append)
  moreover have "dropWhile (\<lambda>c. c = CHR ''/'') (rev post @ rev s) = rev s"
    using assms(1,3,5) by (cases s rule: rev_cases) (auto simp: dropWhile_append)
  ultimately show ?thesis
    by (simp add: strip_by_def lstrip_by_def rstrip_by_def)
qed

text \<open>
  C27.  A rule applies to a test exactly when its path is a prefix of the test's path,
  segment by segment: \<open>/\<close> and \<open>::\<close> are interchangeable on both sides, slashes around the
  rule and the parameters of the test (from the first square bracket on) do not count, and
  a rule never matches by a part of a segment.
\<close>

theorem match_rule_prefix:
  assumes "rs \<noteq> []" and "\<forall>x \<in> set rs. segment x" and "ns \<noteq> []" and "\<forall>x \<in> set ns. segment x"
    and "\<forall>c \<in> set pre. c = CHR ''/''" and "\<forall>c \<in> set post. c = CHR ''/''"
    and "params = [] \<or> hd params = CHR ''[''"
  shows "match_rule (pre @ spell rs bs @ post) (spell ns bs' @ params) \<longleftrightarrow> prefix rs ns"
proof -
  have rule: "path_elements (strip_by (\<lambda>c. c = CHR ''/'') (pre @ spell rs bs @ post)) = rs"
    using spell_ends [OF assms(1,2), of bs] assms(1,2,5,6)
    by (simp add: strip_slashes path_elements_spell)
  have free: "CHR ''['' \<notin> set (spell ns bs')" using spell_ends [OF assms(3,4)] by blast
  have "hd (str_split ''['' (spell ns bs' @ params)) = spell ns bs'"
  proof (cases params)
    case (Cons c cs)
    with assms(7) show ?thesis using str_split_Cons [OF free, of cs] by simp
  qed (simp add: str_split_free free)
  then have node: "path_elements (hd (str_split ''['' (spell ns bs' @ params))) = ns"
    using assms(3,4) by (simp add: path_elements_spell)
  show ?thesis
    by (auto simp: match_rule_def rule node Let_def prefix_def) (metis append_take_drop_id)+
qed

lemma match_rule_prefix_witness:
  "match_rule ''tests/appsec/'' ''tests/appsec/test_x.py::Class[a::b/c]'' \<and>
   \<not> match_rule ''tests/app'' ''tests/appsec/test_x.py::Class[a::b/c]''"
proof -
  let ?ns = "[''tests'', ''appsec'', ''test_x.py'', ''Class'']"
  have "match_rule ([] @ spell [''tests'', ''appsec''] [False] @ ''/'')
      (spell ?ns [False, False, True] @ ''[a::b/c]'') \<longleftrightarrow> prefix [''tests'', ''appsec''] ?ns"
    by (rule match_rule_prefix) (simp_all add: segment_def)
  moreover have "match_rule ([] @ spell [''tests'', ''app''] [False] @ [])
      (spell ?ns [False, False, True] @ ''[a::b/c]'') \<longleftrightarrow> prefix [''tests'', ''app''] ?ns"
    by (rule match_rule_prefix) (simp_all add: segment_def)
  ultimately show ?thesis by simp
qed

subsection \<open>The rules of a manifest\<close>

text \<open>
  The reference: the conditions of a rule that match, each with its index and its index
  among the conditions on the tested components.
\<close>

definition matches :: "'c npm_lib \<Rightarrow> components \<Rightarrow> string option \<Rightarrow> 'c condition \<Rightarrow> bool" where
  "matches N components weblog c \<longleftrightarrow> match_condition N c components weblog = Inr True"

definition tested_before :: "components \<Rightarrow> 'c condition list \<Rightarrow> nat \<Rightarrow> int" where
  "tested_before components cs i =
     int (length (filter (\<lambda>c. dhas components (cd_component c)) (take (Suc i) cs))) - 1"

definition hits :: "'c npm_lib \<Rightarrow> components \<Rightarrow> string option \<Rightarrow> 'c condition list \<Rightarrow> nat list" where
  "hits N components weblog cs = filter (\<lambda>i. matches N components weblog (cs ! i)) [0..<length cs]"

lemma hits_nth:
  "map (\<lambda>i. cs ! i) (hits N components weblog cs) = filter (matches N components weblog) cs"
proof -
  have "filter (matches N components weblog) (map ((!) cs) [0..<length cs]) =
      map ((!) cs) (filter (matches N components weblog \<circ> (!) cs) [0..<length cs])"
    by (rule filter_map)
  then show ?thesis by (simp add: map_nth hits_def o_def)
qed

definition kept ::
  "'c npm_lib \<Rightarrow> components \<Rightarrow> string option \<Rightarrow> 'c manifest_data \<Rightarrow> 'c manifest_data" where
  "kept N components weblog data = filter (\<lambda>(r, cs). hits N components weblog cs \<noteq> []) data"

definition all_versions :: "components \<Rightarrow> bool" where
  "all_versions components \<longleftrightarrow> None \<notin> snd ` set components"

lemma match_condition_total:
  "all_versions components \<Longrightarrow>
     match_condition N c components weblog = Inr (matches N components weblog c)"
  by (auto simp: match_condition_def matches_def all_versions_def image_iff
      split: option.splits dest!: map_of_SomeD)

lemma hits_Cons:
  "hits N components weblog (c # cs) =
     (if matches N components weblog c then [0] else []) @ map Suc (hits N components weblog cs)"
proof -
  have "[0..<length (c # cs)] = 0 # map Suc [0..<length cs]"
    by (simp add: map_Suc_upt upt_conv_Cons del: upt_Suc)
  then show ?thesis by (simp add: hits_def filter_map o_def)
qed

lemma rule_conditions_spec:
  assumes "all_versions components"
  shows "rule_conditions N components weblog rule cs ci ii (rules, tr) =
    Inr (if hits N components weblog cs = [] then (rules, tr)
      else (dextend rule (map (\<lambda>i. cd_declaration (cs ! i)) (hits N components weblog cs)) rules,
            dextend rule (map (\<lambda>i. (ci + i, ii + 1 + tested_before components cs i))
              (hits N components weblog cs)) tr))"
proof (induction cs arbitrary: ci ii rules tr)
  case (Cons c cs)
  show ?case
    by (simp add: match_condition_total [OF assms] Cons.IH hits_Cons dextend_twice o_def Let_def
        tested_before_def add.assoc)
qed (simp add: hits_def)

lemma get_rules_fold:
  assumes "all_versions components" and "distinct (map fst data)"
    and "\<And>r. r \<in> fst ` set data \<Longrightarrow> r \<notin> fst ` set rules \<and> r \<notin> fst ` set tr"
  shows "rfold (\<lambda>(rule, conditions) st. rule_conditions N components weblog rule conditions 0 (-1) st)
      data (rules, tr) =
    Inr (rules @ map (\<lambda>(r, cs). (r, map (\<lambda>i. cd_declaration (cs ! i)) (hits N components weblog cs)))
            (filter (\<lambda>(r, cs). hits N components weblog cs \<noteq> []) data),
         tr @ map (\<lambda>(r, cs). (r, map (\<lambda>i. (i, tested_before components cs i)) (hits N components weblog cs)))
            (filter (\<lambda>(r, cs). hits N components weblog cs \<noteq> []) data))"
  using assms(2,3)
proof (induction data arbitrary: rules tr)
  case (Cons p data)
  obtain r cs where p: "p = (r, cs)" by force
  have new: "r \<notin> fst ` set rules" "r \<notin> fst ` set tr"
    using Cons.prems(2) [of r] by (auto simp: p)
  have fresh: "r \<notin> fst ` set data" "distinct (map fst data)"
    using Cons.prems(1) by (simp_all add: p)
  have IH: "rfold (\<lambda>(rule, conditions) st. rule_conditions N components weblog rule conditions 0 (-1) st)
      data (rules @ ys, tr @ zs) = Inr ((rules @ ys) @ u, (tr @ zs) @ v)"
    if "fst ` set ys \<subseteq> {r}" and "fst ` set zs \<subseteq> {r}"
      and "u = map (\<lambda>(r, cs). (r, map (\<lambda>i. cd_declaration (cs ! i)) (hits N components weblog cs)))
            (filter (\<lambda>(r, cs). hits N components weblog cs \<noteq> []) data)"
      and "v = map (\<lambda>(r, cs). (r, map (\<lambda>i. (i, tested_before components cs i)) (hits N components weblog cs)))
            (filter (\<lambda>(r, cs). hits N components weblog cs \<noteq> []) data)" for ys zs u v
    unfolding that(3,4) using that(1,2) fresh Cons.prems(2)
    by (intro Cons.IH) (auto simp: p image_iff, (metis fst_conv)+)
  show ?case
    using IH [OF _ _ refl refl, of "[]" "[]"] IH [OF _ _ refl refl]
    by (auto simp: p rule_conditions_spec [OF assms(1)] dextend_new new)
qed simp

text \<open>
  C1.  \<open>get_rules\<close> returns, for the rules with at least one matching condition and in the
  order of the manifest, the declarations of the matching conditions in order, and a
  tracker with the same keys: each declaration's index in the rule, and its index counted
  among the conditions on the tested components only.  It never raises when every component
  has a version.
\<close>

theorem get_rules_spec:
  assumes "all_versions components" and "dict_wf data"
  shows "get_rules N data components weblog =
    Inr (map (\<lambda>(r, cs). (r, map (\<lambda>i. cd_declaration (cs ! i)) (hits N components weblog cs)))
           (kept N components weblog data),
         map (\<lambda>(r, cs). (r, map (\<lambda>i. (i, tested_before components cs i)) (hits N components weblog cs)))
           (kept N components weblog data))"
  using get_rules_fold [OF assms(1), of data "[]" "[]" N weblog] assms(2)
  by (simp add: get_rules_def kept_def dict_wf_def)

definition sample_condition :: "string \<Rightarrow> string option \<Rightarrow> test_declaration \<Rightarrow> 'c condition" where
  "sample_condition component weblog d =
     \<lparr>cd_component = component, cd_version = None, cd_excluded_version = None,
      cd_weblog = map_option (\<lambda>w. [w]) weblog, cd_excluded_weblog = None,
      cd_declaration = \<lparr>sd_value = d, sd_details = None\<rparr>\<rparr>"

definition sample_data :: "range list list manifest_data" where
  "sample_data =
     [(''tests/a.py'', [sample_condition ''java'' None BUG, sample_condition ''ruby'' (Some ''rails'') FLAKY,
        sample_condition ''ruby'' None MISSING_FEATURE]),
      (''tests/b.py'', [sample_condition ''java'' None IRRELEVANT])]"

lemma get_rules_spec_witness:
  "get_rules sample_npm sample_data [(''ruby'', Some sample_version)] (Some ''sinatra'') =
     Inr ([(''tests/a.py'', [\<lparr>sd_value = MISSING_FEATURE, sd_details = None\<rparr>])],
          [(''tests/a.py'', [(2, 1)])])"
proof -
  have v: "all_versions [(''ruby'', Some sample_version)]" by (simp add: all_versions_def)
  have wf: "dict_wf sample_data" by (simp add: dict_wf_def sample_data_def)
  show ?thesis
    unfolding get_rules_spec [OF v wf]
    by code_simp
qed

text \<open>The declarations of a test are those of every matching condition under every rule
  that applies to it, in the order of the manifest, and the sources name the rule and the
  indices of exactly those conditions: each reported index leads back to the condition.
\<close>

theorem get_declarations_spec:
  fixes N :: "'c npm_lib"
  assumes "all_versions components" and "dict_wf data"
    and "manifest_init N data (Some components) weblog = Inr m"
  shows "\<exists>sources. get_declarations m nodeid = Inr
      (concat (map (\<lambda>(r, cs). map cd_declaration (filter (matches N components weblog) cs))
         (filter (\<lambda>(r, cs). match_rule r nodeid) data)), sources) \<and>
    (\<forall>r tr. (r, tr) \<in> set sources \<longleftrightarrow>
      (\<exists>cs. (r, cs) \<in> set data \<and> match_rule r nodeid \<and> hits N components weblog cs \<noteq> [] \<and>
        tr = map (\<lambda>i. (i, tested_before components cs i)) (hits N components weblog cs)))"
proof -
  let ?h = "hits N components weblog"
  let ?kept = "kept N components weblog data"
  define trk where "trk = map (\<lambda>(r, cs). (r, map (\<lambda>i. (i, tested_before components cs i)) (?h cs))) ?kept"
  define app where "app = filter (\<lambda>(r, cs :: 'c condition list). match_rule r nodeid)"
  from assms(3) have m: "mf_tracker m = trk"
    "mf_rules m = Some (map (\<lambda>(r, cs). (r, map (\<lambda>i. cd_declaration (cs ! i)) (?h cs))) ?kept)"
    by (auto simp: manifest_init_def update_rules_def get_rules_spec [OF assms(1,2)] kept_def trk_def Let_def)
  have "distinct (map fst ?kept)"
    using assms(2) unfolding kept_def dict_wf_def by (metis distinct_map_filter)
  then have tr: "dget trk r = Some (map (\<lambda>i. (i, tested_before components cs i)) (?h cs))"
    if "(r, cs) \<in> set ?kept" for r cs
    using that unfolding trk_def by (intro map_of_is_SomeI) (auto simp: o_def split_def intro!: image_eqI)
  have loop: "rfold (\<lambda>(rule, declarations) (ret, sources).
        if \<not> match_rule rule nodeid then Inr (ret, sources)
        else rbind (dgetitem trk rule) (\<lambda>tr. Inr (ret @ declarations, sources @ [(rule, tr)])))
      (map (\<lambda>(r, cs). (r, map (\<lambda>i. cd_declaration (cs ! i)) (?h cs))) ks) (ret, src) =
    Inr (ret @ concat (map (\<lambda>(r, cs). map (\<lambda>i. cd_declaration (cs ! i)) (?h cs)) (app ks)),
      src @ map (\<lambda>(r, cs). (r, map (\<lambda>i. (i, tested_before components cs i)) (?h cs))) (app ks))"
    if "set ks \<subseteq> set ?kept" for ks ret src
    using that
  proof (induction ks arbitrary: ret src)
    case (Cons k ks)
    obtain r cs where k: "k = (r, cs)" by force
    with Cons.prems have "dget trk r = Some (map (\<lambda>i. (i, tested_before components cs i)) (?h cs))"
      and "set ks \<subseteq> set ?kept"
      by (auto intro: tr)
    with Cons.IH show ?case by (simp add: k app_def dgetitem_def)
  qed (simp add: app_def)
  have nths: "map (\<lambda>i. cd_declaration (cs ! i)) (?h cs) =
      map cd_declaration (filter (matches N components weblog) cs)" for cs
    using arg_cong [OF hits_nth [of cs N components weblog], of "map cd_declaration"] by (simp add: o_def)
  have decls: "concat (map (\<lambda>(r, cs). map (\<lambda>i. cd_declaration (cs ! i)) (?h cs)) (app ?kept)) =
      concat (map (\<lambda>(r, cs). map cd_declaration (filter (matches N components weblog) cs)) (app data))"
  proof -
    have "filter (matches N components weblog) cs = []" if "?h cs = []" for cs
      using that by (auto simp: hits_def filter_empty_conv in_set_conv_nth)
    then show ?thesis
      unfolding nths kept_def app_def by (induction data) auto
  qed
  show ?thesis
    unfolding get_declarations_def m using loop [of ?kept "[]" "[]"] decls
    by (auto simp: app_def kept_def)
qed

lemma get_declarations_spec_witness:
  "\<exists>m sources. manifest_init sample_npm sample_data (Some [(''ruby'', Some sample_version)]) (Some ''sinatra'') = Inr m \<and>
     get_declarations m ''tests/a.py::Test_X::test_y[p]'' =
       Inr ([\<lparr>sd_value = MISSING_FEATURE, sd_details = None\<rparr>], sources)"
proof -
  let ?cs = "[(''ruby'', Some sample_version)]"
  have v: "all_versions ?cs" by (simp add: all_versions_def)
  have wf: "dict_wf sample_data" by (simp add: dict_wf_def sample_data_def)
  have "is_ok (manifest_init sample_npm sample_data (Some ?cs) (Some ''sinatra''))" by code_simp
  then obtain m where m: "manifest_init sample_npm sample_data (Some ?cs) (Some ''sinatra'') = Inr m"
    by (auto simp: is_ok_def split: sum.splits)
  have "concat (map (\<lambda>(r, cs). map cd_declaration (filter (matches sample_npm ?cs (Some ''sinatra'')) cs))
         (filter (\<lambda>(r, cs). match_rule r ''tests/a.py::Test_X::test_y[p]'') sample_data)) =
      [\<lparr>sd_value = MISSING_FEATURE, sd_details = None\<rparr>]"
    by code_simp
  with get_declarations_spec [OF v wf m, of "''tests/a.py::Test_X::test_y[p]''"] m
  show ?thesis by auto
qed

subsection \<open>Boundaries ahead of the tested version\<close>

lemma rmap_concat_ok:
  assumes "\<And>x. x \<in> set xs \<Longrightarrow> f x = Inr (g x)"
  shows "rbind (rmap f xs) (\<lambda>ess. Inr (concat ess)) = Inr (concat (map g xs))"
  using rmap_total [of xs f g] assms by simp

definition too_new :: "semver_lib \<Rightarrow> version \<Rightarrow> 'c semver_range \<Rightarrow> string \<Rightarrow> bool" where
  "too_new L v r b \<longleftrightarrow> b \<in> set (boundaries (expression r)) \<and>
     (\<exists>d. version_of_str L b = Inr d \<and> lib_gt L d v)"

lemma ahead_of_ok:
  "\<exists>es. ahead_of L nodeid component (Some v) r = Inr es \<and> (es = [] \<longleftrightarrow> \<not> (\<exists>b. too_new L v r b))"
proof -
  define g where "g = (\<lambda>b. case version_of_str L b of Inl _ \<Rightarrow> []
    | Inr d \<Rightarrow> if lib_gt L d v then [nodeid @ '' ['' @ component @ '']: declared version '' @ lib_str L d @
        '' exceeds current version '' @ lib_str L v] else [])"
  have "ahead_of L nodeid component (Some v) r = Inr (concat (map g (boundaries (expression r))))"
    unfolding ahead_of_def
    by (rule rmap_concat_ok) (auto simp: g_def version_gt_def build_operand_def split: sum.splits)
  moreover have "g b = [] \<longleftrightarrow> \<not> (\<exists>d. version_of_str L b = Inr d \<and> lib_gt L d v)" for b
    by (auto simp: g_def split: sum.splits)
  ultimately show ?thesis by (auto simp: too_new_def)
qed

text \<open>The check of the declared versions reports nothing exactly when no boundary of a
  range of a condition on a tested component is above the version under test; boundaries
  that are no version are passed over, and nothing is raised.
\<close>

theorem versions_not_ahead_iff:
  fixes m :: "'c manifest"
  assumes "mf_components m = Some cs" and "all_versions cs"
  shows "\<exists>errors. assert_versions_not_ahead_of_current L m = Inr errors \<and>
    (errors = [] \<longleftrightarrow>
      \<not> (\<exists>(nodeid, conditions) \<in> set (mf_data m). \<exists>c \<in> set conditions. \<exists>v r b.
          dget cs (cd_component c) = Some (Some v) \<and>
          Some r \<in> {cd_version c, cd_excluded_version c} \<and> too_new L v r b))"
proof -
  define h where "h = (\<lambda>nodeid (c :: 'c condition). case dget cs (cd_component c) of None \<Rightarrow> []
    | Some current \<Rightarrow> concat (map (\<lambda>r. case r of None \<Rightarrow> []
        | Some sr \<Rightarrow> projr (ahead_of L nodeid (cd_component c) current sr))
        [cd_version c, cd_excluded_version c]))"
  have cond: "(case dget cs (cd_component c) of None \<Rightarrow> Inr []
      | Some current \<Rightarrow> rbind (rmap (\<lambda>r. case r of None \<Rightarrow> Inr []
          | Some sr \<Rightarrow> ahead_of L nodeid (cd_component c) current sr)
          [cd_version c, cd_excluded_version c]) (\<lambda>ess. Inr (concat ess))) = Inr (h nodeid c)" for nodeid c
  proof (cases "dget cs (cd_component c)")
    case (Some current)
    with assms(2) obtain v where v: "current = Some v"
      by (cases current) (auto simp: all_versions_def image_iff dest!: map_of_SomeD)
    have ok: "ahead_of L nodeid (cd_component c) (Some v) r = Inr (projr (ahead_of L nodeid (cd_component c) (Some v) r))" for r
      using ahead_of_ok [of L nodeid "cd_component c" v r] by auto
    show ?thesis
      unfolding Some option.case h_def v
      by (rule rmap_concat_ok) (auto split: option.splits intro: ok)
  qed (simp add: h_def)
  have "h nodeid c = [] \<longleftrightarrow> \<not> (\<exists>v r b. dget cs (cd_component c) = Some (Some v) \<and>
      Some r \<in> {cd_version c, cd_excluded_version c} \<and> too_new L v r b)" for nodeid c
  proof (cases "dget cs (cd_component c)")
    case (Some current)
    with assms(2) obtain v where v: "current = Some v"
      by (cases current) (auto simp: all_versions_def image_iff dest!: map_of_SomeD)
    have "projr (ahead_of L nodeid (cd_component c) (Some v) r) = [] \<longleftrightarrow> \<not> (\<exists>b. too_new L v r b)" for r
      using ahead_of_ok [of L nodeid "cd_component c" v r] by auto
    then show ?thesis by (auto simp: h_def Some v split: option.splits)
  qed (simp add: h_def)
  moreover have "assert_versions_not_ahead_of_current L m =
      Inr (concat (map (\<lambda>(nodeid, conditions). concat (map (h nodeid) conditions)) (mf_data m)))"
    unfolding assert_versions_not_ahead_of_current_def assms(1) option.case cond
    by (rule rmap_concat_ok) (auto intro!: rmap_concat_ok)
  ultimately show ?thesis by fastforce
qed

lemma versions_not_ahead_iff_witness:
  "\<exists>errors. assert_versions_not_ahead_of_current (sample_lib\<lparr>lib_coerce := (\<lambda>s. Some \<lparr>major = 3, minor = 0,
      patch = 0, prerelease = [], build = []\<rparr>)\<rparr>)
     \<lparr>mf_data = [(''tests/a.py'', [(sample_condition ''ruby'' None BUG)\<lparr>cd_version := Some \<lparr>expression = ''>=3.0.0'',
        clause = ()\<rparr>\<rparr>])], mf_rules = None, mf_tracker = [], mf_components = Some [(''ruby'', Some sample_version)]\<rparr> =
     Inr errors \<and> errors \<noteq> []"
proof -
  let ?L = "sample_lib\<lparr>lib_coerce := (\<lambda>s. Some \<lparr>major = 3, minor = 0, patch = 0, prerelease = [], build = []\<rparr>)\<rparr>"
  let ?r = "\<lparr>expression = ''>=3.0.0'', clause = ()\<rparr>"
  let ?c = "(sample_condition ''ruby'' None BUG)\<lparr>cd_version := Some ?r\<rparr>"
  let ?m = "\<lparr>mf_data = [(''tests/a.py'', [?c])], mf_rules = None, mf_tracker = [],
    mf_components = Some [(''ruby'', Some sample_version)]\<rparr>"
  have b: "boundaries ''>=3.0.0'' = [''3.0.0'']" by code_simp
  have "too_new ?L sample_version ?r ''3.0.0''"
    by (simp add: too_new_def b version_of_str_def sample_lib_def sample_version_def)
  then have "\<exists>(nodeid, conditions) \<in> set (mf_data ?m). \<exists>c \<in> set conditions. \<exists>v r b.
      dget [(''ruby'', Some sample_version)] (cd_component c) = Some (Some v) \<and>
      Some r \<in> {cd_version c, cd_excluded_version c} \<and> too_new ?L v r b"
    by (auto simp: sample_condition_def)
  moreover have "all_versions [(''ruby'', Some sample_version)]" by (simp add: all_versions_def)
  ultimately show ?thesis
    using versions_not_ahead_iff [of ?m "[(''ruby'', Some sample_version)]" ?L] by simp
qed

end
