(* ===== verification/Manifest_Parser.thy ===== *)
theory Manifest_Parser
  imports Manifest_Rule
begin

section \<open>Loading the manifests (\<open>utils/manifest/_internal/parser.py\<close>)\<close>

text \<open>
  A manifest file maps node ids to a declaration or to a list of entries.  Each field of
  an entry is rewritten by its processor (a version string becomes a \<open>SemverRange\<close>, a
  declaration a \<open>SkipDeclaration\<close>, a weblog list a list of names), then the entry becomes
  a condition.  Entries and conditions are dictionaries of values of mixed types, the
  datatype \<open>fval\<close>; \<open>check_condition\<close> is the code's run-time type check, and
  \<open>as_condition\<close> reads a checked dictionary as the record \<open>condition\<close> of the rules.  The
  files come from a function that gives each file's parsed content, \<open>None\<close> for a missing
  file.  YAML aliases (one object shared by two entries) are not modelled.
\<close>

datatype 'c fval =
    F_yaml yaml
  | F_range "'c semver_range"
  | F_test test_declaration
  | F_skip skip_declaration

type_synonym 'c cond_dict = "(string, 'c fval) dict"
type_synonym 'c entry = "(yaml, 'c fval) dict"
type_synonym 'c raw_manifest = "(yaml, 'c cond_dict list) dict"

fun fval_of :: "'c decl_value \<Rightarrow> 'c fval" where
  "fval_of (Dv_range r) = F_range r"
| "fval_of (Dv_test d) = F_test d"

text \<open>A field as \<open>Declaration\<close> sees it: an object that is no YAML value is a true non-string.\<close>

fun raw_of :: "'c fval \<Rightarrow> yaml" where
  "raw_of (F_yaml y) = y"
| "raw_of (F_test d) = Y_str (td_str d)"
| "raw_of _ = Y_scalar True"

subsection \<open>Conditions\<close>

definition process_inline ::
  "semver_lib \<Rightarrow> 'c npm_lib \<Rightarrow> yaml \<Rightarrow> string \<Rightarrow> 'c cond_dict parser" where
  "process_inline L N raw_declaration component =
     pbind (declaration_init L N raw_declaration component True) (\<lambda>d.
       if dc_is_skip d then
         (case dc_value d of
            Dv_test t \<Rightarrow>
              (case dc_reason d of
                 None \<Rightarrow> pfail Attribute_Error
               | Some reason \<Rightarrow> pbind (plift (skip_init (td_str t) reason)) (\<lambda>s. preturn
                   [(''component'', F_yaml (Y_str component)), (''declaration'', F_skip s)]))
          | Dv_range _ \<Rightarrow> pfail Assertion_Error)
       else
         (case (dc_value d, raw_declaration) of
            (Dv_range r, Y_str raw) \<Rightarrow>
              pbind (plift (skip_init ''missing_feature''
                  (Some (''declared version for '' @ component @ '' is '' @ raw)))) (\<lambda>s. preturn
                [(''declaration'', F_skip s), (''excluded_component_version'', F_range r),
                 (''component'', F_yaml (Y_str component))])
          | _ \<Rightarrow> pfail Assertion_Error))"

fun is_str :: "yaml \<Rightarrow> bool" where
  "is_str (Y_str s) = True"
| "is_str _ = False"

fun is_str_list :: "'c fval \<Rightarrow> bool" where
  "is_str_list (F_yaml (Y_list xs)) = list_all is_str xs"
| "is_str_list _ = False"

fun is_range :: "'c fval \<Rightarrow> bool" where
  "is_range (F_range r) = True"
| "is_range _ = False"

fun is_skip_declaration :: "'c fval \<Rightarrow> bool" where
  "is_skip_declaration (F_skip s) = True"
| "is_skip_declaration _ = False"

fun is_str_value :: "'c fval \<Rightarrow> bool" where
  "is_str_value (F_yaml y) = is_str y"
| "is_str_value (F_test d) = True"
| "is_str_value _ = False"

text \<open>The table \<open>types\<close>: the test for the type a key's value must have.\<close>

definition condition_types :: "(string, 'c fval \<Rightarrow> bool) dict" where
  "condition_types =
     [(''declaration'', is_skip_declaration),
      (''component'', is_str_value),
      (''component_version'', is_range),
      (''excluded_component_version'', is_range),
      (''weblog'', is_str_list),
      (''excluded_weblog'', is_str_list)]"

definition check_field :: "string \<times> 'c fval \<Rightarrow> unit res" where
  "check_field = (\<lambda>(key, item).
     case dget condition_types key of
       None \<Rightarrow> Inl Assertion_Error
     | Some ok \<Rightarrow> rassert (ok item) Type_Error)"

definition check_condition :: "'c cond_dict \<Rightarrow> unit res" where
  "check_condition c = rbind (rmap check_field c) (\<lambda>_. Inr ())"

definition copy_field :: "'c entry \<Rightarrow> string \<Rightarrow> 'c cond_dict \<Rightarrow> 'c cond_dict" where
  "copy_field entry key condition =
     (case dget entry (Y_str key) of None \<Rightarrow> condition | Some v \<Rightarrow> dset key v condition)"

definition cast_to_condition :: "'c entry \<Rightarrow> string \<Rightarrow> 'c cond_dict res" where
  "cast_to_condition entry component =
     rbind (dgetitem entry (Y_str ''declaration'')) (\<lambda>d.
       let condition = copy_field entry ''excluded_weblog'' (copy_field entry ''weblog''
             (copy_field entry ''excluded_component_version'' (copy_field entry ''component_version''
               [(''component'', F_yaml (Y_str component)), (''declaration'', d)])))
       in rbind (check_condition condition) (\<lambda>_.
         if list_all (\<lambda>key. key \<in> Y_str ` {''component_version'', ''excluded_component_version'',
              ''weblog'', ''excluded_weblog'', ''declaration''}) (dkeys entry)
         then Inr condition else Inl Value_Error))"

definition parse_weblogs :: "string \<Rightarrow> string list" where
  "parse_weblogs weblogs = map str_strip (str_split '','' weblogs)"

subsection \<open>\<open>FieldProcessor\<close>\<close>

text \<open>
  What a processor gives back: the entry, which it may have changed, the new conditions and
  whether the entry itself is a condition.
\<close>

type_synonym 'c processed = "'c entry \<times> 'c cond_dict list \<times> bool"
type_synonym 'c field_processor = "string \<Rightarrow> 'c entry \<Rightarrow> string \<Rightarrow> 'c processed parser"

definition processor ::
  "(string \<Rightarrow> 'c fval \<Rightarrow> 'c entry \<Rightarrow> string \<Rightarrow> 'c processed parser) \<Rightarrow> 'c field_processor" where
  "processor transformation key entry component =
     (case dget entry (Y_str key) of
        None \<Rightarrow> preturn (entry, [], True)
      | Some v \<Rightarrow> transformation key v entry component)"

definition fp_component_version ::
  "semver_lib \<Rightarrow> 'c npm_lib \<Rightarrow> string \<Rightarrow> 'c fval \<Rightarrow> 'c entry \<Rightarrow> string \<Rightarrow> 'c processed parser" where
  "fp_component_version L N n v e component =
     pbind (declaration_init L N (raw_of v) component True) (\<lambda>d.
       preturn (dset (Y_str n) (fval_of (dc_value d)) e, [], True))"

definition str_items :: "yaml list \<Rightarrow> string list" where
  "str_items ys = concat (map (\<lambda>y. case y of Y_str s \<Rightarrow> [s] | _ \<Rightarrow> []) ys)"

definition fp_ensure_list ::
  "string \<Rightarrow> 'c fval \<Rightarrow> 'c entry \<Rightarrow> string \<Rightarrow> 'c processed parser" where
  "fp_ensure_list n v e component =
     (let items = (case raw_of v of Y_list ys \<Rightarrow> ys | y \<Rightarrow> [y]);
          res = (if n = ''weblog''
                 then map Y_str (concat (map parse_weblogs (str_items items))) else items)
      in preturn (dset (Y_str n) (F_yaml (Y_list res)) e, [], True))"

definition fp_declaration ::
  "semver_lib \<Rightarrow> 'c npm_lib \<Rightarrow> string \<Rightarrow> 'c fval \<Rightarrow> 'c entry \<Rightarrow> string \<Rightarrow> 'c processed parser" where
  "fp_declaration L N n v e component =
     pbind (declaration_init L N (raw_of v) component False) (\<lambda>d.
       case dc_value d of
         Dv_test t \<Rightarrow>
           (case dc_reason d of
              None \<Rightarrow> pfail Attribute_Error
            | Some reason \<Rightarrow> pbind (plift (skip_init (td_str t) reason)) (\<lambda>s.
                preturn (dset (Y_str n) (F_skip s) e, [], True)))
       | Dv_range _ \<Rightarrow> pfail Assertion_Error)"

definition named_weblogs :: "(yaml \<times> yaml) list \<Rightarrow> string list" where
  "named_weblogs m =
     concat (map parse_weblogs (filter (\<lambda>w. w \<noteq> ''*'') (str_items (map fst m))))"

definition weblog_condition ::
  "semver_lib \<Rightarrow> 'c npm_lib \<Rightarrow> string list \<Rightarrow> string \<Rightarrow> yaml \<times> yaml \<Rightarrow> 'c cond_dict parser" where
  "weblog_condition L N all_weblogs component = (\<lambda>(weblog, raw_declaration).
     pbind (process_inline L N raw_declaration component) (\<lambda>condition.
       case weblog of
         Y_str w \<Rightarrow>
           preturn (if w = ''*''
             then dset ''excluded_weblog'' (F_yaml (Y_list (map Y_str all_weblogs))) condition
             else dset ''weblog'' (F_yaml (Y_list (map Y_str (parse_weblogs w)))) condition)
       | _ \<Rightarrow> pfail Attribute_Error))"

definition fp_weblog_declaration ::
  "semver_lib \<Rightarrow> 'c npm_lib \<Rightarrow> string \<Rightarrow> 'c fval \<Rightarrow> 'c entry \<Rightarrow> string \<Rightarrow> 'c processed parser" where
  "fp_weblog_declaration L N n v e component =
     (case raw_of v of
        Y_map m \<Rightarrow>
          pbind (pmap (weblog_condition L N (named_weblogs m) component) m) (\<lambda>new_entries.
            preturn (e, new_entries, False))
      | Y_list _ \<Rightarrow> pfail Attribute_Error
      | Y_str _ \<Rightarrow> pfail Attribute_Error
      | _ \<Rightarrow> pfail Type_Error)"

definition field_processors :: "semver_lib \<Rightarrow> 'c npm_lib \<Rightarrow> (string \<times> 'c field_processor) list" where
  "field_processors L N =
     [(''component_version'', processor (fp_component_version L N)),
      (''excluded_component_version'', processor (fp_component_version L N)),
      (''weblog_declaration'', processor (fp_weblog_declaration L N)),
      (''declaration'', processor (fp_declaration L N)),
      (''weblog'', processor fp_ensure_list),
      (''excluded_weblog'', processor fp_ensure_list)]"

subsection \<open>Files\<close>

fun run_processors ::
  "(string \<times> 'c field_processor) list \<Rightarrow> string \<Rightarrow> 'c processed \<Rightarrow> 'c processed parser" where
  "run_processors [] component st = preturn st"
| "run_processors ((key, func) # ps) component (entry, conditions, keep_entry) =
     pbind (func key entry component) (\<lambda>(entry', new_conditions, is_condition).
       run_processors ps component (entry', conditions @ new_conditions, keep_entry \<and> is_condition))"

definition recast :: "'a res \<Rightarrow> 'a res" where
  "recast x = (case x of Inl Key_Error \<Rightarrow> Inl Value_Error | _ \<Rightarrow> x)"

definition process_entry ::
  "semver_lib \<Rightarrow> 'c npm_lib \<Rightarrow> string \<Rightarrow> yaml \<Rightarrow> 'c cond_dict list parser" where
  "process_entry L N component raw_entry =
     (case raw_entry of
        Y_map m \<Rightarrow>
          pbind (run_processors (field_processors L N) component
              (map (\<lambda>(k, y). (k, F_yaml y)) m, [], True)) (\<lambda>(entry, conditions, keep_entry).
            if keep_entry then
              pbind (plift (recast (cast_to_condition entry component))) (\<lambda>c. preturn (conditions @ [c]))
            else preturn conditions)
      | _ \<Rightarrow> pfail Type_Error)"

fun iterate :: "yaml \<Rightarrow> yaml list res" where
  "iterate (Y_list ys) = Inr ys"
| "iterate (Y_map m) = Inr (map fst m)"
| "iterate (Y_str s) = Inr (map (\<lambda>c. Y_str [c]) s)"
| "iterate _ = Inl Type_Error"

definition conditions_of ::
  "semver_lib \<Rightarrow> 'c npm_lib \<Rightarrow> string \<Rightarrow> yaml \<Rightarrow> 'c cond_dict list parser" where
  "conditions_of L N component raw_value =
     pbind (case raw_value of
          Y_str s \<Rightarrow> pbind (process_inline L N raw_value component) (\<lambda>c. preturn [c])
        | _ \<Rightarrow> pbind (plift (iterate raw_value)) (\<lambda>entries.
            pbind (pmap (process_entry L N component) entries) (\<lambda>css. preturn (concat css))))
       (\<lambda>condition_list.
         pbind (plift (rmap check_condition condition_list)) (\<lambda>_. preturn condition_list))"

text \<open>\<open>data["manifest"].items()\<close>.\<close>

fun manifest_items :: "yaml \<Rightarrow> (yaml \<times> yaml) list res" where
  "manifest_items (Y_map m) =
     rbind (of_option Key_Error (map_of m (Y_str ''manifest''))) (\<lambda>y.
       case y of Y_map items \<Rightarrow> Inr items | _ \<Rightarrow> Inl Attribute_Error)"
| "manifest_items _ = Inl Type_Error"

fun load_items ::
  "semver_lib \<Rightarrow> 'c npm_lib \<Rightarrow> string \<Rightarrow> (yaml \<times> yaml) list \<Rightarrow> 'c raw_manifest \<Rightarrow> 'c raw_manifest parser" where
  "load_items L N component [] ret = preturn ret"
| "load_items L N component ((nodeid, raw_value) # items) ret =
     pbind (conditions_of L N component raw_value) (\<lambda>condition_list.
       load_items L N component items (dset nodeid condition_list ret))"

definition load_file ::
  "semver_lib \<Rightarrow> 'c npm_lib \<Rightarrow> yaml option \<Rightarrow> string \<Rightarrow> 'c raw_manifest parser" where
  "load_file L N file component =
     (case file of
        None \<Rightarrow> preturn []
      | Some data \<Rightarrow> pbind (plift (manifest_items data)) (\<lambda>items.
          load_items L N component items []))"

definition manifest_components :: "string list" where
  "manifest_components =
     [''agent'', ''c'', ''cpp'', ''cpp_httpd'', ''cpp_kong'', ''cpp_nginx'', ''dotnet'', ''golang'',
      ''java'', ''java_lambda'', ''java_otel'', ''nodejs'', ''nodejs_lambda'', ''nodejs_otel'',
      ''php'', ''python'', ''python_otel'', ''ruby'', ''rust'', ''dd_apm_inject'',
      ''k8s_cluster_agent'', ''python_lambda'', ''ruby_lambda'', ''envoy'', ''haproxy'']"

fun load_components ::
  "semver_lib \<Rightarrow> 'c npm_lib \<Rightarrow> (string \<Rightarrow> yaml option) \<Rightarrow> string list \<Rightarrow> 'c raw_manifest \<Rightarrow>
     'c raw_manifest parser" where
  "load_components L N files [] result = preturn result"
| "load_components L N files (component # cs) result =
     pbind (load_file L N (files (component @ ''.yml'')) component) (\<lambda>data.
       load_components L N files cs
         (fold (\<lambda>(nodeid, value). dextend nodeid value) data result))"

definition load ::
  "semver_lib \<Rightarrow> 'c npm_lib \<Rightarrow> (string \<Rightarrow> yaml option) \<Rightarrow> 'c raw_manifest parser" where
  "load L N files = load_components L N files manifest_components []"

subsection \<open>Checked dictionaries read as records\<close>

fun range_of :: "'c fval option \<Rightarrow> 'c semver_range option" where
  "range_of (Some (F_range r)) = Some r"
| "range_of _ = None"

fun weblogs_of :: "'c fval option \<Rightarrow> string list option" where
  "weblogs_of (Some (F_yaml (Y_list ys))) = Some (str_items ys)"
| "weblogs_of _ = None"

definition as_condition :: "'c cond_dict \<Rightarrow> 'c condition option" where
  "as_condition c =
     (case (dget c ''component'', dget c ''declaration'') of
        (Some (F_yaml (Y_str component)), Some (F_skip s)) \<Rightarrow>
          if check_condition c = Inr ()
          then Some \<lparr>cd_component = component, cd_version = range_of (dget c ''component_version''),
            cd_excluded_version = range_of (dget c ''excluded_component_version''),
            cd_weblog = weblogs_of (dget c ''weblog''),
            cd_excluded_weblog = weblogs_of (dget c ''excluded_weblog''), cd_declaration = s\<rparr>
          else None
      | _ \<Rightarrow> None)"

text \<open>What every construction of a condition ensures, before the type check.\<close>

definition made_for :: "string \<Rightarrow> 'c cond_dict \<Rightarrow> bool" where
  "made_for component c \<longleftrightarrow>
     dget c ''component'' = Some (F_yaml (Y_str component)) \<and> dget c ''declaration'' \<noteq> None"

lemma check_condition_iff:
  "check_condition c = Inr () \<longleftrightarrow> (\<forall>p \<in> set c. check_field p = Inr ())"
proof -
  have "rmap check_field c = Inr ys \<longleftrightarrow> length ys = length c \<and> (\<forall>p \<in> set c. check_field p = Inr ())" for ys
    unfolding rmap_Inr_iff by (simp add: all_set_conv_all_nth) metis
  then show ?thesis
    unfolding check_condition_def rbind_Inr_iff by (metis length_replicate)
qed

lemma made_for_checked:
  assumes "made_for component c" and "check_condition c = Inr ()"
  shows "\<exists>cond. as_condition c = Some cond \<and> cd_component cond = component"
proof -
  from assms(1) obtain d where comp: "dget c ''component'' = Some (F_yaml (Y_str component))"
    and d: "dget c ''declaration'' = Some d" by (auto simp: made_for_def)
  from d have "(''declaration'', d) \<in> set c" by (rule map_of_SomeD)
  with assms(2) have "check_field (''declaration'', d) = Inr ()"
    by (simp add: check_condition_iff)
  then obtain s where "d = F_skip s"
    by (cases d) (auto simp: check_field_def condition_types_def)
  with comp d assms(2) show ?thesis by (simp add: as_condition_def)
qed

lemma process_inline_made:
  "process_inline L N raw component k = Inr (c, k') \<Longrightarrow> made_for component c"
  by (auto simp: process_inline_def made_for_def pbind_Inr_iff split: if_splits decl_value.splits
      option.splits yaml.splits)

lemma made_for_dset:
  "made_for component c \<Longrightarrow> key \<notin> {''component'', ''declaration''} \<Longrightarrow> made_for component (dset key v c)"
  by (auto simp: made_for_def)

lemma weblog_condition_made:
  "weblog_condition L N ws component p k = Inr (c, k') \<Longrightarrow> made_for component c"
proof -
  assume ok: "weblog_condition L N ws component p k = Inr (c, k')"
  obtain weblog raw where p: "p = (weblog, raw)" by force
  from ok show "made_for component c"
    by (cases weblog) (auto simp: p weblog_condition_def pbind_Inr_iff split: if_splits
        intro!: made_for_dset dest: process_inline_made)
qed

lemma cast_made:
  "cast_to_condition entry component = Inr c \<Longrightarrow> made_for component c"
  by (auto simp: cast_to_condition_def rbind_Inr_iff copy_field_def Let_def made_for_def
      split: if_splits option.splits)

definition makes :: "string \<Rightarrow> 'c field_processor \<Rightarrow> bool" where
  "makes component func \<longleftrightarrow>
     (\<forall>key entry k entry' new b k'. func key entry component k = Inr ((entry', new, b), k') \<longrightarrow>
        (\<forall>c \<in> set new. made_for component c))"

lemma makes_fields: "(key, func) \<in> set (field_processors L N) \<Longrightarrow> makes component func"
proof -
  assume "(key, func) \<in> set (field_processors L N)"
  moreover have "makes component (processor (fp_component_version L N))"
    "makes component (processor fp_ensure_list)"
    by (auto simp: makes_def processor_def fp_component_version_def
        fp_ensure_list_def pbind_Inr_iff Let_def split: option.splits)
  moreover have "new = []" if "fp_declaration L N n v e component k = Inr ((e', new, b), k')"
    for n v e k e' new b k'
    using that unfolding fp_declaration_def pbind_Inr_iff
    by (elim exE conjE) (simp split: decl_value.splits option.splits add: pbind_Inr_iff)
  then have "makes component (processor (fp_declaration L N))"
    by (fastforce simp: makes_def processor_def split: option.splits)
  moreover have "makes component (processor (fp_weblog_declaration L N))"
    by (auto simp: makes_def processor_def fp_weblog_declaration_def pbind_Inr_iff
        split: option.splits yaml.splits dest!: pmap_in_set dest: weblog_condition_made)
  ultimately show ?thesis by (auto simp: field_processors_def)
qed

lemma run_processors_made:
  assumes "run_processors ps component (entry, cs, keep) k = Inr ((entry', cs', keep'), k')"
    and "\<forall>(key, func) \<in> set ps. makes component func" and "\<forall>c \<in> set cs. made_for component c"
  shows "\<forall>c \<in> set cs'. made_for component c"
  using assms
proof (induction ps arbitrary: entry cs keep k)
  case (Cons p ps)
  obtain key func where p: "p = (key, func)" by force
  from Cons.prems(1) obtain e1 new b k1 where
    func: "func key entry component k = Inr ((e1, new, b), k1)"
    and rest: "run_processors ps component (e1, cs @ new, keep \<and> b) k1 = Inr ((entry', cs', keep'), k')"
    by (auto simp: p pbind_Inr_iff)
  from Cons.prems(2) func have "\<forall>c \<in> set new. made_for component c"
    unfolding p makes_def by simp blast
  with Cons.prems(2,3) Cons.IH [OF rest] show ?case by auto
qed simp

lemma process_entry_made:
  assumes "process_entry L N component y k = Inr (cs, k')"
  shows "\<forall>c \<in> set cs. made_for component c"
proof -
  from assms obtain m where y: "y = Y_map m"
    by (cases y) (auto simp: process_entry_def)
  from assms obtain e new keep k1 where
    run: "run_processors (field_processors L N) component (map (\<lambda>(k, y). (k, F_yaml y)) m, [], True) k =
      Inr ((e, new, keep), k1)"
    and cs: "cs = new \<or> (\<exists>c. cast_to_condition e component = Inr c \<and> cs = new @ [c])"
    by (auto simp: process_entry_def y pbind_Inr_iff recast_def split: if_splits sum.splits py_error.splits)
  have "\<forall>c \<in> set new. made_for component c"
    by (rule run_processors_made [OF run]) (auto intro: makes_fields)
  with cs show ?thesis by (auto dest: cast_made)
qed

definition typed_for :: "string \<Rightarrow> 'c cond_dict \<Rightarrow> bool" where
  "typed_for component c \<longleftrightarrow> (\<exists>cond. as_condition c = Some cond \<and> cd_component cond = component)"

lemma conditions_of_typed:
  assumes "conditions_of L N component raw k = Inr (cs, k')" and "c \<in> set cs"
  shows "typed_for component c"
proof -
  from assms(1) have "rmap check_condition cs \<noteq> Inl e" for e
    by (auto simp: conditions_of_def pbind_Inr_iff)
  then obtain us where us: "rmap check_condition cs = Inr us"
    by (cases "rmap check_condition cs") auto
  then have "check_condition c = Inr ()"
    using assms(2) by (auto simp: rmap_Inr_iff in_set_conv_nth)
  moreover have entries: "made_for component c"
    if pm: "pmap (process_entry L N component) es k = Inr (css, k1)" and c: "c \<in> set (concat css)"
    for es css k1
  proof -
    from c obtain cs1 where "cs1 \<in> set css" "c \<in> set cs1" by auto
    with pmap_in_set [OF pm] process_entry_made show ?thesis by blast
  qed
  have "made_for component c"
  proof (cases "is_str raw")
    case True
    with assms show ?thesis
      by (cases raw) (auto simp: conditions_of_def pbind_Inr_iff dest: process_inline_made)
  next
    case False
    with assms(1) obtain es css k1 where "pmap (process_entry L N component) es k = Inr (css, k1)"
      and "cs = concat css"
      by (cases raw) (auto simp: conditions_of_def pbind_Inr_iff)
    with entries assms(2) show ?thesis by blast
  qed
  ultimately show ?thesis unfolding typed_for_def by (rule made_for_checked [rotated])
qed

text \<open>Loading a file and all the files.\<close>

lemma load_items_typed:
  assumes "load_items L N component items ret k = Inr (m, k')"
    and "\<forall>(nodeid, cs) \<in> set ret. \<forall>c \<in> set cs. typed_for component c"
  shows "\<forall>(nodeid, cs) \<in> set m. \<forall>c \<in> set cs. typed_for component c"
  using assms
proof (induction items arbitrary: ret k)
  case (Cons item items)
  obtain nodeid raw where item: "item = (nodeid, raw)" by force
  from Cons.prems(1) obtain cs k1 where cs: "conditions_of L N component raw k = Inr (cs, k1)"
    and rest: "load_items L N component items (dset nodeid cs ret) k1 = Inr (m, k')"
    by (auto simp: item pbind_Inr_iff)
  have "set (dset nodeid cs ret) \<subseteq> insert (nodeid, cs) (set ret)"
    by (induction ret) auto
  with Cons.prems(2) conditions_of_typed [OF cs]
  have "\<forall>(n, cs) \<in> set (dset nodeid cs ret). \<forall>c \<in> set cs. typed_for component c" by fast
  from Cons.IH [OF rest this] show ?case .
qed auto

lemma load_file_typed:
  "load_file L N file component k = Inr (m, k') \<Longrightarrow>
     \<forall>(nodeid, cs) \<in> set m. \<forall>c \<in> set cs. typed_for component c"
  by (auto simp: load_file_def pbind_Inr_iff split: option.splits dest!: load_items_typed)

lemma load_components_files:
  assumes "load_components L N files cs result k = Inr (m, k')"
  shows "\<exists>datas. list_all2 (\<lambda>c d. \<exists>k1 k2. load_file L N (files (c @ ''.yml'')) c k1 = Inr (d, k2)) cs datas \<and>
    m = fold (\<lambda>(nodeid, value). dextend nodeid value) (concat datas) result"
  using assms
proof (induction cs arbitrary: result k)
  case (Cons c cs)
  from Cons.prems obtain d k1 where d: "load_file L N (files (c @ ''.yml'')) c k = Inr (d, k1)"
    and rest: "load_components L N files cs (fold (\<lambda>(nodeid, value). dextend nodeid value) d result) k1 = Inr (m, k')"
    by (auto simp: pbind_Inr_iff)
  from Cons.IH [OF rest] obtain datas where
    "list_all2 (\<lambda>c d. \<exists>k1 k2. load_file L N (files (c @ ''.yml'')) c k1 = Inr (d, k2)) cs datas"
    and "m = fold (\<lambda>(nodeid, value). dextend nodeid value) (concat datas)
      (fold (\<lambda>(nodeid, value). dextend nodeid value) d result)" by blast
  with d show ?case by (intro exI [of _ "d # datas"]) auto
qed simp

text \<open>
  C28.  The loaded manifest is the union of the component files: a node id's conditions are
  those of every file that names it, file by file in the order of the component list and in
  the order of the file, each node id is listed once, and no condition is lost or doubled.
\<close>

theorem load_groups_files:
  assumes "load L N files k = Inr (m, k')"
  shows "\<exists>datas. list_all2 (\<lambda>c d. \<exists>k1 k2. load_file L N (files (c @ ''.yml'')) c k1 = Inr (d, k2))
      manifest_components datas \<and> dict_wf m \<and>
    (\<forall>nodeid. dget m nodeid =
      (if nodeid \<in> fst ` set (concat datas)
       then Some (concat (map snd (filter (\<lambda>p. fst p = nodeid) (concat datas)))) else None))"
proof -
  from load_components_files [OF assms [unfolded load_def]] obtain datas where
    files: "list_all2 (\<lambda>c d. \<exists>k1 k2. load_file L N (files (c @ ''.yml'')) c k1 = Inr (d, k2))
      manifest_components datas"
    and m: "m = fold (\<lambda>(nodeid, value). dextend nodeid value) (concat datas) []" by blast
  have "dict_wf m"
    using gd.keys_fold_extend_distinct [of "[]" "concat datas"]
    by (simp add: m dict_wf_def dkeys_def)
  moreover have "dget m nodeid =
      (if nodeid \<in> fst ` set (concat datas)
       then Some (concat (map snd (filter (\<lambda>p. fst p = nodeid) (concat datas)))) else None)" for nodeid
    using gd.lookup_fold_extend [of "concat datas" "[]" nodeid] by (simp add: m gd.group_def)
  ultimately show ?thesis using files by blast
qed

text \<open>
  C29.  Whatever the files hold, every condition of a loaded manifest has the types of the
  \<open>Condition\<close> dictionary: a component that is one of the component list, a skip
  declaration, version ranges and lists of weblog names where they are present, and no
  other field.
\<close>

theorem load_well_typed:
  assumes "load L N files k = Inr (m, k')" and "(nodeid, cs) \<in> set m" and "c \<in> set cs"
  shows "\<exists>cond. as_condition c = Some cond \<and> cd_component cond \<in> set manifest_components"
proof -
  from load_groups_files [OF assms(1)] obtain datas where
    files: "list_all2 (\<lambda>c d. \<exists>k1 k2. load_file L N (files (c @ ''.yml'')) c k1 = Inr (d, k2))
      manifest_components datas" and wf: "dict_wf m"
    and get: "dget m nodeid = (if nodeid \<in> fst ` set (concat datas)
       then Some (concat (map snd (filter (\<lambda>p. fst p = nodeid) (concat datas)))) else None)" by blast
  from wf assms(2) have "dget m nodeid = Some cs" by (simp add: dget_in_set)
  with get assms(3) obtain d cs1 where d: "d \<in> set datas" "(nodeid, cs1) \<in> set d" "c \<in> set cs1"
    by (auto split: if_splits)
  then obtain i where "i < length datas" "datas ! i = d" by (auto simp: in_set_conv_nth)
  with files obtain k1 k2 where comp: "manifest_components ! i \<in> set manifest_components"
    and "load_file L N (files (manifest_components ! i @ ''.yml'')) (manifest_components ! i) k1 = Inr (d, k2)"
    by (auto simp: list_all2_conv_all_nth)
  from load_file_typed [OF this(2)] d have "typed_for (manifest_components ! i) c" by blast
  with comp show ?thesis unfolding typed_for_def by metis
qed

text \<open>A small manifest for the witnesses: one file, one skipped test, one entry with weblogs.\<close>

definition sample_weblogs :: "(yaml \<times> yaml) list" where
  "sample_weblogs =
     [(Y_str ''*'', Y_str ''missing_feature''), (Y_str ''rails, rack'', Y_str ''irrelevant (no)'')]"

definition sample_files :: "string \<Rightarrow> yaml option" where
  "sample_files f =
     (if f = ''ruby.yml'' then
        Some (Y_map [(Y_str ''manifest'', Y_map
          [(Y_str ''tests/a.py'', Y_list [Y_map [(Y_str ''weblog_declaration'', Y_map sample_weblogs)]])])])
      else None)"

lemma sample_load:
  "\<exists>m k' c d. load sample_lib sample_npm sample_files (\<lambda>_. {}) = Inr (m, k') \<and>
     dget m (Y_str ''tests/a.py'') = Some [c, d]"
proof -
  have "case load sample_lib sample_npm sample_files (\<lambda>_. {}) of Inl e \<Rightarrow> False
    | Inr (m, k') \<Rightarrow> (case dget m (Y_str ''tests/a.py'') of Some cs \<Rightarrow> length cs = 2 | _ \<Rightarrow> False)"
    by code_simp
  then show ?thesis by (auto simp: length_Suc_conv numeral_2_eq_2 split: sum.splits option.splits)
qed

lemma load_groups_files_witness:
  "\<exists>m k'. load sample_lib sample_npm sample_files (\<lambda>_. {}) = Inr (m, k') \<and> dict_wf m \<and> m \<noteq> []"
proof -
  obtain m k' c d where load: "load sample_lib sample_npm sample_files (\<lambda>_. {}) = Inr (m, k')"
    and "dget m (Y_str ''tests/a.py'') = Some [c, d]" using sample_load by blast
  with load_groups_files [OF load] show ?thesis by (intro exI [of _ m] exI [of _ k']) auto
qed

lemma load_well_typed_witness:
  "\<exists>m k' c cond. load sample_lib sample_npm sample_files (\<lambda>_. {}) = Inr (m, k') \<and>
     c \<in> set (the (dget m (Y_str ''tests/a.py''))) \<and> as_condition c = Some cond \<and>
     cd_component cond \<in> set manifest_components"
proof -
  obtain m k' c d where load: "load sample_lib sample_npm sample_files (\<lambda>_. {}) = Inr (m, k')"
    and get: "dget m (Y_str ''tests/a.py'') = Some [c, d]" using sample_load by blast
  from load_well_typed [OF load map_of_SomeD [OF get], of c]
  show ?thesis using load get by auto
qed

subsection \<open>Weblogs\<close>

lemma str_items_strs [simp]: "str_items (map Y_str ws) = ws"
  by (induction ws) (auto simp: str_items_def)

lemma named_weblogs_iff:
  "w \<in> set (named_weblogs m) \<longleftrightarrow> (\<exists>s y. (Y_str s, y) \<in> set m \<and> s \<noteq> ''*'' \<and> w \<in> set (parse_weblogs s))"
  by (force simp: named_weblogs_def str_items_def split: yaml.splits)

lemma parse_weblogs_nonempty [simp]: "parse_weblogs s \<noteq> []"
  by (simp add: parse_weblogs_def)

lemma pmap_nth:
  "pmap f xs k = Inr (ys, k') \<Longrightarrow> length ys = length xs \<and>
     (\<forall>i < length xs. \<exists>k1 k2. f (xs ! i) k1 = Inr (ys ! i, k2))"
proof (induction xs arbitrary: ys k)
  case (Cons x xs)
  from Cons.prems obtain y k1 zs where x: "f x k = Inr (y, k1)" "pmap f xs k1 = Inr (zs, k')" "ys = y # zs"
    by (auto simp: pbind_Inr_iff)
  from Cons.IH [OF x(2)] x(1,3) show ?case by (auto simp: nth_Cons split: nat.splits)
qed simp

text \<open>What an inline declaration says of weblogs: nothing.\<close>

lemma process_inline_weblog:
  "process_inline L N raw component k = Inr (c, k') \<Longrightarrow>
     dget c ''weblog'' = None \<and> dget c ''excluded_weblog'' = None"
  by (auto simp: process_inline_def pbind_Inr_iff split: if_splits decl_value.splits
      option.splits yaml.splits)

text \<open>The conditions of a \<open>weblog_declaration\<close> share out the weblogs: the condition of a
  named key applies to a weblog exactly when the key lists it, the condition of \<open>*\<close> exactly
  when no named key does, whatever the order of the keys; beyond the weblog both ask what
  they ask when no weblog is given.
\<close>

theorem weblog_declaration_partition:
  assumes "fp_weblog_declaration L N n v e component k = Inr ((e', new, keep), k')"
    and "raw_of v = Y_map m" and "i < length m" and "as_condition (new ! i) = Some cond"
    and "w \<noteq> []"
  shows "\<exists>s. fst (m ! i) = Y_str s \<and>
    (match_condition N cond cs (Some w) = Inr True \<longleftrightarrow>
       match_condition N cond cs None = Inr True \<and>
       (if s = ''*'' then \<not> (\<exists>t y. (Y_str t, y) \<in> set m \<and> t \<noteq> ''*'' \<and> w \<in> set (parse_weblogs t))
        else w \<in> set (parse_weblogs s)))"
proof -
  from assms(1,2) obtain k1 where "pmap (weblog_condition L N (named_weblogs m) component) m k = Inr (new, k1)"
    by (auto simp: fp_weblog_declaration_def pbind_Inr_iff)
  from pmap_nth [OF this] assms(3) obtain k2 k3 where
    "weblog_condition L N (named_weblogs m) component (m ! i) k2 = Inr (new ! i, k3)" by blast
  then obtain s c k4 where s: "fst (m ! i) = Y_str s"
    and c: "process_inline L N (snd (m ! i)) component k2 = Inr (c, k4)"
    and new: "new ! i = (if s = ''*''
      then dset ''excluded_weblog'' (F_yaml (Y_list (map Y_str (named_weblogs m)))) c
      else dset ''weblog'' (F_yaml (Y_list (map Y_str (parse_weblogs s)))) c)"
    by (cases "fst (m ! i)") (auto simp: weblog_condition_def pbind_Inr_iff split_def)
  obtain x xs where w: "w = x # xs" using assms(5) by (cases w) auto
  from process_inline_weblog [OF c] assms(4) new
  have fields: "(cd_weblog cond, cd_excluded_weblog cond) =
      (if s = ''*'' then (None, Some (named_weblogs m)) else (Some (parse_weblogs s), None))"
    by (auto simp: as_condition_def split: option.splits fval.splits yaml.splits if_splits)
  have "match_condition N cond cs (Some w) = Inr True \<longleftrightarrow>
      match_condition N cond cs None = Inr True \<and>
      (if s = ''*'' then w \<notin> set (named_weblogs m) else w \<in> set (parse_weblogs s))"
    using fields
    by (cases "parse_weblogs s"; cases "named_weblogs m")
      (auto simp: match_condition_def w split: option.splits if_splits)
  with s show ?thesis by (simp add: named_weblogs_iff)
qed

lemma weblog_declaration_partition_witness:
  "\<exists>new cond. as_condition (new ! 0) = Some cond \<and>
     match_condition sample_npm cond [(''ruby'', Some sample_version)] (Some ''sinatra'') = Inr True \<and>
     match_condition sample_npm cond [(''ruby'', Some sample_version)] (Some ''rack'') = Inr False"
proof -
  let ?cs = "[(''ruby'', Some sample_version)]"
  let ?fp = "fp_weblog_declaration sample_lib sample_npm ''weblog_declaration'' (F_yaml (Y_map sample_weblogs))
      [] ''ruby'' (\<lambda>_. {})"
  have "case ?fp of Inl e \<Rightarrow> False | Inr ((e', new, keep), k') \<Rightarrow>
      (case as_condition (new ! 0) of None \<Rightarrow> False
       | Some cond \<Rightarrow> match_condition sample_npm cond ?cs None = Inr True)"
    by code_simp
  then obtain e' new keep k' cond where fp: "?fp = Inr ((e', new, keep), k')"
    and cond: "as_condition (new ! 0) = Some cond"
    and base: "match_condition sample_npm cond ?cs None = Inr True"
    by (auto split: sum.splits option.splits)
  have rack: "parse_weblogs ''rails, rack'' = [''rails'', ''rack'']" by code_simp
  have names: "(\<exists>t y. (Y_str t, y) \<in> set sample_weblogs \<and> t \<noteq> ''*'' \<and> w \<in> set (parse_weblogs t)) \<longleftrightarrow>
      w \<in> {''rails'', ''rack''}" for w
    by (auto simp: sample_weblogs_def rack)
  have "match_condition sample_npm cond ?cs (Some ''sinatra'') = Inr True"
    using weblog_declaration_partition [OF fp _ _ cond, of sample_weblogs "''sinatra''" ?cs] base names [of "''sinatra''"]
    by (simp add: sample_weblogs_def)
  moreover have "match_condition sample_npm cond ?cs (Some ''rack'') \<noteq> Inr True"
    using weblog_declaration_partition [OF fp _ _ cond, of sample_weblogs "''rack''" ?cs] names [of "''rack''"]
    by (simp add: sample_weblogs_def)
  moreover have "all_versions ?cs" by (simp add: all_versions_def)
  ultimately have "match_condition sample_npm cond ?cs (Some ''rack'') = Inr False"
    by (simp add: match_condition_total)
  with \<open>match_condition sample_npm cond ?cs (Some ''sinatra'') = Inr True\<close> cond show ?thesis by blast
qed

text \<open>An inline version declaration is a \<open>missing_feature\<close> for exactly the versions
  outside its range: the condition applies to a tested version, whatever the weblog, if and
  only if the version is not in the declared range.
\<close>

theorem inline_version_skips_older:
  assumes "process_inline L N raw component k = Inr (c, k')"
    and "declaration_init L N raw component True k = Inr (d, k1)" and "\<not> dc_is_skip d"
  shows "\<exists>cond r. as_condition c = Some cond \<and> dc_value d = Dv_range r \<and>
    sd_value (cd_declaration cond) = MISSING_FEATURE \<and>
    (\<forall>cs v w. dget cs component = Some (Some v) \<longrightarrow>
       match_condition N cond cs w = Inr (\<not> in_range N v r))"
proof -
  from assms obtain r s where r: "dc_value d = Dv_range r" and c: "c =
      [(''declaration'', F_skip \<lparr>sd_value = MISSING_FEATURE, sd_details = Some s\<rparr>),
       (''excluded_component_version'', F_range r), (''component'', F_yaml (Y_str component))]"
    using skip_init_td_str [of MISSING_FEATURE]
    by (auto simp: process_inline_def pbind_Inr_iff split: decl_value.splits yaml.splits)
  have "check_condition c = Inr ()"
    by (simp add: c check_condition_iff check_field_def condition_types_def)
  then have "as_condition c = Some \<lparr>cd_component = component, cd_version = None,
      cd_excluded_version = Some r, cd_weblog = None, cd_excluded_weblog = None,
      cd_declaration = \<lparr>sd_value = MISSING_FEATURE, sd_details = Some s\<rparr>\<rparr>"
    by (simp add: as_condition_def c)
  then show ?thesis
    unfolding r by (intro exI conjI, assumption) (auto simp: match_condition_def split: option.splits)
qed

lemma inline_version_skips_older_witness:
  "\<exists>c cond r. as_condition c = Some cond \<and>
     match_condition sample_npm cond [(''ruby'', Some sample_version)] None =
       Inr (\<not> in_range sample_npm sample_version r)"
proof -
  let ?p = "process_inline sample_lib sample_npm (Y_str ''<2'') ''ruby'' (\<lambda>_. {})"
  let ?d = "declaration_init sample_lib sample_npm (Y_str ''<2'') ''ruby'' True (\<lambda>_. {})"
  have "is_ok ?p" and "case ?d of Inl _ \<Rightarrow> False | Inr (d, _) \<Rightarrow> \<not> dc_is_skip d" by code_simp+
  then obtain c k' d k1 where p: "?p = Inr (c, k')" and d: "?d = Inr (d, k1)" "\<not> dc_is_skip d"
    by (auto simp: is_ok_def split: sum.splits)
  from inline_version_skips_older [OF p d] show ?thesis by force
qed

lemma set_str_strip: "set (str_strip y) \<subseteq> set y"
  by (auto simp: str_strip_def strip_by_def lstrip_by_def rstrip_by_def dest!: set_dropWhileD)

text \<open>
  Only \<open>weblog\<close> is split at its commas: a string under \<open>weblog\<close> becomes the list of
  the names it lists, the same string under \<open>excluded_weblog\<close> a list of one name, which
  holds the commas and so excludes none of the weblogs it lists.
\<close>

theorem excluded_weblog_not_split:
  assumes "fp_ensure_list ''weblog'' (F_yaml (Y_str s)) e component k = Inr ((e1, n1, b1), k1)"
    and "fp_ensure_list ''excluded_weblog'' (F_yaml (Y_str s)) e component k = Inr ((e2, n2, b2), k2)"
    and "CHR '','' \<in> set s"
  shows "weblogs_of (dget e1 (Y_str ''weblog'')) = Some (parse_weblogs s) \<and>
    weblogs_of (dget e2 (Y_str ''excluded_weblog'')) = Some [s] \<and> s \<notin> set (parse_weblogs s)"
proof -
  have "CHR '','' \<notin> set x" if "x \<in> set (parse_weblogs s)" for x
  proof -
    from that obtain y where y: "y \<in> set (str_split '','' s)" "x = str_strip y"
      by (auto simp: parse_weblogs_def)
    from y(1) have "CHR '','' \<notin> set y" by (rule str_split_char_free)
    with set_str_strip [of y] show ?thesis unfolding y(2) by auto
  qed
  then have "s \<notin> set (parse_weblogs s)" using assms(3) by blast
  moreover have "str_items [Y_str s] = [s]" by (simp add: str_items_def)
  ultimately show ?thesis
    using assms(1,2) unfolding fp_ensure_list_def Let_def by clarsimp
qed

lemma excluded_weblog_not_split_witness:
  "\<exists>e k'. fp_ensure_list ''excluded_weblog'' (F_yaml (Y_str ''a,b'')) [] ''ruby'' (\<lambda>_. {}) =
     Inr ((e :: range list list entry, [], True), k') \<and>
     weblogs_of (dget e (Y_str ''excluded_weblog'')) = Some [''a,b''] \<and>
     ''a,b'' \<notin> set (parse_weblogs ''a,b'')"
proof -
  let ?e1 = "[(Y_str ''weblog'', F_yaml (Y_list (map Y_str (parse_weblogs ''a,b''))))] :: range list list entry"
  let ?e2 = "[(Y_str ''excluded_weblog'', F_yaml (Y_list [Y_str ''a,b'']))] :: range list list entry"
  have "fp_ensure_list ''weblog'' (F_yaml (Y_str ''a,b'')) [] ''ruby'' (\<lambda>_. {}) = Inr ((?e1, [], True), \<lambda>_. {})"
    and e2: "fp_ensure_list ''excluded_weblog'' (F_yaml (Y_str ''a,b'')) [] ''ruby'' (\<lambda>_. {}) =
      Inr ((?e2, [], True), \<lambda>_. {})"
    by (simp_all add: fp_ensure_list_def str_items_def preturn_def)
  from excluded_weblog_not_split [OF this] e2 show ?thesis by auto
qed

end
