(* ===== verification/Py_Bytes.thy ===== *)
theory Py_Bytes
  imports Prelude "HOL-Library.Word"
begin

section \<open>Bytes and the UTF-8 codec\<close>

text \<open>
  A Python \<open>bytes\<close> object is a list of 8-bit words, and the text that it decodes to a
  list of code points.  \<open>utf8_decode\<close> is \<open>bytes.decode("utf-8", errors="replace")\<close>: each
  maximal prefix of an ill-formed sequence gives one replacement character.
\<close>

type_synonym bytes = "8 word list"
type_synonym unicode = "nat list"

definition replacement :: nat where "replacement = 0xFFFD"

text \<open>
  A lead byte: the bits it contributes, the number of continuation bytes, and the range of
  the first of them.
\<close>

definition utf8_lead :: "8 word \<Rightarrow> (nat \<times> nat \<times> nat \<times> nat) option" where
  "utf8_lead b =
     (let n = unat b in
      if n < 0xC2 then None
      else if n \<le> 0xDF then Some (n - 0xC0, 1, 0x80, 0xBF)
      else if n = 0xE0 then Some (0, 2, 0xA0, 0xBF)
      else if n = 0xED then Some (0xD, 2, 0x80, 0x9F)
      else if n \<le> 0xEF then Some (n - 0xE0, 2, 0x80, 0xBF)
      else if n = 0xF0 then Some (0, 3, 0x90, 0xBF)
      else if n \<le> 0xF3 then Some (n - 0xF0, 3, 0x80, 0xBF)
      else if n = 0xF4 then Some (4, 3, 0x80, 0x8F)
      else None)"

fun utf8_tail :: "nat \<Rightarrow> nat \<Rightarrow> nat \<Rightarrow> nat \<Rightarrow> bytes \<Rightarrow> nat option \<times> bytes" where
  "utf8_tail 0 lo hi acc bs = (Some acc, bs)"
| "utf8_tail (Suc n) lo hi acc [] = (None, [])"
| "utf8_tail (Suc n) lo hi acc (b # bs) =
     (if lo \<le> unat b \<and> unat b \<le> hi then utf8_tail n 0x80 0xBF (acc * 64 + (unat b - 0x80)) bs
      else (None, b # bs))"

lemma utf8_tail_length: "length (snd (utf8_tail n lo hi acc bs)) \<le> length bs"
  by (induction n lo hi acc bs rule: utf8_tail.induct) auto

function utf8_decode :: "bytes \<Rightarrow> unicode" where
  "utf8_decode [] = []"
| "utf8_decode (b # bs) =
     (if unat b < 0x80 then unat b # utf8_decode bs
      else case utf8_lead b of
        None \<Rightarrow> replacement # utf8_decode bs
      | Some (acc, n, lo, hi) \<Rightarrow>
          (case fst (utf8_tail n lo hi acc bs) of None \<Rightarrow> replacement | Some c \<Rightarrow> c) #
            utf8_decode (snd (utf8_tail n lo hi acc bs)))"
  by pat_completeness auto
termination
  by (relation "measure length") (auto simp: less_Suc_eq_le utf8_tail_length)

lemma utf8_decode_ascii: "\<forall>b \<in> set bs. unat b < 0x80 \<Longrightarrow> utf8_decode bs = map unat bs"
  by (induction bs) auto

end
