(* ===== verification/Metrics_V3.thy ===== *)
theory Metrics_V3
  imports Py_Bytes Py_Dict
begin

section \<open>The decoder of the metrics v3 intake (\<open>utils/proxy/_decoders/metrics_v3.py\<close>)\<close>

text \<open>
  The agent sends metrics in columns: one dictionary of names, one of tags, one of tag
  sets, one entry per series in the reference columns and one per point in the point
  columns, with deltas in place of absolute values.  The protobuf library gives the columns
  of a message, the record \<open>metric_data\<close>; everything on top of it is decoded here.
  Floating point numbers are the parameter \<open>float_ops\<close>.
\<close>

unbundle bit_operations_syntax

record 'f metric_data =
  dict_name_str :: bytes
  dict_tag_str :: bytes
  dict_tagsets :: "int list"
  md_types :: "nat list"
  md_name_refs :: "int list"
  md_tagset_refs :: "int list"
  md_intervals :: "nat list"
  md_num_points :: "nat list"
  md_timestamps :: "int list"
  vals_sint64 :: "int list"
  vals_float32 :: "'f list"
  vals_float64 :: "'f list"
  md_sketch_num_bins :: "nat list"
  md_sketch_bin_keys :: "int list"
  md_sketch_bin_cnts :: "nat list"

record 'f float_ops =
  float_of_int :: "int \<Rightarrow> 'f"
  float_div :: "'f \<Rightarrow> 'f \<Rightarrow> 'f"
  float_nonzero :: "'f \<Rightarrow> bool"
  int_of_float :: "'f \<Rightarrow> int"

subsection \<open>Variable length integers and the dictionary of strings\<close>

function read_uvarint_from :: "bytes \<Rightarrow> nat \<Rightarrow> nat \<Rightarrow> nat \<Rightarrow> (nat \<times> nat) res" where
  "read_uvarint_from buf pos result shift =
     (if pos \<ge> length buf then Inl Value_Error
      else
        let b = unat (buf ! pos);
            result' = result OR push_bit shift (b AND 0x7F)
        in if b AND 0x80 = 0 then Inr (result', pos + 1)
           else read_uvarint_from buf (pos + 1) result' (shift + 7))"
  by pat_completeness auto
termination
  by (relation "measure (\<lambda>(buf, pos, result, shift). length buf - pos)") auto

declare read_uvarint_from.simps [simp del]

definition read_uvarint :: "bytes \<Rightarrow> nat \<Rightarrow> (nat \<times> nat) res" where
  "read_uvarint buf pos = read_uvarint_from buf pos 0 0"

lemma read_uvarint_from_pos: "read_uvarint_from buf pos r s = Inr (v, p) \<Longrightarrow> pos < p \<and> p \<le> length buf"
proof (induction buf pos r s rule: read_uvarint_from.induct)
  case (1 buf pos r s)
  from 1(2) show ?case
    using 1(1) [OF _ refl refl]
    by (subst (asm) read_uvarint_from.simps) (force simp: Let_def split: if_splits)
qed

lemma read_uvarint_pos: "read_uvarint buf pos = Inr (v, p) \<Longrightarrow> pos < p \<and> p \<le> length buf"
  unfolding read_uvarint_def by (rule read_uvarint_from_pos)

function decode_strings_from :: "bytes \<Rightarrow> nat \<Rightarrow> unicode list res" where
  "decode_strings_from blob pos =
     (if pos < length blob then
        (case read_uvarint blob pos of
           Inl e \<Rightarrow> Inl e
         | Inr (len, pos') \<Rightarrow>
             rbind (decode_strings_from blob (pos' + len)) (\<lambda>strings.
               Inr (utf8_decode (take len (drop pos' blob)) # strings)))
      else Inr [])"
  by pat_completeness auto
termination
  by (relation "measure (\<lambda>(blob, pos). length blob - pos)")
     (auto dest: read_uvarint_pos)

declare decode_strings_from.simps [simp del]

definition decode_string_dict :: "bytes \<Rightarrow> unicode list res" where
  "decode_string_dict blob = decode_strings_from blob 0"

subsection \<open>Deltas and tag sets\<close>

fun accumulate_from :: "int \<Rightarrow> int list \<Rightarrow> int list" where
  "accumulate_from prev [] = []"
| "accumulate_from prev (delta # values) = (prev + delta) # accumulate_from (prev + delta) values"

definition accumulate_deltas :: "int list \<Rightarrow> int list" where
  "accumulate_deltas = accumulate_from 0"

text \<open>The loop \<open>for _ in range(count)\<close>, which raises when the column ends early.\<close>

fun take_count :: "nat \<Rightarrow> int list \<Rightarrow> (int list \<times> int list) res" where
  "take_count 0 values = Inr ([], values)"
| "take_count (Suc n) [] = Inl Index_Error"
| "take_count (Suc n) (v # values) = rbind (take_count n values) (\<lambda>(xs, rest). Inr (v # xs, rest))"

lemma take_count_length: "take_count n values = Inr (xs, rest) \<Longrightarrow> length rest \<le> length values"
  by (induction n "values" arbitrary: xs rule: take_count.induct) (fastforce simp: rbind_Inr_iff)+

definition resolve_index :: "int list list \<Rightarrow> int \<Rightarrow> int list" where
  "resolve_index tagsets idx =
     (if idx < 0 then
        (if 1 \<le> - idx \<and> - idx \<le> int (length tagsets) then tagsets ! nat (- idx - 1) else [])
      else if idx > 0 then [idx] else [])"

function tagsets_from :: "int list list \<Rightarrow> int list \<Rightarrow> int list list res" where
  "tagsets_from tagsets [] = Inr tagsets"
| "tagsets_from tagsets (count # values) =
     (case take_count (nat count) values of
        Inl e \<Rightarrow> Inl e
      | Inr (deltas, rest) \<Rightarrow>
          tagsets_from
            (tagsets @ [concat (map (resolve_index tagsets) (accumulate_deltas deltas))]) rest)"
  by pat_completeness auto
termination
  by (relation "measure (\<lambda>(tagsets, values). length values)")
     (auto simp: less_Suc_eq_le dest: take_count_length)

definition decode_tagsets :: "int list \<Rightarrow> int list list res" where
  "decode_tagsets values = tagsets_from [] values"

subsection \<open>The point columns and their cursors\<close>

definition metric_type_mask :: nat where "metric_type_mask = 0x0F"
definition metric_type_sketch :: nat where "metric_type_sketch = 0x04"
definition metric_types_unsupported_points :: "nat list" where
  "metric_types_unsupported_points = [0x06, 0x07]"
definition value_type_mask :: nat where "value_type_mask = 0x30"
definition value_type_zero :: nat where "value_type_zero = 0x00"
definition value_type_sint64 :: nat where "value_type_sint64 = 0x10"
definition value_type_float32 :: nat where "value_type_float32 = 0x20"
definition value_type_float64 :: nat where "value_type_float64 = 0x30"

record 'f point_columns =
  pc_timestamps :: "int list"
  pc_values :: "(nat, 'f list) dict"
  pc_sketch_num_bins :: "nat list"
  pc_sketch_bin_keys :: "int list"
  pc_sketch_bin_counts :: "nat list"
  timestamp_cursor :: nat
  value_cursors :: "(nat, nat) dict"
  sketch_point_cursor :: nat
  sketch_bin_cursor :: nat
  decodable :: bool

text \<open>
  The values of the integer column are converted when they are taken; converting the whole
  column at the start gives the same floats.
\<close>

definition point_columns_init :: "'f float_ops \<Rightarrow> 'f metric_data \<Rightarrow> 'f point_columns" where
  "point_columns_init F md =
     \<lparr>pc_timestamps = accumulate_deltas (md_timestamps md),
      pc_values = [(value_type_sint64, map (float_of_int F) (vals_sint64 md)),
        (value_type_float32, vals_float32 md), (value_type_float64, vals_float64 md)],
      pc_sketch_num_bins = md_sketch_num_bins md,
      pc_sketch_bin_keys = md_sketch_bin_keys md,
      pc_sketch_bin_counts = md_sketch_bin_cnts md,
      timestamp_cursor = 0,
      value_cursors = [(value_type_sint64, 0), (value_type_float32, 0), (value_type_float64, 0)],
      sketch_point_cursor = 0, sketch_bin_cursor = 0, decodable = True\<rparr>"

definition slice :: "nat \<Rightarrow> nat \<Rightarrow> 'a list \<Rightarrow> 'a list" where
  "slice i n xs = take n (drop i xs)"

definition take_timestamps :: "nat \<Rightarrow> 'f point_columns \<Rightarrow> int list \<times> 'f point_columns" where
  "take_timestamps count c =
     (slice (timestamp_cursor c) count (pc_timestamps c),
      c\<lparr>timestamp_cursor := timestamp_cursor c + count\<rparr>)"

definition take_values ::
  "'f float_ops \<Rightarrow> nat \<Rightarrow> nat \<Rightarrow> 'f point_columns \<Rightarrow> ('f list \<times> 'f point_columns) res" where
  "take_values F value_type count c =
     (if value_type = value_type_zero then Inr (replicate count (float_of_int F 0), c)
      else rbind (dgetitem (value_cursors c) value_type) (\<lambda>cursor.
        rbind (dgetitem (pc_values c) value_type) (\<lambda>vals.
          Inr (slice cursor count vals,
               c\<lparr>value_cursors := dset value_type (cursor + count) (value_cursors c)\<rparr>))))"

definition take_sketch_bins ::
  "'f point_columns \<Rightarrow> ((int list \<times> nat list) \<times> 'f point_columns) res" where
  "take_sketch_bins c =
     (if sketch_point_cursor c < length (pc_sketch_num_bins c) then
        let num_bins = pc_sketch_num_bins c ! sketch_point_cursor c;
            start = sketch_bin_cursor c
        in Inr ((accumulate_deltas (slice start num_bins (pc_sketch_bin_keys c)),
                 slice start num_bins (pc_sketch_bin_counts c)),
                c\<lparr>sketch_point_cursor := sketch_point_cursor c + 1,
                  sketch_bin_cursor := start + num_bins\<rparr>)
      else Inl Index_Error)"

record 'f dogsketch =
  sk_ts :: int
  sk_cnt :: int
  sk_min :: 'f
  sk_max :: 'f
  sk_avg :: 'f
  sk_sum :: 'f
  sk_k :: "int list"
  sk_n :: "nat list"

text \<open>
  \<open>[columns.take_sketch_bins() for _ in range(n)]\<close> and the loop over the points; the
  numbers that the code prints with \<open>str\<close> are kept as numbers.
\<close>

fun take_bins ::
  "nat \<Rightarrow> 'f point_columns \<Rightarrow> ((int list \<times> nat list) list \<times> 'f point_columns) res" where
  "take_bins 0 c = Inr ([], c)"
| "take_bins (Suc n) c = rbind (take_sketch_bins c) (\<lambda>(b, c').
     rbind (take_bins n c') (\<lambda>(bs, c''). Inr (b # bs, c'')))"

fun sketch_points ::
  "'f float_ops \<Rightarrow> nat \<Rightarrow> (int \<times> int list \<times> nat list) list \<Rightarrow> 'f point_columns \<Rightarrow>
     ('f dogsketch list \<times> 'f point_columns) res" where
  "sketch_points F value_type [] c = Inr ([], c)"
| "sketch_points F value_type ((ts, keys, counts) # ps) c =
     rbind (take_values F value_type 3 c) (\<lambda>(vs, c1).
       case vs of
         [sum_, min_, max_] \<Rightarrow>
           rbind (take_values F value_type_sint64 1 c1) (\<lambda>(ns, c2).
             case ns of
               [cnt] \<Rightarrow>
                 rbind (sketch_points F value_type ps c2) (\<lambda>(points, c3).
                   Inr (\<lparr>sk_ts = ts, sk_cnt = int_of_float F cnt, sk_min = min_, sk_max = max_,
                     sk_avg = (if float_nonzero F cnt then float_div F sum_ cnt else float_of_int F 0),
                     sk_sum = sum_, sk_k = keys, sk_n = counts\<rparr> # points, c3))
             | _ \<Rightarrow> Inl Value_Error)
       | _ \<Rightarrow> Inl Value_Error)"

definition decode_sketch_points ::
  "'f float_ops \<Rightarrow> 'f point_columns \<Rightarrow> nat \<Rightarrow> nat \<Rightarrow> ('f dogsketch list \<times> 'f point_columns) res" where
  "decode_sketch_points F c point_count value_type =
     (let (timestamps, c1) = take_timestamps point_count c in
      rbind (take_bins point_count c1) (\<lambda>(bins, c2).
        sketch_points F value_type (zip timestamps bins) c2))"

subsection \<open>Series\<close>

record 'f series_entry =
  se_metric :: unicode
  se_tags :: "unicode list"
  se_type :: "nat option"
  se_interval :: "nat option"
  se_num_points :: "nat option"
  se_points :: "(int \<times> 'f) list option"
  se_dogsketches :: "'f dogsketch list option"

definition nth_opt :: "'a list \<Rightarrow> nat \<Rightarrow> 'a option" where
  "nth_opt xs i = (if i < length xs then Some (xs ! i) else None)"

text \<open>A base-1 index into a dictionary; index 0 and indexes out of range give nothing.\<close>

definition dict_entry :: "'a list \<Rightarrow> int \<Rightarrow> 'a option" where
  "dict_entry xs i = (if 1 \<le> i \<and> i \<le> int (length xs) then Some (xs ! nat (i - 1)) else None)"

definition ref_at :: "int list \<Rightarrow> nat \<Rightarrow> int" where
  "ref_at refs i = (case nth_opt refs i of None \<Rightarrow> 0 | Some r \<Rightarrow> r)"

definition series_tags :: "unicode list \<Rightarrow> int list list \<Rightarrow> int \<Rightarrow> unicode list" where
  "series_tags tag_dict tagsets tags_idx =
     (case dict_entry tagsets tags_idx of
        None \<Rightarrow> []
      | Some idxs \<Rightarrow> concat (map (\<lambda>j. case dict_entry tag_dict j of None \<Rightarrow> [] | Some t \<Rightarrow> [t]) idxs))"

definition entry_points ::
  "'f float_ops \<Rightarrow> nat \<Rightarrow> nat \<Rightarrow> 'f series_entry \<Rightarrow> 'f point_columns \<Rightarrow>
     ('f series_entry \<times> 'f point_columns) res" where
  "entry_points F type_value point_count entry c =
     (let metric_type = type_value AND metric_type_mask;
          value_type = type_value AND value_type_mask
      in if metric_type = metric_type_sketch then
           rbind (decode_sketch_points F c point_count value_type) (\<lambda>(ps, c').
             Inr (entry\<lparr>se_dogsketches := Some ps\<rparr>, c'))
         else if metric_type \<in> set metric_types_unsupported_points then
           Inr (entry, c\<lparr>decodable := False\<rparr>)
         else
           let (timestamps, c1) = take_timestamps point_count c in
           rbind (take_values F value_type point_count c1) (\<lambda>(values, c2).
             let points = zip timestamps values in
             Inr (if points = [] then entry else entry\<lparr>se_points := Some points\<rparr>, c2)))"

definition decode_series ::
  "'f float_ops \<Rightarrow> 'f metric_data \<Rightarrow> unicode list \<Rightarrow> unicode list \<Rightarrow> int list list \<Rightarrow>
     nat \<Rightarrow> 'f point_columns \<Rightarrow> ('f series_entry \<times> 'f point_columns) res" where
  "decode_series F md name_dict tag_dict tagsets i c =
     (let name_idx = ref_at (accumulate_deltas (md_name_refs md)) i;
          tags_idx = ref_at (accumulate_deltas (md_tagset_refs md)) i;
          point_count = (case nth_opt (md_num_points md) i of None \<Rightarrow> 0 | Some n \<Rightarrow> n);
          entry = \<lparr>se_metric = (case dict_entry name_dict name_idx of None \<Rightarrow> [] | Some n \<Rightarrow> n),
            se_tags = series_tags tag_dict tagsets tags_idx,
            se_type = nth_opt (md_types md) i, se_interval = nth_opt (md_intervals md) i,
            se_num_points = nth_opt (md_num_points md) i, se_points = None, se_dogsketches = None\<rparr>
      in if point_count \<noteq> 0 \<and> decodable c then
           entry_points F (case nth_opt (md_types md) i of None \<Rightarrow> 0 | Some t \<Rightarrow> t) point_count entry c
         else Inr (entry, c))"

fun decode_all_series ::
  "('f point_columns \<Rightarrow> nat \<Rightarrow> ('f series_entry \<times> 'f point_columns) res) \<Rightarrow> nat list \<Rightarrow>
     'f point_columns \<Rightarrow> 'f series_entry list res" where
  "decode_all_series f [] c = Inr []"
| "decode_all_series f (i # js) c =
     rbind (f c i) (\<lambda>(entry, c'). rbind (decode_all_series f js c') (\<lambda>series. Inr (entry # series)))"

definition decode_metric_data :: "'f float_ops \<Rightarrow> 'f metric_data \<Rightarrow> 'f series_entry list res" where
  "decode_metric_data F md =
     rbind (decode_string_dict (dict_name_str md)) (\<lambda>name_dict.
     rbind (decode_string_dict (dict_tag_str md)) (\<lambda>tag_dict.
     rbind (decode_tagsets (dict_tagsets md)) (\<lambda>tagsets.
       let series_count = (if md_types md \<noteq> [] then length (md_types md) else length (md_name_refs md)) in
       decode_all_series (\<lambda>c i. decode_series F md name_dict tag_dict tagsets i c)
         [0..<series_count] (point_columns_init F md))))"

text \<open>
  The payload is the list of messages the protobuf library parsed; the result has the key
  \<open>series\<close> (or \<open>sketches\<close>) only when it is not empty.
\<close>

definition decode_payload :: "'f float_ops \<Rightarrow> 'f metric_data list \<Rightarrow> 'f series_entry list res" where
  "decode_payload F mds = rbind (rmap (decode_metric_data F) mds) (\<lambda>xss. Inr (concat xss))"

definition decode_metrics_v3 ::
  "'f float_ops \<Rightarrow> 'f metric_data list \<Rightarrow> (string, 'f series_entry list) dict res" where
  "decode_metrics_v3 F mds = rbind (decode_payload F mds) (\<lambda>series.
     Inr (if series = [] then [] else [(''series'', series)]))"

definition decode_sketches_v3 ::
  "'f float_ops \<Rightarrow> 'f metric_data list \<Rightarrow> (string, 'f series_entry list) dict res" where
  "decode_sketches_v3 F mds = rbind (decode_payload F mds) (\<lambda>sketches.
     Inr (if sketches = [] then [] else [(''sketches'', sketches)]))"

subsection \<open>Round trips with the writer the documentation describes\<close>

function enc_uvarint :: "nat \<Rightarrow> bytes" where
  "enc_uvarint n =
     (if n < 128 then [word_of_nat n] else word_of_nat (n mod 128 + 128) # enc_uvarint (n div 128))"
  by pat_completeness auto
termination
  by (relation "measure id") auto

declare enc_uvarint.simps [simp del]

definition enc_strings :: "bytes list \<Rightarrow> bytes" where
  "enc_strings ss = concat (map (\<lambda>s. enc_uvarint (length s) @ s) ss)"

lemma high_byte:
  assumes "m < 128"
  shows "(m + 128 :: nat) AND 128 \<noteq> 0" and "(m + 128 :: nat) AND 127 = m"
    and "m AND 128 = 0" and "m AND 127 = m"
proof -
  have mask: "x AND 127 = x mod 128" for x :: nat
    using take_bit_eq_mask [of 7 x] by (simp add: take_bit_eq_mod mask_eq_exp_minus_1)
  have bit7: "x AND 128 = 0 \<longleftrightarrow> \<not> odd (x div 128)" for x :: nat
    using and_exp_eq_0_iff_not_bit [of x 7] by (simp add: bit_iff_odd)
  have "(m + 128) div 128 = 1" by (rule div_nat_eqI) (use assms in auto)
  moreover have "(m + 128) mod 128 = m" using assms by simp
  ultimately show "(m + 128 :: nat) AND 128 \<noteq> 0" and "(m + 128 :: nat) AND 127 = m"
    and "m AND 128 = 0" and "m AND 127 = m"
    using assms by (simp_all add: mask bit7)
qed

lemma unat_small: "n < 256 \<Longrightarrow> unat (word_of_nat n :: 8 word) = n"
  by (simp add: unat_of_nat)

lemma or_push_bits:
  "r OR push_bit s (n mod 128) OR push_bit (s + 7) (n div 128) = r OR push_bit s (n :: nat)"
proof -
  have n: "n mod 128 = take_bit 7 n" "n div 128 = drop_bit 7 n"
    by (simp_all add: take_bit_eq_mod drop_bit_eq_div)
  show ?thesis
    unfolding n
  proof (rule bit_eqI)
    fix k
    show "bit (r OR push_bit s (take_bit 7 n) OR push_bit (s + 7) (drop_bit 7 n)) k \<longleftrightarrow>
        bit (r OR push_bit s n) k"
    proof (cases "s + 7 \<le> k")
      case True
      then have "7 + (k - (s + 7)) = k - s" by simp
      with True show ?thesis by (auto simp: bit_simps)
    next
      case False
      then show ?thesis by (auto simp: bit_simps)
    qed
  qed
qed

lemma read_enc_uvarint:
  "read_uvarint_from (pre @ enc_uvarint n @ post) (length pre) r s =
     Inr (r OR push_bit s n, length pre + length (enc_uvarint n))"
proof (induction n arbitrary: pre r s rule: enc_uvarint.induct)
  case (1 n)
  show ?case
  proof (cases "n < 128")
    case True
    then have enc: "enc_uvarint n = [word_of_nat n]" by (simp add: enc_uvarint.simps)
    show ?thesis
      unfolding enc using True high_byte [OF True]
      by (subst read_uvarint_from.simps) (simp add: nth_append unat_small Let_def del: push_bit_and)
  next
    case False
    have m: "n mod 128 < 128" by simp
    define b where "b = (word_of_nat (n mod 128 + 128) :: 8 word)"
    have enc: "enc_uvarint n = b # enc_uvarint (n div 128)"
      using False unfolding b_def by (subst enc_uvarint.simps) simp
    have b: "unat b = n mod 128 + 128" unfolding b_def using m by (intro unat_small) linarith
    have IH: "read_uvarint_from (pre @ b # enc_uvarint (n div 128) @ post) (Suc (length pre)) q t =
        Inr (q OR push_bit t (n div 128), Suc (length pre) + length (enc_uvarint (n div 128)))" for q t
      using 1 [OF False, of "pre @ [b]" q t] by simp
    show ?thesis
      unfolding enc using high_byte [OF m] IH or_push_bits [of r s n]
      by (subst read_uvarint_from.simps) (simp add: nth_append b Let_def or.assoc del: push_bit_and)
  qed
qed

lemma decode_enc_strings:
  "decode_strings_from (pre @ enc_strings ss) (length pre) = Inr (map utf8_decode ss)"
proof (induction ss arbitrary: pre)
  case Nil
  then show ?case by (simp add: decode_strings_from.simps enc_strings_def)
next
  case (Cons s ss)
  let ?e = "enc_uvarint (length s)"
  have ne: "?e \<noteq> []" by (subst enc_uvarint.simps) simp
  have read: "read_uvarint (pre @ enc_strings (s # ss)) (length pre) =
      Inr (length s, length pre + length ?e)"
    unfolding read_uvarint_def enc_strings_def
    using read_enc_uvarint [of pre "length s" "s @ concat (map (\<lambda>s. enc_uvarint (length s) @ s) ss)" 0 0]
    by simp
  have "decode_strings_from (pre @ enc_strings (s # ss)) (length pre + length ?e + length s) =
      Inr (map utf8_decode ss)"
    using Cons [of "pre @ ?e @ s"] by (simp add: enc_strings_def add.assoc)
  then show ?case
    using ne by (subst decode_strings_from.simps) (simp add: read, simp add: enc_strings_def)
qed

text \<open>A tag set as the agent writes it: tags of the dictionary and references to earlier sets.\<close>

datatype tag_item = Tag nat | Earlier nat

fun item_code :: "tag_item \<Rightarrow> int" where
  "item_code (Tag i) = int i"
| "item_code (Earlier j) = - int j"

fun deltas :: "int \<Rightarrow> int list \<Rightarrow> int list" where
  "deltas prev [] = []"
| "deltas prev (x # xs) = (x - prev) # deltas x xs"

definition enc_tagset :: "tag_item list \<Rightarrow> int list" where
  "enc_tagset items = int (length items) # deltas 0 (map item_code items)"

definition expand_item :: "int list list \<Rightarrow> tag_item \<Rightarrow> int list" where
  "expand_item tagsets item =
     (case item of Tag i \<Rightarrow> [int i] | Earlier j \<Rightarrow> tagsets ! (j - 1))"

fun expand_tagsets :: "int list list \<Rightarrow> tag_item list list \<Rightarrow> int list list" where
  "expand_tagsets tagsets [] = tagsets"
| "expand_tagsets tagsets (items # rest) =
     expand_tagsets (tagsets @ [concat (map (expand_item tagsets) items)]) rest"

fun items_ok :: "nat \<Rightarrow> tag_item list list \<Rightarrow> bool" where
  "items_ok n [] = True"
| "items_ok n (items # rest) =
     ((\<forall>item \<in> set items. case item of Tag i \<Rightarrow> 0 < i | Earlier j \<Rightarrow> 1 \<le> j \<and> j \<le> n) \<and>
      items_ok (Suc n) rest)"

lemma accumulate_deltas_inverse: "accumulate_from prev (deltas prev xs) = xs"
  by (induction xs arbitrary: prev) auto

lemma take_count_append: "take_count (length xs) (xs @ rest) = Inr (xs, rest)"
  by (induction xs) auto

lemma length_deltas [simp]: "length (deltas prev xs) = length xs"
  by (induction xs arbitrary: prev) auto

lemma resolve_item:
  assumes "case item of Tag i \<Rightarrow> 0 < i | Earlier j \<Rightarrow> 1 \<le> j \<and> j \<le> length tagsets"
  shows "resolve_index tagsets (item_code item) = expand_item tagsets item"
  using assms by (cases item) (auto simp: resolve_index_def expand_item_def nat_diff_distrib)

lemma decode_enc_tagsets:
  "items_ok (length tagsets) sets \<Longrightarrow>
     tagsets_from tagsets (concat (map enc_tagset sets)) = Inr (expand_tagsets tagsets sets)"
proof (induction sets arbitrary: tagsets)
  case (Cons items sets)
  let ?rest = "concat (map enc_tagset sets)"
  have count: "take_count (length items) (deltas 0 (map item_code items) @ ?rest) =
      Inr (deltas 0 (map item_code items), ?rest)"
    using take_count_append [of "deltas 0 (map item_code items)" ?rest] by simp
  have items: "map (resolve_index tagsets) (map item_code items) = map (expand_item tagsets) items"
    using Cons.prems by (auto intro: resolve_item)
  have "tagsets_from tagsets (int (length items) # deltas 0 (map item_code items) @ ?rest) =
      tagsets_from (tagsets @ [concat (map (resolve_index tagsets) (map item_code items))]) ?rest"
    by (simp add: count accumulate_deltas_def accumulate_deltas_inverse)
  also have "\<dots> = tagsets_from (tagsets @ [concat (map (expand_item tagsets) items)]) ?rest"
    by (simp only: items)
  finally have "tagsets_from tagsets (int (length items) # deltas 0 (map item_code items) @ ?rest) =
      tagsets_from (tagsets @ [concat (map (expand_item tagsets) items)]) ?rest" .
  moreover have "concat (map enc_tagset (items # sets)) =
      int (length items) # deltas 0 (map item_code items) @ ?rest"
    by (simp add: enc_tagset_def [of items])
  ultimately show ?case using Cons by (simp only: expand_tagsets.simps) simp
qed simp

text \<open>The dictionaries are read back as the agent writes them: length-prefixed strings of
  any length and content, and tag sets with delta-encoded entries and references to
  earlier sets, whose tags they inherit.
\<close>

theorem dictionaries_roundtrip:
  assumes "items_ok 0 sets"
  shows "decode_string_dict (enc_strings ss) = Inr (map utf8_decode ss) \<and>
    decode_tagsets (concat (map enc_tagset sets)) = Inr (expand_tagsets [] sets)"
  using decode_enc_strings [of "[]" ss] decode_enc_tagsets [of "[]" sets] assms
  by (simp add: decode_string_dict_def decode_tagsets_def)

lemma dictionaries_roundtrip_witness:
  "decode_tagsets [2, 3, 1, 2, -1, 6] = Inr [[3, 4], [3, 4, 5]] \<and>
   decode_string_dict [2, 0x68, 0x69, 1, 0x41] = Inr [[0x68, 0x69], [0x41]]"
proof -
  let ?sets = "[[Tag 3, Tag 4], [Earlier 1, Tag 5]]"
  have "items_ok 0 ?sets" by simp
  moreover have "concat (map enc_tagset ?sets) = [2, 3, 1, 2, -1, 6]" by (simp add: enc_tagset_def)
  moreover have "expand_tagsets [] ?sets = [[3, 4], [3, 4, 5]]" by (simp add: expand_item_def)
  moreover have "enc_strings [[0x68, 0x69], [0x41]] = [2, 0x68, 0x69, 1, 0x41]" by code_simp
  moreover have "map utf8_decode [[0x68, 0x69], [0x41]] = [[0x68, 0x69], [0x41]]" by code_simp
  ultimately show ?thesis
    using dictionaries_roundtrip [of ?sets "[[0x68, 0x69], [0x41]]"] by (simp add: expand_item_def)
qed

subsection \<open>The cursors share out the point columns\<close>

definition plain_series :: "'f metric_data \<Rightarrow> bool" where
  "plain_series md \<longleftrightarrow> length (md_num_points md) = length (md_types md) \<and> md_types md \<noteq> [] \<and>
     (\<forall>t \<in> set (md_types md). t AND metric_type_mask \<noteq> metric_type_sketch \<and>
        t AND metric_type_mask \<notin> set metric_types_unsupported_points)"

definition value_kind :: "'f metric_data \<Rightarrow> nat \<Rightarrow> nat" where
  "value_kind md i = md_types md ! i AND value_type_mask"

definition value_column :: "'f float_ops \<Rightarrow> 'f metric_data \<Rightarrow> nat \<Rightarrow> 'f list" where
  "value_column F md vt =
     (if vt = value_type_sint64 then map (float_of_int F) (vals_sint64 md)
      else if vt = value_type_float32 then vals_float32 md else vals_float64 md)"

text \<open>How many timestamps, and values of a kind, the series before \<open>i\<close> have used.\<close>

definition used_timestamps :: "'f metric_data \<Rightarrow> nat \<Rightarrow> nat" where
  "used_timestamps md i = (\<Sum>j < i. md_num_points md ! j)"

definition used_values :: "'f metric_data \<Rightarrow> nat \<Rightarrow> nat \<Rightarrow> nat" where
  "used_values md vt i = (\<Sum>j < i. if value_kind md j = vt then md_num_points md ! j else 0)"

definition own_points :: "'f float_ops \<Rightarrow> 'f metric_data \<Rightarrow> nat \<Rightarrow> (int \<times> 'f) list" where
  "own_points F md i =
     (let n = md_num_points md ! i; vt = value_kind md i in
      zip (slice (used_timestamps md i) n (accumulate_deltas (md_timestamps md)))
        (if vt = value_type_zero then replicate n (float_of_int F 0)
         else slice (used_values md vt i) n (value_column F md vt)))"

definition cursors_at :: "'f float_ops \<Rightarrow> 'f metric_data \<Rightarrow> nat \<Rightarrow> 'f point_columns \<Rightarrow> bool" where
  "cursors_at F md i c \<longleftrightarrow>
     pc_timestamps c = accumulate_deltas (md_timestamps md) \<and> decodable c \<and>
     timestamp_cursor c = used_timestamps md i \<and>
     (\<forall>vt \<in> {value_type_sint64, value_type_float32, value_type_float64}.
        dget (pc_values c) vt = Some (value_column F md vt) \<and>
        dget (value_cursors c) vt = Some (used_values md vt i))"

lemma value_kind_cases:
  "value_kind md i \<in> {value_type_zero, value_type_sint64, value_type_float32, value_type_float64}"
proof -
  define t where "t = md_types md ! i"
  have "t AND 48 = push_bit 4 (take_bit 2 (drop_bit 4 t))"
  proof (rule bit_eqI)
    fix k
    have "bit (48 :: nat) k \<longleftrightarrow> k = 4 \<or> k = 5"
    proof -
      have eq: "(48 :: nat) = push_bit 4 (mask 2)" by (simp add: mask_eq_exp_minus_1 push_bit_eq_mult)
      show ?thesis unfolding eq by (auto simp: bit_push_bit_iff bit_mask_iff)
    qed
    then show "bit (t AND 48) k \<longleftrightarrow> bit (push_bit 4 (take_bit 2 (drop_bit 4 t))) k"
      by (auto simp: bit_simps)
  qed
  moreover have "take_bit 2 (drop_bit 4 t) < 4" using take_bit_nat_less_exp [of 2 "drop_bit 4 t"] by simp
  ultimately have "t AND 48 \<in> {0, 16, 32, 48}"
    by (auto simp: push_bit_eq_mult less_Suc_eq numeral_eq_Suc)
  then show ?thesis
    by (auto simp: value_kind_def t_def value_type_mask_def value_type_zero_def value_type_sint64_def
        value_type_float32_def value_type_float64_def)
qed

lemma init_cursors: "cursors_at F md 0 (point_columns_init F md)"
  by (simp add: cursors_at_def point_columns_init_def used_timestamps_def used_values_def
      value_column_def value_type_sint64_def value_type_float32_def value_type_float64_def)

lemma take_values_step:
  assumes "cursors_at F md i c"
  shows "\<exists>c'. take_values F (value_kind md i) (md_num_points md ! i)
      (c\<lparr>timestamp_cursor := used_timestamps md i + md_num_points md ! i\<rparr>) =
    Inr (if value_kind md i = value_type_zero then replicate (md_num_points md ! i) (float_of_int F 0)
         else slice (used_values md (value_kind md i) i) (md_num_points md ! i)
           (value_column F md (value_kind md i)), c') \<and>
    cursors_at F md (Suc i) c'"
proof (cases "value_kind md i = value_type_zero")
  case True
  then have "vt \<in> {value_type_sint64, value_type_float32, value_type_float64} \<Longrightarrow> value_kind md i \<noteq> vt" for vt
    by (auto simp: value_type_zero_def value_type_sint64_def value_type_float32_def value_type_float64_def)
  with assms True show ?thesis
    by (auto simp: take_values_def cursors_at_def used_timestamps_def used_values_def)
next
  case False
  with value_kind_cases [of md i] assms
  have "dget (value_cursors c) (value_kind md i) = Some (used_values md (value_kind md i) i)"
    and "dget (pc_values c) (value_kind md i) = Some (value_column F md (value_kind md i))"
    by (auto simp: cursors_at_def)
  with False assms show ?thesis
    by (auto simp: take_values_def cursors_at_def used_timestamps_def used_values_def dgetitem_def)
qed

lemma decode_series_step:
  assumes "plain_series md" and "i < length (md_types md)" and "cursors_at F md i c"
  shows "\<exists>e c'. decode_series F md nd td ts i c = Inr (e, c') \<and> cursors_at F md (Suc i) c' \<and>
    se_points e = (if own_points F md i = [] then None else Some (own_points F md i))"
proof -
  from assms(1,2) have nth: "nth_opt (md_num_points md) i = Some (md_num_points md ! i)"
    "nth_opt (md_types md) i = Some (md_types md ! i)"
    by (simp_all add: plain_series_def nth_opt_def)
  from assms(1,2) have kind: "md_types md ! i AND metric_type_mask \<noteq> metric_type_sketch"
    "md_types md ! i AND metric_type_mask \<notin> set metric_types_unsupported_points"
    by (auto simp: plain_series_def)
  from assms(3) have cur: "decodable c" "timestamp_cursor c = used_timestamps md i"
    "pc_timestamps c = accumulate_deltas (md_timestamps md)"
    by (auto simp: cursors_at_def)
  show ?thesis
  proof (cases "md_num_points md ! i = 0")
    case True
    then have "cursors_at F md (Suc i) c" "own_points F md i = []"
      using assms(3) by (auto simp: cursors_at_def used_timestamps_def used_values_def own_points_def slice_def)
    with True show ?thesis by (simp add: decode_series_def nth Let_def)
  next
    case False
    from take_values_step [OF assms(3)] False show ?thesis
      by (auto simp: decode_series_def nth entry_points_def kind cur take_timestamps_def Let_def
          own_points_def value_kind_def [symmetric])
  qed
qed

lemma decode_all_step:
  assumes "plain_series md" and "cursors_at F md i c" and "i \<le> length (md_types md)"
  shows "\<exists>es. decode_all_series (\<lambda>c i. decode_series F md nd td ts i c) [i..<length (md_types md)] c = Inr es \<and>
    map se_points es = map (\<lambda>j. if own_points F md j = [] then None else Some (own_points F md j))
      [i..<length (md_types md)]"
  using assms(2,3)
proof (induction "length (md_types md) - i" arbitrary: i c)
  case (Suc n)
  then have lt: "i < length (md_types md)" by simp
  from decode_series_step [OF assms(1) this Suc.prems(1), where nd = nd and td = td and ts = ts] obtain e c' where
    e: "decode_series F md nd td ts i c = Inr (e, c')" and c': "cursors_at F md (Suc i) c'"
    and pts: "se_points e = (if own_points F md i = [] then None else Some (own_points F md i))"
    by blast
  have "\<exists>es. decode_all_series (\<lambda>c i. decode_series F md nd td ts i c) [Suc i..<length (md_types md)] c' = Inr es \<and>
    map se_points es = map (\<lambda>j. if own_points F md j = [] then None else Some (own_points F md j))
      [Suc i..<length (md_types md)]"
    using Suc.hyps(2) lt by (intro Suc.hyps(1) c') auto
  then obtain es where es: "decode_all_series (\<lambda>c i. decode_series F md nd td ts i c)
      [Suc i..<length (md_types md)] c' = Inr es"
    and map: "map se_points es = map (\<lambda>j. if own_points F md j = [] then None
      else Some (own_points F md j)) [Suc i..<length (md_types md)]" by blast
  have "decode_all_series (\<lambda>c i. decode_series F md nd td ts i c) [i..<length (md_types md)] c = Inr (e # es)"
    unfolding upt_conv_Cons [OF lt] decode_all_series.simps e rbind_simps prod.case es ..
  moreover have "map se_points (e # es) = map (\<lambda>j. if own_points F md j = [] then None
      else Some (own_points F md j)) [i..<length (md_types md)]"
    unfolding upt_conv_Cons [OF lt] list.map pts map ..
  ultimately show ?case by blast
qed simp


definition sample_floats :: "int float_ops" where
  "sample_floats = \<lparr>float_of_int = id, float_div = (div), float_nonzero = (\<lambda>x. x \<noteq> 0), int_of_float = id\<rparr>"

definition sample_columns :: "int metric_data" where
  "sample_columns = \<lparr>dict_name_str = [1, 0x61, 1, 0x62], dict_tag_str = [], dict_tagsets = [],
     md_types = [0x11, 0x31, 0x11], md_name_refs = [1, 1, -1], md_tagset_refs = [0, 0, 0],
     md_intervals = [10, 10, 10], md_num_points = [2, 1, 1], md_timestamps = [100, 10, -5, 3],
     vals_sint64 = [7, 8, 9], vals_float32 = [], vals_float64 = [42], md_sketch_num_bins = [],
     md_sketch_bin_keys = [], md_sketch_bin_cnts = []\<rparr>"


end
