(* ===== verification/Interface_Core.thy ===== *)
theory Interface_Core
  imports Py_Re Py_Dict
begin

section \<open>Interfaces (\<open>utils/interfaces/_core.py\<close>)\<close>

text \<open>
  An interface collects the requests and responses that the proxy dumped: a watchdog
  thread ingests files while the main thread waits for data or validates what is there.
  The sequential operations are functions on the list of data; the two threads are a step
  relation whose steps are the accesses to shared attributes that another thread can come
  between (everything under the lock is one step).
\<close>

subsection \<open>Data\<close>

record http_message =
  hm_headers :: "(string \<times> string) list"
  hm_has_content :: bool

record http_data =
  log_filename :: string
  hd_path :: string
  hd_request :: http_message
  hd_response :: "http_message option"

datatype direction = Request | Response

subsection \<open>Sequential operations\<close>

text \<open>Path filters are given as compiled patterns; \<open>None\<close> is no filter.\<close>

definition get_data :: "bool \<Rightarrow> 'a http_data_scheme list \<Rightarrow> re list option \<Rightarrow> 'a http_data_scheme list res" where
  "get_data configured data_list path_filters =
     (if \<not> configured then Inl Runtime_Error
      else Inr (case path_filters of
          None \<Rightarrow> data_list
        | Some regexes \<Rightarrow>
            filter (\<lambda>d. \<not> list_all (\<lambda>r. re_fullmatch r (hd_path d) = None) regexes) data_list))"

text \<open>\<open>pytest.exit\<close> leaves the run with an exception of its own.\<close>

fun check_deserialization_errors :: "'a http_data_scheme list \<Rightarrow> unit res" where
  "check_deserialization_errors [] = Inr ()"
| "check_deserialization_errors (d # ds) =
     (if \<not> hm_has_content (hd_request d) then Inl Exit_Error
      else case hd_response d of
        Some r \<Rightarrow> if hm_has_content r then check_deserialization_errors ds else Inl Exit_Error
      | None \<Rightarrow> check_deserialization_errors ds)"

fun validate_loop :: "('d \<Rightarrow> bool res) \<Rightarrow> 'd list \<Rightarrow> bool res" where
  "validate_loop validator [] = Inr False"
| "validate_loop validator (d # ds) =
     rbind (validator d) (\<lambda>ok. if ok then Inr True else validate_loop validator ds)"

definition validate_one ::
  "bool \<Rightarrow> 'a http_data_scheme list \<Rightarrow> ('a http_data_scheme \<Rightarrow> bool res) \<Rightarrow> re list option \<Rightarrow> unit res" where
  "validate_one configured data_list validator path_filters =
     rbind (get_data configured data_list path_filters) (\<lambda>ds.
       rbind (validate_loop validator ds) (\<lambda>found. if found then Inr () else Inl Value_Error))"

definition validate_all ::
  "bool \<Rightarrow> 'a http_data_scheme list \<Rightarrow> ('a http_data_scheme \<Rightarrow> unit res) \<Rightarrow> re list option \<Rightarrow> bool \<Rightarrow> unit res" where
  "validate_all configured data_list validator path_filters allow_no_data =
     rbind (get_data configured data_list path_filters) (\<lambda>ds.
       rbind (rmap validator ds) (\<lambda>_.
         if \<not> allow_no_data \<and> ds = [] then Inl Value_Error else Inr ()))"

definition message_of :: "direction \<Rightarrow> 'a http_data_scheme \<Rightarrow> http_message res" where
  "message_of dir d =
     (case dir of Request \<Rightarrow> Inr (hd_request d) | Response \<Rightarrow> of_option Type_Error (hd_response d))"

definition header_values :: "re \<Rightarrow> http_message \<Rightarrow> string list" where
  "header_values name_pattern m =
     map snd (filter (\<lambda>h. re_fullmatch name_pattern (str_lower (fst h)) \<noteq> None) (hm_headers m))"

text \<open>The loop keeps the last error message: here whether there is one.\<close>

definition header_error :: "re \<Rightarrow> re \<Rightarrow> http_message \<Rightarrow> bool \<Rightarrow> bool" where
  "header_error name_pattern value_pattern m err =
     fold (\<lambda>v err. if re_fullmatch value_pattern v = None then True else err)
       (header_values name_pattern m)
       (if header_values name_pattern m = [] then True else err)"

definition assert_header ::
  "bool \<Rightarrow> 'a http_data_scheme list \<Rightarrow> re list option \<Rightarrow> direction \<Rightarrow> re \<Rightarrow> re \<Rightarrow> unit res" where
  "assert_header configured data_list path_filters dir name_pattern value_pattern =
     rbind (get_data configured data_list path_filters) (\<lambda>ds.
       if ds = [] then Inl Value_Error
       else rbind (rfold (\<lambda>d err. rbind (message_of dir d) (\<lambda>m.
           Inr (header_error name_pattern value_pattern m err))) ds False) (\<lambda>err.
         if err then Inl Assertion_Error else Inr ()))"

definition assert_response_header where
  "assert_response_header configured data_list path_filters =
     assert_header configured data_list path_filters Response"

definition assert_request_header where
  "assert_request_header configured data_list path_filters =
     assert_header configured data_list path_filters Request"

subsection \<open>The watchdog and the waiting thread\<close>

text \<open>
  Where the watchdog is in \<open>ingest_file\<close>: outside; past the lock with its data, about to
  test \<open>self._wait_for_function\<close>; past that test, about to read the attribute again and call
  it; about to set the event; or dead, after calling \<open>None\<close>.
\<close>

datatype 'd ingest_pc = I_idle | I_after 'd | I_call 'd | I_set | I_crashed

text \<open>
  Where the main thread is: outside of \<open>wait_for\<close>; waiting for the event; past the wait with
  its result, about to reset the attribute; returned.
\<close>

datatype 'd wait_pc =
    W_idle
  | W_waiting "'d \<Rightarrow> bool"
  | W_reset "'d \<Rightarrow> bool" bool
  | W_returned "'d \<Rightarrow> bool" bool

record 'd istate =
  data_list :: "'d list"
  ingested_files :: "string set"
  wait_event :: bool
  wait_function :: "('d \<Rightarrow> bool) option"
  ipc :: "'d ingest_pc"
  wpc :: "'d wait_pc"

definition interface_init :: "'d istate" where
  "interface_init = \<lparr>data_list = [], ingested_files = {}, wait_event = False,
     wait_function = None, ipc = I_idle, wpc = W_idle\<rparr>"

text \<open>
  The locked part of \<open>ingest_file\<close>; \<open>content\<close> is what \<open>json.load\<close> gives, \<open>None\<close> for an
  unfinished file.
\<close>

definition ingest_locked ::
  "('d \<Rightarrow> string) \<Rightarrow> string \<Rightarrow> 'd option \<Rightarrow> 'd istate \<Rightarrow> 'd istate" where
  "ingest_locked name src content s =
     (if src \<in> ingested_files s then s
      else case content of
        None \<Rightarrow> s
      | Some data \<Rightarrow> s\<lparr>data_list := sort_key name (data_list s @ [data]),
          ingested_files := insert src (ingested_files s), ipc := I_after data\<rparr>)"

text \<open>The part of \<open>wait_for\<close> before the wait, and the replay mode.\<close>

definition wait_for_start :: "bool \<Rightarrow> ('d \<Rightarrow> bool) \<Rightarrow> 'd istate \<Rightarrow> 'd istate" where
  "wait_for_start replay f s =
     (if replay then s\<lparr>wpc := W_returned f True\<rparr>
      else if list_ex f (data_list s) then s\<lparr>wpc := W_returned f True\<rparr>
      else s\<lparr>wait_event := False, wait_function := Some f, wpc := W_waiting f\<rparr>)"

inductive istep :: "('d \<Rightarrow> string) \<Rightarrow> bool \<Rightarrow> 'd istate \<Rightarrow> 'd istate \<Rightarrow> bool"
  for name :: "'d \<Rightarrow> string" and replay :: bool where
  ingest: "ipc s = I_idle \<Longrightarrow> istep name replay s (ingest_locked name src content s)"
| check_some: "ipc s = I_after d \<Longrightarrow> wait_function s = Some f \<Longrightarrow> istep name replay s (s\<lparr>ipc := I_call d\<rparr>)"
| check_none: "ipc s = I_after d \<Longrightarrow> wait_function s = None \<Longrightarrow> istep name replay s (s\<lparr>ipc := I_idle\<rparr>)"
| call_true: "ipc s = I_call d \<Longrightarrow> wait_function s = Some f \<Longrightarrow> f d \<Longrightarrow> istep name replay s (s\<lparr>ipc := I_set\<rparr>)"
| call_false: "ipc s = I_call d \<Longrightarrow> wait_function s = Some f \<Longrightarrow> \<not> f d \<Longrightarrow> istep name replay s (s\<lparr>ipc := I_idle\<rparr>)"
| call_none: "ipc s = I_call d \<Longrightarrow> wait_function s = None \<Longrightarrow> istep name replay s (s\<lparr>ipc := I_crashed\<rparr>)"
| set_event: "ipc s = I_set \<Longrightarrow> istep name replay s (s\<lparr>wait_event := True, ipc := I_idle\<rparr>)"
| start: "wpc s = W_idle \<or> wpc s = W_returned g b \<Longrightarrow> istep name replay s (wait_for_start replay f s)"
| wake: "wpc s = W_waiting f \<Longrightarrow> wait_event s \<Longrightarrow> istep name replay s (s\<lparr>wpc := W_reset f True\<rparr>)"
| timeout: "wpc s = W_waiting f \<Longrightarrow> \<not> wait_event s \<Longrightarrow> istep name replay s (s\<lparr>wpc := W_reset f False\<rparr>)"
| reset: "wpc s = W_reset f b \<Longrightarrow>
    istep name replay s (s\<lparr>wait_function := None, wpc := W_returned f b\<rparr>)"

inductive reachable :: "('d \<Rightarrow> string) \<Rightarrow> bool \<Rightarrow> 'd istate \<Rightarrow> bool"
  for name :: "'d \<Rightarrow> string" and replay :: bool where
  init: "reachable name replay interface_init"
| step: "reachable name replay s \<Longrightarrow> istep name replay s t \<Longrightarrow> reachable name replay t"

inductive_cases istep_E: "istep name replay s t"

subsection \<open>What the sequential operations decide\<close>

lemma validate_loop_iff:
  "validate_loop validator ds = Inr True \<longleftrightarrow>
     (\<exists>us d bs. ds = us @ d # bs \<and> validator d = Inr True \<and> (\<forall>a \<in> set us. validator a = Inr False))"
proof (induction ds)
  case (Cons x ds)
  show ?case
  proof (cases "validator x = Inr False")
    case True
    have "(\<exists>us d bs. x # ds = us @ d # bs \<and> validator d = Inr True \<and> (\<forall>a \<in> set us. validator a = Inr False)) \<longleftrightarrow>
        (\<exists>us d bs. ds = us @ d # bs \<and> validator d = Inr True \<and> (\<forall>a \<in> set us. validator a = Inr False))"
      (is "?l = ?r")
    proof
      assume ?l
      then obtain us d bs where "x # ds = us @ d # bs" "validator d = Inr True"
        "\<forall>a \<in> set us. validator a = Inr False" by blast
      with True show ?r by (cases us) auto
    next
      assume ?r
      then obtain us d bs where "ds = us @ d # bs" "validator d = Inr True"
        "\<forall>a \<in> set us. validator a = Inr False" by blast
      with True show ?l by (intro exI [of _ "x # us"] exI [of _ d] exI [of _ bs]) auto
    qed
    with True Cons show ?thesis by simp
  next
    case False
    show ?thesis
    proof (cases "validator x")
      case (Inr b)
      with False have "validator x = Inr True" by (cases b) auto
      then show ?thesis by (auto intro!: exI [of _ "[]"])
    qed (auto simp: Cons_eq_append_conv)
  qed
qed simp

text \<open>\<open>validate_one\<close> succeeds exactly when, among the data on the filtered paths and in
  their order, a datum satisfies the validator and the validator rejected every earlier one
  without raising; data on other paths never count.
\<close>

theorem validate_one_iff:
  "validate_one configured logs validator path_filters = Inr () \<longleftrightarrow>
     (\<exists>ds us d bs. get_data configured logs path_filters = Inr ds \<and> ds = us @ d # bs \<and>
        validator d = Inr True \<and> (\<forall>a \<in> set us. validator a = Inr False))"
  by (auto simp: validate_one_def rbind_Inr_iff validate_loop_iff split: if_splits)

lemma validate_one_iff_witness:
  "validate_one True [\<lparr>log_filename = ''1'', hd_path = ''/a'', hd_request = \<lparr>hm_headers = [], hm_has_content = True\<rparr>,
     hd_response = None\<rparr>] (\<lambda>d. Inr True) None = Inr ()"
proof -
  let ?d = "\<lparr>log_filename = ''1'', hd_path = ''/a'', hd_request = \<lparr>hm_headers = [], hm_has_content = True\<rparr>,
     hd_response = None\<rparr>"
  have "get_data True [?d] None = Inr ([] @ ?d # [])" by (simp add: get_data_def)
  then show ?thesis unfolding validate_one_iff by (metis empty_iff list.set(1))
qed

lemma header_error_iff:
  "header_error np vp m err \<longleftrightarrow> err \<or> header_values np m = [] \<or>
     (\<exists>v \<in> set (header_values np m). re_fullmatch vp v = None)"
proof -
  have "fold (\<lambda>v err. if re_fullmatch vp v = None then True else err) vs b \<longleftrightarrow>
      b \<or> (\<exists>v \<in> set vs. re_fullmatch vp v = None)" for vs b
    by (induction vs arbitrary: b) auto
  then show ?thesis by (auto simp: header_error_def)
qed

text \<open>
  A header assertion passes exactly when there is data on the filtered paths and every
  message of it has a header of that name and no header of that name with another value.
\<close>

theorem assert_header_iff:
  "assert_header configured logs path_filters dir np vp = Inr () \<longleftrightarrow>
     (\<exists>ds ms. get_data configured logs path_filters = Inr ds \<and> ds \<noteq> [] \<and>
        rmap (message_of dir) ds = Inr ms \<and>
        (\<forall>m \<in> set ms. header_values np m \<noteq> [] \<and>
           (\<forall>v \<in> set (header_values np m). re_fullmatch vp v \<noteq> None)))"
proof -
  define bad where "bad = (\<lambda>m. header_values np m = [] \<or>
    (\<exists>v \<in> set (header_values np m). re_fullmatch vp v = None))"
  have "rfold (\<lambda>d err. rbind (message_of dir d) (\<lambda>m. Inr (header_error np vp m err))) ds b = Inr r \<longleftrightarrow>
      (\<exists>ms. rmap (message_of dir) ds = Inr ms \<and> r = (b \<or> (\<exists>m \<in> set ms. bad m)))" for ds b r
  proof (induction ds arbitrary: b)
    case (Cons d ds)
    have he: "header_error np vp m err \<longleftrightarrow> err \<or> bad m" for m err
      by (simp add: header_error_iff bad_def)
    show ?case
    proof (cases "message_of dir d")
      case (Inr m)
      show ?thesis
        by (simp only: rfold.simps rmap.simps Inr rbind_simps Cons.IH) (auto simp: rbind_Inr_iff he)
    qed simp
  qed auto
  note loop = this
  show ?thesis
    unfolding assert_header_def rbind_Inr_iff
    by (auto simp: rbind_Inr_iff loop bad_def split: if_splits)
qed

lemma assert_header_iff_witness:
  "assert_header True [\<lparr>log_filename = ''1'', hd_path = ''/a'', hd_request = \<lparr>hm_headers = [(''X'', ''1'')],
     hm_has_content = True\<rparr>, hd_response = None\<rparr>] None Request (Lit ''x'') (Lit ''1'') = Inr ()"
proof -
  let ?m = "\<lparr>hm_headers = [(''X'', ''1'')], hm_has_content = True\<rparr>"
  let ?d = "\<lparr>log_filename = ''1'', hd_path = ''/a'', hd_request = ?m, hd_response = None\<rparr>"
  have "get_data True [?d] None = Inr [?d]" "rmap (message_of Request) [?d] = Inr [?m]"
    by (simp_all add: get_data_def message_of_def)
  moreover have "header_values (Lit ''x'') ?m = [''1'']" by code_simp
  moreover have "re_fullmatch (Lit ''1'') ''1'' \<noteq> None" by code_simp
  ultimately show ?thesis
    unfolding assert_header_iff by (intro exI [of _ "[?d]"] exI [of _ "[?m]"]) simp
qed

subsection \<open>The waiting thread\<close>

text \<open>A datum that the watchdog has still to report.\<close>

definition in_flight :: "'d istate \<Rightarrow> 'd \<Rightarrow> bool" where
  "in_flight s d \<longleftrightarrow> ipc s = I_after d \<or> ipc s = I_call d \<or> ipc s = I_set"

definition wait_inv :: "'d istate \<Rightarrow> bool" where
  "wait_inv s \<longleftrightarrow>
     (case wpc s of
        W_waiting f \<Rightarrow> wait_function s = Some f \<and>
          (\<forall>d \<in> set (data_list s). f d \<longrightarrow> wait_event s \<or> in_flight s d)
      | W_reset f b \<Rightarrow> wait_function s = Some f
      | _ \<Rightarrow> wait_function s = None)"

lemma wait_inv_init: "wait_inv interface_init"
  by (simp add: wait_inv_def interface_init_def)

lemma wait_inv_step:
  assumes "istep name False s t" and "wait_inv s"
  shows "wait_inv t"
  using assms
proof cases
  case (ingest src content)
  with assms(2) show ?thesis
    by (auto simp: ingest_locked_def wait_inv_def in_flight_def split: option.splits wait_pc.splits)
next
  case (start g b f)
  with assms(2) show ?thesis
    by (auto simp: wait_for_start_def wait_inv_def list_ex_iff split: wait_pc.splits)
qed (use assms(2) in \<open>auto simp: wait_inv_def in_flight_def split: wait_pc.splits\<close>)

lemma reachable_inv: "reachable name False s \<Longrightarrow> wait_inv s"
  by (induction rule: reachable.induct) (auto intro: wait_inv_init wait_inv_step)

text \<open>
  C31.  No wake-up is lost: in every interleaving, when the main thread waits and the
  watchdog is outside \<open>ingest_file\<close>, either the event is set or no datum ingested so far
  satisfies the function; so a wait ends in error only for want of matching data or because
  the watchdog is still busy.
\<close>

theorem no_lost_wakeup:
  assumes "reachable name False s" and "wpc s = W_waiting f" and "ipc s = I_idle"
    and "\<not> wait_event s"
  shows "\<forall>d \<in> set (data_list s). \<not> f d"
  using reachable_inv [OF assms(1)] assms(2-4) by (auto simp: wait_inv_def in_flight_def)

lemma reach_start:
  assumes "reachable name False s" and "wpc s = W_idle \<or> wpc s = W_returned g b"
  shows "reachable name False (wait_for_start False f s)"
  using assms by (blast intro: reachable.step istep.start)

text \<open>The run of the witness and of the race: one wait, one datum that satisfies it.\<close>

definition run_waiting :: "nat istate" where
  "run_waiting = \<lparr>data_list = [], ingested_files = {}, wait_event = False,
     wait_function = Some (\<lambda>d. d = 1), ipc = I_idle, wpc = W_waiting (\<lambda>d. d = 1)\<rparr>"

lemma run_waiting_reachable: "reachable name False run_waiting"
proof -
  have "reachable name False (wait_for_start False (\<lambda>d. d = (1 :: nat)) interface_init)"
    by (rule reach_start [OF reachable.init]) (simp add: interface_init_def)
  then show ?thesis by (simp add: wait_for_start_def interface_init_def run_waiting_def)
qed

lemma no_lost_wakeup_witness: "\<not> list_ex (\<lambda>d. d = 1) (data_list run_waiting)"
  using no_lost_wakeup [OF run_waiting_reachable [of "\<lambda>_. []"], of "\<lambda>d. d = 1"]
  by (simp add: run_waiting_def list_ex_iff)

definition run_called :: "nat istate" where
  "run_called = run_waiting\<lparr>data_list := [1], ingested_files := {''f''}, ipc := I_call 1\<rparr>"

lemma run_called_reachable: "reachable (\<lambda>_. []) False run_called"
proof -
  have "reachable (\<lambda>_. []) False (ingest_locked (\<lambda>_. []) ''f'' (Some 1) run_waiting)"
    by (rule reachable.step [OF run_waiting_reachable istep.ingest]) (simp add: run_waiting_def)
  then have "reachable (\<lambda>_. []) False (run_waiting\<lparr>data_list := [1], ingested_files := {''f''}, ipc := I_after 1\<rparr>)"
    by (simp add: ingest_locked_def run_waiting_def)
  from reachable.step [OF this istep.check_some [of _ 1 "\<lambda>d. d = 1"]]
  show ?thesis by (simp add: run_called_def run_waiting_def)
qed

text \<open>The two reads of \<open>_wait_for_function\<close> outside the lock race with the end of
  \<open>wait_for\<close>: there is an interleaving in which the watchdog tests the attribute, the wait
  times out and resets it, and the watchdog calls \<open>None\<close> and dies.
\<close>

theorem watchdog_race:
  "\<exists>s. reachable (\<lambda>_ :: nat. []) False s \<and> ipc s = I_crashed \<and> wpc s = W_returned (\<lambda>d. d = 1) False \<and>
     data_list s = [1]"
proof -
  let ?f = "\<lambda>d :: nat. d = 1"
  from reachable.step [OF run_called_reachable istep.timeout [of _ ?f]]
  have "reachable (\<lambda>_. []) False (run_called\<lparr>wpc := W_reset ?f False\<rparr>)"
    by (simp add: run_called_def run_waiting_def)
  from reachable.step [OF this istep.reset [of _ ?f False]]
  have "reachable (\<lambda>_. []) False (run_called\<lparr>wait_function := None, wpc := W_returned ?f False\<rparr>)"
    by (simp add: run_called_def run_waiting_def)
  from reachable.step [OF this istep.call_none [of _ 1]]
  have "reachable (\<lambda>_. []) False (run_called\<lparr>wait_function := None, wpc := W_returned ?f False, ipc := I_crashed\<rparr>)"
    by (simp add: run_called_def run_waiting_def)
  moreover have "ipc (run_called\<lparr>wait_function := None, wpc := W_returned ?f False, ipc := I_crashed\<rparr>) = I_crashed"
    and "wpc (run_called\<lparr>wait_function := None, wpc := W_returned ?f False, ipc := I_crashed\<rparr>) = W_returned ?f False"
    and "data_list (run_called\<lparr>wait_function := None, wpc := W_returned ?f False, ipc := I_crashed\<rparr>) = [1]"
    by (simp_all add: run_called_def)
  ultimately show ?thesis by blast
qed

text \<open>A late event ends the next wait: there is an interleaving in which \<open>wait_for g\<close>
  returns true though no datum satisfies \<open>g\<close>, because the watchdog sets the event for the
  function of the previous wait after \<open>g\<close>'s wait has cleared it.
\<close>

theorem stale_event_success:
  "\<exists>s. reachable (\<lambda>_ :: nat. []) False s \<and> wpc s = W_returned (\<lambda>d. d = 2) True \<and>
     data_list s = [1]"
proof -
  let ?f = "\<lambda>d :: nat. d = 1" and ?g = "\<lambda>d :: nat. d = 2"
  from reachable.step [OF run_called_reachable istep.call_true [of _ 1 ?f]]
  have "reachable (\<lambda>_. []) False (run_called\<lparr>ipc := I_set\<rparr>)"
    by (simp add: run_called_def run_waiting_def)
  from reachable.step [OF this istep.timeout [of _ ?f]]
  have "reachable (\<lambda>_. []) False (run_called\<lparr>ipc := I_set, wpc := W_reset ?f False\<rparr>)"
    by (simp add: run_called_def run_waiting_def)
  from reachable.step [OF this istep.reset [of _ ?f False]]
  have "reachable (\<lambda>_. []) False (run_called\<lparr>ipc := I_set, wait_function := None, wpc := W_returned ?f False\<rparr>)"
    by (simp add: run_called_def run_waiting_def)
  from reach_start [OF this, of ?f False ?g]
  have "reachable (\<lambda>_. []) False (run_called\<lparr>ipc := I_set, wait_event := False, wait_function := Some ?g, wpc := W_waiting ?g\<rparr>)"
    by (simp add: run_called_def run_waiting_def wait_for_start_def)
  from reachable.step [OF this istep.set_event]
  have "reachable (\<lambda>_. []) False (run_called\<lparr>ipc := I_idle, wait_event := True, wait_function := Some ?g, wpc := W_waiting ?g\<rparr>)"
    by (simp add: run_called_def run_waiting_def)
  from reachable.step [OF this istep.wake [of _ ?g]]
  have "reachable (\<lambda>_. []) False (run_called\<lparr>ipc := I_idle, wait_event := True, wait_function := Some ?g, wpc := W_reset ?g True\<rparr>)"
    by (simp add: run_called_def run_waiting_def)
  from reachable.step [OF this istep.reset [of _ ?g True]]
  have "reachable (\<lambda>_. []) False (run_called\<lparr>ipc := I_idle, wait_event := True, wait_function := None, wpc := W_returned ?g True\<rparr>)"
    by (simp add: run_called_def run_waiting_def)
  moreover have "data_list (run_called\<lparr>ipc := I_idle, wait_event := True, wait_function := None, wpc := W_returned ?g True\<rparr>) = [1]"
    and "wpc (run_called\<lparr>ipc := I_idle, wait_event := True, wait_function := None, wpc := W_returned ?g True\<rparr>) = W_returned ?g True"
    by (simp_all add: run_called_def)
  ultimately show ?thesis by blast
qed

end
