(* ===== verification/Py_Json.thy ===== *)
theory Py_Json
  imports Py_Dict Py_Str
begin

section \<open>JSON values as Python sees them\<close>

text \<open>
  What \<open>json.loads\<close> returns: an object is a dictionary with string keys in insertion
  order, a number that is not an integer is kept as a decimal mantissa and exponent.  The
  accessors raise what the Python operators raise on a value of the wrong type.
\<close>

datatype json =
    J_null
  | J_bool bool
  | J_int int
  | J_dec int int
  | J_str string
  | J_list "json list"
  | J_obj "(string \<times> json) list"

type_synonym jobj = "(string, json) dict"

fun j_truthy :: "json \<Rightarrow> bool" where
  "j_truthy J_null = False"
| "j_truthy (J_bool b) = b"
| "j_truthy (J_int i) = (i \<noteq> 0)"
| "j_truthy (J_dec m e) = (m \<noteq> 0)"
| "j_truthy (J_str s) = (s \<noteq> [])"
| "j_truthy (J_list xs) = (xs \<noteq> [])"
| "j_truthy (J_obj m) = (m \<noteq> [])"

text \<open>\<open>x[key]\<close> with a string key, \<open>x.get(key)\<close>, \<open>key in x\<close>, iteration and \<open>hash\<close>.\<close>

fun j_item :: "string \<Rightarrow> json \<Rightarrow> json res" where
  "j_item k (J_obj m) = dgetitem m k"
| "j_item k x = Inl Type_Error"

fun j_get :: "string \<Rightarrow> json \<Rightarrow> json res" where
  "j_get k (J_obj m) = Inr (case dget m k of None \<Rightarrow> J_null | Some v \<Rightarrow> v)"
| "j_get k x = Inl Attribute_Error"

fun j_contains :: "string \<Rightarrow> json \<Rightarrow> bool res" where
  "j_contains k (J_obj m) = Inr (dhas m k)"
| "j_contains k (J_list xs) = Inr (J_str k \<in> set xs)"
| "j_contains k (J_str s) = Inr (str_contains s k)"
| "j_contains k x = Inl Type_Error"

fun j_hashable :: "json \<Rightarrow> bool" where
  "j_hashable (J_list xs) = False"
| "j_hashable (J_obj m) = False"
| "j_hashable x = True"

fun j_set :: "string \<Rightarrow> json \<Rightarrow> json \<Rightarrow> json res" where
  "j_set k v (J_obj m) = Inr (J_obj (dset k v m))"
| "j_set k v x = Inl Type_Error"

fun j_as_str :: "json \<Rightarrow> string res" where
  "j_as_str (J_str s) = Inr s"
| "j_as_str x = Inl Attribute_Error"

text \<open>\<open>path = [k1, k2]\<close> for \<open>x[k1][k2]\<close>.\<close>

fun j_path :: "string list \<Rightarrow> json \<Rightarrow> json res" where
  "j_path [] x = Inr x"
| "j_path (k # ks) x = rbind (j_item k x) (j_path ks)"

text \<open>\<open>x[i]\<close>, \<open>len\<close>, iteration and \<open>get\<close> with a default.\<close>

fun j_index :: "nat \<Rightarrow> json \<Rightarrow> json res" where
  "j_index i (J_list xs) = (if i < length xs then Inr (xs ! i) else Inl Index_Error)"
| "j_index i (J_str s) = (if i < length s then Inr (J_str [s ! i]) else Inl Index_Error)"
| "j_index i (J_obj m) = Inl Key_Error"
| "j_index i x = Inl Type_Error"

fun j_len :: "json \<Rightarrow> nat res" where
  "j_len (J_list xs) = Inr (length xs)"
| "j_len (J_str s) = Inr (length s)"
| "j_len (J_obj m) = Inr (length m)"
| "j_len x = Inl Type_Error"

fun j_iter :: "json \<Rightarrow> json list res" where
  "j_iter (J_list xs) = Inr xs"
| "j_iter (J_obj m) = Inr (map (\<lambda>p. J_str (fst p)) m)"
| "j_iter (J_str s) = Inr (map (\<lambda>c. J_str [c]) s)"
| "j_iter v = Inl Type_Error"

definition j_get_or :: "string \<Rightarrow> json \<Rightarrow> json \<Rightarrow> json res" where
  "j_get_or k dflt v = (case v of J_obj m \<Rightarrow> Inr (case dget m k of None \<Rightarrow> dflt | Some x \<Rightarrow> x) | _ \<Rightarrow> Inl Attribute_Error)"

text \<open>Python's \<open>==\<close> of a JSON number with another value: integers, booleans and decimals compare by value.\<close>

fun j_number :: "json \<Rightarrow> (int \<times> int) option" where
  "j_number (J_int i) = Some (i, 0)"
| "j_number (J_bool b) = Some (if b then 1 else 0, 0)"
| "j_number (J_dec m e) = Some (m, e)"
| "j_number v = None"

definition j_eq :: "json \<Rightarrow> json \<Rightarrow> bool" where
  "j_eq a b =
     (case (j_number a, j_number b) of
        (Some (m, e), Some (n, f)) \<Rightarrow> m * 10 ^ nat (e - min e f) = n * 10 ^ nat (f - min e f)
      | _ \<Rightarrow> a = b)"

lemma j_item_Inr: "j_item k x = Inr v \<longleftrightarrow> (\<exists>m. x = J_obj m \<and> dget m k = Some v)"
  by (cases x) auto

lemma j_eq_refl [simp]: "j_eq v v"
  by (simp add: j_eq_def split: option.split prod.split)

end
