(* ===== verification/Py_Base64.thy ===== *)
theory Py_Base64
  imports Py_Bytes Py_Str
begin

section \<open>The base64 codec\<close>

text \<open>
  \<open>base64.b64encode\<close> and the decoding of its outputs: groups of three bytes become four
  characters of the alphabet, a last group of one or two bytes is padded.  The decoder is
  \<open>b64decode\<close> on strings of the alphabet with correct padding; on other strings it gives
  the error of a wrong padding.
\<close>

definition b64_alphabet :: string where
  "b64_alphabet = ''ABCDEFGHIJKLMNOPQRSTUVWXYZabcdefghijklmnopqrstuvwxyz0123456789+/''"

definition b64_char :: "nat \<Rightarrow> char" where
  "b64_char n = b64_alphabet ! n"

definition b64_value :: "char \<Rightarrow> nat option" where
  "b64_value c = (if c \<in> set b64_alphabet then Some (length (takeWhile (\<lambda>x. x \<noteq> c) b64_alphabet)) else None)"

fun b64_digits :: "nat list \<Rightarrow> string" where
  "b64_digits (a # b # c # bs) =
     b64_char (a div 4) # b64_char (a mod 4 * 16 + b div 16) # b64_char (b mod 16 * 4 + c div 64) #
       b64_char (c mod 64) # b64_digits bs"
| "b64_digits [a, b] =
     [b64_char (a div 4), b64_char (a mod 4 * 16 + b div 16), b64_char (b mod 16 * 4), CHR ''='']"
| "b64_digits [a] = [b64_char (a div 4), b64_char (a mod 4 * 16), CHR ''='', CHR ''='']"
| "b64_digits [] = []"

definition b64encode :: "bytes \<Rightarrow> string" where
  "b64encode bs = b64_digits (map unat bs)"

fun b64_bytes :: "string \<Rightarrow> nat list option" where
  "b64_bytes [] = Some []"
| "b64_bytes (w # x # y # z # cs) =
     (case (b64_value w, b64_value x) of
        (Some p, Some q) \<Rightarrow>
          if y = CHR ''='' then (if z = CHR ''='' \<and> cs = [] then Some [p * 4 + q div 16] else None)
          else (case b64_value y of
            None \<Rightarrow> None
          | Some r \<Rightarrow>
              if z = CHR ''='' then
                (if cs = [] then Some [p * 4 + q div 16, q mod 16 * 16 + r div 4] else None)
              else (case (b64_value z, b64_bytes cs) of
                (Some s, Some bs) \<Rightarrow>
                  Some ((p * 4 + q div 16) # (q mod 16 * 16 + r div 4) # (r mod 4 * 64 + s) # bs)
              | _ \<Rightarrow> None))
      | _ \<Rightarrow> None)"
| "b64_bytes cs = None"

definition b64decode :: "string \<Rightarrow> bytes res" where
  "b64decode s = (case b64_bytes s of None \<Rightarrow> Inl Value_Error | Some ns \<Rightarrow> Inr (map word_of_nat ns))"

lemma b64_value_char: "n < 64 \<Longrightarrow> b64_value (b64_char n) = Some n \<and> b64_char n \<noteq> CHR ''=''"
proof -
  assume n: "n < 64"
  have len: "length b64_alphabet = 64" by (simp add: b64_alphabet_def)
  have dist: "distinct b64_alphabet" by code_simp
  have pad: "CHR ''='' \<notin> set b64_alphabet" by code_simp
  let ?c = "b64_alphabet ! n"
  have mem: "?c \<in> set b64_alphabet" using n len by simp
  have "takeWhile (\<lambda>x. x \<noteq> ?c) b64_alphabet = take n b64_alphabet"
  proof (rule takeWhile_eq_take_P_nth)
    fix i assume "i < n" "i < length b64_alphabet"
    then show "b64_alphabet ! i \<noteq> ?c" using dist n len by (simp add: nth_eq_iff_index_eq)
  next
    assume "n < length b64_alphabet"
    then show "\<not> ?c \<noteq> ?c" by simp
  qed
  moreover from mem pad have "?c \<noteq> CHR ''=''" by metis
  ultimately show ?thesis using mem n len by (simp add: b64_value_def b64_char_def)
qed

lemma b64_roundtrip_nat: "\<forall>b \<in> set bs. b < 256 \<Longrightarrow> b64_bytes (b64_digits bs) = Some bs"
proof (induction bs rule: b64_digits.induct)
  case (1 a b c bs)
  have "a div 4 < 64" "a mod 4 * 16 + b div 16 < 64" "b mod 16 * 4 + c div 64 < 64" "c mod 64 < 64"
    using 1(2) by auto
  moreover have "a div 4 * 4 + (a mod 4 * 16 + b div 16) div 16 = a"
    "(a mod 4 * 16 + b div 16) mod 16 * 16 + (b mod 16 * 4 + c div 64) div 4 = b"
    "(b mod 16 * 4 + c div 64) mod 4 * 64 + c mod 64 = c"
    using 1(2) by auto
  ultimately show ?case using 1 by (simp add: b64_value_char)
next
  case (2 a b)
  have "a div 4 < 64" "a mod 4 * 16 + b div 16 < 64" "b mod 16 * 4 < 64" using 2 by auto
  moreover have "a div 4 * 4 + (a mod 4 * 16 + b div 16) div 16 = a"
    "(a mod 4 * 16 + b div 16) mod 16 * 16 + (b mod 16 * 4) div 4 = b"
    using 2 by auto
  ultimately show ?case by (simp add: b64_value_char)
next
  case (3 a)
  have "a div 4 < 64" "a mod 4 * 16 < 64" using 3 by auto
  then show ?case by (simp add: b64_value_char)
qed simp

lemma b64_roundtrip: "b64decode (b64encode bs) = Inr bs"
proof -
  have "\<forall>n \<in> set (map unat bs). n < 256"
  proof
    fix n assume "n \<in> set (map unat bs)"
    then obtain b :: "8 word" where "n = unat b" by auto
    then show "n < 256" using unsigned_less [of b] by simp
  qed
  then have "b64_bytes (b64encode bs) = Some (map unat bs)"
    unfolding b64encode_def by (rule b64_roundtrip_nat)
  then show ?thesis by (simp add: b64decode_def o_def)
qed

end
