(* ===== verification/Mocked_Response.thy ===== *)
theory Mocked_Response
  imports Py_Json Py_Base64
begin

section \<open>Mocked responses (\<open>utils/proxy/mocked_response.py\<close>)\<close>

text \<open>
  The proxy replaces responses of the agent, or answers in place of the backend, following
  mocks that the tests send as JSON.  A mock is a value of the datatype \<open>mocked\<close>, one
  constructor per class, with the attributes as JSON values; \<open>execute\<close> takes the mock and
  the flow and returns both updated.  The body of a message is the JSON value it holds, or
  bytes that are no JSON; the header collection of mitmproxy is the parameter \<open>http_lib\<close>.
\<close>

datatype body = B_json json | B_raw bytes | B_none

fun json_loads :: "body \<Rightarrow> json res" where
  "json_loads (B_json j) = Inr j"
| "json_loads (B_raw bs) = Inl Value_Error"
| "json_loads B_none = Inl Type_Error"

record 'h http_response =
  rs_status :: json
  rs_headers :: 'h
  rs_body :: body

record 'h flow =
  fl_request :: body
  fl_response :: "'h http_response option"

record 'h http_lib =
  set_header :: "string \<Rightarrow> json \<Rightarrow> 'h \<Rightarrow> 'h"
  make_headers :: "(string \<times> json) list \<Rightarrow> 'h"

datatype mocked =
    MockedTracer json json
  | InternalMockedTracer json json
  | StaticJson json json json
  | SequentialRemoteConfig json "(json, nat) dict"
  | SequentialJson json json nat
  | AddRemoteConfigEndpoint
  | RemoveMetaStructsSupport
  | SetSpanEventFlags json
  | SetClientDropP0s json
  | SetObfuscationVersion json
  | MockedBackend json bytes json json

definition rc_path :: string where "rc_path = ''/v0.7/config''"

definition json_content_type :: json where
  "json_content_type = J_obj [(''Content-Type'', J_str ''application/json'')]"

fun mock_path :: "mocked \<Rightarrow> json" where
  "mock_path (MockedTracer path headers) = path"
| "mock_path (InternalMockedTracer path headers) = path"
| "mock_path (StaticJson path j status) = path"
| "mock_path (SequentialRemoteConfig js counts) = J_str rc_path"
| "mock_path (SequentialJson path js n) = path"
| "mock_path (MockedBackend path content ctype status) = path"
| "mock_path _ = J_str ''/info''"

subsection \<open>The products of a remote configuration request\<close>

definition rfilter :: "('a \<Rightarrow> bool res) \<Rightarrow> 'a list \<Rightarrow> 'a list res" where
  "rfilter p xs =
     rbind (rmap (\<lambda>x. rbind (p x) (\<lambda>b. Inr (if b then [x] else []))) xs) (\<lambda>xss. Inr (concat xss))"

definition product_of :: "string \<Rightarrow> string res" where
  "product_of path =
     (let parts = str_split ''/'' path in
      if length parts < 3 then Inl Index_Error else Inr (parts ! (length parts - 3)))"

definition gate_targets :: "json list \<Rightarrow> json list \<Rightarrow> json list res" where
  "gate_targets kept target_files =
     rfilter (\<lambda>tf. rbind (j_get ''path'' tf) (\<lambda>p.
       if j_hashable p then Inr (p \<in> set kept) else Inl Type_Error)) target_files"

definition gate_configs :: "jobj \<Rightarrow> json list \<Rightarrow> json list \<Rightarrow> json res" where
  "gate_configs response client_configs products =
     (if \<not> list_all j_hashable products then Inl Type_Error
      else rbind (rfilter (\<lambda>path. rbind (j_as_str path) (\<lambda>s. rbind (product_of s) (\<lambda>p.
             Inr (J_str p \<in> set products)))) client_configs) (\<lambda>kept.
        if kept = client_configs then Inr (J_obj response)
        else
          let filtered = dset ''client_configs'' (J_list kept) response in
          (case dget response ''target_files'' of
             Some (J_list target_files) \<Rightarrow>
               rbind (gate_targets kept target_files) (\<lambda>tfs.
                 Inr (J_obj (dset ''target_files'' (J_list tfs) filtered)))
           | _ \<Rightarrow> Inr (J_obj filtered))))"

definition gate_rc_response_by_products :: "json \<Rightarrow> json \<Rightarrow> json res" where
  "gate_rc_response_by_products response request_content =
     (case response of
        J_obj m \<Rightarrow>
          (case dget m ''client_configs'' of
             Some (J_list client_configs) \<Rightarrow>
               (case j_path [''client'', ''products''] request_content of
                  Inr (J_list products) \<Rightarrow> gate_configs m client_configs products
                | Inr _ \<Rightarrow> Inr response
                | Inl Key_Error \<Rightarrow> Inr response
                | Inl Type_Error \<Rightarrow> Inr response
                | Inl e \<Rightarrow> Inl e)
           | _ \<Rightarrow> Inr response)
      | _ \<Rightarrow> Inr response)"

subsection \<open>\<open>execute\<close>\<close>

definition apply_headers :: "'h http_lib \<Rightarrow> json \<Rightarrow> 'h http_response \<Rightarrow> 'h http_response res" where
  "apply_headers H headers r =
     (case headers of
        J_null \<Rightarrow> Inr r
      | J_obj m \<Rightarrow> Inr (r\<lparr>rs_headers := fold (\<lambda>(k, v) h. set_header H k v h) m (rs_headers r)\<rparr>)
      | _ \<Rightarrow> Inl Attribute_Error)"

text \<open>\<open>MockedTracerResponse.execute\<close>: the status code and the headers.\<close>

definition base_execute :: "'h http_lib \<Rightarrow> json \<Rightarrow> json \<Rightarrow> 'h flow \<Rightarrow> 'h http_response res" where
  "base_execute H status headers f =
     rbind (of_option Attribute_Error (fl_response f)) (\<lambda>r.
       apply_headers H headers (r\<lparr>rs_status := status\<rparr>))"

definition with_response :: "'h flow \<Rightarrow> 'h http_response \<Rightarrow> 'h flow" where
  "with_response f r = f\<lparr>fl_response := Some r\<rparr>"

definition static_execute ::
  "'h http_lib \<Rightarrow> json \<Rightarrow> json \<Rightarrow> json \<Rightarrow> 'h flow \<Rightarrow> 'h flow res" where
  "static_execute H path mocked_json status f =
     rbind (base_execute H status json_content_type f) (\<lambda>r.
     rbind (case mocked_json of
         J_obj m \<Rightarrow>
           if path = J_str rc_path then
             (case json_loads (fl_request f) of
                Inr (J_obj c) \<Rightarrow> gate_rc_response_by_products mocked_json (J_obj c)
              | _ \<Rightarrow> Inr mocked_json)
           else Inr mocked_json
       | _ \<Rightarrow> Inr mocked_json) (\<lambda>response.
     Inr (with_response f (r\<lparr>rs_body := B_json response\<rparr>))))"

text \<open>
  The counters of the sequences: the index that is served and the counter afterwards.  The
  remote configuration mock counts per runtime id in a \<open>defaultdict(int)\<close>.
\<close>

definition advance :: "nat \<Rightarrow> nat \<Rightarrow> nat" where
  "advance limit n = (if n + 1 < limit then n + 1 else n)"

definition rc_serve :: "nat \<Rightarrow> json \<Rightarrow> (json, nat) dict \<Rightarrow> nat \<times> (json, nat) dict" where
  "rc_serve limit runtime_id counts =
     (let n = (case dget counts runtime_id of None \<Rightarrow> 0 | Some n \<Rightarrow> n)
      in (n, dset runtime_id (advance limit n) counts))"

definition seq_serve :: "nat \<Rightarrow> nat \<Rightarrow> nat \<times> nat" where
  "seq_serve limit request_count = (min request_count (limit - 1), advance limit request_count)"

definition rc_execute ::
  "'h http_lib \<Rightarrow> json \<Rightarrow> (json, nat) dict \<Rightarrow> 'h flow \<Rightarrow> ((json, nat) dict \<times> 'h flow) res" where
  "rc_execute H mocked_json_sequence counts f =
     rbind (base_execute H (J_int 200) json_content_type f) (\<lambda>r.
     rbind (json_loads (fl_request f)) (\<lambda>request_content.
     rbind (j_path [''client'', ''client_tracer'', ''runtime_id''] request_content) (\<lambda>runtime_id.
     if \<not> j_hashable runtime_id then Inl Type_Error
     else
       rbind (j_len mocked_json_sequence) (\<lambda>limit.
       let (nth_api_command, counts') = rc_serve limit runtime_id counts in
       rbind (j_index nth_api_command mocked_json_sequence) (\<lambda>item.
       rbind (gate_rc_response_by_products item request_content) (\<lambda>response.
         Inr (counts', with_response f (r\<lparr>rs_body := B_json response,
             rs_headers := set_header H ''st-proxy-overwrite-rc-response''
               (J_str (str_of_int (int nth_api_command))) (rs_headers r)\<rparr>))))))))"

text \<open>Python's \<open>xs[-1]\<close> on an empty list raises as well: index 0 stands for it.\<close>

definition sequential_execute ::
  "'h http_lib \<Rightarrow> json \<Rightarrow> nat \<Rightarrow> 'h flow \<Rightarrow> (nat \<times> 'h flow) res" where
  "sequential_execute H mocked_json_sequence request_count f =
     rbind (base_execute H (J_int 200) json_content_type f) (\<lambda>r.
     rbind (j_len mocked_json_sequence) (\<lambda>limit.
     let (idx, request_count') = seq_serve limit request_count in
     rbind (j_index idx mocked_json_sequence) (\<lambda>response.
       Inr (request_count', with_response f (r\<lparr>rs_body := B_json response,
           rs_headers := set_header H ''st-proxy-sequential-response-idx''
             (J_str (str_of_int (int idx))) (rs_headers r)\<rparr>)))))"

text \<open>The mocks of \<open>/info\<close>: they rewrite the body of a successful response.\<close>

definition info_execute :: "(json \<Rightarrow> json option res) \<Rightarrow> 'h flow \<Rightarrow> 'h flow res" where
  "info_execute rewrite f =
     rbind (of_option Attribute_Error (fl_response f)) (\<lambda>r.
       if rs_status r = J_int 200 then
         rbind (json_loads (rs_body r)) (\<lambda>c. rbind (rewrite c) (\<lambda>c'.
           Inr (case c' of None \<Rightarrow> f | Some x \<Rightarrow> with_response f (r\<lparr>rs_body := B_json x\<rparr>))))
       else Inr f)"

definition add_endpoint :: "json \<Rightarrow> json option res" where
  "add_endpoint content =
     rbind (j_item ''endpoints'' content) (\<lambda>endpoints.
     rbind (j_contains rc_path endpoints) (\<lambda>present.
       if present then Inr None
       else case endpoints of
         J_list xs \<Rightarrow> rbind (j_set ''endpoints'' (J_list (xs @ [J_str rc_path])) content) (\<lambda>c. Inr (Some c))
       | _ \<Rightarrow> Inl Attribute_Error))"

definition remove_meta_structs :: "json \<Rightarrow> json option res" where
  "remove_meta_structs c =
     rbind (j_contains ''span_meta_structs'' c) (\<lambda>present.
       if \<not> present then Inr None
       else case c of
         J_obj m \<Rightarrow> Inr (Some (J_obj (ddel ''span_meta_structs'' m)))
       | J_list _ \<Rightarrow> Inl Type_Error
       | _ \<Rightarrow> Inl Attribute_Error)"

definition set_field :: "string \<Rightarrow> json \<Rightarrow> json \<Rightarrow> json option res" where
  "set_field key v c = rbind (j_set key v c) (\<lambda>c'. Inr (Some c'))"

definition set_obfuscation :: "json \<Rightarrow> json \<Rightarrow> json option res" where
  "set_obfuscation v c =
     (if v = J_str ''MISSING'' then
        (case c of
           J_obj m \<Rightarrow> if dhas m ''obfuscation_version'' then Inr (Some (J_obj (ddel ''obfuscation_version'' m)))
                     else Inl Key_Error
         | _ \<Rightarrow> Inl Type_Error)
      else set_field ''obfuscation_version'' v c)"

definition backend_execute :: "'h http_lib \<Rightarrow> bytes \<Rightarrow> json \<Rightarrow> json \<Rightarrow> 'h flow \<Rightarrow> 'h flow" where
  "backend_execute H content ctype status f =
     with_response f \<lparr>rs_status = status, rs_headers = make_headers H [(''Content-Type'', ctype)],
       rs_body = B_raw content\<rparr>"

fun execute :: "'h http_lib \<Rightarrow> mocked \<Rightarrow> 'h flow \<Rightarrow> (mocked \<times> 'h flow) res" where
  "execute H (MockedTracer path headers) f =
     rbind (base_execute H (J_int 200) headers f) (\<lambda>r. Inr (MockedTracer path headers, with_response f r))"
| "execute H (InternalMockedTracer path headers) f =
     rbind (base_execute H (J_int 200) headers f) (\<lambda>r.
       Inr (InternalMockedTracer path headers, with_response f r))"
| "execute H (StaticJson path j status) f =
     rbind (static_execute H path j status f) (\<lambda>f'. Inr (StaticJson path j status, f'))"
| "execute H (SequentialRemoteConfig js counts) f =
     rbind (rc_execute H js counts f) (\<lambda>(counts', f'). Inr (SequentialRemoteConfig js counts', f'))"
| "execute H (SequentialJson path js n) f =
     rbind (sequential_execute H js n f) (\<lambda>(n', f'). Inr (SequentialJson path js n', f'))"
| "execute H AddRemoteConfigEndpoint f =
     rbind (info_execute add_endpoint f) (\<lambda>f'. Inr (AddRemoteConfigEndpoint, f'))"
| "execute H RemoveMetaStructsSupport f =
     rbind (info_execute remove_meta_structs f) (\<lambda>f'. Inr (RemoveMetaStructsSupport, f'))"
| "execute H (SetSpanEventFlags v) f =
     rbind (info_execute (set_field ''span_events'' v) f) (\<lambda>f'. Inr (SetSpanEventFlags v, f'))"
| "execute H (SetClientDropP0s v) f =
     rbind (info_execute (set_field ''client_drop_p0s'' v) f) (\<lambda>f'. Inr (SetClientDropP0s v, f'))"
| "execute H (SetObfuscationVersion v) f =
     rbind (info_execute (set_obfuscation v) f) (\<lambda>f'. Inr (SetObfuscationVersion v, f'))"
| "execute H (MockedBackend path content ctype status) f =
     Inr (MockedBackend path content ctype status, backend_execute H content ctype status f)"

subsection \<open>\<open>to_json\<close> and \<open>from_dict\<close>\<close>

fun to_json :: "mocked \<Rightarrow> jobj" where
  "to_json (MockedTracer path headers) =
     [(''type'', J_str ''MockedTracerResponse''), (''path'', path), (''mocked_headers'', headers)]"
| "to_json (InternalMockedTracer path headers) = [(''type'', J_str ''_InternalMockedTracerResponse'')]"
| "to_json (StaticJson path j status) =
     [(''type'', J_str ''StaticJsonMockedTracerResponse''), (''path'', path), (''mocked_json'', j),
      (''status_code'', status)]"
| "to_json (SequentialRemoteConfig js counts) =
     [(''type'', J_str ''SequentialRemoteConfigJsonMockedTracerResponse''), (''mocked_json_sequence'', js)]"
| "to_json (SequentialJson path js n) =
     [(''type'', J_str ''SequentialJsonMockedTracerResponse''), (''path'', path),
      (''mocked_json_sequence'', js)]"
| "to_json AddRemoteConfigEndpoint = [(''type'', J_str ''AddRemoteConfigEndpoint'')]"
| "to_json RemoveMetaStructsSupport = [(''type'', J_str ''RemoveMetaStructsSupport'')]"
| "to_json (SetSpanEventFlags v) = [(''type'', J_str ''SetSpanEventFlags''), (''span_events'', v)]"
| "to_json (SetClientDropP0s v) = [(''type'', J_str ''SetClientDropP0s''), (''client_drop_p0s'', v)]"
| "to_json (SetObfuscationVersion v) =
     [(''type'', J_str ''SetObfuscationVersion''), (''obfuscation_version'', v)]"
| "to_json (MockedBackend path content ctype status) =
     [(''type'', J_str ''MockedBackendResponse''), (''path'', path),
      (''content'', J_str (b64encode content)), (''content_type'', ctype), (''status_code'', status)]"

text \<open>
  \<open>cls(**source)\<close>: the parameters of the constructor with their defaults; an argument that
  is missing or unknown is a \<open>TypeError\<close>.
\<close>

definition kwargs :: "(string \<times> json option) list \<Rightarrow> jobj \<Rightarrow> json list res" where
  "kwargs params source =
     (if \<not> list_all (\<lambda>k. k \<in> set (map fst params)) (dkeys source) then Inl Type_Error
      else rmap (\<lambda>(p, default). of_option Type_Error
        (case dget source p of None \<Rightarrow> default | Some v \<Rightarrow> Some v)) params)"

definition from_json :: "string \<Rightarrow> jobj \<Rightarrow> mocked res" where
  "from_json cls source =
     (let build = (\<lambda>params f. rbind (kwargs params source) (\<lambda>args. Inr (f args))) in
      if cls = ''MockedTracerResponse'' then
        build [(''path'', None), (''mocked_headers'', Some J_null)] (\<lambda>a. MockedTracer (a ! 0) (a ! 1))
      else if cls = ''_InternalMockedTracerResponse'' then
        build [(''path'', None), (''mocked_headers'', Some J_null)] (\<lambda>a. InternalMockedTracer (a ! 0) (a ! 1))
      else if cls = ''StaticJsonMockedTracerResponse'' then
        build [(''path'', None), (''mocked_json'', None), (''status_code'', Some (J_int 200))]
          (\<lambda>a. StaticJson (a ! 0) (a ! 1) (a ! 2))
      else if cls = ''SequentialRemoteConfigJsonMockedTracerResponse'' then
        build [(''mocked_json_sequence'', None)] (\<lambda>a. SequentialRemoteConfig (a ! 0) [])
      else if cls = ''SequentialJsonMockedTracerResponse'' then
        build [(''path'', None), (''mocked_json_sequence'', None)] (\<lambda>a. SequentialJson (a ! 0) (a ! 1) 0)
      else if cls = ''AddRemoteConfigEndpoint'' then build [] (\<lambda>a. AddRemoteConfigEndpoint)
      else if cls = ''RemoveMetaStructsSupport'' then build [] (\<lambda>a. RemoveMetaStructsSupport)
      else if cls = ''SetSpanEventFlags'' then build [(''span_events'', None)] (\<lambda>a. SetSpanEventFlags (a ! 0))
      else if cls = ''SetClientDropP0s'' then build [(''client_drop_p0s'', None)] (\<lambda>a. SetClientDropP0s (a ! 0))
      else if cls = ''SetObfuscationVersion'' then
        build [(''obfuscation_version'', None)] (\<lambda>a. SetObfuscationVersion (a ! 0))
      else Inl Value_Error)"

definition backend_from_json :: "jobj \<Rightarrow> mocked res" where
  "backend_from_json source =
     rbind (dgetitem source ''content'') (\<lambda>c.
     rbind (case c of J_str s \<Rightarrow> b64decode s | _ \<Rightarrow> Inl Type_Error) (\<lambda>content.
     rbind (kwargs [(''path'', None), (''content'', None),
         (''content_type'', Some (J_str ''application/x-protobuf'')), (''status_code'', Some (J_int 200))] source)
       (\<lambda>a. Inr (MockedBackend (a ! 0) content (a ! 2) (a ! 3)))))"

text \<open>The class the factory is called on: the mocks of the tracer or those of the backend.\<close>

datatype factory = Tracer_factory | Backend_factory

definition from_dict :: "factory \<Rightarrow> jobj \<Rightarrow> mocked res" where
  "from_dict factory source =
     rbind (dgetitem source ''type'') (\<lambda>mocked_response_type.
       let rest = ddel ''type'' source in
       case (factory, mocked_response_type) of
         (Tracer_factory, J_str cls) \<Rightarrow> from_json cls rest
       | (Backend_factory, J_str cls) \<Rightarrow>
           if cls = ''MockedBackendResponse'' then backend_from_json rest else Inl Value_Error
       | _ \<Rightarrow> Inl Value_Error)"

definition from_dicts :: "factory \<Rightarrow> jobj list \<Rightarrow> mocked list res" where
  "from_dicts factory = rmap (from_dict factory)"

subsection \<open>Sequences that stay at their last element\<close>

text \<open>
  The contract of a counted sequence: which element is served to whom.  Both sequential
  mocks provide it, the one with a counter per runtime id, the other with one counter.
\<close>

locale replayed_sequence =
  fixes position :: "'s \<Rightarrow> 'k \<Rightarrow> nat"
    and serve :: "'k \<Rightarrow> 's \<Rightarrow> nat \<times> 's"
    and limit :: nat
    and ok :: "'s \<Rightarrow> bool"
  assumes served_position: "ok s \<Longrightarrow> fst (serve k s) = position s k"
    and next_position: "ok s \<Longrightarrow> position (snd (serve k s)) k' =
      (if k' = k then min (position s k + 1) (limit - 1) else position s k')"
    and ok_serve: "ok s \<Longrightarrow> ok (snd (serve k s))"
    and position_bound: "ok s \<Longrightarrow> position s k \<le> limit - 1"
begin

fun served :: "'s \<Rightarrow> 'k list \<Rightarrow> nat list" where
  "served s [] = []"
| "served s (k # ks) = fst (serve k s) # served (snd (serve k s)) ks"

lemma served_nth:
  "ok s \<Longrightarrow> i < length ks \<Longrightarrow>
     served s ks ! i = min (position s (ks ! i) + count_list (take i ks) (ks ! i)) (limit - 1)"
proof (induction ks arbitrary: s i)
  case (Cons k ks)
  show ?case
  proof (cases i)
    case 0
    with Cons.prems served_position position_bound show ?thesis by (simp add: min_absorb1)
  next
    case (Suc j)
    have "min (min a (limit - 1) + b) (limit - 1) = min (a + b) (limit - 1)" for a b
      by (simp add: min_def)
    with Suc Cons.prems ok_serve Cons.IH [of "snd (serve k s)" j] next_position show ?thesis by auto
  qed
qed simp

lemma length_served [simp]: "length (served s ks) = length ks"
  by (induction ks arbitrary: s) auto

end

definition rc_position :: "(json, nat) dict \<Rightarrow> json \<Rightarrow> nat" where
  "rc_position counts k = (case dget counts k of None \<Rightarrow> 0 | Some n \<Rightarrow> n)"

definition rc_ok :: "nat \<Rightarrow> (json, nat) dict \<Rightarrow> bool" where
  "rc_ok limit counts \<longleftrightarrow> (\<forall>k n. dget counts k = Some n \<longrightarrow> n \<le> limit - 1)"

interpretation rcs: replayed_sequence rc_position "rc_serve limit" limit "rc_ok limit" for limit
proof unfold_locales
  fix s :: "(json, nat) dict" and k k' :: json
  assume ok: "rc_ok limit s"
  then have bound: "rc_position s k \<le> limit - 1" for k
    by (auto simp: rc_ok_def rc_position_def split: option.splits)
  show "rc_position s k \<le> limit - 1" by (rule bound)
  show "fst (rc_serve limit k s) = rc_position s k"
    by (simp add: rc_serve_def rc_position_def Let_def)
  have step: "dget (snd (rc_serve limit k s)) k'' =
      (if k'' = k then Some (min (rc_position s k + 1) (limit - 1)) else dget s k'')" for k''
    using bound [of k] by (auto simp: rc_serve_def rc_position_def Let_def advance_def)
  then show "rc_position (snd (rc_serve limit k s)) k' =
      (if k' = k then min (rc_position s k + 1) (limit - 1) else rc_position s k')"
    by (simp add: rc_position_def)
  show "rc_ok limit (snd (rc_serve limit k s))"
    using ok step by (auto simp: rc_ok_def split: if_splits)
qed

interpretation sqs: replayed_sequence "\<lambda>n (k :: unit). n" "\<lambda>(k :: unit). seq_serve limit" limit "\<lambda>n. n \<le> limit - 1"
  for limit
  by unfold_locales (auto simp: seq_serve_def advance_def)

fun execute_all :: "'h http_lib \<Rightarrow> mocked \<Rightarrow> 'h flow list \<Rightarrow> (mocked \<times> 'h flow list) res" where
  "execute_all H m [] = Inr (m, [])"
| "execute_all H m (f # fs) = rbind (execute H m f) (\<lambda>(m', f').
     rbind (execute_all H m' fs) (\<lambda>(m'', fs'). Inr (m'', f' # fs')))"

definition response_body :: "'h flow \<Rightarrow> body" where
  "response_body f = (case fl_response f of None \<Rightarrow> B_none | Some r \<Rightarrow> rs_body r)"

text \<open>A request of a client: its content and its runtime id.\<close>

definition rc_request :: "'h flow \<Rightarrow> json \<Rightarrow> json \<Rightarrow> bool" where
  "rc_request f c rid \<longleftrightarrow> fl_response f \<noteq> None \<and> fl_request f = B_json c \<and>
     j_path [''client'', ''client_tracer'', ''runtime_id''] c = Inr rid \<and> j_hashable rid"

lemma rc_execute_step:
  assumes "rc_request f c rid" and "rc_ok (length xs) counts" and "xs \<noteq> []"
    and "gate_rc_response_by_products (xs ! rc_position counts rid) c = Inr g"
  shows "\<exists>f'. execute H (SequentialRemoteConfig (J_list xs) counts) f =
      Inr (SequentialRemoteConfig (J_list xs) (snd (rc_serve (length xs) rid counts)), f') \<and>
    response_body f' = B_json g"
proof -
  have "rc_position counts rid < length xs"
    using rcs.position_bound [OF assms(2), of rid] assms(3) by (cases xs) auto
  then have idx: "j_index (rc_position counts rid) (J_list xs) = Inr (xs ! rc_position counts rid)"
    by simp
  from assms(1) obtain r where "base_execute H (J_int 200) json_content_type f = Inr r"
    by (auto simp: rc_request_def base_execute_def apply_headers_def json_content_type_def)
  then show ?thesis
    using assms(1,4) idx rcs.served_position [OF assms(2), of rid]
    by (simp add: rc_execute_def rc_request_def split_def Let_def response_body_def with_response_def
        del: j_path.simps j_index.simps)
qed

lemma rc_execute_all:
  assumes "list_all2 (\<lambda>f (c, rid). rc_request f c rid) fs reqs" and "rc_ok (length xs) counts"
    and "xs \<noteq> []"
    and "\<And>x c rid. x \<in> set xs \<Longrightarrow> (c, rid) \<in> set reqs \<Longrightarrow> gate_rc_response_by_products x c = Inr (g x c)"
  shows "\<exists>m' fs'. execute_all H (SequentialRemoteConfig (J_list xs) counts) fs = Inr (m', fs') \<and>
    map response_body fs' = map2 (\<lambda>(c, rid) i. B_json (g (xs ! i) c)) reqs
      (rcs.served (length xs) counts (map snd reqs))"
  using assms
proof (induction fs arbitrary: reqs counts)
  case (Cons f fs)
  then obtain c rid reqs' where reqs: "reqs = (c, rid) # reqs'" and req: "rc_request f c rid"
    and rest: "list_all2 (\<lambda>f (c, rid). rc_request f c rid) fs reqs'"
    by (cases reqs) auto
  let ?counts = "snd (rc_serve (length xs) rid counts)"
  have "rc_position counts rid < length xs"
    using rcs.position_bound [OF Cons.prems(2), of rid] Cons.prems(3) by (cases xs) auto
  then have "gate_rc_response_by_products (xs ! rc_position counts rid) c = Inr (g (xs ! rc_position counts rid) c)"
    using Cons.prems(4) [of _ c rid] by (simp add: reqs)
  from rc_execute_step [OF req Cons.prems(2,3) this, of H] obtain f' where
    f': "execute H (SequentialRemoteConfig (J_list xs) counts) f = Inr (SequentialRemoteConfig (J_list xs) ?counts, f')"
      "response_body f' = B_json (g (xs ! rc_position counts rid) c)" by blast
  have "\<exists>m' fs'. execute_all H (SequentialRemoteConfig (J_list xs) ?counts) fs = Inr (m', fs') \<and>
      map response_body fs' = map2 (\<lambda>(c, rid) i. B_json (g (xs ! i) c)) reqs'
        (rcs.served (length xs) ?counts (map snd reqs'))"
    using Cons.prems by (intro Cons.IH rest rcs.ok_serve) (auto simp: reqs)
  with f' show ?case
    using rcs.served_position [OF Cons.prems(2), of rid] by (auto simp: reqs)
qed simp

text \<open>
  C32.  The remote configuration mock replays its sequence to each client separately: the
  \<open>i\<close>-th request gets the element numbered by the earlier requests of the same runtime id,
  and the last element from then on, restricted to the products the client subscribed to.
\<close>

theorem remote_config_replay:
  assumes "list_all2 (\<lambda>f (c, rid). rc_request f c rid) fs reqs" and "xs \<noteq> []"
    and "\<And>x c rid. x \<in> set xs \<Longrightarrow> (c, rid) \<in> set reqs \<Longrightarrow> gate_rc_response_by_products x c = Inr (g x c)"
  shows "\<exists>m' fs'. execute_all H (SequentialRemoteConfig (J_list xs) []) fs = Inr (m', fs') \<and>
    length fs' = length fs \<and>
    (\<forall>i < length fs. response_body (fs' ! i) = B_json (g (xs !
       min (count_list (map snd (take i reqs)) (snd (reqs ! i))) (length xs - 1)) (fst (reqs ! i))))"
proof -
  have ok: "rc_ok (length xs) []" by (simp add: rc_ok_def)
  have "\<exists>m' fs'. execute_all H (SequentialRemoteConfig (J_list xs) []) fs = Inr (m', fs') \<and>
    map response_body fs' = map2 (\<lambda>(c, rid) i. B_json (g (xs ! i) c)) reqs
      (rcs.served (length xs) [] (map snd reqs))"
    by (rule rc_execute_all [OF assms(1) ok assms(2)]) (rule assms(3))
  then obtain m' fs' where
    run: "execute_all H (SequentialRemoteConfig (J_list xs) []) fs = Inr (m', fs')"
    and bodies: "map response_body fs' = map2 (\<lambda>(c, rid) i. B_json (g (xs ! i) c)) reqs
      (rcs.served (length xs) [] (map snd reqs))" by blast
  have len: "length fs' = length reqs" "length fs = length reqs"
    using arg_cong [OF bodies, of length] assms(1) by (auto simp: list_all2_lengthD)
  have "response_body (fs' ! i) = B_json (g (xs !
      min (count_list (map snd (take i reqs)) (snd (reqs ! i))) (length xs - 1)) (fst (reqs ! i)))"
    if i: "i < length fs" for i
  proof -
    have "rcs.served (length xs) [] (map snd reqs) ! i =
        min (count_list (map snd (take i reqs)) (snd (reqs ! i))) (length xs - 1)"
      using rcs.served_nth [OF ok, of i "map snd reqs"] i len by (simp add: take_map rc_position_def)
    moreover have "response_body (fs' ! i) = map response_body fs' ! i" using i len by simp
    ultimately show ?thesis unfolding bodies using i len by (simp add: split_def)
  qed
  with run len show ?thesis by auto
qed

text \<open>Concrete clients for the witnesses: the headers are a list of pairs.\<close>

definition sample_http :: "(string \<times> json) list http_lib" where
  "sample_http = \<lparr>set_header = (\<lambda>k v h. dset k v h), make_headers = id\<rparr>"

definition sample_content :: "string \<Rightarrow> json" where
  "sample_content rid = J_obj [(''client'', J_obj [(''client_tracer'', J_obj [(''runtime_id'', J_str rid)]),
     (''products'', J_list [J_str ''ASM''])])]"

definition sample_flow :: "string \<Rightarrow> (string \<times> json) list flow" where
  "sample_flow rid = \<lparr>fl_request = B_json (sample_content rid),
     fl_response = Some \<lparr>rs_status = J_int 404, rs_headers = [], rs_body = B_none\<rparr>\<rparr>"

lemma remote_config_replay_witness:
  "\<exists>m' fs'. execute_all sample_http (SequentialRemoteConfig (J_list [J_obj [], J_str ''last'']) [])
     [sample_flow ''a'', sample_flow ''b'', sample_flow ''a''] = Inr (m', fs') \<and>
     map response_body fs' = [B_json (J_obj []), B_json (J_obj []), B_json (J_str ''last'')]"
proof -
  let ?reqs = "[(sample_content ''a'', J_str ''a''), (sample_content ''b'', J_str ''b''),
    (sample_content ''a'', J_str ''a'')]"
  let ?xs = "[J_obj [], J_str ''last'']"
  have "\<exists>m' fs'. execute_all sample_http (SequentialRemoteConfig (J_list ?xs) [])
      [sample_flow ''a'', sample_flow ''b'', sample_flow ''a''] = Inr (m', fs') \<and>
    length fs' = length [sample_flow ''a'', sample_flow ''b'', sample_flow ''a''] \<and>
    (\<forall>i < length [sample_flow ''a'', sample_flow ''b'', sample_flow ''a'']. response_body (fs' ! i) = B_json (?xs !
       min (count_list (map snd (take i ?reqs)) (snd (?reqs ! i))) (length ?xs - 1)))"
    by (rule remote_config_replay [where g = "\<lambda>x c. x"])
      (auto simp: rc_request_def sample_flow_def sample_content_def gate_rc_response_by_products_def dgetitem_def)
  then obtain m' fs' where run: "execute_all sample_http (SequentialRemoteConfig (J_list ?xs) [])
      [sample_flow ''a'', sample_flow ''b'', sample_flow ''a''] = Inr (m', fs')"
    and len: "length fs' = 3"
    and body: "\<forall>i < 3. response_body (fs' ! i) = B_json (?xs !
       min (count_list (map snd (take i ?reqs)) (snd (?reqs ! i))) (length ?xs - 1))"
    by auto
  from len obtain x y z where fs: "fs' = [x, y, z]"
    by (auto simp: numeral_3_eq_3 length_Suc_conv)
  have "map response_body fs' = [B_json (J_obj []), B_json (J_obj []), B_json (J_str ''last'')]"
    using body [rule_format, of 0] body [rule_format, of 1] body [rule_format, of 2] by (simp add: fs)
  with run show ?thesis by (intro exI [of _ m'] exI [of _ fs'] conjI)
qed

subsection \<open>What the product gate keeps\<close>

lemma rfilter_total:
  "(\<And>x. x \<in> set xs \<Longrightarrow> p x = Inr (q x)) \<Longrightarrow> rfilter p xs = Inr (filter q xs)"
  unfolding rfilter_def by (induction xs) (auto split: sum.splits simp: rbind_Inr_iff)

definition product :: "string \<Rightarrow> string" where
  "product path = (let parts = str_split ''/'' path in parts ! (length parts - 3))"

definition subscribed :: "json list \<Rightarrow> json \<Rightarrow> bool" where
  "subscribed products path = (case path of J_str s \<Rightarrow> J_str (product s) \<in> set products | _ \<Rightarrow> False)"

definition target_path :: "json \<Rightarrow> json" where
  "target_path tf = (case tf of J_obj m \<Rightarrow> (case dget m ''path'' of None \<Rightarrow> J_null | Some p \<Rightarrow> p) | _ \<Rightarrow> J_null)"

text \<open>A response as the tests build them: paths of at least three parts, targets with a path.\<close>

definition rc_response :: "jobj \<Rightarrow> json list \<Rightarrow> json list \<Rightarrow> bool" where
  "rc_response m configs targets \<longleftrightarrow>
     dget m ''client_configs'' = Some (J_list configs) \<and> dget m ''target_files'' = Some (J_list targets) \<and>
     (\<forall>p \<in> set configs. \<exists>s. p = J_str s \<and> 3 \<le> length (str_split ''/'' s)) \<and>
     (\<forall>t \<in> set targets. \<exists>tm s. t = J_obj tm \<and> dget tm ''path'' = Some (J_str s))"

text \<open>The response to a client holds exactly the configurations of the products it
  subscribed to, in order, and the target files of exactly these (unless nothing had to be
  removed, in which case the response is sent as it is); every other field is untouched.
\<close>

theorem gate_keeps_subscribed:
  assumes "rc_response m configs targets"
    and "j_path [''client'', ''products''] c = Inr (J_list products)" and "list_all j_hashable products"
  defines "kept \<equiv> filter (subscribed products) configs"
  shows "\<exists>m'. gate_rc_response_by_products (J_obj m) c = Inr (J_obj m') \<and>
    dget m' ''client_configs'' = Some (J_list kept) \<and>
    dget m' ''target_files'' = Some (J_list
      (if kept = configs then targets else filter (\<lambda>t. target_path t \<in> set kept) targets)) \<and>
    (\<forall>k. k \<notin> {''client_configs'', ''target_files''} \<longrightarrow> dget m' k = dget m k)"
proof -
  have configs: "rfilter (\<lambda>path. rbind (j_as_str path) (\<lambda>s. rbind (product_of s) (\<lambda>p.
      Inr (J_str p \<in> set products)))) configs = Inr kept"
    unfolding kept_def
  proof (rule rfilter_total)
    fix x assume "x \<in> set configs"
    with assms(1) obtain s where "x = J_str s" "3 \<le> length (str_split ''/'' s)"
      by (auto simp: rc_response_def)
    then show "rbind (j_as_str x) (\<lambda>s. rbind (product_of s) (\<lambda>p. Inr (J_str p \<in> set products))) =
        Inr (subscribed products x)"
      by (simp add: product_of_def subscribed_def product_def Let_def)
  qed
  have targets: "gate_targets kept targets = Inr (filter (\<lambda>t. target_path t \<in> set kept) targets)"
    unfolding gate_targets_def using assms(1)
    by (intro rfilter_total) (auto simp: rc_response_def target_path_def)
  have gate: "gate_configs m configs products = Inr (J_obj (if kept = configs then m else
      dset ''target_files'' (J_list (filter (\<lambda>t. target_path t \<in> set kept) targets))
        (dset ''client_configs'' (J_list kept) m)))"
    using assms(1,3) by (simp add: gate_configs_def configs targets rc_response_def Let_def)
  have "gate_rc_response_by_products (J_obj m) c = gate_configs m configs products"
    using assms(1,2) by (simp add: gate_rc_response_by_products_def rc_response_def del: j_path.simps)
  with gate assms(1) show ?thesis by (auto simp: rc_response_def)
qed

lemma gate_keeps_subscribed_witness:
  "\<exists>m'. gate_rc_response_by_products (J_obj [(''client_configs'', J_list [J_str ''datadog/2/ASM/a/b'',
      J_str ''datadog/2/LIVE_DEBUGGING/a/b'']), (''target_files'', J_list [])]) (sample_content ''r'') = Inr (J_obj m') \<and>
     dget m' ''client_configs'' = Some (J_list [J_str ''datadog/2/ASM/a/b''])"
proof -
  let ?configs = "[J_str ''datadog/2/ASM/a/b'', J_str ''datadog/2/LIVE_DEBUGGING/a/b'']"
  let ?m = "[(''client_configs'', J_list ?configs), (''target_files'', J_list [])]"
  have split: "str_split ''/'' ''datadog/2/ASM/a/b'' = [''datadog'', ''2'', ''ASM'', ''a'', ''b'']"
    "str_split ''/'' ''datadog/2/LIVE_DEBUGGING/a/b'' = [''datadog'', ''2'', ''LIVE_DEBUGGING'', ''a'', ''b'']"
    by code_simp+
  have "rc_response ?m ?configs []" by (simp add: rc_response_def split)
  moreover have "j_path [''client'', ''products''] (sample_content ''r'') = Inr (J_list [J_str ''ASM''])"
    by (simp add: sample_content_def dgetitem_def)
  moreover have "filter (subscribed [J_str ''ASM'']) ?configs = [J_str ''datadog/2/ASM/a/b'']"
    by (simp add: subscribed_def product_def split)
  ultimately show ?thesis
    using gate_keeps_subscribed [of ?m ?configs "[]" "sample_content ''r''" "[J_str ''ASM'']"] by auto
qed

subsection \<open>Serialization\<close>

definition factory_of :: "mocked \<Rightarrow> factory" where
  "factory_of m = (case m of MockedBackend _ _ _ _ \<Rightarrow> Backend_factory | _ \<Rightarrow> Tracer_factory)"

fun fresh :: "mocked \<Rightarrow> mocked" where
  "fresh (SequentialRemoteConfig js counts) = SequentialRemoteConfig js []"
| "fresh (SequentialJson path js n) = SequentialJson path js 0"
| "fresh m = m"

text \<open>A mock sent to the proxy arrives as it is: building it from its JSON form gives the
  same mock with its counters at zero, for every class, the bytes of a backend response
  included.  The one exception is the base class of the internal mocks, whose JSON form
  lacks its path.
\<close>

theorem mocked_roundtrip:
  "from_dict (factory_of m) (to_json m) =
     (case m of InternalMockedTracer _ _ \<Rightarrow> Inl Type_Error | _ \<Rightarrow> Inr (fresh m))"
  by (cases m)
    (simp_all add: from_dict_def factory_of_def from_json_def backend_from_json_def kwargs_def dkeys_def
      ddel_def b64_roundtrip Let_def dgetitem_def)

end
