(* ===== verification/Py_Fnmatch.thy ===== *)
theory Py_Fnmatch
  imports Py_Re
begin

section \<open>Shell patterns: \<open>fnmatch\<close>\<close>

text \<open>
  \<open>fnmatch.fnmatch\<close> on a POSIX system: the pattern is translated to a regular expression in
  which the dot matches every character.
\<close>

text \<open>The members of a bracket expression: single characters and ranges, from left to right.\<close>

fun bracket_member :: "string \<Rightarrow> char \<Rightarrow> bool" where
  "bracket_member [] x = False"
| "bracket_member [a] x = (x = a)"
| "bracket_member [a, b] x = (x = a \<or> x = b)"
| "bracket_member (a # d # b # cs) x =
     (if d = CHR ''-'' then
        (of_char a \<le> (of_char x :: nat) \<and> of_char x \<le> (of_char b :: nat)) \<or> bracket_member cs x
      else x = a \<or> bracket_member (d # b # cs) x)"

text \<open>
  The text between the brackets and what follows them: a \<open>]\<close> that comes first (after a
  possible \<open>!\<close>) is a member; \<open>None\<close> when there is no closing bracket.
\<close>

definition bracket_split :: "string \<Rightarrow> (string \<times> string) option" where
  "bracket_split s =
     (let n = (if startswith s ''!'' then 1 else 0);
          k = (if startswith (drop n s) '']'' then n + 1 else n);
          rest = drop k s
      in if CHR '']'' \<in> set rest then
           (let m = length (takeWhile (\<lambda>c. c \<noteq> CHR '']'') rest)
            in Some (take (k + m) s, drop (k + m + 1) s))
         else None)"

lemma bracket_split_length: "bracket_split s = Some (a, b) \<Longrightarrow> length b < length s"
  by (cases s) (auto simp: bracket_split_def Let_def less_Suc_eq_le split: if_splits)

definition bracket_re :: "string \<Rightarrow> re" where
  "bracket_re members =
     (if startswith members ''!'' then Chr (\<lambda>x. \<not> bracket_member (tl members) x)
      else Chr (bracket_member members))"

function fnmatch_re :: "string \<Rightarrow> re" where
  "fnmatch_re [] = Eps"
| "fnmatch_re (c # cs) =
     (if c = CHR ''*'' then Cat (Star (Chr (\<lambda>_. True))) (fnmatch_re cs)
      else if c = CHR ''?'' then Cat (Chr (\<lambda>_. True)) (fnmatch_re cs)
      else if c = CHR ''['' then
        (case bracket_split cs of
           None \<Rightarrow> Cat (Chr (\<lambda>x. x = c)) (fnmatch_re cs)
         | Some (members, rest) \<Rightarrow> Cat (bracket_re members) (fnmatch_re rest))
      else Cat (Chr (\<lambda>x. x = c)) (fnmatch_re cs))"
  by pat_completeness auto
termination
  by (relation "measure length") (auto dest: bracket_split_length)

definition fnmatch :: "string \<Rightarrow> string \<Rightarrow> bool" where
  "fnmatch name pat \<longleftrightarrow> re_fullmatch (fnmatch_re pat) name \<noteq> None"

lemma anchor_free_fnmatch [simp]: "anchor_free (fnmatch_re pat)"
  by (induction pat rule: fnmatch_re.induct) (auto simp: bracket_re_def split: option.splits)

lemma fnmatch_lang: "fnmatch name pat \<longleftrightarrow> name \<in> lang (fnmatch_re pat)"
  unfolding fnmatch_def by (rule fullmatch_lang) simp

text \<open>A pattern without special characters before a star describes the names with that prefix.\<close>

definition plain :: "string \<Rightarrow> bool" where
  "plain s \<longleftrightarrow> CHR ''*'' \<notin> set s \<and> CHR ''?'' \<notin> set s \<and> CHR ''['' \<notin> set s"

lemma lang_plain_Cat: "plain p \<Longrightarrow> lang (fnmatch_re (p @ q)) = {p @ s |s. s \<in> lang (fnmatch_re q)}"
proof (induction p)
  case (Cons c p)
  then have "lang (fnmatch_re (p @ q)) = {p @ s |s. s \<in> lang (fnmatch_re q)}"
    by (simp add: plain_def)
  with Cons.prems show ?case by (auto simp: plain_def lang_Cat)
qed simp

lemma fnmatch_plain: "plain p \<Longrightarrow> fnmatch name p \<longleftrightarrow> name = p"
  using lang_plain_Cat [of p "[]"] by (auto simp: fnmatch_lang)

lemma lang_any [simp]: "lang (Star (Chr (\<lambda>_. True))) = UNIV"
  using lang_Star_Chr [of "\<lambda>_. True"] by simp

lemma fnmatch_prefix: "plain p \<Longrightarrow> fnmatch name (p @ ''*'') \<longleftrightarrow> prefix p name"
  using lang_plain_Cat [of p "''*''"] by (auto simp: fnmatch_lang lang_Cat prefix_def simp del: lang.simps(5))

lemma fnmatch_suffix: "plain p \<Longrightarrow> fnmatch name (''*'' @ p) \<longleftrightarrow> suffix p name"
  using lang_plain_Cat [of p "[]"]
  by (auto simp: fnmatch_lang lang_Cat suffix_def simp del: lang.simps(5))

end
