(* ===== verification/Compute_Scenarios.thy ===== *)
theory Compute_Scenarios
  imports Py_Fnmatch Py_Dict
begin

section \<open>Selection of libraries and scenarios (\<open>utils/scripts/compute_libraries_and_scenarios.py\<close>)\<close>

text \<open>
  The continuous integration computes, from the modified files, which libraries and which
  scenarios to run.  A processor for the libraries and one for the scenarios are fed the
  files one by one, each with the parameters of the first pattern that matches it.  The
  registry of scenarios (names, groups, the libraries of a scenario, the files that define
  them) is the argument \<open>registry\<close>; the conditions of a manifest only matter up to equality,
  so their type is a parameter.
\<close>

subsection \<open>Constants\<close>

definition component_items :: "(string \<times> string list) list" where
  "component_items =
     [(''c'', [''buildable'', ''easy_win'']),
      (''cpp'', [''easy_win'', ''lib_injection'', ''parametric'']),
      (''cpp_httpd'', [''buildable'', ''easy_win'', ''ssi'']),
      (''cpp_nginx'', [''buildable'', ''easy_win'', ''ssi'']),
      (''cpp_kong'', [''buildable'', ''easy_win'']),
      (''dotnet'', [''buildable'', ''easy_win'', ''ssi'', ''lib_injection'', ''parametric'']),
      (''golang'', [''buildable'', ''easy_win'', ''lib_injection'', ''parametric'']),
      (''java'', [''buildable'', ''easy_win'', ''ssi'', ''lib_injection'', ''parametric'']),
      (''java_lambda'', [''buildable'', ''easy_win'', ''lambda_lib'', ''parametric'']),
      (''java_otel'', [''buildable'', ''lib_injection'', ''otel'']),
      (''nodejs'', [''buildable'', ''easy_win'', ''ssi'', ''lib_injection'', ''parametric'']),
      (''nodejs_lambda'', [''buildable'', ''easy_win'', ''lambda_lib'']),
      (''nodejs_otel'', [''buildable'', ''lib_injection'', ''otel'']),
      (''otel_collector'', []),
      (''php'', [''buildable'', ''easy_win'', ''ssi'', ''lib_injection'', ''parametric'']),
      (''python'', [''buildable'', ''easy_win'', ''ssi'', ''lib_injection'', ''parametric'']),
      (''python_lambda'', [''buildable'', ''easy_win'', ''lambda_lib'']),
      (''python_otel'', [''buildable'', ''lib_injection'', ''otel'']),
      (''ruby'', [''buildable'', ''easy_win'', ''ssi'', ''lib_injection'', ''parametric'']),
      (''ruby_lambda'', [''buildable'', ''easy_win'', ''lambda_lib'']),
      (''rust'', [''buildable'', ''easy_win'', ''lib_injection'', ''parametric''])]"

definition component_group :: "string \<Rightarrow> string set" where
  "component_group g = set (map fst (filter (\<lambda>(c, gs). g = ''all'' \<or> g \<in> set gs) component_items))"

definition libraries :: "string set" where
  "libraries = component_group ''all'' - component_group ''otel''"

definition otel_libraries :: "string set" where
  "otel_libraries = component_group ''otel'' - {''nodejs_otel''}"

definition all_libraries :: "string set" where
  "all_libraries = libraries \<union> otel_libraries"

definition github_excluded_libraries :: "string set" where
  "github_excluded_libraries = {''c''}"

definition gitlab_pr_libraries :: "(string, (string, string list) dict) dict" where
  "gitlab_pr_libraries =
     [(''c'', []),
      (''python'', [(''flask-poc'',
        [''APM_TRACING_E2E_SINGLE_SPAN'', ''FEATURE_FLAGGING_AND_EXPERIMENTATION_AGENTLESS'',
         ''FEATURE_FLAGGING_AND_EXPERIMENTATION_AGENTLESS_DIRECT'',
         ''FEATURE_FLAGGING_AND_EXPERIMENTATION_AGENTLESS_SERVERLESS''])])]"

definition gitlab_main :: "string set" where "gitlab_main = {''python''}"

record registry =
  rg_scenario_names :: "string set"
  rg_group_names :: "string set"
  rg_group_scenarios :: "string \<Rightarrow> string set option"
  rg_scenario_libraries :: "string \<Rightarrow> string set option option"
  rg_definition_files :: "(string, string set) dict"

subsection \<open>Parameters of a pattern\<close>

record param =
  pr_libraries :: "string set"
  pr_scenario_groups :: "string set"
  pr_scenarios :: "string set"

datatype setting = S_set "string set" | S_list "string list" | S_str string | S_none | S_other

definition setify :: "setting \<Rightarrow> string set res" where
  "setify v =
     (case v of
        S_set s \<Rightarrow> Inr s
      | S_list xs \<Rightarrow> Inr (set xs)
      | S_str s \<Rightarrow> Inr {s}
      | S_none \<Rightarrow> Inr {}
      | S_other \<Rightarrow> Inl Assertion_Error)"

definition setting_or :: "setting \<Rightarrow> (string, setting) dict \<Rightarrow> string \<Rightarrow> setting" where
  "setting_or dflt parameters key = (case dget parameters key of None \<Rightarrow> dflt | Some v \<Rightarrow> v)"

definition param_init :: "registry \<Rightarrow> (string, setting) dict \<Rightarrow> param res" where
  "param_init R parameters =
     rbind (setify (setting_or (S_set libraries) parameters ''libraries'')) (\<lambda>libs.
     rbind (if \<not> dhas parameters ''scenario_groups'' \<and> \<not> dhas parameters ''scenarios''
       then Inr ({''all''}, {})
       else rbind (setify (setting_or S_none parameters ''scenario_groups'')) (\<lambda>gs.
         rbind (setify (setting_or S_none parameters ''scenarios'')) (\<lambda>ss. Inr (gs, ss)))) (\<lambda>(gs, ss).
     if \<not> libs \<subseteq> all_libraries then Inl Value_Error
     else if \<not> gs \<subseteq> rg_group_names R then Inl Value_Error
     else if \<not> ss \<subseteq> rg_scenario_names R then Inl Value_Error
     else Inr \<lparr>pr_libraries = libs, pr_scenario_groups = gs, pr_scenarios = ss\<rparr>))"

definition default_param :: param where
  "default_param = \<lparr>pr_libraries = libraries, pr_scenario_groups = {''all''}, pr_scenarios = {}\<rparr>"

text \<open>\<open>load_raw_impacts\<close>: a pattern with no parameters gets the default ones.\<close>

fun load_raw_impacts ::
  "registry \<Rightarrow> (string \<times> (string, setting) dict) list \<Rightarrow> (string, param) dict \<Rightarrow> (string, param) dict res" where
  "load_raw_impacts R [] impacts = Inr impacts"
| "load_raw_impacts R ((pattern, parameters) # rest) impacts =
     rbind (if parameters \<noteq> [] then param_init R parameters else Inr default_param) (\<lambda>p.
       load_raw_impacts R rest (dset pattern p impacts))"

fun match_patterns :: "string \<Rightarrow> (string, param) dict \<Rightarrow> param option" where
  "match_patterns modified_file [] = None"
| "match_patterns modified_file ((pattern, requirement) # impacts) =
     (if fnmatch modified_file pattern then Some requirement
      else match_patterns modified_file impacts)"

definition index_of :: "'a \<Rightarrow> 'a list \<Rightarrow> nat" where
  "index_of x xs = length (takeWhile (\<lambda>y. y \<noteq> x) xs)"

definition get_prefix :: "string \<Rightarrow> string \<Rightarrow> string" where
  "get_prefix path pattern =
     (let parts = str_split ''/'' path in
      if pattern \<in> set parts then
        (let idx = index_of pattern parts in
         if idx > 0 then str_join ''/'' (take idx parts) @ ''/'' else [])
      else path)"

subsection \<open>Inputs\<close>

record 'm inputs =
  in_gitlab :: bool
  in_event :: string
  in_ref :: string
  in_pr_title :: string
  in_select_main_push :: bool
  in_modified_files :: "string list"
  in_impacts :: "(string, param) dict"
  in_scenario_map :: "(string, string list) dict option"
  in_new_manifests :: "(string, 'm) dict"
  in_old_manifests :: "(string, 'm) dict"

text \<open>\<open>load_git_info\<close> over the environment: event, ref, title and whether this is GitLab.\<close>

definition env_or :: "(string, string) dict \<Rightarrow> string \<Rightarrow> string \<Rightarrow> string" where
  "env_or env key dflt = (case dget env key of None \<Rightarrow> dflt | Some v \<Rightarrow> v)"

definition load_git_info :: "(string, string) dict \<Rightarrow> string \<times> string \<times> string \<times> bool" where
  "load_git_info env =
     (if dhas env ''GITLAB_CI'' then
        (let source = env_or env ''CI_PIPELINE_SOURCE'' ''push'';
             branch = env_or env ''CI_COMMIT_REF_NAME'' ''''
         in (if source = ''merge_request_event'' then ''pull_request'' else source,
             if branch \<noteq> [] then ''refs/heads/'' @ branch else '''', '''', True))
      else (env_or env ''GITHUB_EVENT_NAME'' ''pull_request'', env_or env ''GITHUB_REF'' '''',
        str_lower (env_or env ''GITHUB_PR_TITLE'' ''''), False))"

definition selects_scenarios_from_diff :: "'m inputs \<Rightarrow> bool" where
  "selects_scenarios_from_diff i =
     (if in_event i \<notin> {''pull_request'', ''push''} then False
      else if in_ref i = ''refs/heads/main'' then in_event i = ''push'' \<and> in_select_main_push i
      else True)"

definition is_gitlab_pr_pipeline :: "'m inputs \<Rightarrow> bool" where
  "is_gitlab_pr_pipeline i \<longleftrightarrow>
     in_ref i \<noteq> ''refs/heads/main'' \<and> in_event i \<in> {''pull_request'', ''push''}"

definition filter_gitlab_libraries :: "'m inputs \<Rightarrow> string set \<Rightarrow> string set" where
  "filter_gitlab_libraries i libs =
     (if in_ref i = ''refs/heads/main'' \<and> in_event i \<noteq> ''schedule'' then libs \<inter> gitlab_main
      else if is_gitlab_pr_pipeline i then libs \<inter> set (dkeys gitlab_pr_libraries)
      else {})"

subsection \<open>\<open>LibraryProcessor\<close>\<close>

record library_processor =
  lp_selected :: "string set"
  lp_impacted :: "string set"
  lp_user_choice :: "string option"
  lp_branch_selector :: "string option"

definition library_init :: "string set \<Rightarrow> library_processor" where
  "library_init libs = \<lparr>lp_selected = libs, lp_impacted = {}, lp_user_choice = None, lp_branch_selector = None\<rparr>"

text \<open>
  The pattern of the title.  The alternatives come from a set, in no fixed order; the
  bracket or the at sign that follows makes the order irrelevant.
\<close>

definition title_re :: re where
  "title_re = Seq [Bos, Lit ''['',
     Grp 1 (Choice (map Lit (sorted_list_of_set all_libraries))),
     Opt (Cat (Lit ''@'') (Grp 2 (Plus (Chr (\<lambda>c. c \<noteq> CHR '']''))))), Lit '']'']"

definition process_pr_title :: "string \<Rightarrow> library_processor \<Rightarrow> library_processor" where
  "process_pr_title title p =
     (case re_search title_re title of
        None \<Rightarrow> p
      | Some (i, st) \<Rightarrow>
          (case re_group st 1 of
             None \<Rightarrow> p
           | Some choice \<Rightarrow> p\<lparr>lp_user_choice := Some choice,
               lp_selected := insert choice (lp_selected p),
               lp_branch_selector := re_group st 2\<rparr>))"

definition compute_impacted :: "param option \<Rightarrow> library_processor \<Rightarrow> library_processor" where
  "compute_impacted param p =
     p\<lparr>lp_impacted := (case param of Some q \<Rightarrow> pr_libraries q | None \<Rightarrow> libraries)\<rparr>"

definition nonempty :: "string option \<Rightarrow> bool" where
  "nonempty x \<longleftrightarrow> (case x of None \<Rightarrow> False | Some s \<Rightarrow> s \<noteq> [])"

definition library_add :: "param option \<Rightarrow> library_processor \<Rightarrow> library_processor" where
  "library_add param p =
     (let p' = compute_impacted param p in
      if nonempty (lp_user_choice p') \<and> nonempty (lp_branch_selector p') then p'
      else p'\<lparr>lp_selected := lp_selected p' \<union> lp_impacted p'\<rparr>)"

record library_outputs =
  lo_matrix :: "(string \<times> string) list"
  lo_with_dev :: "string list"
  lo_time :: nat

definition library_outputs_of :: "library_processor \<Rightarrow> library_outputs" where
  "library_outputs_of p =
     (let selected = sorted_list_of_set (lp_selected p - github_excluded_libraries);
          dev = filter (\<lambda>l. \<not> str_contains l ''otel'' \<and> l \<noteq> ''otel_collector'') selected;
          single = (if lp_selected p = {''nodejs''} then 300 else 600)
      in \<lparr>lo_matrix = map (\<lambda>l. (l, ''prod'')) selected @ map (\<lambda>l. (l, ''dev'')) dev,
          lo_with_dev = dev,
          lo_time = (if card (lp_selected p) = 1 then single else 3600)\<rparr>)"

subsection \<open>\<open>ScenarioProcessor\<close>\<close>

record scenario_processor =
  sp_groups :: "string set"
  sp_scenarios :: "string set"
  sp_by_files :: "(string, string set) dict"
  sp_impacted :: "string set"

definition scenario_init :: "string set \<Rightarrow> scenario_processor" where
  "scenario_init groups = \<lparr>sp_groups = groups, sp_scenarios = {''DEFAULT''}, sp_by_files = [], sp_impacted = {}\<rparr>"

text \<open>
  \<open>_append_scenarios_from_test_files\<close>: a scenario that the registry does not know is an
  \<open>AttributeError\<close>; the libraries of the others are collected.
\<close>

definition append_scenarios :: "registry \<Rightarrow> string set \<Rightarrow> scenario_processor \<Rightarrow> scenario_processor res" where
  "append_scenarios R names p =
     (if \<exists>n \<in> names. rg_scenario_libraries R (str_lower n) = None then Inl Attribute_Error
      else Inr (p\<lparr>sp_scenarios := sp_scenarios p \<union> names,
        sp_impacted := sp_impacted p \<union> (\<Union>n \<in> names.
          case rg_scenario_libraries R (str_lower n) of Some (Some libs) \<Rightarrow> libs | _ \<Rightarrow> {})\<rparr>))"

definition modified_nodeids :: "'m inputs \<Rightarrow> string list" where
  "modified_nodeids i =
     filter (\<lambda>n. \<not> dhas (in_old_manifests i) n \<or> \<not> dhas (in_new_manifests i) n \<or>
         dget (in_new_manifests i) n \<noteq> dget (in_old_manifests i) n)
       (dkeys (in_new_manifests i) @ dkeys (in_old_manifests i))"

definition process_manifests ::
  "registry \<Rightarrow> 'm inputs \<Rightarrow> scenario_processor \<Rightarrow> scenario_processor res" where
  "process_manifests R i p =
     (case in_scenario_map i of
        None \<Rightarrow> Inr p
      | Some m \<Rightarrow>
          rfold (\<lambda>(nodeid, names) p.
              if list_ex (\<lambda>n. startswith nodeid n) (modified_nodeids i)
              then append_scenarios R (set names) p else Inr p) m p)"

definition file_of :: "string \<Rightarrow> string" where
  "file_of nodeid = hd (split_once CHR '':'' nodeid)"

definition add_by_file :: "string \<Rightarrow> string list \<Rightarrow> (string, string set) dict \<Rightarrow> (string, string set) dict" where
  "add_by_file nodeid names d =
     fold (\<lambda>s d. dset (file_of nodeid) (insert s (case dget d (file_of nodeid) of None \<Rightarrow> {} | Some x \<Rightarrow> x)) d)
       names d"

definition compute_scenarios_by_files :: "'m inputs \<Rightarrow> scenario_processor \<Rightarrow> scenario_processor" where
  "compute_scenarios_by_files i p =
     (case in_scenario_map i of
        None \<Rightarrow> p
      | Some m \<Rightarrow> p\<lparr>sp_by_files := fold (\<lambda>(nodeid, names). add_by_file nodeid names) m (sp_by_files p)\<rparr>)"

definition append_folder :: "registry \<Rightarrow> string \<Rightarrow> scenario_processor \<Rightarrow> scenario_processor res" where
  "append_folder R folder p =
     rfold (\<lambda>(sub_file, names) p.
         if startswith sub_file folder then append_scenarios R names p else Inr p)
       (sp_by_files p) p"

definition process_test_files :: "registry \<Rightarrow> string \<Rightarrow> scenario_processor \<Rightarrow> scenario_processor res" where
  "process_test_files R file p =
     (if startswith file ''tests/'' then
        (if str_contains file ''/utils/'' then append_folder R (get_prefix file ''utils'') p
         else if list_ex (endswith file) [''/utils.py'', ''/conftest.py'', ''.json'', ''.yml''] then
           append_folder R (str_join ''/'' (butlast (str_split ''/'' file)) @ ''/'') p
         else Inr p)
      else Inr p)"

definition process_regular_file ::
  "registry \<Rightarrow> string \<Rightarrow> param option \<Rightarrow> scenario_processor \<Rightarrow> scenario_processor res" where
  "process_regular_file R file param p =
     (let p' = (case param of
          Some q \<Rightarrow> p\<lparr>sp_groups := sp_groups p \<union> pr_scenario_groups q,
            sp_scenarios := sp_scenarios p \<union> pr_scenarios q\<rparr>
        | None \<Rightarrow> p\<lparr>sp_groups := insert ''all'' (sp_groups p)\<rparr>)
      in case dget (sp_by_files p') file of
           None \<Rightarrow> Inr p'
         | Some names \<Rightarrow> append_scenarios R names p')"

definition scenario_add ::
  "registry \<Rightarrow> string \<Rightarrow> param option \<Rightarrow> scenario_processor \<Rightarrow> scenario_processor res" where
  "scenario_add R file param p =
     rbind (process_test_files R file p) (\<lambda>p.
     rbind (process_regular_file R file param p) (\<lambda>p.
       case dget (rg_definition_files R) file of
         None \<Rightarrow> Inr p
       | Some names \<Rightarrow> append_scenarios R names p))"

subsection \<open>GitLab weblogs\<close>

definition str_islower :: "string \<Rightarrow> bool" where
  "str_islower s \<longleftrightarrow> list_ex is_lower s \<and> \<not> list_ex is_upper s"

definition expand_scenario_entries :: "registry \<Rightarrow> string list \<Rightarrow> string set res" where
  "expand_scenario_entries R entries =
     rbind (rmap (\<lambda>entry. if str_islower entry
         then of_option Value_Error (rg_group_scenarios R entry) else Inr {entry}) entries) (\<lambda>sets.
       Inr (\<Union>(set sets)))"

definition filter_weblogs ::
  "registry \<Rightarrow> string set \<Rightarrow> (string \<times> string list) list \<Rightarrow> (string, string list) dict res" where
  "filter_weblogs R selected weblogs =
     rbind (rmap (\<lambda>(weblog, entries).
         if weblog = ''parametric'' then
           Inr (if ''PARAMETRIC'' \<in> selected then [(weblog, [])] else [])
         else rbind (expand_scenario_entries R entries) (\<lambda>s.
           let kept = sorted_list_of_set (s \<inter> selected) in
           Inr (if kept \<noteq> [] then [(weblog, kept)] else [])))
       weblogs) (\<lambda>xss. Inr (concat xss))"

definition get_gitlab_library_weblog_scenarios ::
  "registry \<Rightarrow> string set \<Rightarrow> string set \<Rightarrow> string set \<Rightarrow> (string, (string, string list) dict) dict res" where
  "get_gitlab_library_weblog_scenarios R libs names groups =
     rbind (expand_scenario_entries R (sorted_list_of_set (names \<union> groups))) (\<lambda>selected.
     rbind (rmap (\<lambda>library.
         rbind (dgetitem gitlab_pr_libraries library) (\<lambda>weblog_map.
           if weblog_map = [] then Inr []
           else rbind (filter_weblogs R selected (sort_key fst weblog_map)) (\<lambda>m.
             Inr (if m \<noteq> [] then [(library, m)] else []))))
       (sorted_list_of_set libs)) (\<lambda>xss. Inr (concat xss)))"

subsection \<open>\<open>process\<close>\<close>

definition lambda_proxy_files :: "string list" where
  "lambda_proxy_files =
     [''utils/build/docker/lambda_proxy/pyproject.toml'', ''utils/build/docker/lambda-proxy.Dockerfile'']"

definition process_files ::
  "registry \<Rightarrow> 'm inputs \<Rightarrow> scenario_processor \<times> library_processor \<Rightarrow>
     (scenario_processor \<times> library_processor) res" where
  "process_files R i st =
     rfold (\<lambda>file (sp, lp).
         let param = match_patterns file (in_impacts i) in
         rbind (scenario_add R file param sp) (\<lambda>sp'. Inr (sp', library_add param lp)))
       (in_modified_files i) st"

definition select :: "registry \<Rightarrow> 'm inputs \<Rightarrow> (scenario_processor \<times> library_processor \<times> bool) res" where
  "select R i =
     (if \<not> selects_scenarios_from_diff i
      then Inr (scenario_init {''all''}, library_init libraries, False)
      else
        rbind (process_manifests R i (scenario_init {})) (\<lambda>sp.
        rbind (process_files R i (compute_scenarios_by_files i sp,
            process_pr_title (in_pr_title i) (library_init {}))) (\<lambda>(sp, lp).
          Inr (sp, lp\<lparr>lp_selected := lp_selected lp \<union> sp_impacted sp\<rparr>,
            list_ex (\<lambda>f. f \<in> set lambda_proxy_files) (in_modified_files i)))))"

record gitlab_outputs =
  go_weblog_scenarios :: "(string, (string, string list) dict) dict"
  go_libraries :: "string option"

definition gitlab_outputs_of ::
  "registry \<Rightarrow> 'm inputs \<Rightarrow> scenario_processor \<Rightarrow> library_processor \<Rightarrow> gitlab_outputs res" where
  "gitlab_outputs_of R i sp lp =
     (let libs = filter_gitlab_libraries i (lp_selected lp) in
      rbind (if is_gitlab_pr_pipeline i
          then get_gitlab_library_weblog_scenarios R libs (sp_scenarios sp) (sp_groups sp)
          else Inr []) (\<lambda>weblogs.
        let rest = (if is_gitlab_pr_pipeline i
            then {l \<in> libs. case dget gitlab_pr_libraries l of Some [] \<Rightarrow> True | _ \<Rightarrow> False} else libs)
        in Inr \<lparr>go_weblog_scenarios = weblogs,
          go_libraries = (if rest = {} then None
            else Some (str_join '' '' (sorted_list_of_set rest)))\<rparr>))"

definition scenario_outputs :: "scenario_processor \<Rightarrow> string \<times> string" where
  "scenario_outputs sp =
     (str_join '','' (sorted_list_of_set (sp_scenarios sp)),
      str_join '','' (sorted_list_of_set (sp_groups sp)))"

datatype outputs =
    Gitlab string string gitlab_outputs "string \<times> string"
  | Github library_outputs bool "string \<times> string"

definition process :: "registry \<Rightarrow> 'm inputs \<Rightarrow> outputs res" where
  "process R i =
     rbind (select R i) (\<lambda>(sp, lp, rebuild).
       if in_gitlab i then
         rbind (gitlab_outputs_of R i sp lp) (\<lambda>g.
           Inr (Gitlab (in_event i) (in_ref i) g (scenario_outputs sp)))
       else Inr (Github (library_outputs_of lp) rebuild (scenario_outputs sp)))"

subsection \<open>Adding a file is a union\<close>

lemma append_empty [simp]: "append_scenarios R {} p = Inr p"
  by (simp add: append_scenarios_def)

lemma append_append:
  "rbind (append_scenarios R A p) (append_scenarios R B) = append_scenarios R (A \<union> B) p"
  by (auto simp: append_scenarios_def Un_assoc)

lemma append_if_fold:
  "rfold (\<lambda>(f, names) p. if c f then append_scenarios R names p else Inr p) m p =
     append_scenarios R (\<Union>(f, names) \<in> set m. if c f then names else {}) p"
proof (induction m arbitrary: p)
  case (Cons x m)
  obtain f names where x: "x = (f, names)" by force
  have "rfold (\<lambda>(f, names) p. if c f then append_scenarios R names p else Inr p) (x # m) p =
      rbind (append_scenarios R (if c f then names else {}) p)
        (append_scenarios R (\<Union>(f, names) \<in> set m. if c f then names else {}))"
    by (cases "c f"; cases "append_scenarios R names p") (simp_all add: x Cons.IH)
  then show ?case by (simp add: append_append x)
qed simp

text \<open>The scenarios that a file brings in through the tests, and what its parameters add.\<close>

definition folder_scenarios :: "(string, string set) dict \<Rightarrow> string \<Rightarrow> string set" where
  "folder_scenarios by_files folder =
     (\<Union>(f, names) \<in> set by_files. if startswith f folder then names else {})"

definition test_scenarios :: "(string, string set) dict \<Rightarrow> string \<Rightarrow> string set" where
  "test_scenarios by_files file =
     (if startswith file ''tests/'' then
        (if str_contains file ''/utils/'' then folder_scenarios by_files (get_prefix file ''utils'')
         else if list_ex (endswith file) [''/utils.py'', ''/conftest.py'', ''.json'', ''.yml''] then
           folder_scenarios by_files (str_join ''/'' (butlast (str_split ''/'' file)) @ ''/'')
         else {})
      else {})"

definition entry :: "(string, string set) dict \<Rightarrow> string \<Rightarrow> string set" where
  "entry d k = (case dget d k of None \<Rightarrow> {} | Some x \<Rightarrow> x)"

definition touched :: "registry \<Rightarrow> (string, string set) dict \<Rightarrow> string \<Rightarrow> string set" where
  "touched R by_files file =
     test_scenarios by_files file \<union> entry by_files file \<union> entry (rg_definition_files R) file"

definition param_groups :: "param option \<Rightarrow> string set" where
  "param_groups param = (case param of None \<Rightarrow> {''all''} | Some q \<Rightarrow> pr_scenario_groups q)"

definition param_scenarios :: "param option \<Rightarrow> string set" where
  "param_scenarios param = (case param of None \<Rightarrow> {} | Some q \<Rightarrow> pr_scenarios q)"

definition param_libraries :: "param option \<Rightarrow> string set" where
  "param_libraries param = (case param of None \<Rightarrow> libraries | Some q \<Rightarrow> pr_libraries q)"

definition grow :: "string set \<Rightarrow> string set \<Rightarrow> scenario_processor \<Rightarrow> scenario_processor" where
  "grow gs ss p = p\<lparr>sp_groups := sp_groups p \<union> gs, sp_scenarios := sp_scenarios p \<union> ss\<rparr>"

lemma process_test_files_append:
  "process_test_files R file p = append_scenarios R (test_scenarios (sp_by_files p) file) p"
  by (simp add: process_test_files_def test_scenarios_def append_folder_def folder_scenarios_def append_if_fold)

lemma append_entry:
  "(case dget d k of None \<Rightarrow> Inr p | Some names \<Rightarrow> append_scenarios R names p) = append_scenarios R (entry d k) p"
  by (simp add: entry_def split: option.splits)

lemma process_regular_file_append:
  "process_regular_file R file param p =
     append_scenarios R (entry (sp_by_files p) file) (grow (param_groups param) (param_scenarios param) p)"
  by (cases param)
    (simp_all add: process_regular_file_def Let_def append_entry grow_def param_groups_def param_scenarios_def)

lemma append_by_files: "append_scenarios R A p = Inr q \<Longrightarrow> sp_by_files q = sp_by_files p"
  by (auto simp: append_scenarios_def split: if_splits)

lemma append_grow: "rbind (append_scenarios R A p) (\<lambda>q. append_scenarios R B (grow gs ss q)) =
    append_scenarios R (A \<union> B) (grow gs ss p)"
  by (auto simp: append_scenarios_def grow_def Un_ac)

lemma scenario_add_append:
  "scenario_add R file param p =
     append_scenarios R (touched R (sp_by_files p) file) (grow (param_groups param) (param_scenarios param) p)"
proof -
  have "rbind (process_test_files R file p) (process_regular_file R file param) =
      append_scenarios R (test_scenarios (sp_by_files p) file \<union> entry (sp_by_files p) file)
        (grow (param_groups param) (param_scenarios param) p)"
    unfolding process_test_files_append process_regular_file_append append_grow [symmetric]
    by (cases "append_scenarios R (test_scenarios (sp_by_files p) file) p")
      (auto simp: append_by_files)
  moreover have "scenario_add R file param p =
      rbind (rbind (process_test_files R file p) (process_regular_file R file param))
        (append_scenarios R (entry (rg_definition_files R) file))"
    unfolding scenario_add_def append_entry by (cases "process_test_files R file p") auto
  ultimately show ?thesis by (simp add: append_append touched_def)
qed

lemma grow_simps [simp]:
  "sp_by_files (grow gs ss p) = sp_by_files p"
  "grow gs ss (grow gs' ss' p) = grow (gs' \<union> gs) (ss' \<union> ss) p"
  "grow {} {} p = p"
  by (simp_all add: grow_def Un_assoc)

definition choice_enforced :: "library_processor \<Rightarrow> bool" where
  "choice_enforced p \<longleftrightarrow> nonempty (lp_user_choice p) \<and> nonempty (lp_branch_selector p)"

lemma library_add_simps:
  "lp_selected (library_add param p) =
     (if choice_enforced p then lp_selected p else lp_selected p \<union> param_libraries param)"
  "choice_enforced (library_add param p) = choice_enforced p"
  by (auto simp: library_add_def compute_impacted_def choice_enforced_def param_libraries_def Let_def
      split: option.splits)

lemma process_files_spec:
  fixes R :: registry and impacts :: "(string, param) dict"
  shows "\<exists>lp'. rfold (\<lambda>file (sp, lp). rbind (scenario_add R file (match_patterns file impacts) sp)
        (\<lambda>sp'. Inr (sp', library_add (match_patterns file impacts) lp))) files (sp, lp) =
      rbind (append_scenarios R (\<Union>f \<in> set files. touched R (sp_by_files sp) f)
        (grow (\<Union>f \<in> set files. param_groups (match_patterns f impacts))
          (\<Union>f \<in> set files. param_scenarios (match_patterns f impacts)) sp)) (\<lambda>sp'. Inr (sp', lp')) \<and>
    lp_selected lp' = (if choice_enforced lp then lp_selected lp
      else lp_selected lp \<union> (\<Union>f \<in> set files. param_libraries (match_patterns f impacts)))"
proof (induction files arbitrary: sp lp)
  case (Cons f fs)
  let ?m = "\<lambda>f. match_patterns f impacts"
  let ?sp = "\<lambda>A gs ss. append_scenarios R A (grow gs ss sp)"
  let ?A = "touched R (sp_by_files sp) f" and ?gs = "param_groups (?m f)" and ?ss = "param_scenarios (?m f)"
  let ?As = "\<Union>f \<in> set fs. touched R (sp_by_files sp) f"
    and ?gss = "\<Union>f \<in> set fs. param_groups (?m f)" and ?sss = "\<Union>f \<in> set fs. param_scenarios (?m f)"
  let ?loop = "rfold (\<lambda>file (sp, lp). rbind (scenario_add R file (?m file) sp)
        (\<lambda>sp'. Inr (sp', library_add (?m file) lp)))"
  have files: "sp_by_files q = sp_by_files sp" if "?sp ?A ?gs ?ss = Inr q" for q
    using append_by_files [OF that] by simp
  have ex: "\<exists>lp'. (\<forall>q. ?sp ?A ?gs ?ss = Inr q \<longrightarrow> ?loop fs (q, library_add (?m f) lp) =
        rbind (append_scenarios R ?As (grow ?gss ?sss q)) (\<lambda>sp'. Inr (sp', lp'))) \<and>
      lp_selected lp' = (if choice_enforced lp then lp_selected (library_add (?m f) lp)
        else lp_selected (library_add (?m f) lp) \<union> (\<Union>f \<in> set fs. param_libraries (?m f)))"
  proof (cases "?sp ?A ?gs ?ss")
    case (Inl e)
    then show ?thesis
      by (intro exI [of _ "lp\<lparr>lp_selected := if choice_enforced lp then lp_selected (library_add (?m f) lp)
        else lp_selected (library_add (?m f) lp) \<union> (\<Union>f \<in> set fs. param_libraries (?m f))\<rparr>"]) simp
  next
    case (Inr q)
    from Cons [of q "library_add (?m f) lp"] show ?thesis
      unfolding library_add_simps(2) by (auto simp: Inr files [OF Inr])
  qed
  then obtain lp' where lp': "\<And>q. ?sp ?A ?gs ?ss = Inr q \<Longrightarrow> ?loop fs (q, library_add (?m f) lp) =
        rbind (append_scenarios R ?As (grow ?gss ?sss q)) (\<lambda>sp'. Inr (sp', lp'))"
    and sel: "lp_selected lp' = (if choice_enforced lp then lp_selected (library_add (?m f) lp)
        else lp_selected (library_add (?m f) lp) \<union> (\<Union>f \<in> set fs. param_libraries (?m f)))" by blast
  have "?loop (f # fs) (sp, lp) =
      rbind (rbind (?sp ?A ?gs ?ss) (\<lambda>q. append_scenarios R ?As (grow ?gss ?sss q))) (\<lambda>sp'. Inr (sp', lp'))"
    unfolding rfold.simps prod.case scenario_add_append [of R f "?m f" sp]
    by (cases "?sp ?A ?gs ?ss") (simp_all add: lp')
  also have "\<dots> = rbind (?sp (?A \<union> ?As) (?gs \<union> ?gss) (?ss \<union> ?sss)) (\<lambda>sp'. Inr (sp', lp'))"
    by (simp add: append_grow)
  finally show ?case
    using sel by (intro exI [of _ lp']) (auto simp: library_add_simps)
qed simp


subsection \<open>The selection depends on the set of modified files only\<close>

definition files_scenarios :: "registry \<Rightarrow> 'm inputs \<Rightarrow> scenario_processor \<Rightarrow> scenario_processor res" where
  "files_scenarios R i sp =
     append_scenarios R (\<Union>f \<in> set (in_modified_files i). touched R (sp_by_files sp) f)
       (grow (\<Union>f \<in> set (in_modified_files i). param_groups (match_patterns f (in_impacts i)))
         (\<Union>f \<in> set (in_modified_files i). param_scenarios (match_patterns f (in_impacts i))) sp)"

definition files_libraries :: "'m inputs \<Rightarrow> library_processor \<Rightarrow> string set" where
  "files_libraries i lp =
     (if choice_enforced lp then lp_selected lp
      else lp_selected lp \<union> (\<Union>f \<in> set (in_modified_files i). param_libraries (match_patterns f (in_impacts i))))"

lemma process_files_closed:
  obtains lp' where
    "process_files R i (sp, lp) = rbind (files_scenarios R i sp) (\<lambda>sp'. Inr (sp', lp'))"
    "lp_selected lp' = files_libraries i lp"
  using process_files_spec [of R "in_impacts i" "in_modified_files i" sp lp]
  unfolding process_files_def files_scenarios_def files_libraries_def Let_def by blast

text \<open>What \<open>process\<close> reads of the two processors.\<close>

definition output_of :: "registry \<Rightarrow> 'm inputs \<Rightarrow> scenario_processor \<Rightarrow> string set \<Rightarrow> bool \<Rightarrow> outputs res" where
  "output_of R i sp libs rebuild =
     (if in_gitlab i then
        rbind (gitlab_outputs_of R i sp (library_init libs)) (\<lambda>g.
          Inr (Gitlab (in_event i) (in_ref i) g (scenario_outputs sp)))
      else Inr (Github (library_outputs_of (library_init libs)) rebuild (scenario_outputs sp)))"

lemma output_of_processors:
  "gitlab_outputs_of R i sp (library_init (lp_selected lp)) = gitlab_outputs_of R i sp lp"
  "library_outputs_of (library_init (lp_selected lp)) = library_outputs_of lp"
  by (simp_all add: gitlab_outputs_of_def library_outputs_of_def library_init_def Let_def)

lemma process_output_of:
  "process R i = rbind (select R i) (\<lambda>(sp, lp, rebuild). output_of R i sp (lp_selected lp) rebuild)"
  unfolding process_def output_of_def output_of_processors ..

definition title_processor :: "'m inputs \<Rightarrow> library_processor" where
  "title_processor i = process_pr_title (in_pr_title i) (library_init {})"

definition rebuilds :: "'m inputs \<Rightarrow> bool" where
  "rebuilds i \<longleftrightarrow> list_ex (\<lambda>f. f \<in> set lambda_proxy_files) (in_modified_files i)"

lemma process_closed:
  "process R i =
     (if \<not> selects_scenarios_from_diff i
      then output_of R i (scenario_init {''all''}) libraries False
      else rbind (process_manifests R i (scenario_init {})) (\<lambda>sp0.
        rbind (files_scenarios R i (compute_scenarios_by_files i sp0)) (\<lambda>sp.
          output_of R i sp (files_libraries i (title_processor i) \<union> sp_impacted sp) (rebuilds i))))"
proof (cases "selects_scenarios_from_diff i")
  case False
  then show ?thesis by (simp add: process_output_of select_def library_init_def)
next
  case True
  show ?thesis
  proof (cases "process_manifests R i (scenario_init {})")
    case (Inl e)
    with True show ?thesis by (simp add: process_output_of select_def)
  next
    case (Inr sp0)
    obtain lp' where lp': "process_files R i (compute_scenarios_by_files i sp0, title_processor i) =
        rbind (files_scenarios R i (compute_scenarios_by_files i sp0)) (\<lambda>sp'. Inr (sp', lp'))"
      "lp_selected lp' = files_libraries i (title_processor i)" by (rule process_files_closed)
    with True Inr show ?thesis
      by (cases "files_scenarios R i (compute_scenarios_by_files i sp0)")
        (simp_all add: process_output_of select_def title_processor_def rebuilds_def)
  qed
qed

lemma inputs_modified_simps:
  "selects_scenarios_from_diff (i\<lparr>in_modified_files := fs\<rparr>) = selects_scenarios_from_diff i"
  "process_manifests R (i\<lparr>in_modified_files := fs\<rparr>) = process_manifests R i"
  "compute_scenarios_by_files (i\<lparr>in_modified_files := fs\<rparr>) = compute_scenarios_by_files i"
  "title_processor (i\<lparr>in_modified_files := fs\<rparr>) = title_processor i"
  "output_of R (i\<lparr>in_modified_files := fs\<rparr>) = output_of R i"
  by (simp_all add: selects_scenarios_from_diff_def process_manifests_def modified_nodeids_def fun_eq_iff
      compute_scenarios_by_files_def title_processor_def output_of_def gitlab_outputs_of_def
      filter_gitlab_libraries_def is_gitlab_pr_pipeline_def Let_def cong: if_cong option.case_cong)

text \<open>
  C33.  The order in which git lists the modified files, and repetitions in the list, do not
  change the outputs of \<open>process\<close>: two lists with the same files give the same matrix, the same
  scenarios and the same error.  The loop is order dependent in its writing (the state is
  updated file after file and an unknown scenario raises in the middle).
\<close>

theorem process_files_order_irrelevant:
  assumes "set fs = set gs"
  shows "process R (i\<lparr>in_modified_files := fs\<rparr>) = process R (i\<lparr>in_modified_files := gs\<rparr>)"
proof -
  have "rebuilds (i\<lparr>in_modified_files := fs\<rparr>) = rebuilds (i\<lparr>in_modified_files := gs\<rparr>)"
    using assms by (simp add: rebuilds_def list_ex_iff)
  with assms show ?thesis
    unfolding process_closed inputs_modified_simps by (simp add: files_scenarios_def files_libraries_def)
qed

text \<open>The libraries of a set of scenarios, and what the appended scenarios change.\<close>

definition scenarios_libraries :: "registry \<Rightarrow> string set \<Rightarrow> string set" where
  "scenarios_libraries R names =
     (\<Union>n \<in> names. case rg_scenario_libraries R (str_lower n) of Some (Some libs) \<Rightarrow> libs | _ \<Rightarrow> {})"

lemma append_Inr:
  "append_scenarios R names p = Inr q \<Longrightarrow>
     q = p\<lparr>sp_scenarios := sp_scenarios p \<union> names,
       sp_impacted := sp_impacted p \<union> scenarios_libraries R names\<rparr>"
  by (simp add: append_scenarios_def scenarios_libraries_def split: if_splits)

text \<open>Inputs for the examples.\<close>

definition sample_registry :: registry where
  "sample_registry = \<lparr>rg_scenario_names = {''DEFAULT'', ''PARAMETRIC'', ''APPSEC''}, rg_group_names = {''all'', ''appsec''},
     rg_group_scenarios = [''all'' \<mapsto> {''DEFAULT'', ''PARAMETRIC'', ''APPSEC''}, ''appsec'' \<mapsto> {''APPSEC''}],
     rg_scenario_libraries = [''default'' \<mapsto> None, ''appsec'' \<mapsto> None, ''parametric'' \<mapsto> Some {''rust''}],
     rg_definition_files = []\<rparr>"

definition sample_inputs :: "unit inputs" where
  "sample_inputs = \<lparr>in_gitlab = False, in_event = ''pull_request'', in_ref = [], in_pr_title = ''[java@main] fix'',
     in_select_main_push = False, in_modified_files = [''tests/a.py'', ''README.md''],
     in_impacts = [(''*.md'', \<lparr>pr_libraries = {}, pr_scenario_groups = {}, pr_scenarios = {}\<rparr>)],
     in_scenario_map = Some [(''tests/a.py::Test'', [''PARAMETRIC''])], in_new_manifests = [], in_old_manifests = []\<rparr>"

theorem process_files_order_irrelevant_witness:
  "process sample_registry (sample_inputs\<lparr>in_modified_files := [''README.md'', ''tests/a.py'', ''README.md'']\<rparr>) =
     process sample_registry (sample_inputs\<lparr>in_modified_files := [''tests/a.py'', ''README.md'']\<rparr>)"
  by (rule process_files_order_irrelevant) auto

text \<open>
  C25.  The libraries that a pull request runs.  When the selection comes from the modified
  files and succeeds, the libraries are: those of the first matching pattern of every modified
  file (all of them for a file that no pattern matches), unless the title enforces a choice with
  a branch; the library the title names; and the libraries of the scenarios of the modified
  tests, which are added even to an enforced choice.  The \<open>all\<close> group is selected as soon
  as one modified file is unknown.
\<close>

theorem select_libraries:
  assumes "selects_scenarios_from_diff i"
    and "process_manifests R i (scenario_init {}) = Inr sp0"
    and "select R i = Inr (sp, lp, rebuild)"
  shows "lp_selected lp =
      (case lp_user_choice (title_processor i) of None \<Rightarrow> {} | Some choice \<Rightarrow> {choice}) \<union>
      (if choice_enforced (title_processor i) then {}
       else (\<Union>f \<in> set (in_modified_files i).
         case match_patterns f (in_impacts i) of None \<Rightarrow> libraries | Some q \<Rightarrow> pr_libraries q)) \<union>
      sp_impacted sp0 \<union>
      scenarios_libraries R (\<Union>f \<in> set (in_modified_files i).
        touched R (sp_by_files (compute_scenarios_by_files i sp0)) f) \<and>
    ((\<exists>f \<in> set (in_modified_files i). match_patterns f (in_impacts i) = None) \<longrightarrow> ''all'' \<in> sp_groups sp)"
proof -
  obtain lp' where lp': "process_files R i (compute_scenarios_by_files i sp0, title_processor i) =
      rbind (files_scenarios R i (compute_scenarios_by_files i sp0)) (\<lambda>sp'. Inr (sp', lp'))"
    "lp_selected lp' = files_libraries i (title_processor i)" by (rule process_files_closed)
  have "select R i = rbind (process_files R i (compute_scenarios_by_files i sp0, title_processor i)) (\<lambda>(sp, lp).
      Inr (sp, lp\<lparr>lp_selected := lp_selected lp \<union> sp_impacted sp\<rparr>, rebuilds i))"
    using assms(1,2) unfolding select_def title_processor_def rebuilds_def by simp
  also have "\<dots> = rbind (files_scenarios R i (compute_scenarios_by_files i sp0)) (\<lambda>sp.
      Inr (sp, lp'\<lparr>lp_selected := lp_selected lp' \<union> sp_impacted sp\<rparr>, rebuilds i))"
    unfolding lp'(1) by (cases "files_scenarios R i (compute_scenarios_by_files i sp0)") simp_all
  finally obtain sp' where sp': "files_scenarios R i (compute_scenarios_by_files i sp0) = Inr sp'"
    and eq: "select R i = Inr (sp', lp'\<lparr>lp_selected := lp_selected lp' \<union> sp_impacted sp'\<rparr>, rebuilds i)"
    using assms(3) by (cases "files_scenarios R i (compute_scenarios_by_files i sp0)") simp_all
  from eq assms(3) have "sp' = sp" and lp: "lp_selected lp = files_libraries i (title_processor i) \<union> sp_impacted sp"
    using lp'(2) by auto
  with sp' have sp: "files_scenarios R i (compute_scenarios_by_files i sp0) = Inr sp" by simp
  have "sp_impacted (compute_scenarios_by_files i sp0) = sp_impacted sp0"
    by (simp add: compute_scenarios_by_files_def split: option.splits)
  with append_Inr [OF sp [unfolded files_scenarios_def]]
  have imp: "sp_impacted sp = sp_impacted sp0 \<union> scenarios_libraries R (\<Union>f \<in> set (in_modified_files i).
        touched R (sp_by_files (compute_scenarios_by_files i sp0)) f)"
    and gs: "sp_groups sp = sp_groups (compute_scenarios_by_files i sp0) \<union>
        (\<Union>f \<in> set (in_modified_files i). param_groups (match_patterns f (in_impacts i)))"
    by (simp_all add: grow_def)
  have "''all'' \<in> sp_groups sp" if "f \<in> set (in_modified_files i)" "match_patterns f (in_impacts i) = None" for f
    using that unfolding gs by (force simp: param_groups_def)
  moreover have "lp_selected (title_processor i) =
      (case lp_user_choice (title_processor i) of None \<Rightarrow> {} | Some choice \<Rightarrow> {choice})"
    by (auto simp: title_processor_def process_pr_title_def library_init_def split: option.splits)
  ultimately show ?thesis
    unfolding lp imp files_libraries_def param_libraries_def by auto
qed

text \<open>The title names \<open>java@main\<close>, and the modified test still brings in \<open>rust\<close>.\<close>

theorem select_libraries_witness:
  "\<exists>sp lp rebuild. select sample_registry sample_inputs = Inr (sp, lp, rebuild) \<and> lp_selected lp = {''java'', ''rust''}"
proof -
  have "is_ok (select sample_registry sample_inputs)" by code_simp
  then obtain sp lp rebuild where sel: "select sample_registry sample_inputs = Inr (sp, lp, rebuild)"
    by (cases "select sample_registry sample_inputs") auto
  have man: "process_manifests sample_registry sample_inputs (scenario_init {}) = Inr (scenario_init {})"
    by (simp add: process_manifests_def sample_inputs_def modified_nodeids_def dkeys_def)
  have diff: "selects_scenarios_from_diff sample_inputs" by code_simp
  have title: "lp_user_choice (title_processor sample_inputs) = Some ''java''"
    "choice_enforced (title_processor sample_inputs)" by code_simp+
  have files: "scenarios_libraries sample_registry (\<Union>f \<in> set (in_modified_files sample_inputs).
      touched sample_registry (sp_by_files (compute_scenarios_by_files sample_inputs (scenario_init {}))) f) = {''rust''}"
    by code_simp
  from select_libraries [OF diff man sel] have "lp_selected lp = {''java'', ''rust''}"
    unfolding title files by (simp add: scenario_init_def title insert_commute)
  with sel show ?thesis by blast
qed

end
