(* ===== verification/Py_Value.thy ===== *)
theory Py_Value
  imports Py_Dict Py_Str Py_Bytes Py_Base64
begin

section \<open>Dynamically typed Python values\<close>

text \<open>
  What \<open>msgpack.unpackb\<close> and \<open>MessageToDict\<close> return.  A text is the list of the bytes of its
  UTF-8 encoding; a float is kept as its bits and is never equal to an integer; the keys of a
  dictionary are values, compared as they are written (\<open>1\<close> and \<open>True\<close> are different keys,
  which no message of the modelled protocols relies on).  The operators raise what Python
  raises on a value of the wrong type.
\<close>

datatype pyval =
    P_none
  | P_bool bool
  | P_int int
  | P_float "64 word"
  | P_str string
  | P_bytes bytes
  | P_list "pyval list"
  | P_dict "(pyval \<times> pyval) list"

type_synonym pydict = "(pyval, pyval) dict"

fun p_truthy :: "pyval \<Rightarrow> bool" where
  "p_truthy P_none = False"
| "p_truthy (P_bool b) = b"
| "p_truthy (P_int i) = (i \<noteq> 0)"
| "p_truthy (P_float w) = (w \<noteq> 0 \<and> w \<noteq> 0x8000000000000000)"
| "p_truthy (P_str s) = (s \<noteq> [])"
| "p_truthy (P_bytes b) = (b \<noteq> [])"
| "p_truthy (P_list xs) = (xs \<noteq> [])"
| "p_truthy (P_dict d) = (d \<noteq> [])"

fun p_hashable :: "pyval \<Rightarrow> bool" where
  "p_hashable (P_list xs) = False"
| "p_hashable (P_dict d) = False"
| "p_hashable v = True"

text \<open>\<open>isinstance(v, int)\<close>, with the number it is: a boolean is an integer too.\<close>

fun p_as_int :: "pyval \<Rightarrow> int option" where
  "p_as_int (P_int i) = Some i"
| "p_as_int (P_bool b) = Some (if b then 1 else 0)"
| "p_as_int v = None"

text \<open>\<open>xs[i]\<close> on a list: negative indices count from the end.\<close>

definition py_index :: "'a list \<Rightarrow> int \<Rightarrow> 'a res" where
  "py_index xs i =
     (let j = (if i < 0 then i + int (length xs) else i) in
      if 0 \<le> j \<and> j < int (length xs) then Inr (xs ! nat j) else Inl Index_Error)"

text \<open>\<open>v[k]\<close>, \<open>v.get(k)\<close>, \<open>k in v\<close>, \<open>v.items()\<close> and \<open>v[k] = x\<close> with a string \<open>k\<close>.\<close>

fun p_item :: "string \<Rightarrow> pyval \<Rightarrow> pyval res" where
  "p_item k (P_dict d) = dgetitem d (P_str k)"
| "p_item k v = Inl Type_Error"

fun p_get :: "string \<Rightarrow> pyval \<Rightarrow> pyval \<Rightarrow> pyval res" where
  "p_get k dflt (P_dict d) = Inr (case dget d (P_str k) of None \<Rightarrow> dflt | Some v \<Rightarrow> v)"
| "p_get k dflt v = Inl Attribute_Error"

fun p_contains :: "string \<Rightarrow> pyval \<Rightarrow> bool res" where
  "p_contains k (P_dict d) = Inr (dhas d (P_str k))"
| "p_contains k (P_list xs) = Inr (P_str k \<in> set xs)"
| "p_contains k (P_str s) = Inr (str_contains s k)"
| "p_contains k v = Inl Type_Error"

fun p_items :: "pyval \<Rightarrow> (pyval \<times> pyval) list res" where
  "p_items (P_dict d) = Inr d"
| "p_items v = Inl Attribute_Error"

fun p_set :: "string \<Rightarrow> pyval \<Rightarrow> pyval \<Rightarrow> pyval res" where
  "p_set k x (P_dict d) = Inr (P_dict (dset (P_str k) x d))"
| "p_set k x v = Inl Type_Error"

text \<open>The elements that \<open>for x in v\<close> runs over.\<close>

fun p_iter :: "pyval \<Rightarrow> pyval list res" where
  "p_iter (P_list xs) = Inr xs"
| "p_iter (P_dict d) = Inr (dkeys d)"
| "p_iter (P_str s) = Inr (map (\<lambda>c. P_str [c]) s)"
| "p_iter (P_bytes b) = Inr (map (\<lambda>w. P_int (uint w)) b)"
| "p_iter v = Inl Type_Error"

text \<open>\<open>for x in v: x[...] = ...\<close>: the elements of a list are updated in place.\<close>

definition p_update_each :: "(pyval \<Rightarrow> pyval res) \<Rightarrow> pyval \<Rightarrow> pyval res" where
  "p_update_each f v =
     (case v of P_list xs \<Rightarrow> rbind (rmap f xs) (\<lambda>ys. Inr (P_list ys))
      | _ \<Rightarrow> rbind (p_iter v) (\<lambda>xs. rbind (rmap f xs) (\<lambda>_. Inr v)))"

text \<open>\<open>if k in v: v[k] = f(v[k])\<close>, and the update of \<open>v.get(k, [])\<close> in place.\<close>

definition p_update_key :: "string \<Rightarrow> (pyval \<Rightarrow> pyval res) \<Rightarrow> pyval \<Rightarrow> pyval res" where
  "p_update_key k f v =
     rbind (p_contains k v) (\<lambda>there.
       if there then rbind (p_item k v) (\<lambda>x. rbind (f x) (\<lambda>y. p_set k y v)) else Inr v)"

definition p_update_get :: "string \<Rightarrow> (pyval \<Rightarrow> pyval res) \<Rightarrow> pyval \<Rightarrow> pyval res" where
  "p_update_get k f v =
     rbind (p_get k (P_list []) v) (\<lambda>x. rbind (f x) (\<lambda>y.
       rbind (p_contains k v) (\<lambda>there. if there then p_set k y v else Inr v)))"

text \<open>\<open>bytes.hex().upper()\<close>, \<open>bytes.decode("ascii")\<close> and \<open>bytes.decode("utf-8")\<close>.\<close>

definition hex_digit :: "nat \<Rightarrow> char" where
  "hex_digit n = ''0123456789ABCDEF'' ! n"

definition hex_upper :: "bytes \<Rightarrow> string" where
  "hex_upper b = concat (map (\<lambda>w. [hex_digit (unat w div 16), hex_digit (unat w mod 16)]) b)"

definition char_of_byte :: "8 word \<Rightarrow> char" where
  "char_of_byte w = char_of (unat w)"

definition ascii_decode :: "bytes \<Rightarrow> string res" where
  "ascii_decode b = (if \<forall>w \<in> set b. w < 0x80 then Inr (map char_of_byte b) else Inl Unicode_Error)"

function utf8_valid :: "bytes \<Rightarrow> bool" where
  "utf8_valid [] = True"
| "utf8_valid (b # bs) =
     (if unat b < 0x80 then utf8_valid bs
      else case utf8_lead b of
        None \<Rightarrow> False
      | Some (acc, n, lo, hi) \<Rightarrow>
          fst (utf8_tail n lo hi acc bs) \<noteq> None \<and> utf8_valid (snd (utf8_tail n lo hi acc bs)))"
  by pat_completeness auto
termination
  by (relation "measure length") (auto simp: less_Suc_eq_le utf8_tail_length)

definition utf8_strict :: "bytes \<Rightarrow> string res" where
  "utf8_strict b = (if utf8_valid b then Inr (map char_of_byte b) else Inl Unicode_Error)"

text \<open>
  \<open>base64.b64decode(s)\<close> drops the characters that are not of the alphabet; with
  \<open>validate=True\<close> they are an error.
\<close>

definition b64decode_lenient :: "string \<Rightarrow> bytes res" where
  "b64decode_lenient s =
     (if \<exists>c \<in> set s. 128 \<le> (of_char c :: nat) then Inl Value_Error
      else b64decode (filter (\<lambda>c. c \<in> set b64_alphabet \<or> c = CHR ''='') s))"

lemma py_index_nth: "i < length xs \<Longrightarrow> py_index xs (int i) = Inr (xs ! i)"
  by (simp add: py_index_def)

lemma py_index_append: "py_index xs (int i) = Inr x \<Longrightarrow> py_index (xs @ ys) (int i) = Inr x"
  by (auto simp: py_index_def nth_append Let_def split: if_splits)

end
