(* ===== verification/Trace_V1.thy ===== *)
theory Trace_V1
  imports Py_Value
begin

section \<open>The v1 trace format (\<open>utils/proxy/traces/trace_v1.py\<close>)\<close>

text \<open>
  Version 1 of the trace protocol replaces the keys of its maps by numbers and sends a text
  once: the next occurrences are indices into the list of the texts seen so far.  The theory
  models the decoder of what a tracer sends (\<open>deserialize_v1_trace\<close>) and of what the agent
  sends on (\<open>uncompress_agent_v1_trace\<close>), over dynamically typed values.  \<open>msgpack.unpackb\<close>
  is third party code and \<open>json.loads\<close> and \<open>gzip.decompress\<close> are taken as they are: they are
  the fields of \<open>codecs\<close>.  Attribute lists are lists: a text, bytes or a map in the place of
  one is a \<open>Type_Error\<close> here, where Python would try to index it.
\<close>

record codecs =
  unpackb :: "bytes \<Rightarrow> pyval res"
  json_loads :: "pyval \<Rightarrow> pyval res"
  gunzip :: "bytes \<Rightarrow> bytes res"

subsection \<open>Keys\<close>

definition payload_keys :: "string list" where
  "payload_keys = [''strings'', ''container_id'', ''language_name'', ''language_version'', ''tracer_version'',
     ''runtime_id'', ''env'', ''hostname'', ''app_version'', ''attributes'', ''chunks'']"

definition chunk_keys :: "string list" where
  "chunk_keys = [''priority'', ''origin'', ''attributes'', ''spans'', ''dropped_trace'', ''trace_id'', ''sampling_mechanism'']"

definition span_keys :: "string list" where
  "span_keys = [''service'', ''name'', ''resource'', ''span_id'', ''parent_id'', ''start'', ''duration'', ''error'',
     ''attributes'', ''type'', ''span_links'', ''span_events'', ''env'', ''version'', ''component'', ''span_kind'']"

definition span_link_keys :: "string list" where
  "span_link_keys = [''trace_id'', ''span_id'', ''attributes'', ''trace_state'', ''flags'']"

definition span_event_keys :: "string list" where
  "span_event_keys = [''time'', ''name_value'', ''attributes'']"

datatype any_key = K_string | K_bool | K_double | K_int | K_bytes | K_array | K_key_value_list

definition any_keys :: "any_key list" where
  "any_keys = [K_string, K_bool, K_double, K_int, K_bytes, K_array, K_key_value_list]"

text \<open>\<open>IntEnum(k)\<close>: the members are numbered from one.\<close>

definition enum_member :: "'a list \<Rightarrow> pyval \<Rightarrow> 'a option" where
  "enum_member members k =
     (case p_as_int k of
        Some i \<Rightarrow> if 1 \<le> i \<and> i \<le> int (length members) then Some (members ! nat (i - 1)) else None
      | None \<Rightarrow> None)"

definition chunk_key_strings :: "string list" where
  "chunk_key_strings = [''origin'']"

definition span_key_strings :: "string list" where
  "span_key_strings = [''service'', ''name'', ''resource'', ''type'', ''env'', ''version'', ''component'', ''serviceRef'',
     ''typeRef'', ''nameRef'', ''resourceRef'', ''envRef'', ''versionRef'', ''componentRef'']"

subsection \<open>Values\<close>

text \<open>\<open>if isinstance(v, int): v = strings[v]\<close>.\<close>

definition string_ref :: "string list \<Rightarrow> pyval \<Rightarrow> pyval res" where
  "string_ref strings v =
     (case p_as_int v of
        Some i \<Rightarrow> rbind (py_index strings i) (\<lambda>s. Inr (P_str s))
      | None \<Rightarrow> Inr v)"

text \<open>
  \<open>utils/proxy/trace_bytes_decoding.py\<close>, and the decoding of the AppSec values.  Undecodable
  bytes are a \<open>Unicode_Error\<close>, which both report as a \<open>Value_Error\<close>.
\<close>

definition utf8_or_value_error :: "bytes \<Rightarrow> pyval res" where
  "utf8_or_value_error b = (case utf8_strict b of Inr s \<Rightarrow> Inr (P_str s) | Inl _ \<Rightarrow> Inl Value_Error)"

definition decode_v1_bytes_value_attribute :: "codecs \<Rightarrow> bytes \<Rightarrow> pyval res" where
  "decode_v1_bytes_value_attribute L payload =
     (case unpackb L payload of
        Inr v \<Rightarrow> Inr v
      | Inl _ \<Rightarrow> (case ascii_decode payload of Inr s \<Rightarrow> Inr (P_str s) | Inl _ \<Rightarrow> Inl Value_Error))"

definition bytes_value :: "codecs \<Rightarrow> pyval \<Rightarrow> pyval res" where
  "bytes_value L v = (case v of P_bytes b \<Rightarrow> decode_v1_bytes_value_attribute L b | _ \<Rightarrow> Inr v)"

definition decode_appsec_s_value :: "codecs \<Rightarrow> pyval \<Rightarrow> pyval res" where
  "decode_appsec_s_value L v =
     rbind (case v of P_bytes b \<Rightarrow> utf8_or_value_error b | _ \<Rightarrow> Inr v) (\<lambda>v.
     if \<not> p_truthy v then Inl Value_Error
     else (case v of
         P_str s \<Rightarrow>
           if startswith (str_strip s) ''['' then json_loads L v
           else rbind (if list_all (\<lambda>c. c \<in> set b64_alphabet \<or> c = CHR ''='') s then b64decode s else Inl Value_Error) (\<lambda>b.
             case gunzip L b of
               Inl _ \<Rightarrow> Inl Value_Error
             | Inr d \<Rightarrow> rbind (utf8_or_value_error d) (json_loads L))
       | _ \<Rightarrow> Inl Attribute_Error))"

fun uncompress_array :: "codecs \<Rightarrow> string list \<Rightarrow> pyval \<Rightarrow> pyval res"
  and uncompress_items :: "codecs \<Rightarrow> string list \<Rightarrow> pyval list \<Rightarrow> pyval list res" where
  "uncompress_array L strings (P_list xs) =
     (if odd (length xs) then Inl Value_Error
      else rbind (uncompress_items L strings xs) (\<lambda>ys. Inr (P_list ys)))"
| "uncompress_array L strings v = Inl Type_Error"
| "uncompress_items L strings (t # v # rest) =
     (case enum_member any_keys t of
        None \<Rightarrow> Inl Value_Error
      | Some k \<Rightarrow>
          rbind (case k of
              K_string \<Rightarrow> string_ref strings v
            | K_bytes \<Rightarrow> bytes_value L v
            | K_array \<Rightarrow> uncompress_array L strings v
            | _ \<Rightarrow> Inr v) (\<lambda>v'.
          rbind (uncompress_items L strings rest) (\<lambda>vs. Inr (v' # vs))))"
| "uncompress_items L strings xs = Inr []"

text \<open>\<open>a, b = v\<close>, where any value of another length or that does not iterate is left alone.\<close>

definition unpack2 :: "pyval \<Rightarrow> (pyval \<times> pyval) option" where
  "unpack2 v = (case p_iter v of Inr [t, x] \<Rightarrow> Some (t, x) | _ \<Rightarrow> None)"

lemma unpack2_dict:
  "unpack2 v = Some (t, P_dict m) \<Longrightarrow> \<exists>t'. v = P_list [t', P_dict m] \<or>
     (\<exists>x y. v = P_dict [(t', x), (P_dict m, y)])"
  by (cases v) (auto simp: unpack2_def dkeys_def split: list.splits if_splits)

function uncompress_key_value_list ::
  "codecs \<Rightarrow> string list \<Rightarrow> (pyval \<times> pyval) list \<Rightarrow> pydict \<Rightarrow> pydict res" where
  "uncompress_key_value_list L strings [] result = Inr result"
| "uncompress_key_value_list L strings ((raw_key, pair) # rest) result =
     rbind (string_ref strings raw_key) (\<lambda>key.
     rbind (case unpack2 pair of
         None \<Rightarrow> Inr pair
       | Some (t, v) \<Rightarrow>
           (case enum_member any_keys t of
              Some K_string \<Rightarrow> string_ref strings v
            | Some K_array \<Rightarrow> uncompress_array L strings v
            | Some K_bytes \<Rightarrow> bytes_value L v
            | Some K_key_value_list \<Rightarrow>
                (case v of
                   P_dict kvl \<Rightarrow> rbind (uncompress_key_value_list L strings kvl []) (\<lambda>d. Inr (P_dict d))
                 | _ \<Rightarrow> Inl Attribute_Error)
            | _ \<Rightarrow> Inr v)) (\<lambda>value.
     uncompress_key_value_list L strings rest (dset key value result)))"
  by pat_completeness auto
termination
  by (relation "measure (\<lambda>(L, strings, kvl, result). size_list (size_prod size size) kvl)")
     (auto dest!: unpack2_dict)

subsection \<open>Attributes\<close>

definition json_meta_values :: "string list" where
  "json_meta_values = [''_dd.appsec.json'', ''_dd.iast.json'', ''_dd.span_links'']"

definition postprocess_attribute :: "codecs \<Rightarrow> pyval \<Rightarrow> pydict \<Rightarrow> pydict res" where
  "postprocess_attribute L key d =
     (case key of
        P_str k \<Rightarrow>
          rbind (dgetitem d key) (\<lambda>val.
          if startswith k ''_dd.appsec.s.'' then rbind (decode_appsec_s_value L val) (\<lambda>v. Inr (dset key v d))
          else if k = ''appsec'' \<or> k = ''_dd.stack'' then
            (case val of P_bytes b \<Rightarrow> rbind (unpackb L b) (\<lambda>v. Inr (dset key v d)) | _ \<Rightarrow> Inr d)
          else if k \<in> set json_meta_values then
            (case val of
               P_str s \<Rightarrow> rbind (json_loads L val) (\<lambda>v. Inr (dset key v d))
             | P_bytes b \<Rightarrow> rbind (json_loads L val) (\<lambda>v. Inr (dset key v d))
             | _ \<Rightarrow> Inr d)
          else Inr d)
      | P_bytes b \<Rightarrow> Inl Type_Error
      | _ \<Rightarrow> Inl Attribute_Error)"

definition postprocess_attribute_values :: "codecs \<Rightarrow> pydict \<Rightarrow> pydict res" where
  "postprocess_attribute_values L attrs = rfold (postprocess_attribute L) (dkeys attrs) attrs"

definition attribute_value :: "codecs \<Rightarrow> string list \<Rightarrow> pyval \<Rightarrow> pyval \<Rightarrow> pyval res" where
  "attribute_value L strings t v =
     (case enum_member any_keys t of
        Some K_string \<Rightarrow> string_ref strings v
      | Some K_array \<Rightarrow> uncompress_array L strings v
      | Some K_bytes \<Rightarrow> bytes_value L v
      | Some K_key_value_list \<Rightarrow>
          rbind (p_items v) (\<lambda>kvl. rbind (uncompress_key_value_list L strings kvl []) (\<lambda>d. Inr (P_dict d)))
      | _ \<Rightarrow> Inr v)"

fun attribute_triples :: "codecs \<Rightarrow> string list \<Rightarrow> pyval list \<Rightarrow> pydict \<Rightarrow> pydict res" where
  "attribute_triples L strings (k # t # v # rest) d =
     rbind (string_ref strings k) (\<lambda>key.
     rbind (attribute_value L strings t v) (\<lambda>value.
     if p_hashable key then attribute_triples L strings rest (dset key value d) else Inl Type_Error))"
| "attribute_triples L strings xs d = Inr d"

definition attributes_to_dict :: "codecs \<Rightarrow> string list \<Rightarrow> pyval \<Rightarrow> pyval res" where
  "attributes_to_dict L strings attrs =
     (case attrs of
        P_list xs \<Rightarrow>
          if length xs mod 3 \<noteq> 0 then Inl Value_Error
          else rbind (attribute_triples L strings xs []) (\<lambda>d.
            rbind (postprocess_attribute_values L d) (\<lambda>d. Inr (P_dict d)))
      | _ \<Rightarrow> Inl Type_Error)"


subsection \<open>Links and events of a span\<close>

definition trace_id_hex :: "bytes \<Rightarrow> pyval" where
  "trace_id_hex b = P_str (''0x'' @ hex_upper b)"

text \<open>The members of a map by their names: a key that is no member is kept.\<close>

definition named_keys :: "string list \<Rightarrow> (pyval \<times> pyval) list \<Rightarrow> pydict" where
  "named_keys members kvs =
     fold (\<lambda>(k, v). dset (case enum_member members k of Some n \<Rightarrow> P_str n | None \<Rightarrow> k) v) kvs []"

text \<open>\<open>strings[int(k)]\<close> and \<open>strings[v]\<close>.\<close>

definition int_of :: "pyval \<Rightarrow> int res" where
  "int_of v =
     (case v of
        P_str s \<Rightarrow> py_int 10 s
      | P_bytes b \<Rightarrow> py_int 10 (map char_of_byte b)
      | _ \<Rightarrow> of_option Type_Error (p_as_int v))"

definition string_at :: "string list \<Rightarrow> pyval \<Rightarrow> pyval res" where
  "string_at strings v =
     rbind (of_option Type_Error (p_as_int v)) (\<lambda>i. rbind (py_index strings i) (\<lambda>s. Inr (P_str s)))"

definition uncompress_attribute :: "codecs \<Rightarrow> string list \<Rightarrow> pyval \<Rightarrow> pyval res" where
  "uncompress_attribute L strings v =
     (let has = (\<lambda>k. p_contains k v) in
      rbind (has ''stringValueRef'') (\<lambda>b. if b then rbind (p_item ''stringValueRef'' v) (string_at strings) else
      rbind (has ''boolValue'') (\<lambda>b. if b then p_item ''boolValue'' v else
      rbind (has ''doubleValue'') (\<lambda>b. if b then p_item ''doubleValue'' v else
      rbind (has ''intValue'') (\<lambda>b. if b then p_item ''intValue'' v else
      rbind (has ''bytesValue'') (\<lambda>b. if b then
        rbind (p_item ''bytesValue'' v) (\<lambda>raw.
        rbind (case raw of P_str s \<Rightarrow> rbind (b64decode_lenient s) (\<lambda>b. Inr (P_bytes b)) | _ \<Rightarrow> Inr raw) (bytes_value L)) else
      rbind (has ''arrayValue'') (\<lambda>b. if b then p_item ''arrayValue'' v else
      rbind (has ''keyValueList'') (\<lambda>b. if b then p_item ''keyValueList'' v else
      Inl Value_Error))))))))"

definition uncompress_attributes :: "codecs \<Rightarrow> string list \<Rightarrow> pyval \<Rightarrow> pyval res" where
  "uncompress_attributes L strings attrs =
     rbind (p_items attrs) (\<lambda>kvs.
     rbind (rfold (\<lambda>(k, v) d.
         rbind (int_of k) (\<lambda>i. rbind (py_index strings i) (\<lambda>k_str.
         rbind (uncompress_attribute L strings v) (\<lambda>x. Inr (dset (P_str k_str) x d))))) kvs []) (\<lambda>d.
     rbind (postprocess_attribute_values L d) (\<lambda>d. Inr (P_dict d))))"

text \<open>The attributes of a link or of an event: a list is decoded, anything else may fail and is then kept.\<close>

definition nested_attributes :: "codecs \<Rightarrow> string list \<Rightarrow> pydict \<Rightarrow> pydict res" where
  "nested_attributes L strings d =
     (case dget d (P_str ''attributes'') of
        None \<Rightarrow> Inr d
      | Some (P_list xs) \<Rightarrow>
          rbind (attributes_to_dict L strings (P_list xs)) (\<lambda>a. Inr (dset (P_str ''attributes'') a d))
      | Some attrs \<Rightarrow>
          (case uncompress_attributes L strings attrs of
             Inl _ \<Rightarrow> Inr d
           | Inr a \<Rightarrow> Inr (dset (P_str ''attributes'') a d)))"

text \<open>\<open>if isinstance(i, int) and i < len(strings): d[target] = strings[i]\<close>.\<close>

definition resolve_into :: "string \<Rightarrow> string list \<Rightarrow> pyval \<Rightarrow> pydict \<Rightarrow> pydict res" where
  "resolve_into target strings v d =
     (case p_as_int v of
        Some i \<Rightarrow>
          if i < int (length strings)
          then rbind (py_index strings i) (\<lambda>s. Inr (dset (P_str target) (P_str s) d)) else Inr d
      | None \<Rightarrow> Inr d)"

definition uncompress_link :: "codecs \<Rightarrow> string list \<Rightarrow> pyval \<Rightarrow> pyval res" where
  "uncompress_link L strings link =
     (case link of
        P_dict kvs \<Rightarrow>
          (let d = named_keys span_link_keys kvs;
               d = (case dget d (P_str ''trace_id'') of
                   Some (P_bytes b) \<Rightarrow> dset (P_str ''trace_id'') (trace_id_hex b) d
                 | Some (P_str s) \<Rightarrow>
                     (case b64decode_lenient s of
                        Inl _ \<Rightarrow> d
                      | Inr b \<Rightarrow> dset (P_str ''trace_id'') (trace_id_hex b) d)
                 | _ \<Rightarrow> d)
           in rbind (nested_attributes L strings d) (\<lambda>d.
              rbind (case dget d (P_str ''trace_state'') of
                  None \<Rightarrow> Inr d | Some v \<Rightarrow> resolve_into ''tracestate'' strings v d) (\<lambda>d.
              Inr (P_dict d))))
      | _ \<Rightarrow> Inr link)"

definition uncompress_span_links_list :: "codecs \<Rightarrow> string list \<Rightarrow> pyval \<Rightarrow> pyval res" where
  "uncompress_span_links_list L strings v =
     (case v of
        P_list links \<Rightarrow> rbind (rmap (uncompress_link L strings) links) (\<lambda>ls. Inr (P_list ls))
      | _ \<Rightarrow> Inr v)"

text \<open>The name of an event: a reference that is in range, or the value as it is.\<close>

definition event_name :: "string list \<Rightarrow> pyval \<Rightarrow> pyval res" where
  "event_name strings v =
     (case p_as_int v of
        Some i \<Rightarrow> if i < int (length strings) then string_at strings v else Inr v
      | None \<Rightarrow> Inr v)"

definition event_entries :: "string list \<Rightarrow> (pyval \<times> pyval) list \<Rightarrow> pydict res" where
  "event_entries strings kvs =
     rfold (\<lambda>(k, v) d.
         (case enum_member span_event_keys k of
            None \<Rightarrow> Inr (dset k v d)
          | Some n \<Rightarrow>
              if n = ''time'' then Inr (dset (P_str ''time_unix_nano'') v d)
              else if n = ''name_value'' then
                rbind (event_name strings v) (\<lambda>x. Inr (dset (P_str ''name'') x d))
              else Inr (dset (P_str n) v d))) kvs []"

definition uncompress_event :: "codecs \<Rightarrow> string list \<Rightarrow> pyval \<Rightarrow> pyval res" where
  "uncompress_event L strings event =
     (case event of
        P_dict kvs \<Rightarrow>
          rbind (event_entries strings kvs) (\<lambda>d.
          rbind (nested_attributes L strings d) (\<lambda>d. Inr (P_dict d)))
      | _ \<Rightarrow> Inr event)"

definition uncompress_span_events_list :: "codecs \<Rightarrow> string list \<Rightarrow> pyval \<Rightarrow> pyval res" where
  "uncompress_span_events_list L strings v =
     (case v of
        P_list events \<Rightarrow> rbind (rmap (uncompress_event L strings) events) (\<lambda>es. Inr (P_list es))
      | _ \<Rightarrow> Inr v)"

subsection \<open>Payload, chunks and spans of a tracer\<close>

definition span_entry :: "codecs \<Rightarrow> string list \<Rightarrow> pyval \<times> pyval \<Rightarrow> pydict \<Rightarrow> pydict res" where
  "span_entry L strings kv d =
     (case kv of (k, v) \<Rightarrow>
        rbind (of_option Key_Error (enum_member span_keys k)) (\<lambda>name.
        rbind (if name \<in> set span_key_strings then string_ref strings v else Inr v) (\<lambda>value.
        rbind (if name = ''span_links'' then uncompress_span_links_list L strings value
          else if name = ''span_events'' then uncompress_span_events_list L strings value
          else Inr value) (\<lambda>value.
        Inr (dset (P_str name) value d)))))"

definition uncompress_spans :: "codecs \<Rightarrow> string list \<Rightarrow> pyval \<Rightarrow> pyval res" where
  "uncompress_spans L strings spans =
     rbind (p_iter spans) (\<lambda>ss.
     rbind (rmap (\<lambda>span. rbind (p_items span) (\<lambda>kvs.
         rbind (rfold (span_entry L strings) kvs []) (\<lambda>d. Inr (P_dict d)))) ss) (\<lambda>ys.
     Inr (P_list ys)))"

definition chunk_entry :: "codecs \<Rightarrow> string list \<Rightarrow> pyval \<times> pyval \<Rightarrow> pydict \<Rightarrow> pydict res" where
  "chunk_entry L strings kv d =
     (case kv of (k, v) \<Rightarrow>
        rbind (of_option Value_Error (enum_member chunk_keys k)) (\<lambda>name.
        if name = ''spans'' then
          rbind (if name \<in> set chunk_key_strings then string_ref strings v else Inr v) (\<lambda>value.
          rbind (uncompress_spans L strings value) (\<lambda>value. Inr (dset (P_str name) value d)))
        else Inr (dset (P_str name) v d)))"

definition uncompress_chunks :: "codecs \<Rightarrow> string list \<Rightarrow> pyval \<Rightarrow> pyval res" where
  "uncompress_chunks L strings chunks =
     rbind (p_iter chunks) (\<lambda>cs.
     rbind (rmap (\<lambda>chunk. rbind (p_items chunk) (\<lambda>kvs.
         rbind (rfold (chunk_entry L strings) kvs []) (\<lambda>d. Inr (P_dict d)))) cs) (\<lambda>ys.
     Inr (P_list ys)))"

definition uncompress_keys :: "codecs \<Rightarrow> string list \<Rightarrow> pydict \<Rightarrow> pydict res" where
  "uncompress_keys L strings payload =
     rfold (\<lambda>(k, v) d.
         rbind (of_option Value_Error (enum_member payload_keys k)) (\<lambda>name.
         rbind (if name = ''chunks'' then uncompress_chunks L strings v else Inr v) (\<lambda>value.
         Inr (dset (P_str name) value d)))) payload []"

definition process_trace_attributes :: "codecs \<Rightarrow> string list \<Rightarrow> pyval \<Rightarrow> pyval res" where
  "process_trace_attributes L strings payload =
     (let decode = p_update_key ''attributes'' (attributes_to_dict L strings) in
      rbind (p_get ''attributes'' P_none payload) (\<lambda>root.
      rbind (case root of P_list xs \<Rightarrow> decode payload | _ \<Rightarrow> Inr payload)
        (p_update_get ''chunks'' (p_update_each (\<lambda>chunk.
          rbind (decode chunk) (p_update_get ''spans'' (p_update_each decode)))))))"

fun unstream_strings :: "pyval \<Rightarrow> string list \<Rightarrow> string list" where
  "unstream_strings (P_str s) strings = strings @ [s]"
| "unstream_strings (P_dict d) strings = fold (\<lambda>(k, v). unstream_strings v) d strings"
| "unstream_strings (P_list xs) strings = fold unstream_strings xs strings"
| "unstream_strings v strings = strings"

definition deserialize_trace_id :: "pyval \<Rightarrow> pyval res" where
  "deserialize_trace_id chunk =
     rbind (p_get ''trace_id'' P_none chunk) (\<lambda>v.
     (case v of P_bytes b \<Rightarrow> p_set ''trace_id'' (trace_id_hex b) chunk | _ \<Rightarrow> Inl Type_Error))"

definition deserialize_v1_trace :: "codecs \<Rightarrow> bytes \<Rightarrow> pyval res" where
  "deserialize_v1_trace L content =
     rbind (unpackb L content) (\<lambda>data.
     (case data of
        P_dict payload \<Rightarrow>
          (let strings = unstream_strings data [[]] in
           if payload = [] then Inr (P_dict [])
           else rbind (uncompress_keys L strings payload) (\<lambda>d.
             rbind (process_trace_attributes L strings (P_dict d))
               (p_update_get ''chunks'' (p_update_each deserialize_trace_id))))
      | _ \<Rightarrow> Inr (P_dict [])))"


subsection \<open>What the agent sends on\<close>

text \<open>\<open>uncompress_span_link\<close> and \<open>uncompress_span_event\<close> update their argument in place.\<close>

definition span_link_trace_id :: "pydict \<Rightarrow> pydict res" where
  "span_link_trace_id d =
     (case dget d (P_str ''trace_id'') of
        Some (P_bytes b) \<Rightarrow> Inr (dset (P_str ''trace_id'') (trace_id_hex b) d)
      | Some (P_str s) \<Rightarrow>
          Inr (if startswith s ''0x'' then d
            else (case b64decode_lenient s of
              Inl _ \<Rightarrow> d | Inr b \<Rightarrow> dset (P_str ''trace_id'') (trace_id_hex b) d))
      | Some _ \<Rightarrow> Inr d
      | None \<Rightarrow>
          (case dget d (P_str ''traceID'') of
             None \<Rightarrow> Inr d
           | Some (P_str s) \<Rightarrow>
               rbind (b64decode_lenient s) (\<lambda>b. Inr (dset (P_str ''traceID'') (trace_id_hex b) d))
           | Some _ \<Rightarrow> Inl Type_Error))"

definition attributes_in_place :: "codecs \<Rightarrow> string list \<Rightarrow> pydict \<Rightarrow> pydict res" where
  "attributes_in_place L strings d =
     (case dget d (P_str ''attributes'') of
        None \<Rightarrow> Inr d
      | Some attrs \<Rightarrow>
          rbind (uncompress_attributes L strings attrs) (\<lambda>a. Inr (dset (P_str ''attributes'') a d)))"

definition has_int_key :: "pydict \<Rightarrow> bool" where
  "has_int_key d \<longleftrightarrow> list_ex (\<lambda>k. p_as_int k \<noteq> None) (dkeys d)"

definition uncompress_span_link :: "codecs \<Rightarrow> string list \<Rightarrow> pydict \<Rightarrow> pydict res" where
  "uncompress_span_link L strings link =
     (let d = (if has_int_key link then named_keys span_link_keys link else link) in
      rbind (span_link_trace_id d) (\<lambda>d.
      rbind (attributes_in_place L strings d) (\<lambda>d.
      case dget d (P_str ''tracestateRef'') of
        Some r \<Rightarrow> resolve_into ''tracestate'' strings r (ddel (P_str ''tracestateRef'') d)
      | None \<Rightarrow>
          (case dget d (P_str ''trace_state'') of
             Some r \<Rightarrow> resolve_into ''tracestate'' strings r d
           | None \<Rightarrow> Inr d))))"

definition rename_event_keys :: "string list \<Rightarrow> pydict \<Rightarrow> pydict res" where
  "rename_event_keys strings d =
     rbind (case dget d (P_str ''name_value'') of
         None \<Rightarrow> Inr d
       | Some v \<Rightarrow>
           rbind (event_name strings v) (\<lambda>x. Inr (dset (P_str ''name'') x (ddel (P_str ''name_value'') d)))) (\<lambda>d.
     Inr (case dget d (P_str ''time'') of
         Some t \<Rightarrow>
           if dhas d (P_str ''time_unix_nano'') then d
           else dset (P_str ''time_unix_nano'') t (ddel (P_str ''time'') d)
       | None \<Rightarrow> d))"

definition uncompress_span_event :: "codecs \<Rightarrow> string list \<Rightarrow> pydict \<Rightarrow> pydict res" where
  "uncompress_span_event L strings event =
     rbind (if has_int_key event then event_entries strings event else rename_event_keys strings event)
       (attributes_in_place L strings)"

text \<open>A map that the code updates in place; the agent sends maps here.\<close>

definition in_dict :: "(pydict \<Rightarrow> pydict res) \<Rightarrow> pyval \<Rightarrow> pyval res" where
  "in_dict f v = (case v of P_dict d \<Rightarrow> rbind (f d) (\<lambda>d. Inr (P_dict d)) | _ \<Rightarrow> Inl Type_Error)"

definition uncompress_spans_values :: "string list \<Rightarrow> pyval \<Rightarrow> pyval res" where
  "uncompress_spans_values strings spans =
     rbind (p_iter spans) (\<lambda>ss.
     rbind (rmap (\<lambda>span. rbind (p_items span) (\<lambda>kvs.
         rbind (rfold (\<lambda>(k, v) d.
             rbind (if k \<in> set (map P_str span_key_strings) then string_ref strings v else Inr v) (\<lambda>value.
             Inr (dset k value d))) kvs []) (\<lambda>d. Inr (P_dict d)))) ss) (\<lambda>ys.
     Inr (P_list ys)))"

definition uncompress_chunks_values :: "string list \<Rightarrow> pyval \<Rightarrow> pyval res" where
  "uncompress_chunks_values strings chunks =
     rbind (p_iter chunks) (\<lambda>cs.
     rbind (rmap (\<lambda>chunk. rbind (p_items chunk) (\<lambda>kvs.
         rbind (rfold (\<lambda>(k, v) d.
             if k = P_str ''spans'' then
               rbind (if k \<in> set (map P_str chunk_key_strings) then string_ref strings v else Inr v) (\<lambda>value.
               rbind (uncompress_spans_values strings value) (\<lambda>value. Inr (dset k value d)))
             else Inr (dset k v d)) kvs []) (\<lambda>d. Inr (P_dict d)))) cs) (\<lambda>ys.
     Inr (P_list ys)))"

definition uncompress_values :: "string list \<Rightarrow> pydict \<Rightarrow> pydict res" where
  "uncompress_values strings payload =
     rfold (\<lambda>(k, v) d.
         rbind (if k = P_str ''chunks'' then uncompress_chunks_values strings v else Inr v) (\<lambda>value.
         Inr (dset k value d))) payload []"

definition deserialize_base64_trace_id :: "pydict \<Rightarrow> pydict res" where
  "deserialize_base64_trace_id chunk =
     (case dget chunk (P_str ''traceID'') of
        Some (P_str s) \<Rightarrow>
          rbind (b64decode_lenient s) (\<lambda>b. Inr (dset (P_str ''traceID'') (trace_id_hex b) chunk))
      | _ \<Rightarrow> Inl Type_Error)"

definition set_attributes :: "codecs \<Rightarrow> string list \<Rightarrow> pydict \<Rightarrow> pydict res" where
  "set_attributes L strings d =
     rbind (uncompress_attributes L strings
         (case dget d (P_str ''attributes'') of None \<Rightarrow> P_dict [] | Some a \<Rightarrow> a)) (\<lambda>a.
     Inr (dset (P_str ''attributes'') a d))"

definition agent_span :: "codecs \<Rightarrow> string list \<Rightarrow> pydict \<Rightarrow> pydict res" where
  "agent_span L strings span =
     rbind (set_attributes L strings span) (\<lambda>d.
     rbind (p_update_get ''links'' (p_update_each (in_dict (uncompress_span_link L strings))) (P_dict d)) (\<lambda>s.
     rbind (p_items s) (\<lambda>d.
     let events = p_update_key (if \<exists>v. dget d (P_str ''spanEvents'') = Some v \<and> p_truthy v
           then ''spanEvents'' else ''span_events'')
         (\<lambda>v. if p_truthy v then p_update_each (in_dict (uncompress_span_event L strings)) v else Inr v)
     in rbind (events (P_dict d)) p_items)))"

definition agent_chunk :: "codecs \<Rightarrow> string list \<Rightarrow> pydict \<Rightarrow> pydict res" where
  "agent_chunk L strings chunk =
     rbind (deserialize_base64_trace_id chunk) (\<lambda>d.
     rbind (set_attributes L strings d) (\<lambda>d.
     rbind (case dget d (P_str ''originRef'') of
         None \<Rightarrow> Inr d | Some r \<Rightarrow> resolve_into ''origin'' strings r d) (\<lambda>d.
     rbind (p_update_get ''spans'' (p_update_each (in_dict (agent_span L strings))) (P_dict d)) p_items)))"

text \<open>The field \<open>strings\<close> is a repeated string field of the message: a list of texts.\<close>

definition strings_of :: "pyval \<Rightarrow> string list res" where
  "strings_of v =
     (case v of
        P_list xs \<Rightarrow> rmap (\<lambda>x. case x of P_str s \<Rightarrow> Inr s | _ \<Rightarrow> Inl Type_Error) xs
      | _ \<Rightarrow> Inl Type_Error)"

definition agent_payload :: "codecs \<Rightarrow> pydict \<Rightarrow> pydict res" where
  "agent_payload L payload =
     rbind (strings_of (case dget payload (P_str ''strings'') of None \<Rightarrow> P_list [] | Some v \<Rightarrow> v)) (\<lambda>strings.
     rbind (uncompress_values strings payload) (\<lambda>d.
     rbind (set_attributes L strings d) (\<lambda>d.
     rbind (p_update_get ''chunks'' (p_update_each (in_dict (agent_chunk L strings))) (P_dict d)) p_items)))"

definition uncompress_agent_v1_trace :: "codecs \<Rightarrow> string \<Rightarrow> pydict \<Rightarrow> pydict option res" where
  "uncompress_agent_v1_trace L interface data =
     (if interface \<noteq> ''agent'' then Inr None
      else if \<not> dhas data (P_str ''idxTracerPayloads'') then Inr None
      else rbind (p_update_key ''idxTracerPayloads'' (p_update_each (in_dict (agent_payload L))) (P_dict data)) (\<lambda>v.
        rbind (p_items v) (\<lambda>d. Inr (Some d))))"

end
