(* ===== verification/Trace_V1_Roundtrip.thy ===== *)
theory Trace_V1_Roundtrip
  imports Trace_V1
begin

section \<open>Round trip of the streamed strings of a v1 trace\<close>

text \<open>
  The tracer keeps a table of the texts that it has sent: a text is written once and is an
  index afterwards.  An encoder takes the table and returns what it writes and the new table.
\<close>

type_synonym encoder = "string list \<Rightarrow> pyval \<times> string list"

definition index_in :: "string \<Rightarrow> string list \<Rightarrow> nat" where
  "index_in s xs = length (takeWhile (\<lambda>x. x \<noteq> s) xs)"

definition e_const :: "pyval \<Rightarrow> encoder" where
  "e_const v seen = (v, seen)"

definition e_string :: "string \<Rightarrow> encoder" where
  "e_string s seen = (if s \<in> set seen then (P_int (int (index_in s seen)), seen) else (P_str s, seen @ [s]))"

fun e_run :: "encoder list \<Rightarrow> string list \<Rightarrow> pyval list \<times> string list" where
  "e_run [] seen = ([], seen)"
| "e_run (e # es) seen =
     (case e seen of (v, seen1) \<Rightarrow> case e_run es seen1 of (vs, seen2) \<Rightarrow> (v # vs, seen2))"

definition e_list :: "encoder list \<Rightarrow> encoder" where
  "e_list es seen = (case e_run es seen of (vs, seen') \<Rightarrow> (P_list vs, seen'))"

definition e_map :: "(int \<times> encoder) list \<Rightarrow> encoder" where
  "e_map kes seen =
     (case e_run (map snd kes) seen of (vs, seen') \<Rightarrow> (P_dict (zip (map (P_int \<circ> fst) kes) vs), seen'))"

lemma e_const_eq: "e_const v seen = (v, seen)"
  by (simp add: e_const_def)

datatype attr = A_string string | A_bool bool | A_double "64 word" | A_int int | A_array "attr list"

fun attr_type :: "attr \<Rightarrow> int" where
  "attr_type (A_string s) = 1"
| "attr_type (A_bool b) = 2"
| "attr_type (A_double w) = 3"
| "attr_type (A_int i) = 4"
| "attr_type (A_array xs) = 6"

fun e_attr :: "attr \<Rightarrow> encoder" where
  "e_attr (A_string s) = e_string s"
| "e_attr (A_bool b) = e_const (P_bool b)"
| "e_attr (A_double w) = e_const (P_float w)"
| "e_attr (A_int i) = e_const (P_int i)"
| "e_attr (A_array xs) = e_list (concat (map (\<lambda>x. [e_const (P_int (attr_type x)), e_attr x]) xs))"

fun plain :: "attr \<Rightarrow> pyval" where
  "plain (A_string s) = P_str s"
| "plain (A_bool b) = P_bool b"
| "plain (A_double w) = P_float w"
| "plain (A_int i) = P_int i"
| "plain (A_array xs) = P_list (map plain xs)"

type_synonym attrs = "(string \<times> attr) list"

definition e_attrs :: "attrs \<Rightarrow> encoder" where
  "e_attrs kvs = e_list (concat (map (\<lambda>(k, a). [e_string k, e_const (P_int (attr_type a)), e_attr a]) kvs))"

definition plain_attrs :: "attrs \<Rightarrow> pyval" where
  "plain_attrs kvs = P_dict (fold (\<lambda>(k, a). dset (P_str k) (plain a)) kvs [])"

record span =
  sp_service :: string
  sp_name :: string
  sp_resource :: string
  sp_id :: int
  sp_attrs :: attrs

record chunk =
  ch_origin_attrs :: attrs
  ch_spans :: "span list"
  ch_trace_id :: bytes

record payload =
  pl_attrs :: attrs
  pl_chunks :: "chunk list"

definition e_span :: "span \<Rightarrow> encoder" where
  "e_span s = e_map [(1, e_string (sp_service s)), (2, e_string (sp_name s)), (3, e_string (sp_resource s)),
     (4, e_const (P_int (sp_id s))), (9, e_attrs (sp_attrs s))]"

definition e_chunk :: "chunk \<Rightarrow> encoder" where
  "e_chunk c = e_map [(3, e_attrs (ch_origin_attrs c)), (4, e_list (map e_span (ch_spans c))),
     (6, e_const (P_bytes (ch_trace_id c)))]"

definition e_payload :: "payload \<Rightarrow> encoder" where
  "e_payload p = e_map [(10, e_attrs (pl_attrs p)), (11, e_list (map e_chunk (pl_chunks p)))]"

definition plain_span :: "span \<Rightarrow> pyval" where
  "plain_span s = P_dict [(P_str ''service'', P_str (sp_service s)), (P_str ''name'', P_str (sp_name s)),
     (P_str ''resource'', P_str (sp_resource s)), (P_str ''span_id'', P_int (sp_id s)),
     (P_str ''attributes'', plain_attrs (sp_attrs s))]"

definition plain_chunk :: "chunk \<Rightarrow> pyval" where
  "plain_chunk c = P_dict [(P_str ''attributes'', plain_attrs (ch_origin_attrs c)),
     (P_str ''spans'', P_list (map plain_span (ch_spans c))), (P_str ''trace_id'', trace_id_hex (ch_trace_id c))]"

definition plain_payload :: "payload \<Rightarrow> pyval" where
  "plain_payload p = P_dict [(P_str ''attributes'', plain_attrs (pl_attrs p)),
     (P_str ''chunks'', P_list (map plain_chunk (pl_chunks p)))]"

subsection \<open>The receiver rebuilds the table\<close>

text \<open>An encoder streams when it only extends the table, by the texts that it writes.\<close>

definition streams :: "encoder \<Rightarrow> bool" where
  "streams e \<longleftrightarrow> (\<forall>seen v seen'. e seen = (v, seen') \<longrightarrow>
     unstream_strings v seen = seen' \<and> prefix seen seen')"

lemma streamsD:
  assumes "streams e" "e seen = (v, seen')"
  shows "unstream_strings v seen = seen'" "prefix seen seen'"
  using assms by (auto simp: streams_def)

lemma streams_const: "unstream_strings v = (\<lambda>seen. seen) \<Longrightarrow> streams (e_const v)"
  by (simp add: streams_def e_const_def)

lemma streams_leaf: "streams (e_const (P_int i))" "streams (e_const (P_bool b))"
  "streams (e_const (P_float w))" "streams (e_const (P_bytes c))"
  by (auto intro!: streams_const simp: fun_eq_iff)

lemma streams_string: "streams (e_string s)"
  by (simp add: streams_def e_string_def)

lemma streams_run:
  assumes "\<forall>e \<in> set es. streams e" "e_run es seen = (vs, seen')"
  shows "fold unstream_strings vs seen = seen' \<and> prefix seen seen' \<and> length vs = length es"
  using assms
proof (induction es arbitrary: seen vs seen')
  case (Cons e es)
  obtain v seen1 where e: "e seen = (v, seen1)" by force
  obtain ws seen2 where es: "e_run es seen1 = (ws, seen2)" by force
  from Cons.prems have "vs = v # ws" "seen' = seen2" by (simp_all add: e es)
  moreover from Cons.prems(1) have "streams e" by simp
  ultimately show ?case
    using Cons.IH [OF _ es] Cons.prems(1) streamsD [OF \<open>streams e\<close> e] by (auto intro: prefix_order.trans)
qed simp

lemma streams_list: "\<forall>e \<in> set es. streams e \<Longrightarrow> streams (e_list es)"
  unfolding streams_def [of "e_list es"] e_list_def
  by (auto dest: streams_run split: prod.splits)

lemma fold_values_zip:
  "length ks = length vs \<Longrightarrow> fold (\<lambda>(k, v). unstream_strings v) (zip ks vs) = fold unstream_strings vs"
  by (induction ks vs rule: list_induct2) (simp_all add: fun_eq_iff)

lemma streams_map: "\<forall>(k, e) \<in> set kes. streams e \<Longrightarrow> streams (e_map kes)"
proof -
  assume "\<forall>(k, e) \<in> set kes. streams e"
  then have all: "\<forall>e \<in> set (map snd kes). streams e" by auto
  show ?thesis
    unfolding streams_def [of "e_map kes"] e_map_def
    by (auto dest: streams_run [OF all] simp: fold_values_zip split: prod.splits)
qed

lemma streams_attr: "streams (e_attr a)"
  by (induction a rule: e_attr.induct) (auto intro!: streams_string streams_leaf streams_list)

lemma streams_attrs: "streams (e_attrs kvs)"
  unfolding e_attrs_def by (intro streams_list) (auto intro!: streams_string streams_leaf streams_attr)

lemma streams_span: "streams (e_span s)"
  unfolding e_span_def by (rule streams_map) (auto intro!: streams_string streams_leaf streams_attrs)

lemma streams_chunk: "streams (e_chunk c)"
  unfolding e_chunk_def
  by (rule streams_map) (auto intro!: streams_leaf streams_attrs streams_list streams_span)

lemma streams_payload: "streams (e_payload p)"
  unfolding e_payload_def by (rule streams_map) (auto intro!: streams_attrs streams_list streams_chunk)


subsection \<open>The values are read back\<close>

lemma string_ref_int: "i < length T \<Longrightarrow> string_ref T (P_int (int i)) = Inr (P_str (T ! i))"
  by (simp add: string_ref_def py_index_nth)

lemma index_in_nth: "s \<in> set xs \<Longrightarrow> index_in s xs < length xs \<and> xs ! index_in s xs = s"
  by (induction xs) (auto simp: index_in_def)

lemma string_read:
  assumes "e_string s seen = (v, seen')" "prefix seen' T"
  shows "string_ref T v = Inr (P_str s)"
proof (cases "s \<in> set seen")
  case True
  with assms have v: "v = P_int (int (index_in s seen))" "prefix seen T" by (auto simp: e_string_def)
  with index_in_nth [OF True] show ?thesis by (auto simp: string_ref_int prefix_def nth_append)
next
  case False
  with assms have "v = P_str s" by (simp add: e_string_def)
  then show ?thesis by (simp add: string_ref_def)
qed

text \<open>What the decoder of the value of an attribute makes of \<open>v\<close>, by the kind of the attribute.\<close>

definition reads :: "codecs \<Rightarrow> string list \<Rightarrow> attr \<Rightarrow> pyval \<Rightarrow> bool" where
  "reads L T a v \<longleftrightarrow>
     (case a of
        A_string s \<Rightarrow> string_ref T v = Inr (P_str s)
      | A_array xs \<Rightarrow> uncompress_array L T v = Inr (P_list (map plain xs))
      | _ \<Rightarrow> v = plain a)"

lemma any_key_of_attr:
  "enum_member any_keys (P_int (attr_type a)) =
     Some (case a of A_string s \<Rightarrow> K_string | A_bool b \<Rightarrow> K_bool | A_double w \<Rightarrow> K_double | A_int i \<Rightarrow> K_int
       | A_array xs \<Rightarrow> K_array)"
  by (cases a) (simp_all add: enum_member_def any_keys_def)

lemma uncompress_items_reads:
  assumes "\<forall>x \<in> set xs. \<forall>seen v seen'. e_attr x seen = (v, seen') \<longrightarrow> prefix seen' T \<longrightarrow> reads L T x v"
    and "e_run (concat (map (\<lambda>x. [e_const (P_int (attr_type x)), e_attr x]) xs)) seen = (vs, seen')"
    and "prefix seen' T"
  shows "uncompress_items L T vs = Inr (map plain xs) \<and> length vs = 2 * length xs"
  using assms
proof (induction xs arbitrary: seen vs)
  case (Cons x xs)
  let ?es = "concat (map (\<lambda>x. [e_const (P_int (attr_type x)), e_attr x]) xs)"
  obtain v seen1 where e: "e_attr x seen = (v, seen1)" by force
  obtain ws seen2 where es: "e_run ?es seen1 = (ws, seen2)" by force
  from Cons.prems have vs: "vs = P_int (attr_type x) # v # ws" "seen' = seen2"
    by (simp_all add: e_const_eq [of "P_int (attr_type x)" seen] e es)
  have "prefix seen1 seen2"
    using streams_run [OF _ es] by (auto intro!: streams_leaf streams_attr)
  with Cons.prems(3) vs have "prefix seen1 T" by (auto intro: prefix_order.trans)
  with Cons.prems(1) e have "reads L T x v" by auto
  moreover from Cons.IH [of seen1 ws] Cons.prems es vs
  have "uncompress_items L T ws = Inr (map plain xs)" "length ws = 2 * length xs" by auto
  ultimately show ?case
    unfolding vs uncompress_items.simps any_key_of_attr by (cases x) (auto simp: reads_def)
qed simp

lemma attr_reads: "e_attr a seen = (v, seen') \<Longrightarrow> prefix seen' T \<Longrightarrow> reads L T a v"
proof (induction a arbitrary: seen v seen')
  case (A_array xs)
  from A_array.prems obtain vs where v: "v = P_list vs"
    and vs: "e_run (concat (map (\<lambda>x. [e_const (P_int (attr_type x)), e_attr x]) xs)) seen = (vs, seen')"
    by (auto simp: e_list_def split: prod.splits)
  from A_array.IH have "\<forall>x \<in> set xs. \<forall>seen v seen'. e_attr x seen = (v, seen') \<longrightarrow> prefix seen' T \<longrightarrow> reads L T x v"
    by blast
  from uncompress_items_reads [OF this vs A_array.prems(2)] show ?case by (simp add: reads_def v)
qed (auto simp: reads_def e_const_def dest: string_read)

lemma attribute_value_reads: "reads L T a v \<Longrightarrow> attribute_value L T (P_int (attr_type a)) v = Inr (plain a)"
  unfolding attribute_value_def any_key_of_attr by (cases a) (simp_all add: reads_def)

lemma triples_read:
  assumes "e_run (concat (map (\<lambda>(k, a). [e_string k, e_const (P_int (attr_type a)), e_attr a]) kvs)) seen = (vs, seen')"
    and "prefix seen' T"
  shows "attribute_triples L T vs d = Inr (fold (\<lambda>(k, a). dset (P_str k) (plain a)) kvs d) \<and>
    length vs = 3 * length kvs"
  using assms
proof (induction kvs arbitrary: seen vs d)
  case (Cons ka kvs)
  let ?es = "concat (map (\<lambda>(k, a). [e_string k, e_const (P_int (attr_type a)), e_attr a]) kvs)"
  obtain k a where ka: "ka = (k, a)" by force
  obtain u seen0 where k: "e_string k seen = (u, seen0)" by force
  obtain v seen1 where a: "e_attr a seen0 = (v, seen1)" by force
  obtain ws seen2 where es: "e_run ?es seen1 = (ws, seen2)" by force
  from Cons.prems have vs: "vs = u # P_int (attr_type a) # v # ws" "seen' = seen2"
    by (simp_all add: e_const_eq [of "P_int (attr_type a)" seen0] ka k a es)
  have "prefix seen1 seen2"
    using streams_run [OF _ es] by (auto intro!: streams_leaf streams_attr streams_string)
  with Cons.prems(2) vs have T1: "prefix seen1 T" by (auto intro: prefix_order.trans)
  moreover from streamsD(2) [OF streams_attr a] have "prefix seen0 seen1" .
  ultimately have "string_ref T u = Inr (P_str k)"
    by (intro string_read [OF k]) (auto intro: prefix_order.trans)
  moreover from attr_reads [OF a T1] have "attribute_value L T (P_int (attr_type a)) v = Inr (plain a)"
    by (rule attribute_value_reads)
  ultimately show ?case
    using Cons.IH [OF _ Cons.prems(2), of seen1 ws] es vs by (simp add: ka)
qed simp


text \<open>The keys that \<open>postprocess_attribute_values\<close> leaves alone.\<close>

definition plain_key :: "string \<Rightarrow> bool" where
  "plain_key k \<longleftrightarrow> \<not> startswith k ''_dd.appsec.s.'' \<and> k \<noteq> ''appsec'' \<and> k \<noteq> ''_dd.stack'' \<and> k \<notin> set json_meta_values"

definition plain_keys :: "attrs \<Rightarrow> bool" where
  "plain_keys kvs \<longleftrightarrow> (\<forall>(k, a) \<in> set kvs. plain_key k)"

lemma rfold_same: "\<forall>k \<in> set ks. f k d = Inr d \<Longrightarrow> rfold f ks d = Inr d"
  by (induction ks) auto

lemma postprocess_plain:
  assumes "\<forall>key \<in> set (dkeys d). \<exists>k. key = P_str k \<and> plain_key k"
  shows "postprocess_attribute_values L d = Inr d"
  unfolding postprocess_attribute_values_def
proof (rule rfold_same, rule ballI)
  fix key assume key: "key \<in> set (dkeys d)"
  with assms obtain k where k: "key = P_str k" "plain_key k" by blast
  from key obtain v where "dget d key = Some v" using dhas_keys [of d key] by (auto simp: dhas_def)
  with k show "postprocess_attribute L key d = Inr d"
    by (simp add: postprocess_attribute_def plain_key_def dgetitem_def)
qed

lemma fold_dset_keys:
  "set (dkeys (fold (\<lambda>(k, a). dset (P_str k) (f a)) kvs d)) = set (dkeys d) \<union> (P_str \<circ> fst) ` set kvs"
proof (induction kvs arbitrary: d)
  case (Cons ka kvs)
  then show ?case by (cases ka) (auto simp: dkeys_dset)
qed simp

lemma attrs_read:
  assumes "e_attrs kvs seen = (v, seen')" "prefix seen' T" "plain_keys kvs"
  shows "attributes_to_dict L T v = Inr (plain_attrs kvs)"
proof -
  from assms(1) obtain vs where v: "v = P_list vs"
    and vs: "e_run (concat (map (\<lambda>(k, a). [e_string k, e_const (P_int (attr_type a)), e_attr a]) kvs)) seen = (vs, seen')"
    by (auto simp: e_attrs_def e_list_def split: prod.splits)
  have "postprocess_attribute_values L (fold (\<lambda>(k, a). dset (P_str k) (plain a)) kvs []) =
      Inr (fold (\<lambda>(k, a). dset (P_str k) (plain a)) kvs [])"
    using assms(3) by (intro postprocess_plain, unfold fold_dset_keys) (auto simp: plain_keys_def dkeys_def)
  with triples_read [OF vs assms(2)] show ?thesis
    by (simp add: attributes_to_dict_def v plain_attrs_def)
qed

subsection \<open>Spans, chunks and the payload\<close>

text \<open>A list whose elements are read in two passes.\<close>

lemma list_read:
  assumes "\<forall>x \<in> set xs. streams (e x)"
    and "\<forall>x \<in> set xs. \<forall>seen v seen'. e x seen = (v, seen') \<longrightarrow> prefix seen' T \<longrightarrow>
      (\<exists>r. f v = Inr r \<and> g r = Inr (p x))"
    and "e_run (map e xs) seen = (vs, seen')" "prefix seen' T"
  shows "\<exists>rs. rmap f vs = Inr rs \<and> rmap g rs = Inr (map p xs)"
  using assms
proof (induction xs arbitrary: seen vs)
  case (Cons x xs)
  obtain v seen1 where e: "e x seen = (v, seen1)" by force
  obtain ws seen2 where es: "e_run (map e xs) seen1 = (ws, seen2)" by force
  from Cons.prems have vs: "vs = v # ws" "seen' = seen2" by (simp_all add: e es)
  from Cons.prems(1) streams_run [OF _ es] have "prefix seen1 seen2" by auto
  with Cons.prems(4) vs have "prefix seen1 T" by (auto intro: prefix_order.trans)
  with Cons.prems(2) e obtain r where "f v = Inr r" "g r = Inr (p x)"
    by (metis list.set_intros(1))
  moreover obtain rs where "rmap f ws = Inr rs" "rmap g rs = Inr (map p xs)"
    using Cons.IH [OF _ _ es [folded vs(2)] Cons.prems(4)] Cons.prems(1,2) by (metis list.set_intros(2))
  ultimately show ?case by (auto simp: vs)
qed simp

lemma rmap_rbind:
  "rmap (\<lambda>x. rbind (g x) h) xs = Inr ys \<longleftrightarrow> (\<exists>zs. rmap g xs = Inr zs \<and> rmap h zs = Inr ys)"
  by (induction xs arbitrary: ys) (auto simp: rbind_Inr_iff)

definition span_items :: "codecs \<Rightarrow> string list \<Rightarrow> pyval \<Rightarrow> pyval res" where
  "span_items L T span = rbind (p_items span) (\<lambda>kvs. rbind (rfold (span_entry L T) kvs []) (\<lambda>d. Inr (P_dict d)))"

definition chunk_items :: "codecs \<Rightarrow> string list \<Rightarrow> pyval \<Rightarrow> pyval res" where
  "chunk_items L T chunk = rbind (p_items chunk) (\<lambda>kvs. rbind (rfold (chunk_entry L T) kvs []) (\<lambda>d. Inr (P_dict d)))"

definition decode_attributes :: "codecs \<Rightarrow> string list \<Rightarrow> pyval \<Rightarrow> pyval res" where
  "decode_attributes L T = p_update_key ''attributes'' (attributes_to_dict L T)"

lemmas member_simps = enum_member_def span_keys_def chunk_keys_def payload_keys_def nth_Cons'

lemma span_read:
  assumes "e_span s seen = (v, seen')" "prefix seen' T" "plain_keys (sp_attrs s)"
  shows "\<exists>r. span_items L T v = Inr r \<and> decode_attributes L T r = Inr (plain_span s)"
proof -
  obtain a s1 where a: "e_string (sp_service s) seen = (a, s1)" by force
  obtain b s2 where b: "e_string (sp_name s) s1 = (b, s2)" by force
  obtain c s3 where c: "e_string (sp_resource s) s2 = (c, s3)" by force
  obtain d s4 where d: "e_attrs (sp_attrs s) s3 = (d, s4)" by force
  from assms(1) have v: "v = P_dict [(P_int 1, a), (P_int 2, b), (P_int 3, c), (P_int 4, P_int (sp_id s)), (P_int 9, d)]"
    "seen' = s4"
    by (simp_all add: e_span_def e_map_def a b c d e_const_eq [of "P_int (sp_id s)" s3])
  have order: "prefix s1 s2" "prefix s2 s3" "prefix s3 s4"
    using streamsD(2) [OF streams_string b] streamsD(2) [OF streams_string c] streamsD(2) [OF streams_attrs d] .
  with assms(2) v have T: "prefix s1 T" "prefix s2 T" "prefix s3 T" "prefix s4 T"
    by (meson prefix_order.trans)+
  have "string_ref T a = Inr (P_str (sp_service s))" "string_ref T b = Inr (P_str (sp_name s))"
    "string_ref T c = Inr (P_str (sp_resource s))"
    using string_read [OF a T(1)] string_read [OF b T(2)] string_read [OF c T(3)] .
  then show ?thesis
    using attrs_read [OF d T(4) assms(3), of L]
    by (simp add: v span_items_def span_entry_def member_simps span_key_strings_def decode_attributes_def
        p_update_key_def plain_span_def dhas_def dgetitem_def)
qed


definition plain_chunk_keys :: "chunk \<Rightarrow> bool" where
  "plain_chunk_keys c \<longleftrightarrow> plain_keys (ch_origin_attrs c) \<and> (\<forall>s \<in> set (ch_spans c). plain_keys (sp_attrs s))"

definition decode_chunk :: "codecs \<Rightarrow> string list \<Rightarrow> pyval \<Rightarrow> pyval res" where
  "decode_chunk L T chunk =
     rbind (decode_attributes L T chunk) (p_update_get ''spans'' (p_update_each (decode_attributes L T)))"

lemma chunk_read:
  assumes "e_chunk c seen = (v, seen')" "prefix seen' T" "plain_chunk_keys c"
  shows "\<exists>r. chunk_items L T v = Inr r \<and> rbind (decode_chunk L T r) deserialize_trace_id = Inr (plain_chunk c)"
proof -
  obtain a s1 where a: "e_attrs (ch_origin_attrs c) seen = (a, s1)" by force
  obtain bs s2 where b: "e_run (map e_span (ch_spans c)) s1 = (bs, s2)" by force
  from assms(1) have v: "v = P_dict [(P_int 3, a), (P_int 4, P_list bs), (P_int 6, P_bytes (ch_trace_id c))]" "seen' = s2"
    by (simp_all add: e_chunk_def e_map_def a e_list_def b e_const_eq [of "P_bytes (ch_trace_id c)" s2])
  have "prefix s1 s2" using streams_run [OF _ b] streams_span by auto
  with assms(2) v have T: "prefix s1 T" "prefix s2 T" by (meson prefix_order.trans)+
  have "\<exists>rs. rmap (span_items L T) bs = Inr rs \<and> rmap (decode_attributes L T) rs = Inr (map plain_span (ch_spans c))"
    using assms(3) by (intro list_read [OF _ _ b T(2)]) (auto simp: plain_chunk_keys_def streams_span intro: span_read)
  then obtain rs where rs: "rmap (span_items L T) bs = Inr rs"
    "rmap (decode_attributes L T) rs = Inr (map plain_span (ch_spans c))" by blast
  have spans: "uncompress_spans L T (P_list bs) = Inr (P_list rs)"
    using rs(1) by (simp add: uncompress_spans_def span_items_def [abs_def])
  have "attributes_to_dict L T a = Inr (plain_attrs (ch_origin_attrs c))"
    using attrs_read [OF a T(1)] assms(3) by (simp add: plain_chunk_keys_def)
  with spans rs(2) show ?thesis
    by (simp add: v chunk_items_def chunk_entry_def member_simps chunk_key_strings_def decode_chunk_def
        decode_attributes_def p_update_key_def p_update_get_def p_update_each_def plain_chunk_def dhas_def
        dgetitem_def deserialize_trace_id_def)
qed

definition plain_payload_keys :: "payload \<Rightarrow> bool" where
  "plain_payload_keys p \<longleftrightarrow> plain_keys (pl_attrs p) \<and> (\<forall>c \<in> set (pl_chunks p). plain_chunk_keys c)"

lemma payload_table:
  assumes "e_payload p seen = (v, seen')"
  shows "unstream_strings v seen = seen'"
  using streamsD(1) [OF streams_payload assms] .



text \<open>A payload in which the name of the span repeats a key of the chunk, and the key an attribute.\<close>

definition sample_payload :: payload where
  "sample_payload = \<lparr>pl_attrs = [(''env'', A_string ''prod'')],
     pl_chunks = [\<lparr>ch_origin_attrs = [(''web'', A_array [A_string ''prod'', A_int 1, A_array [A_bool True, A_string ''x'']])],
       ch_spans = [\<lparr>sp_service = ''web'', sp_name = ''env'', sp_resource = ''x'', sp_id = 7, sp_attrs = [(''x'', A_double 3)]\<rparr>],
       ch_trace_id = [0, 0xAB]\<rparr>]\<rparr>"

definition sample_codecs :: codecs where
  "sample_codecs = \<lparr>unpackb = (\<lambda>b. Inr (fst (e_payload sample_payload [[]]))), json_loads = (\<lambda>v. Inl Value_Error),
     gunzip = (\<lambda>b. Inl Value_Error)\<rparr>"


text \<open>Two references that the decoder loses.  The origin of a chunk is listed among the keys
  that may arrive as an index, but the index is returned as it came: the resolution stands in the
  branch of the spans, where the list never applies.  And a text that is first sent as a key of
  a key value list is not entered in the table (only the values of a map are visited): a later
  index to it is out of range, although such a key may itself be an index.
\<close>

theorem lost_references:
  "chunk_entry L strings (P_int 2, P_int i) d = Inr (dset (P_str ''origin'') (P_int i) d) \<and>
   deserialize_v1_trace (L\<lparr>unpackb := \<lambda>_. Inr (P_dict [(P_int 10, P_list
       [P_str a, P_int 7, P_dict [(P_str k, P_list [P_int 1, P_int 2])]])])\<rparr>) content = Inl Index_Error"
proof
  have "unpack2 (P_list [P_int 1, P_int 2]) = Some (P_int 1, P_int 2)" by (simp add: unpack2_def)
  then show "deserialize_v1_trace (L\<lparr>unpackb := \<lambda>_. Inr (P_dict [(P_int 10, P_list
       [P_str a, P_int 7, P_dict [(P_str k, P_list [P_int 1, P_int 2])]])])\<rparr>) content = Inl Index_Error"
    by (simp add: deserialize_v1_trace_def uncompress_keys_def member_simps process_trace_attributes_def
        p_update_key_def dhas_def dgetitem_def attributes_to_dict_def attribute_value_def any_keys_def
        string_ref_def py_index_def Let_def)
qed (simp add: chunk_entry_def member_simps)

text \<open>An unknown key of a span is a \<open>KeyError\<close>, which the handler of \<open>uncompress_spans\<close> that
  reports unknown keys (for a \<open>ValueError\<close>) does not catch; unknown keys of a payload and of a
  chunk are a \<open>ValueError\<close>.
\<close>

theorem unknown_keys:
  assumes "16 < i"
  shows "uncompress_spans L strings (P_list [P_dict [(P_int i, v)]]) = Inl Key_Error \<and>
    uncompress_chunks L strings (P_list [P_dict [(P_int i, v)]]) = Inl Value_Error \<and>
    uncompress_keys L strings [(P_int i, v)] = Inl Value_Error"
  using assms by (simp add: uncompress_spans_def uncompress_chunks_def uncompress_keys_def span_entry_def chunk_entry_def
      enum_member_def span_keys_def chunk_keys_def payload_keys_def)

theorem unknown_keys_witness:
  "uncompress_spans sample_codecs [] (P_list [P_dict [(P_int 17, P_none)]]) = Inl Key_Error"
  using unknown_keys [of 17 sample_codecs "[]" P_none] by simp

end
