(* ===== verification/Otlp_V1.thy ===== *)
theory Otlp_V1
  imports Trace_V1
begin

section \<open>OTLP traces (\<open>utils/proxy/traces/otlp_v1.py\<close>)\<close>

text \<open>
  The attribute lists of an OTLP payload are flattened to maps, in place: those of the
  resources, the scopes, the spans, their events and their links.
\<close>

definition otlp_value :: "pyval \<Rightarrow> pyval res" where
  "otlp_value v =
     (let field = (\<lambda>k. p_get k P_none v) in
      rbind (field ''stringValue'') (\<lambda>x. if x \<noteq> P_none then Inr x else
      rbind (field ''boolValue'') (\<lambda>x. if x \<noteq> P_none then Inr x else
      rbind (field ''intValue'') (\<lambda>x. if x \<noteq> P_none then rbind (int_of x) (\<lambda>i. Inr (P_int i)) else
      rbind (field ''doubleValue'') (\<lambda>x. if x \<noteq> P_none then Inr x else
      rbind (field ''arrayValue'') (\<lambda>x. if x \<noteq> P_none then Inr x else
      rbind (field ''kvlistValue'') (\<lambda>x. if x \<noteq> P_none then Inr x else
      rbind (field ''bytesValue'') (\<lambda>x. if x \<noteq> P_none then Inr x else
      Inl Value_Error))))))))"

definition flatten_otlp_attributes :: "pyval \<Rightarrow> pyval res" where
  "flatten_otlp_attributes attributes =
     rbind (p_iter attributes) (\<lambda>kvs.
     rbind (rfold (\<lambda>kv d.
         rbind (p_item ''value'' kv) (\<lambda>v.
         rbind (otlp_value v) (\<lambda>x.
         rbind (p_item ''key'' kv) (\<lambda>k.
         if p_hashable k then Inr (dset k x d) else Inl Type_Error)))) kvs []) (\<lambda>d. Inr (P_dict d)))"

text \<open>\<open>x["attributes"]\<close> flattened, when it is there and not empty.\<close>

definition flatten_attributes :: "pyval \<Rightarrow> pyval res" where
  "flatten_attributes x =
     rbind (p_get ''attributes'' (P_list []) x) (\<lambda>a.
     if p_truthy a then rbind (flatten_otlp_attributes a) (\<lambda>d. p_set ''attributes'' d x) else Inr x)"

definition flatten_resource :: "pyval \<Rightarrow> pyval res" where
  "flatten_resource resource =
     (if p_truthy resource then
        rbind (p_get ''attributes'' (P_list []) resource) (\<lambda>a.
        rbind (flatten_otlp_attributes a) (\<lambda>d. p_set ''attributes'' d resource))
      else Inr resource)"

definition flatten_span :: "pyval \<Rightarrow> pyval res" where
  "flatten_span span =
     rbind (flatten_attributes span) (\<lambda>span.
     rbind (p_update_get ''events'' (p_update_each flatten_attributes) span)
       (p_update_get ''links'' (p_update_each flatten_attributes)))"

definition flatten_scope_span :: "pyval \<Rightarrow> pyval res" where
  "flatten_scope_span scope_span =
     rbind (p_get ''scope'' (P_dict []) scope_span) (\<lambda>scope.
     rbind (flatten_attributes scope) (\<lambda>scope'.
     rbind (if scope' = scope then Inr scope_span else p_set ''scope'' scope' scope_span)
       (p_update_get ''spans'' (p_update_each flatten_span))))"

definition flatten_resource_span :: "pyval \<Rightarrow> pyval res" where
  "flatten_resource_span resource_span =
     rbind (p_get ''resource'' (P_dict []) resource_span) (\<lambda>resource.
     rbind (flatten_resource resource) (\<lambda>resource'.
     rbind (if resource' = resource then Inr resource_span else p_set ''resource'' resource' resource_span)
       (p_update_get ''scopeSpans'' (p_update_each flatten_scope_span))))"

definition deserialize_otlp_v1_trace :: "pyval \<Rightarrow> pyval res" where
  "deserialize_otlp_v1_trace = p_update_get ''resourceSpans'' (p_update_each flatten_resource_span)"

end
