(* ===== verification/Deserializer.thy ===== *)
theory Deserializer
  imports Otlp_V1 Metrics_V3
begin

section \<open>Deserialization of the captured messages (\<open>utils/proxy/_deserializer.py\<close>)\<close>

text \<open>
  The proxy decodes the body of every request and response according to the path, the content
  type and the interface.  What comes from libraries is a field of \<open>http_lib\<close>: the protobuf
  messages (by the name of their type), the columns of the v3 metrics, the parts of a multipart
  body, the MD5 digest and the text of a traceback.  The decoders of this repository
  (v1 traces, OTLP, v3 metrics) are those of their theories.
\<close>

unbundle bit_operations_syntax

record part =
  pt_headers :: "(bytes \<times> bytes) list"
  pt_content :: bytes
  pt_text :: "string res"

record 'f http_lib = codecs +
  protobuf :: "string \<Rightarrow> bytes \<Rightarrow> pyval res"
  v3_columns :: "bytes \<Rightarrow> 'f metric_data list res"
  v3_floats :: "'f float_ops"
  multipart :: "bytes \<Rightarrow> string \<Rightarrow> part list res"
  md5_hex :: "bytes \<Rightarrow> string"
  traceback_of :: "py_error \<Rightarrow> string"

definition codecs_of :: "'f http_lib \<Rightarrow> codecs" where
  "codecs_of L = \<lparr>unpackb = unpackb L, json_loads = json_loads L, gunzip = gunzip L\<rparr>"

definition get_header_value :: "string \<Rightarrow> (string \<times> string) list \<Rightarrow> string option" where
  "get_header_value name headers =
     map_option snd (find (\<lambda>h. str_lower (fst h) = str_lower name) headers)"

subsection \<open>Identifiers sent as signed integers, and the v0.5 format\<close>

definition parse_as_unsigned_int :: "pyval \<Rightarrow> nat \<Rightarrow> pyval res" where
  "parse_as_unsigned_int value size_in_bits =
     (case value of
        P_int v \<Rightarrow>
          if - (2 ^ size_in_bits - 1) \<le> v \<and> v \<le> 2 ^ size_in_bits - 1
          then Inr (P_int (if 0 \<le> v then v else (- v XOR (2 ^ size_in_bits - 1)) + 1))
          else Inl Assertion_Error
      | _ \<Rightarrow> Inr value)"

definition unsigned_span :: "pyval \<Rightarrow> pyval res" where
  "unsigned_span span =
     rfold (\<lambda>sub_key. p_update_key sub_key (\<lambda>v. parse_as_unsigned_int v 64))
       [''trace_id'', ''parent_id'', ''span_id''] span"

definition decode_unsigned_int_traces :: "pyval \<Rightarrow> pyval res" where
  "decode_unsigned_int_traces = p_update_each (p_update_each unsigned_span)"

text \<open>\<open>v[i]\<close> with a literal index, \<open>strings[int(v)]\<close> and \<open>v if v != 0 else None\<close>.\<close>

definition p_at :: "nat \<Rightarrow> pyval \<Rightarrow> pyval res" where
  "p_at i v =
     (case v of
        P_list xs \<Rightarrow> py_index xs (int i)
      | P_dict d \<Rightarrow> dgetitem d (P_int (int i))
      | P_str s \<Rightarrow> rbind (py_index s (int i)) (\<lambda>c. Inr (P_str [c]))
      | P_bytes b \<Rightarrow> rbind (py_index b (int i)) (\<lambda>w. Inr (P_int (uint w)))
      | _ \<Rightarrow> Inl Type_Error)"

definition table_ref :: "pyval list \<Rightarrow> pyval \<Rightarrow> pyval res" where
  "table_ref strings v = rbind (int_of v) (py_index strings)"

definition zero_as_none :: "pyval \<Rightarrow> pyval" where
  "zero_as_none v = (if v \<in> {P_int 0, P_bool False, P_float 0, P_float 0x8000000000000000} then P_none else v)"

definition table_dict :: "(pyval \<Rightarrow> pyval res) \<Rightarrow> pyval list \<Rightarrow> pyval \<Rightarrow> pyval res" where
  "table_dict value strings v =
     rbind (p_items v) (\<lambda>kvs.
     rbind (rfold (\<lambda>(k, x) d.
         rbind (table_ref strings k) (\<lambda>k. rbind (value x) (\<lambda>x.
         if p_hashable k then Inr (dset k x d) else Inl Type_Error))) kvs []) (\<lambda>d. Inr (P_dict d)))"

definition decode_v_0_5_span :: "pyval list \<Rightarrow> pyval \<Rightarrow> pyval res" where
  "decode_v_0_5_span strings span =
     (let text = (\<lambda>i. rbind (p_at i span) (table_ref strings)); field = (\<lambda>i. p_at i span) in
      rbind (text 0) (\<lambda>service. rbind (text 1) (\<lambda>name. rbind (text 2) (\<lambda>resource.
      rbind (field 3) (\<lambda>trace_id. rbind (field 4) (\<lambda>span_id. rbind (field 5) (\<lambda>parent_id.
      rbind (field 6) (\<lambda>start. rbind (field 7) (\<lambda>duration. rbind (field 8) (\<lambda>error.
      rbind (rbind (field 9) (table_dict (table_ref strings) strings)) (\<lambda>meta.
      rbind (rbind (field 10) (table_dict Inr strings)) (\<lambda>metrics.
      rbind (text 11) (\<lambda>kind.
      Inr (P_dict
        [(P_str ''service'', service), (P_str ''name'', name), (P_str ''resource'', resource),
         (P_str ''trace_id'', trace_id), (P_str ''span_id'', span_id),
         (P_str ''parent_id'', zero_as_none parent_id), (P_str ''start'', start),
         (P_str ''duration'', zero_as_none duration), (P_str ''error'', error),
         (P_str ''meta'', meta), (P_str ''metrics'', metrics), (P_str ''type'', kind)]))))))))))))))"

definition decode_v_0_5_traces :: "pyval \<Rightarrow> pyval res" where
  "decode_v_0_5_traces content =
     (case unpack2 content of
        None \<Rightarrow> Inl (case p_iter content of Inl e \<Rightarrow> e | Inr _ \<Rightarrow> Value_Error)
      | Some (strings, payload) \<Rightarrow>
          rbind (p_iter payload) (\<lambda>traces.
          rbind (rmap (\<lambda>spans.
              rbind (p_iter spans) (\<lambda>ss.
              rbind (if ss = [] then Inr [] else rbind (p_iter strings) (\<lambda>table. rmap (decode_v_0_5_span table) ss)) (\<lambda>ds.
              Inr (P_list ds)))) traces) (\<lambda>r. Inr (P_list r))))"

subsection \<open>Values nested in a trace\<close>

definition trace_json_meta_values :: "string list" where
  "trace_json_meta_values = [''_dd.appsec.json'', ''_dd.iast.json'']"

definition meta_value :: "codecs \<Rightarrow> pyval \<Rightarrow> pyval \<Rightarrow> pyval res" where
  "meta_value L key v =
     (case key of
        P_str k \<Rightarrow>
          if startswith k ''_dd.appsec.s.'' then decode_appsec_s_value L v
          else if k \<in> set trace_json_meta_values then json_loads L v
          else Inr v
      | P_bytes b \<Rightarrow> Inl Type_Error
      | _ \<Rightarrow> Inl Attribute_Error)"

definition map_values :: "(pyval \<Rightarrow> pyval \<Rightarrow> pyval res) \<Rightarrow> pydict \<Rightarrow> pydict res" where
  "map_values f d = rmap (\<lambda>(k, v). rbind (f k v) (\<lambda>x. Inr (k, x))) d"

definition meta_struct_value :: "codecs \<Rightarrow> pyval \<Rightarrow> pyval \<Rightarrow> pyval res" where
  "meta_struct_value L key v =
     (case v of P_str s \<Rightarrow> rbind (b64decode_lenient s) (unpackb L) | _ \<Rightarrow> Inr v)"

text \<open>\<open>deserialize_meta\<close>: a missing field is an empty map.\<close>

definition update_map :: "string \<Rightarrow> (pydict \<Rightarrow> pydict res) \<Rightarrow> pyval \<Rightarrow> pyval res" where
  "update_map k f v =
     rbind (p_get k (P_dict []) v) (\<lambda>x. rbind (p_items x) (\<lambda>d. rbind (f d) (\<lambda>d'.
       if d' = d then Inr v else p_set k (P_dict d') v)))"

definition deserialize_meta :: "codecs \<Rightarrow> pyval \<Rightarrow> pyval res" where
  "deserialize_meta L span =
     rbind (update_map ''meta'' (map_values (meta_value L)) span)
       (update_map ''metaStruct'' (map_values (meta_struct_value L)))"

definition deserialized_nested_json :: "codecs \<Rightarrow> pyval \<Rightarrow> string \<Rightarrow> pyval res" where
  "deserialized_nested_json L content interface =
     (if interface = ''agent'' then
        p_update_get ''tracerPayloads'' (p_update_each
          (p_update_get ''chunks'' (p_update_each
            (p_update_get ''spans'' (p_update_each (deserialize_meta L)))))) content
      else if interface = ''library'' then p_update_each (p_update_each (deserialize_meta L)) content
      else Inr content)"

text \<open>
  \<open>convert_bytes_values\<close>: the path names the place of a map; a key that is neither a text nor
  an integer is written as a question mark, which no compared path holds.
\<close>

definition path_key :: "pyval \<Rightarrow> string" where
  "path_key k = (case k of P_str s \<Rightarrow> s | P_int i \<Rightarrow> str_of_int i | _ \<Rightarrow> ''?'')"

definition bytes_at :: "codecs \<Rightarrow> string \<Rightarrow> bytes \<Rightarrow> pyval res" where
  "bytes_at L path b =
     (if path = ''[][].meta_struct'' then (case unpackb L b of Inr v \<Rightarrow> Inr v | Inl _ \<Rightarrow> Inl Value_Error)
      else (case ascii_decode b of Inr s \<Rightarrow> Inr (P_str s) | Inl _ \<Rightarrow> Inl Value_Error))"

fun convert_bytes_values :: "codecs \<Rightarrow> string \<Rightarrow> pyval \<Rightarrow> pyval res" where
  "convert_bytes_values L path (P_dict d) =
     rbind (rmap (\<lambda>(k, v).
         rbind (case v of
             P_bytes b \<Rightarrow> bytes_at L path b
           | P_dict m \<Rightarrow> convert_bytes_values L (path @ ''.'' @ path_key k) v
           | _ \<Rightarrow> Inr v) (\<lambda>x. Inr (k, x))) d) (\<lambda>d. Inr (P_dict d))"
| "convert_bytes_values L path (P_list xs) =
     rbind (rmap (convert_bytes_values L (path @ ''[]'')) xs) (\<lambda>ys. Inr (P_list ys))"
| "convert_bytes_values L path v = Inr v"


subsection \<open>The body of a message\<close>

text \<open>\<open>repr\<close> of a bytes object.\<close>

definition hex_lower :: "8 word \<Rightarrow> string" where
  "hex_lower w = str_lower (hex_upper [w])"

definition byte_repr :: "char \<Rightarrow> 8 word \<Rightarrow> string" where
  "byte_repr quote w =
     (let c = char_of_byte w in
      if c = quote \<or> c = CHR 0x5C then [CHR 0x5C, c]
      else if w = 9 then [CHR 0x5C, CHR ''t'']
      else if w = 10 then [CHR 0x5C, CHR ''n'']
      else if w = 13 then [CHR 0x5C, CHR ''r'']
      else if w < 0x20 \<or> 0x7F \<le> w then [CHR 0x5C, CHR ''x''] @ hex_lower w
      else [c])"

definition bytes_repr :: "bytes \<Rightarrow> string" where
  "bytes_repr b =
     (let quote = (if 0x27 \<in> set b \<and> 0x22 \<notin> set b then CHR 0x22 else CHR 0x27) in
      ''b'' @ [quote] @ concat (map (byte_repr quote) b) @ [quote])"

type_synonym exports = "(string \<times> bytes) list"

definition filename_of :: "string \<Rightarrow> string option" where
  "filename_of content_disposition =
     map_option (strip_by (\<lambda>c. c = CHR 0x22)) (dget
       (fold (\<lambda>part d.
           (case split_once CHR ''='' part of
              [k, v] \<Rightarrow> dset (str_strip k) (str_strip v) d
            | _ \<Rightarrow> d)) (str_split '';'' content_disposition) []) ''filename'')"

definition set_text :: "string \<Rightarrow> string \<Rightarrow> pydict \<Rightarrow> pydict" where
  "set_text k v d = dset (P_str k) (P_str v) d"

definition deserialize_file ::
  "'f http_lib \<Rightarrow> string \<Rightarrow> pydict \<Rightarrow> (string, string) dict \<Rightarrow> string option \<Rightarrow> bytes \<Rightarrow> (pydict \<times> exports) res" where
  "deserialize_file L path item headers export content =
     (let disposition = (case dget headers ''content-disposition'' of None \<Rightarrow> ''<not set>'' | Some d \<Rightarrow> d) in
      if \<not> startswith disposition ''form-data'' then
        Inr (dset (P_str ''content'') P_none (set_text ''system-tests-error''
          (''Unknown content-disposition: '' @ disposition @ '', please contact #apm-shared-testing'') item), [])
      else (case filename_of disposition of
          None \<Rightarrow> Inr (set_text ''system-tests-error''
            ''Filename not found in content-disposition, please contact #apm-shared-testing'' item, [])
        | Some name \<Rightarrow>
            (let item = set_text ''system-tests-filename'' name item;
                 name = (if endswith (str_lower name) ''.gz'' then take (length name - 3) name else name)
             in
             rbind (if endswith (str_lower name) ''.json'' \<or> path \<in> {''/symdb/v1/input'', ''/api/v2/debugger''}
               then (case json_loads L (P_bytes content) of
                   Inr v \<Rightarrow> Inr (dset (P_str ''content'') v item, True)
                 | Inl e \<Rightarrow>
                     if e = Value_Error \<or> e = Unicode_Error
                     then Inr (set_text ''system-tests-error'' ''Can't decode json file'' item, False)
                     else Inl e)
               else Inr (item, False)) (\<lambda>(item, deserialized).
             case export of
               Some folder \<Rightarrow>
                 if \<not> deserialized \<and> folder \<noteq> [] then
                   (let file_path = folder @ ''/'' @ md5_hex L content @ ''_'' @ name in
                    Inr (set_text ''system-tests-file-path'' file_path
                      (set_text ''system-tests-information'' ''File exported to a separated file'' item),
                      [(file_path, content)]))
                 else Inr (item, [])
             | None \<Rightarrow> Inr (item, [])))))"

definition part_headers :: "part \<Rightarrow> (string, string) dict res" where
  "part_headers p =
     rfold (\<lambda>(k, v) d. rbind (utf8_strict k) (\<lambda>k. rbind (utf8_strict v) (\<lambda>v.
         Inr (dset (str_lower k) v d)))) (pt_headers p) []"

text \<open>One part: \<open>None\<close> when the loop goes on without keeping the item.\<close>

definition deserialize_part ::
  "'f http_lib \<Rightarrow> string \<Rightarrow> string option \<Rightarrow> part \<Rightarrow> (pyval option \<times> exports) res" where
  "deserialize_part L path export p =
     rbind (part_headers p) (\<lambda>headers.
     let item = [(P_str ''headers'', P_dict (map (\<lambda>(k, v). (P_str k, P_str v)) headers))];
         content_type = (case dget headers ''content-type'' of None \<Rightarrow> '''' | Some v \<Rightarrow> str_lower v);
         kept = (\<lambda>(item, files). Inr (Some (P_dict item), files))
     in
     if startswith content_type ''application/json'' then
       (case json_loads L (P_bytes (pt_content p)) of
          Inr v \<Rightarrow> kept (dset (P_str ''content'') v item, [])
        | Inl e \<Rightarrow>
            if e = Value_Error then kept (set_text ''raw_content'' (bytes_repr (pt_content p))
              (set_text ''system-tests-error'' ''Can't decode json file'' item), [])
            else Inl e)
     else if content_type = ''application/gzip'' then
       (case gunzip L (pt_content p) of
          Inl e \<Rightarrow> Inr (None, [])
        | Inr content \<Rightarrow> rbind (deserialize_file L path item headers export content) kept)
     else if content_type = ''application/octet-stream'' then
       rbind (deserialize_file L path item headers export (pt_content p)) kept
     else
       (case pt_text p of
          Inr s \<Rightarrow> kept (set_text ''content'' s item, [])
        | Inl e \<Rightarrow>
            if e = Unicode_Error then kept (set_text ''content'' (bytes_repr (pt_content p)) item, [])
            else Inl e))"

definition deserialize_multipart ::
  "'f http_lib \<Rightarrow> string \<Rightarrow> string option \<Rightarrow> part list \<Rightarrow> (pyval \<times> exports) res" where
  "deserialize_multipart L path export parts =
     rbind (rmap (deserialize_part L path export) parts) (\<lambda>rs.
     Inr (P_list (concat (map (\<lambda>(item, files). case item of None \<Rightarrow> [] | Some v \<Rightarrow> [v]) rs)),
       concat (map snd rs)))"


text \<open>The decoded body: a dynamic value, or the result of the decoder of v3 metrics.\<close>

datatype 'f body = B_value pyval | B_metrics "(string, 'f series_entry list) dict"

record 'f http_message =
  mg_headers :: "(string \<times> string) list"
  mg_status :: "nat option"
  mg_content :: "'f body option"
  mg_raw_content :: "string option"
  mg_traceback :: "string option"

definition source_is_datadog_tracer :: "string \<Rightarrow> bool" where
  "source_is_datadog_tracer interface \<longleftrightarrow> interface \<in>
     {''library'', ''python_buddy'', ''nodejs_buddy'', ''java_buddy'', ''ruby_buddy'', ''golang_buddy''}"

definition decode_text :: "bytes \<Rightarrow> pyval res" where
  "decode_text b = rbind (utf8_strict b) (\<lambda>s. Inr (P_str s))"

text \<open>The branch of the msgpack bodies.\<close>

definition deserialize_msgpack :: "codecs \<Rightarrow> string \<Rightarrow> string \<Rightarrow> bytes \<Rightarrow> pyval res" where
  "deserialize_msgpack L path interface content =
     rbind (unpackb L content) (\<lambda>result.
     rbind (if source_is_datadog_tracer interface \<and> path = ''/v0.4/traces'' then
         rbind (decode_unsigned_int_traces result) (\<lambda>r. deserialized_nested_json L r interface)
       else if source_is_datadog_tracer interface \<and> path = ''/v0.5/traces'' then
         rbind (decode_v_0_5_traces result) (\<lambda>r.
         rbind (decode_unsigned_int_traces r) (\<lambda>r. deserialized_nested_json L r interface))
       else Inr result)
       (convert_bytes_values L []))"

definition agent_v1_in_place :: "codecs \<Rightarrow> string \<Rightarrow> pyval \<Rightarrow> pyval res" where
  "agent_v1_in_place L interface v =
     (case v of
        P_dict d \<Rightarrow> rbind (uncompress_agent_v1_trace L interface d) (\<lambda>r.
          Inr (case r of None \<Rightarrow> v | Some d' \<Rightarrow> P_dict d'))
      | _ \<Rightarrow> Inr v)"

text \<open>The branch of the protobuf bodies; \<open>None\<close> when none of its paths applies.\<close>

definition deserialize_protobuf ::
  "'f http_lib \<Rightarrow> string \<Rightarrow> (string \<times> string) list \<Rightarrow> bytes \<Rightarrow> string \<Rightarrow> string \<Rightarrow> 'f body option res" where
  "deserialize_protobuf L path headers content interface key =
     (let otlp = get_header_value ''dd-protocol'' headers = Some ''otlp'';
          read = (\<lambda>name. rbind (protobuf L name content) (\<lambda>v. Inr (Some (B_value v))));
          value = (\<lambda>r. rbind r (\<lambda>v. Inr (Some (B_value v))));
          metrics = (\<lambda>decode. rbind (v3_columns L content) (\<lambda>ds.
            rbind (decode (v3_floats L) ds) (\<lambda>m. Inr (Some (B_metrics m)))))
      in
      if otlp \<and> str_contains path ''traces'' then
        value (rbind (protobuf L ''ExportTraceServiceRequest'' content) deserialize_otlp_v1_trace)
      else if otlp \<and> str_contains path ''metrics'' then read ''ExportMetricsServiceRequest''
      else if otlp \<and> str_contains path ''logs'' then read ''ExportLogsServiceRequest''
      else if path = ''/v1/traces'' then read ''ExportTraceServiceResponse''
      else if path = ''/v1/metrics'' then read ''ExportMetricsServiceResponse''
      else if path = ''/v1/logs'' then read ''ExportLogsServiceResponse''
      else if path = ''/api/v0.2/traces'' then
        value (rbind (protobuf L ''TracePayload'' content) (\<lambda>r.
          rbind (deserialized_nested_json (codecs_of L) r interface) (agent_v1_in_place (codecs_of L) interface)))
      else if path \<in> {''/api/v2/series'', ''/api/intake/metrics/v3/series''} then
        (if key = ''request'' then
           (if path = ''/api/intake/metrics/v3/series'' then metrics decode_metrics_v3 else read ''MetricPayload'')
         else read ''BackendResponsePayload'')
      else if path = ''/api/beta/sketches'' then read ''SketchPayload''
      else if path = ''/api/intake/metrics/v3/sketches'' \<and> key = ''request'' then metrics decode_sketches_v3
      else Inr None)"

definition deserialize_http_message ::
  "'f http_lib \<Rightarrow> string \<Rightarrow> 'f http_message \<Rightarrow> bytes option \<Rightarrow> string \<Rightarrow> string \<Rightarrow> string option \<Rightarrow>
     ('f body \<times> exports) res" where
  "deserialize_http_message L path message content_opt interface key export =
     (let raw_content_type = get_header_value ''content-type'' (mg_headers message);
          content_type = map_option str_lower raw_content_type;
          is = (\<lambda>t. content_type = Some t);
          content = (case content_opt of None \<Rightarrow> [] | Some b \<Rightarrow> b);
          tracer = source_is_datadog_tracer interface;
          json = json_loads L (P_bytes content);
          value = (\<lambda>r. rbind r (\<lambda>v. Inr (B_value v, [])));
          tail =
            (if is ''application/x-www-form-urlencoded'' \<and> content = [0x5B, 0x5D] \<and> path = ''/v0.4/traces''
             then Inr (B_value (P_list []), [])
             else if (case content_type of Some t \<Rightarrow> startswith t ''multipart/form-data;'' | None \<Rightarrow> False)
             then rbind (multipart L content (the raw_content_type)) (\<lambda>parts.
               rbind (deserialize_multipart L path export parts) (\<lambda>(v, files). Inr (B_value v, files)))
             else if is ''text/plain'' then value (rbind (ascii_decode content) (\<lambda>s. Inr (P_str s)))
             else value (Inr (P_bytes content)))
      in
      if content = [] then Inr (B_value P_none, [])
      else if (case content_type of
          Some t \<Rightarrow> str_contains t ''application/json'' \<or> str_contains t ''text/json'' | None \<Rightarrow> False)
      then value (if path = ''/v1/traces'' then rbind json deserialize_otlp_v1_trace else json)
      else if path = ''/v0.7/config'' then
        (if key = ''response'' then
           rbind (of_option Key_Error (mg_status message)) (\<lambda>status.
             value (if status = 404 then decode_text content else json))
         else value json)
      else if path = ''/dogstatsd/v2/proxy'' \<and> tracer then value (decode_text content)
      else if tracer \<and> path = ''/info'' then
        value (if key = ''response'' then json else Inr (P_bytes content))
      else if path = ''/v1.0/traces'' \<and> tracer then
        value (if is ''text/plain; charset=utf-8'' then decode_text content
          else deserialize_v1_trace (codecs_of L) content)
      else if is ''application/msgpack'' \<or> is ''application/msgpack, application/msgpack'' \<or> path = ''/v0.6/stats''
      then value (deserialize_msgpack (codecs_of L) path interface content)
      else if is ''application/x-protobuf'' then
        rbind (deserialize_protobuf L path (mg_headers message) content interface key) (\<lambda>r.
          case r of Some b \<Rightarrow> Inr (b, []) | None \<Rightarrow> tail)
      else tail)"

definition content_repr :: "bytes option \<Rightarrow> string" where
  "content_repr c = (case c of None \<Rightarrow> ''None'' | Some b \<Rightarrow> bytes_repr b)"

definition deserialize ::
  "'f http_lib \<Rightarrow> string \<Rightarrow> 'f http_message \<Rightarrow> string \<Rightarrow> bytes option \<Rightarrow> string \<Rightarrow> string option \<Rightarrow>
     'f http_message \<times> exports" where
  "deserialize L path message key content interface export =
     (case deserialize_http_message L path message content interface key export of
        Inr (b, files) \<Rightarrow> (message\<lparr>mg_content := Some b\<rparr>, files)
      | Inl e \<Rightarrow>
          if key = ''response'' \<and> mg_status message \<in> Some ` {500, 408, 403}
          then (message\<lparr>mg_content := Some (B_value (P_str (content_repr content)))\<rparr>, [])
          else (message\<lparr>mg_raw_content := Some (content_repr content),
            mg_traceback := Some (traceback_of L e)\<rparr>, []))"


subsection \<open>Properties\<close>

lemma xor_all_ones: "0 \<le> m \<Longrightarrow> m < 2 ^ n \<Longrightarrow> m XOR (2 ^ n - 1) = 2 ^ n - 1 - (m :: int)"
proof -
  assume m: "0 \<le> m" "m < 2 ^ n"
  have "m XOR mask n = take_bit n (NOT m)"
  proof (rule bit_eqI)
    fix k
    have "bit m k \<Longrightarrow> k < n"
      using m by (metis bit_take_bit_iff take_bit_int_eq_self)
    then show "bit (m XOR mask n) k \<longleftrightarrow> bit (take_bit n (NOT m)) k"
      by (auto simp: bit_xor_iff bit_mask_iff bit_take_bit_iff bit_not_iff)
  qed
  also have "\<dots> = mask n - take_bit n m" by (rule take_bit_not_eq_mask_diff)
  finally show ?thesis using m by (simp add: mask_eq_exp_minus_1 take_bit_int_eq_self)
qed

text \<open>
  C34.  Identifiers sent as signed integers.  The result is the unsigned reading of the 64 bits
  of the number, so it is between 0 and \<open>2 ^ 64 - 1\<close>; numbers that need more than 64 bits
  besides their sign fail the assertion.
\<close>

theorem unsigned_int_is_word:
  "parse_as_unsigned_int (P_int v) 64 =
     (if \<bar>v\<bar> < 2 ^ 64 then Inr (P_int (uint (word_of_int v :: 64 word))) else Inl Assertion_Error)"
proof -
  have "uint (word_of_int v :: 64 word) = v" if "0 \<le> v" "v < 2 ^ 64"
    using that by (simp add: uint_word_of_int take_bit_int_eq_self)
  moreover have "(- v XOR (2 ^ 64 - 1)) + 1 = uint (word_of_int v :: 64 word)" if "v < 0" "- v < 2 ^ 64"
  proof -
    have "v mod 2 ^ 64 = (v + 2 ^ 64) mod 2 ^ 64" by simp
    also have "\<dots> = v + 2 ^ 64" using that by (intro mod_pos_pos_trivial) auto
    finally show ?thesis
      using xor_all_ones [of "- v" 64] that by (simp add: uint_word_of_int take_bit_eq_mod)
  qed
  ultimately show ?thesis
    by (auto simp: parse_as_unsigned_int_def)
qed


text \<open>
  A v0.5 payload, as a tracer writes it: a table of texts and, for each span, twelve fields in
  which the texts are indices into the table.
\<close>

record v05_span =
  v5_service :: string
  v5_name :: string
  v5_resource :: string
  v5_trace_id :: int
  v5_span_id :: int
  v5_parent_id :: int
  v5_start :: int
  v5_duration :: int
  v5_error :: int
  v5_meta :: "(string \<times> string) list"
  v5_metrics :: "(string \<times> pyval) list"
  v5_type :: string

definition table_index :: "string list \<Rightarrow> string \<Rightarrow> pyval" where
  "table_index table s = P_int (int (length (takeWhile (\<lambda>x. x \<noteq> s) table)))"

definition v05_encode :: "string list \<Rightarrow> v05_span \<Rightarrow> pyval" where
  "v05_encode table s = P_list
     [table_index table (v5_service s), table_index table (v5_name s), table_index table (v5_resource s),
      P_int (v5_trace_id s), P_int (v5_span_id s), P_int (v5_parent_id s), P_int (v5_start s),
      P_int (v5_duration s), P_int (v5_error s),
      P_dict (map (\<lambda>(k, v). (table_index table k, table_index table v)) (v5_meta s)),
      P_dict (map (\<lambda>(k, v). (table_index table k, v)) (v5_metrics s)), table_index table (v5_type s)]"

definition v05_texts :: "v05_span \<Rightarrow> string set" where
  "v05_texts s = {v5_service s, v5_name s, v5_resource s, v5_type s} \<union> fst ` set (v5_meta s) \<union>
     snd ` set (v5_meta s) \<union> fst ` set (v5_metrics s)"

definition v05_plain :: "v05_span \<Rightarrow> pyval" where
  "v05_plain s = P_dict
     [(P_str ''service'', P_str (v5_service s)), (P_str ''name'', P_str (v5_name s)),
      (P_str ''resource'', P_str (v5_resource s)), (P_str ''trace_id'', P_int (v5_trace_id s)),
      (P_str ''span_id'', P_int (v5_span_id s)),
      (P_str ''parent_id'', if v5_parent_id s = 0 then P_none else P_int (v5_parent_id s)),
      (P_str ''start'', P_int (v5_start s)),
      (P_str ''duration'', if v5_duration s = 0 then P_none else P_int (v5_duration s)),
      (P_str ''error'', P_int (v5_error s)),
      (P_str ''meta'', P_dict (fold (\<lambda>(k, v). dset (P_str k) (P_str v)) (v5_meta s) [])),
      (P_str ''metrics'', P_dict (fold (\<lambda>(k, v). dset (P_str k) v) (v5_metrics s) [])),
      (P_str ''type'', P_str (v5_type s))]"

lemma takeWhile_nth: "s \<in> set xs \<Longrightarrow>
    length (takeWhile (\<lambda>x. x \<noteq> s) xs) < length xs \<and> xs ! length (takeWhile (\<lambda>x. x \<noteq> s) xs) = s"
  by (induction xs) auto

lemma table_ref_index: "s \<in> set table \<Longrightarrow> table_ref (map P_str table) (table_index table s) = Inr (P_str s)"
  using takeWhile_nth [of s table] by (simp add: table_ref_def table_index_def int_of_def py_index_nth)

lemma table_dict_read:
  assumes "fst ` set kvs \<subseteq> set table" "\<forall>(k, v) \<in> set kvs. value (f v) = Inr (g v)"
  shows "table_dict value (map P_str table) (P_dict (map (\<lambda>(k, v). (table_index table k, f v)) kvs)) =
    Inr (P_dict (fold (\<lambda>(k, v). dset (P_str k) (g v)) kvs []))"
proof -
  have "rfold (\<lambda>(k, x) d. rbind (table_ref (map P_str table) k) (\<lambda>k. rbind (value x) (\<lambda>x.
         if p_hashable k then Inr (dset k x d) else Inl Type_Error)))
      (map (\<lambda>(k, v). (table_index table k, f v)) kvs) d = Inr (fold (\<lambda>(k, v). dset (P_str k) (g v)) kvs d)" for d
    using assms
  proof (induction kvs arbitrary: d)
    case (Cons kv kvs)
    then show ?case by (cases kv) (simp add: table_ref_index)
  qed simp
  then show ?thesis by (simp add: table_dict_def)
qed

lemma p_at_nth: "i < length xs \<Longrightarrow> p_at i (P_list xs) = Inr (xs ! i)"
  by (simp add: p_at_def py_index_nth)

lemma v05_span_read:
  assumes "v05_texts s \<subseteq> set table"
  shows "decode_v_0_5_span (map P_str table) (v05_encode table s) = Inr (v05_plain s)"
proof -
  have names: "table_ref (map P_str table) (table_index table t) = Inr (P_str t)"
    if "t \<in> {v5_service s, v5_name s, v5_resource s, v5_type s}" for t
    using that assms by (intro table_ref_index) (auto simp: v05_texts_def)
  have meta: "table_dict (table_ref (map P_str table)) (map P_str table)
      (P_dict (map (\<lambda>(k, v). (table_index table k, table_index table v)) (v5_meta s))) =
    Inr (P_dict (fold (\<lambda>(k, v). dset (P_str k) (P_str v)) (v5_meta s) []))"
    using assms by (intro table_dict_read) (force simp: v05_texts_def intro!: table_ref_index)+
  have metrics: "table_dict Inr (map P_str table) (P_dict (map (\<lambda>(k, v). (table_index table k, v)) (v5_metrics s))) =
    Inr (P_dict (fold (\<lambda>(k, v). dset (P_str k) v) (v5_metrics s) []))"
    using assms table_dict_read [of "v5_metrics s" table Inr "\<lambda>v. v" "\<lambda>v. v"] by (auto simp: v05_texts_def)
  show ?thesis
    by (simp add: decode_v_0_5_span_def v05_encode_def p_at_nth names meta metrics v05_plain_def zero_as_none_def)
qed

text \<open>Round trip of a v0.5 payload: spans written with any table that holds their texts are
  read back as maps with these texts, with a parent and a duration of zero read as nothing.
\<close>

theorem v05_roundtrip:
  assumes "\<forall>trace \<in> set traces. \<forall>s \<in> set trace. v05_texts s \<subseteq> set table"
  shows "decode_v_0_5_traces (P_list [P_list (map P_str table), P_list (map (\<lambda>t. P_list (map (v05_encode table) t)) traces)]) =
    Inr (P_list (map (\<lambda>t. P_list (map v05_plain t)) traces))"
proof -
  have spans: "rmap (decode_v_0_5_span (map P_str table)) (map (v05_encode table) t) = Inr (map v05_plain t)"
    if "\<forall>s \<in> set t. v05_texts s \<subseteq> set table" for t
    using that by (induction t) (simp_all add: v05_span_read)
  have "rmap (\<lambda>spans. rbind (p_iter spans) (\<lambda>ss.
      rbind (if ss = [] then Inr [] else rbind (p_iter (P_list (map P_str table))) (\<lambda>table. rmap (decode_v_0_5_span table) ss)) (\<lambda>ds.
      Inr (P_list ds)))) (map (\<lambda>t. P_list (map (v05_encode table) t)) traces) =
    Inr (map (\<lambda>t. P_list (map v05_plain t)) traces)"
    using assms by (induction traces) (auto simp: spans)
  then show ?thesis by (simp add: decode_v_0_5_traces_def unpack2_def)
qed

definition sample_v05 :: v05_span where
  "sample_v05 = \<lparr>v5_service = ''web'', v5_name = ''get'', v5_resource = ''web'', v5_trace_id = 1, v5_span_id = 2,
     v5_parent_id = 0, v5_start = 5, v5_duration = 9, v5_error = 0, v5_meta = [(''env'', ''get'')],
     v5_metrics = [(''env'', P_int 1)], v5_type = ''http''\<rparr>"

theorem v05_roundtrip_witness:
  "decode_v_0_5_traces (P_list [P_list (map P_str [''web'', ''http'', ''get'', ''env'']),
      P_list [P_list [v05_encode [''web'', ''http'', ''get'', ''env''] sample_v05]]]) =
    Inr (P_list [P_list [v05_plain sample_v05]])"
  using v05_roundtrip [of "[[sample_v05]]" "[''web'', ''http'', ''get'', ''env'']"]
  by (simp add: sample_v05_def v05_texts_def)

text \<open>A gzip part that cannot be decompressed leaves no trace in the result: the error is
  written to an item that the loop then does not append.  The message is decoded as if the
  part were not there.
\<close>

theorem broken_gzip_part_vanishes:
  assumes "part_headers p = Inr headers" "dget headers ''content-type'' = Some t"
    and "str_lower t = ''application/gzip''" "gunzip L (pt_content p) = Inl e"
  shows "deserialize_multipart L path export (ps @ p # qs) = deserialize_multipart L path export (ps @ qs)"
proof -
  have "deserialize_part L path export p = Inr (None, [])"
    using assms by (simp add: deserialize_part_def startswith_def)
  moreover have "rmap f (xs @ ys) = rbind (rmap f xs) (\<lambda>us. rbind (rmap f ys) (\<lambda>vs. Inr (us @ vs)))"
    for f :: "part \<Rightarrow> (pyval option \<times> exports) res" and xs ys
  proof (induction xs)
    case Nil then show ?case by (cases "rmap f ys") simp_all
  next
    case (Cons x xs)
    then show ?case by (cases "f x"; cases "rmap f xs"; cases "rmap f ys") simp_all
  qed
  ultimately show ?thesis
    unfolding deserialize_multipart_def
    by (cases "rmap (deserialize_part L path export) ps"; cases "rmap (deserialize_part L path export) qs") simp_all
qed

definition sample_http_lib :: "unit http_lib" where
  "sample_http_lib = \<lparr>unpackb = \<lambda>b. Inl Value_Error, json_loads = \<lambda>v. Inr P_none, gunzip = \<lambda>b. Inl Value_Error,
     protobuf = \<lambda>n b. Inl Value_Error, v3_columns = \<lambda>b. Inr [], v3_floats = \<lparr>float_of_int = \<lambda>_. (), float_div = \<lambda>_ _. (),
       float_nonzero = \<lambda>_. False, int_of_float = \<lambda>_. 0\<rparr>, multipart = \<lambda>b t. Inr [], md5_hex = \<lambda>b. [],
     traceback_of = \<lambda>e. []\<rparr>"

definition sample_part :: "string \<Rightarrow> part" where
  "sample_part t = \<lparr>pt_headers = [(map (word_of_nat \<circ> of_char) ''Content-Type'', map (word_of_nat \<circ> of_char) t)],
     pt_content = [0x1F], pt_text = Inr ''x''\<rparr>"

theorem broken_gzip_part_vanishes_witness:
  "deserialize_multipart sample_http_lib ''/p'' None [sample_part ''text/plain'', sample_part ''application/gzip''] =
     deserialize_multipart sample_http_lib ''/p'' None [sample_part ''text/plain'']"
proof -
  have "part_headers (sample_part ''application/gzip'') = Inr [(''content-type'', ''application/gzip'')]" by code_simp
  moreover have "str_lower ''application/gzip'' = ''application/gzip''" by code_simp
  ultimately show ?thesis
    using broken_gzip_part_vanishes [of "sample_part ''application/gzip''" _ "''application/gzip''" sample_http_lib
      Value_Error "''/p''" None "[sample_part ''text/plain'']" "[]"]
    by (simp add: sample_http_lib_def)
qed

end
