(* ===== verification/Features.thy ===== *)
theory Features
  imports Py_Dict Py_Str
begin

section \<open>The table of features (\<open>utils/_features.py\<close>)\<close>

text \<open>
  Every test names the feature it tests by a decorator, which attaches the identifier of the
  feature in the feature parity dashboard and the team that owns it.  The methods of
  \<open>_Features\<close> differ in the identifier and the owner only: they are rows of a table, in the order
  of the file.  The owner of a feature may be a sub-team, chosen by the repository whose
  continuous integration runs the tests.
\<close>

subsection \<open>Owners\<close>

text \<open>The environment is a dictionary; the name is the last part of \<open>owner/repository\<close>.\<close>

definition get_ci_repo_name :: "(string, string) dict \<Rightarrow> string option" where
  "get_ci_repo_name env =
     (let set_in = (\<lambda>key. case dget env key of Some repo \<Rightarrow> repo \<noteq> [] | None \<Rightarrow> False);
          base = (\<lambda>key. last (str_split ''/'' (the (dget env key))))
      in if set_in ''GITHUB_REPOSITORY'' then Some (base ''GITHUB_REPOSITORY'')
         else if set_in ''CI_PROJECT_NAME'' then dget env ''CI_PROJECT_NAME''
         else if set_in ''BUILD_REPOSITORY_NAME'' then Some (base ''BUILD_REPOSITORY_NAME'')
         else None)"

record owner_def =
  default_team :: string
  repo_overrides :: "(string, string) dict"

definition resolve :: "(string, string) dict \<Rightarrow> owner_def \<Rightarrow> string" where
  "resolve env d =
     (case get_ci_repo_name env of
        Some repo \<Rightarrow>
          if repo \<noteq> []
          then (case dget (repo_overrides d) repo of Some team \<Rightarrow> team | None \<Rightarrow> default_team d)
          else default_team d
      | None \<Rightarrow> default_team d)"

datatype owner =
    agent_apm
  | apm_serverless
  | asm
  | debugger
  | djm
  | dsm
  | ffe
  | idm
  | injection_platform
  | language_platform
  | ml_observability
  | profiler
  | remote_config
  | rp
  | sdk_capabilities

definition owner_value :: "owner \<Rightarrow> owner_def" where
  "owner_value x = (case x of
      agent_apm \<Rightarrow> \<lparr>default_team = ''@DataDog/agent-apm'', repo_overrides = [(''dd-trace-cpp'', ''@DataDog/apm-idm-cpp''),
        (''dd-trace-dotnet'', ''@DataDog/apm-lang-platform-dotnet''),
        (''dd-trace-go'', ''@DataDog/lang-platform-go''),
        (''dd-trace-java'', ''@DataDog/apm-lang-platform-java''),
        (''dd-trace-js'', ''@DataDog/lang-platform-js''),
        (''dd-trace-php'', ''@DataDog/apm-lang-platform-php''),
        (''dd-trace-py'', ''@DataDog/lang-platform-python''),
        (''dd-trace-rb'', ''@DataDog/lang-platform-ruby''),
        (''dd-trace-rs'', ''@DataDog/apm-rust''),
        (''httpd-datadog'', ''@DataDog/apm-idm-cpp''),
        (''nginx-datadog'', ''@DataDog/apm-idm-cpp'')]\<rparr>
    | apm_serverless \<Rightarrow> \<lparr>default_team = ''@DataDog/apm-serverless'', repo_overrides = []\<rparr>
    | asm \<Rightarrow> \<lparr>default_team = ''@DataDog/asm-libraries'', repo_overrides = [(''dd-trace-cpp'', ''@DataDog/asm-cpp''),
        (''dd-trace-dotnet'', ''@DataDog/asm-dotnet''),
        (''dd-trace-go'', ''@DataDog/asm-go''),
        (''dd-trace-java'', ''@DataDog/asm-java''),
        (''dd-trace-js'', ''@DataDog/asm-js''),
        (''dd-trace-php'', ''@DataDog/asm-php''),
        (''dd-trace-py'', ''@DataDog/asm-python''),
        (''dd-trace-rb'', ''@DataDog/asm-ruby''),
        (''httpd-datadog'', ''@DataDog/asm-cpp''),
        (''nginx-datadog'', ''@DataDog/asm-cpp'')]\<rparr>
    | debugger \<Rightarrow> \<lparr>default_team = ''@DataDog/debugger'', repo_overrides = [(''dd-trace-dotnet'', ''@DataDog/debugger-dotnet''),
        (''dd-trace-go'', ''@DataDog/debugger-go''),
        (''dd-trace-java'', ''@DataDog/debugger-java''),
        (''dd-trace-js'', ''@DataDog/debugger-nodejs''),
        (''dd-trace-py'', ''@DataDog/debugger-python'')]\<rparr>
    | djm \<Rightarrow> \<lparr>default_team = ''@DataDog/data-jobs-monitoring'', repo_overrides = []\<rparr>
    | dsm \<Rightarrow> \<lparr>default_team = ''@DataDog/data-streams-monitoring'', repo_overrides = []\<rparr>
    | ffe \<Rightarrow> \<lparr>default_team = ''@DataDog/feature-flagging-and-experimentation-sdk'', repo_overrides = []\<rparr>
    | idm \<Rightarrow> \<lparr>default_team = ''@DataDog/apm-idm'', repo_overrides = [(''dd-trace-cpp'', ''@DataDog/apm-idm-cpp''),
        (''dd-trace-dotnet'', ''@DataDog/apm-idm-dotnet''),
        (''dd-trace-go'', ''@DataDog/apm-idm-go''),
        (''dd-trace-java'', ''@DataDog/apm-idm-java''),
        (''dd-trace-js'', ''@DataDog/apm-idm-js''),
        (''dd-trace-php'', ''@DataDog/apm-idm-php''),
        (''dd-trace-py'', ''@DataDog/apm-idm-python''),
        (''dd-trace-rb'', ''@DataDog/apm-idm-ruby''),
        (''httpd-datadog'', ''@DataDog/apm-idm-cpp''),
        (''nginx-datadog'', ''@DataDog/apm-idm-cpp'')]\<rparr>
    | injection_platform \<Rightarrow> \<lparr>default_team = ''@DataDog/injection-platform'', repo_overrides = [(''dd-trace-dotnet'', ''@DataDog/apm-lang-platform-dotnet''),
        (''dd-trace-java'', ''@DataDog/apm-lang-platform-java''),
        (''dd-trace-js'', ''@DataDog/lang-platform-js''),
        (''dd-trace-php'', ''@DataDog/apm-lang-platform-php''),
        (''dd-trace-py'', ''@DataDog/lang-platform-python''),
        (''dd-trace-rb'', ''@DataDog/lang-platform-ruby'')]\<rparr>
    | language_platform \<Rightarrow> \<lparr>default_team = ''@DataDog/apm-lang-platform'', repo_overrides = [(''dd-trace-cpp'', ''@DataDog/apm-idm-cpp''),
        (''dd-trace-dotnet'', ''@DataDog/apm-lang-platform-dotnet''),
        (''dd-trace-go'', ''@DataDog/lang-platform-go''),
        (''dd-trace-java'', ''@DataDog/apm-lang-platform-java''),
        (''dd-trace-js'', ''@DataDog/lang-platform-js''),
        (''dd-trace-php'', ''@DataDog/apm-lang-platform-php''),
        (''dd-trace-py'', ''@DataDog/lang-platform-python''),
        (''dd-trace-rb'', ''@DataDog/lang-platform-ruby''),
        (''httpd-datadog'', ''@DataDog/apm-idm-cpp''),
        (''nginx-datadog'', ''@DataDog/apm-idm-cpp'')]\<rparr>
    | ml_observability \<Rightarrow> \<lparr>default_team = ''@DataDog/ml-observability'', repo_overrides = []\<rparr>
    | profiler \<Rightarrow> \<lparr>default_team = ''@DataDog/profiling'', repo_overrides = [(''dd-trace-dotnet'', ''@DataDog/profiling-dotnet''),
        (''dd-trace-go'', ''@DataDog/profiling-go''),
        (''dd-trace-java'', ''@DataDog/profiling-java''),
        (''dd-trace-js'', ''@DataDog/profiling-js''),
        (''dd-trace-php'', ''@DataDog/profiling-php''),
        (''dd-trace-py'', ''@DataDog/profiling-python''),
        (''dd-trace-rb'', ''@DataDog/profiling-rb'')]\<rparr>
    | remote_config \<Rightarrow> \<lparr>default_team = ''@DataDog/remote-config'', repo_overrides = []\<rparr>
    | rp \<Rightarrow> \<lparr>default_team = ''@DataDog/apm-reliability-and-performance'', repo_overrides = []\<rparr>
    | sdk_capabilities \<Rightarrow> \<lparr>default_team = ''@DataDog/apm-sdk-capabilities'', repo_overrides = []\<rparr>)"

subsection \<open>Marks\<close>

datatype mark = Mark_features int | Mark_owners string

definition mark_test_object :: "(string, string) dict \<Rightarrow> int \<Rightarrow> owner \<Rightarrow> mark list \<Rightarrow> mark list" where
  "mark_test_object env feature_id own marks =
     marks @ [Mark_features feature_id, Mark_owners (resolve env (owner_value own))]"

subsection \<open>The rows\<close>

definition not_reported_id :: int where "not_reported_id = - 1"

type_synonym feature = "string \<times> int \<times> owner"

definition features_1 :: "feature list" where
  "features_1 =
     [(''not_reported'', not_reported_id, rp),
      (''trace_global_tags'', 1, sdk_capabilities),
      (''trace_agent_connection'', 2, sdk_capabilities),
      (''trace_search_automatic_config'', 4, sdk_capabilities),
      (''log_injection'', 5, sdk_capabilities),
      (''unix_domain_sockets_support_for_traces'', 6, language_platform),
      (''unix_domain_sockets_automatic_detection'', 7, language_platform),
      (''twl_customer_controls_ingestion_dd_trace_sampling_rules'', 8, sdk_capabilities),
      (''log_tracer_status_at_startup'', 10, language_platform),
      (''b3_headers_propagation'', 13, sdk_capabilities),
      (''unix_domain_sockets_support_for_metrics'', 14, language_platform),
      (''dd_service_mapping'', 16, sdk_capabilities),
      (''dogstatsd_agent_connection'', 17, sdk_capabilities)]"

definition features_2 :: "feature list" where
  "features_2 =
     [(''http_headers_as_tags_dd_trace_header_tags'', 18, sdk_capabilities),
      (''dd_profiling_enabled'', 19, profiler),
      (''trace_log_exporting_for_aws_lambda'', 21, apm_serverless),
      (''runtime_id_in_span_metadata_for_service_entry_spans'', 22, sdk_capabilities),
      (''partial_flush'', 23, language_platform),
      (''partial_flush_on_by_default'', 24, language_platform),
      (''automatic_trace_id_injection_into_logs'', 25, sdk_capabilities),
      (''use_sampling_priorities_2_1_in_rules_based_sampler'', 30, sdk_capabilities),
      (''trace_annotation'', 31, sdk_capabilities),
      (''runtime_metrics'', 32, sdk_capabilities),
      (''logs_throttling'', 33, language_platform),
      (''tracer_health_metrics'', 36, language_platform),
      (''kafka_tracing'', 37, idm)]"

definition features_3 :: "feature list" where
  "features_3 =
     [(''grpc_integration_tags'', 39, idm),
      (''dd_trace_config_file'', 40, sdk_capabilities),
      (''dd_trace_methods'', 41, sdk_capabilities),
      (''structured_log_injection'', 5, sdk_capabilities),
      (''report_tracer_drop_rate_ddtracer_kr'', 43, sdk_capabilities),
      (''obfuscation_of_pii_from_web_span_resource_names'', 44, idm),
      (''windows_named_pipe_support_for_traces'', 45, language_platform),
      (''ensure_that_sampling_is_consistent_across_languages'', 48, sdk_capabilities),
      (''user_troubleshooting_tool'', 49, language_platform),
      (''option_to_remap_apm_error_response_severity_eg_404_to_error'', 50, idm),
      (''trace_query_string_obfuscation'', 51, idm),
      (''windows_named_pipe_support_for_metrics'', 53, language_platform),
      (''aws_sdk_integration_tags'', 55, idm)]"

definition features_4 :: "feature list" where
  "features_4 =
     [(''vertical_propagation_of_x_datadog_tags_onto_each_chunk_root_span'', 60, language_platform),
      (''creation_and_propagation_of_ddpdm'', 61, sdk_capabilities),
      (''client_side_stats_supported'', 62, language_platform),
      (''instrumentation_telemetry_enabled_by_default'', 64, sdk_capabilities),
      (''dd_instrumentation_telemetry_enabled_supported'', 65, sdk_capabilities),
      (''app_environment_collected'', 66, sdk_capabilities),
      (''dependencies_collected'', 67, sdk_capabilities),
      (''integrations_enabled_collected'', 68, sdk_capabilities),
      (''telemetry_configurations_collected'', 69, sdk_capabilities),
      (''telemetry_heart_beat_collected'', 70, sdk_capabilities),
      (''app_close_collected'', 71, sdk_capabilities),
      (''redacted_error_logs_collected'', 72, language_platform),
      (''telemetry_metrics_collected'', 73, sdk_capabilities),
      (''telemetry_api_v2_implemented'', 74, sdk_capabilities),
      (''app_client_configuration_change_event'', 75, sdk_capabilities),
      (''app_product_change_event'', 76, sdk_capabilities),
      (''app_extended_heartbeat_event'', 77, sdk_capabilities)]"

definition features_5 :: "feature list" where
  "features_5 =
     [(''telemetry_message_batch'', 78, sdk_capabilities),
      (''telemetry_app_started_event'', 79, sdk_capabilities),
      (''dd_telemetry_dependency_collection_enabled_supported'', 80, sdk_capabilities),
      (''additional_http_headers_supported'', 81, idm),
      (''remote_config_object_supported'', 82, sdk_capabilities),
      (''w3c_headers_injection_and_extraction'', 83, sdk_capabilities),
      (''otel_api'', 84, sdk_capabilities),
      (''trace_id_128_bit_generation_propagation'', 85, sdk_capabilities),
      (''span_events'', 86, sdk_capabilities),
      (''span_links'', 87, sdk_capabilities),
      (''trace_client_ip_header'', 88, asm),
      (''host_auto_instrumentation'', 89, injection_platform),
      (''container_auto_instrumentation'', 90, injection_platform),
      (''weak_hash_vulnerability_detection'', 96, asm),
      (''db_integrations'', 98, idm),
      (''weak_cipher_detection'', 100, asm),
      (''threats_alpha_preview'', 110, asm)]"

definition features_6 :: "feature list" where
  "features_6 =
     [(''procedure_to_debug_install'', 113, asm),
      (''security_events_metadata'', 124, asm),
      (''appsec_rate_limiter'', 134, asm),
      (''support_in_app_waf_metrics_report'', 140, asm),
      (''user_monitoring'', 141, asm),
      (''event_tracking_sdk_v2'', 372, asm),
      (''appsec_service_activation_origin_metric'', 471, asm),
      (''serialize_waf_rules_without_limiting_their_sizes'', 142, asm),
      (''threats_configuration'', 143, asm),
      (''sensitive_data_obfuscation'', 144, asm),
      (''propagation_of_user_id_rfc'', 146, asm),
      (''appsec_onboarding'', 154, asm),
      (''appsec_agentic_onboarding'', 563, asm),
      (''changing_rules_using_rc'', 157, asm),
      (''appsec_shell_execution_tracing'', 158, asm),
      (''custom_business_logic_events'', 161, asm),
      (''graphql_threats_detection'', 162, asm),
      (''iast_sink_sql_injection'', 165, asm)]"

definition features_7 :: "feature list" where
  "features_7 =
     [(''iast_sink_code_injection'', 315, asm),
      (''iast_sink_command_injection'', 166, asm),
      (''iast_sink_path_traversal'', 167, asm),
      (''iast_sink_ldap_injection'', 168, asm),
      (''iast_sink_header_injection'', 203, asm),
      (''iast_sink_template_injection'', 330, asm),
      (''iast_source_request_parameter_value'', 169, asm),
      (''iast_source_request_parameter_name'', 170, asm),
      (''iast_source_header_value'', 171, asm),
      (''iast_source_header_name'', 172, asm),
      (''iast_source_cookie_value'', 173, asm),
      (''iast_source_cookie_name'', 174, asm),
      (''iast_source_body'', 175, asm),
      (''iast_source_kafka_key'', 277, asm),
      (''iast_source_kafka_value'', 278, asm),
      (''iast_graphql_resolver_argument'', 281, asm),
      (''grpc_threats_management'', 176, asm),
      (''waf_telemetry'', 178, asm)]"

definition features_8 :: "feature list" where
  "features_8 =
     [(''kafkaspan_creationcontext_propagation_with_dd_trace'', 192, idm),
      (''open_tracing_api'', 196, sdk_capabilities),
      (''custom_tracing_api'', 197, sdk_capabilities),
      (''iast_sink_hardcoded_passwords'', 290, asm),
      (''iast_sink_hardcoded_secrets'', 198, asm),
      (''appsec_request_blocking'', 199, asm),
      (''appsec_response_blocking'', 200, asm),
      (''appsec_blocking_action'', 201, asm),
      (''appsec_truncation_action'', 373, asm),
      (''appsec_client_ip_blocking'', 202, asm),
      (''appsec_header_injection'', 203, asm),
      (''api_security_schemas'', 204, asm),
      (''span_links_through_datadog_api'', 205, sdk_capabilities),
      (''cassandra_support'', 206, idm),
      (''mysql_support'', 207, idm),
      (''mssql_support'', 225, idm),
      (''postgres_support'', 208, idm),
      (''database_monitoring_correlation'', 209, idm)]"

definition features_9 :: "feature list" where
  "features_9 =
     [(''datastreams_monitoring_support_for_http'', 210, idm),
      (''debugger'', 211, debugger),
      (''datastreams_monitoring_support_for_kafka'', 212, idm),
      (''datastreams_monitoring_support_for_rabbitmq'', 213, idm),
      (''datastreams_monitoring_support_for_rabbitmq_fanout'', 214, idm),
      (''datastreams_monitoring_support_for_rabbitmq_topicexchange'', 215, idm),
      (''mongo_support'', 216, idm),
      (''otel_mysql_support'', 217, idm),
      (''otel_mssql_support'', 226, idm),
      (''otel_postgres_support'', 218, idm),
      (''sql_support'', 219, idm),
      (''dynamic_configuration'', 220, sdk_capabilities),
      (''datadog_headers_propagation'', 221, sdk_capabilities),
      (''single_span_sampling'', 222, sdk_capabilities),
      (''tracer_flare'', 223, language_platform),
      (''profiling'', 224, profiler),
      (''trace_sampling'', 227, sdk_capabilities),
      (''telemetry_instrumentation'', 229, sdk_capabilities)]"

definition features_10 :: "feature list" where
  "features_10 =
     [(''appsec_logs'', 230, asm),
      (''appsec_miscs_internals'', 231, asm),
      (''appsec_scrubbing'', 232, asm),
      (''appsec_standard_tags_client_ip'', 233, asm),
      (''waf_features'', 234, asm),
      (''waf_rules'', 235, asm),
      (''iast_sink_hsts_missing_header'', 236, asm),
      (''iast_sink_http_only_cookie'', 237, asm),
      (''iast_sink_insecure_cookie'', 238, asm),
      (''iast_sink_samesite_cookie'', 240, asm),
      (''iast_sink_ssrf'', 241, asm),
      (''iast_sink_trustboundaryviolation'', 242, asm),
      (''iast_sink_unvalidatedforward'', 243, asm),
      (''iast_sink_unvalidatedheader'', 244, asm),
      (''iast_sink_unvalidatedredirect'', 245, asm),
      (''iast_sink_weakrandomness'', 246, asm),
      (''iast_sink_xcontentsniffing'', 247, asm),
      (''iast_sink_xpathinjection'', 248, asm)]"

definition features_11 :: "feature list" where
  "features_11 =
     [(''iast_sink_xss'', 249, asm),
      (''iast_source_multipart'', 250, asm),
      (''iast_source_path'', 251, asm),
      (''iast_source_uri'', 252, asm),
      (''iast_sink_mongodb_injection'', 253, asm),
      (''appsec_user_blocking'', 254, asm),
      (''decisionless_extraction'', 261, sdk_capabilities),
      (''semantic_core_validations'', 262, idm),
      (''aws_sqs_span_creationcontext_propagation_via_xray_header_with_dd_trace'', 263, idm),
      (''aws_sqs_span_creationcontext_propagation_via_message_attributes_with_dd_trace'', 264, idm),
      (''trace_data_integrity'', 266, sdk_capabilities),
      (''library_scrubbing'', 267, sdk_capabilities),
      (''datastreams_monitoring_support_for_sqs'', 268, idm),
      (''api_security_configuration'', 269, asm),
      (''rabbitmq_span_creationcontext_propagation_with_dd_trace'', 270, idm),
      (''aws_sns_span_creationcontext_propagation_via_message_attributes_with_dd_trace'', 271, idm),
      (''datastreams_monitoring_support_for_sns'', 273, idm)]"

definition features_12 :: "feature list" where
  "features_12 =
     [(''iast_sink_insecure_auth_protocol'', 272, asm),
      (''container_auto_installation_script'', 274, injection_platform),
      (''host_auto_installation_script'', 275, injection_platform),
      (''host_block_list'', 276, injection_platform),
      (''aws_kinesis_span_creationcontext_propagation_via_message_attributes_with_dd_trace'', 280, idm),
      (''datastreams_monitoring_support_for_base64_encoding'', 284, idm),
      (''datastreams_monitoring_support_context_injection_base64'', 287, idm),
      (''datastreams_monitoring_support_for_kinesis'', 282, idm),
      (''iast_sink_reflection_injection'', 279, asm),
      (''embeded_git_reference'', 286, sdk_capabilities),
      (''k8s_admission_controller'', 288, injection_platform),
      (''f_otel_interoperability'', 289, sdk_capabilities),
      (''debugger_pii_redaction'', 291, debugger),
      (''installer_auto_instrumentation'', 292, injection_platform),
      (''rasp_local_file_inclusion'', 293, asm),
      (''rasp_server_side_request_forgery'', 294, asm),
      (''rasp_sql_injection'', 295, asm)]"

definition features_13 :: "feature list" where
  "features_13 =
     [(''database_monitoring_support'', 296, idm),
      (''database_monitoring_dynamic_service'', 558, idm),
      (''rasp_stack_trace'', 297, asm),
      (''rasp_span_tags'', 298, asm),
      (''debugger_expression_language'', 303, debugger),
      (''auto_instrumentation_profiling'', 302, injection_platform),
      (''appsec_standalone_experimental'', 305, asm),
      (''appsec_standalone'', 355, asm),
      (''iast_standalone_experimental'', 319, asm),
      (''iast_standalone'', 356, asm),
      (''sca_standalone_experimental'', 320, asm),
      (''sca_standalone'', 357, asm),
      (''security_events_metastruct'', 314, asm),
      (''host_auto_installation_script_profiling'', 306, injection_platform),
      (''origin_detection'', 362, language_platform),
      (''container_auto_installation_script_profiling'', 307, injection_platform),
      (''host_guardrail'', 308, injection_platform),
      (''container_guardrail'', 309, injection_platform)]"

definition features_14 :: "feature list" where
  "features_14 =
     [(''datastreams_monitoring_support_for_manual_checkpoints'', 327, idm),
      (''suspicious_attacker_blocking'', 311, asm),
      (''user_id_collection_modes'', 312, asm),
      (''fingerprinting'', 313, asm),
      (''iast_sink_untrusted_deserialization'', 316, asm),
      (''crashtracking'', 317, language_platform),
      (''rasp_shell_injection'', 318, asm),
      (''rasp_command_injection'', 345, asm),
      (''debugger_exception_replay'', 321, debugger),
      (''iast_source_path_parameter'', 324, asm),
      (''iast_source_sql'', 344, asm),
      (''ssi_guardrails'', 322, injection_platform),
      (''ssi_crashtracking'', 340, injection_platform),
      (''ssi_service_naming'', 326, injection_platform),
      (''ssi_service_tracking'', 327, injection_platform),
      (''serverless_span_pointers'', 328, apm_serverless),
      (''aws_api_gateway_inferred_span_creation'', 341, idm),
      (''parametric_endpoint_parity'', 339, sdk_capabilities)]"

definition features_15 :: "feature list" where
  "features_15 =
     [(''iast_stack_trace'', 329, asm),
      (''iast_extended_location'', 364, asm),
      (''djm_ssi_k8s'', 342, djm),
      (''adaptive_sampling'', 346, sdk_capabilities),
      (''agent_host_ipv6'', 347, sdk_capabilities),
      (''datadog_baggage_headers'', 389, sdk_capabilities),
      (''iast_security_controls'', 343, asm),
      (''graphql_operation_error_reporting'', 354, idm),
      (''graphql_operation_error_tracking'', 485, idm),
      (''context_propagation_extract_behavior'', 353, sdk_capabilities),
      (''org_propagation_guard'', 555, sdk_capabilities),
      (''iast_sink_email_html_injection'', 358, asm),
      (''language_specifics'', 359, asm),
      (''debugger_code_origins'', 360, debugger),
      (''debugger_probe_budgets'', 368, debugger),
      (''debugger_snapshot_correlation'', 564, debugger),
      (''debugger_method_probe'', 392, debugger),
      (''debugger_line_probe'', 393, debugger)]"

definition features_16 :: "feature list" where
  "features_16 =
     [(''debugger_symdb'', 370, debugger),
      (''otel_propagators_api'', 361, sdk_capabilities),
      (''stable_configuration_support'', 365, sdk_capabilities),
      (''single_span_ingestion_control'', 366, sdk_capabilities),
      (''process_discovery'', 367, sdk_capabilities),
      (''debugger_inproduct_enablement'', 369, debugger),
      (''trace_enablement'', 374, sdk_capabilities),
      (''trace_log_directory'', 375, sdk_capabilities),
      (''trace_rate_limiting'', 377, sdk_capabilities),
      (''trace_http_server_error_statuses'', 379, sdk_capabilities),
      (''trace_http_client_error_statuses'', 381, sdk_capabilities),
      (''trace_http_client_tag_query_string'', 382, sdk_capabilities),
      (''unified_service_tagging'', 384, sdk_capabilities),
      (''integration_enablement'', 385, sdk_capabilities),
      (''log_injection_128bit_traceid'', 387, sdk_capabilities)]"

definition features_17 :: "feature list" where
  "features_17 =
     [(''iast_schema'', 394, asm),
      (''iast_vuln_sampling_route_method_count_algorithm'', 395, asm),
      (''appsec_collect_all_headers'', 390, asm),
      (''appsec_collect_request_body'', 391, asm),
      (''referrer_hostname'', 396, sdk_capabilities),
      (''baggage_span_tags'', 470, sdk_capabilities),
      (''remote_config_semantic_versioning'', 472, remote_config),
      (''process_tags'', 475, language_platform),
      (''appsec_rc_asm_dd_multiconfig'', 473, asm),
      (''appsec_trace_tagging_rules'', 474, asm),
      (''unstructured_log_injection'', 477, sdk_capabilities),
      (''auto_instrumentation_appsec'', 478, injection_platform),
      (''host_auto_installation_script_appsec'', 479, injection_platform),
      (''container_auto_installation_script_appsec'', 480, injection_platform),
      (''ssi_injection_metadata'', 481, injection_platform),
      (''api_security_endpoint_discovery'', 483, asm),
      (''otel_metrics_api'', 484, sdk_capabilities),
      (''go_proxies'', 350, asm)]"

definition features_18 :: "feature list" where
  "features_18 =
     [(''efficient_trace_payload'', 488, language_platform),
      (''otel_logs_enabled'', 487, sdk_capabilities),
      (''api10'', 490, asm),
      (''resource_renaming'', 491, asm),
      (''feature_flags_dynamic_evaluation'', 538, ffe),
      (''feature_flags_agentless'', 561, ffe),
      (''feature_flags_portable_configuration'', 562, ffe),
      (''feature_flags_exposures'', 535, ffe),
      (''feature_flags_eval_metrics'', 548, ffe),
      (''feature_flags_evp_flagevaluation'', 540, ffe),
      (''feature_flags_event_enrichment'', 551, ffe),
      (''feature_flags_serial_id_metadata'', 648, ffe),
      (''feature_flags_evaluation_telemetry_opt_out'', 649, ffe),
      (''appsec_extended_data_collection'', 492, asm),
      (''api_llm_endpoint'', not_reported_id, asm),
      (''agent_data_integrity'', 495, agent_apm),
      (''blocking_response_id'', 493, asm),
      (''b3multi_headers_propagation'', 496, sdk_capabilities)]"

definition features_19 :: "feature list" where
  "features_19 =
     [(''postgres_receiver_metrics'', 498, idm),
      (''llm_observability_openai_llm_interactions'', 515, ml_observability),
      (''llm_observability_openai_embeddings'', 521, ml_observability),
      (''llm_observability_prompts'', 517, ml_observability),
      (''rum_injection'', 525, sdk_capabilities),
      (''apm_openai_completions'', 516, ml_observability),
      (''apm_openai_chat_completions'', 518, ml_observability),
      (''apm_openai_responses'', 519, ml_observability),
      (''apm_openai_embeddings'', 520, ml_observability),
      (''apm_anthropic_messages'', 523, ml_observability),
      (''llm_observability_anthropic_messages'', 524, ml_observability),
      (''appsec_api_gateway_inferred_span_discovery'', 526, asm),
      (''llm_observability_sdk_enablement'', 542, ml_observability),
      (''ai_guard'', 528, asm),
      (''ai_guard_standalone'', 559, asm),
      (''apm_google_genai_generate_content'', 531, ml_observability),
      (''apm_google_genai_embed_content'', 532, ml_observability),
      (''llm_observability_google_genai_generate_content'', 533, ml_observability)]"

definition features_20 :: "feature list" where
  "features_20 =
     [(''llm_observability_google_genai_generate_content_reasoning'', 534, ml_observability),
      (''llm_observability_google_genai_generate_content_with_tools'', 536, ml_observability),
      (''llm_observability_google_genai_embed_content'', 537, ml_observability),
      (''appsec_automated_payment_events'', 541, asm),
      (''llm_observability_datasets'', 543, ml_observability),
      (''service_override_source'', 545, language_platform),
      (''appsec_apm_standalone'', 546, asm),
      (''base_service'', 549, idm),
      (''runtime_sca_reachability'', 553, asm),
      (''llm_observability_cost_tags'', 554, ml_observability),
      (''api_security_testing_headers_collection'', 556, asm),
      (''api_security_normalized_route'', 557, asm),
      (''auth_schemas'', 560, asm),
      (''appsec_raw_response_body'', 565, asm),
      (''otel_attribute_count_limit'', 567, sdk_capabilities),
      (''otel_attribute_value_length_limit'', 568, sdk_capabilities),
      (''otel_blrp_export_timeout'', 569, sdk_capabilities)]"

definition features_21 :: "feature list" where
  "features_21 =
     [(''otel_blrp_max_export_batch_size'', 570, sdk_capabilities),
      (''otel_blrp_max_queue_size'', 571, sdk_capabilities),
      (''otel_blrp_schedule_delay'', 572, sdk_capabilities),
      (''otel_bsp_export_timeout'', 573, sdk_capabilities),
      (''otel_bsp_max_export_batch_size'', 574, sdk_capabilities),
      (''otel_bsp_max_queue_size'', 575, sdk_capabilities),
      (''otel_bsp_schedule_delay'', 576, sdk_capabilities),
      (''otel_config_file'', 577, sdk_capabilities),
      (''otel_entities'', 578, sdk_capabilities),
      (''otel_event_attribute_count_limit'', 579, sdk_capabilities),
      (''otel_experimental_config_file'', 580, sdk_capabilities),
      (''otel_exporter_otlp_certificate'', 581, sdk_capabilities),
      (''otel_exporter_otlp_client_certificate'', 582, sdk_capabilities),
      (''otel_exporter_otlp_client_key'', 583, sdk_capabilities),
      (''otel_exporter_otlp_compression'', 584, sdk_capabilities),
      (''otel_exporter_otlp_endpoint'', 585, sdk_capabilities),
      (''otel_exporter_otlp_headers'', 586, sdk_capabilities),
      (''otel_exporter_otlp_insecure'', 587, sdk_capabilities)]"

definition features_22 :: "feature list" where
  "features_22 =
     [(''otel_exporter_otlp_logs_certificate'', 588, sdk_capabilities),
      (''otel_exporter_otlp_logs_client_certificate'', 589, sdk_capabilities),
      (''otel_exporter_otlp_logs_client_key'', 590, sdk_capabilities),
      (''otel_exporter_otlp_logs_compression'', 591, sdk_capabilities),
      (''otel_exporter_otlp_logs_endpoint'', 592, sdk_capabilities),
      (''otel_exporter_otlp_logs_headers'', 593, sdk_capabilities),
      (''otel_exporter_otlp_logs_insecure'', 594, sdk_capabilities),
      (''otel_exporter_otlp_logs_protocol'', 595, sdk_capabilities),
      (''otel_exporter_otlp_logs_timeout'', 596, sdk_capabilities),
      (''otel_exporter_otlp_metrics_certificate'', 597, sdk_capabilities),
      (''otel_exporter_otlp_metrics_client_certificate'', 598, sdk_capabilities),
      (''otel_exporter_otlp_metrics_client_key'', 599, sdk_capabilities),
      (''otel_exporter_otlp_metrics_compression'', 600, sdk_capabilities),
      (''otel_exporter_otlp_metrics_endpoint'', 601, sdk_capabilities),
      (''otel_exporter_otlp_metrics_headers'', 602, sdk_capabilities),
      (''otel_exporter_otlp_metrics_insecure'', 603, sdk_capabilities),
      (''otel_exporter_otlp_metrics_protocol'', 604, sdk_capabilities),
      (''otel_exporter_otlp_metrics_temporality_preference'', 645, sdk_capabilities)]"

definition features_23 :: "feature list" where
  "features_23 =
     [(''otel_exporter_otlp_metrics_timeout'', 605, sdk_capabilities),
      (''otel_exporter_otlp_metric_insecure'', 606, sdk_capabilities),
      (''otel_exporter_otlp_protocol'', 607, sdk_capabilities),
      (''otel_exporter_otlp_span_insecure'', 608, sdk_capabilities),
      (''otel_exporter_otlp_timeout'', 609, sdk_capabilities),
      (''otel_exporter_otlp_traces_certificate'', 610, sdk_capabilities),
      (''otel_exporter_otlp_traces_client_certificate'', 611, sdk_capabilities),
      (''otel_exporter_otlp_traces_client_key'', 612, sdk_capabilities),
      (''otel_exporter_otlp_traces_compression'', 613, sdk_capabilities),
      (''otel_exporter_otlp_traces_endpoint'', 614, sdk_capabilities),
      (''otel_exporter_otlp_traces_headers'', 615, sdk_capabilities),
      (''otel_exporter_otlp_traces_insecure'', 616, sdk_capabilities),
      (''otel_exporter_otlp_traces_protocol'', 617, sdk_capabilities),
      (''otel_exporter_otlp_traces_timeout'', 618, sdk_capabilities),
      (''otel_exporter_prometheus_host'', 619, sdk_capabilities),
      (''otel_exporter_prometheus_port'', 620, sdk_capabilities),
      (''otel_exporter_zipkin_endpoint'', 621, sdk_capabilities),
      (''otel_exporter_zipkin_protocol'', 622, sdk_capabilities)]"

definition features_24 :: "feature list" where
  "features_24 =
     [(''otel_exporter_zipkin_timeout'', 623, sdk_capabilities),
      (''otel_link_attribute_count_limit'', 624, sdk_capabilities),
      (''otel_logrecord_attribute_count_limit'', 625, sdk_capabilities),
      (''otel_logrecord_attribute_value_length_limit'', 626, sdk_capabilities),
      (''otel_logs_exporter'', 627, sdk_capabilities),
      (''otel_log_level'', 628, sdk_capabilities),
      (''otel_metrics_exemplar_filter'', 629, sdk_capabilities),
      (''otel_metrics_exporter'', 630, sdk_capabilities),
      (''otel_metric_export_interval'', 631, sdk_capabilities),
      (''otel_metric_export_timeout'', 632, sdk_capabilities),
      (''otel_propagators'', 633, sdk_capabilities),
      (''otel_resource_attributes'', 634, sdk_capabilities),
      (''otel_sdk_disabled'', 635, sdk_capabilities),
      (''otel_service_name'', 566, sdk_capabilities),
      (''otel_span_attribute_count_limit'', 636, sdk_capabilities),
      (''otel_span_attribute_value_length_limit'', 637, sdk_capabilities),
      (''otel_span_event_count_limit'', 638, sdk_capabilities),
      (''otel_span_link_count_limit'', 639, sdk_capabilities)]"

definition features_25 :: "feature list" where
  "features_25 =
     [(''otel_traces_exporter'', 640, sdk_capabilities),
      (''otel_traces_sampler'', 641, sdk_capabilities),
      (''otel_traces_sampler_arg'', 642, sdk_capabilities),
      (''thread_context_sharing'', 647, asm)]"

definition features :: "feature list" where
  "features =
     features_1 @
     features_2 @
     features_3 @
     features_4 @
     features_5 @
     features_6 @
     features_7 @
     features_8 @
     features_9 @
     features_10 @
     features_11 @
     features_12 @
     features_13 @
     features_14 @
     features_15 @
     features_16 @
     features_17 @
     features_18 @
     features_19 @
     features_20 @
     features_21 @
     features_22 @
     features_23 @
     features_24 @
     features_25"

text \<open>The decorator \<open>features.name\<close>; an unknown name is an \<open>AttributeError\<close>.\<close>

definition apply_feature :: "(string, string) dict \<Rightarrow> string \<Rightarrow> mark list \<Rightarrow> mark list res" where
  "apply_feature env name marks =
     rbind (of_option Attribute_Error (map_of features name)) (\<lambda>(feature_id, own).
       Inr (mark_test_object env feature_id own marks))"

subsection \<open>Identifiers\<close>

fun strictly_increasing :: "int list \<Rightarrow> bool" where
  "strictly_increasing (x # y # xs) \<longleftrightarrow> x < y \<and> strictly_increasing (y # xs)"
| "strictly_increasing xs \<longleftrightarrow> True"

lemma strictly_increasing_distinct: "strictly_increasing xs \<Longrightarrow> distinct xs"
proof -
  assume "strictly_increasing xs"
  then have "sorted_wrt (<) xs"
    by (induction xs rule: strictly_increasing.induct) (auto simp: sorted_wrt2)
  then show "distinct xs" by (simp add: strict_sorted_iff)
qed

lemma distinct_by_sort: "strictly_increasing (sort xs) \<Longrightarrow> distinct xs"
  using strictly_increasing_distinct [of "sort xs"] by simp

definition feature_id_of :: "feature \<Rightarrow> int" where
  "feature_id_of f = fst (snd f)"

text \<open>The identifiers that several features carry: the unreported ones and three others.\<close>

definition shared_ids :: "int list" where
  "shared_ids = [- 1, 5, 203, 327]"

lemma feature_ids_of_rows:
    "map feature_id_of features_1 = [- 1, 1, 2, 4, 5, 6, 7, 8, 10, 13, 14, 16, 17]"
    "map feature_id_of features_2 = [18, 19, 21, 22, 23, 24, 25, 30, 31, 32, 33, 36, 37]"
    "map feature_id_of features_3 = [39, 40, 41, 5, 43, 44, 45, 48, 49, 50, 51, 53, 55]"
    "map feature_id_of features_4 = [60, 61, 62, 64, 65, 66, 67, 68, 69, 70, 71, 72, 73, 74, 75, 76, 77]"
    "map feature_id_of features_5 = [78, 79, 80, 81, 82, 83, 84, 85, 86, 87, 88, 89, 90, 96, 98, 100, 110]"
    "map feature_id_of features_6 = [113, 124, 134, 140, 141, 372, 471, 142, 143, 144, 146, 154, 563, 157, 158, 161, 162, 165]"
    "map feature_id_of features_7 = [315, 166, 167, 168, 203, 330, 169, 170, 171, 172, 173, 174, 175, 277, 278, 281, 176, 178]"
    "map feature_id_of features_8 = [192, 196, 197, 290, 198, 199, 200, 201, 373, 202, 203, 204, 205, 206, 207, 225, 208, 209]"
    "map feature_id_of features_9 = [210, 211, 212, 213, 214, 215, 216, 217, 226, 218, 219, 220, 221, 222, 223, 224, 227, 229]"
    "map feature_id_of features_10 = [230, 231, 232, 233, 234, 235, 236, 237, 238, 240, 241, 242, 243, 244, 245, 246, 247, 248]"
    "map feature_id_of features_11 = [249, 250, 251, 252, 253, 254, 261, 262, 263, 264, 266, 267, 268, 269, 270, 271, 273]"
    "map feature_id_of features_12 = [272, 274, 275, 276, 280, 284, 287, 282, 279, 286, 288, 289, 291, 292, 293, 294, 295]"
    "map feature_id_of features_13 = [296, 558, 297, 298, 303, 302, 305, 355, 319, 356, 320, 357, 314, 306, 362, 307, 308, 309]"
    "map feature_id_of features_14 = [327, 311, 312, 313, 316, 317, 318, 345, 321, 324, 344, 322, 340, 326, 327, 328, 341, 339]"
    "map feature_id_of features_15 = [329, 364, 342, 346, 347, 389, 343, 354, 485, 353, 555, 358, 359, 360, 368, 564, 392, 393]"
    "map feature_id_of features_16 = [370, 361, 365, 366, 367, 369, 374, 375, 377, 379, 381, 382, 384, 385, 387]"
    "map feature_id_of features_17 = [394, 395, 390, 391, 396, 470, 472, 475, 473, 474, 477, 478, 479, 480, 481, 483, 484, 350]"
    "map feature_id_of features_18 = [488, 487, 490, 491, 538, 561, 562, 535, 548, 540, 551, 648, 649, 492, - 1, 495, 493, 496]"
    "map feature_id_of features_19 = [498, 515, 521, 517, 525, 516, 518, 519, 520, 523, 524, 526, 542, 528, 559, 531, 532, 533]"
    "map feature_id_of features_20 = [534, 536, 537, 541, 543, 545, 546, 549, 553, 554, 556, 557, 560, 565, 567, 568, 569]"
    "map feature_id_of features_21 = [570, 571, 572, 573, 574, 575, 576, 577, 578, 579, 580, 581, 582, 583, 584, 585, 586, 587]"
    "map feature_id_of features_22 = [588, 589, 590, 591, 592, 593, 594, 595, 596, 597, 598, 599, 600, 601, 602, 603, 604, 645]"
    "map feature_id_of features_23 = [605, 606, 607, 608, 609, 610, 611, 612, 613, 614, 615, 616, 617, 618, 619, 620, 621, 622]"
    "map feature_id_of features_24 = [623, 624, 625, 626, 627, 628, 629, 630, 631, 632, 633, 634, 635, 566, 636, 637, 638, 639]"
    "map feature_id_of features_25 = [640, 641, 642, 647]"
  by (simp_all add: features_1_def features_2_def features_3_def features_4_def features_5_def features_6_def features_7_def features_8_def features_9_def features_10_def features_11_def features_12_def features_13_def features_14_def features_15_def features_16_def features_17_def features_18_def features_19_def features_20_def features_21_def features_22_def features_23_def features_24_def features_25_def feature_id_of_def not_reported_id_def)

lemma features_increasing:
  "strictly_increasing (sort (filter (\<lambda>i. i \<notin> set shared_ids) (map feature_id_of features)))"
  unfolding features_def map_append feature_ids_of_rows append.simps
  by code_simp

lemma shared_rows:
    "filter (\<lambda>f. feature_id_of f \<in> set shared_ids) features_1 = [(''not_reported'', - 1, rp), (''log_injection'', 5, sdk_capabilities)]"
    "filter (\<lambda>f. feature_id_of f \<in> set shared_ids) features_2 = []"
    "filter (\<lambda>f. feature_id_of f \<in> set shared_ids) features_3 = [(''structured_log_injection'', 5, sdk_capabilities)]"
    "filter (\<lambda>f. feature_id_of f \<in> set shared_ids) features_4 = []"
    "filter (\<lambda>f. feature_id_of f \<in> set shared_ids) features_5 = []"
    "filter (\<lambda>f. feature_id_of f \<in> set shared_ids) features_6 = []"
    "filter (\<lambda>f. feature_id_of f \<in> set shared_ids) features_7 = [(''iast_sink_header_injection'', 203, asm)]"
    "filter (\<lambda>f. feature_id_of f \<in> set shared_ids) features_8 = [(''appsec_header_injection'', 203, asm)]"
    "filter (\<lambda>f. feature_id_of f \<in> set shared_ids) features_9 = []"
    "filter (\<lambda>f. feature_id_of f \<in> set shared_ids) features_10 = []"
    "filter (\<lambda>f. feature_id_of f \<in> set shared_ids) features_11 = []"
    "filter (\<lambda>f. feature_id_of f \<in> set shared_ids) features_12 = []"
    "filter (\<lambda>f. feature_id_of f \<in> set shared_ids) features_13 = []"
    "filter (\<lambda>f. feature_id_of f \<in> set shared_ids) features_14 = [(''datastreams_monitoring_support_for_manual_checkpoints'', 327, idm), (''ssi_service_tracking'', 327, injection_platform)]"
    "filter (\<lambda>f. feature_id_of f \<in> set shared_ids) features_15 = []"
    "filter (\<lambda>f. feature_id_of f \<in> set shared_ids) features_16 = []"
    "filter (\<lambda>f. feature_id_of f \<in> set shared_ids) features_17 = []"
    "filter (\<lambda>f. feature_id_of f \<in> set shared_ids) features_18 = [(''api_llm_endpoint'', - 1, asm)]"
    "filter (\<lambda>f. feature_id_of f \<in> set shared_ids) features_19 = []"
    "filter (\<lambda>f. feature_id_of f \<in> set shared_ids) features_20 = []"
    "filter (\<lambda>f. feature_id_of f \<in> set shared_ids) features_21 = []"
    "filter (\<lambda>f. feature_id_of f \<in> set shared_ids) features_22 = []"
    "filter (\<lambda>f. feature_id_of f \<in> set shared_ids) features_23 = []"
    "filter (\<lambda>f. feature_id_of f \<in> set shared_ids) features_24 = []"
    "filter (\<lambda>f. feature_id_of f \<in> set shared_ids) features_25 = []"
  by (simp_all add: features_1_def features_2_def features_3_def features_4_def features_5_def features_6_def features_7_def features_8_def features_9_def features_10_def features_11_def features_12_def features_13_def features_14_def features_15_def features_16_def features_17_def features_18_def features_19_def features_20_def features_21_def features_22_def features_23_def features_24_def features_25_def feature_id_of_def not_reported_id_def shared_ids_def)

text \<open>A feature identifier names one feature, with exceptions: two features are not reported,
  and three identifiers of the dashboard are carried by two features each.  The features of 327
  even belong to different teams, so the results of both are reported under one entry.
\<close>

theorem feature_ids_unique:
  "distinct (filter (\<lambda>i. i \<notin> set shared_ids) (map feature_id_of features)) \<and>
   filter (\<lambda>f. feature_id_of f \<in> set shared_ids) features =
     [(''not_reported'', - 1, rp), (''log_injection'', 5, sdk_capabilities),
      (''structured_log_injection'', 5, sdk_capabilities), (''iast_sink_header_injection'', 203, asm),
      (''appsec_header_injection'', 203, asm),
      (''datastreams_monitoring_support_for_manual_checkpoints'', 327, idm),
      (''ssi_service_tracking'', 327, injection_platform), (''api_llm_endpoint'', - 1, asm)]"
proof
  show "distinct (filter (\<lambda>i. i \<notin> set shared_ids) (map feature_id_of features))"
    by (rule distinct_by_sort) (rule features_increasing)
  show "filter (\<lambda>f. feature_id_of f \<in> set shared_ids) features =
     [(''not_reported'', - 1, rp), (''log_injection'', 5, sdk_capabilities),
      (''structured_log_injection'', 5, sdk_capabilities), (''iast_sink_header_injection'', 203, asm),
      (''appsec_header_injection'', 203, asm),
      (''datastreams_monitoring_support_for_manual_checkpoints'', 327, idm),
      (''ssi_service_tracking'', 327, injection_platform), (''api_llm_endpoint'', - 1, asm)]"
    unfolding features_def filter_append shared_rows by simp
qed

end
