(* ===== verification/Test_Session.thy ===== *)
theory Test_Session
  imports Manifest_Rule
begin

section \<open>Declarations on tests and the test session (\<open>utils/_decorators.py\<close>, \<open>conftest.py\<close>)\<close>

text \<open>
  A declaration of the manifest or a decorator becomes two markers of pytest on the test: a skip
  or an expected failure, and the declaration itself.  When the tests are collected, the plugin
  adds the markers of the manifest, selects the tests of the current scenario and counts those
  that must pass.  An item of pytest is modelled by its own markers and those of its parents
  (class, module, package), nearest first, which is the order of \<open>iter_markers\<close>.
\<close>

datatype marker =
    Mk_skip string
  | Mk_xfail string
  | Mk_skipif "bool list"
  | Mk_declaration string "string option"
  | Mk_scenario string
  | Mk_skip_if_xfail
  | Mk_auxiliary_test
  | Mk_features int
  | Mk_owners string
  | Mk_other string

fun marker_name :: "marker \<Rightarrow> string" where
  "marker_name (Mk_skip r) = ''skip''"
| "marker_name (Mk_xfail r) = ''xfail''"
| "marker_name (Mk_skipif cs) = ''skipif''"
| "marker_name (Mk_declaration d details) = ''declaration''"
| "marker_name (Mk_scenario s) = ''scenario''"
| "marker_name Mk_skip_if_xfail = ''skip_if_xfail''"
| "marker_name Mk_auxiliary_test = ''auxiliary_test''"
| "marker_name (Mk_features i) = ''features''"
| "marker_name (Mk_owners t) = ''owners''"
| "marker_name (Mk_other n) = n"

subsection \<open>Decorators\<close>

record test_context =
  cx_library :: component_version
  cx_weblog_variant :: string
  cx_scenario :: string

text \<open>
  What is decorated: a function, a class, a module, or an item of pytest.  An ill-formed reason
  ends the session.
\<close>

datatype target = T_function | T_class | T_module | T_item | T_other

definition ensure_valid_declaration_reason :: "test_declaration \<Rightarrow> string option \<Rightarrow> unit res" where
  "ensure_valid_declaration_reason d details =
     (case validate_declaration_reason d details of
        Inl Value_Error \<Rightarrow> Inl Exit_Error
      | r \<Rightarrow> r)"

definition declaration_markers :: "test_declaration \<Rightarrow> string option \<Rightarrow> marker list" where
  "declaration_markers d details =
     (let reason = (case details of None \<Rightarrow> td_str d | Some t \<Rightarrow> td_str d @ '' ('' @ t @ '')'') in
      [if d = IRRELEVANT \<or> d = FLAKY then Mk_skip reason else Mk_xfail reason,
       Mk_declaration (td_str d) details])"

definition add_pytest_marker ::
  "target \<Rightarrow> test_declaration \<Rightarrow> string option \<Rightarrow> marker list \<Rightarrow> marker list res" where
  "add_pytest_marker t d details markers =
     (if t = T_other then Inl Value_Error
      else rbind (ensure_valid_declaration_reason d details) (\<lambda>_.
        Inr (markers @ declaration_markers d details)))"

definition decorated_libraries :: "string list" where
  "decorated_libraries =
     [''c'', ''cpp'', ''cpp_httpd'', ''cpp_kong'', ''cpp_nginx'', ''dotnet'', ''golang'', ''java'', ''nodejs'',
      ''python'', ''php'', ''ruby'', ''java_otel'', ''python_otel'', ''nodejs_otel'', ''python_lambda'',
      ''java_lambda'', ''nodejs_lambda'', ''ruby_lambda'', ''rust'']"

definition expected_to_fail ::
  "semver_lib \<Rightarrow> known \<Rightarrow> test_context \<Rightarrow> bool option \<Rightarrow> string option \<Rightarrow> string option \<Rightarrow> bool res" where
  "expected_to_fail L k cx condition library weblog_variant =
     (if condition = Some False then Inr False
      else if weblog_variant \<noteq> None \<and> weblog_variant \<noteq> Some (cx_weblog_variant cx) then Inr False
      else (case library of
          None \<Rightarrow> Inr True
        | Some l \<Rightarrow>
            if l \<notin> set decorated_libraries then Inl Value_Error
            else rbind (component_version_eq L k (cx_library cx) (Cv_str l)) (\<lambda>(same, _). Inr same)))"

definition decorator ::
  "semver_lib \<Rightarrow> known \<Rightarrow> test_context \<Rightarrow> test_declaration \<Rightarrow> bool option \<Rightarrow> string option \<Rightarrow> string option \<Rightarrow>
     string option \<Rightarrow> target \<Rightarrow> marker list \<Rightarrow> marker list res" where
  "decorator L k cx d condition library weblog_variant details t markers =
     rbind (expected_to_fail L k cx condition library weblog_variant) (\<lambda>fails.
     if t = T_class \<and> condition = None \<and> (library \<noteq> None \<or> weblog_variant \<noteq> None) then Inl Assertion_Error
     else if \<not> fails then Inr markers
     else add_pytest_marker t d details markers)"

definition missing_feature where
  "missing_feature L k cx condition library weblog_variant reason =
     decorator L k cx MISSING_FEATURE condition library weblog_variant reason"

definition incomplete_test_app where
  "incomplete_test_app L k cx condition library weblog_variant reason =
     decorator L k cx INCOMPLETE_TEST_APP condition library weblog_variant reason"

definition irrelevant where
  "irrelevant L k cx condition library weblog_variant reason =
     decorator L k cx IRRELEVANT condition library weblog_variant reason"

definition bug where
  "bug L k cx condition library weblog_variant reason =
     decorator L k cx BUG condition library weblog_variant (Some reason)"

definition flaky where
  "flaky L k cx condition library weblog_variant reason =
     decorator L k cx FLAKY condition library weblog_variant (Some reason)"

subsection \<open>Items\<close>

text \<open>\<open>it_forced\<close>: \<open>iter_markers\<close> of the item is replaced by one without skips and expected failures.\<close>

record item =
  it_nodeid :: string
  it_own_markers :: "marker list"
  it_parent_markers :: "marker list"
  it_forced :: bool
  it_user_properties :: "(string \<times> string) list"

definition all_markers :: "item \<Rightarrow> marker list" where
  "all_markers it = it_own_markers it @ it_parent_markers it"

definition iter_markers :: "item \<Rightarrow> marker list" where
  "iter_markers it =
     (if it_forced it
      then filter (\<lambda>m. marker_name m \<notin> {''skip'', ''skipif'', ''xfail''}) (all_markers it)
      else all_markers it)"

definition markers_named :: "string \<Rightarrow> item \<Rightarrow> marker list" where
  "markers_named name it = filter (\<lambda>m. marker_name m = name) (iter_markers it)"

definition item_must_pass :: "item \<Rightarrow> bool" where
  "item_must_pass it \<longleftrightarrow>
     markers_named ''skip'' it = [] \<and> markers_named ''xfail'' it = [] \<and>
     markers_named ''auxiliary_test'' it = [] \<and>
     list_all (\<lambda>m. case m of Mk_skipif cs \<Rightarrow> \<not> list_all (\<lambda>c. c) cs | _ \<Rightarrow> True) (markers_named ''skipif'' it)"

definition item_is_skipped :: "item \<Rightarrow> bool" where
  "item_is_skipped it \<longleftrightarrow> markers_named ''skip'' it \<noteq> []"

subsection \<open>Collection\<close>

record options =
  op_sleep :: bool
  op_force_execute :: "string list"
  op_skip_empty_scenario :: bool

text \<open>\<open>config.option.force_execute\<close> is cleaned before the scenario is chosen.\<close>

definition clean_force_execute :: "string list \<Rightarrow> string list" where
  "clean_force_execute xs = map str_strip (filter (\<lambda>x. str_strip x \<noteq> []) xs)"

definition declare_item :: "'c manifest \<Rightarrow> item \<Rightarrow> item res" where
  "declare_item mf it =
     rbind (get_declarations mf (it_nodeid it)) (\<lambda>(declarations, _).
     rbind (rfold (\<lambda>d. add_pytest_marker T_item (sd_value d) (sd_details d)) declarations (it_own_markers it)) (\<lambda>mks.
     Inr (it\<lparr>it_own_markers := mks\<rparr>)))"

text \<open>\<open>{marker.name: marker for marker in item.iter_markers()}\<close>: the farthest marker of a name.\<close>

definition last_marker :: "string \<Rightarrow> item \<Rightarrow> marker option" where
  "last_marker name it = (case markers_named name it of [] \<Rightarrow> None | mks \<Rightarrow> Some (last mks))"

definition opt_str :: "string option \<Rightarrow> string" where
  "opt_str s = (case s of None \<Rightarrow> ''None'' | Some t \<Rightarrow> t)"

definition skip_declared :: "item \<Rightarrow> item" where
  "skip_declared it =
     (case (last_marker ''skip_if_xfail'' it, last_marker ''declaration'' it) of
        (Some _, Some (Mk_declaration d details)) \<Rightarrow>
          it\<lparr>it_own_markers := it_own_markers it @ [Mk_skip (d @ '' ('' @ opt_str details @ '')'')]\<rparr>
      | _ \<Rightarrow> it)"

definition declared_scenarios :: "item \<Rightarrow> string list" where
  "declared_scenarios it =
     (let own = filter (\<lambda>m. marker_name m = ''scenario'') (it_own_markers it);
          mks = (if own \<noteq> [] then own else markers_named ''scenario'' it)
      in if mks = [] then [''DEFAULT'']
         else map (\<lambda>m. case m of Mk_scenario s \<Rightarrow> s | _ \<Rightarrow> []) mks)"

text \<open>The report of the declarations writes the text of each marker; the markers are kept here.\<close>

record selection =
  sl_selected :: "item list"
  sl_deselected :: "item list"
  sl_scenarios :: "(string, string list) dict"
  sl_declarations :: "(string, marker list) dict"
  sl_must_pass :: nat

definition select_item :: "options \<Rightarrow> test_context \<Rightarrow> item \<Rightarrow> selection \<Rightarrow> selection" where
  "select_item opts cx it0 s =
     (let it = skip_declared it0;
          scenarios = declared_scenarios it;
          marks = filter (\<lambda>m. marker_name m \<in> {''xfail'', ''skip''}) (it_own_markers it);
          s = s\<lparr>sl_scenarios := dset (it_nodeid it) scenarios (sl_scenarios s),
            sl_declarations := dset (it_nodeid it) marks (sl_declarations s)\<rparr>
      in if op_sleep opts then s\<lparr>sl_deselected := sl_deselected s @ [it]\<rparr>
         else if cx_scenario cx \<in> set scenarios then
           (let it = (if list_ex (startswith (it_nodeid it)) (op_force_execute opts)
                then it\<lparr>it_forced := True\<rparr> else it)
            in s\<lparr>sl_selected := sl_selected s @ [it],
                 sl_must_pass := sl_must_pass s + (if item_must_pass it then 1 else 0)\<rparr>)
         else s\<lparr>sl_deselected := sl_deselected s @ [it]\<rparr>)"

definition empty_selection :: selection where
  "empty_selection = \<lparr>sl_selected = [], sl_deselected = [], sl_scenarios = [], sl_declarations = [], sl_must_pass = 0\<rparr>"

text \<open>The items that stay in the session, and those given to \<open>pytest_deselected\<close>.\<close>

definition pytest_collection_modifyitems ::
  "options \<Rightarrow> test_context \<Rightarrow> 'c manifest \<Rightarrow> item list \<Rightarrow> (item list \<times> item list \<times> selection) res" where
  "pytest_collection_modifyitems opts cx mf items =
     rbind (rmap (declare_item mf) items) (\<lambda>items.
     let s = fold (select_item opts cx) items empty_selection in
     if sl_must_pass s = 0 \<and> op_skip_empty_scenario opts then
       (let items = [] in Inr (items, items, s))
     else Inr (sl_selected s, sl_deselected s, s))"

subsection \<open>Metadata and outcomes\<close>

record metadata =
  md_details :: "string option"
  md_declaration :: "string option"
  md_features :: "int list"
  md_owners :: "string list"

text \<open>The loop over the declarations from the farthest to the nearest; \<open>irrelevant\<close> stops it.\<close>

fun exposed_declaration ::
  "marker list \<Rightarrow> string option \<times> string option \<Rightarrow> string option \<times> string option" where
  "exposed_declaration (Mk_declaration d details # mks) acc =
     (if d = ''irrelevant'' then (Some d, details) else exposed_declaration mks (Some d, details))"
| "exposed_declaration (m # mks) acc = exposed_declaration mks acc"
| "exposed_declaration [] acc = acc"

text \<open>The owners are a set; its order is not specified, here it is the order of appearance.\<close>

definition collect_item_metadata :: "item \<Rightarrow> metadata" where
  "collect_item_metadata it =
     (let (d, details) = exposed_declaration (rev (markers_named ''declaration'' it)) (None, None) in
      \<lparr>md_details = (case details of None \<Rightarrow> d | Some t \<Rightarrow> Some (opt_str d @ '' ('' @ t @ '')'')),
        md_declaration = d,
        md_features = concat (map (\<lambda>m. case m of Mk_features i \<Rightarrow> [i] | _ \<Rightarrow> []) (markers_named ''features'' it)),
        md_owners = remdups (concat (map (\<lambda>m. case m of Mk_owners t \<Rightarrow> [t] | _ \<Rightarrow> []) (markers_named ''owners'' it)))\<rparr>)"

definition not_reported_feature_id :: int where
  "not_reported_feature_id = - 1"

text \<open>The properties added for the JUnit report, after the owners in JSON.\<close>

definition junit_properties :: "(string list \<Rightarrow> string) \<Rightarrow> metadata \<Rightarrow> string option \<Rightarrow> (string \<times> string) list" where
  "junit_properties dumps m details =
     [(''test.codeowners'', dumps (md_owners m))] @
     (if md_features m \<noteq> [not_reported_feature_id]
      then [(''dd_tags[systest.case.feature_ids]'',
        ''['' @ str_join '', '' (map str_of_int (filter (\<lambda>x. x \<noteq> not_reported_feature_id) (md_features m))) @ '']'')]
      else []) @
     (case md_declaration m of
        Some d \<Rightarrow> if d \<noteq> [] then [(''dd_tags[systest.case.declaration]'', d)] else [] | None \<Rightarrow> []) @
     (case details of
        Some t \<Rightarrow> if t \<noteq> [] then [(''dd_tags[systest.case.declarationDetails]'', t)] else [] | None \<Rightarrow> [])"

definition final_status :: "string \<Rightarrow> string res" where
  "final_status outcome =
     (if outcome \<in> {''passed'', ''xpassed''} then Inr ''pass''
      else if outcome \<in> {''failed'', ''error''} then Inr ''fail''
      else if outcome \<in> {''skipped'', ''xfailed''} then Inr ''skip''
      else Inl Value_Error)"

definition set_outcome_properties ::
  "string \<Rightarrow> (string \<times> string) list \<Rightarrow> (string \<times> string) list res" where
  "set_outcome_properties outcome props =
     rbind (final_status outcome) (\<lambda>st.
       Inr (props @ [(''dd_tags[systest.case.outcome]'', outcome), (''dd_tags[test.final_status]'', st)]))"

text \<open>\<open>pytest_runtest_makereport\<close> for the report of the call phase.\<close>

definition report_outcome :: "string \<Rightarrow> bool \<Rightarrow> string" where
  "report_outcome outcome wasxfail =
     (if wasxfail \<and> outcome = ''skipped'' then ''xfailed''
      else if wasxfail \<and> outcome = ''passed'' then ''xpassed'' else outcome)"

definition makereport :: "string \<Rightarrow> string \<Rightarrow> bool \<Rightarrow> item \<Rightarrow> item res" where
  "makereport phase outcome wasxfail it =
     (if phase = ''call'' then
        rbind (set_outcome_properties (report_outcome outcome wasxfail) (it_user_properties it)) (\<lambda>ps.
          Inr (it\<lparr>it_user_properties := ps\<rparr>))
      else Inr it)"

text \<open>\<open>pytest_fixture_setup\<close> when the fixture fails.\<close>

definition fixture_failed :: "item \<Rightarrow> item res" where
  "fixture_failed it =
     rbind (set_outcome_properties (if markers_named ''xfail'' it \<noteq> [] then ''xfailed'' else ''error'')
         (it_user_properties it)) (\<lambda>ps. Inr (it\<lparr>it_user_properties := ps\<rparr>))"

record parity_test =
  pa_path :: string
  pa_line :: int
  pa_outcome :: string
  pa_declaration :: "string option"
  pa_details :: "string option"
  pa_features :: "int list"

definition convert_test_to_feature_parity_model ::
  "string \<Rightarrow> int \<Rightarrow> string \<Rightarrow> metadata \<Rightarrow> parity_test option" where
  "convert_test_to_feature_parity_model nodeid lineno outcome m =
     (let fs = filter (\<lambda>i. i \<noteq> not_reported_feature_id) (md_features m) in
      if fs \<noteq> [] then Some \<lparr>pa_path = nodeid, pa_line = lineno, pa_outcome = outcome,
        pa_declaration = md_declaration m, pa_details = md_details m, pa_features = fs\<rparr>
      else None)"


subsection \<open>What is selected\<close>

definition in_scenario :: "test_context \<Rightarrow> item \<Rightarrow> bool" where
  "in_scenario cx it \<longleftrightarrow> cx_scenario cx \<in> set (declared_scenarios it)"

definition force :: "options \<Rightarrow> item \<Rightarrow> item" where
  "force opts it =
     (if list_ex (startswith (it_nodeid it)) (op_force_execute opts) then it\<lparr>it_forced := True\<rparr> else it)"

definition run_items :: "options \<Rightarrow> test_context \<Rightarrow> item list \<Rightarrow> item list" where
  "run_items opts cx its = map (force opts) (filter (in_scenario cx) (map skip_declared its))"

definition other_items :: "test_context \<Rightarrow> item list \<Rightarrow> item list" where
  "other_items cx its = filter (\<lambda>it. \<not> in_scenario cx it) (map skip_declared its)"

lemma select_item_run:
  assumes "\<not> op_sleep opts"
  shows "sl_selected (select_item opts cx it s) = sl_selected s @ run_items opts cx [it]"
    and "sl_deselected (select_item opts cx it s) = sl_deselected s @ other_items cx [it]"
    and "sl_must_pass (select_item opts cx it s) =
      sl_must_pass s + length (filter item_must_pass (run_items opts cx [it]))"
  using assms by (auto simp: select_item_def Let_def run_items_def other_items_def in_scenario_def force_def)

lemma select_items_run:
  assumes "\<not> op_sleep opts"
  shows "sl_selected (fold (select_item opts cx) its s) = sl_selected s @ run_items opts cx its \<and>
    sl_deselected (fold (select_item opts cx) its s) = sl_deselected s @ other_items cx its \<and>
    sl_must_pass (fold (select_item opts cx) its s) =
      sl_must_pass s + length (filter item_must_pass (run_items opts cx its))"
proof (induction its arbitrary: s)
  case (Cons it its)
  have "run_items opts cx (it # its) = run_items opts cx [it] @ run_items opts cx its"
    "other_items cx (it # its) = other_items cx [it] @ other_items cx its"
    by (simp_all add: run_items_def other_items_def)
  with Cons show ?case by (simp add: select_item_run [OF assms])
qed (simp add: run_items_def other_items_def)

text \<open>
  C35.  The selection of the tests of a scenario.  Each collected item, with the markers of the
  manifest added, runs exactly when the scenario is among those it declares (its own or else its
  parents', \<open>DEFAULT\<close> without any), in the order of collection.  With the option
  \<open>skip_empty_scenario\<close>, nothing runs when no selected item must pass; and then nothing is
  reported as deselected either: the hook is called with the list just emptied.
\<close>

theorem collection_selects_scenario:
  assumes "\<not> op_sleep opts"
    and "pytest_collection_modifyitems opts cx mf items = Inr (running, reported, s)"
  shows "\<exists>its. rmap (declare_item mf) items = Inr its \<and>
    running = (if op_skip_empty_scenario opts \<and> filter item_must_pass (run_items opts cx its) = [] then []
      else run_items opts cx its) \<and>
    reported = (if op_skip_empty_scenario opts \<and> filter item_must_pass (run_items opts cx its) = [] then []
      else other_items cx its) \<and>
    length (run_items opts cx its) + length (other_items cx its) = length items"
proof -
  from assms(2) obtain its where its: "rmap (declare_item mf) items = Inr its"
    by (auto simp: pytest_collection_modifyitems_def rbind_Inr_iff)
  have "length its = length items" using rmap_length [OF its] .
  moreover have "length (run_items opts cx its) + length (other_items cx its) = length its"
    using sum_length_filter_compl [of "in_scenario cx" "map skip_declared its"]
    by (simp add: run_items_def other_items_def)
  ultimately show ?thesis
    using assms(2) select_items_run [OF assms(1), of cx its empty_selection]
    by (auto simp: pytest_collection_modifyitems_def its empty_selection_def Let_def split: if_splits)
qed


definition sample_item :: "string \<Rightarrow> marker list \<Rightarrow> item" where
  "sample_item nodeid markers = \<lparr>it_nodeid = nodeid, it_own_markers = markers, it_parent_markers = [],
     it_forced = False, it_user_properties = []\<rparr>"

definition sample_options :: options where
  "sample_options = \<lparr>op_sleep = False, op_force_execute = [], op_skip_empty_scenario = True\<rparr>"

definition sample_session_context :: test_context where
  "sample_session_context = \<lparr>cx_library = \<lparr>cv_name = ''java'', cv_raw = ''1.0.0'',
     cv_version = \<lparr>major = 1, minor = 0, patch = 0, prerelease = [], build = []\<rparr>\<rparr>, cx_weblog_variant = ''w'',
     cx_scenario = ''DEFAULT''\<rparr>"

definition sample_session_manifest :: "unit manifest" where
  "sample_session_manifest = \<lparr>mf_data = [], mf_rules = Some [(''tests/a.py'',
       [\<lparr>sd_value = IRRELEVANT, sd_details = None\<rparr>])], mf_tracker = [(''tests/a.py'', [])], mf_components = None\<rparr>"

definition sample_items :: "item list" where
  "sample_items = [sample_item ''tests/a.py::Test'' [], sample_item ''tests/b.py::Test'' [Mk_scenario ''APPSEC'']]"

text \<open>The only test of the scenario is irrelevant: the session is emptied and nothing is reported.\<close>

theorem collection_selects_scenario_witness:
  "\<exists>s. pytest_collection_modifyitems sample_options sample_session_context sample_session_manifest sample_items =
     Inr ([], [], s) \<and> length (sl_deselected s) = 1"
proof -
  have "is_ok (pytest_collection_modifyitems sample_options sample_session_context sample_session_manifest sample_items)"
    by code_simp
  then obtain running reported s where ok: "pytest_collection_modifyitems sample_options sample_session_context
      sample_session_manifest sample_items = Inr (running, reported, s)"
    by (cases "pytest_collection_modifyitems sample_options sample_session_context sample_session_manifest sample_items") auto
  have sleep: "\<not> op_sleep sample_options" by (simp add: sample_options_def)
  have "(case rmap (declare_item sample_session_manifest) sample_items of Inl e \<Rightarrow> False
    | Inr its \<Rightarrow> filter item_must_pass (run_items sample_options sample_session_context its) = [])" by code_simp
  with collection_selects_scenario [OF sleep ok] have "running = []" "reported = []"
    by (auto simp: sample_options_def)
  moreover have "(case pytest_collection_modifyitems sample_options sample_session_context sample_session_manifest
      sample_items of Inl e \<Rightarrow> False | Inr (running, reported, s) \<Rightarrow> length (sl_deselected s) = 1)" by code_simp
  ultimately show ?thesis using ok by auto
qed

lemma add_marker_Inr:
  "add_pytest_marker t d details mks = Inr mks' \<Longrightarrow> mks' = mks @ declaration_markers d details"
  by (auto simp: add_pytest_marker_def rbind_Inr_iff split: if_splits)

lemma add_pytest_markers:
  assumes "rfold (\<lambda>d. add_pytest_marker T_item (sd_value d) (sd_details d)) ds mks = Inr mks'"
  shows "mks' = mks @ concat (map (\<lambda>d. declaration_markers (sd_value d) (sd_details d)) ds)"
  using assms
proof (induction ds arbitrary: mks)
  case (Cons d ds)
  from Cons.prems have "rfold (\<lambda>d. add_pytest_marker T_item (sd_value d) (sd_details d)) ds
      (mks @ declaration_markers (sd_value d) (sd_details d)) = Inr mks'"
    by (simp only: rfold.simps rbind_Inr_iff) (auto dest: add_marker_Inr)
  from Cons.IH [OF this] show ?case by simp
qed simp

lemma named_declaration:
  "filter (\<lambda>m. marker_name m = ''skip'') (declaration_markers d details) = [] \<longleftrightarrow> d \<notin> {IRRELEVANT, FLAKY}"
  "filter (\<lambda>m. marker_name m = ''xfail'') (declaration_markers d details) = [] \<longleftrightarrow> d \<in> {IRRELEVANT, FLAKY}"
  "filter (\<lambda>m. marker_name m = ''auxiliary_test'') (declaration_markers d details) = []"
  "filter (\<lambda>m. marker_name m = ''skipif'') (declaration_markers d details) = []"
  by (simp_all add: declaration_markers_def Let_def)

lemma named_declarations:
  "filter (\<lambda>m. marker_name m = ''skip'') (concat (map (\<lambda>d. declaration_markers (sd_value d) (sd_details d)) ds)) = [] \<longleftrightarrow>
     (\<forall>d \<in> set ds. sd_value d \<notin> {IRRELEVANT, FLAKY})"
  "filter (\<lambda>m. marker_name m = ''xfail'') (concat (map (\<lambda>d. declaration_markers (sd_value d) (sd_details d)) ds)) = [] \<longleftrightarrow>
     (\<forall>d \<in> set ds. sd_value d \<in> {IRRELEVANT, FLAKY})"
  "filter (\<lambda>m. marker_name m = ''auxiliary_test'') (concat (map (\<lambda>d. declaration_markers (sd_value d) (sd_details d)) ds)) = []"
  "filter (\<lambda>m. marker_name m = ''skipif'') (concat (map (\<lambda>d. declaration_markers (sd_value d) (sd_details d)) ds)) = []"
  by (induction ds) (simp_all add: named_declaration)



end
