(* ===== verification/Trace_Context.thy ===== *)
theory Trace_Context
  imports Py_Re Py_Dict
begin

section \<open>W3C trace context (\<open>utils/docker_fixtures/spec/tracecontext.py\<close>)\<close>

text \<open>
  The parsers of the \<open>traceparent\<close> and \<open>tracestate\<close> headers that the parametric tests use.  A
  \<open>Tracestate\<close> is an ordered dictionary of texts: \<open>from_string\<close> appends the members of a header,
  and setting a key moves it to the front, as the specification demands of a modified member.
\<close>

definition tracecontext_flags_set :: int where
  "tracecontext_flags_set = 2 ^ 31"

text \<open>\<open>re.compile("^name$", re.IGNORECASE)\<close>.\<close>

fun Lit_ignore_case :: "string \<Rightarrow> re" where
  "Lit_ignore_case [] = Eps"
| "Lit_ignore_case (c # cs) = Cat (Chr (\<lambda>x. to_lower x = c)) (Lit_ignore_case cs)"

definition traceparent_name_re :: re where
  "traceparent_name_re = Seq [Bos, Lit_ignore_case ''traceparent'', Eos]"

definition tracestate_name_re :: re where
  "tracestate_name_re = Seq [Bos, Lit_ignore_case ''tracestate'', Eos]"

subsection \<open>\<open>Traceparent\<close>\<close>

record traceparent =
  tp_version :: string
  tp_trace_id :: string
  tp_parent_id :: string
  tp_trace_flags :: string

definition traceparent_str :: "traceparent \<Rightarrow> string" where
  "traceparent_str t = str_join ''-'' [tp_version t, tp_trace_id t, tp_parent_id t, tp_trace_flags t]"

definition get_traceparent :: "(string \<times> string) list \<Rightarrow> traceparent option res" where
  "get_traceparent headers =
     (case filter (\<lambda>(k, v). re_match traceparent_name_re k \<noteq> None) headers of
        [(k, value)] \<Rightarrow>
          (case str_split ''-'' value of
             [version, trace_id, span_id, trace_flags] \<Rightarrow>
               if length version \<noteq> 2 \<or> length trace_id \<noteq> 32 \<or> length span_id \<noteq> 16 \<or> length trace_flags \<noteq> 2
               then Inr None
               else rbind (py_int 16 trace_id) (\<lambda>t.
                 if t = 0 then Inr None
                 else rbind (py_int 16 span_id) (\<lambda>s.
                   if s = 0 then Inr None
                   else Inr (Some \<lparr>tp_version = version, tp_trace_id = trace_id, tp_parent_id = span_id,
                     tp_trace_flags = trace_flags\<rparr>)))
           | _ \<Rightarrow> Inl Value_Error)
      | _ \<Rightarrow> Inl Assertion_Error)"

subsection \<open>\<open>Tracestate\<close>\<close>

definition key_char :: "char \<Rightarrow> bool" where
  "key_char c \<longleftrightarrow> is_lower c \<or> is_digit c \<or> c \<in> set ''_-*/''"

definition key_without_vendor_format :: re where
  "key_without_vendor_format = Cat (Chr is_lower) (Rep 0 255 (Chr key_char))"

definition key_with_vendor_format :: re where
  "key_with_vendor_format = Seq [Chr (\<lambda>c. is_digit c \<or> is_lower c), Rep 0 240 (Chr key_char), Lit ''@'',
     Chr is_lower, Rep 0 13 (Chr key_char)]"

definition key_format :: re where
  "key_format = Alt key_without_vendor_format key_with_vendor_format"

text \<open>Printable ASCII without the comma and the equals sign; the last character is not a blank.\<close>

definition value_char :: "char \<Rightarrow> bool" where
  "value_char c \<longleftrightarrow> (let n = of_char c :: nat in 0x20 \<le> n \<and> n \<le> 0x7E \<and> n \<noteq> 0x2C \<and> n \<noteq> 0x3D)"

definition value_format :: re where
  "value_format = Cat (Rep 0 255 (Chr value_char)) (Chr (\<lambda>c. value_char c \<and> c \<noteq> CHR 0x20))"

definition blank_or_tab :: "char \<Rightarrow> bool" where
  "blank_or_tab c \<longleftrightarrow> c = CHR 0x20 \<or> c = CHR 0x09"

definition delimiter_format_re :: re where
  "delimiter_format_re = Seq [Star (Chr blank_or_tab), Lit '','', Star (Chr blank_or_tab)]"

definition key_validation_re :: re where
  "key_validation_re = Seq [Bos, Grp 1 key_format, Eos]"

definition value_validation_re :: re where
  "value_validation_re = Seq [Bos, Grp 1 value_format, Eos]"

definition member_format_re :: re where
  "member_format_re = Seq [Bos, Grp 1 key_format, Grp 2 (Lit ''=''), Grp 3 value_format, Eos]"

type_synonym tracestate = "(string, string) dict"

definition ts_contains :: "string \<Rightarrow> tracestate \<Rightarrow> bool" where
  "ts_contains key t = dhas t key"

definition ts_len :: "tracestate \<Rightarrow> nat" where
  "ts_len t = length t"

definition ts_getitem :: "tracestate \<Rightarrow> string \<Rightarrow> string res" where
  "ts_getitem t key = dgetitem t key"

text \<open>\<open>None\<close> stands for a key or a value that is not a text.\<close>

definition ts_setitem :: "string option \<Rightarrow> string option \<Rightarrow> tracestate \<Rightarrow> tracestate res" where
  "ts_setitem key_opt value_opt t =
     (case key_opt of
        None \<Rightarrow> Inl Type_Error
      | Some key \<Rightarrow>
          if re_match key_validation_re key = None then Inl Value_Error
          else (case value_opt of
              None \<Rightarrow> Inl Type_Error
            | Some v \<Rightarrow>
                if re_match value_validation_re v = None then Inl Value_Error
                else Inr ((key, v) # ddel key (dset key v t))))"

definition add_member :: "string \<Rightarrow> tracestate \<Rightarrow> tracestate res" where
  "add_member member t =
     (if member = [] then Inr t
      else (case re_match member_format_re member of
          None \<Rightarrow> Inl Value_Error
        | Some st \<Rightarrow>
            (case (re_group st 1, re_group st 3) of
               (Some key, Some v) \<Rightarrow> Inr (if dhas t key then t else dset key v t)
             | _ \<Rightarrow> Inl Type_Error)))"

definition from_string :: "string \<Rightarrow> tracestate \<Rightarrow> tracestate res" where
  "from_string s t = rfold add_member (re_split delimiter_format_re s) t"

datatype ts_args = From_string string | From_tracestate tracestate | From_items "(string \<times> string) list"

definition ts_init :: "ts_args \<Rightarrow> tracestate res" where
  "ts_init args =
     (case args of
        From_string s \<Rightarrow> from_string s []
      | From_tracestate t \<Rightarrow> Inr t
      | From_items kvs \<Rightarrow> Inr (fold (\<lambda>(k, v). dset k v) kvs []))"

definition ts_to_string :: "tracestate \<Rightarrow> string" where
  "ts_to_string t = str_join '','' (map (\<lambda>(k, v). k @ ''='' @ v) t)"

definition ts_split :: "string \<Rightarrow> tracestate \<Rightarrow> string list" where
  "ts_split char t = str_split char (ts_to_string t)"

definition ts_is_valid :: "tracestate \<Rightarrow> bool" where
  "ts_is_valid t \<longleftrightarrow> \<not> (ts_len t = 0) \<and> \<not> (512 < length (ts_to_string t)) \<and> \<not> (32 < ts_len t)"

definition ts_pop :: "tracestate \<Rightarrow> ((string \<times> string) \<times> tracestate) res" where
  "ts_pop t = (if t = [] then Inl Key_Error else Inr (last t, butlast t))"

definition get_tracestate :: "(string \<times> string) list \<Rightarrow> tracestate res" where
  "get_tracestate headers =
     rfold (\<lambda>(k, v) t. if re_match tracestate_name_re k \<noteq> None then from_string v t else Inr t) headers []"

definition get_tracecontext :: "(string \<times> string) list \<Rightarrow> (traceparent option \<times> tracestate) res" where
  "get_tracecontext headers =
     rbind (get_traceparent headers) (\<lambda>p. rbind (get_tracestate headers) (\<lambda>s. Inr (p, s)))"

subsection \<open>The languages of keys, values and members\<close>

lemma lang_UpTo_Chr: "lang (UpTo n (Chr p)) = {s. length s \<le> n \<and> (\<forall>c \<in> set s. p c)}"
proof (induction n)
  case (Suc n)
  have "s \<in> lang (UpTo (Suc n) (Chr p)) \<longleftrightarrow> length s \<le> Suc n \<and> (\<forall>c \<in> set s. p c)" for s
  proof (cases s)
    case (Cons c u)
    then show ?thesis by (auto simp: in_lang_Cat Suc intro: exI [of _ "[c]"])
  qed simp
  then show ?case by blast
qed auto

lemma anchor_free_UpTo [simp]: "anchor_free r \<Longrightarrow> anchor_free (UpTo n r)"
  by (induction n) auto

lemma lang_Rep_Chr: "lang (Rep 0 n (Chr p)) = {s. length s \<le> n \<and> (\<forall>c \<in> set s. p c)}"
  by (simp add: Rep_def lang_Cat lang_UpTo_Chr)

lemma anchor_free_Rep [simp]: "anchor_free r \<Longrightarrow> anchor_free (Rep 0 n r)"
  by (simp add: Rep_def)

lemma anchor_free_formats [simp]: "anchor_free key_format" "anchor_free value_format"
  by (simp_all add: key_format_def key_without_vendor_format_def key_with_vendor_format_def value_format_def)

lemma key_format_chars:
  assumes "k \<in> lang key_format"
  shows "k \<noteq> []" and "\<forall>c \<in> set k. key_char c \<or> c = CHR ''@''"
  using assms
  by (auto simp: key_format_def key_without_vendor_format_def key_with_vendor_format_def in_lang_Cat
    lang_Rep_Chr key_char_def)

lemma value_format_chars:
  assumes "v \<in> lang value_format"
  shows "v \<noteq> []" and "\<forall>c \<in> set v. value_char c" and "last v \<noteq> CHR 0x20"
  using assms by (auto simp: value_format_def in_lang_Cat lang_Rep_Chr)

text \<open>None of the separators is a character of a key, none of them but the blank one of a value.\<close>

lemma not_key_char: "\<not> key_char CHR ''=''" "\<not> key_char CHR '',''" "\<not> key_char CHR 0x20" "\<not> key_char CHR 0x09"
  by (simp_all add: key_char_def is_lower_def is_digit_def)

lemma not_value_char: "\<not> value_char CHR '',''" "\<not> value_char CHR 0x09" "\<not> value_char nl"
  by (simp_all add: value_char_def nl_def)

lemma key_format_seps:
  assumes "k \<in> lang key_format"
  shows "CHR ''='' \<notin> set k" "CHR '','' \<notin> set k" "\<not> blank_or_tab (hd k)"
proof -
  from key_format_chars [OF assms] have k: "k \<noteq> []" "\<forall>c \<in> set k. key_char c \<or> c = CHR ''@''" by auto
  show "CHR ''='' \<notin> set k" "CHR '','' \<notin> set k" using k not_key_char by fastforce+
  show "\<not> blank_or_tab (hd k)" using k not_key_char by (cases k) (auto simp: blank_or_tab_def)
qed

lemma value_format_seps:
  assumes "v \<in> lang value_format"
  shows "CHR '','' \<notin> set v" "nl \<notin> set v" "\<not> blank_or_tab (last v)"
proof -
  from value_format_chars [OF assms]
  have v: "v \<noteq> []" "\<forall>c \<in> set v. value_char c" "last v \<noteq> CHR 0x20" by auto
  show "CHR '','' \<notin> set v" "nl \<notin> set v" using v not_value_char by auto
  have "value_char (last v)" using v by auto
  then have "last v \<noteq> CHR 0x09" using not_value_char(2) by metis
  then show "\<not> blank_or_tab (last v)" using v(3) by (simp add: blank_or_tab_def)
qed

subsection \<open>What a member matches\<close>

lemma group_free_formats [simp]: "group_free key_format" "group_free value_format"
  by (simp_all add: key_format_def key_without_vendor_format_def key_with_vendor_format_def value_format_def
    Rep_def)

lemma member_result:
  assumes "re_match member_format_re s = Some st"
  shows "\<exists>k v. k \<in> lang key_format \<and> v \<in> lang value_format \<and> re_group st 1 = Some k
    \<and> re_group st 3 = Some v \<and> (s = k @ ''='' @ v \<or> s = k @ ''='' @ v @ [nl])"
proof -
  obtain i' s' g' where st: "st = (i', s', g')" using prod_cases3 by blast
  from assms have "(i', s', g') \<in> set (ms member_format_re (0, s, []))"
    by (auto simp: re_match_def st split: list.splits)
  then obtain i1 s1 g1 i2 s2 g2
    where 1: "(i1, s1, g1) \<in> set (ms (Grp 1 key_format) (0, s, []))"
      and 2: "(i2, s2, g2) \<in> set (ms (Grp 2 (Lit ''='')) (i1, s1, g1))"
      and 3: "(i', s', g') \<in> set (ms (Grp 3 value_format) (i2, s2, g2))"
      and rest: "s' = [] \<or> s' = [nl]"
    unfolding member_format_re_def Seq.simps ms.simps(3) ms.simps(8) by (auto simp del: ms.simps(7) Lit.simps)
  from Grp_result [OF 1] Grp_result [OF 2] Grp_result [OF 3] obtain k v
    where "k \<in> lang key_format" "v \<in> lang value_format" "s = k @ ''='' @ v @ s'"
      "g' = [(3, v), (2, ''=''), (1, k)]"
    by (auto simp del: Lit.simps ms.simps)
  with rest show ?thesis by (auto simp: st re_group_def)
qed

lemma member_match:
  assumes "k \<in> lang key_format" and "v \<in> lang value_format"
  shows "\<exists>st. re_match member_format_re (k @ ''='' @ v) = Some st \<and> re_group st 1 = Some k
    \<and> re_group st 3 = Some v"
proof -
  have c: "\<exists>g'. (i + length u, s', g') \<in> set (ms (Grp n r) (i, u @ s', g))"
    if "anchor_free r" and "u \<in> lang r" for n r i u s' g
    using that by (intro ms_completeD [OF ms_complete_lang]) (simp_all del: ms.simps)
  from c [of key_format k 0] assms(1) obtain g1
    where 1: "(length k, ''='' @ v, g1) \<in> set (ms (Grp 1 key_format) (0, k @ ''='' @ v, []))"
    by (metis add_0 anchor_free_formats(1))
  from c [of "Lit ''=''" "''=''" "length k" v 2 g1] obtain g2
    where 2: "(length k + 1, v, g2) \<in> set (ms (Grp 2 (Lit ''='')) (length k, ''='' @ v, g1))"
    by (auto simp del: ms.simps Lit.simps)
  from c [of value_format v "length k + 1" "[]" 3 g2] assms(2) obtain g3
    where 3: "(length k + 1 + length v, [], g3) \<in> set (ms (Grp 3 value_format) (length k + 1, v, g2))"
    by (auto simp del: ms.simps)
  have "ms member_format_re (0, k @ ''='' @ v, []) \<noteq> []"
    unfolding member_format_re_def Seq.simps ms.simps(3) ms.simps(8)
    using 1 2 3 by (fastforce simp del: ms.simps(7) Lit.simps)
  then obtain st where st: "re_match member_format_re (k @ ''='' @ v) = Some st"
    by (metis (no_types, lifting) re_match_def list.exhaust list.simps(5))
  from member_result [OF st] obtain k' v' where f: "k' \<in> lang key_format" "v' \<in> lang value_format"
    "re_group st 1 = Some k'" "re_group st 3 = Some v'"
    and eq: "k @ ''='' @ v = k' @ ''='' @ v' \<or> k @ ''='' @ v = k' @ ''='' @ v' @ [nl]" by blast
  from eq obtain r where r: "k @ ''='' @ v = k' @ ''='' @ v' @ r" "r = [] \<or> r = [nl]" by auto
  have "k = k' \<and> v = v' @ r"
    using r(1) key_format_seps(1) [OF assms(1)] key_format_seps(1) [OF f(1)]
    by (simp add: append_eq_append_conv2) (auto simp: append_eq_Cons_conv Cons_eq_append_conv)
  with r(2) value_format_seps(2) [OF assms(2)] f st show ?thesis by auto
qed

subsection \<open>Parsing what was printed\<close>

definition valid_trait :: "string \<times> string \<Rightarrow> bool" where
  "valid_trait kv \<longleftrightarrow> fst kv \<in> lang key_format \<and> snd kv \<in> lang value_format"

abbreviation print_member :: "string \<times> string \<Rightarrow> string" where
  "print_member kv \<equiv> fst kv @ ''='' @ snd kv"

lemma add_member_ok:
  assumes "valid_trait kv"
  shows "add_member (print_member kv) t = Inr (if dhas t (fst kv) then t else dset (fst kv) (snd kv) t)"
  using member_match [of "fst kv" "snd kv"] assms key_format_chars(1)
  by (auto simp: valid_trait_def add_member_def)

lemma add_member_valid:
  assumes "add_member member t = Inr t'" and "list_all valid_trait t \<and> distinct (map fst t)"
  shows "list_all valid_trait t' \<and> distinct (map fst t')"
proof (cases "re_match member_format_re member")
  case None
  then show ?thesis using assms by (auto simp: add_member_def split: if_splits)
next
  case (Some st)
  from member_result [OF this] obtain k v where "valid_trait (k, v)" "re_group st 1 = Some k"
    "re_group st 3 = Some v" by (auto simp: valid_trait_def)
  moreover have "dset k v t = t @ [(k, v)]" if "\<not> dhas t k"
    using that by (intro dset_new) (simp add: dhas_def map_of_eq_None_iff)
  ultimately show ?thesis using assms Some
    by (auto simp: add_member_def dhas_def map_of_eq_None_iff split: if_splits)
qed

text \<open>The delimiter is found at a comma only, and takes nothing of the member after it.\<close>

definition member_end :: "string \<Rightarrow> bool" where
  "member_end w \<longleftrightarrow> w \<noteq> [] \<and> CHR '','' \<notin> set w \<and> \<not> blank_or_tab (last w)"

lemma no_delimiter_in_member:
  assumes "member_end w"
  shows "ms delimiter_format_re (i, w @ s, g) = []"
proof (rule no_match_lang)
  show "anchor_free delimiter_format_re" by (simp add: delimiter_format_re_def)
  fix u v
  assume s: "w @ s = u @ v"
  show "u \<notin> lang delimiter_format_re"
  proof
    assume "u \<in> lang delimiter_format_re"
    then obtain a b where u: "u = a @ '','' @ b" and a: "list_all blank_or_tab a"
      by (auto simp: delimiter_format_re_def in_lang_Cat list_all_iff lang_Star_Chr
        simp del: lang.simps(5) Lit.simps)
    from s u have "w @ s = a @ '','' @ b @ v" by simp
    then consider us where "w = a @ us" "us @ s = '','' @ b @ v" | us where "a = w @ us"
      by (auto simp: append_eq_append_conv2)
    then show False
    proof cases
      case 1
      then show ?thesis using assms a
        by (cases us) (auto simp: member_end_def list_all_iff)
    next
      case 2
      then show ?thesis using assms a by (auto simp: member_end_def list_all_iff)
    qed
  qed
qed

lemma member_end_tl: "member_end (c # w) \<Longrightarrow> w = [] \<or> member_end w"
  by (auto simp: member_end_def)

lemma resplit_member:
  "w = [] \<or> member_end w \<Longrightarrow> resplit_from delimiter_format_re i acc (w @ s) =
     resplit_from delimiter_format_re (i + length w) (rev w @ acc) s"
proof (induction w arbitrary: i acc)
  case (Cons c w)
  then have "ms delimiter_format_re (i, (c # w) @ s, []) = []" by (intro no_delimiter_in_member) simp
  then have "resplit_from delimiter_format_re i acc ((c # w) @ s) =
      resplit_from delimiter_format_re (Suc i) (c # acc) (w @ s)"
    by (simp add: resplit_from.simps [of _ i])
  with Cons show ?case using member_end_tl by auto
qed simp

lemma resplit_comma:
  assumes "s \<noteq> []" and "\<not> blank_or_tab (hd s)"
  shows "resplit_from delimiter_format_re i acc (CHR '','' # s) =
    rev acc # resplit_from delimiter_format_re (Suc i) [] s"
proof -
  have "firsts (Star (Chr blank_or_tab)) (i, CHR '','' # s, []) (i, CHR '','' # s, [])"
    using firsts_Star_run [of "[]" blank_or_tab "CHR '','' # s" i "[]"] by (simp add: blank_or_tab_def)
  moreover have "firsts (Lit '','') (i, CHR '','' # s, []) (Suc i, s, [])"
    using firsts_Lit [of "'',''" i s "[]"] by simp
  moreover have "firsts (Star (Chr blank_or_tab)) (Suc i, s, []) (Suc i, s, [])"
    using assms firsts_Star_run [of "[]" blank_or_tab s "Suc i" "[]"] by simp
  ultimately have "firsts delimiter_format_re (i, CHR '','' # s, []) (Suc i, s, [])"
    unfolding delimiter_format_re_def Seq.simps by (blast intro: firsts_Cat)
  then show ?thesis by (auto simp: firsts_def resplit_from.simps [of _ i])
qed

lemma resplit_end: "resplit_from delimiter_format_re i acc [] = [rev acc]"
proof -
  have "ms delimiter_format_re (i, [], []) = []"
    by (rule no_match_lang) (auto simp: delimiter_format_re_def in_lang_Cat)
  then show ?thesis by (simp add: resplit_from.simps [of _ i])
qed

text \<open>The start of a member stops the delimiter.\<close>

definition member_text :: "string \<Rightarrow> bool" where
  "member_text w \<longleftrightarrow> member_end w \<and> \<not> blank_or_tab (hd w)"

lemma resplit_members:
  "\<forall>w \<in> set (m # others). member_text w \<Longrightarrow>
     resplit_from delimiter_format_re i [] (str_join '','' (m # others)) = m # others"
proof (induction others arbitrary: m i)
  case Nil
  then show ?case using resplit_member [of m i "[]" "[]"] by (simp add: member_text_def resplit_end)
next
  case (Cons n others)
  have n: "str_join '','' (n # others) \<noteq> [] \<and> \<not> blank_or_tab (hd (str_join '','' (n # others)))"
    using Cons.prems by (cases others) (auto simp: member_text_def member_end_def)
  have "resplit_from delimiter_format_re i [] (m @ CHR '','' # str_join '','' (n # others)) =
      resplit_from delimiter_format_re (i + length m) (rev m) (CHR '','' # str_join '','' (n # others))"
    using Cons.prems resplit_member [of m i "[]"] by (simp add: member_text_def)
  with n Cons show ?case by (simp add: resplit_comma)
qed

lemma member_text_valid: "valid_trait kv \<Longrightarrow> member_text (print_member kv)"
  using key_format_chars(1) [of "fst kv"] key_format_seps [of "fst kv"]
    value_format_chars(1) [of "snd kv"] value_format_seps [of "snd kv"]
  by (auto simp: valid_trait_def member_text_def member_end_def)

lemma split_printed:
  assumes "list_all valid_trait t" and "t \<noteq> []"
  shows "re_split delimiter_format_re (ts_to_string t) = map print_member t"
proof -
  from assms(2) obtain kv others where t: "t = kv # others" by (cases t) auto
  have p: "ts_to_string t = str_join '','' (map print_member t)"
    by (simp add: ts_to_string_def case_prod_unfold)
  have "\<forall>w \<in> set (print_member kv # map print_member others). member_text w"
    using assms(1) member_text_valid by (auto simp: t list_all_iff simp del: append_Cons)
  from resplit_members [OF this] show ?thesis
    by (simp only: re_split_def p [unfolded t] t list.map)
qed

lemma fold_printed:
  "list_all valid_trait u \<Longrightarrow> distinct (map fst (t @ u)) \<Longrightarrow>
     rfold add_member (map print_member u) t = Inr (t @ u)"
proof (induction u arbitrary: t)
  case (Cons kv u)
  have "\<not> dhas t (fst kv)" using Cons.prems by (auto simp: dhas_def map_of_eq_None_iff)
  moreover have "dset (fst kv) (snd kv) t = t @ [kv]"
    using Cons.prems dset_new [of "fst kv" t "snd kv"] by auto
  ultimately have "add_member (print_member kv) t = Inr (t @ [kv])"
    using Cons.prems add_member_ok [of kv t] by simp
  then show ?case using Cons.IH [of "t @ [kv]"] Cons.prems by simp
qed simp

lemma parse_printed:
  assumes "list_all valid_trait t" and "distinct (map fst t)"
  shows "from_string (ts_to_string t) [] = Inr t"
proof (cases "t = []")
  case True
  then show ?thesis
    by (simp add: ts_to_string_def from_string_def re_split_def resplit_end add_member_def)
next
  case False
  then show ?thesis
    using split_printed [OF assms(1)] fold_printed [of t "[]"] assms by (simp add: from_string_def)
qed

lemma from_string_valid:
  assumes "from_string s [] = Inr t"
  shows "list_all valid_trait t" and "distinct (map fst t)"
  using rfold_invariant [of add_member _ "[]" t "\<lambda>t. list_all valid_trait t \<and> distinct (map fst t)"]
    assms add_member_valid
  by (auto simp: from_string_def)

text \<open>
  C37.  Round trip of the tracestate header.  Whatever header the parser accepts, with blanks
  around its commas, empty members and repeated keys, printing the parsed tracestate gives a
  header that is parsed to the same tracestate, in the same order, and every key occurs once.
  (This is not so for a tracestate that \<open>__setitem__\<close> built, see \<open>newline_key_not_parsed\<close>.)
\<close>

theorem tracestate_roundtrip:
  assumes "from_string s [] = Inr t"
  shows "from_string (ts_to_string t) [] = Inr t \<and> distinct (dkeys t)"
  using from_string_valid [OF assms] by (simp add: parse_printed dkeys_def)

theorem tracestate_roundtrip_witness:
  "from_string (ts_to_string [(''a'', ''1''), (''dd'', ''s:1'')]) [] = Inr [(''a'', ''1''), (''dd'', ''s:1'')]
   \<and> distinct (dkeys [(''a'', ''1''), (''dd'', ''s:1'')])"
proof (rule tracestate_roundtrip)
  show "from_string ''a=1 , ,dd=s:1,a=2'' [] = Inr [(''a'', ''1''), (''dd'', ''s:1'')]"
    by code_simp
qed

text \<open>
  \<open>$\<close> also stands before a final line feed, so \<open>__setitem__\<close> takes a key that ends in one,
  and the header printed from it is not parsed.
\<close>

theorem newline_key_not_parsed:
  "ts_setitem (Some (''a'' @ [nl])) (Some ''1'') [] = Inr [(''a'' @ [nl], ''1'')]"
  "from_string (ts_to_string [(''a'' @ [nl], ''1'')]) [] = Inl Value_Error"
  by code_simp+

text \<open>The identifiers of a traceparent are read by \<open>int(..., 16)\<close>, which takes more than hexadecimal digits.\<close>

theorem traceparent_takes_prefix:
  "get_traceparent [(''TraceParent'', ''00-0x000000000000000000000000000001-000000000000_001-01'')] =
     Inr (Some \<lparr>tp_version = ''00'', tp_trace_id = ''0x000000000000000000000000000001'',
       tp_parent_id = ''000000000000_001'', tp_trace_flags = ''01''\<rparr>)"
  by code_simp

end
