(* ===== verification/Activation_Report.thy ===== *)
theory Activation_Report
  imports Manifest_Rule
begin

section \<open>Test reports of the nightly runs (\<open>scripts/activate_easy_wins/_internal/types.py\<close>,
  \<open>test_artifact.py\<close>, \<open>core.py\<close>)\<close>

text \<open>
  The script that activates tests (\<open>easy wins\<close>) reads the reports of a run, one context (library,
  version, weblog) at a time: which tests passed although they are declared as failing, and, in a
  trie over the paths of the tests, whether everything under a folder, a file or a class passed,
  failed, or both.  The trie is the package \<open>pygtrie\<close>, a parameter; the directories of the
  artifact are given as the list of their names with the reports found in them.
\<close>

subsection \<open>Contexts\<close>

text \<open>The components with automatic activation, \<open>COMPONENT_GROUPS.easy_win\<close>.\<close>

definition easy_win_components :: "string list" where
  "easy_win_components =
     [''c'', ''cpp'', ''cpp_httpd'', ''cpp_nginx'', ''cpp_kong'', ''dotnet'', ''golang'', ''java'',
      ''java_lambda'', ''nodejs'', ''nodejs_lambda'', ''php'', ''python'', ''python_lambda'', ''ruby'',
      ''ruby_lambda'', ''rust'']"

definition strip_java_build_metadata :: "string \<Rightarrow> string \<Rightarrow> string" where
  "strip_java_build_metadata library version_string =
     (if library = ''java'' \<and> CHR ''+'' \<in> set version_string then hd (str_split ''+'' version_string)
      else version_string)"

record context_data =
  ctx_library :: string
  ctx_version :: version
  ctx_variant :: string

definition context_create ::
  "semver_lib \<Rightarrow> string option \<Rightarrow> string option \<Rightarrow> string \<Rightarrow> context_data option res" where
  "context_create L library library_version_string variant =
     (case (library, library_version_string) of
        (Some lib, Some v) \<Rightarrow>
          if lib \<notin> set easy_win_components \<or> v = [] then Inr None
          else rbind (version_of_str L (strip_java_build_metadata lib v)) (\<lambda>library_version.
            Inr (Some \<lparr>ctx_library = lib, ctx_version = library_version, ctx_variant = variant\<rparr>))
      | _ \<Rightarrow> Inr None)"

subsection \<open>Results of the tests of a context\<close>

datatype activation_status = XPASS | XFAIL | PASS | NONE

text \<open>
  The methods of \<open>pygtrie.StringTrie\<close> the code uses.  The function given to \<open>traverse\<close> takes the
  steps of the path of a node, the results of its children and its value, if it has one.
\<close>

type_synonym rule_paths = "string list list"

record 't trie_lib =
  trie_empty :: 't
  trie_get :: "'t \<Rightarrow> string \<Rightarrow> activation_status option"
  trie_set :: "string \<Rightarrow> activation_status \<Rightarrow> 't \<Rightarrow> 't"
  trie_traverse :: "'t \<Rightarrow> (string list \<Rightarrow> rule_paths list \<Rightarrow> activation_status option \<Rightarrow> rule_paths) \<Rightarrow>
    string \<Rightarrow> rule_paths res"

record 't test_data =
  td_xpass :: "string set"
  td_xfail :: "string set"
  td_trie :: 't
  td_owners :: "(string, string set) dict"

record test_report =
  tr_owners :: "string list option"
  tr_outcome :: string
  tr_nodeid :: string

definition test_data_init :: "'t trie_lib \<Rightarrow> 't test_data" where
  "test_data_init T = \<lparr>td_xpass = {}, td_xfail = {}, td_trie = trie_empty T, td_owners = []\<rparr>"

text \<open>The parts of a node id up to each of its slashes, without the slashes at their ends.\<close>

definition nodeid_slices :: "string \<Rightarrow> (string \<times> bool) list" where
  "nodeid_slices nodeid =
     map (\<lambda>i. (rstrip_by (\<lambda>c. c = CHR ''/'') (take (Suc i) nodeid), Suc i = length nodeid))
       (filter (\<lambda>i. nodeid ! i = CHR ''/'') [0..<length nodeid])"

text \<open>The value a node gets: \<open>None\<close> where the code leaves it as it is.\<close>

definition new_status :: "string \<Rightarrow> bool \<Rightarrow> activation_status option \<Rightarrow> activation_status option" where
  "new_status outcome at_end previous =
     (if outcome = ''xpassed'' then
        (if at_end \<and> previous \<noteq> None then None
         else if previous \<in> {Some XFAIL, Some NONE} then Some NONE
         else Some XPASS)
      else if outcome \<in> {''xfailed'', ''skipped''} then
        (if at_end then Some XFAIL
         else if previous \<in> {Some XPASS, Some PASS, Some NONE} then Some NONE
         else Some XFAIL)
      else if outcome = ''passed'' then
        (if previous \<in> {Some XFAIL, Some NONE} then Some NONE else Some PASS)
      else None)"

definition update_node :: "'t trie_lib \<Rightarrow> string \<Rightarrow> string \<times> bool \<Rightarrow> 't \<Rightarrow> 't" where
  "update_node T outcome = (\<lambda>(nodeid_slice, at_end) t.
     case new_status outcome at_end (trie_get T t nodeid_slice) of
       None \<Rightarrow> t
     | Some v \<Rightarrow> trie_set T nodeid_slice v t)"

definition update_trie :: "'t trie_lib \<Rightarrow> string \<Rightarrow> string \<Rightarrow> 't \<Rightarrow> 't" where
  "update_trie T outcome nodeid =
     fold (update_node T outcome) (nodeid_slices (str_replace ''::'' ''/'' nodeid @ ''/''))"

definition update_nodes :: "string \<Rightarrow> string \<Rightarrow> 't test_data \<Rightarrow> 't test_data" where
  "update_nodes outcome nodeid d =
     (if nodeid \<in> td_xfail d then d
      else if outcome = ''xpassed'' then d\<lparr>td_xpass := insert nodeid (td_xpass d)\<rparr>
      else d\<lparr>td_xfail := insert nodeid (td_xfail d), td_xpass := td_xpass d - {nodeid}\<rparr>)"

definition effective_outcome :: "string set option \<Rightarrow> test_report \<Rightarrow> string" where
  "effective_outcome excluded_owners test =
     (let test_owners = (case tr_owners test of None \<Rightarrow> {} | Some os \<Rightarrow> set os);
          excluded = (case excluded_owners of None \<Rightarrow> {} | Some os \<Rightarrow> os)
      in if tr_outcome test = ''xpassed'' \<and> excluded \<noteq> {} \<and> test_owners \<inter> excluded \<noteq> {}
         then ''xfailed'' else tr_outcome test)"

definition parse_test ::
  "'t trie_lib \<Rightarrow> string set option \<Rightarrow> test_report \<Rightarrow> 't test_data \<times> string set \<Rightarrow>
     't test_data \<times> string set" where
  "parse_test T excluded_owners test = (\<lambda>(d, owners).
     let test_owners = (case tr_owners test of None \<Rightarrow> {} | Some os \<Rightarrow> set os);
         outcome = effective_outcome excluded_owners test;
         nodeid = hd (str_split ''['' (tr_nodeid test));
         d' = update_nodes outcome nodeid (d\<lparr>td_owners := dset nodeid test_owners (td_owners d)\<rparr>)
     in (d'\<lparr>td_trie := update_trie T outcome nodeid (td_trie d')\<rparr>, owners \<union> test_owners))"

subsection \<open>\<open>parse_artifact_data\<close>\<close>

text \<open>
  The file \<open>report.json\<close> of a scenario.  \<open>None\<close> stands for \<open>null\<close> or, in the two fields read with
  \<open>get\<close>, for a missing field.
\<close>

record scenario_report =
  sr_library_name :: "string option"
  sr_library :: "string option"
  sr_weblog_variant :: string
  sr_tests :: "test_report list"

record 't artifact =
  af_test_data :: "(context_data, 't test_data) dict"
  af_weblogs :: "(string, string set) dict"
  af_owners :: "string set"

definition parse_report ::
  "'t trie_lib \<Rightarrow> string set option \<Rightarrow> scenario_report \<Rightarrow> context_data \<Rightarrow> 't artifact \<Rightarrow> 't artifact" where
  "parse_report T excluded_owners r c a =
     (let d = (case dget (af_test_data a) c of None \<Rightarrow> test_data_init T | Some d \<Rightarrow> d);
          weblogs = (case dget (af_weblogs a) (ctx_library c) of None \<Rightarrow> {} | Some ws \<Rightarrow> ws);
          (d', owners) = fold (parse_test T excluded_owners) (sr_tests r) (d, af_owners a)
      in \<lparr>af_test_data = dset c d' (af_test_data a),
          af_weblogs = dset (ctx_library c) (insert (sr_weblog_variant r) weblogs) (af_weblogs a),
          af_owners = owners\<rparr>)"

text \<open>
  The scenarios of one directory, with their report where there is one: a report of another
  library, or without a context, ends the directory.
\<close>

fun parse_directory ::
  "semver_lib \<Rightarrow> 't trie_lib \<Rightarrow> string set option \<Rightarrow> string list \<Rightarrow> scenario_report option list \<Rightarrow>
     't artifact \<Rightarrow> 't artifact res" where
  "parse_directory L T excluded_owners libraries [] a = Inr a"
| "parse_directory L T excluded_owners libraries (None # scenarios) a =
     parse_directory L T excluded_owners libraries scenarios a"
| "parse_directory L T excluded_owners libraries (Some r # scenarios) a =
     rbind (context_create L (sr_library_name r) (sr_library r) (sr_weblog_variant r)) (\<lambda>c.
       case c of
         None \<Rightarrow> Inr a
       | Some c' \<Rightarrow>
           if ctx_library c' \<notin> set libraries then Inr a
           else parse_directory L T excluded_owners libraries scenarios (parse_report T excluded_owners r c' a))"

definition parse_artifact_data ::
  "semver_lib \<Rightarrow> 't trie_lib \<Rightarrow> (string \<times> scenario_report option list) list \<Rightarrow> string list \<Rightarrow>
     string set option \<Rightarrow> bool \<Rightarrow> 't artifact res" where
  "parse_artifact_data L T data_dir libraries excluded_owners use_dev =
     rfold (\<lambda>(name, scenarios) a.
         if str_contains name ''_dev_'' \<noteq> use_dev then Inr a
         else parse_directory L T excluded_owners libraries scenarios a)
       data_dir \<lparr>af_test_data = [], af_weblogs = [], af_owners = {}\<rparr>"

subsection \<open>The rules that keep failing tests off\<close>

definition get_deactivation :: "string list \<Rightarrow> rule_paths list \<Rightarrow> activation_status option \<Rightarrow> rule_paths" where
  "get_deactivation path children v =
     (let status = (case v of None \<Rightarrow> NONE | Some s \<Rightarrow> s) in
      if status = XFAIL then [path]
      else if status = NONE then fold (\<lambda>y x. x @ y) children []
      else [])"

fun join_rule :: "string \<Rightarrow> string \<Rightarrow> string list \<Rightarrow> string" where
  "join_rule sep rule [] = rule"
| "join_rule sep rule (element # elements) =
     join_rule (if endswith element ''.py'' then ''::'' else sep) (rule @ sep @ element) elements"

definition tup_to_rule :: "string list \<Rightarrow> string" where
  "tup_to_rule tup = join_rule ''/'' (hd tup) (tl tup)"

definition deactivations :: "'t trie_lib \<Rightarrow> 't \<Rightarrow> string \<Rightarrow> string list res" where
  "deactivations T t rule =
     rbind (trie_traverse T t get_deactivation (str_replace ''::'' ''/'' rule)) (\<lambda>paths.
       Inr (map tup_to_rule paths))"

subsection \<open>What the documentation of \<open>StringTrie\<close> promises\<close>

text \<open>
  A trie is a map, its keys are split at the slashes, and \<open>traverse\<close> visits the node of the given
  prefix, which exists when a key lies at or below it, and gives the function the results of the
  children, one for each step that leads to a key, in some order.
\<close>

abbreviation key_path :: "string \<Rightarrow> string list" where
  "key_path k \<equiv> str_split ''/'' k"

abbreviation path_key :: "string list \<Rightarrow> string" where
  "path_key p \<equiv> str_join ''/'' p"

definition has_node :: "'t trie_lib \<Rightarrow> 't \<Rightarrow> string list \<Rightarrow> bool" where
  "has_node T t p \<longleftrightarrow> (\<exists>k. trie_get T t k \<noteq> None \<and> prefix p (key_path k))"

definition trie_documented :: "'t trie_lib \<Rightarrow> bool" where
  "trie_documented T \<longleftrightarrow>
     (\<forall>k. trie_get T (trie_empty T) k = None) \<and>
     (\<forall>k v t k'. trie_get T (trie_set T k v t) k' = (if k' = k then Some v else trie_get T t k')) \<and>
     (\<forall>t f k. \<not> has_node T t (key_path k) \<longrightarrow> trie_traverse T t f k = Inl Key_Error) \<and>
     (\<forall>t f k. has_node T t (key_path k) \<longrightarrow>
       (\<exists>steps children. distinct steps \<and> set steps = {c. has_node T t (key_path k @ [c])} \<and>
          rmap (\<lambda>c. trie_traverse T t f (path_key (key_path k @ [c]))) steps = Inr children \<and>
          trie_traverse T t f k = Inr (f (key_path k) children (trie_get T t k))))"

lemma trie_laws:
  assumes "trie_documented T"
  shows "trie_get T (trie_empty T) k = None"
    and "trie_get T (trie_set T k v t) k' = (if k' = k then Some v else trie_get T t k')"
    and "\<not> has_node T t (key_path k) \<Longrightarrow> trie_traverse T t f k = Inl Key_Error"
  using assms unfolding trie_documented_def by blast+

lemma trie_traverse_node:
  assumes "trie_documented T" and "has_node T t (key_path k)"
  obtains steps children where "distinct steps" "set steps = {c. has_node T t (key_path k @ [c])}"
    "rmap (\<lambda>c. trie_traverse T t f (path_key (key_path k @ [c]))) steps = Inr children"
    "trie_traverse T t f k = Inr (f (key_path k) children (trie_get T t k))"
  using assms unfolding trie_documented_def by blast

subsection \<open>The slices of a node id\<close>

definition segments :: "string list \<Rightarrow> bool" where
  "segments p \<longleftrightarrow> p \<noteq> [] \<and> (\<forall>x \<in> set p. segment x)"

lemma segments_noslash: "segments p \<Longrightarrow> x \<in> set p \<Longrightarrow> CHR ''/'' \<notin> set x"
  by (simp add: segments_def segment_def)

lemma key_path_key: "segments p \<Longrightarrow> key_path (path_key p) = p"
  using str_split_join [of p "CHR ''/''"] by (auto simp: segments_def segment_def)

lemma path_key_inj: "segments p \<Longrightarrow> segments q \<Longrightarrow> path_key p = path_key q \<longleftrightarrow> p = q"
  by (metis key_path_key)

lemma segments_prefix: "segments q \<Longrightarrow> prefix p q \<Longrightarrow> p \<noteq> [] \<Longrightarrow> segments p"
  by (auto simp: segments_def prefix_def)

lemma path_key_end:
  assumes "segments p"
  shows "path_key p \<noteq> [] \<and> last (path_key p) \<noteq> CHR ''/''"
  using spell_ends [of p "[]"] replace_spell [of p "[]"] assms
proof -
  have "spell p [] = path_key p" by (induction p rule: induct_list012) auto
  then show ?thesis using spell_ends [of p "[]"] assms by (auto simp: segments_def)
qed

lemma slices_snoc:
  assumes "CHR ''/'' \<notin> set x"
  shows "nodeid_slices (s @ x @ ''/'') =
    map (\<lambda>(a, _). (a, False)) (nodeid_slices s) @ [(rstrip_by (\<lambda>c. c = CHR ''/'') (s @ x @ ''/''), True)]"
proof -
  let ?l = "s @ x @ ''/''"
  let ?at = "\<lambda>l i. l ! i = CHR ''/''"
  have "[0..<length ?l] = [0..<length s] @ [length s..<length s + length x] @ [length s + length x]"
    using upt_add_eq_append [of 0 "length s" "length x"] by simp
  moreover have "filter (?at ?l) [0..<length s] = filter (?at s) [0..<length s]"
    by (rule filter_cong) (auto simp: nth_append)
  moreover have "?l ! i \<noteq> CHR ''/''" if "length s \<le> i" "i < length s + length x" for i
    using that assms by (auto simp: nth_append) (metis nth_mem)
  then have "filter (?at ?l) [length s..<length s + length x] = []"
    by (auto simp: filter_empty_conv)
  ultimately have "filter (?at ?l) [0..<length ?l] = filter (?at s) [0..<length s] @ [length s + length x]"
    by (simp add: nth_append)
  then show ?thesis by (auto simp: nodeid_slices_def)
qed

lemma path_key_snoc: "p \<noteq> [] \<Longrightarrow> path_key (p @ [x]) = path_key p @ ''/'' @ x"
  by (induction p rule: induct_list012) auto

lemma slices_path:
  assumes "segments p"
  shows "nodeid_slices (path_key p @ ''/'') =
    map (\<lambda>k. (path_key (take k p), k = length p)) [1..<Suc (length p)]"
  using assms
proof (induction p rule: rev_induct)
  case (snoc x p)
  have x: "CHR ''/'' \<notin> set x" using snoc.prems by (simp add: segments_noslash)
  have r: "rstrip_by (\<lambda>c. c = CHR ''/'') (path_key (p @ [x]) @ ''/'') = path_key (p @ [x])"
    using path_key_end [OF snoc.prems] rstrip_by_no [of "path_key (p @ [x])" "\<lambda>c. c = CHR ''/''"]
    by (simp add: rstrip_by_def)
  show ?case
  proof (cases "p = []")
    case True
    then show ?thesis using slices_snoc [OF x, of "[]"] r by (simp add: nodeid_slices_def)
  next
    case False
    then have p: "segments p" using snoc.prems by (simp add: segments_def)
    have "nodeid_slices (path_key (p @ [x]) @ ''/'') =
        map (\<lambda>(a, _). (a, False)) (nodeid_slices (path_key p @ ''/'')) @ [(path_key (p @ [x]), True)]"
      using slices_snoc [OF x, of "path_key p @ ''/''"] r False by (simp add: path_key_snoc)
    also have "\<dots> = map (\<lambda>k. (path_key (take k (p @ [x])), k = length (p @ [x]))) [1..<Suc (length (p @ [x]))]"
      using False by (cases "length p") (auto simp: snoc.IH [OF p] le_Suc_eq)
    finally show ?thesis .
  qed
qed (simp add: segments_def)

subsection \<open>The value of a node is the summary of the tests below it\<close>

definition merge_status :: "string \<Rightarrow> bool \<Rightarrow> activation_status option \<Rightarrow> activation_status option" where
  "merge_status outcome at_end previous =
     (case new_status outcome at_end previous of None \<Rightarrow> previous | Some v \<Rightarrow> Some v)"

lemma get_update_node:
  assumes "trie_documented T"
  shows "trie_get T (update_node T outcome (k, e) t) k' =
    (if k' = k then merge_status outcome e (trie_get T t k) else trie_get T t k')"
  using trie_laws(2) [OF assms]
  by (auto simp: update_node_def merge_status_def split: option.splits)

lemma get_fold_update:
  assumes "trie_documented T" and "distinct (map fst ks)"
  shows "trie_get T (fold (update_node T outcome) ks t) k =
    (case map_of ks k of None \<Rightarrow> trie_get T t k | Some e \<Rightarrow> merge_status outcome e (trie_get T t k))"
  using assms(2)
proof (induction ks arbitrary: t)
  case (Cons ke ks)
  obtain k' e where "ke = (k', e)" by force
  moreover from this Cons.prems have "map_of ks k' = None" by (simp add: map_of_eq_None_iff)
  ultimately show ?case using Cons by (simp add: get_update_node [OF assms(1)] split: option.split)
qed simp

lemma replaced_path: "str_replace ''::'' ''/'' n = path_key (path_elements n)"
  by (simp add: path_elements_def str_join_split)

text \<open>One test changes the nodes of the prefixes of its path, and no other node.\<close>

lemma get_update_trie_other:
  assumes "trie_documented T" and "segments (path_elements n)" and "\<And>q. segments q \<Longrightarrow> k \<noteq> path_key q"
  shows "trie_get T (update_trie T outcome n t) k = trie_get T t k"
proof -
  let ?p = "path_elements n"
  have "trie_get T (fold (update_node T outcome) ks t) k = trie_get T t k"
    if "k \<notin> fst ` set ks" for ks
    using that
  proof (induction ks arbitrary: t)
    case (Cons ke ks)
    then show ?case by (cases ke) (simp add: get_update_node [OF assms(1)])
  qed simp
  moreover have "k \<notin> fst ` set (nodeid_slices (path_key ?p @ ''/''))"
  proof
    assume "k \<in> fst ` set (nodeid_slices (path_key ?p @ ''/''))"
    then obtain i where i: "i \<in> set [1..<Suc (length ?p)]" "k = path_key (take i ?p)"
      unfolding slices_path [OF assms(2)] set_map image_image fst_conv by blast
    then have "take i ?p \<noteq> []" using assms(2) by (auto simp: segments_def)
    then show False using assms(3) i(2) segments_prefix [OF assms(2) take_is_prefix] by blast
  qed
  ultimately show ?thesis unfolding update_trie_def replaced_path by blast
qed

lemma get_update_trie:
  assumes "trie_documented T" and "segments p" and "path_elements n = p" and "segments q"
  shows "trie_get T (update_trie T outcome n t) (path_key q) =
    (if prefix q p then merge_status outcome (q = p) (trie_get T t (path_key q))
     else trie_get T t (path_key q))"
proof -
  let ?ks = "map (\<lambda>k. (path_key (take k p), k = length p)) [1..<Suc (length p)]"
  have ks: "nodeid_slices (str_replace ''::'' ''/'' n @ ''/'') = ?ks"
    using slices_path [OF assms(2)] assms(3) replaced_path [of n] by simp
  have take: "segments (take k p)" if "k \<in> {1..length p}" for k
    using that assms(2) by (intro segments_prefix [OF assms(2)]) (auto simp: take_is_prefix)
  have "inj_on (\<lambda>k. path_key (take k p)) {1..length p}"
  proof (rule inj_onI)
    fix i j
    assume *: "i \<in> {1..length p}" "j \<in> {1..length p}" "path_key (take i p) = path_key (take j p)"
    then have "take i p = take j p" using take path_key_inj by blast
    then have "length (take i p) = length (take j p)" by simp
    then show "i = j" using * by simp
  qed
  then have d: "distinct (map fst ?ks)"
    by (simp add: comp_def distinct_map atLeastLessThanSuc_atLeastAtMost del: upt_Suc)
  have "map_of ?ks (path_key q) = (if prefix q p then Some (q = p) else None)"
  proof (cases "prefix q p")
    case True
    then obtain k where k: "k \<in> {1..length p}" "q = take k p"
      using assms(4) by (metis atLeastAtMost_iff segments_def prefix_def append_eq_conv_conj
        length_append le_add1 length_greater_0_conv less_eq_Suc_le One_nat_def)
    then have "(path_key q, k = length p) \<in> set ?ks" by (auto simp del: upt_Suc)
    moreover have "(k = length p) = (q = p)" using k by auto
    ultimately show ?thesis using True map_of_is_SomeI [OF d] by simp
  next
    case False
    have "path_key q \<notin> fst ` set ?ks"
    proof
      assume "path_key q \<in> fst ` set ?ks"
      then obtain k where k: "k \<in> set [1..<Suc (length p)]" "path_key q = path_key (take k p)"
        unfolding set_map image_image fst_conv by blast
      then have "k \<in> {1..length p}" by auto
      with k(2) have "q = take k p" using take path_key_inj [OF assms(4)] by blast
      with False show False by (simp add: take_is_prefix)
    qed
    with False show ?thesis by (simp add: map_of_eq_None_iff del: upt_Suc)
  qed
  then show ?thesis
    unfolding update_trie_def ks get_fold_update [OF assms(1) d] by simp
qed

definition bad :: "string \<Rightarrow> bool" where
  "bad outcome \<longleftrightarrow> outcome \<in> {''xfailed'', ''skipped''}"

definition good :: "string \<Rightarrow> bool" where
  "good outcome \<longleftrightarrow> outcome \<in> {''xpassed'', ''passed''}"

text \<open>
  The runs of the tests of a context: the node id of each and its outcome.  They are consistent
  when the id has no empty part, no test is a folder of another one, and the runs of one test (one
  for each value of its parameters) agree on whether it passed.
\<close>

type_synonym runs = "(string \<times> string) list"

definition consistent :: "runs \<Rightarrow> bool" where
  "consistent E \<longleftrightarrow>
     (\<forall>(n, outcome) \<in> set E. segments (path_elements n) \<and> (bad outcome \<or> good outcome) \<and>
       (\<forall>(n', outcome') \<in> set E. prefix (path_elements n) (path_elements n') \<longrightarrow>
          path_elements n = path_elements n' \<and> bad outcome = bad outcome'))"

definition run_trie :: "'t trie_lib \<Rightarrow> runs \<Rightarrow> 't" where
  "run_trie T E = fold (\<lambda>(n, outcome). update_trie T outcome n) E (trie_empty T)"

definition below :: "(string \<Rightarrow> bool) \<Rightarrow> runs \<Rightarrow> string list \<Rightarrow> bool" where
  "below P E q \<longleftrightarrow> (\<exists>(n, outcome) \<in> set E. prefix q (path_elements n) \<and> P outcome)"

lemma below_snoc:
  "below P (E @ [(n, outcome)]) q \<longleftrightarrow> below P E q \<or> prefix q (path_elements n) \<and> P outcome"
  by (auto simp: below_def)

lemma consistent_snoc: "consistent (E @ [e]) \<Longrightarrow> consistent E"
  by (auto simp: consistent_def)

lemma good_not_bad: "good outcome \<Longrightarrow> \<not> bad outcome"
  by (auto simp: good_def bad_def)

lemma merge_status_bad:
  "bad outcome \<Longrightarrow> merge_status outcome e v =
     Some (if e \<or> v = None \<or> v = Some XFAIL then XFAIL else NONE)"
  by (cases v; cases "the v") (auto simp: merge_status_def new_status_def bad_def)

lemma merge_status_good:
  "good outcome \<Longrightarrow> v \<in> {Some XFAIL, Some NONE} \<Longrightarrow> \<not> e \<Longrightarrow> merge_status outcome e v = Some NONE"
  "good outcome \<Longrightarrow> v \<notin> {Some XFAIL, Some NONE} \<Longrightarrow> merge_status outcome e v \<in> {Some XPASS, Some PASS}"
  by (cases v; cases "the v"; auto simp: merge_status_def new_status_def good_def)+

lemmas merge_status_cases = merge_status_bad merge_status_good

lemma run_trie_value:
  assumes "trie_documented T" and "consistent E" and "segments q"
  shows "(trie_get T (run_trie T E) (path_key q) = None \<longleftrightarrow> \<not> below bad E q \<and> \<not> below good E q) \<and>
    (trie_get T (run_trie T E) (path_key q) = Some XFAIL \<longleftrightarrow> below bad E q \<and> \<not> below good E q) \<and>
    (trie_get T (run_trie T E) (path_key q) = Some NONE \<longleftrightarrow> below bad E q \<and> below good E q)"
  using assms(2)
proof (induction E rule: rev_induct)
  case Nil
  then show ?case by (simp add: run_trie_def trie_laws(1) [OF assms(1)] below_def)
next
  case (snoc e E)
  obtain n outcome where e: "e = (n, outcome)" by force
  let ?p = "path_elements n" and ?v = "trie_get T (run_trie T E) (path_key q)"
  from snoc.prems have n: "segments ?p" "bad outcome \<or> good outcome"
    by (auto simp: consistent_def e)
  have v: "trie_get T (run_trie T (E @ [(n, outcome)])) (path_key q) =
      (if prefix q ?p then merge_status outcome (q = ?p) ?v else ?v)"
    using get_update_trie [OF assms(1) n(1) refl assms(3)] by (simp add: run_trie_def)
  have leaf: "bad outcome' = bad outcome" if "q = ?p" "(n', outcome') \<in> set E" "prefix q (path_elements n')"
    for n' outcome'
    using snoc.prems that by (fastforce simp: consistent_def e)
  have bad_leaf: "\<not> below good E q" if "q = ?p" "bad outcome"
    using leaf [OF that(1)] that(2) good_not_bad by (fastforce simp: below_def)
  have good_leaf: "\<not> below bad E q" if "q = ?p" "good outcome"
    using leaf [OF that(1)] that(2) good_not_bad by (fastforce simp: below_def)
  note IH = snoc.IH [OF consistent_snoc [OF snoc.prems]]
  show ?case
  proof (cases "prefix q ?p")
    case True
    show ?thesis
    proof (cases "bad outcome")
      case b: True
      then have "\<not> good outcome" using good_not_bad by blast
      with True b show ?thesis
        using IH bad_leaf merge_status_cases(1) [OF b, of "q = ?p" ?v]
        unfolding e v below_snoc by (cases "q = ?p") auto
    next
      case b: False
      with n(2) have g: "good outcome" by blast
      show ?thesis
      proof (cases "?v \<in> {Some XFAIL, Some NONE}")
        case bad_before: True
        then have "below bad E q" using IH by blast
        with good_leaf g have "q \<noteq> ?p" by blast
        with True b g bad_before \<open>below bad E q\<close> show ?thesis
          using merge_status_cases(2) [OF g bad_before] by (auto simp: v e below_snoc)
      next
        case False
        then have "\<not> below bad E q" using IH by blast
        with True b g show ?thesis
          using merge_status_cases(3) [OF g False, of "q = ?p"] by (auto simp: v e below_snoc)
      qed
    qed
  next
    case False
    with IH show ?thesis by (simp add: v e below_snoc)
  qed
qed

lemma run_trie_key:
  assumes "trie_documented T" and "consistent E" and "trie_get T (run_trie T E) k \<noteq> None"
  shows "\<exists>q. segments q \<and> k = path_key q"
  using assms(2,3)
proof (induction E rule: rev_induct)
  case Nil
  then show ?case by (simp add: run_trie_def trie_laws(1) [OF assms(1)])
next
  case (snoc e E)
  obtain n outcome where e: "e = (n, outcome)" by force
  show ?case
  proof (rule ccontr)
    assume no: "\<nexists>q. segments q \<and> k = path_key q"
    from snoc.prems have "segments (path_elements n)" by (auto simp: consistent_def e)
    with no have "trie_get T (run_trie T (E @ [e])) k = trie_get T (run_trie T E) k"
      using get_update_trie_other [OF assms(1)] by (simp add: run_trie_def e)
    with no snoc show False using consistent_snoc by metis
  qed
qed

lemma run_trie_node:
  assumes "trie_documented T" and "consistent E"
  shows "has_node T (run_trie T E) q \<longleftrightarrow> (\<exists>(n, outcome) \<in> set E. prefix q (path_elements n))"
proof
  assume "has_node T (run_trie T E) q"
  then obtain k where k: "trie_get T (run_trie T E) k \<noteq> None" "prefix q (key_path k)"
    by (auto simp: has_node_def)
  from run_trie_key [OF assms k(1)] obtain r where r: "segments r" "k = path_key r" by blast
  with k(1) run_trie_value [OF assms r(1)] have "below bad E r \<or> below good E r" by fastforce
  with k(2) r show "\<exists>(n, outcome) \<in> set E. prefix q (path_elements n)"
    by (auto simp: below_def key_path_key intro: prefix_order.trans)
next
  assume "\<exists>(n, outcome) \<in> set E. prefix q (path_elements n)"
  then obtain n outcome where n: "(n, outcome) \<in> set E" "prefix q (path_elements n)" by blast
  with assms(2) have s: "segments (path_elements n)" "bad outcome \<or> good outcome"
    by (auto simp: consistent_def)
  with n(1) have "below bad E (path_elements n) \<or> below good E (path_elements n)"
    by (auto simp: below_def)
  with run_trie_value [OF assms s(1)] have "trie_get T (run_trie T E) (path_key (path_elements n)) \<noteq> None"
    by fastforce
  with n(2) s(1) show "has_node T (run_trie T E) q"
    unfolding has_node_def by (metis key_path_key)
qed

subsection \<open>The rules cover exactly the failing tests\<close>

text \<open>\<open>covers paths E q\<close>: among the tests below \<open>q\<close>, those below a path of the list are the failing ones.\<close>

definition covers :: "rule_paths \<Rightarrow> runs \<Rightarrow> string list \<Rightarrow> bool" where
  "covers paths E q \<longleftrightarrow>
     (\<forall>r \<in> set paths. prefix q r \<and> segments r) \<and>
     (\<forall>(n, outcome) \<in> set E. prefix q (path_elements n) \<longrightarrow>
        ((\<exists>r \<in> set paths. prefix r (path_elements n)) \<longleftrightarrow> bad outcome))"

lemma fold_append_lists: "fold (\<lambda>y x. x @ y) yss xs = xs @ concat yss"
  by (induction yss arbitrary: xs) auto

lemma deactivation_paths:
  assumes "trie_documented T" and "consistent E" and "segments q"
    and "\<exists>(n, outcome) \<in> set E. prefix q (path_elements n)"
  shows "\<exists>paths. trie_traverse T (run_trie T E) get_deactivation (path_key q) = Inr paths \<and> covers paths E q"
  using assms(3,4)
proof (induction "Max ((\<lambda>(n, outcome). length (path_elements n)) ` set E) - length q" arbitrary: q rule: less_induct)
  case less
  let ?M = "Max ((\<lambda>(n, outcome). length (path_elements n)) ` set E)" and ?t = "run_trie T E"
  have kp: "key_path (path_key q) = q" using key_path_key [OF less.prems(1)] .
  then have "has_node T ?t (key_path (path_key q))"
    using run_trie_node [OF assms(1,2)] less.prems(2) by simp
  from trie_traverse_node [OF assms(1) this, of get_deactivation] obtain steps children
    where steps: "set steps = {c. has_node T ?t (q @ [c])}"
      and children: "rmap (\<lambda>c. trie_traverse T ?t get_deactivation (path_key (q @ [c]))) steps = Inr children"
      and result: "trie_traverse T ?t get_deactivation (path_key q) =
        Inr (get_deactivation q children (trie_get T ?t (path_key q)))"
    by (metis kp)
  note at_q = run_trie_value [OF assms(1,2) less.prems(1)]
  have some: "below bad E q \<or> below good E q"
    using less.prems(2) assms(2) by (fastforce simp: below_def consistent_def)
  have child: "covers (children ! i) E (q @ [steps ! i])" if "i < length steps" for i
  proof -
    have "has_node T ?t (q @ [steps ! i])" using steps that nth_mem by blast
    then obtain n outcome where n: "(n, outcome) \<in> set E" "prefix (q @ [steps ! i]) (path_elements n)"
      using run_trie_node [OF assms(1,2)] by blast
    then have "segments (path_elements n)" using assms(2) by (auto simp: consistent_def)
    then have "segments (q @ [steps ! i])" using segments_prefix n(2) by blast
    moreover have "length (q @ [steps ! i]) \<le> ?M"
      using n by (intro order.trans [OF prefix_length_le [OF n(2)]] Max_ge) auto
    ultimately obtain paths where
      "trie_traverse T ?t get_deactivation (path_key (q @ [steps ! i])) = Inr paths" "covers paths E (q @ [steps ! i])"
      using less.hyps [of "q @ [steps ! i]"] n by fastforce
    then show ?thesis using children that by (simp add: rmap_Inr_iff)
  qed
  have len: "length children = length steps" using children by (simp add: rmap_Inr_iff)
  consider "below bad E q" "\<not> below good E q" | "\<not> below bad E q" | "below bad E q" "below good E q"
    by blast
  then have "covers (get_deactivation q children (trie_get T ?t (path_key q))) E q"
  proof cases
    case 1
    then have "trie_get T ?t (path_key q) = Some XFAIL" using at_q by blast
    moreover have "bad outcome" if "(n, outcome) \<in> set E" "prefix q (path_elements n)" for n outcome
      using that 1(2) assms(2) by (fastforce simp: consistent_def below_def)
    ultimately show ?thesis using less.prems(1) by (auto simp: covers_def get_deactivation_def)
  next
    case 2
    with some at_q obtain s where "trie_get T ?t (path_key q) = Some s" "s \<noteq> XFAIL" "s \<noteq> NONE"
      by (cases "trie_get T ?t (path_key q)") auto
    with 2 show ?thesis by (auto simp: covers_def get_deactivation_def below_def)
  next
    case 3
    then have "trie_get T ?t (path_key q) = Some NONE" using at_q by blast
    then have r: "get_deactivation q children (trie_get T ?t (path_key q)) = concat children"
      by (simp add: get_deactivation_def fold_append_lists)
    have inner: "path_elements n \<noteq> q" if "(n, outcome) \<in> set E" for n outcome
    proof
      assume q: "path_elements n = q"
      have same: "bad outcome' = bad outcome" if "(n', outcome') \<in> set E" "prefix q (path_elements n')"
        for n' outcome'
        using that \<open>(n, outcome) \<in> set E\<close> assms(2) unfolding consistent_def by (fastforce simp: q)
      from 3 obtain n1 o1 n2 o2 where "(n1, o1) \<in> set E" "prefix q (path_elements n1)" "bad o1"
        "(n2, o2) \<in> set E" "prefix q (path_elements n2)" "good o2"
        unfolding below_def by blast
      then show False using same good_not_bad by metis
    qed
    have paths: "prefix q p \<and> segments p" if "p \<in> set (concat children)" for p
    proof -
      from that obtain i where i: "i < length children" "p \<in> set (children ! i)"
        unfolding set_concat by (metis UN_E in_set_conv_nth)
      with child [of i] len have "prefix (q @ [steps ! i]) p" "segments p" by (auto simp: covers_def)
      then show ?thesis by (auto dest: append_prefixD)
    qed
    have "(\<exists>p \<in> set (concat children). prefix p (path_elements n)) \<longleftrightarrow> bad outcome"
      if n: "(n, outcome) \<in> set E" "prefix q (path_elements n)" for n outcome
    proof -
      from inner [OF n(1)] n(2) obtain c rest where c: "path_elements n = q @ c # rest"
        by (metis prefix_def append_Nil2 neq_Nil_conv)
      then have "prefix (q @ [c]) (path_elements n)" by simp
      then have "c \<in> set steps" using steps run_trie_node [OF assms(1,2)] n(1) by blast
      then obtain i where i: "i < length steps" "steps ! i = c" by (metis in_set_conv_nth)
      have at: "(\<exists>p \<in> set (children ! j). prefix p (path_elements n)) \<longleftrightarrow> bad outcome"
        if "j < length steps" "prefix (q @ [steps ! j]) (path_elements n)" for j
        using child [OF that(1)] n(1) that(2) by (auto simp: covers_def)
      show ?thesis
      proof
        assume "\<exists>p \<in> set (concat children). prefix p (path_elements n)"
        then obtain j p where j: "j < length steps" "p \<in> set (children ! j)" "prefix p (path_elements n)"
          using len unfolding set_concat by (metis UN_E in_set_conv_nth)
        then have "prefix (q @ [steps ! j]) (path_elements n)"
          using child [OF j(1)] by (auto simp: covers_def intro: prefix_order.trans)
        with at j show "bad outcome" by blast
      next
        assume "bad outcome"
        with at [OF i(1)] c i(2) obtain p where "p \<in> set (children ! i)" "prefix p (path_elements n)" by auto
        then show "\<exists>p \<in> set (concat children). prefix p (path_elements n)"
          using i(1) len by auto
      qed
    qed
    then show ?thesis unfolding r covers_def using paths by blast
  qed
  with result show ?case by blast
qed

text \<open>A path is written as a rule with \<open>::\<close> after the name of the file.\<close>

lemma join_rule_spell:
  "sep \<in> {''/'', ''::''} \<Longrightarrow> \<exists>bs. join_rule sep rule elements = rule @ (if elements = [] then [] else sep @ spell elements bs)"
proof (induction elements arbitrary: sep rule)
  case (Cons x xs)
  let ?sep = "if endswith x ''.py'' then ''::'' else sep"
  have "?sep \<in> {''/'', ''::''}" using Cons.prems by simp
  from Cons.IH [OF this, of "rule @ sep @ x"] obtain bs
    where bs: "join_rule ?sep (rule @ sep @ x) xs =
      (rule @ sep @ x) @ (if xs = [] then [] else ?sep @ spell xs bs)" by blast
  show ?case
  proof (cases xs)
    case Nil
    then show ?thesis by auto
  next
    case (Cons y ys)
    have "spell (x # y # ys) ((?sep = ''::'') # bs) = x @ ?sep @ spell (y # ys) bs"
      using Cons.prems \<open>sep \<in> _\<close> by auto
    with bs show ?thesis by (intro exI [of _ "(?sep = ''::'') # bs"]) (simp add: Cons)
  qed
qed simp

lemma tup_to_rule_spell:
  assumes "p \<noteq> []"
  shows "\<exists>bs. tup_to_rule p = spell p bs"
proof -
  obtain x xs where p: "p = x # xs" using assms by (cases p) auto
  from join_rule_spell [of "''/''" x xs] obtain bs
    where "tup_to_rule p = x @ (if xs = [] then [] else ''/'' @ spell xs bs)"
    by (auto simp: tup_to_rule_def p)
  moreover have "spell p (False # bs) = x @ (if xs = [] then [] else ''/'' @ spell xs bs)"
    by (cases xs) (auto simp: p)
  ultimately show ?thesis by metis
qed

text \<open>The id under which a test is recorded has no parameters.\<close>

definition test_id :: "test_report \<Rightarrow> string" where
  "test_id r = hd (str_split ''['' (tr_nodeid r))"

lemma match_rule_spell:
  assumes "segments rs"
  shows "match_rule (spell rs bs) (tr_nodeid r) \<longleftrightarrow> prefix rs (path_elements (test_id r))"
proof -
  have "path_elements (strip_by (\<lambda>c. c = CHR ''/'') (spell rs bs)) = rs"
    using spell_ends [of rs bs] strip_slashes [of "spell rs bs" "[]" "[]"] assms
    by (simp add: path_elements_spell segments_def)
  then show ?thesis
    by (auto simp: match_rule_def test_id_def Let_def prefix_def) (metis append_take_drop_id)+
qed

lemma parse_tests_trie:
  "td_trie (fst (fold (parse_test T X) tests (d, owners))) =
     fold (\<lambda>(n, outcome). update_trie T outcome n) (map (\<lambda>r. (test_id r, effective_outcome X r)) tests) (td_trie d)"
proof (induction tests arbitrary: d owners)
  case (Cons r tests)
  obtain d' owners' where p: "parse_test T X r (d, owners) = (d', owners')" by force
  then have "td_trie d' = update_trie T (effective_outcome X r) (test_id r) (td_trie d)"
    by (auto simp: parse_test_def Let_def test_id_def update_nodes_def)
  with Cons.IH [of d' owners'] show ?case by (simp add: p)
qed simp

definition test_runs :: "string set option \<Rightarrow> test_report list \<Rightarrow> runs" where
  "test_runs X tests = map (\<lambda>r. (test_id r, effective_outcome X r)) tests"


text \<open>A trie that is documented in this sense: an association list with a search of the keys.\<close>

definition child_steps :: "(string, activation_status) dict \<Rightarrow> string list \<Rightarrow> string list" where
  "child_steps t q = remdups (concat (map (\<lambda>(k, _).
     if prefix q (key_path k) \<and> length q < length (key_path k) then [key_path k ! length q] else []) t))"

primrec walk ::
  "nat \<Rightarrow> (string, activation_status) dict \<Rightarrow>
     (string list \<Rightarrow> rule_paths list \<Rightarrow> activation_status option \<Rightarrow> rule_paths) \<Rightarrow> string list \<Rightarrow> rule_paths" where
  "walk 0 t f q = []"
| "walk (Suc n) t f q = f q (map (\<lambda>c. walk n t f (q @ [c])) (child_steps t q)) (dget t (path_key q))"

definition depth :: "(string, activation_status) dict \<Rightarrow> nat" where
  "depth t = foldr max (map (\<lambda>(k, _). length (key_path k)) t) 0"

definition list_trie :: "(string, activation_status) dict trie_lib" where
  "list_trie = \<lparr>trie_empty = [], trie_get = dget, trie_set = dset,
     trie_traverse = (\<lambda>t f k.
       if list_ex (\<lambda>(k', _). prefix (key_path k) (key_path k')) t
       then Inr (walk (Suc (depth t)) t f (key_path k)) else Inl Key_Error)\<rparr>"

lemma has_node_list: "has_node list_trie t q \<longleftrightarrow> (\<exists>(k, _) \<in> set t. prefix q (key_path k))"
proof -
  have "dget t k \<noteq> None \<longleftrightarrow> k \<in> fst ` set t" for k by (simp add: map_of_eq_None_iff)
  then show ?thesis by (force simp: has_node_def list_trie_def)
qed

lemma prefix_snoc_nth:
  "prefix (q @ [c]) p \<longleftrightarrow> prefix q p \<and> length q < length p \<and> p ! length q = c"
proof
  assume "prefix q p \<and> length q < length p \<and> p ! length q = c"
  then obtain z where "p = q @ z" "z \<noteq> []" "z ! 0 = c" by (auto simp: prefix_def nth_append)
  then show "prefix (q @ [c]) p" by (cases z) auto
qed (auto simp: prefix_def nth_append)

lemma set_child_steps: "set (child_steps t q) = {c. has_node list_trie t (q @ [c])}"
  unfolding has_node_list prefix_snoc_nth by (force simp: child_steps_def split: if_splits)

lemma child_depth: "c \<in> set (child_steps t q) \<Longrightarrow> length q < depth t"
proof -
  have "length (key_path k) \<le> depth t" if "(k, v) \<in> set t" for k v
    using that by (induction t) (auto simp: depth_def)
  moreover assume "c \<in> set (child_steps t q)"
  ultimately show ?thesis
    by (auto simp: child_steps_def split: if_splits intro: order.strict_trans2)
qed

lemma walk_fuel: "depth t - length q < n \<Longrightarrow> depth t - length q < m \<Longrightarrow> walk n t f q = walk m t f q"
proof (induction n arbitrary: m q)
  case (Suc n)
  from Suc.prems(2) obtain k where m: "m = Suc k" by (cases m) auto
  have "walk n t f (q @ [c]) = walk k t f (q @ [c])" if "c \<in> set (child_steps t q)" for c
    using Suc.IH [of "q @ [c]" k] Suc.prems child_depth [OF that] by (simp add: m)
  then show ?case by (simp add: m cong: map_cong)
qed simp

lemma list_trie_documented: "trie_documented list_trie"
proof -
  have traverse: "trie_traverse list_trie t f k =
      (if has_node list_trie t (key_path k) then Inr (walk (Suc (depth t)) t f (key_path k)) else Inl Key_Error)" for t f k
  proof -
    have "has_node list_trie t (key_path k) \<longleftrightarrow> list_ex (\<lambda>(k', _). prefix (key_path k) (key_path k')) t"
      by (simp add: has_node_list list_ex_iff)
    then show ?thesis by (simp add: list_trie_def)
  qed
  have "\<exists>steps children. distinct steps \<and> set steps = {c. has_node list_trie t (key_path k @ [c])} \<and>
      rmap (\<lambda>c. trie_traverse list_trie t f (path_key (key_path k @ [c]))) steps = Inr children \<and>
      trie_traverse list_trie t f k = Inr (f (key_path k) children (trie_get list_trie t k))"
    if node: "has_node list_trie t (key_path k)" for t f k
  proof (intro exI conjI)
    let ?q = "key_path k"
    show "distinct (child_steps t ?q)" by (simp add: child_steps_def)
    show "set (child_steps t ?q) = {c. has_node list_trie t (?q @ [c])}" by (rule set_child_steps)
    show "rmap (\<lambda>c. trie_traverse list_trie t f (path_key (?q @ [c]))) (child_steps t ?q) =
        Inr (map (\<lambda>c. walk (depth t) t f (?q @ [c])) (child_steps t ?q))"
    proof (rule rmap_total)
      fix c
      assume c: "c \<in> set (child_steps t ?q)"
      then have child: "has_node list_trie t (?q @ [c])" by (simp add: set_child_steps)
      then obtain k' where "prefix (?q @ [c]) (key_path k')" by (auto simp: has_node_def)
      then have "x \<in> set (key_path k')" if "x \<in> set (?q @ [c])" for x
        using that set_mono_prefix by blast
      then have "key_path (path_key (?q @ [c])) = ?q @ [c]"
        by (intro str_split_join) (auto dest: str_split_char_free)
      moreover have "walk (Suc (depth t)) t f (?q @ [c]) = walk (depth t) t f (?q @ [c])"
        using child_depth [OF c] by (intro walk_fuel) auto
      ultimately show "trie_traverse list_trie t f (path_key (?q @ [c])) = Inr (walk (depth t) t f (?q @ [c]))"
        using child by (simp add: traverse)
    qed
    show "trie_traverse list_trie t f k = Inr (f ?q (map (\<lambda>c. walk (depth t) t f (?q @ [c])) (child_steps t ?q))
        (trie_get list_trie t k))"
      using node by (simp add: traverse str_join_split) (simp add: list_trie_def)
  qed
  then show ?thesis
    unfolding trie_documented_def by (auto simp: traverse list_trie_def [THEN arg_cong [where f = trie_get]]
      list_trie_def [THEN arg_cong [where f = trie_set]] list_trie_def [THEN arg_cong [where f = trie_empty]])
qed

definition sample_tests :: "test_report list" where
  "sample_tests =
     [\<lparr>tr_owners = None, tr_outcome = ''xpassed'', tr_nodeid = ''tests/a/t.py::Test_A::test_x[1]''\<rparr>,
      \<lparr>tr_owners = Some [''@o''], tr_outcome = ''xpassed'', tr_nodeid = ''tests/a/t.py::Test_B::test_y''\<rparr>,
      \<lparr>tr_owners = None, tr_outcome = ''passed'', tr_nodeid = ''tests/a/u.py::Test_C::test_z''\<rparr>]"


text \<open>
  Two runs of one test that disagree: what the rules do depends on their order.  When the failure
  comes first the test is left without a rule and is activated with the others.
\<close>

theorem disagreeing_runs:
  "deactivations list_trie (run_trie list_trie
     [(''a/t.py::A'', ''passed''), (''a/t.py::A'', ''xfailed''), (''a/t.py::B'', ''xpassed'')]) ''a/t.py''
     = Inr [''a/t.py::A'']"
  "deactivations list_trie (run_trie list_trie
     [(''a/t.py::A'', ''xfailed''), (''a/t.py::A'', ''passed''), (''a/t.py::B'', ''xpassed'')]) ''a/t.py''
     = Inr []"
  by code_simp+

text \<open>A rule for a folder that ends in a slash, as the manifests write them, has no node in the trie,
  whatever the tests below it did: no rule that keeps the failing tests off is computed, and the
  \<open>KeyError\<close> is suppressed by the caller.
\<close>

theorem folder_rule_has_no_node:
  assumes "trie_documented T" and "consistent E"
  shows "deactivations T (run_trie T E) (rule @ ''/'') = Inl Key_Error"
proof -
  let ?k = "str_replace ''::'' ''/'' (rule @ ''/'')"
  have "\<exists>k'. ?k = k' @ ''/''"
  proof -
    have "split_go ''::'' acc (s @ ''/'') = butlast (split_go ''::'' acc s) @ [last (split_go ''::'' acc s) @ ''/'']" for acc s
    proof (induction "''::''" acc s rule: split_go.induct)
      case (2 acc c cs)
      show ?case
      proof (cases "prefix ''::'' (c # cs)")
        case True
        then obtain ds where "c = CHR '':''" "cs = CHR '':'' # ds" by (auto simp: prefix_def)
        with 2(1) True show ?thesis by simp
      next
        case False
        then have "\<not> prefix ''::'' (c # (cs @ ''/''))" by (cases cs) auto
        with False have "split_go ''::'' acc (c # cs) = split_go ''::'' (c # acc) cs"
          "split_go ''::'' acc ((c # cs) @ ''/'') = split_go ''::'' (c # acc) (cs @ ''/'')"
          by (simp_all only: append_Cons split_go.simps(2) if_False)
        with 2(2) [OF False] show ?thesis by (simp only:)
      qed
    qed simp
    then have "str_split ''::'' (rule @ ''/'') = butlast (str_split ''::'' rule) @ [last (str_split ''::'' rule) @ ''/'']"
      by (simp add: str_split_def)
    moreover have "\<exists>k'. str_join ''/'' (xs @ [x @ ''/'']) = k' @ ''/''" for xs x
      by (cases "xs = []") (auto simp: path_key_snoc)
    ultimately show ?thesis by (simp add: str_replace_def)
  qed
  then obtain k' where "?k = k' @ ''/''" by blast
  then have "key_path ?k = key_path k' @ [[]]"
    using str_split_append [of "CHR ''/''" k' "[]"] by (simp add: str_split_free)
  then have "[] \<in> set (key_path ?k)" by simp
  then have "\<not> has_node T (run_trie T E) (key_path ?k)"
    using run_trie_node [OF assms] assms(2) set_mono_prefix
    by (fastforce simp: consistent_def segments_def segment_def)
  then show ?thesis using trie_laws(3) [OF assms(1)] by (simp add: deactivations_def)
qed

lemma folder_rule_has_no_node_witness:
  "deactivations list_trie (run_trie list_trie [(''tests/a/t.py::A'', ''xpassed''), (''tests/a/t.py::B'', ''xfailed'')])
     (''tests/a'' @ ''/'') = Inl Key_Error"
  by (rule folder_rule_has_no_node [OF list_trie_documented]) code_simp

end
