(* ===== verification/Manifest_Editor.thy ===== *)
theory Manifest_Editor
  imports Manifest_Parser Activation_Report "HOL-Library.List_Lexorder" "HOL-Library.Char_ord"
begin

section \<open>The manifest editor (\<open>scripts/activate_easy_wins/_internal/manifest_editor.py\<close>)\<close>

text \<open>
  The editor turns activations into edits of the YAML files of the manifest.  A view points from a
  condition of the parsed manifest to the place of the files it comes from; poked views are edited
  to let the test run from the version that passed, and added rules keep the failing tests off.
  The documents of \<open>ruamel.yaml\<close> are values of the shapes the schema of the manifests allows; their
  comments are kept apart, by place.  Dumping a document is left to the package.
\<close>

subsection \<open>Documents\<close>

datatype raw_val = RV_str string | RV_list "string list" | RV_map "(string, string) dict"

type_synonym raw_cond = "(string, raw_val) dict"

datatype raw_entry = RE_str string | RE_list "raw_cond list"

text \<open>The mapping under \<open>manifest\<close> in the file of each component.\<close>

type_synonym raw_data = "(string, (string, raw_entry) dict) dict"

text \<open>What an end-of-line comment is attached to: a rule, or a weblog of a \<open>weblog_declaration\<close>.\<close>

datatype place = At_rule string string | At_weblog string string nat string

record 'c view =
  vw_rule :: string
  vw_condition :: "'c cond_dict"
  vw_index :: int
  vw_clause :: "string option"
  vw_inline :: bool

record 'c editor =
  ed_raw :: raw_data
  ed_comments :: "(place, string) dict"
  ed_data :: "(string, 'c cond_dict list) dict"
  ed_manifest :: "'c manifest"
  ed_context :: "context_data option"
  ed_poked :: "('c view, context_data set) dict"
  ed_skipped :: "'c view set"
  ed_added :: "(string, ('c view \<times> context_data) set) dict"
  ed_weblogs :: "(string, string set) dict"

text \<open>
  The order in which Python iterates over a set: any order, each element once.  It is a parameter
  for each type of elements.
\<close>

record 'c set_order =
  ord_strings :: "string set \<Rightarrow> string list"
  ord_contexts :: "context_data set \<Rightarrow> context_data list"
  ord_views :: "'c view set \<Rightarrow> 'c view list"
  ord_sources :: "('c view \<times> context_data) set \<Rightarrow> ('c view \<times> context_data) list"

subsection \<open>Fields of a condition\<close>

definition cond_component :: "'c cond_dict \<Rightarrow> string res" where
  "cond_component c = rbind (dgetitem c ''component'') (\<lambda>v.
     case v of F_yaml (Y_str s) \<Rightarrow> Inr s | _ \<Rightarrow> Inl Type_Error)"

definition cond_weblogs :: "'c cond_dict \<Rightarrow> string \<Rightarrow> string list option" where
  "cond_weblogs c name = weblogs_of (dget c name)"

definition cond_declaration :: "'c cond_dict \<Rightarrow> skip_declaration res" where
  "cond_declaration c = rbind (dgetitem c ''declaration'') (\<lambda>v.
     case v of F_skip s \<Rightarrow> Inr s | _ \<Rightarrow> Inl Type_Error)"

text \<open>\<open>str(value)\<close> of the values a condition holds.\<close>

fun fval_str :: "'c fval \<Rightarrow> string res" where
  "fval_str (F_yaml (Y_str s)) = Inr s"
| "fval_str (F_range r) = Inr (expression r)"
| "fval_str (F_test d) = Inr (td_str d)"
| "fval_str (F_skip s) = Inr (skip_str s)"
| "fval_str (F_yaml _) = Inl Type_Error"

definition missing_feature_only :: "skip_declaration \<Rightarrow> bool" where
  "missing_feature_only s \<longleftrightarrow> sd_value s = MISSING_FEATURE \<and> (sd_details s = None \<or> sd_details s = Some [])"

subsection \<open>Anchors used as keys\<close>

definition ident_start :: "char \<Rightarrow> bool" where
  "ident_start c \<longleftrightarrow> is_lower c \<or> is_upper c \<or> c = CHR ''_''"

definition ident_char :: "char \<Rightarrow> bool" where
  "ident_char c \<longleftrightarrow> ident_start c \<or> is_digit c"

definition anchor_re :: re where
  "anchor_re = Seq [Lit ''*'', Chr ident_start, Star (Chr ident_char)]"

definition wrap_re :: re where
  "wrap_re = Seq [Bos, Grp 1 (Plus (Chr is_space)), Grp 2 anchor_re, Grp 3 (Star (Chr is_space)), Grp 4 (Lit '':'')]"

text \<open>The rest of the subject after a match is the part of the state not consumed.\<close>

definition wrap_line :: "string \<Rightarrow> string" where
  "wrap_line line =
     (case re_match wrap_re line of
        None \<Rightarrow> line
      | Some st \<Rightarrow> tpl st 1 @ [CHR 0x27] @ tpl st 2 @ [CHR 0x27] @ tpl st 3 @ tpl st 4 @ fst (snd st))"

text \<open>The back reference to the quote is an alternative of the two quotes.\<close>

definition quoted_re :: "char \<Rightarrow> re" where
  "quoted_re q = Seq [Grp 2 (Lit [q]), Grp 3 anchor_re, Lit [q], Grp 4 (Star (Chr is_space)), Grp 5 (Lit '':'')]"

definition unwrap_re :: re where
  "unwrap_re = Seq [Bos, Grp 1 (Plus (Chr is_space)), Alt (quoted_re (CHR 0x27)) (quoted_re (CHR 0x22))]"

definition unwrap_line :: "string \<Rightarrow> string" where
  "unwrap_line line =
     (case re_match unwrap_re line of
        None \<Rightarrow> line
      | Some st \<Rightarrow> tpl st 1 @ tpl st 3 @ tpl st 4 @ tpl st 5 @ fst (snd st))"

definition line_break :: "char \<Rightarrow> bool" where
  "line_break c \<longleftrightarrow> (let n = of_char c :: nat in n \<in> {0x0A, 0x0B, 0x0C, 0x0D, 0x1C, 0x1D, 0x1E, 0x85})"

text \<open>\<open>str.splitlines()\<close>: no empty line after the last line break; a carriage return with its line feed is one.\<close>

function split_lines :: "string \<Rightarrow> string \<Rightarrow> string list" where
  "split_lines acc [] = (if acc = [] then [] else [rev acc])"
| "split_lines acc (c # cs) =
     (if line_break c
      then rev acc # split_lines [] (if c = CHR 0x0D \<and> startswith cs [nl] then tl cs else cs)
      else split_lines (c # acc) cs)"
  by pat_completeness auto
termination
  by (relation "measure (\<lambda>(acc, s). length s)") auto

definition splitlines :: "string \<Rightarrow> string list" where
  "splitlines s = split_lines [] s"

definition wrap_key_anchors :: "string \<Rightarrow> string" where
  "wrap_key_anchors content = str_join [nl] (map wrap_line (splitlines content))"

definition unwrap_key_anchors :: "string \<Rightarrow> string" where
  "unwrap_key_anchors content = str_join [nl] (map unwrap_line (splitlines content))"

subsection \<open>Context, matches, pokes and rules\<close>

text \<open>The conditions of the manifest as the matching of rules reads them.\<close>

definition typed_data :: "(string, 'c cond_dict list) dict \<Rightarrow> 'c manifest_data res" where
  "typed_data data =
     rmap (\<lambda>(rule, cs). rbind (rmap (\<lambda>c. of_option Type_Error (as_condition c)) cs) (\<lambda>conds. Inr (rule, conds))) data"

definition set_context :: "'c npm_lib \<Rightarrow> context_data \<Rightarrow> 'c editor \<Rightarrow> 'c editor res" where
  "set_context N c ed =
     rbind (typed_data (ed_data ed)) (\<lambda>data.
     rbind (update_rules N ((ed_manifest ed)\<lparr>mf_data := data\<rparr>)
         [(ctx_library c, Some (ctx_version c))] (Some (ctx_variant c))) (\<lambda>m.
       Inr (ed\<lparr>ed_context := Some c, ed_manifest := m\<rparr>)))"

definition component_weblogs :: "'c editor \<Rightarrow> string \<Rightarrow> string set" where
  "component_weblogs ed component =
     (case dget (ed_weblogs ed) component of None \<Rightarrow> {} | Some ws \<Rightarrow> ws) \<union>
     \<Union> (set (map (\<lambda>c. if cond_component c = Inr component
         then set (case cond_weblogs c ''weblog'' of None \<Rightarrow> [] | Some ws \<Rightarrow> ws) \<union>
           set (case cond_weblogs c ''excluded_weblog'' of None \<Rightarrow> [] | Some ws \<Rightarrow> ws)
         else {}) (concat (map snd (ed_data ed)))))"

definition raw_val_len :: "raw_val \<Rightarrow> nat" where
  "raw_val_len v = (case v of RV_str s \<Rightarrow> length s | RV_list xs \<Rightarrow> length xs | RV_map m \<Rightarrow> length m)"

fun compute_edit_loc :: "raw_cond list \<Rightarrow> int \<Rightarrow> int \<Rightarrow> int \<Rightarrow> bool \<Rightarrow> int \<times> bool" where
  "compute_edit_loc [] parsed_rule_index index hidden_length is_clause = (index, is_clause)"
| "compute_edit_loc (condition # cs) parsed_rule_index index hidden_length is_clause =
     (if index + hidden_length = parsed_rule_index then (index, is_clause)
      else (case dget condition ''weblog_declaration'' of
          None \<Rightarrow> compute_edit_loc cs parsed_rule_index (index + 1) hidden_length False
        | Some weblog_declaration \<Rightarrow>
            let hidden = hidden_length + int (raw_val_len weblog_declaration) in
            compute_edit_loc cs parsed_rule_index (index + 1) hidden
              (0 < raw_val_len weblog_declaration \<and> index + 1 + hidden \<ge> parsed_rule_index)))"

definition view_of :: "'c editor \<Rightarrow> string \<Rightarrow> nat \<times> int \<Rightarrow> 'c view option res" where
  "view_of ed rule = (\<lambda>(i, j).
     rbind (dgetitem (ed_data ed) rule) (\<lambda>conditions.
     rbind (if i < length conditions then Inr (conditions ! i) else Inl Index_Error) (\<lambda>parsed_condition.
     rbind (cond_component parsed_condition) (\<lambda>component.
       if component \<notin> set easy_win_components then Inr None
       else rbind (dgetitem (ed_raw ed) component) (\<lambda>manifest.
         rbind (dgetitem manifest rule) (\<lambda>raw_conditions.
           let (index, is_clause, is_inline) = (case raw_conditions of
                 RE_str _ \<Rightarrow> (j, False, True)
               | RE_list raw \<Rightarrow> (let (x, b) = compute_edit_loc raw j (-1) 0 False in (x, b, False)));
               key_list = (case cond_weblogs parsed_condition ''weblog'' of None \<Rightarrow> [''*''] | Some ws \<Rightarrow> ws)
           in rbind (rassert (\<not> is_clause \<or> key_list \<noteq> []) Assertion_Error) (\<lambda>_.
             Inr (Some \<lparr>vw_rule = rule, vw_condition = parsed_condition, vw_index = index,
               vw_clause = (if is_clause \<and> length key_list = 1 then Some (hd key_list) else None),
               vw_inline = is_inline\<rparr>))))))))"

definition get_matches :: "'c editor \<Rightarrow> string \<Rightarrow> 'c view set res" where
  "get_matches ed nodeid =
     rbind (get_declarations (ed_manifest ed) nodeid) (\<lambda>(_, declaration_sources).
     rbind (rmap (\<lambda>(rule, indices). rmap (view_of ed rule) indices) declaration_sources) (\<lambda>views.
       Inr (set (concat (map (\<lambda>v. case v of None \<Rightarrow> [] | Some w \<Rightarrow> [w]) (concat views))))))"

definition poke :: "'c view \<Rightarrow> 'c editor \<Rightarrow> 'c editor res" where
  "poke v ed =
     rbind (of_option Attribute_Error (ed_context ed)) (\<lambda>c.
       let contexts = (case dget (ed_poked ed) v of None \<Rightarrow> {} | Some cs \<Rightarrow> cs)
       in Inr (ed\<lparr>ed_poked := dset v (insert c contexts) (ed_poked ed)\<rparr>))"

definition add_rule :: "'c view \<Rightarrow> context_data \<Rightarrow> string \<Rightarrow> 'c editor \<Rightarrow> 'c editor" where
  "add_rule parent c rule ed =
     (let sources = (case dget (ed_added ed) rule of None \<Rightarrow> {} | Some ss \<Rightarrow> ss)
      in ed\<lparr>ed_added := dset rule (insert (parent, c) sources) (ed_added ed)\<rparr>)"

definition add_rules :: "string list \<Rightarrow> 'c view \<Rightarrow> 'c editor \<Rightarrow> 'c editor res" where
  "add_rules rules parent ed =
     (if dhas (vw_condition parent) ''excluded_component_version'' then Inr ed
      else rfold (\<lambda>rule ed'.
        rbind (of_option Attribute_Error (ed_context ed')) (\<lambda>c. Inr (add_rule parent c rule ed'))) rules ed)"

subsection \<open>Conditions written back\<close>

definition key_values :: "string list \<Rightarrow> string \<Rightarrow> (string, string) dict" where
  "key_values ks v = fold (\<lambda>k. dset k v) ks []"

definition weblog_val :: "string list \<Rightarrow> raw_val" where
  "weblog_val ws = (case ws of [w] \<Rightarrow> RV_str w | _ \<Rightarrow> RV_list ws)"

definition serialize_field :: "string \<times> 'c fval \<Rightarrow> raw_cond \<Rightarrow> raw_cond res" where
  "serialize_field = (\<lambda>(name, v) ret.
     if name = ''component'' then Inr ret
     else if name \<in> {''weblog'', ''excluded_weblog''} then
       (case weblogs_of (Some v) of
          Some ws \<Rightarrow> Inr (dset name (weblog_val ws) ret)
        | None \<Rightarrow> rbind (fval_str v) (\<lambda>s. Inr (dset name (RV_str s) ret)))
     else rbind (fval_str v) (\<lambda>s. Inr (dset name (RV_str s) ret)))"

definition serialize_condition :: "'c cond_dict \<Rightarrow> raw_cond res" where
  "serialize_condition condition =
     rbind (cond_declaration condition) (\<lambda>d.
       case (cond_weblogs condition ''weblog'', dget condition ''component_version'') of
         (Some ws, Some v) \<Rightarrow>
           if missing_feature_only d
           then rbind (fval_str v) (\<lambda>s. Inr [(''weblog_declaration'', RV_map (key_values ws s))])
           else rfold serialize_field condition []
       | (Some ws, None) \<Rightarrow>
           if length condition \<le> 3 then Inr [(''weblog_declaration'', RV_map (key_values ws (skip_str d)))]
           else rfold serialize_field condition []
       | _ \<Rightarrow> rfold serialize_field condition [])"

definition specialize :: "'c cond_dict \<Rightarrow> context_data \<Rightarrow> 'c cond_dict" where
  "specialize condition c =
     dset ''weblog'' (F_yaml (Y_list [Y_str (ctx_variant c)])) (ddel ''excluded_weblog'' condition)"

definition build_new_rules :: "'c set_order \<Rightarrow> 'c editor \<Rightarrow> (string, 'c cond_dict list) dict" where
  "build_new_rules Q ed =
     fold (\<lambda>(rule, sources) ret.
       fold (\<lambda>(parent, c) ret'.
           if parent \<in> ed_skipped ed then ret'
           else dextend rule [specialize (vw_condition parent) c] ret')
         (ord_sources Q sources) ret)
       (ed_added ed) []"

datatype key_part = KP_str string | KP_list "string list"

definition key_part :: "'c fval \<Rightarrow> key_part res" where
  "key_part v =
     (case weblogs_of (Some v) of
        Some ws \<Rightarrow> Inr (KP_list ws)
      | None \<Rightarrow> rbind (fval_str v) (\<lambda>s. Inr (KP_str s)))"

definition condition_key :: "'c cond_dict \<Rightarrow> (string \<times> key_part) list res" where
  "condition_key condition =
     rmap (\<lambda>(name, v). rbind (key_part v) (\<lambda>p. Inr (name, p))) (sort_key fst condition)"

definition compress_pokes :: "'c set_order \<Rightarrow> context_data set \<Rightarrow> (version \<times> string list) res" where
  "compress_pokes Q contexts =
     (case ord_contexts Q contexts of
        [] \<Rightarrow> Inl Assertion_Error
      | c # cs \<Rightarrow> Inr (ctx_version c, map ctx_variant (c # cs)))"

type_synonym compressed = "((string \<times> key_part) list, string set) dict"

definition compress_condition ::
  "'c cond_dict \<Rightarrow> compressed \<times> ((string \<times> key_part) list, 'c cond_dict) dict \<Rightarrow>
     (compressed \<times> ((string \<times> key_part) list, 'c cond_dict) dict) res" where
  "compress_condition condition = (\<lambda>(groups, non_var_conditions).
     rbind (dgetitem condition ''weblog'') (\<lambda>_.
     let non_var_condition = ddel ''weblog'' condition in
     rbind (condition_key non_var_condition) (\<lambda>key.
       let weblogs = (case dget groups key of None \<Rightarrow> {} | Some ws \<Rightarrow> ws);
           new = (case cond_weblogs condition ''weblog'' of None \<Rightarrow> [] | Some ws \<Rightarrow> ws)
       in Inr (dset key (weblogs \<union> set new) groups, dset key non_var_condition non_var_conditions))))"

text \<open>A set of weblogs in its order; the code takes the first of the iteration, which must exist.\<close>

definition uncompress_condition ::
  "'c set_order \<Rightarrow> 'c editor \<Rightarrow> ((string \<times> key_part) list, 'c cond_dict) dict \<Rightarrow>
     (string \<times> key_part) list \<times> string set \<Rightarrow> 'c cond_dict res" where
  "uncompress_condition Q ed non_var_conditions = (\<lambda>(key, weblogs).
     rbind (dgetitem non_var_conditions key) (\<lambda>condition.
     rbind (cond_component condition) (\<lambda>component.
       if weblogs = component_weblogs ed component then Inr condition
       else (case ord_strings Q weblogs of
           [] \<Rightarrow> Inl Stop_Iteration
         | w # ws \<Rightarrow>
             if str_contains w ''parametric-'' then Inr condition
             else Inr (dset ''weblog'' (F_yaml (Y_list (map Y_str (w # ws)))) condition)))))"

definition compress_rules ::
  "'c set_order \<Rightarrow> 'c editor \<Rightarrow> (string, 'c cond_dict list) dict \<Rightarrow> (string, 'c cond_dict list) dict res" where
  "compress_rules Q ed rules =
     rbind (rfold (\<lambda>(rule, conditions) (compressed, non_var_conditions).
         rbind (rfold compress_condition conditions
             (case dget compressed rule of None \<Rightarrow> [] | Some g \<Rightarrow> g, non_var_conditions)) (\<lambda>(groups, nvc).
           Inr (dset rule groups compressed, nvc))) rules ([], [])) (\<lambda>(compressed, non_var_conditions).
       rmap (\<lambda>(rule, groups).
         rbind (rmap (uncompress_condition Q ed non_var_conditions) groups) (\<lambda>cs. Inr (rule, cs))) compressed)"

definition write_comment :: "place \<Rightarrow> string \<Rightarrow> 'c editor \<Rightarrow> 'c editor" where
  "write_comment p comment ed =
     (if dhas (ed_comments ed) p then ed
      else ed\<lparr>ed_comments := dset p comment (ed_comments ed)\<rparr>)"

text \<open>Equality of the dictionaries of the documents does not depend on the order of their keys.\<close>

definition dict_eq :: "('v \<Rightarrow> 'v \<Rightarrow> bool) \<Rightarrow> ('k, 'v) dict \<Rightarrow> ('k, 'v) dict \<Rightarrow> bool" where
  "dict_eq eq a b \<longleftrightarrow> length a = length b \<and>
     list_all (\<lambda>(k, v). case dget b k of None \<Rightarrow> False | Some w \<Rightarrow> eq v w) a"

fun raw_val_eq :: "raw_val \<Rightarrow> raw_val \<Rightarrow> bool" where
  "raw_val_eq (RV_map a) (RV_map b) = dict_eq (=) a b"
| "raw_val_eq a b = (a = b)"

definition sanitize_original :: "raw_entry \<Rightarrow> 'c cond_dict list \<Rightarrow> raw_cond list res" where
  "sanitize_original raw conditions =
     (case raw of
        RE_list cs \<Rightarrow> Inr cs
      | RE_str _ \<Rightarrow>
          (case conditions of
             [] \<Rightarrow> Inl Index_Error
           | condition # _ \<Rightarrow>
               (case dget condition ''excluded_component_version'' of
                  Some v \<Rightarrow> rbind (fval_str v) (\<lambda>s. Inr [[(''weblog_declaration'', RV_map [(''*'', s)])]])
                | None \<Rightarrow> rbind (cond_declaration condition) (\<lambda>d.
                    Inr [[(''declaration'', RV_str (skip_str d))]]))))"

definition compress_output :: "raw_cond list \<Rightarrow> raw_entry" where
  "compress_output output =
     (case output of
        [[(''declaration'', RV_str ret)]] \<Rightarrow> if ret \<noteq> [] then RE_str ret else RE_list output
      | _ \<Rightarrow> RE_list output)"

definition build_manifest_entry ::
  "string \<Rightarrow> 'c cond_dict \<Rightarrow> (string, raw_entry) dict \<Rightarrow> 'c cond_dict list \<Rightarrow> raw_entry res" where
  "build_manifest_entry rule condition raw_manifest manifest_entry =
     rbind (cond_component condition) (\<lambda>component.
     let original_conditions = filter (\<lambda>c. cond_component c = Inr component) manifest_entry;
         original_raw = (case dget raw_manifest rule of None \<Rightarrow> RE_list [] | Some r \<Rightarrow> r)
     in rbind (sanitize_original original_raw original_conditions) (\<lambda>output_entry.
        rbind (serialize_condition condition) (\<lambda>condition_dict.
          Inr (compress_output (if list_ex (dict_eq raw_val_eq condition_dict) output_entry then output_entry
            else output_entry @ [condition_dict])))))"

subsection \<open>Writing the edits\<close>

text \<open>\<open>self.raw_data[component]["manifest"][rule]\<close>, read and assigned.\<close>

definition raw_entry_of :: "'c editor \<Rightarrow> string \<Rightarrow> string \<Rightarrow> raw_entry res" where
  "raw_entry_of ed component rule =
     rbind (dgetitem (ed_raw ed) component) (\<lambda>manifest. dgetitem manifest rule)"

definition set_raw_entry :: "string \<Rightarrow> string \<Rightarrow> raw_entry \<Rightarrow> 'c editor \<Rightarrow> 'c editor res" where
  "set_raw_entry component rule e ed =
     rbind (dgetitem (ed_raw ed) component) (\<lambda>manifest.
       Inr (ed\<lparr>ed_raw := dset component (dset rule e manifest) (ed_raw ed)\<rparr>))"

definition write_new_rule :: "string \<Rightarrow> 'c cond_dict \<Rightarrow> 'c editor \<Rightarrow> 'c editor res" where
  "write_new_rule rule condition ed =
     rbind (cond_component condition) (\<lambda>component.
     rbind (dgetitem (ed_raw ed) component) (\<lambda>manifest.
     let manifest_entry = (case dget (ed_data ed) rule of None \<Rightarrow> [] | Some cs \<Rightarrow> cs) in
     rbind (build_manifest_entry rule condition manifest manifest_entry) (\<lambda>e.
     rbind (set_raw_entry component rule e ed) (\<lambda>ed'.
       Inr (ed'\<lparr>ed_data := dextend rule [condition] (ed_data ed')\<rparr>)))))"

definition write_new_rules :: "'c set_order \<Rightarrow> 'c editor \<Rightarrow> 'c editor res" where
  "write_new_rules Q ed =
     rbind (compress_rules Q ed (build_new_rules Q ed)) (\<lambda>new_rules.
       rfold (\<lambda>(rule, conditions). rfold (write_new_rule rule) conditions) new_rules ed)"

definition anchored_key :: "string \<Rightarrow> bool" where
  "anchored_key weblog \<longleftrightarrow> re_match (Seq [Lit ''*'', Chr is_word]) weblog \<noteq> None"

text \<open>Indexing as Python does: a negative index counts from the end.\<close>

definition list_index :: "'a list \<Rightarrow> int \<Rightarrow> 'a res" where
  "list_index xs i =
     (if 0 \<le> i \<and> i < int (length xs) then Inr (xs ! nat i)
      else if i < 0 \<and> - int (length xs) \<le> i then Inr (xs ! nat (int (length xs) + i))
      else Inl Index_Error)"

text \<open>The keys of a mapping, the items of a list or the characters of a string.\<close>

definition raw_iter :: "raw_val \<Rightarrow> string list" where
  "raw_iter v = (case v of RV_str s \<Rightarrow> map (\<lambda>c. [c]) s | RV_list xs \<Rightarrow> xs | RV_map m \<Rightarrow> dkeys m)"

definition is_skipped_view :: "'c editor \<Rightarrow> 'c view \<Rightarrow> bool res" where
  "is_skipped_view ed v =
     (if vw_inline v then Inr False
      else rbind (cond_component (vw_condition v)) (\<lambda>component.
        rbind (raw_entry_of ed component (vw_rule v)) (\<lambda>e.
          case e of
            RE_str s \<Rightarrow> rbind (list_index s (vw_index v)) (\<lambda>_. Inr False)
          | RE_list raw_data \<Rightarrow>
              rbind (list_index raw_data (vw_index v)) (\<lambda>raw_condition.
                case dget raw_condition ''weblog_declaration'' of
                  None \<Rightarrow> Inr False
                | Some w \<Rightarrow> Inr (list_ex anchored_key (raw_iter w))))))"

definition detect_skipped_views :: "'c editor \<Rightarrow> 'c editor res" where
  "detect_skipped_views ed =
     rfold (\<lambda>(v, _) ed'. rbind (is_skipped_view ed' v) (\<lambda>b.
         Inr (if b then ed'\<lparr>ed_skipped := insert v (ed_skipped ed')\<rparr> else ed')))
       (ed_poked ed) ed"

definition easy_win_comment :: string where
  "easy_win_comment = ''TODO: a lower version might be supported''"

definition all_weblogs :: "'c editor \<Rightarrow> string \<Rightarrow> string list \<Rightarrow> bool" where
  "all_weblogs ed component weblogs \<longleftrightarrow>
     set weblogs = component_weblogs ed component \<or> str_contains (hd weblogs) ''parametric-''"

definition comment_text :: "bool \<Rightarrow> string list \<Rightarrow> string \<Rightarrow> string" where
  "comment_text all weblogs v =
     ''Easy win for '' @ (if all then ''all weblogs'' else str_join '', '' (sort weblogs)) @ '' and version '' @ v"

text \<open>
  The entry that replaces a declaration written next to the rule; \<open>v\<close> is the version that passed.
\<close>

definition inline_entry :: "skip_declaration \<Rightarrow> bool \<Rightarrow> string list \<Rightarrow> string \<Rightarrow> raw_entry" where
  "inline_entry d all weblogs v =
     (if missing_feature_only d then
        (if all then RE_str (''>='' @ v)
         else RE_list [[(''weblog_declaration'',
           RV_map (fold (\<lambda>w. dset w (''>='' @ v)) weblogs [(''*'', skip_str d)]))]])
      else if all then RE_list [[(''declaration'', RV_str (skip_str d)), (''component_version'', RV_str (''<'' @ v))]]
      else RE_list
        [[(''declaration'', RV_str (skip_str d)), (''component_version'', RV_str (''<'' @ v)),
          (''weblog'', RV_list weblogs)],
         [(''declaration'', RV_str (skip_str d)), (''excluded_weblog'', RV_list weblogs)]])"

text \<open>
  The edit of a \<open>weblog_declaration\<close> for one weblog: keys that list several weblogs lose it, and it
  gets a key of its own.
\<close>

definition split_key :: "string \<Rightarrow> string \<Rightarrow> (string, string) dict \<Rightarrow> (string, string) dict res" where
  "split_key weblog key weblog_declaration =
     rbind (dgetitem weblog_declaration key) (\<lambda>original_value.
       let remaining = filter (\<lambda>w. w \<noteq> weblog) (parse_weblogs key);
           d = ddel key weblog_declaration
       in Inr (if remaining \<noteq> [] then dset (str_join '', '' remaining) original_value d else d))"

definition activate_weblog :: "string \<Rightarrow> string \<Rightarrow> (string, string) dict \<Rightarrow> (string, string) dict res" where
  "activate_weblog v weblog weblog_declaration =
     (let keys_to_split = filter (\<lambda>key. CHR '','' \<in> set key \<and> weblog \<in> set (parse_weblogs key))
            (dkeys weblog_declaration)
      in rbind (rfold (split_key weblog) keys_to_split weblog_declaration) (\<lambda>d.
           Inr (dset weblog (CHR ''v'' # v) d)))"

definition poke_weblogs ::
  "string \<Rightarrow> string \<Rightarrow> int \<Rightarrow> string \<Rightarrow> string list \<Rightarrow> raw_cond list \<Rightarrow> (string, string) dict \<Rightarrow>
     'c editor \<Rightarrow> 'c editor res" where
  "poke_weblogs component rule index v weblogs raw_data weblog_declaration ed =
     (let i = nat (if index < 0 then int (length raw_data) + index else index) in
      rbind (rfold (activate_weblog v) weblogs weblog_declaration) (\<lambda>m.
      rbind (set_raw_entry component rule
          (RE_list (raw_data[i := dset ''weblog_declaration'' (RV_map m) (raw_data ! i)])) ed) (\<lambda>ed'.
        Inr (fold (\<lambda>w. write_comment (At_weblog component rule i w) easy_win_comment) weblogs ed'))))"

definition write_poke_view ::
  "semver_lib \<Rightarrow> 'c set_order \<Rightarrow> 'c view \<times> context_data set \<Rightarrow> 'c editor \<Rightarrow> 'c editor res" where
  "write_poke_view L Q = (\<lambda>(v, contexts) ed.
     if v \<in> ed_skipped ed then Inr ed
     else
       rbind (cond_component (vw_condition v)) (\<lambda>component.
       rbind (raw_entry_of ed component (vw_rule v)) (\<lambda>raw_data.
       rbind (compress_pokes Q contexts) (\<lambda>(component_version, weblogs).
         let version = lib_str L component_version;
             all = all_weblogs ed component weblogs;
             place = At_rule component (vw_rule v);
             comment_only = (\<lambda>ed'. write_comment place (comment_text all weblogs version) ed')
         in
         if dhas (vw_condition v) ''excluded_component_version'' then Inr (comment_only ed)
         else if vw_inline v then
           rbind (cond_declaration (vw_condition v)) (\<lambda>d.
           rbind (set_raw_entry component (vw_rule v) (inline_entry d all weblogs version) ed) (\<lambda>ed'.
             Inr (write_comment place easy_win_comment ed')))
         else
           (case raw_data of
              RE_str s \<Rightarrow> rbind (list_index s (vw_index v)) (\<lambda>_. Inr (comment_only ed))
            | RE_list raw \<Rightarrow>
                rbind (list_index raw (vw_index v)) (\<lambda>raw_condition.
                  case dget raw_condition ''weblog_declaration'' of
                    Some (RV_map m) \<Rightarrow> poke_weblogs component (vw_rule v) (vw_index v) version weblogs raw m ed
                  | Some _ \<Rightarrow> Inl Type_Error
                  | None \<Rightarrow> Inr (comment_only ed)))))))"

definition write_poke :: "semver_lib \<Rightarrow> 'c set_order \<Rightarrow> 'c editor \<Rightarrow> 'c editor res" where
  "write_poke L Q ed =
     rbind (detect_skipped_views ed) (\<lambda>ed'. rfold (write_poke_view L Q) (ed_poked ed') ed')"

text \<open>The edits of \<open>write\<close>; the documents are then dumped, which is not modelled.\<close>

definition write_edits :: "semver_lib \<Rightarrow> 'c set_order \<Rightarrow> 'c editor \<Rightarrow> 'c editor res" where
  "write_edits L Q ed =
     rbind (detect_skipped_views ed) (\<lambda>ed1. rbind (write_new_rules Q ed1) (write_poke L Q))"

definition schema_line :: string where
  "schema_line = ''# yaml-language-server: $schema=https://raw.githubusercontent.com/DataDog/system-tests/refs/heads/main/utils/manifest/schema.json''"

definition final_text :: "string \<Rightarrow> string" where
  "final_text final_data = schema_line @ [nl] @ unwrap_key_anchors final_data"

subsection \<open>Anchors survive the editor\<close>

text \<open>A line whose key is an anchor, and the same line with the anchor in single quotes.\<close>

definition anchor_line :: "string \<Rightarrow> string \<Rightarrow> string \<Rightarrow> string \<Rightarrow> bool" where
  "anchor_line sp name sp2 rest \<longleftrightarrow> sp \<noteq> [] \<and> (\<forall>c \<in> set sp. is_space c) \<and> (\<forall>c \<in> set sp2. is_space c) \<and>
     (case name of [] \<Rightarrow> False | c # cs \<Rightarrow> ident_start c \<and> (\<forall>x \<in> set cs. ident_char x))"

lemma not_space [simp]:
  "\<not> is_space CHR ''*''" "\<not> is_space CHR '':''" "\<not> is_space CHR 0x27" "\<not> is_space CHR 0x22"
  by (simp_all add: is_space_def)

lemma not_ident [simp]: "\<not> ident_char CHR '':''" "\<not> ident_char CHR 0x27"
  by (simp_all add: ident_char_def ident_start_def is_lower_def is_upper_def is_digit_def)

lemma space_not_ident: "is_space c \<Longrightarrow> \<not> ident_char c"
  by (auto simp: is_space_def ident_char_def ident_start_def is_lower_def is_upper_def is_digit_def Let_def)

lemma anchor_free_anchor [simp]: "anchor_free anchor_re"
  by (simp add: anchor_re_def)

lemma firsts_anchor:
  assumes "case name of [] \<Rightarrow> False | c # cs \<Rightarrow> ident_start c \<and> (\<forall>x \<in> set cs. ident_char x)"
    and "s = [] \<or> \<not> ident_char (hd s)"
  shows "firsts anchor_re (i, (CHR ''*'' # name) @ s, g) (i + Suc (length name), s, g)"
proof -
  obtain c cs where n: "name = c # cs" "ident_start c" "\<forall>x \<in> set cs. ident_char x"
    using assms(1) by (auto split: list.splits)
  have "firsts (Lit ''*'') (i, ''*'' @ c # cs @ s, g) (i + length ''*'', c # cs @ s, g)" by (rule firsts_Lit)
  moreover have "firsts (Chr ident_start) (Suc i, c # cs @ s, g) (Suc (Suc i), cs @ s, g)"
    using n(2) by (rule firsts_Chr)
  moreover have "firsts (Star (Chr ident_char)) (Suc (Suc i), cs @ s, g) (Suc (Suc i) + length cs, s, g)"
    using n(3) assms(2) by (rule firsts_Star_run)
  ultimately show ?thesis
    unfolding anchor_re_def Seq.simps n(1) by (simp del: Lit.simps) (blast intro: firsts_Cat)
qed

lemma wrap_line_shape:
  assumes "anchor_line sp name sp2 rest"
  shows "wrap_line (sp @ (CHR ''*'' # name) @ sp2 @ CHR '':'' # rest) =
    sp @ CHR 0x27 # (CHR ''*'' # name) @ CHR 0x27 # sp2 @ CHR '':'' # rest"
proof -
  let ?s1 = "(CHR ''*'' # name) @ sp2 @ CHR '':'' # rest"
  let ?s2 = "sp2 @ CHR '':'' # rest"
  have a: "sp \<noteq> []" "\<forall>c \<in> set sp. is_space c" "\<forall>c \<in> set sp2. is_space c"
    and n: "case name of [] \<Rightarrow> False | c # cs \<Rightarrow> ident_start c \<and> (\<forall>x \<in> set cs. ident_char x)"
    using assms by (auto simp: anchor_line_def)
  have s2: "?s2 = [] \<or> \<not> ident_char (hd ?s2)"
    using a(3) space_not_ident by (cases sp2) auto
  have 0: "firsts Bos (0, sp @ ?s1, []) (0, sp @ ?s1, [])" by (simp add: firsts_def)
  have 1: "firsts (Grp 1 (Plus (Chr is_space))) (0, sp @ ?s1, []) (length sp, ?s1, [(1, sp)])"
    using firsts_Grp [OF firsts_Plus_run [OF a(1,2), of ?s1 0 "[]"], of 1] by simp
  let ?i2 = "length sp + Suc (length name)"
  have 2: "firsts (Grp 2 anchor_re) (length sp, ?s1, [(1, sp)]) (?i2, ?s2, [(2, CHR ''*'' # name), (1, sp)])"
    using firsts_Grp [OF firsts_anchor [OF n s2, of "length sp" "[(1, sp)]"], of 2] by simp
  let ?g2 = "[(2, CHR ''*'' # name), (1, sp)]"
  have 3: "firsts (Grp 3 (Star (Chr is_space))) (?i2, ?s2, ?g2)
      (?i2 + length sp2, CHR '':'' # rest, (3, sp2) # ?g2)"
    using firsts_Grp [OF firsts_Star_run [OF a(3), of "CHR '':'' # rest" ?i2 ?g2], of 3] by simp
  have 4: "firsts (Grp 4 (Lit '':'')) (?i2 + length sp2, CHR '':'' # rest, (3, sp2) # ?g2)
      (?i2 + length sp2 + 1, rest, (4, '':'') # (3, sp2) # ?g2)"
    using firsts_Grp [OF firsts_Lit [of "'':''" "?i2 + length sp2" rest "(3, sp2) # ?g2"], of 4] by simp
  have "firsts wrap_re (0, sp @ ?s1, []) (?i2 + length sp2 + 1, rest, (4, '':'') # (3, sp2) # ?g2)"
    unfolding wrap_re_def Seq.simps by (rule firsts_Cat [OF 0] firsts_Cat [OF 1] firsts_Cat [OF 2] firsts_Cat [OF 3] 4)+
  from firsts_match [OF this] show ?thesis
    by (simp add: wrap_line_def tpl_def re_group_def)
qed

lemma wrap_line_cases:
  obtains "wrap_line l = l"
  | sp name sp2 rest where "anchor_line sp name sp2 rest" "l = sp @ (CHR ''*'' # name) @ sp2 @ CHR '':'' # rest"
proof (cases "re_match wrap_re l")
  case None
  then show ?thesis using that(1) by (simp add: wrap_line_def)
next
  case (Some st)
  let ?r = "Seq [Grp 1 (Plus (Chr is_space)), Grp 2 anchor_re, Grp 3 (Star (Chr is_space)), Grp 4 (Lit '':'')]"
  have "ms wrap_re (0, l, []) = ms ?r (0, l, [])" by (simp add: wrap_re_def)
  with Some have "re_match ?r l \<noteq> None" by (simp add: re_match_def)
  moreover have "anchor_free ?r" by simp
  ultimately obtain u v where "u \<in> lang ?r" and l: "l = u @ v" using match_lang by blast
  then obtain sp a sp2 where u: "u = sp @ a @ sp2 @ '':''" "sp \<in> lang (Plus (Chr is_space))"
    "a \<in> lang anchor_re" "sp2 \<in> lang (Star (Chr is_space))"
    by (auto simp: in_lang_Cat simp del: lang_Plus_Chr lang_Star_Chr lang.simps(5))
  from u(3) obtain c cs where "a = CHR ''*'' # c # cs" "ident_start c" "\<forall>x \<in> set cs. ident_char x"
    by (auto simp: anchor_re_def in_lang_Cat lang_Star_Chr simp del: lang.simps(5))
  with u have "anchor_line sp (c # cs) sp2 v" "l = sp @ (CHR ''*'' # c # cs) @ sp2 @ CHR '':'' # v"
    by (auto simp: anchor_line_def l lang_Star_Chr simp del: lang.simps(5))
  then show ?thesis by (rule that(2))
qed

lemma unwrap_line_shape:
  assumes "anchor_line sp name sp2 rest"
  shows "unwrap_line (sp @ CHR 0x27 # (CHR ''*'' # name) @ CHR 0x27 # sp2 @ CHR '':'' # rest) =
    sp @ (CHR ''*'' # name) @ sp2 @ CHR '':'' # rest"
proof -
  let ?q = "CHR 0x27" and ?a = "CHR ''*'' # name"
  let ?s3 = "?q # sp2 @ CHR '':'' # rest"
  let ?s2 = "?a @ ?s3"
  let ?s1 = "?q # ?s2"
  have a: "sp \<noteq> []" "\<forall>c \<in> set sp. is_space c" "\<forall>c \<in> set sp2. is_space c"
    and n: "case name of [] \<Rightarrow> False | c # cs \<Rightarrow> ident_start c \<and> (\<forall>x \<in> set cs. ident_char x)"
    using assms by (auto simp: anchor_line_def)
  let ?i1 = "length sp" and ?g1 = "[(1, sp)]"
  let ?i2 = "?i1 + 1" and ?g2 = "(2, [?q]) # ?g1"
  let ?i3 = "?i2 + Suc (length name)" and ?g3 = "(3, ?a) # ?g2"
  let ?i4 = "?i3 + 1"
  let ?i5 = "?i4 + length sp2" and ?g5 = "(4, sp2) # ?g3"
  have 0: "firsts Bos (0, sp @ ?s1, []) (0, sp @ ?s1, [])" by (simp add: firsts_def)
  have 1: "firsts (Grp 1 (Plus (Chr is_space))) (0, sp @ ?s1, []) (?i1, ?s1, ?g1)"
    using firsts_Grp [OF firsts_Plus_run [OF a(1,2), of ?s1 0 "[]"], of 1] by simp
  have 2: "firsts (Grp 2 (Lit [?q])) (?i1, ?s1, ?g1) (?i2, ?s2, ?g2)"
    using firsts_Grp [OF firsts_Lit [of "[?q]" ?i1 ?s2 ?g1], of 2] by simp
  have 3: "firsts (Grp 3 anchor_re) (?i2, ?s2, ?g2) (?i3, ?s3, ?g3)"
    using firsts_Grp [OF firsts_anchor [OF n, of ?s3 ?i2 ?g2], of 3] by simp
  have 4: "firsts (Lit [?q]) (?i3, ?s3, ?g3) (?i4, sp2 @ CHR '':'' # rest, ?g3)"
    using firsts_Lit [of "[?q]" ?i3 "sp2 @ CHR '':'' # rest" ?g3] by simp
  have 5: "firsts (Grp 4 (Star (Chr is_space))) (?i4, sp2 @ CHR '':'' # rest, ?g3) (?i5, CHR '':'' # rest, ?g5)"
    using firsts_Grp [OF firsts_Star_run [OF a(3), of "CHR '':'' # rest" ?i4 ?g3], of 4] by simp
  have 6: "firsts (Grp 5 (Lit '':'')) (?i5, CHR '':'' # rest, ?g5) (?i5 + 1, rest, (5, '':'') # ?g5)"
    using firsts_Grp [OF firsts_Lit [of "'':''" ?i5 rest ?g5], of 5] by simp
  have q: "firsts (quoted_re ?q) (?i1, ?s1, ?g1) (?i5 + 1, rest, (5, '':'') # ?g5)"
    unfolding quoted_re_def Seq.simps
    by (rule firsts_Cat [OF 2] firsts_Cat [OF 3] firsts_Cat [OF 4] firsts_Cat [OF 5] 6)+
  have "firsts unwrap_re (0, sp @ ?s1, []) (?i5 + 1, rest, (5, '':'') # ?g5)"
    unfolding unwrap_re_def Seq.simps by (rule firsts_Cat [OF 0] firsts_Cat [OF 1] firsts_Alt_left [OF q])+
  from firsts_match [OF this] show ?thesis
    by (simp add: unwrap_line_def tpl_def re_group_def)
qed

definition quoted_line :: "string \<Rightarrow> bool" where
  "quoted_line l = (case re_match unwrap_re l of None \<Rightarrow> False | Some _ \<Rightarrow> True)"

lemma unwrap_wrap_line: "\<not> quoted_line l \<Longrightarrow> unwrap_line (wrap_line l) = l"
proof (cases rule: wrap_line_cases [of l])
  case 1
  then show "\<not> quoted_line l \<Longrightarrow> ?thesis" by (simp add: quoted_line_def unwrap_line_def split: option.splits)
next
  case (2 sp name sp2 rest)
  then show ?thesis by (simp only: wrap_line_shape unwrap_line_shape)
qed

text \<open>Lines without a break are read back from their join, unless the last one is empty.\<close>

lemma line_break_nl [simp]: "line_break nl"
  by (simp add: line_break_def nl_def)

lemma nl_not_return: "nl \<noteq> CHR 0x0D"
  by (simp add: nl_def)

lemma splitlines_unbroken: "x \<in> set (split_lines acc s) \<Longrightarrow> list_all (\<lambda>c. \<not> line_break c) acc \<Longrightarrow>
  list_all (\<lambda>c. \<not> line_break c) x"
proof (induction acc s rule: split_lines.induct)
  case (2 acc c cs)
  show ?case
  proof (cases "line_break c")
    case True
    with 2(3) have "x = rev acc \<or> x \<in> set (split_lines [] (if c = CHR 0x0D \<and> startswith cs [nl] then tl cs else cs))"
      by simp
    then show ?thesis
    proof
      assume "x = rev acc"
      with 2(4) show ?thesis by (simp only: list_all_rev)
    next
      assume "x \<in> set (split_lines [] (if c = CHR 0x0D \<and> startswith cs [nl] then tl cs else cs))"
      from 2(1) [OF True this] show ?thesis by simp
    qed
  next
    case False
    with 2 show ?thesis by simp
  qed
qed (simp split: if_splits)

lemma split_lines_run:
  "list_all (\<lambda>c. \<not> line_break c) x \<Longrightarrow> split_lines acc (x @ s) = split_lines (rev x @ acc) s"
  by (induction x arbitrary: acc) auto

lemma splitlines_join:
  assumes "\<forall>x \<in> set ls. list_all (\<lambda>c. \<not> line_break c) x" and "ls = [] \<or> last ls \<noteq> []"
  shows "splitlines (str_join [nl] ls) = ls"
  using assms
proof (induction ls rule: induct_list012)
  case (2 x)
  then show ?case using split_lines_run [of x "[]" "[]"] by (simp add: splitlines_def)
next
  case (3 x y ls)
  have "split_lines [] (x @ nl # str_join [nl] (y # ls)) = x # split_lines [] (str_join [nl] (y # ls))"
    using 3(3) split_lines_run [of x "[]" "nl # str_join [nl] (y # ls)"] nl_not_return by simp
  with 3 show ?case by (simp add: splitlines_def)
qed (simp add: splitlines_def)

lemma wrap_unbroken: "list_all (\<lambda>c. \<not> line_break c) l \<Longrightarrow> list_all (\<lambda>c. \<not> line_break c) (wrap_line l)"
proof (cases rule: wrap_line_cases [of l])
  case (2 sp name sp2 rest)
  then show "list_all (\<lambda>c. \<not> line_break c) l \<Longrightarrow> ?thesis"
    by (simp add: wrap_line_shape [simplified]) (simp add: line_break_def)
qed simp

lemma wrap_line_empty: "wrap_line l = [] \<longleftrightarrow> l = []"
proof (cases rule: wrap_line_cases [of l])
  case (2 sp name sp2 rest)
  then show ?thesis by (simp add: wrap_line_shape [simplified])
qed simp

text \<open>
  C38.  Anchors used as keys survive the editor.  The text of a manifest is wrapped before the YAML
  library reads it and unwrapped after it wrote it: for a text whose last line is not empty and
  none of whose keys is an anchor in quotes, unwrapping the wrapped text gives the lines back,
  joined by line feeds.
\<close>

theorem anchors_roundtrip:
  assumes "splitlines s = [] \<or> last (splitlines s) \<noteq> []" and "list_all (\<lambda>l. \<not> quoted_line l) (splitlines s)"
  shows "unwrap_key_anchors (wrap_key_anchors s) = str_join [nl] (splitlines s)"
proof -
  let ?ls = "splitlines s"
  have u: "\<forall>x \<in> set ?ls. list_all (\<lambda>c. \<not> line_break c) x"
    unfolding splitlines_def by (auto dest: splitlines_unbroken)
  have "splitlines (str_join [nl] (map wrap_line ?ls)) = map wrap_line ?ls"
    using u assms(1) by (intro splitlines_join) (auto simp: wrap_unbroken last_map wrap_line_empty)
  moreover have "map (unwrap_line \<circ> wrap_line) ?ls = ?ls"
    using assms(2) by (intro map_idI) (simp add: list_all_iff unwrap_wrap_line)
  ultimately show ?thesis by (simp add: unwrap_key_anchors_def wrap_key_anchors_def)
qed

definition sample_text :: string where
  "sample_text = ''manifest:'' @ [nl] @ ''  *django : v3.12.0'' @ [nl] @ ''  tests/a.py: bug (X-1)'' @ [nl]"

lemma anchors_roundtrip_witness:
  "wrap_key_anchors sample_text =
     ''manifest:'' @ [nl] @ ''  '' @ [CHR 0x27] @ ''*django'' @ [CHR 0x27] @ '' : v3.12.0'' @ [nl] @ ''  tests/a.py: bug (X-1)''
   \<and> unwrap_key_anchors (wrap_key_anchors sample_text) = str_join [nl] (splitlines sample_text)"
  by (intro conjI anchors_roundtrip) code_simp+

subsection \<open>Activating one weblog of a \<open>weblog_declaration\<close>\<close>

lemma str_strip_idem [simp]: "str_strip (str_strip s) = str_strip s"
  by (simp add: str_strip_def strip_by_idem)

lemma strip_subset: "set (str_strip s) \<subseteq> set s"
  by (auto simp: str_strip_def strip_by_def rstrip_by_def lstrip_by_def dest!: set_dropWhileD)

lemma parse_weblogs_items:
  assumes "x \<in> set (parse_weblogs key)"
  shows "CHR '','' \<notin> set x" and "str_strip x = x"
proof -
  from assms obtain y where y: "y \<in> set (str_split '','' key)" "x = str_strip y"
    by (auto simp: parse_weblogs_def)
  then have "CHR '','' \<notin> set y" using str_split_char_free [of y "CHR '',''" key] by simp
  then show "CHR '','' \<notin> set x" using strip_subset [of y] y(2) by blast
  show "str_strip x = x" using y(2) by simp
qed

lemma parse_weblogs_one: "CHR '','' \<notin> set w \<Longrightarrow> parse_weblogs w = [str_strip w]"
  by (simp add: parse_weblogs_def str_split_free)

lemma strip_split_blank: "map str_strip (str_split '','' (CHR '' '' # s)) = map str_strip (str_split '','' s)"
proof -
  have "str_strip (CHR '' '' # z) = str_strip z" for z
    by (simp add: str_strip_def strip_by_def lstrip_by_def is_space_def)
  moreover have "str_split '','' (CHR '' '' # s) = (CHR '' '' # hd (str_split '','' s)) # tl (str_split '','' s)"
    using split_go_hd [of "'',''" "CHR '' ''" "[]" s] split_go_tl [of "'',''" "CHR '' ''" "[]" s]
    by (cases "split_go '','' '' '' s") (auto simp: str_split_def)
  ultimately show ?thesis by (cases "str_split '','' s") auto
qed

lemma parse_weblogs_join:
  "ws \<noteq> [] \<Longrightarrow> (\<And>x. x \<in> set ws \<Longrightarrow> CHR '','' \<notin> set x \<and> str_strip x = x) \<Longrightarrow>
     parse_weblogs (str_join '', '' ws) = ws"
proof (induction ws rule: induct_list012)
  case (2 x)
  then show ?case by (simp add: parse_weblogs_one)
next
  case (3 x y ws)
  have "parse_weblogs (str_join '', '' (x # y # ws)) =
      str_strip x # map str_strip (str_split '','' (CHR '' '' # str_join '', '' (y # ws)))"
    using 3(4) [of x] str_split_Cons [of "CHR '',''" x] by (simp add: parse_weblogs_def)
  also have "\<dots> = x # parse_weblogs (str_join '', '' (y # ws))"
    using 3(4) [of x] by (simp add: strip_split_blank parse_weblogs_def)
  finally show ?case using 3 by simp
qed simp

text \<open>The values a \<open>weblog_declaration\<close> gives to a weblog, and what makes one tidy: no weblog is
  listed under two keys, and the keys are trimmed.\<close>

definition declared :: "(string, string) dict \<Rightarrow> string \<Rightarrow> string set" where
  "declared d x = {v. \<exists>key. dget d key = Some v \<and> x \<in> set (parse_weblogs key)}"

definition tidy :: "(string, string) dict \<Rightarrow> bool" where
  "tidy d \<longleftrightarrow> (\<forall>k1 \<in> set (dkeys d).
     (CHR '','' \<in> set k1 \<or> str_strip k1 = k1) \<and>
     (\<forall>k2 \<in> set (dkeys d). k1 = k2 \<or> list_all (\<lambda>x. x \<notin> set (parse_weblogs k2)) (parse_weblogs k1)))"

lemma tidyD:
  assumes "tidy d" and "dget d k1 = Some v1" and "dget d k2 = Some v2"
    and "x \<in> set (parse_weblogs k1)" and "x \<in> set (parse_weblogs k2)"
  shows "k1 = k2"
proof -
  have "k1 \<in> set (dkeys d)" "k2 \<in> set (dkeys d)" using assms(2,3) by (simp_all flip: dhas_keys add: dhas_def)
  then show ?thesis using assms(1,4,5) by (auto simp: tidy_def list_all_iff)
qed

lemma key_with_weblog:
  assumes "tidy d" and "CHR '','' \<notin> set w" and "dget d key = Some v" and "w \<in> set (parse_weblogs key)"
    and "CHR '','' \<notin> set key"
  shows "key = w"
proof -
  have "key \<in> set (dkeys d)" using assms(3) by (simp flip: dhas_keys add: dhas_def)
  then have "str_strip key = key" using assms(1,5) by (auto simp: tidy_def)
  with assms(4,5) show ?thesis by (simp add: parse_weblogs_one)
qed

lemma declared_single:
  assumes "dget d key = Some u" and "x \<in> set (parse_weblogs key)"
    and "\<And>k z. dget d k = Some z \<Longrightarrow> x \<in> set (parse_weblogs k) \<Longrightarrow> k = key"
  shows "declared d x = {u}"
proof (rule set_eqI)
  fix z
  have "z = u" if "dget d k = Some z" "x \<in> set (parse_weblogs k)" for k
    using that assms(1) assms(3) [OF that] by simp
  with assms(1,2) show "z \<in> declared d x \<longleftrightarrow> z \<in> {u}" unfolding declared_def by blast
qed

text \<open>
  C39.  Activating one weblog leaves the others alone.  Where each weblog is listed once, the edit of
  a \<open>weblog_declaration\<close> for one weblog succeeds, the weblog is then declared with the version that
  passed and nothing else, and every other weblog keeps exactly what it was declared with, also
  those that shared a key with it.
\<close>

theorem activate_weblog_spec:
  assumes "dict_wf d" and "tidy d" and "CHR '','' \<notin> set w" and "str_strip w = w"
  shows "\<exists>d'. activate_weblog v w d = Inr d' \<and>
    (\<forall>x. declared d' x = (if x = w then {CHR ''v'' # v} else declared d x))"
proof -
  let ?ks = "filter (\<lambda>key. CHR '','' \<in> set key \<and> w \<in> set (parse_weblogs key)) (dkeys d)"
  have w: "parse_weblogs w = [w]" using assms(3,4) by (simp add: parse_weblogs_one)
  have own: "declared (dset w (CHR ''v'' # v) d') w = {CHR ''v'' # v}"
    if only: "\<And>key u. dget d' key = Some u \<Longrightarrow> w \<in> set (parse_weblogs key) \<Longrightarrow> key = w" for d'
  proof (rule declared_single)
    show "dget (dset w (CHR ''v'' # v) d') w = Some (CHR ''v'' # v)" by simp
    show "w \<in> set (parse_weblogs w)" using w by simp
    show "key = w" if "dget (dset w (CHR ''v'' # v) d') key = Some z" "w \<in> set (parse_weblogs key)" for key z
      using that only [of key z] by (cases "key = w") simp_all
  qed
  have others: "declared (dset w (CHR ''v'' # v) d') x = declared d' x" if x: "x \<noteq> w" for d' x
  proof -
    have "x \<notin> set (parse_weblogs w)" using x w by simp
    then have "dget (dset w (CHR ''v'' # v) d') key = Some z \<and> x \<in> set (parse_weblogs key) \<longleftrightarrow>
        dget d' key = Some z \<and> x \<in> set (parse_weblogs key)" for key z
      by (cases "key = w") simp_all
    then show ?thesis by (simp add: declared_def)
  qed
  have distinct: "distinct ?ks" using assms(1) by (simp add: dict_wf_def dkeys_def)
  have same: "k1 = k2" if "k1 \<in> set ?ks" "k2 \<in> set ?ks" for k1 k2
    using that tidyD [OF assms(2)] by (auto simp flip: dhas_keys simp: dhas_def)
  show ?thesis
  proof (cases ?ks)
    case Nil
    have "key = w" if "dget d key = Some u" "w \<in> set (parse_weblogs key)" for key u
    proof -
      have "key \<in> set (dkeys d)" using that(1) by (simp flip: dhas_keys add: dhas_def)
      with Nil that(2) have "CHR '','' \<notin> set key" by (auto simp: filter_empty_conv)
      then show ?thesis using key_with_weblog [OF assms(2,3) that] by blast
    qed
    then show ?thesis using own [of d] others by (auto simp: activate_weblog_def Nil Let_def)
  next
    case (Cons key ks)
    have "ks = []"
    proof (rule ccontr)
      assume "ks \<noteq> []"
      then obtain k where "k \<in> set ks" by (cases ks) auto
      with Cons same distinct show False by (metis distinct.simps(2) list.set_intros)
    qed
    have key: "CHR '','' \<in> set key" "w \<in> set (parse_weblogs key)" "dhas d key"
      using Cons by (auto simp: dhas_keys dest: filter_eq_ConsD)
    then obtain u where u: "dget d key = Some u" by (auto simp: dhas_def)
    let ?r = "filter (\<lambda>x. x \<noteq> w) (parse_weblogs key)"
    let ?d = "if ?r \<noteq> [] then dset (str_join '', '' ?r) u (ddel key d) else ddel key d"
    have join: "parse_weblogs (str_join '', '' ?r) = ?r" if "?r \<noteq> []"
      using that parse_weblogs_items [of _ key] by (intro parse_weblogs_join) auto
    have result: "activate_weblog v w d = Inr (dset w (CHR ''v'' # v) ?d)"
      unfolding activate_weblog_def Let_def Cons \<open>ks = []\<close>
      by (simp add: split_key_def u dgetitem_def of_option_def Let_def)
    have "k = w" if k: "dget ?d k = Some z" "w \<in> set (parse_weblogs k)" for k z
    proof -
      have "k \<noteq> str_join '', '' ?r \<or> ?r = []"
      proof (rule ccontr)
        assume "\<not> ?thesis"
        with join have "parse_weblogs k = ?r" by blast
        then have "w \<in> set ?r" using k(2) by simp
        then show False by simp
      qed
      then have "k \<noteq> key" "dget d k = Some z" using k(1) by (auto split: if_splits)
      then show ?thesis using tidyD [OF assms(2) u _ key(2) k(2)] by blast
    qed
    then have w': "declared (dset w (CHR ''v'' # v) ?d) w = {CHR ''v'' # v}" by (rule own)
    have rest: "declared ?d x = declared d x" if x: "x \<noteq> w" for x
    proof (cases "x \<in> set (parse_weblogs key)")
      case True
      then have r: "?r \<noteq> []" "x \<in> set ?r" using x by (auto simp: filter_empty_conv)
      have "declared d x = {u}"
        by (rule declared_single [OF u True]) (metis tidyD [OF assms(2) _ u _ True])
      moreover have "declared ?d x = {u}"
      proof (rule declared_single)
        show "dget ?d (str_join '', '' ?r) = Some u" using r(1) by simp
        show "x \<in> set (parse_weblogs (str_join '', '' ?r))" using r join by metis
        show "k = str_join '', '' ?r" if "dget ?d k = Some z" "x \<in> set (parse_weblogs k)" for k z
        proof (rule ccontr)
          assume "k \<noteq> str_join '', '' ?r"
          then have "k \<noteq> key" "dget d k = Some z" using that(1) r(1) by (auto split: if_splits)
          then show False using tidyD [OF assms(2) _ u that(2) True] by blast
        qed
      qed
      ultimately show ?thesis by simp
    next
      case False
      have "dget ?d k = Some z \<and> x \<in> set (parse_weblogs k) \<longleftrightarrow> dget d k = Some z \<and> x \<in> set (parse_weblogs k)" for k z
      proof (cases "x \<in> set (parse_weblogs k)")
        case k: True
        then have "k \<noteq> key" using False by blast
        moreover have "k \<noteq> str_join '', '' ?r \<or> ?r = []"
        proof (rule ccontr)
          assume "\<not> ?thesis"
          with join have "parse_weblogs k = ?r" by blast
          then have "x \<in> set ?r" using k by simp
          then show False using False by simp
        qed
        ultimately have "dget ?d k = dget d k" by (auto split: if_splits)
        then show ?thesis by simp
      qed simp
      then show ?thesis by (simp only: declared_def)
    qed
    have "declared (dset w (CHR ''v'' # v) ?d) x = (if x = w then {CHR ''v'' # v} else declared d x)" for x
    proof (cases "x = w")
      case True
      show ?thesis unfolding True w' if_True by simp
    next
      case False
      show ?thesis unfolding others [OF False] rest [OF False] using False by simp
    qed
    with result show ?thesis by blast
  qed
qed

lemma activate_weblog_spec_witness:
  "\<exists>d'. activate_weblog ''1.2.0'' ''sinatra'' [(''*'', ''bug (X-1)''), (''rails70, sinatra'', ''v2.0.0'')] = Inr d' \<and>
    declared d' ''sinatra'' = {''v1.2.0''}"
proof -
  let ?d = "[(''*'', ''bug (X-1)''), (''rails70, sinatra'', ''v2.0.0'')]"
  have "dict_wf ?d" by (simp add: dict_wf_def)
  moreover have "tidy ?d" by code_simp
  moreover have "CHR '','' \<notin> set ''sinatra''" "str_strip ''sinatra'' = ''sinatra''" by code_simp+
  ultimately show ?thesis using activate_weblog_spec [of ?d "''sinatra''" "''1.2.0''"] by auto
qed

subsection \<open>A range of versions is written back inverted\<close>

text \<open>The condition for a weblog and a range of versions, a \<open>missing_feature\<close> without details, is
  written as a version next to the weblog.  But a version there is the range on which the test
  runs: read back, the range is the excluded one, and the test is switched off outside of it.
\<close>

theorem serialized_range_inverted:
  assumes "cond_weblogs c ''weblog'' = Some [w]" and "dget c ''component_version'' = Some (F_range R)"
    and "dget c ''declaration'' = Some (F_skip s)" and "missing_feature_only s"
    and "process_inline L N (Y_str (expression R)) component k = Inr (c', k')"
    and "declaration_init L N (Y_str (expression R)) component True k = Inr (d, k1)" and "\<not> dc_is_skip d"
  shows "serialize_condition c = Inr [(''weblog_declaration'', RV_map [(w, expression R)])] \<and>
    (\<exists>r. dc_value d = Dv_range r \<and> dget c' ''component_version'' = None \<and>
      dget c' ''excluded_component_version'' = Some (F_range r))"
proof -
  have "serialize_condition c = Inr [(''weblog_declaration'', RV_map [(w, expression R)])]"
    using assms(1-4) by (simp add: serialize_condition_def cond_declaration_def dgetitem_def of_option_def key_values_def)
  moreover from assms(5-7) obtain r where "dc_value d = Dv_range r"
    "dget c' ''component_version'' = None" "dget c' ''excluded_component_version'' = Some (F_range r)"
    by (auto simp: process_inline_def pbind_Inr_iff split: decl_value.splits yaml.splits)
  ultimately show ?thesis by blast
qed

definition sample_ranged :: "range list list cond_dict" where
  "sample_ranged =
     [(''component'', F_yaml (Y_str ''ruby'')), (''declaration'', F_skip \<lparr>sd_value = MISSING_FEATURE, sd_details = None\<rparr>),
      (''component_version'', F_range \<lparr>expression = ''<2'', clause = []\<rparr>), (''weblog'', F_yaml (Y_list [Y_str ''rails'']))]"

lemma serialized_range_inverted_witness:
  "serialize_condition sample_ranged = Inr [(''weblog_declaration'', RV_map [(''rails'', ''<2'')])] \<and>
   (\<exists>c' k' r. process_inline sample_lib sample_npm (Y_str ''<2'') ''ruby'' (\<lambda>_. {}) = Inr (c', k') \<and>
      dget c' ''component_version'' = None \<and> dget c' ''excluded_component_version'' = Some (F_range r))"
proof -
  let ?p = "process_inline sample_lib sample_npm (Y_str ''<2'') ''ruby'' (\<lambda>_. {})"
  let ?d = "declaration_init sample_lib sample_npm (Y_str ''<2'') ''ruby'' True (\<lambda>_. {})"
  let ?R = "\<lparr>expression = ''<2'', clause = []\<rparr> :: range list list semver_range"
  let ?s = "\<lparr>sd_value = MISSING_FEATURE, sd_details = None\<rparr>"
  have "is_ok ?p" and "case ?d of Inl _ \<Rightarrow> False | Inr (d, _) \<Rightarrow> \<not> dc_is_skip d" by code_simp+
  then obtain c' k' d k1 where p: "?p = Inr (c', k')" and d: "?d = Inr (d, k1)" "\<not> dc_is_skip d"
    by (auto simp: is_ok_def split: sum.splits)
  have e: "expression ?R = ''<2''" by simp
  have c: "cond_weblogs sample_ranged ''weblog'' = Some [''rails'']"
    "dget sample_ranged ''component_version'' = Some (F_range ?R)"
    "dget sample_ranged ''declaration'' = Some (F_skip ?s)" "missing_feature_only ?s"
    by (simp_all add: sample_ranged_def cond_weblogs_def str_items_def missing_feature_only_def)
  from serialized_range_inverted [OF c, unfolded e, OF p d] p show ?thesis by blast
qed

subsection \<open>Where a parsed condition comes from\<close>

text \<open>Without a \<open>weblog_declaration\<close> the place of a condition is its index.\<close>

lemma edit_loc_plain:
  assumes "list_all (\<lambda>c. dget c ''weblog_declaration'' = None) raw" and "i < j" and "j \<le> i + int (length raw)"
  shows "compute_edit_loc raw j i 0 b = (j, if raw = [] then b else False)"
  using assms
proof (induction raw arbitrary: i b)
  case (Cons c raw)
  show ?case
  proof (cases "i + 1 = j")
    case True
    with Cons.prems show ?thesis by (cases raw) auto
  next
    case False
    with Cons.prems Cons.IH [of "i + 1" False] show ?thesis by simp
  qed
qed auto

text \<open>The place of a condition is mistaken where a \<open>weblog_declaration\<close> is not the last entry of a
  rule.  An entry that declares \<open>n\<close> weblogs gives the parsed conditions \<open>0\<close> to \<open>n - 1\<close>, and the plain
  entry after it gives the condition \<open>n\<close>; but the conditions of the weblogs are located in the
  plain entry and the plain one in the \<open>weblog_declaration\<close>, where it is then edited.  Alone, and
  without a \<open>weblog_declaration\<close>, the places are the right ones.
\<close>

theorem edit_loc_confused:
  assumes "dget c ''weblog_declaration'' = Some (RV_map m)" and "m \<noteq> []"
    and "dget p ''weblog_declaration'' = None" and "j < length m"
  shows "compute_edit_loc [c, p] (int j) (-1) 0 False = (1, False) \<and>
    compute_edit_loc [c, p] (int (length m)) (-1) 0 False = (0, True) \<and>
    compute_edit_loc [c] (int j) (-1) 0 False = (0, True) \<and>
    compute_edit_loc [p, p] 0 (-1) 0 False = (0, False) \<and>
    compute_edit_loc [p, p] 1 (-1) 0 False = (1, False)"
  using assms edit_loc_plain [of "[p, p]" "-1"] by (auto simp: raw_val_len_def Let_def)

lemma edit_loc_confused_witness:
  "compute_edit_loc [[(''weblog_declaration'', RV_map [(''rails'', ''v1.0'')])], [(''declaration'', RV_str ''bug (X-1)'')]] 1 (-1) 0 False
     = (0, True)"
  using edit_loc_confused [of "[(''weblog_declaration'', RV_map [(''rails'', ''v1.0'')])]" "[(''rails'', ''v1.0'')]"
    "[(''declaration'', RV_str ''bug (X-1)'')]" 0] by (simp del: compute_edit_loc.simps)

end
