(* ===== verification/Easy_Wins.thy ===== *)
theory Easy_Wins
  imports Manifest_Editor
begin

section \<open>Activation of the tests that pass (\<open>scripts/activate_easy_wins\<close>)\<close>

text \<open>
  \<open>update_manifest\<close> joins the reports, the manifest and the editor: for each context it pokes the
  conditions that switch off a test that passed, and adds rules for the tests below them that still
  fail.  The logger counts what was done.
\<close>

subsection \<open>The logger\<close>

record activation_logger =
  lg_tests_per_language :: "(string, int) dict"
  lg_unique_tests :: "(string, string set) dict"
  lg_rules_by_level :: "(string, int) dict"
  lg_modified_rules :: "string set"
  lg_rule_to_tests :: "(string, string set) dict"
  lg_without_rules :: int
  lg_with_rules :: int
  lg_per_owner :: "(string, int) dict"

definition get_rule_level :: "string \<Rightarrow> string" where
  "get_rule_level rule =
     (let parts = str_split ''::'' rule in
      if str_contains rule ''::'' \<and> length parts = 2 then ''class''
      else if str_contains rule ''::'' \<and> length parts \<ge> 3 then ''function''
      else if endswith rule ''.py'' then ''file'' else ''dir'')"

definition logger_init :: activation_logger where
  "logger_init = \<lparr>lg_tests_per_language = [], lg_unique_tests = [],
     lg_rules_by_level = [(''dir'', 0), (''file'', 0), (''class'', 0), (''function'', 0)],
     lg_modified_rules = {}, lg_rule_to_tests = [], lg_without_rules = 0, lg_with_rules = 0,
     lg_per_owner = []\<rparr>"

definition total_tests_activated :: "activation_logger \<Rightarrow> int" where
  "total_tests_activated g = sum_list (map snd (lg_tests_per_language g))"

definition unique_tests_per_language_count :: "activation_logger \<Rightarrow> (string, int) dict" where
  "unique_tests_per_language_count g = map (\<lambda>(lang, tests). (lang, int (card tests))) (lg_unique_tests g)"

definition total_unique_tests :: "activation_logger \<Rightarrow> int" where
  "total_unique_tests g = sum_list (map snd (unique_tests_per_language_count g))"

definition total_modified_rules :: "activation_logger \<Rightarrow> int" where
  "total_modified_rules g = sum_list (map snd (lg_rules_by_level g))"

definition init_language :: "string \<Rightarrow> activation_logger \<Rightarrow> activation_logger" where
  "init_language library g =
     (if dhas (lg_tests_per_language g) library then g
      else g\<lparr>lg_tests_per_language := dset library 0 (lg_tests_per_language g),
        lg_unique_tests := dset library {} (lg_unique_tests g)\<rparr>)"

definition record_owner :: "string \<Rightarrow> activation_logger \<Rightarrow> activation_logger" where
  "record_owner owner g =
     (let n = (case dget (lg_per_owner g) owner of None \<Rightarrow> 0 | Some k \<Rightarrow> k)
      in g\<lparr>lg_per_owner := dset owner (n + 1) (lg_per_owner g)\<rparr>)"

definition record_rule :: "string \<Rightarrow> string \<Rightarrow> activation_logger \<Rightarrow> activation_logger res" where
  "record_rule node rule_str g =
     (let tests = (case dget (lg_rule_to_tests g) rule_str of None \<Rightarrow> {} | Some ts \<Rightarrow> ts);
          g' = g\<lparr>lg_rule_to_tests := dset rule_str (insert node tests) (lg_rule_to_tests g)\<rparr>
      in if rule_str \<in> lg_modified_rules g' then Inr g'
         else rbind (dgetitem (lg_rules_by_level g') (get_rule_level rule_str)) (\<lambda>n.
           Inr (g'\<lparr>lg_modified_rules := insert rule_str (lg_modified_rules g'),
             lg_rules_by_level := dset (get_rule_level rule_str) (n + 1) (lg_rules_by_level g')\<rparr>)))"

definition record_activation ::
  "string \<Rightarrow> string \<Rightarrow> string list \<Rightarrow> string list \<Rightarrow> activation_logger \<Rightarrow> activation_logger res" where
  "record_activation library node owners rules g =
     rbind (dgetitem (lg_tests_per_language g) library) (\<lambda>n.
     rbind (dgetitem (lg_unique_tests g) library) (\<lambda>tests.
       rfold (record_rule node) rules
         (fold record_owner owners
           (g\<lparr>lg_with_rules := lg_with_rules g + 1,
              lg_tests_per_language := dset library (n + 1) (lg_tests_per_language g),
              lg_unique_tests := dset library (insert node tests) (lg_unique_tests g)\<rparr>))))"

definition record_no_rule :: "activation_logger \<Rightarrow> activation_logger" where
  "record_no_rule g = g\<lparr>lg_without_rules := lg_without_rules g + 1\<rparr>"

subsection \<open>\<open>update_manifest\<close>\<close>

text \<open>\<open>suppress(KeyError)\<close>: a rule without a node in the trie adds no rules.\<close>

definition activate_view :: "'t trie_lib \<Rightarrow> 't \<Rightarrow> 'c view \<Rightarrow> 'c editor \<Rightarrow> 'c editor res" where
  "activate_view T t v ed =
     rbind (poke v ed) (\<lambda>ed'.
       case rbind (deactivations T t (vw_rule v)) (\<lambda>rules. add_rules rules v ed') of
         Inl Key_Error \<Rightarrow> Inr ed'
       | r \<Rightarrow> r)"

definition is_excluded_node ::
  "(string, string list) dict \<Rightarrow> string option \<Rightarrow> 't test_data \<Rightarrow> string \<Rightarrow> string \<Rightarrow> bool res" where
  "is_excluded_node skipped_nodes code_owner d library node =
     (let skipped = (\<lambda>k. case dget skipped_nodes k of None \<Rightarrow> [] | Some ns \<Rightarrow> ns) in
      if node \<in> set (skipped library @ skipped ''*'') then Inr True
      else rbind (dgetitem (td_owners d) node) (\<lambda>owners.
        let ref_owner = hd (sorted_list_of_set owners @ [[]])
        in Inr (code_owner \<noteq> None \<and> code_owner \<noteq> Some ref_owner)))"

definition activate_node ::
  "'t trie_lib \<Rightarrow> 'c set_order \<Rightarrow> (string, string list) dict \<Rightarrow> string option \<Rightarrow> context_data \<Rightarrow>
     't test_data \<Rightarrow> string \<Rightarrow> 'c editor \<times> activation_logger \<Rightarrow> ('c editor \<times> activation_logger) res" where
  "activate_node T Q skipped_nodes code_owner c d node = (\<lambda>(ed, g).
     rbind (is_excluded_node skipped_nodes code_owner d (ctx_library c) node) (\<lambda>excluded.
       if excluded then Inr (ed, g)
       else rbind (get_matches ed node) (\<lambda>views.
         if views = {} then Inr (ed, record_no_rule g)
         else
           let owners = (case dget (td_owners d) node of None \<Rightarrow> {} | Some os \<Rightarrow> os) in
           rbind (record_activation (ctx_library c) node (ord_strings Q owners)
               (map vw_rule (ord_views Q views)) g) (\<lambda>g'.
           rbind (rfold (activate_view T (td_trie d)) (ord_views Q views) ed) (\<lambda>ed'. Inr (ed', g'))))))"

definition update_manifest ::
  "'c npm_lib \<Rightarrow> 't trie_lib \<Rightarrow> 'c set_order \<Rightarrow> (context_data, 't test_data) dict \<Rightarrow>
     (string, string list) dict \<Rightarrow> string option \<Rightarrow> 'c editor \<Rightarrow> ('c editor \<times> activation_logger) res" where
  "update_manifest N T Q test_data skipped_nodes code_owner ed =
     rfold (\<lambda>(c, d) (ed', g).
         rbind (set_context N c ed') (\<lambda>ed''.
           rfold (activate_node T Q skipped_nodes code_owner c d) (ord_strings Q (td_xpass d))
             (ed'', init_language (ctx_library c) g)))
       test_data (ed, logger_init)"

text \<open>\<open>_owner_to_branch\<close> of \<open>__main__.py\<close>.\<close>

definition owner_to_branch :: "string \<Rightarrow> string list option \<Rightarrow> string" where
  "owner_to_branch owner components =
     (let name = last (str_split ''/'' owner);
          branch = ''easy-win/'' @ (if name = [] then ''no-code-owner'' else name)
      in case components of
           None \<Rightarrow> branch
         | Some [] \<Rightarrow> branch
         | Some cs \<Rightarrow> branch @ ''/'' @ str_join ''-'' (sort cs))"

subsection \<open>The counts of the report agree\<close>

definition counts_agree :: "activation_logger \<Rightarrow> bool" where
  "counts_agree g \<longleftrightarrow>
     total_tests_activated g = lg_with_rules g \<and>
     finite (lg_modified_rules g) \<and> total_modified_rules g = int (card (lg_modified_rules g)) \<and>
     lg_modified_rules g = set (dkeys (lg_rule_to_tests g)) \<and>
     dkeys (lg_unique_tests g) = dkeys (lg_tests_per_language g) \<and>
     dict_wf (lg_tests_per_language g) \<and> dict_wf (lg_rules_by_level g)"

lemma sum_dset:
  fixes d :: "('k, int) dict"
  assumes "dict_wf d" and "dget d k = Some n"
  shows "sum_list (map snd (dset k m d)) = sum_list (map snd d) - n + m"
  using assms by (induction d) (auto simp: dict_wf_def map_of_eq_None_iff split: if_splits)

lemma sum_dset_new:
  fixes d :: "('k, int) dict"
  shows "dget d k = None \<Longrightarrow> sum_list (map snd (dset k m d)) = sum_list (map snd d) + m"
  by (simp add: dset_new map_of_eq_None_iff)

lemma record_owners_fields:
  "counts_agree (fold record_owner owners g) = counts_agree g"
proof (induction owners arbitrary: g)
  case (Cons owner owners)
  have "counts_agree (record_owner owner g) = counts_agree g"
    by (simp add: counts_agree_def record_owner_def Let_def total_tests_activated_def total_modified_rules_def)
  with Cons show ?case by simp
qed simp

lemma record_rule_counts:
  assumes "record_rule node rule_str g = Inr g'" and "counts_agree g"
  shows "counts_agree g'"
proof -
  let ?level = "get_rule_level rule_str"
  let ?g = "g\<lparr>lg_rule_to_tests := dset rule_str (insert node
    (case dget (lg_rule_to_tests g) rule_str of None \<Rightarrow> {} | Some ts \<Rightarrow> ts)) (lg_rule_to_tests g)\<rparr>"
  show ?thesis
  proof (cases "rule_str \<in> lg_modified_rules g")
    case True
    with assms show ?thesis
      by (auto simp: record_rule_def Let_def counts_agree_def total_tests_activated_def
        total_modified_rules_def dkeys_dset)
  next
    case False
    with assms(1) obtain n where n: "dget (lg_rules_by_level g) ?level = Some n"
      and g': "g' = ?g\<lparr>lg_modified_rules := insert rule_str (lg_modified_rules g),
        lg_rules_by_level := dset ?level (n + 1) (lg_rules_by_level g)\<rparr>"
      by (auto simp: record_rule_def Let_def rbind_Inr_iff)
    have "sum_list (map snd (dset ?level (n + 1) (lg_rules_by_level g))) =
        sum_list (map snd (lg_rules_by_level g)) + 1"
      using sum_dset [OF _ n] assms(2) by (simp add: counts_agree_def)
    with False assms(2) show ?thesis
      by (auto simp: g' counts_agree_def total_tests_activated_def total_modified_rules_def dkeys_dset)
  qed
qed

lemma record_activation_counts:
  assumes "record_activation library node owners rules g = Inr g'" and "counts_agree g"
  shows "counts_agree g'"
proof -
  from assms(1) obtain n tests where n: "dget (lg_tests_per_language g) library = Some n"
    "dget (lg_unique_tests g) library = Some tests"
    and r: "rfold (record_rule node) rules (fold record_owner owners
      (g\<lparr>lg_with_rules := lg_with_rules g + 1,
         lg_tests_per_language := dset library (n + 1) (lg_tests_per_language g),
         lg_unique_tests := dset library (insert node tests) (lg_unique_tests g)\<rparr>)) = Inr g'"
    by (auto simp: record_activation_def rbind_Inr_iff)
  have "sum_list (map snd (dset library (n + 1) (lg_tests_per_language g))) =
      sum_list (map snd (lg_tests_per_language g)) + 1"
    using sum_dset [OF _ n(1)] assms(2) by (simp add: counts_agree_def)
  then have "counts_agree (g\<lparr>lg_with_rules := lg_with_rules g + 1,
         lg_tests_per_language := dset library (n + 1) (lg_tests_per_language g),
         lg_unique_tests := dset library (insert node tests) (lg_unique_tests g)\<rparr>)"
    using assms(2) by (auto simp: counts_agree_def total_tests_activated_def total_modified_rules_def dkeys_dset)
  then have start: "counts_agree (fold record_owner owners
      (g\<lparr>lg_with_rules := lg_with_rules g + 1,
         lg_tests_per_language := dset library (n + 1) (lg_tests_per_language g),
         lg_unique_tests := dset library (insert node tests) (lg_unique_tests g)\<rparr>))"
    by (simp only: record_owners_fields)
  show ?thesis by (rule rfold_invariant [OF r, of counts_agree, OF start]) (rule record_rule_counts)
qed

lemma activate_node_counts:
  assumes "activate_node T Q skipped code_owner c d node (ed, g) = Inr (ed', g')" and "counts_agree g"
  shows "counts_agree g'"
proof -
  have no_rule: "counts_agree (record_no_rule g)"
    using assms(2) by (simp add: record_no_rule_def counts_agree_def total_tests_activated_def total_modified_rules_def)
  from assms(1) obtain excluded where x: "is_excluded_node skipped code_owner d (ctx_library c) node = Inr excluded"
    by (auto simp: activate_node_def rbind_Inr_iff)
  show ?thesis
  proof (cases excluded)
    case True
    with assms x show ?thesis by (simp add: activate_node_def)
  next
    case False
    with assms(1) x obtain views where v: "get_matches ed node = Inr views"
      by (auto simp: activate_node_def rbind_Inr_iff)
    show ?thesis
    proof (cases "views = {}")
      case True
      with assms(1) x v False no_rule show ?thesis by (simp add: activate_node_def)
    next
      case views: False
      with assms(1) x v False obtain owners rules
        where "record_activation (ctx_library c) node owners rules g = Inr g'"
        by (auto simp: activate_node_def rbind_Inr_iff Let_def)
      then show ?thesis using record_activation_counts assms(2) by blast
    qed
  qed
qed

lemma init_language_counts: "counts_agree g \<Longrightarrow> counts_agree (init_language library g)"
  by (auto simp: init_language_def counts_agree_def total_tests_activated_def total_modified_rules_def
    dkeys_dset dhas_def sum_dset_new)

text \<open>The counts of the report agree with each other after every run: the activations per language
  add up to the tests for which a rule was found, each modified rule is counted once, in one level,
  and the rules that are listed with their tests are the modified ones.
\<close>

theorem update_manifest_counts:
  assumes "update_manifest N T Q test_data skipped_nodes code_owner ed = Inr (ed', g)"
  shows "total_tests_activated g = lg_with_rules g \<and>
    total_modified_rules g = int (card (lg_modified_rules g)) \<and>
    lg_modified_rules g = set (dkeys (lg_rule_to_tests g)) \<and>
    dkeys (lg_unique_tests g) = dkeys (lg_tests_per_language g)"
proof -
  have "counts_agree logger_init"
    by (simp add: logger_init_def counts_agree_def total_tests_activated_def total_modified_rules_def
      dkeys_def dict_wf_def)
  moreover have "counts_agree (snd y)"
    if "rfold (activate_node T Q skipped_nodes code_owner c d) nodes x = Inr y" "counts_agree (snd x)"
    for c d nodes x y
  proof (rule rfold_invariant [OF that(1), of "\<lambda>s. counts_agree (snd s)", OF that(2)])
    fix node u v
    assume "counts_agree (snd u)" "activate_node T Q skipped_nodes code_owner c d node u = Inr v"
    then show "counts_agree (snd v)" using activate_node_counts by (cases u; cases v) auto
  qed
  ultimately have "counts_agree (snd (ed', g))"
    using assms unfolding update_manifest_def
    by (rule_tac rfold_invariant [where I = "\<lambda>s. counts_agree (snd s)"])
       (auto simp: rbind_Inr_iff init_language_counts split: prod.splits)
  then show ?thesis by (simp add: counts_agree_def)
qed

definition sample_context :: context_data where
  "sample_context = \<lparr>ctx_library = ''ruby'', ctx_version = sample_version, ctx_variant = ''rails''\<rparr>"

definition sample_cond :: "range list list cond_dict" where
  "sample_cond = [(''component'', F_yaml (Y_str ''ruby'')),
     (''declaration'', F_skip \<lparr>sd_value = MISSING_FEATURE, sd_details = None\<rparr>)]"

definition sample_view :: "range list list view" where
  "sample_view = \<lparr>vw_rule = ''tests/a.py'', vw_condition = sample_cond, vw_index = 0, vw_clause = None,
     vw_inline = True\<rparr>"

definition sample_order :: "range list list set_order" where
  "sample_order = \<lparr>ord_strings = sorted_list_of_set, ord_contexts = (\<lambda>_. [sample_context]),
     ord_views = (\<lambda>_. [sample_view]), ord_sources = (\<lambda>_. [(sample_view, sample_context)])\<rparr>"

definition sample_editor :: "range list list editor" where
  "sample_editor = \<lparr>ed_raw = [(''ruby'', [(''tests/a.py'', RE_str ''missing_feature'')])], ed_comments = [],
     ed_data = [(''tests/a.py'', [sample_cond])],
     ed_manifest = \<lparr>mf_data = [], mf_rules = None, mf_tracker = [], mf_components = None\<rparr>,
     ed_context = None, ed_poked = [], ed_skipped = {}, ed_added = [], ed_weblogs = [(''ruby'', {''rails''})]\<rparr>"

definition sample_test_data :: "(string, activation_status) dict test_data" where
  "sample_test_data = fst (fold (parse_test list_trie None)
     [\<lparr>tr_owners = Some [''@o''], tr_outcome = ''xpassed'', tr_nodeid = ''tests/a.py::A''\<rparr>,
      \<lparr>tr_owners = None, tr_outcome = ''xfailed'', tr_nodeid = ''tests/a.py::B''\<rparr>] (test_data_init list_trie, {}))"

text \<open>
  A whole run: the declaration is poked, a rule for the failing test is added, and both are written.
\<close>

lemma sample_run:
  "(case update_manifest sample_npm list_trie sample_order [(sample_context, sample_test_data)] [] None sample_editor of
     Inl _ \<Rightarrow> False
   | Inr (ed', g) \<Rightarrow> lg_with_rules g = 1 \<and> dkeys (ed_poked ed') = [sample_view] \<and> dkeys (ed_added ed') = [''tests/a.py::B''])"
  by code_simp

lemma sample_written:
  "(case rbind (update_manifest sample_npm list_trie sample_order [(sample_context, sample_test_data)] [] None sample_editor)
      (\<lambda>(ed', g). write_edits sample_lib sample_order ed') of
     Inl _ \<Rightarrow> False
   | Inr ed' \<Rightarrow> ed_raw ed' =
       [(''ruby'', [(''tests/a.py'', RE_str ''>=1.2.3''), (''tests/a.py::B'', RE_str ''missing_feature'')])])"
  by code_simp

lemma update_manifest_counts_witness:
  "\<exists>ed' g. update_manifest sample_npm list_trie sample_order [(sample_context, sample_test_data)] [] None sample_editor =
     Inr (ed', g) \<and> total_tests_activated g = 1 \<and> total_modified_rules g = int (card (lg_modified_rules g))"
proof -
  from sample_run obtain ed' g where r: "update_manifest sample_npm list_trie sample_order
      [(sample_context, sample_test_data)] [] None sample_editor = Inr (ed', g)" "lg_with_rules g = 1"
    by (auto split: sum.splits)
  from update_manifest_counts [OF r(1)] r show ?thesis by auto
qed

end
