(* ===== verification/Workflow_Data.thy ===== *)
theory Workflow_Data
  imports Py_Json "HOL-Library.Multiset" "HOL-Library.Product_Lexorder"
begin

section \<open>Jobs of the CI workflow (ci\_orchestrators/workflow\_data.py)\<close>

text \<open>
  The weblogs of a library (\<open>WeblogMetaData\<close>), the matrices of the single step
  instrumentation scenarios and the end-to-end jobs: which weblog runs which scenario, how
  the scenarios of a weblog are packed into jobs of a desired duration, and how jobs are
  merged again when there are more of them than runners.

  Execution times are Python numbers: a type with a linear order and an addition and
  subtraction of which nothing is assumed, since floating-point addition is not
  associative.  The builtin \<open>sum\<close> of a list of times is the parameter \<open>fsum\<close>, and the
  iteration order of a \<open>set\<close> is a parameter too.
\<close>

subsection \<open>Weblogs\<close>

datatype build_mode = BM_none | BM_local | BM_prebuild

definition build_mode_names :: "(string \<times> build_mode) list" where
  "build_mode_names = [(''none'', BM_none), (''local'', BM_local), (''prebuild'', BM_prebuild)]"

datatype category =
  C_dd_trace | C_dd_trace_graphql | C_dd_trace_lambda | C_dd_trace_frameworks
| C_open_telemetry | C_parametric

definition category_names :: "(string \<times> category) list" where
  "category_names =
     [(''dd_trace'', C_dd_trace), (''dd_trace_graphql'', C_dd_trace_graphql),
      (''dd_trace_lambda'', C_dd_trace_lambda), (''dd_trace_frameworks'', C_dd_trace_frameworks),
      (''open_telemetry'', C_open_telemetry), (''parametric'', C_parametric)]"

record weblog =
  wb_name :: string
  wb_library :: string
  wb_build_mode :: build_mode
  wb_framework_versions :: "string list option"
  wb_artifact_name :: string
  wb_supported_scenarios :: "string list"
  wb_excluded_scenarios :: "string list"
  wb_categories :: "category list"
  wb_request_timeout :: "int option"

text \<open>
  The keyword arguments of an entry of \<open>weblog_metadata.yml\<close>.  A field of the dataclass that
  the file does not give keeps its default, an unknown one is a \<open>TypeError\<close>.
\<close>

definition weblog_fields :: "string list" where
  "weblog_fields = [''build_mode'', ''framework_versions'', ''artifact_name'', ''supported_scenarios'',
     ''excluded_scenarios'', ''categories'', ''request_timeout'']"

fun j_strings :: "json \<Rightarrow> string list res" where
  "j_strings (J_list xs) = rmap (\<lambda>x. case x of J_str s \<Rightarrow> Inr s | _ \<Rightarrow> Inl Type_Error) xs"
| "j_strings x = Inl Type_Error"

definition yaml_field :: "jobj \<Rightarrow> string \<Rightarrow> 'a \<Rightarrow> (json \<Rightarrow> 'a res) \<Rightarrow> 'a res" where
  "yaml_field kwargs k dflt conv = (case dget kwargs k of None \<Rightarrow> Inr dflt | Some v \<Rightarrow> conv v)"

fun j_option :: "(json \<Rightarrow> 'a res) \<Rightarrow> json \<Rightarrow> 'a option res" where
  "j_option conv J_null = Inr None"
| "j_option conv v = rbind (conv v) (\<lambda>x. Inr (Some x))"

fun j_integer :: "json \<Rightarrow> int res" where
  "j_integer (J_int i) = Inr i"
| "j_integer v = Inl Type_Error"

fun j_text :: "json \<Rightarrow> string res" where
  "j_text (J_str s) = Inr s"
| "j_text v = Inl Type_Error"

text \<open>\<open>WeblogBuildMode(value)\<close> and \<open>WeblogCategory[name]\<close> of \<open>__post_init__\<close>.\<close>

fun build_mode_of :: "json \<Rightarrow> build_mode res" where
  "build_mode_of (J_str s) = of_option Value_Error (map_of build_mode_names s)"
| "build_mode_of v = Inl Value_Error"

definition category_of :: "string \<Rightarrow> category res" where
  "category_of s = of_option Key_Error (map_of category_names s)"

definition weblog_of_yaml :: "string \<Rightarrow> string \<Rightarrow> jobj \<Rightarrow> weblog res" where
  "weblog_of_yaml name library kwargs =
     rbind (rassert (set (dkeys kwargs) \<subseteq> set weblog_fields) Type_Error) (\<lambda>_.
     rbind (yaml_field kwargs ''framework_versions'' None (j_option j_strings)) (\<lambda>versions.
     rbind (yaml_field kwargs ''artifact_name'' [] j_text) (\<lambda>artifact.
     rbind (yaml_field kwargs ''supported_scenarios'' [] j_strings) (\<lambda>supported.
     rbind (yaml_field kwargs ''excluded_scenarios'' [] j_strings) (\<lambda>excluded.
     rbind (yaml_field kwargs ''request_timeout'' None (j_option j_integer)) (\<lambda>timeout.
     rbind (yaml_field kwargs ''build_mode'' BM_prebuild build_mode_of) (\<lambda>mode.
     rbind (yaml_field kwargs ''categories'' [] (\<lambda>v. rbind (j_strings v) (rmap category_of))) (\<lambda>categories.
     Inr \<lparr>wb_name = name, wb_library = library, wb_build_mode = mode,
       wb_framework_versions = versions, wb_artifact_name = artifact,
       wb_supported_scenarios = supported, wb_excluded_scenarios = excluded,
       wb_categories = categories, wb_request_timeout = timeout\<rparr>))))))))"

definition require_build :: "weblog \<Rightarrow> bool" where
  "require_build w \<longleftrightarrow> wb_build_mode w \<noteq> BM_none"

definition support_scenario :: "weblog \<Rightarrow> string \<Rightarrow> category list \<Rightarrow> bool" where
  "support_scenario w scenario_name categories =
     (if scenario_name \<in> set (wb_excluded_scenarios w) then False
      else if scenario_name \<in> set (wb_supported_scenarios w) then True
      else \<exists>c \<in> set categories. c \<in> set (wb_categories w))"

text \<open>
  \<open>load\<close>: the weblogs with a Dockerfile in the folder (\<open>None\<close> when there is no folder, else
  the name of each entry and whether it is a file) and the ones that are only declared.  A
  weblog with framework versions gives one weblog per version.
\<close>

definition path_suffix :: "string \<Rightarrow> string" where
  "path_suffix name =
     (let parts = str_split ''.'' name in
      if length parts > 1 \<and> last parts \<noteq> [] \<and> butlast parts \<noteq> [''''] then ''.'' @ last parts else '''')"

definition dockerfile_weblogs :: "(string \<times> bool) list option \<Rightarrow> string list" where
  "dockerfile_weblogs folder =
     (case folder of
        None \<Rightarrow> []
      | Some entries \<Rightarrow>
          [str_replace ''.Dockerfile'' '''' name. (name, is_file) \<leftarrow> entries,
             path_suffix name = ''.Dockerfile'' \<and> \<not> str_contains name ''.base.'' \<and> is_file])"

definition load_explicit_metadata ::
  "string \<Rightarrow> (string, jobj) dict option \<Rightarrow> (string, weblog) dict res" where
  "load_explicit_metadata library file =
     (case file of
        None \<Rightarrow> Inr []
      | Some data \<Rightarrow> rmap (\<lambda>(name, kwargs). rbind (weblog_of_yaml name library kwargs) (\<lambda>w. Inr (name, w))) data)"

definition default_weblog :: "string \<Rightarrow> string \<Rightarrow> weblog" where
  "default_weblog name library =
     \<lparr>wb_name = name, wb_library = library, wb_build_mode = BM_prebuild, wb_framework_versions = None,
      wb_artifact_name = [], wb_supported_scenarios = [], wb_excluded_scenarios = [],
      wb_categories = [], wb_request_timeout = None\<rparr>"

definition weblog_items :: "(string, weblog) dict \<Rightarrow> string \<Rightarrow> string \<Rightarrow> weblog list" where
  "weblog_items metadata library name =
     (let item = (case dget metadata name of None \<Rightarrow> default_weblog name library | Some w \<Rightarrow> w) in
      case wb_framework_versions item of
        None \<Rightarrow> [item]
      | Some [] \<Rightarrow> [item]
      | Some versions \<Rightarrow> map (\<lambda>version. item\<lparr>wb_name := name @ ''@'' @ version\<rparr>) versions)"

definition load_weblogs ::
  "(string set \<Rightarrow> string list) \<Rightarrow> string \<Rightarrow> (string \<times> bool) list option \<Rightarrow> (string, jobj) dict option
     \<Rightarrow> weblog list res" where
  "load_weblogs order library folder file =
     rbind (load_explicit_metadata library file) (\<lambda>metadata.
       let names = dockerfile_weblogs folder @
             [wb_name w. w \<leftarrow> map snd metadata, wb_library w = library] in
       Inr (concat (map (weblog_items metadata library) (order (set names)))))"

subsection \<open>Matrices of the single step instrumentation scenarios\<close>

text \<open>
  An entry of a \<open>scenario_matrix\<close>: its scenarios, and its weblogs per language.  The
  scenarios of a run are given by their names.
\<close>

record matrix_entry =
  me_scenarios :: "string list"
  me_weblogs :: "(string, string list) dict list"

definition entry_weblogs :: "string \<Rightarrow> matrix_entry \<Rightarrow> string list" where
  "entry_weblogs language entry =
     concat (map (\<lambda>weblog_entry. case dget weblog_entry language of None \<Rightarrow> [] | Some ws \<Rightarrow> ws)
       (me_weblogs entry))"

text \<open>The pairs of a scenario and a weblog, in the order the nested loops visit them.\<close>

definition matrix_pairs ::
  "matrix_entry list \<Rightarrow> string list \<Rightarrow> string \<Rightarrow> (string \<times> string) list" where
  "matrix_pairs matrix scenarios language =
     concat (map (\<lambda>entry. concat (map (\<lambda>scenario.
         if scenario \<in> set (me_scenarios entry)
         then map (Pair scenario) (entry_weblogs language entry) else []) scenarios)) matrix)"

definition get_k8s_matrix ::
  "matrix_entry list \<Rightarrow> string list \<Rightarrow> string \<Rightarrow> (string, string list) dict" where
  "get_k8s_matrix matrix scenarios language =
     fold (\<lambda>(scenario, weblog). dextend scenario [weblog]) (matrix_pairs matrix scenarios language) []"

text \<open>
  \<open>results[scenario][weblog] = v\<close> and \<open>results[scenario][weblog].append(v)\<close> on nested
  default dictionaries.
\<close>

definition inner :: "(string, (string, 'v) dict) dict \<Rightarrow> string \<Rightarrow> (string, 'v) dict" where
  "inner results scenario = (case dget results scenario of None \<Rightarrow> [] | Some d \<Rightarrow> d)"

definition set2 :: "string \<Rightarrow> string \<Rightarrow> 'v \<Rightarrow> (string, (string, 'v) dict) dict \<Rightarrow> (string, (string, 'v) dict) dict" where
  "set2 scenario weblog v results = dset scenario (dset weblog v (inner results scenario)) results"

definition append2 ::
  "string \<Rightarrow> string \<Rightarrow> 'v \<Rightarrow> (string, (string, 'v list) dict) dict \<Rightarrow> (string, (string, 'v list) dict) dict" where
  "append2 scenario weblog v results =
     dset scenario (dextend weblog [v] (inner results scenario)) results"

definition cell :: "(string, (string, 'v list) dict) dict \<Rightarrow> string \<Rightarrow> string \<Rightarrow> 'v list" where
  "cell results scenario weblog = (case dget (inner results scenario) weblog of None \<Rightarrow> [] | Some vs \<Rightarrow> vs)"

definition get_k8s_injector_dev_matrix ::
  "matrix_entry list \<Rightarrow> string list \<Rightarrow> string \<Rightarrow> (string, (string, string list) dict) dict" where
  "get_k8s_injector_dev_matrix matrix scenarios language =
     fold (\<lambda>(scenario, weblog). set2 scenario weblog []) (matrix_pairs matrix scenarios language) []"

subsubsection \<open>Virtual machines\<close>

record vm =
  vm_name :: string
  vm_os_type :: string
  vm_os_branch :: string
  vm_disabled :: bool

record vm_weblog_spec =
  ws_name :: string
  ws_excluded_os_branches :: "string list"
  ws_exact_os_branches :: "string list"
  ws_excluded_os_names :: "string list"
  ws_excluded_os_types :: "string list"

fun get_weblog_spec :: "('w \<Rightarrow> string) \<Rightarrow> 'w list \<Rightarrow> string \<Rightarrow> 'w res" where
  "get_weblog_spec name_of [] weblog_name = Inl Value_Error"
| "get_weblog_spec name_of (entry # weblogs_spec) weblog_name =
     (if weblog_name = name_of entry then Inr entry else get_weblog_spec name_of weblogs_spec weblog_name)"

definition should_add_vm :: "vm_weblog_spec \<Rightarrow> vm \<Rightarrow> bool" where
  "should_add_vm spec m =
     (let exact = ws_exact_os_branches spec;
          excluded = ws_excluded_os_branches spec;
          excluded_names = ws_excluded_os_names spec;
          excluded_types = ws_excluded_os_types spec;
          add = True;
          add = (if exact \<noteq> [] \<and> vm_os_branch m \<notin> set exact then False else add);
          add = (if excluded \<noteq> [] \<and> vm_os_branch m \<in> set excluded then False else add);
          add = (if excluded_names \<noteq> [] \<and> vm_name m \<in> set excluded_names then False else add);
          add = (if excluded_types \<noteq> [] \<and> vm_os_type m \<in> set excluded_types then False else add)
      in add)"

definition get_aws_matrix ::
  "vm list \<Rightarrow> matrix_entry list \<Rightarrow> (string, vm_weblog_spec list) dict \<Rightarrow> string list \<Rightarrow> string
     \<Rightarrow> (string, (string, string list) dict) dict res" where
  "get_aws_matrix raw_virtual_machines matrix weblogs_specs scenarios language =
     (let virtual_machines = filter (\<lambda>m. \<not> vm_disabled m) raw_virtual_machines in
      case dget weblogs_specs language of
        None \<Rightarrow> Inr []
      | Some weblogs_spec \<Rightarrow>
          rfold (\<lambda>(scenario, weblog) results.
              rbind (get_weblog_spec ws_name weblogs_spec weblog) (\<lambda>spec.
                Inr (fold (\<lambda>m. append2 scenario weblog (vm_name m))
                  (filter (should_add_vm spec) virtual_machines) results)))
            (matrix_pairs matrix scenarios language) [])"

subsubsection \<open>Docker images\<close>

record runtime =
  rt_version_id :: string
  rt_version :: string

record image =
  im_name :: string
  im_image :: string
  im_architecture :: string

record supported_image =
  si_name :: string
  si_allowed_runtime_versions :: "string list"

record docker_weblog_spec =
  dw_name :: string
  dw_supported_images :: "supported_image list"

record docker_cell =
  dc_image :: string
  dc_runtimes :: "string list"
  dc_arch :: string

definition allowed_runtimes :: "runtime list \<Rightarrow> string list \<Rightarrow> string list res" where
  "allowed_runtimes runtimes allowed_versions =
     (if allowed_versions = [] then Inr ['''']
      else if ''*'' \<in> set allowed_versions then Inr (map rt_version runtimes)
      else
        (let runtime_map = fold (\<lambda>rt. dset (rt_version_id rt) (rt_version rt)) runtimes [] in
         rmap (\<lambda>runtime_id. of_option Value_Error (dget runtime_map runtime_id)) allowed_versions))"

text \<open>\<open>next\<close> of a generator with no element raises \<open>StopIteration\<close>.\<close>

definition find_image :: "image list \<Rightarrow> string \<Rightarrow> (string \<times> string) res" where
  "find_image images name =
     (case find (\<lambda>img. im_name img = name) images of
        None \<Rightarrow> Inl Stop_Iteration
      | Some img \<Rightarrow> if im_image img = [] then Inl Value_Error else Inr (im_image img, im_architecture img))"

definition docker_cell_of :: "runtime list \<Rightarrow> image list \<Rightarrow> supported_image \<Rightarrow> docker_cell res" where
  "docker_cell_of runtimes images s =
     rbind (allowed_runtimes runtimes (si_allowed_runtime_versions s)) (\<lambda>rs.
     rbind (find_image images (si_name s)) (\<lambda>(ref, arch).
       Inr \<lparr>dc_image = ref, dc_runtimes = rs, dc_arch = arch\<rparr>))"

definition get_docker_ssi_matrix ::
  "image list \<Rightarrow> (string, runtime list) dict \<Rightarrow> matrix_entry list \<Rightarrow> (string, docker_weblog_spec list) dict
     \<Rightarrow> string list \<Rightarrow> string \<Rightarrow> (string, (string, docker_cell list) dict) dict res" where
  "get_docker_ssi_matrix images runtimes matrix weblogs_specs scenarios language =
     (case dget weblogs_specs language of
        None \<Rightarrow> Inr []
      | Some [] \<Rightarrow> Inr []
      | Some weblogs_spec \<Rightarrow>
          (let rts = (case dget runtimes language of None \<Rightarrow> [] | Some rs \<Rightarrow> rs) in
           rfold (\<lambda>(scenario, weblog) results.
               rbind (get_weblog_spec dw_name weblogs_spec weblog) (\<lambda>spec.
                 rfold (\<lambda>s results.
                     rbind (docker_cell_of rts images s) (\<lambda>c. Inr (append2 scenario weblog c results)))
                   (dw_supported_images spec) results))
             (matrix_pairs matrix scenarios language) []))"

subsection \<open>Jobs\<close>

record 'f job =
  jb_library :: string
  jb_weblog :: weblog
  jb_instance :: nat
  jb_times :: "(string, 'f) dict"
  jb_build_time :: 'f

definition expected_job_time :: "('f list \<Rightarrow> 'f) \<Rightarrow> 'f job \<Rightarrow> 'f" where
  "expected_job_time fsum j = fsum (map snd (jb_times j))"

definition get_scenario_time :: "'f job \<Rightarrow> string \<Rightarrow> 'f res" where
  "get_scenario_time j scenario = dgetitem (jb_times j) scenario"

definition append_scenario :: "string \<Rightarrow> 'f \<Rightarrow> 'f job \<Rightarrow> 'f job res" where
  "append_scenario scenario execution_time j =
     (if dhas (jb_times j) scenario then Inl Assertion_Error
      else Inr (j\<lparr>jb_times := dset scenario execution_time (jb_times j)\<rparr>))"

record 'f job_def =
  jd_runs_on :: string
  jd_library :: string
  jd_weblog :: string
  jd_weblog_build_required :: bool
  jd_weblog_instance :: nat
  jd_scenarios :: "string list"
  jd_expected_job_time :: 'f
  jd_binaries_artifact :: string

definition serialize_job :: "('f::plus list \<Rightarrow> 'f) \<Rightarrow> 'f job \<Rightarrow> 'f job_def" where
  "serialize_job fsum j =
     \<lparr>jd_runs_on = ''ubuntu-latest'', jd_library = jb_library j, jd_weblog = wb_name (jb_weblog j),
      jd_weblog_build_required = require_build (jb_weblog j), jd_weblog_instance = jb_instance j,
      jd_scenarios = sort (dkeys (jb_times j)),
      jd_expected_job_time = expected_job_time fsum j + jb_build_time j,
      jd_binaries_artifact = wb_artifact_name (jb_weblog j)\<rparr>"

subsubsection \<open>Packing scenarios: first fit decreasing\<close>

record 'f backpack =
  bp_scenarios :: "string list"
  bp_time :: 'f

definition new_backpack :: "string \<Rightarrow> 'f \<Rightarrow> 'f backpack" where
  "new_backpack scenario execution_time = \<lparr>bp_scenarios = [scenario], bp_time = execution_time\<rparr>"

text \<open>The loop over the backpacks: the first one with room takes the scenario.\<close>

fun place :: "'f::{linorder,plus} \<Rightarrow> string \<Rightarrow> 'f \<Rightarrow> 'f backpack list \<Rightarrow> 'f backpack list option" where
  "place desired scenario execution_time [] = None"
| "place desired scenario execution_time (b # bs) =
     (if bp_time b + execution_time \<le> desired
      then Some (b\<lparr>bp_scenarios := bp_scenarios b @ [scenario], bp_time := bp_time b + execution_time\<rparr> # bs)
      else map_option (Cons b) (place desired scenario execution_time bs))"

fun pack_step :: "'f::{linorder,plus} \<Rightarrow> string \<times> 'f \<Rightarrow> 'f backpack list \<Rightarrow> 'f backpack list" where
  "pack_step desired (scenario, execution_time) backpacks =
     (if execution_time > desired \<or> length backpacks = 0
      then backpacks @ [new_backpack scenario execution_time]
      else (case place desired scenario execution_time backpacks of
              Some placed \<Rightarrow> placed
            | None \<Rightarrow> backpacks @ [new_backpack scenario execution_time]))"

text \<open>\<open>sorted(xs, key=key, reverse=True)\<close> keeps the order of the elements with equal keys.\<close>

definition sorted_reverse :: "('a \<Rightarrow> 'k::linorder) \<Rightarrow> 'a list \<Rightarrow> 'a list" where
  "sorted_reverse key xs = rev (sort_key key (rev xs))"

definition split_scenarios_for_parallel_execution ::
  "(string, 'f::{linorder,plus}) dict \<Rightarrow> 'f \<Rightarrow> string list list" where
  "split_scenarios_for_parallel_execution scenario_times desired =
     map bp_scenarios (fold (pack_step desired) (sorted_reverse snd scenario_times) [])"

definition split_for_parallel_execution ::
  "'f::{linorder,plus,minus} job \<Rightarrow> 'f \<Rightarrow> 'f job list res" where
  "split_for_parallel_execution j desired =
     rmap (\<lambda>(i, scenarios).
         rbind (rmap (\<lambda>s. rbind (get_scenario_time j s) (\<lambda>t. Inr (s, t))) scenarios) (\<lambda>items.
           Inr \<lparr>jb_library = jb_library j, jb_weblog = jb_weblog j, jb_instance = i + 1,
                jb_times = fold (\<lambda>(s, t). dset s t) items [], jb_build_time = jb_build_time j\<rparr>))
       (enumerate 0 (split_scenarios_for_parallel_execution (jb_times j) (desired - jb_build_time j)))"

subsubsection \<open>Merging jobs back\<close>

text \<open>
  The jobs are mutable objects: \<open>result\<close>, the sorted list the loop runs over and
  \<open>weblog_jobs\<close> hold references to the same jobs, and a job that received scenarios can be
  deleted later in the same pass.  The store is the list of job objects, a reference is an
  index; \<open>list.remove\<close> compares jobs by identity, weblogs are compared field by field.
\<close>

type_synonym 'f heap = "'f job list"

text \<open>\<open>min(xs, key=key)\<close>: the first of the smallest, a \<open>ValueError\<close> when there is none.\<close>

fun min_by :: "('a \<Rightarrow> 'k::linorder) \<Rightarrow> 'a list \<Rightarrow> 'a res" where
  "min_by key [] = Inl Value_Error"
| "min_by key (x # xs) = Inr (fold (\<lambda>y m. if key y < key m then y else m) xs x)"

definition give_scenario ::
  "('f::linorder list \<Rightarrow> 'f) \<Rightarrow> nat list \<Rightarrow> nat \<Rightarrow> string \<Rightarrow> 'f heap \<Rightarrow> 'f heap res" where
  "give_scenario fsum weblog_jobs deleted scenario h =
     rbind (min_by (\<lambda>a. expected_job_time fsum (h ! a)) weblog_jobs) (\<lambda>fastest.
     rbind (get_scenario_time (h ! deleted) scenario) (\<lambda>t.
     rbind (append_scenario scenario t (h ! fastest)) (\<lambda>j.
       Inr (h[fastest := j]))))"

definition delete_job ::
  "('f::linorder list \<Rightarrow> 'f) \<Rightarrow> nat \<Rightarrow> 'f heap \<times> nat list \<Rightarrow> ('f heap \<times> nat list) res" where
  "delete_job fsum a = (\<lambda>(h, result).
     let weblog_jobs = filter (\<lambda>b. jb_weblog (h ! b) = jb_weblog (h ! a)) result in
     rbind (rfold (give_scenario fsum (remove1 a weblog_jobs) a) (dkeys (jb_times (h ! a))) h) (\<lambda>h'.
       Inr (h', remove1 a result)))"

fun delete_pass ::
  "('f::linorder list \<Rightarrow> 'f) \<Rightarrow> nat \<Rightarrow> nat list \<Rightarrow> 'f heap \<times> nat list \<Rightarrow> ('f heap \<times> nat list) res" where
  "delete_pass fsum maximum [] s = Inr s"
| "delete_pass fsum maximum (a # as) s =
     rbind (delete_job fsum a s) (\<lambda>s'.
       if length (snd s') \<le> maximum then Inr s' else delete_pass fsum maximum as s')"

text \<open>The \<open>while\<close> loop: \<open>None\<close> is a loop that never ends.\<close>

partial_function (option) merge_loop ::
  "('f::linorder list \<Rightarrow> 'f) \<Rightarrow> nat \<Rightarrow> 'f heap \<times> nat list \<Rightarrow> ('f heap \<times> nat list) res option" where
  "merge_loop fsum maximum s =
     (if length (snd s) > maximum then
        (case delete_pass fsum maximum (sorted_reverse (\<lambda>a. jb_instance (fst s ! a)) (snd s)) s of
           Inl e \<Rightarrow> Some (Inl e)
         | Inr s' \<Rightarrow> merge_loop fsum maximum s')
      else Some (Inr s))"

definition split_jobs_for_parallel_execution ::
  "('f::{linorder,plus,minus} list \<Rightarrow> 'f) \<Rightarrow> 'f job list \<Rightarrow> 'f \<Rightarrow> nat \<Rightarrow> 'f job list res option" where
  "split_jobs_for_parallel_execution fsum jobs desired maximum =
     (case rmap (\<lambda>j. split_for_parallel_execution j desired) jobs of
        Inl e \<Rightarrow> Some (Inl e)
      | Inr split \<Rightarrow>
          (let h = concat split in
           map_option (\<lambda>r. rbind r (\<lambda>(h', result). Inr (map (\<lambda>a. h' ! a) result)))
             (merge_loop fsum maximum (h, [0..<length h]))))"

subsection \<open>End-to-end definitions\<close>

text \<open>
  \<open>time-stats.json\<close>: nested tables whose entry \<open>*\<close> is the fallback.  Indexing or searching
  a number is a \<open>TypeError\<close>, and so is using a table as a number.
\<close>

datatype 'f stat = Stat_time 'f | Stat_table "(string \<times> 'f stat) list"

fun stat_item :: "string \<Rightarrow> 'f stat \<Rightarrow> 'f stat res" where
  "stat_item k (Stat_table d) = dgetitem d k"
| "stat_item k (Stat_time t) = Inl Type_Error"

fun stat_has :: "string \<Rightarrow> 'f stat \<Rightarrow> bool res" where
  "stat_has k (Stat_table d) = Inr (dhas d k)"
| "stat_has k (Stat_time t) = Inl Type_Error"

fun stat_number :: "'f stat \<Rightarrow> 'f res" where
  "stat_number (Stat_time t) = Inr t"
| "stat_number (Stat_table d) = Inl Type_Error"

definition get_build_time :: "string \<Rightarrow> weblog \<Rightarrow> 'f::zero stat \<Rightarrow> 'f res" where
  "get_build_time library w build_stats =
     (if wb_build_mode w \<noteq> BM_prebuild then Inr 0
      else rbind (stat_has library build_stats) (\<lambda>known.
        if \<not> known then rbind (stat_item ''*'' build_stats) stat_number
        else rbind (stat_item library build_stats) (\<lambda>of_library.
          rbind (stat_has (wb_name w) of_library) (\<lambda>known.
            if \<not> known then rbind (stat_item ''*'' of_library) stat_number
            else rbind (stat_item (wb_name w) of_library) stat_number))))"

definition get_execution_time :: "string \<Rightarrow> string \<Rightarrow> string \<Rightarrow> 'f stat \<Rightarrow> 'f res" where
  "get_execution_time library weblog_name scenario run_stats =
     rbind (stat_has scenario run_stats) (\<lambda>known.
       if \<not> known then rbind (stat_item ''*'' run_stats) stat_number
       else rbind (stat_item scenario run_stats) (\<lambda>of_scenario.
         rbind (stat_has library of_scenario) (\<lambda>known.
           if \<not> known then rbind (stat_item ''*'' of_scenario) stat_number
           else rbind (stat_item library of_scenario) (\<lambda>of_library.
             rbind (stat_has weblog_name of_library) (\<lambda>known.
               if \<not> known then rbind (stat_item ''*'' of_library) stat_number
               else rbind (stat_item weblog_name of_library) stat_number)))))"

text \<open>
  The attributes of a \<open>Scenario\<close> the workflow depends on; a group is given by its name, and
  the last two attributes are those of the Kubernetes scenarios, false for the others.
\<close>

record scenario =
  sc_name :: string
  sc_weblog_categories :: "category list"
  sc_github_workflow :: "string option"
  sc_scenario_groups :: "string list"
  sc_with_datadog_operator :: bool
  sc_with_cluster_agent :: bool

definition filter_scenarios :: "(scenario set \<Rightarrow> scenario list) \<Rightarrow> scenario list \<Rightarrow> weblog \<Rightarrow> scenario list" where
  "filter_scenarios order scenarios w =
     sort_key sc_name
       (filter (\<lambda>s. support_scenario w (sc_name s) (sc_weblog_categories s)) (order (set scenarios)))"

definition get_endtoend_weblogs ::
  "weblog list \<Rightarrow> string \<Rightarrow> string list \<Rightarrow> string \<Rightarrow> string \<Rightarrow> string \<Rightarrow> weblog list" where
  "get_endtoend_weblogs loaded library weblogs_filter unique_id ci_environment binaries_artifact =
     (let weblogs = (if length weblogs_filter \<noteq> 0 then filter (\<lambda>w. wb_name w \<in> set weblogs_filter) loaded else loaded);
          weblogs = map (\<lambda>w. w\<lparr>wb_artifact_name :=
              if wb_build_mode w = BM_prebuild
              then ''binaries_'' @ ci_environment @ ''_'' @ library @ ''_'' @ wb_name w @ ''_'' @ unique_id
              else binaries_artifact\<rparr>) weblogs;
          weblogs = (if ci_environment = ''prod''
              then filter (\<lambda>w. wb_name w \<notin> {''net-http-span-pool'', ''php-fpm-8.6''}) weblogs else weblogs)
      in sort_key wb_name weblogs)"

record 'f time_stats =
  ts_build :: "'f stat"
  ts_run :: "'f stat"

text \<open>The job of a weblog before any split, if it has scenarios.\<close>

definition first_job ::
  "(scenario set \<Rightarrow> scenario list) \<Rightarrow> string \<Rightarrow> scenario list \<Rightarrow> 'f::zero time_stats \<Rightarrow> weblog
     \<Rightarrow> 'f job list res" where
  "first_job order library scenarios stats w =
     (let supported = filter_scenarios order scenarios w in
      if length supported > 0 then
        rbind (rmap (\<lambda>s. rbind (get_execution_time library (wb_name w) (sc_name s) (ts_run stats)) (\<lambda>t.
            Inr (sc_name s, t))) supported) (\<lambda>items.
        rbind (get_build_time library w (ts_build stats)) (\<lambda>b.
          Inr [\<lparr>jb_library = library, jb_weblog = w, jb_instance = 1,
                jb_times = fold (\<lambda>(s, t). dset s t) items [], jb_build_time = b\<rparr>]))
      else Inr [])"

text \<open>The jobs of all weblogs, split when a duration is asked for, sorted by weblog and instance.\<close>

definition endtoend_jobs ::
  "(scenario set \<Rightarrow> scenario list) \<Rightarrow> ('f::{linorder,plus,minus,zero} list \<Rightarrow> 'f) \<Rightarrow> string
     \<Rightarrow> scenario list \<Rightarrow> 'f time_stats \<Rightarrow> weblog list \<Rightarrow> 'f \<Rightarrow> nat \<Rightarrow> 'f job list res option" where
  "endtoend_jobs order fsum library scenarios stats weblogs desired maximum =
     (if \<not> maximum \<ge> length weblogs then Some (Inl Assertion_Error)
      else (case rmap (first_job order library scenarios stats) weblogs of
              Inl e \<Rightarrow> Some (Inl e)
            | Inr per_weblog \<Rightarrow>
                map_option (\<lambda>r. rbind r (\<lambda>js. Inr (sort_key (\<lambda>j. (wb_name (jb_weblog j), jb_instance j)) js)))
                  (if desired > 0 then split_jobs_for_parallel_execution fsum (concat per_weblog) desired maximum
                   else Some (Inr (concat per_weblog)))))"

definition get_weblog_build_job :: "weblog \<Rightarrow> string \<times> string" where
  "get_weblog_build_job w = (wb_name w, wb_artifact_name w)"

record 'f endtoend_defs =
  ed_parallel_enable :: bool
  ed_parallel_weblogs :: "(string \<times> string) list"
  ed_parallel_jobs :: "'f job_def list"

definition endtoend_defs_of :: "('f::plus list \<Rightarrow> 'f) \<Rightarrow> 'f job list \<Rightarrow> 'f endtoend_defs" where
  "endtoend_defs_of fsum jobs =
     (let by_name = fold (\<lambda>j. dset (wb_name (jb_weblog j)) (jb_weblog j)) jobs [];
          weblogs = sort_key wb_name (map snd by_name)
      in \<lparr>ed_parallel_enable = length jobs > 0,
          ed_parallel_weblogs = map get_weblog_build_job (filter (\<lambda>w. wb_build_mode w = BM_prebuild) weblogs),
          ed_parallel_jobs = map (serialize_job fsum) jobs\<rparr>)"

text \<open>\<open>loaded\<close> is the result of \<open>WeblogMetaData.load\<close> for the library.\<close>

definition get_endtoend_definitions ::
  "(scenario set \<Rightarrow> scenario list) \<Rightarrow> ('f::{linorder,plus,minus,zero} list \<Rightarrow> 'f) \<Rightarrow> weblog list
     \<Rightarrow> 'f time_stats \<Rightarrow> string \<Rightarrow> (string, scenario list) dict \<Rightarrow> string list \<Rightarrow> string \<Rightarrow> 'f \<Rightarrow> nat
     \<Rightarrow> string \<Rightarrow> string \<Rightarrow> 'f endtoend_defs res option" where
  "get_endtoend_definitions order fsum loaded stats library scenario_map weblogs_filter ci_environment
       desired maximum unique_id binaries_artifact =
     (let scenarios = (case dget scenario_map ''endtoend'' of None \<Rightarrow> [] | Some ss \<Rightarrow> ss);
          weblogs = get_endtoend_weblogs loaded library weblogs_filter unique_id ci_environment binaries_artifact
      in map_option (\<lambda>r. rbind r (\<lambda>js. Inr (endtoend_defs_of fsum js)))
           (endtoend_jobs order fsum library scenarios stats weblogs desired maximum))"

subsection \<open>What the matrices hold\<close>

lemma cell_append2:
  "cell (append2 s w v r) s' w' = (if s' = s \<and> w' = w then cell r s w @ [v] else cell r s' w')"
  by (auto simp: cell_def append2_def inner_def dextend_def split: option.splits)

lemma cell_fold_append2:
  "cell (fold (\<lambda>m. append2 s w (f m)) ms r) s' w' =
    (if s' = s \<and> w' = w then cell r s w @ map f ms else cell r s' w')"
  by (induction ms arbitrary: r) (auto simp: cell_append2)

lemma matrix_pairs_iff:
  "(s, w) \<in> set (matrix_pairs matrix scenarios language) \<longleftrightarrow> s \<in> set scenarios \<and>
    (\<exists>entry \<in> set matrix. s \<in> set (me_scenarios entry) \<and>
      (\<exists>weblog_entry \<in> set (me_weblogs entry). \<exists>ws. dget weblog_entry language = Some ws \<and> w \<in> set ws))"
proof -
  have entry: "w \<in> set (entry_weblogs language entry) \<longleftrightarrow>
      (\<exists>weblog_entry \<in> set (me_weblogs entry). \<exists>ws. dget weblog_entry language = Some ws \<and> w \<in> set ws)" for entry
    by (force simp: entry_weblogs_def split: option.splits)
  have "(s, w) \<in> set (matrix_pairs matrix scenarios language) \<longleftrightarrow> s \<in> set scenarios \<and>
      (\<exists>entry \<in> set matrix. s \<in> set (me_scenarios entry) \<and> w \<in> set (entry_weblogs language entry))"
    by (auto simp: matrix_pairs_def split: if_splits)
  then show ?thesis unfolding entry .
qed

lemma should_add_vm_iff:
  "should_add_vm spec m \<longleftrightarrow>
     (ws_exact_os_branches spec = [] \<or> vm_os_branch m \<in> set (ws_exact_os_branches spec)) \<and>
     vm_os_branch m \<notin> set (ws_excluded_os_branches spec) \<and> vm_name m \<notin> set (ws_excluded_os_names spec) \<and>
     vm_os_type m \<notin> set (ws_excluded_os_types spec)"
  by (auto simp: should_add_vm_def Let_def)

lemma aws_cells:
  assumes "rfold (\<lambda>(scenario, weblog) results.
      rbind (get_weblog_spec ws_name weblogs_spec weblog) (\<lambda>spec.
        Inr (fold (\<lambda>m. append2 scenario weblog (vm_name m)) (filter (should_add_vm spec) vms) results))) ps r0 = Inr r"
  shows "set (cell r s w) = set (cell r0 s w) \<union>
    {vm_name m |m spec. (s, w) \<in> set ps \<and> get_weblog_spec ws_name weblogs_spec w = Inr spec \<and>
      m \<in> set vms \<and> should_add_vm spec m}"
  using assms
proof (induction ps arbitrary: r0)
  case (Cons p ps)
  obtain s' w' where p: "p = (s', w')" by force
  from Cons.prems obtain spec where spec: "get_weblog_spec ws_name weblogs_spec w' = Inr spec"
    and rest: "rfold (\<lambda>(scenario, weblog) results.
      rbind (get_weblog_spec ws_name weblogs_spec weblog) (\<lambda>spec.
        Inr (fold (\<lambda>m. append2 scenario weblog (vm_name m)) (filter (should_add_vm spec) vms) results))) ps
      (fold (\<lambda>m. append2 s' w' (vm_name m)) (filter (should_add_vm spec) vms) r0) = Inr r"
    by (auto simp: p rbind_Inr_iff)
  show ?case
    unfolding Cons.IH [OF rest] by (auto simp: p cell_fold_append2 spec)
qed simp

text \<open>When the AWS matrix is computed, the machines listed under a scenario and a weblog are
  the names of the enabled machines that the first specification of that weblog admits, provided
  some entry of the matrix has both the scenario (requested for this run) and the weblog (for
  this language); a scenario or weblog in no such entry lists no machine.\<close>

theorem aws_matrix_machines:
  assumes "get_aws_matrix machines matrix specs scenarios language = Inr r"
  shows "name \<in> set (cell r s w) \<longleftrightarrow> s \<in> set scenarios \<and>
    (\<exists>entry \<in> set matrix. s \<in> set (me_scenarios entry) \<and>
      (\<exists>weblog_entry \<in> set (me_weblogs entry). \<exists>ws. dget weblog_entry language = Some ws \<and> w \<in> set ws)) \<and>
    (\<exists>weblogs_spec spec m. dget specs language = Some weblogs_spec \<and>
      get_weblog_spec ws_name weblogs_spec w = Inr spec \<and> m \<in> set machines \<and> vm_name m = name \<and> \<not> vm_disabled m \<and>
      (ws_exact_os_branches spec = [] \<or> vm_os_branch m \<in> set (ws_exact_os_branches spec)) \<and>
      vm_os_branch m \<notin> set (ws_excluded_os_branches spec) \<and> vm_name m \<notin> set (ws_excluded_os_names spec) \<and>
      vm_os_type m \<notin> set (ws_excluded_os_types spec))"
proof (cases "dget specs language")
  case None
  with assms have "r = []" by (simp add: get_aws_matrix_def)
  with None show ?thesis by (simp add: cell_def inner_def)
next
  case (Some weblogs_spec)
  from assms Some have run: "rfold (\<lambda>(scenario, weblog) results.
      rbind (get_weblog_spec ws_name weblogs_spec weblog) (\<lambda>spec.
        Inr (fold (\<lambda>m. append2 scenario weblog (vm_name m))
          (filter (should_add_vm spec) (filter (\<lambda>m. \<not> vm_disabled m) machines)) results)))
      (matrix_pairs matrix scenarios language) [] = Inr r"
    by (simp add: get_aws_matrix_def Let_def)
  have "cell ([] :: (string, (string, string list) dict) dict) s w = []" by (simp add: cell_def inner_def)
  then show ?thesis
    unfolding aws_cells [OF run] matrix_pairs_iff should_add_vm_iff Some by auto
qed

definition sample_matrix :: "matrix_entry list" where
  "sample_matrix = [\<lparr>me_scenarios = [''SIMPLE_INSTALLER''], me_weblogs = [[(''ruby'', [''test-app''])]]\<rparr>]"

definition sample_machines :: "vm list" where
  "sample_machines =
     [\<lparr>vm_name = ''Ubuntu_22'', vm_os_type = ''linux'', vm_os_branch = ''ubuntu22'', vm_disabled = False\<rparr>,
      \<lparr>vm_name = ''Debian_12'', vm_os_type = ''linux'', vm_os_branch = ''debian'', vm_disabled = True\<rparr>]"

definition sample_vm_specs :: "(string, vm_weblog_spec list) dict" where
  "sample_vm_specs = [(''ruby'', [\<lparr>ws_name = ''test-app'', ws_excluded_os_branches = [''windows''],
     ws_exact_os_branches = [], ws_excluded_os_names = [], ws_excluded_os_types = []\<rparr>])]"

theorem aws_matrix_machines_witness:
  "get_aws_matrix sample_machines sample_matrix sample_vm_specs [''SIMPLE_INSTALLER''] ''ruby'' =
     Inr [(''SIMPLE_INSTALLER'', [(''test-app'', [''Ubuntu_22''])])] \<and>
   ''Debian_12'' \<notin> set (cell [(''SIMPLE_INSTALLER'', [(''test-app'', [''Ubuntu_22''])])] ''SIMPLE_INSTALLER'' ''test-app'')"
proof -
  have pairs: "matrix_pairs sample_matrix [''SIMPLE_INSTALLER''] ''ruby'' = [(''SIMPLE_INSTALLER'', ''test-app'')]"
    by (simp add: sample_matrix_def matrix_pairs_def entry_weblogs_def)
  have run: "get_aws_matrix sample_machines sample_matrix sample_vm_specs [''SIMPLE_INSTALLER''] ''ruby'' =
     Inr [(''SIMPLE_INSTALLER'', [(''test-app'', [''Ubuntu_22''])])]"
    by (simp add: get_aws_matrix_def pairs sample_machines_def sample_vm_specs_def
      should_add_vm_iff append2_def inner_def dextend_def)
  have "\<not> (\<exists>m \<in> set sample_machines. vm_name m = ''Debian_12'' \<and> \<not> vm_disabled m)"
    by (simp add: sample_machines_def)
  then have "''Debian_12'' \<notin> set (cell [(''SIMPLE_INSTALLER'', [(''test-app'', [''Ubuntu_22''])])]
      ''SIMPLE_INSTALLER'' ''test-app'')"
    unfolding aws_matrix_machines [OF run] by blast
  with run show ?thesis by (rule conjI)
qed

text \<open>A supported image that is not in the images file makes the Docker matrix fail with the
  \<open>StopIteration\<close> of \<open>next\<close>; the \<open>ValueError\<close> meant for it is raised only for an
  image that is in the file with an empty reference.\<close>

theorem missing_image:
  "(find_image images name = Inl Stop_Iteration \<longleftrightarrow> name \<notin> im_name ` set images) \<and>
   (find_image images name = Inl Value_Error \<longleftrightarrow>
     (\<exists>img. find (\<lambda>img. im_name img = name) images = Some img \<and> im_image img = []))"
proof (cases "find (\<lambda>img. im_name img = name) images")
  case None
  then have "name \<notin> im_name ` set images" by (auto simp: find_None_iff)
  with None show ?thesis by (simp add: find_image_def)
next
  case (Some img)
  then have "name \<in> im_name ` set images" by (auto simp: find_Some_iff)
  with Some show ?thesis by (simp add: find_image_def)
qed

end
