(* ===== verification/Workflow_Jobs.thy ===== *)
theory Workflow_Jobs
  imports Workflow_Data
begin

section \<open>Packing and merging the jobs of a workflow\<close>

text \<open>
  What the end-to-end part of \<open>workflow_data.py\<close> promises: the packing puts every scenario
  into one backpack and keeps the backpacks within the desired time, splitting and merging
  lose and duplicate nothing, the merge loop ends whatever its input, and when there are
  at least as many runners as weblogs it ends without an error with few enough jobs.
\<close>

subsection \<open>Packing\<close>

abbreviation packed :: "'f backpack list \<Rightarrow> string multiset" where
  "packed bs \<equiv> mset (concat (map bp_scenarios bs))"

lemma place_packed: "place desired s t bs = Some bs' \<Longrightarrow> packed bs' = add_mset s (packed bs)"
  by (induction bs arbitrary: bs') (auto split: if_splits)

lemma pack_step_packed: "packed (pack_step desired p bs) = add_mset (fst p) (packed bs)"
  by (cases p) (auto simp: new_backpack_def place_packed split: option.splits)

lemma fold_pack_packed: "packed (fold (pack_step desired) ps bs) = mset (map fst ps) + packed bs"
  by (induction ps arbitrary: bs) (simp_all add: pack_step_packed)

lemma mset_sorted_reverse [simp]: "mset (sorted_reverse key xs) = mset xs"
  by (simp add: sorted_reverse_def)

lemma set_sorted_reverse [simp]: "set (sorted_reverse key xs) = set xs"
  by (metis mset_sorted_reverse set_mset_mset)

lemma split_scenarios_mset:
  "mset (concat (split_scenarios_for_parallel_execution durations desired)) = mset (dkeys durations)"
  by (simp add: split_scenarios_for_parallel_execution_def fold_pack_packed dkeys_def)

text \<open>The time of a backpack is accumulated in the order its scenarios are packed.\<close>

definition load :: "(string, 'f::plus) dict \<Rightarrow> string list \<Rightarrow> 'f" where
  "load durations ss = foldl (\<lambda>acc s. acc + the (dget durations s)) (the (dget durations (hd ss))) (tl ss)"

definition fits :: "(string, 'f::{linorder,plus}) dict \<Rightarrow> 'f \<Rightarrow> 'f backpack \<Rightarrow> bool" where
  "fits durations desired b \<longleftrightarrow> bp_scenarios b \<noteq> [] \<and> bp_time b = load durations (bp_scenarios b) \<and>
     (length (bp_scenarios b) = 1 \<or> bp_time b \<le> desired)"

lemma load_append: "ss \<noteq> [] \<Longrightarrow> load durations (ss @ [s]) = load durations ss + the (dget durations s)"
  by (cases ss) (simp_all add: load_def)

lemma fits_new: "dget durations s = Some t \<Longrightarrow> fits durations desired (new_backpack s t)"
  by (simp add: fits_def new_backpack_def load_def)

lemma place_fits:
  assumes "dget durations s = Some t"
  shows "place desired s t bs = Some bs' \<Longrightarrow> list_all (fits durations desired) bs \<Longrightarrow>
    list_all (fits durations desired) bs'"
  using assms by (induction bs arbitrary: bs') (auto simp: fits_def load_append split: if_splits)

lemma pack_step_fits:
  assumes "dget durations (fst p) = Some (snd p)" and "list_all (fits durations desired) bs"
  shows "list_all (fits durations desired) (pack_step desired p bs)"
  using assms by (cases p) (auto simp: fits_new place_fits split: option.splits)

lemma fold_pack_fits:
  assumes "\<And>p. p \<in> set ps \<Longrightarrow> dget durations (fst p) = Some (snd p)" and "list_all (fits durations desired) bs"
  shows "list_all (fits durations desired) (fold (pack_step desired) ps bs)"
  using assms by (induction ps arbitrary: bs) (simp_all add: pack_step_fits)

lemma split_scenarios_fit:
  assumes "dict_wf durations"
  shows "list_all (\<lambda>ss. ss \<noteq> [] \<and> (length ss = 1 \<or> load durations ss \<le> desired))
    (split_scenarios_for_parallel_execution durations desired)"
proof -
  have "list_all (fits durations desired) (fold (pack_step desired) (sorted_reverse snd durations) [])"
    using assms by (intro fold_pack_fits) (auto simp: dget_in_set)
  then show ?thesis
    by (auto simp: split_scenarios_for_parallel_execution_def fits_def list_all_iff)
qed

text \<open>
  Claims about the packing are stated below, over the definition of the source alone.
\<close>

subsection \<open>Splitting a job\<close>

lemma split_job:
  assumes wf: "dict_wf (jb_times j)"
  obtains js where "split_for_parallel_execution j desired = Inr js"
    and "map jb_instance js = [1..<Suc (length js)]"
    and "\<And>k. k \<in> set js \<Longrightarrow> jb_weblog k = jb_weblog j \<and> jb_library k = jb_library j \<and>
      jb_build_time k = jb_build_time j"
    and "mset (concat (map jb_times js)) = mset (jb_times j)"
proof -
  let ?ss = "split_scenarios_for_parallel_execution (jb_times j) (desired - jb_build_time j)"
  let ?item = "\<lambda>s. (s, the (dget (jb_times j) s))"
  let ?part = "\<lambda>(i, scenarios). \<lparr>jb_library = jb_library j, jb_weblog = jb_weblog j, jb_instance = i + 1,
    jb_times = map ?item scenarios, jb_build_time = jb_build_time j\<rparr>"
  have keys: "mset (concat ?ss) = mset (dkeys (jb_times j))" by (rule split_scenarios_mset)
  have known: "dget (jb_times j) s = Some (the (dget (jb_times j) s))" if "ss \<in> set ?ss" "s \<in> set ss" for s ss
  proof -
    from that have "s \<in> set (concat ?ss)" by auto
    then have "s \<in> set (dkeys (jb_times j))" by (metis keys set_mset_mset)
    then show ?thesis by (cases "dget (jb_times j) s") (auto simp: od.lookup_keys)
  qed
  have dist: "distinct ss" if "ss \<in> set ?ss" for ss
  proof -
    have "distinct (concat ?ss)"
      using wf by (metis keys mset_eq_imp_distinct_iff dict_wf_def dkeys_def)
    with that show ?thesis by (simp add: distinct_concat_iff)
  qed
  have store: "fold (\<lambda>(s, t). dset s t) (map ?item ss) d = d @ map ?item ss"
    if "distinct (map fst d @ ss)" for ss and d
    using that
  proof (induction ss arbitrary: d)
    case (Cons s ss)
    have "fold (\<lambda>(s, t). dset s t) (map ?item ss) (d @ [?item s]) = (d @ [?item s]) @ map ?item ss"
      using Cons.prems by (intro Cons.IH) auto
    with Cons.prems show ?case by (simp add: dset_new)
  qed simp
  have inner: "rmap (\<lambda>s. rbind (get_scenario_time j s) (\<lambda>t. Inr (s, t))) ss = Inr (map ?item ss)"
    if "ss \<in> set ?ss" for ss
  proof (rule rmap_total)
    fix s assume "s \<in> set ss"
    with known [OF that] obtain t where "dget (jb_times j) s = Some t" by blast
    then show "rbind (get_scenario_time j s) (\<lambda>t. Inr (s, t)) = Inr (?item s)"
      by (simp add: get_scenario_time_def dgetitem_def)
  qed
  have "split_for_parallel_execution j desired = Inr (map ?part (enumerate 0 ?ss))"
    unfolding split_for_parallel_execution_def
  proof (rule rmap_total)
    fix p assume "p \<in> set (enumerate 0 ?ss)"
    then obtain i ss where p: "p = (i, ss)" and ss: "ss \<in> set ?ss"
      by (metis enumerate_eq_zip in_set_zipE prod.collapse)
    have "fold (\<lambda>(s, t). dset s t) (map ?item ss) [] = map ?item ss"
      using store [of "[]" ss] dist [OF ss] by simp
    then show "(case p of (i, scenarios) \<Rightarrow>
        rbind (rmap (\<lambda>s. rbind (get_scenario_time j s) (\<lambda>t. Inr (s, t))) scenarios) (\<lambda>items.
          Inr \<lparr>jb_library = jb_library j, jb_weblog = jb_weblog j, jb_instance = i + 1,
            jb_times = fold (\<lambda>(s, t). dset s t) items [], jb_build_time = jb_build_time j\<rparr>)) = Inr (?part p)"
      by (simp add: p inner [OF ss])
  qed
  moreover have "map jb_instance (map ?part (enumerate 0 ?ss)) = [1..<Suc (length (map ?part (enumerate 0 ?ss)))]"
    by (rule nth_equalityI) (simp_all add: nth_enumerate_eq del: upt_Suc)
  moreover have "mset (concat (map jb_times (map ?part (enumerate 0 ?ss)))) = mset (jb_times j)"
  proof -
    have "map jb_times (map ?part (enumerate 0 ?ss)) = map (map ?item) ?ss"
      by (rule nth_equalityI) (auto simp: nth_enumerate_eq)
    then have "concat (map jb_times (map ?part (enumerate 0 ?ss))) = map ?item (concat ?ss)"
      by (simp add: map_concat)
    also have "mset \<dots> = mset (map ?item (dkeys (jb_times j)))" by (simp add: keys)
    also have "map ?item (dkeys (jb_times j)) = jb_times j"
      using wf by (auto simp: dkeys_def dict_wf_def intro!: map_idI)
    finally show ?thesis .
  qed
  ultimately show ?thesis by (intro that) auto
qed

subsection \<open>Merging jobs\<close>

text \<open>Which object is the fastest does not matter: it is one of the jobs of the weblog.\<close>

lemma min_by_in: "xs \<noteq> [] \<Longrightarrow> \<exists>x \<in> set xs. min_by key xs = Inr x"
proof (cases xs)
  case (Cons y ys)
  have "fold (\<lambda>y m. if key y < key m then y else m) zs x \<in> insert x (set zs)" for zs x
    by (induction zs arbitrary: x) auto
  from this [of ys y] show ?thesis by (auto simp: Cons)
qed simp

text \<open>The scenarios, with their times, of the jobs in a list of references.\<close>

definition items_at :: "'f heap \<Rightarrow> nat list \<Rightarrow> (string \<times> 'f) list" where
  "items_at h as = concat (map (\<lambda>a. jb_times (h ! a)) as)"

lemma mset_items_at: "mset (items_at h as) = (\<Sum>a \<in># mset as. mset (jb_times (h ! a)))"
  by (induction as) (simp_all add: items_at_def)

definition weblog_jobs_at :: "'f heap \<Rightarrow> nat list \<Rightarrow> weblog \<Rightarrow> nat list" where
  "weblog_jobs_at h as w = filter (\<lambda>a. jb_weblog (h ! a) = w) as"

text \<open>What appending scenarios to jobs leaves alone: their number and all but their scenarios.\<close>

definition same_jobs :: "'f heap \<Rightarrow> 'f heap \<Rightarrow> bool" where
  "same_jobs h h' \<longleftrightarrow> length h' = length h \<and>
     (\<forall>b. jb_weblog (h' ! b) = jb_weblog (h ! b) \<and> jb_instance (h' ! b) = jb_instance (h ! b) \<and>
          jb_library (h' ! b) = jb_library (h ! b) \<and> jb_build_time (h' ! b) = jb_build_time (h ! b))"

lemma same_jobs_refl [simp]: "same_jobs h h" and
  same_jobs_trans: "same_jobs h h' \<Longrightarrow> same_jobs h' h'' \<Longrightarrow> same_jobs h h''"
  by (simp_all add: same_jobs_def)

lemma same_jobs_append:
  "f < length h \<Longrightarrow> same_jobs h (h[f := (h ! f)\<lparr>jb_times := d\<rparr>])"
  by (auto simp: same_jobs_def nth_list_update)

lemma weblog_jobs_at_same: "same_jobs h h' \<Longrightarrow> weblog_jobs_at h' as w = weblog_jobs_at h as w"
  by (simp add: weblog_jobs_at_def same_jobs_def)

lemma items_at_append:
  assumes "f \<in> set as" and "distinct as" and "f < length h"
  shows "mset (items_at (h[f := (h ! f)\<lparr>jb_times := jb_times (h ! f) @ [p]\<rparr>]) as) = add_mset p (mset (items_at h as))"
  using assms
proof (induction as)
  case (Cons a as)
  have "b \<notin> set as \<Longrightarrow> items_at (h[b := j]) as = items_at h as" for b j
    unfolding items_at_def by (intro arg_cong [of _ _ concat] map_cong refl) (metis nth_list_update_neq)
  with Cons show ?case by (cases "a = f") (auto simp: items_at_def)
qed simp

text \<open>Giving the scenarios of a deleted job away succeeds when the weblog has another job.\<close>

lemma give_scenarios:
  assumes "ws \<noteq> []" and "distinct ws" and "\<And>b. b \<in> set ws \<Longrightarrow> b < length h" and "a \<notin> set ws"
    and "\<And>p. p \<in> set xs \<Longrightarrow> dget (jb_times (h ! a)) (fst p) = Some (snd p)"
    and "distinct (map fst (items_at h ws @ xs))"
  shows "\<exists>h'. rfold (give_scenario fsum ws a) (map fst xs) h = Inr h' \<and> same_jobs h h' \<and>
    (\<forall>b. b \<notin> set ws \<longrightarrow> h' ! b = h ! b) \<and> mset (items_at h' ws) = mset (items_at h ws) + mset xs"
  using assms
proof (induction xs arbitrary: h)
  case (Cons p xs)
  obtain s t where p: "p = (s, t)" by force
  obtain f where f: "f \<in> set ws" and min: "min_by (\<lambda>a. expected_job_time fsum (h ! a)) ws = Inr f"
    using min_by_in [OF Cons.prems(1)] by blast
  let ?j = "(h ! f)\<lparr>jb_times := jb_times (h ! f) @ [(s, t)]\<rparr>"
  let ?h = "h[f := ?j]"
  have len: "f < length h" by (rule Cons.prems(3) [OF f])
  have "s \<notin> fst ` set (items_at h ws)" using Cons.prems(6) by (auto simp: p)
  with f have new: "s \<notin> fst ` set (jb_times (h ! f))" by (auto simp: items_at_def)
  then have "\<not> dhas (jb_times (h ! f)) s" by (simp add: dhas_keys dkeys_def)
  moreover have "dset s t (jb_times (h ! f)) = jb_times (h ! f) @ [(s, t)]" using new by (rule dset_new)
  moreover have "dget (jb_times (h ! a)) s = Some t" using Cons.prems(5) [of p] by (simp add: p)
  ultimately have step: "give_scenario fsum ws a s h = Inr ?h"
    by (simp add: give_scenario_def min get_scenario_time_def append_scenario_def dgetitem_def)
  have other: "b \<noteq> f \<Longrightarrow> ?h ! b = h ! b" for b by simp
  have moved: "mset (items_at ?h ws) = add_mset p (mset (items_at h ws))"
    unfolding p by (rule items_at_append [OF f Cons.prems(2) len])
  have af: "a \<noteq> f" using f Cons.prems(4) by auto
  have "\<exists>h'. rfold (give_scenario fsum ws a) (map fst xs) ?h = Inr h' \<and> same_jobs ?h h' \<and>
    (\<forall>b. b \<notin> set ws \<longrightarrow> h' ! b = ?h ! b) \<and> mset (items_at h' ws) = mset (items_at ?h ws) + mset xs"
  proof (rule Cons.IH [OF Cons.prems(1,2) _ Cons.prems(4)])
    show "b < length ?h" if "b \<in> set ws" for b using Cons.prems(3) [OF that] by simp
    show "dget (jb_times (?h ! a)) (fst q) = Some (snd q)" if "q \<in> set xs" for q
      using Cons.prems(5) [of q] that af by simp
    have "mset (map fst (items_at ?h ws @ xs)) = mset (map fst (items_at h ws @ p # xs))"
      using moved by simp
    with Cons.prems(6) show "distinct (map fst (items_at ?h ws @ xs))"
      by (metis mset_eq_imp_distinct_iff)
  qed
  then obtain h' where h': "rfold (give_scenario fsum ws a) (map fst xs) ?h = Inr h'" "same_jobs ?h h'"
    "\<forall>b. b \<notin> set ws \<longrightarrow> h' ! b = ?h ! b" "mset (items_at h' ws) = mset (items_at ?h ws) + mset xs"
    by blast
  have "same_jobs h h'" using same_jobs_append [OF len] h'(2) by (rule same_jobs_trans)
  moreover have "\<forall>b. b \<notin> set ws \<longrightarrow> h' ! b = h ! b" using h'(3) f other by metis
  moreover have "mset (items_at h' ws) = mset (items_at h ws) + mset (p # xs)" using h'(4) moved by simp
  ultimately show ?case using h'(1) step by (auto simp: p)
qed simp

text \<open>
  The invariant of the merge: references to different existing jobs, and no scenario in two
  jobs of the same weblog.
\<close>

definition jobs_wf :: "'f heap \<Rightarrow> nat list \<Rightarrow> bool" where
  "jobs_wf h result \<longleftrightarrow> distinct result \<and> (\<forall>a \<in> set result. a < length h) \<and>
     (\<forall>w. distinct (map fst (items_at h (weblog_jobs_at h result w))))"

definition content :: "'f heap \<Rightarrow> nat list \<Rightarrow> weblog \<Rightarrow> (string \<times> 'f) multiset" where
  "content h result w = mset (items_at h (weblog_jobs_at h result w))"

lemma delete_job_ok:
  assumes wf: "jobs_wf h result" and a: "a \<in> set result"
    and other: "b \<in> set result" "b \<noteq> a" "jb_weblog (h ! b) = jb_weblog (h ! a)"
  obtains h' where "delete_job fsum a (h, result) = Inr (h', remove1 a result)"
    and "same_jobs h h'" and "jobs_wf h' (remove1 a result)"
    and "\<And>w. content h' (remove1 a result) w = content h result w"
proof -
  let ?w = "jb_weblog (h ! a)"
  let ?ws = "weblog_jobs_at h (remove1 a result) ?w"
  let ?xs = "jb_times (h ! a)"
  have dist: "distinct result" and bound: "\<And>c. c \<in> set result \<Longrightarrow> c < length h"
    and keys: "\<And>w. distinct (map fst (items_at h (weblog_jobs_at h result w)))"
    using wf by (auto simp: jobs_wf_def)
  have ws: "remove1 a (weblog_jobs_at h result ?w) = ?ws"
    using dist by (simp add: weblog_jobs_at_def distinct_remove1_removeAll removeAll_filter_not_eq conj_commute)
  have inws: "c \<in> set ?ws \<longleftrightarrow> c \<in> set result \<and> c \<noteq> a \<and> jb_weblog (h ! c) = ?w" for c
    using dist by (auto simp: weblog_jobs_at_def set_remove1_eq)
  have split: "mset (items_at h (weblog_jobs_at h result ?w)) = mset (items_at h ?ws) + mset ?xs"
  proof -
    have "mset (weblog_jobs_at h result ?w) = mset (a # ?ws)"
      using a ws [symmetric] by (simp add: weblog_jobs_at_def)
    then show ?thesis by (simp add: mset_items_at)
  qed
  have "distinct (map fst (items_at h ?ws @ ?xs))"
    using keys [of ?w] split by (metis mset_append mset_eq_imp_distinct_iff mset_map)
  moreover from this have "\<And>p. p \<in> set ?xs \<Longrightarrow> dget ?xs (fst p) = Some (snd p)" by simp
  moreover have "?ws \<noteq> []" using other inws [of b] by auto
  moreover have "distinct ?ws" using dist by (simp add: weblog_jobs_at_def)
  moreover have "a \<notin> set ?ws" using inws by blast
  moreover have "c < length h" if "c \<in> set ?ws" for c using that inws bound by blast
  ultimately obtain h' where give: "rfold (give_scenario fsum ?ws a) (map fst ?xs) h = Inr h'"
    and same: "same_jobs h h'" and out: "\<And>c. c \<notin> set ?ws \<Longrightarrow> h' ! c = h ! c"
    and got: "mset (items_at h' ?ws) = mset (items_at h ?ws) + mset ?xs"
    using give_scenarios [of ?ws h a ?xs fsum] by blast
  have keep: "content h' (remove1 a result) w = content h result w" for w
  proof (cases "w = ?w")
    case True
    then show ?thesis using got split by (simp add: content_def weblog_jobs_at_same [OF same])
  next
    case False
    then have "weblog_jobs_at h (remove1 a result) w = weblog_jobs_at h result w"
      using dist by (auto simp: weblog_jobs_at_def distinct_remove1_removeAll removeAll_filter_not_eq intro!: filter_cong)
    moreover have "items_at h' (weblog_jobs_at h result w) = items_at h (weblog_jobs_at h result w)"
      using False out inws by (auto simp: items_at_def weblog_jobs_at_def intro!: arg_cong [of _ _ concat])
    ultimately show ?thesis by (simp add: content_def weblog_jobs_at_same [OF same])
  qed
  have "distinct (map fst (items_at h' (weblog_jobs_at h' (remove1 a result) w)))" for w
    using keys [of w] keep [of w] unfolding content_def by (metis mset_eq_imp_distinct_iff mset_map)
  then have "jobs_wf h' (remove1 a result)"
    using dist bound same by (auto simp: jobs_wf_def same_jobs_def dest: notin_set_remove1 set_remove1_subset [THEN subsetD])
  moreover have "delete_job fsum a (h, result) = Inr (h', remove1 a result)"
    using give ws by (simp add: delete_job_def dkeys_def weblog_jobs_at_def)
  ultimately show ?thesis using same keep by (intro that)
qed

subsection \<open>The merge loop ends\<close>

text \<open>A pass that raises nothing leaves at most \<open>maximum\<close> jobs: it stops there or deletes them all.\<close>

lemma delete_job_result: "delete_job fsum a (h, result) = Inr s' \<Longrightarrow> snd s' = remove1 a result"
  by (auto simp: delete_job_def Let_def rbind_Inr_iff)

lemma delete_pass_length:
  "delete_pass fsum maximum as s = Inr s' \<Longrightarrow> mset as = mset (snd s) \<Longrightarrow> length (snd s') \<le> maximum"
proof (induction as arbitrary: s)
  case (Cons a as)
  from Cons.prems(1) obtain s1 where d: "delete_job fsum a s = Inr s1"
    and rest: "(if length (snd s1) \<le> maximum then Inr s1 else delete_pass fsum maximum as s1) = Inr s'"
    by (auto simp: rbind_Inr_iff)
  have "snd s1 = remove1 a (snd s)" using delete_job_result [of fsum a "fst s" "snd s" s1] d by simp
  moreover have "mset (remove1 a (snd s)) = mset as"
    by (simp flip: Cons.prems(2))
  ultimately have "mset as = mset (snd s1)" by simp
  with Cons.IH [of s1] rest show ?case by (auto split: if_splits)
qed simp

lemma merge_loop_end: "length (snd s) \<le> maximum \<Longrightarrow> merge_loop fsum maximum s = Some (Inr s)"
  by (simp add: merge_loop.simps)

lemma merge_loop_once:
  assumes "length (snd s) > maximum"
  shows "merge_loop fsum maximum s =
    Some (delete_pass fsum maximum (sorted_reverse (\<lambda>a. jb_instance (fst s ! a)) (snd s)) s)"
proof (cases "delete_pass fsum maximum (sorted_reverse (\<lambda>a. jb_instance (fst s ! a)) (snd s)) s")
  case (Inl e)
  then show ?thesis using assms by (simp add: merge_loop.simps)
next
  case (Inr s')
  then have "length (snd s') \<le> maximum" by (rule delete_pass_length) simp
  then have "merge_loop fsum maximum s' = Some (Inr s')" by (rule merge_loop_end)
  then show ?thesis using assms Inr by (subst merge_loop.simps) simp
qed

lemma merge_loop_total: "\<exists>r. merge_loop fsum maximum s = Some r"
  by (cases "length (snd s) > maximum") (simp_all add: merge_loop_once merge_loop_end)

lemma split_jobs_total: "\<exists>r. split_jobs_for_parallel_execution fsum jobs desired maximum = Some r"
  using merge_loop_total [of fsum maximum]
  by (auto simp: split_jobs_for_parallel_execution_def Let_def split: sum.split)

subsection \<open>The merge loop succeeds\<close>

text \<open>
  What holds at the start of a pass: every weblog has a job with the first instance number,
  instance numbers start at one and differ within a weblog, and there are more jobs than
  runners but no more weblogs than runners.
\<close>

definition mergeable :: "nat \<Rightarrow> 'f heap \<Rightarrow> nat list \<Rightarrow> bool" where
  "mergeable maximum h result \<longleftrightarrow> jobs_wf h result \<and>
     (\<forall>a \<in> set result. jb_instance (h ! a) \<ge> 1 \<and>
        (\<exists>b \<in> set result. jb_weblog (h ! b) = jb_weblog (h ! a) \<and> jb_instance (h ! b) = 1)) \<and>
     inj_on (\<lambda>a. (jb_weblog (h ! a), jb_instance (h ! a))) (set result) \<and>
     card ((\<lambda>a. jb_weblog (h ! a)) ` set result) \<le> maximum"

lemma mergeable_other:
  assumes m: "mergeable maximum h result" and more: "length result > maximum"
    and a: "a \<in> set result" and last: "\<And>b. b \<in> set result \<Longrightarrow> jb_instance (h ! b) \<le> jb_instance (h ! a)"
  obtains b where "b \<in> set result" "b \<noteq> a" "jb_weblog (h ! b) = jb_weblog (h ! a)" "jb_instance (h ! a) \<noteq> 1"
proof -
  have "jb_instance (h ! a) \<noteq> 1"
  proof
    assume one: "jb_instance (h ! a) = 1"
    have "jb_instance (h ! b) = 1" if "b \<in> set result" for b
      using m last [OF that] that one by (auto simp: mergeable_def)
    with m have "inj_on (\<lambda>a. jb_weblog (h ! a)) (set result)"
      by (auto simp: mergeable_def inj_on_def)
    then have "card ((\<lambda>a. jb_weblog (h ! a)) ` set result) = length result"
      using m by (simp add: card_image mergeable_def jobs_wf_def distinct_card)
    with m more show False by (simp add: mergeable_def)
  qed
  moreover from m a obtain b where "b \<in> set result" "jb_weblog (h ! b) = jb_weblog (h ! a)" "jb_instance (h ! b) = 1"
    by (auto simp: mergeable_def)
  ultimately show ?thesis by (metis that)
qed

lemma mergeable_delete:
  assumes m: "mergeable maximum h result" and a: "jb_instance (h ! a) \<noteq> 1"
    and same: "same_jobs h h'" and wf: "jobs_wf h' (remove1 a result)"
  shows "mergeable maximum h' (remove1 a result)"
proof -
  have sub: "set (remove1 a result) \<subseteq> set result" by (rule set_remove1_subset)
  have eqs: "(\<lambda>a. jb_weblog (h' ! a)) = (\<lambda>a. jb_weblog (h ! a))" "(\<lambda>a. jb_instance (h' ! a)) = (\<lambda>a. jb_instance (h ! a))"
    using same by (simp_all add: same_jobs_def)
  have first: "\<exists>b \<in> set (remove1 a result). jb_weblog (h ! b) = jb_weblog (h ! c) \<and> jb_instance (h ! b) = 1"
    if "c \<in> set result" for c
  proof -
    from m that obtain b where "b \<in> set result" "jb_weblog (h ! b) = jb_weblog (h ! c)" "jb_instance (h ! b) = 1"
      by (auto simp: mergeable_def)
    then show ?thesis using a by (metis in_set_remove1)
  qed
  have "card ((\<lambda>a. jb_weblog (h ! a)) ` set (remove1 a result)) \<le> card ((\<lambda>a. jb_weblog (h ! a)) ` set result)"
    using sub by (intro card_mono image_mono) auto
  moreover have "inj_on (\<lambda>a. (jb_weblog (h ! a), jb_instance (h ! a))) (set (remove1 a result))"
    using m sub by (auto simp: mergeable_def intro: inj_on_subset)
  moreover have "\<forall>c \<in> set (remove1 a result). jb_instance (h ! c) \<ge> 1"
    using m sub by (auto simp: mergeable_def)
  ultimately show ?thesis
    using m wf first sub unfolding mergeable_def fun_cong [OF eqs(1)] fun_cong [OF eqs(2)]
    by (meson order_trans subsetD)
qed

lemma delete_pass_ok:
  assumes "mergeable maximum h result" and "length result > maximum" and "mset as = mset result"
    and "sorted_wrt (\<lambda>x y. jb_instance (h ! y) \<le> jb_instance (h ! x)) as"
  shows "\<exists>h' result'. delete_pass fsum maximum as (h, result) = Inr (h', result') \<and> same_jobs h h' \<and>
    set result' \<subseteq> set result \<and> jobs_wf h' result' \<and> content h' result' = content h result"
  using assms
proof (induction as arbitrary: h result)
  case (Cons a as)
  note m = Cons.prems(1)
  have mem: "set result = insert a (set as)" using Cons.prems(3) by (metis list.simps(15) set_mset_mset)
  have max: "jb_instance (h ! b) \<le> jb_instance (h ! a)" if "b \<in> set result" for b
    using that Cons.prems(4) by (auto simp: mem)
  obtain b where b: "b \<in> set result" "b \<noteq> a" "jb_weblog (h ! b) = jb_weblog (h ! a)" "jb_instance (h ! a) \<noteq> 1"
    using mergeable_other [OF m Cons.prems(2) _ max] mem by blast
  have wf: "jobs_wf h result" using m by (simp add: mergeable_def)
  have ain: "a \<in> set result" by (simp add: mem)
  obtain h1 where d: "delete_job fsum a (h, result) = Inr (h1, remove1 a result)" and same: "same_jobs h h1"
    and wf1: "jobs_wf h1 (remove1 a result)" and keep: "\<And>w. content h1 (remove1 a result) w = content h result w"
    using delete_job_ok [OF wf ain b(1-3), of fsum] by metis
  show ?case
  proof (cases "length (remove1 a result) \<le> maximum")
    case True
    then have "delete_pass fsum maximum (a # as) (h, result) = Inr (h1, remove1 a result)" using d by simp
    then show ?thesis using same wf1 keep set_remove1_subset [of a result] by blast
  next
    case False
    have "mset as = mset (remove1 a result)" by (simp flip: Cons.prems(3))
    moreover have "sorted_wrt (\<lambda>x y. jb_instance (h1 ! y) \<le> jb_instance (h1 ! x)) as"
      using Cons.prems(4) same by (simp add: same_jobs_def)
    moreover have "mergeable maximum h1 (remove1 a result)"
      by (rule mergeable_delete [OF m b(4) same wf1])
    ultimately obtain h' result' where p: "delete_pass fsum maximum as (h1, remove1 a result) = Inr (h', result')"
      and same': "same_jobs h1 h'" and sub: "set result' \<subseteq> set (remove1 a result)" and wf': "jobs_wf h' result'"
      and keep': "content h' result' = content h1 (remove1 a result)"
      using Cons.IH [of h1 "remove1 a result"] False by auto
    have "delete_pass fsum maximum (a # as) (h, result) = Inr (h', result')" using d False p by simp
    moreover have "same_jobs h h'" using same same' by (rule same_jobs_trans)
    moreover have "set result' \<subseteq> set result" using sub set_remove1_subset [of a result] by blast
    moreover have "content h' result' = content h result" using keep keep' by (simp add: fun_eq_iff)
    ultimately show ?thesis using wf' by blast
  qed
qed simp

lemma sorted_sorted_reverse: "sorted_wrt (\<lambda>x y. key y \<le> key x) (sorted_reverse key xs)"
  using sorted_sort_key [of key "rev xs"] by (simp add: sorted_reverse_def sorted_wrt_rev sorted_map)

lemma merge_loop_ok:
  assumes "mergeable maximum h result"
  obtains h' result' where "merge_loop fsum maximum (h, result) = Some (Inr (h', result'))"
    and "length result' \<le> maximum" and "same_jobs h h'" and "set result' \<subseteq> set result"
    and "jobs_wf h' result'" and "content h' result' = content h result"
proof (cases "length result > maximum")
  case True
  let ?as = "sorted_reverse (\<lambda>a. jb_instance (h ! a)) result"
  obtain h' result' where p: "delete_pass fsum maximum ?as (h, result) = Inr (h', result')"
    and rest: "same_jobs h h'" "set result' \<subseteq> set result" "jobs_wf h' result'" "content h' result' = content h result"
    using delete_pass_ok [OF assms True, of ?as fsum] sorted_sorted_reverse by fastforce
  have "length (snd (h', result')) \<le> maximum" by (rule delete_pass_length [OF p]) simp
  then have "length result' \<le> maximum" by simp
  then show ?thesis using True p rest by (intro that [of h' result']) (simp_all add: merge_loop_once)
next
  case False
  then show ?thesis using assms by (intro that [of h result]) (auto simp: merge_loop_end mergeable_def)
qed

subsection \<open>Splitting and merging together\<close>

lemma rmap_all2:
  assumes "\<And>x. x \<in> set xs \<Longrightarrow> \<exists>y. f x = Inr y \<and> P x y"
  shows "\<exists>ys. rmap f xs = Inr ys \<and> list_all2 P xs ys"
  using assms
proof (induction xs)
  case (Cons x xs)
  then show ?case by (metis list.set_intros list_all2_Cons rbind_simps(2) rmap.simps(2))
qed simp

definition of_weblog :: "'f job list \<Rightarrow> weblog \<Rightarrow> 'f job list" where
  "of_weblog jobs w = filter (\<lambda>j. jb_weblog j = w) jobs"

text \<open>What a weblog has to run: its scenarios with their times, over all its jobs.\<close>

definition workload :: "'f job list \<Rightarrow> weblog \<Rightarrow> (string \<times> 'f) multiset" where
  "workload jobs w = mset (concat (map jb_times (of_weblog jobs w)))"

lemma workload_simps [simp]:
  "workload [] w = {#}"
  "workload (j # jobs) w = (if jb_weblog j = w then mset (jb_times j) else {#}) + workload jobs w"
  "workload (jobs @ jobs') w = workload jobs w + workload jobs' w"
  by (simp_all add: workload_def of_weblog_def)

lemma workload_other: "w \<notin> jb_weblog ` set jobs \<Longrightarrow> workload jobs w = {#}"
  by (induction jobs) auto

lemma workload_own:
  "distinct (map jb_weblog jobs) \<Longrightarrow> j \<in> set jobs \<Longrightarrow> workload jobs (jb_weblog j) = mset (jb_times j)"
  by (induction jobs) (auto simp: workload_other rev_image_eqI)

lemma workload_same_weblog:
  "(\<And>k. k \<in> set js \<Longrightarrow> jb_weblog k = w') \<Longrightarrow>
    workload js w = (if w = w' then mset (concat (map jb_times js)) else {#})"
  by (induction js) auto

lemma content_workload: "content h result w = workload (map (\<lambda>a. h ! a) result) w"
  by (simp add: content_def workload_def of_weblog_def items_at_def weblog_jobs_at_def filter_map comp_def)

text \<open>How the jobs a job was split into relate to it.\<close>

definition split_of :: "'f job \<Rightarrow> 'f job list \<Rightarrow> bool" where
  "split_of j js \<longleftrightarrow> map jb_instance js = [1..<Suc (length js)] \<and>
     (\<forall>k \<in> set js. jb_weblog k = jb_weblog j \<and> jb_library k = jb_library j \<and> jb_build_time k = jb_build_time j) \<and>
     mset (concat (map jb_times js)) = mset (jb_times j)"

lemma split_of_workload:
  "list_all2 split_of jobs split \<Longrightarrow> workload (concat split) w = workload jobs w"
proof (induction rule: list_all2_induct)
  case (Cons j jobs js split)
  then show ?case
    using workload_same_weblog [of js "jb_weblog j" w] by (auto simp: split_of_def)
qed simp

abbreviation job_key :: "'f job \<Rightarrow> weblog \<times> nat" where
  "job_key j \<equiv> (jb_weblog j, jb_instance j)"

lemma split_of_keys:
  "split_of j js \<Longrightarrow> map job_key js = map (Pair (jb_weblog j)) [1..<Suc (length js)]"
proof -
  assume sp: "split_of j js"
  then have "\<forall>k \<in> set js. jb_weblog k = jb_weblog j" by (simp add: split_of_def)
  then have "map job_key js = map (Pair (jb_weblog j)) (map jb_instance js)" by simp
  also have "map jb_instance js = [1..<Suc (length js)]" using sp by (simp add: split_of_def del: upt_Suc)
  finally show ?thesis .
qed

lemma split_of_instances:
  assumes "split_of j js" and "k \<in> set js"
  shows "jb_instance k \<ge> 1" and "\<exists>k' \<in> set js. jb_instance k' = 1"
proof -
  have m: "map jb_instance js = [1..<Suc (length js)]" using assms(1) by (simp add: split_of_def)
  have "jb_instance ` set js = set [1..<Suc (length js)]" by (metis m list.set_map)
  then have range: "jb_instance ` set js = {1..<Suc (length js)}" by (simp del: upt_Suc)
  have "jb_instance k \<in> {1..<Suc (length js)}" using assms(2) range by blast
  then show "jb_instance k \<ge> 1" by simp
  have "length js > 0" using assms(2) by (cases js) auto
  then have "1 \<in> {1..<Suc (length js)}" by simp
  then have "1 \<in> jb_instance ` set js" by (simp only: range)
  then show "\<exists>k' \<in> set js. jb_instance k' = 1" by (auto simp: image_iff)
qed

lemma split_of_distinct_keys:
  "list_all2 split_of jobs split \<Longrightarrow> distinct (map jb_weblog jobs) \<Longrightarrow>
    distinct (map job_key (concat split)) \<and> (\<forall>k \<in> set (concat split). jb_weblog k \<in> jb_weblog ` set jobs)"
proof (induction rule: list_all2_induct)
  case (Cons j jobs js split)
  have "distinct (map job_key js)"
    using split_of_keys [OF Cons.hyps(1)] by (simp add: distinct_map inj_on_def del: upt_Suc)
  moreover have "\<forall>k \<in> set js. jb_weblog k = jb_weblog j" using Cons.hyps(1) by (simp add: split_of_def)
  moreover have "jb_weblog j \<notin> jb_weblog ` set jobs" using Cons.prems by simp
  moreover have IH: "distinct (map job_key (concat split))" "\<forall>k \<in> set (concat split). jb_weblog k \<in> jb_weblog ` set jobs"
    using Cons by auto
  ultimately have "set (map job_key js) \<inter> set (map job_key (concat split)) = {}" by fastforce
  with \<open>distinct (map job_key js)\<close> IH \<open>\<forall>k \<in> set js. jb_weblog k = jb_weblog j\<close> show ?case by auto
qed simp

lemma nth_image_upt: "(\<lambda>a. f (h ! a)) ` {..<length h} = f ` set h"
  by (fastforce simp: in_set_conv_nth image_iff)

lemma split_mergeable:
  assumes sp: "list_all2 split_of jobs split" and dist: "distinct (map jb_weblog jobs)"
    and wf: "\<And>j. j \<in> set jobs \<Longrightarrow> dict_wf (jb_times j)" and max: "length jobs \<le> maximum"
  shows "mergeable maximum (concat split) [0..<length (concat split)]"
proof -
  let ?h = "concat split"
  have keys: "distinct (map job_key ?h)" and weblogs: "\<forall>k \<in> set ?h. jb_weblog k \<in> jb_weblog ` set jobs"
    using split_of_distinct_keys [OF sp dist] by auto
  have set_upt: "set [0..<length ?h] = {..<length ?h}" by auto
  have "distinct (map fst (items_at ?h (weblog_jobs_at ?h [0..<length ?h] w)))" for w
  proof -
    have c: "content ?h [0..<length ?h] w = workload jobs w"
      by (simp only: content_workload map_nth split_of_workload [OF sp])
    have "distinct (map fst (concat (map jb_times (of_weblog jobs w))))"
    proof (cases "w \<in> jb_weblog ` set jobs")
      case True
      then obtain j where "j \<in> set jobs" "w = jb_weblog j" by blast
      then have "mset (concat (map jb_times (of_weblog jobs w))) = mset (jb_times j)" "dict_wf (jb_times j)"
        using workload_own [OF dist] wf by (auto simp: workload_def)
      then show ?thesis by (metis dict_wf_def mset_eq_imp_distinct_iff mset_map)
    next
      case False
      then have "of_weblog jobs w = []" by (auto simp: of_weblog_def filter_empty_conv)
      then show ?thesis by simp
    qed
    then show ?thesis
      using c unfolding content_def workload_def by (metis mset_eq_imp_distinct_iff mset_map)
  qed
  then have "jobs_wf ?h [0..<length ?h]" by (auto simp: jobs_wf_def)
  moreover have "jb_instance k \<ge> 1 \<and> (\<exists>k' \<in> set ?h. jb_weblog k' = jb_weblog k \<and> jb_instance k' = 1)"
    if "k \<in> set ?h" for k
  proof -
    from that obtain js where js: "js \<in> set split" "k \<in> set js" by auto
    then obtain j where "split_of j js"
      using sp by (metis in_set_conv_nth list_all2_conv_all_nth)
    then show ?thesis
      using split_of_instances [of j js k] js by (auto simp: split_of_def)
  qed
  then have "\<forall>a < length ?h. jb_instance (?h ! a) \<ge> 1 \<and>
      (\<exists>b < length ?h. jb_weblog (?h ! b) = jb_weblog (?h ! a) \<and> jb_instance (?h ! b) = 1)"
    by (metis in_set_conv_nth)
  moreover have "inj_on (\<lambda>a. job_key (?h ! a)) {..<length ?h}"
    using keys by (auto simp: inj_on_def distinct_conv_nth) 
  moreover have "card ((\<lambda>a. jb_weblog (?h ! a)) ` {..<length ?h}) \<le> maximum"
  proof -
    have "card (jb_weblog ` set ?h) \<le> card (jb_weblog ` set jobs)"
      using weblogs by (intro card_mono) auto
    also have "\<dots> \<le> length jobs" by (metis card_length length_map list.set_map)
    finally show ?thesis using max by (simp only: nth_image_upt)
  qed
  ultimately show ?thesis unfolding mergeable_def set_upt by auto
qed

lemma split_jobs_ok:
  assumes dist: "distinct (map jb_weblog jobs)" and wf: "\<And>j. j \<in> set jobs \<Longrightarrow> dict_wf (jb_times j)"
    and max: "length jobs \<le> maximum"
  obtains out where "split_jobs_for_parallel_execution fsum jobs desired maximum = Some (Inr out)"
    and "length out \<le> maximum" and "distinct (map job_key out)" and "workload out = workload jobs"
    and "\<And>k. k \<in> set out \<Longrightarrow> jb_weblog k \<in> jb_weblog ` set jobs"
    and "\<And>w. distinct (map fst (concat (map jb_times (of_weblog out w))))"
proof -
  have "\<exists>js. split_for_parallel_execution j desired = Inr js \<and> split_of j js" if "j \<in> set jobs" for j
    using split_job [OF wf [OF that], of desired] unfolding split_of_def by metis
  then obtain split where r: "rmap (\<lambda>j. split_for_parallel_execution j desired) jobs = Inr split"
    and sp: "list_all2 split_of jobs split"
    using rmap_all2 [of jobs "\<lambda>j. split_for_parallel_execution j desired" split_of] by blast
  let ?h = "concat split" and ?all = "[0..<length (concat split)]"
  have m: "mergeable maximum ?h ?all" by (rule split_mergeable [OF sp dist wf max])
  obtain h' result' where loop: "merge_loop fsum maximum (?h, ?all) = Some (Inr (h', result'))"
    and len: "length result' \<le> maximum" and same: "same_jobs ?h h'" and sub: "set result' \<subseteq> set ?all"
    and wf': "jobs_wf h' result'" and keep: "content h' result' = content ?h ?all"
    by (rule merge_loop_ok [OF m])
  let ?out = "map (\<lambda>a. h' ! a) result'"
  have eqs: "job_key (h' ! a) = job_key (?h ! a)" for a using same by (simp add: same_jobs_def)
  have "inj_on (\<lambda>a. job_key (?h ! a)) (set result')"
    using m sub unfolding mergeable_def by (blast intro: inj_on_subset)
  then have "inj_on (\<lambda>a. job_key (h' ! a)) (set result')" by (simp only: eqs)
  then have d: "distinct (map job_key ?out)" using wf' by (simp add: distinct_map jobs_wf_def comp_def)
  have w: "workload ?out = workload jobs"
    using keep by (simp add: fun_eq_iff content_workload map_nth split_of_workload [OF sp])
  have web: "jb_weblog k \<in> jb_weblog ` set jobs" if out: "k \<in> set ?out" for k
  proof -
    from out obtain a where a: "a \<in> set result'" "k = h' ! a" by auto
    then have "a < length ?h" using sub by auto
    then have "?h ! a \<in> set ?h" by (rule nth_mem)
    moreover have "jb_weblog k = jb_weblog (?h ! a)" using eqs [of a] a by simp
    ultimately show ?thesis using split_of_distinct_keys [OF sp dist] by auto
  qed
  have u: "distinct (map fst (concat (map jb_times (of_weblog ?out w))))" for w
    using wf' by (simp add: jobs_wf_def items_at_def weblog_jobs_at_def of_weblog_def filter_map comp_def)
  have res: "split_jobs_for_parallel_execution fsum jobs desired maximum = Some (Inr ?out)"
    by (simp add: split_jobs_for_parallel_execution_def r loop Let_def)
  show ?thesis by (rule that [OF res _ d w web u]) (use len in simp_all)
qed

subsection \<open>End-to-end definitions\<close>

text \<open>
  The iteration order of a \<open>set\<close> is some enumeration of its elements, each once.
\<close>

definition enumerates :: "('a set \<Rightarrow> 'a list) \<Rightarrow> 'a set \<Rightarrow> bool" where
  "enumerates order S \<longleftrightarrow> set (order S) = S \<and> distinct (order S)"

definition supported_names :: "weblog \<Rightarrow> scenario list \<Rightarrow> string set" where
  "supported_names w scenarios =
     set (map sc_name (filter (\<lambda>s. support_scenario w (sc_name s) (sc_weblog_categories s)) scenarios))"

lemma filter_scenarios_names:
  "enumerates order (set scenarios) \<Longrightarrow> sc_name ` set (filter_scenarios order scenarios w) = supported_names w scenarios"
  by (simp add: filter_scenarios_def supported_names_def enumerates_def)

text \<open>The statistics give a time for everything that has to run.\<close>

definition timed :: "string \<Rightarrow> 'f::zero time_stats \<Rightarrow> weblog list \<Rightarrow> scenario list \<Rightarrow> bool" where
  "timed library stats ws scenarios \<longleftrightarrow>
     (\<forall>w \<in> set ws. is_ok (get_build_time library w (ts_build stats)) \<and>
        (\<forall>s \<in> set scenarios. is_ok (get_execution_time library (wb_name w) (sc_name s) (ts_run stats))))"

lemma is_ok_iff: "is_ok x \<longleftrightarrow> (\<exists>v. x = Inr v)"
  by (cases x) auto

lemma fold_dset_keys_in:
  "dict_wf d \<Longrightarrow> dict_wf (fold (\<lambda>(k, v). dset k v) ps d) \<and>
    fst ` set (fold (\<lambda>(k, v). dset k v) ps d) = fst ` set d \<union> fst ` set ps"
proof (induction ps arbitrary: d)
  case (Cons p ps)
  obtain k v where p: "p = (k, v)" by force
  have "fst ` set (dset k v d) = insert k (fst ` set d)"
    using dkeys_dset [of k v d] by (metis (no_types, lifting) dkeys_def insert_absorb list.set_map
      Un_insert_right empty_set list.simps(15) set_append sup_bot_right)
  with Cons.IH [of "dset k v d"] Cons.prems show ?case by (simp add: p)
qed simp

lemma first_job_ok:
  assumes ord: "enumerates order (set scenarios)" and w: "w \<in> set ws" and timed: "timed library stats ws scenarios"
  shows "\<exists>js. first_job order library scenarios stats w = Inr js \<and>
    length js \<le> 1 \<and> (\<forall>j \<in> set js. jb_weblog j = w \<and> jb_instance j = 1 \<and> dict_wf (jb_times j)) \<and>
    fst ` set (concat (map jb_times js)) = supported_names w scenarios"
proof (cases "filter_scenarios order scenarios w")
  case Nil
  then show ?thesis
    using filter_scenarios_names [OF ord, of w] by (simp add: first_job_def)
next
  case (Cons s ss)
  let ?ss = "filter_scenarios order scenarios w"
  let ?time = "\<lambda>s. get_execution_time library (wb_name w) (sc_name s) (ts_run stats)"
  have sub: "set ?ss \<subseteq> set scenarios"
    using ord by (auto simp: filter_scenarios_def enumerates_def)
  have "\<exists>y. rbind (?time s) (\<lambda>t. Inr (sc_name s, t)) = Inr y \<and> fst y = sc_name s" if "s \<in> set ?ss" for s
    using timed w sub that by (fastforce simp: timed_def is_ok_iff)
  then obtain items where items: "rmap (\<lambda>s. rbind (?time s) (\<lambda>t. Inr (sc_name s, t))) ?ss = Inr items"
    and all2: "list_all2 (\<lambda>s y. fst y = sc_name s) ?ss items"
    using rmap_all2 [of ?ss "\<lambda>s. rbind (?time s) (\<lambda>t. Inr (sc_name s, t))" "\<lambda>s y. fst y = sc_name s"] by blast
  from all2 have "map fst items = map sc_name ?ss" by (induction rule: list_all2_induct) auto
  then have names: "fst ` set items = supported_names w scenarios"
    using filter_scenarios_names [OF ord, of w] by (metis list.set_map)
  obtain b where b: "get_build_time library w (ts_build stats) = Inr b"
    using timed w by (auto simp: timed_def is_ok_iff)
  let ?d = "fold (\<lambda>(s, t). dset s t) items []"
  have "first_job order library scenarios stats w =
      Inr [\<lparr>jb_library = library, jb_weblog = w, jb_instance = 1, jb_times = ?d, jb_build_time = b\<rparr>]"
    using Cons items b by (simp add: first_job_def)
  moreover have "dict_wf ?d" "fst ` set ?d = supported_names w scenarios"
    using fold_dset_keys_in [of "[]" items] names by simp_all
  ultimately show ?thesis by simp
qed

lemma initial_jobs:
  assumes ord: "enumerates order (set scenarios)" and dist: "distinct ws" and timed: "timed library stats ws scenarios"
  obtains per where "rmap (first_job order library scenarios stats) ws = Inr per"
    and "distinct (map jb_weblog (concat per))" and "\<And>j. j \<in> set (concat per) \<Longrightarrow> dict_wf (jb_times j)"
    and "length (concat per) \<le> length ws" and "jb_weblog ` set (concat per) \<subseteq> set ws"
    and "\<And>w. w \<in> set ws \<Longrightarrow> fst ` set_mset (workload (concat per) w) = supported_names w scenarios"
proof -
  let ?P = "\<lambda>w js. length js \<le> 1 \<and> (\<forall>j \<in> set js. jb_weblog j = w \<and> jb_instance j = 1 \<and> dict_wf (jb_times j)) \<and>
    fst ` set (concat (map jb_times js)) = supported_names w scenarios"
  obtain per where r: "rmap (first_job order library scenarios stats) ws = Inr per" and all: "list_all2 ?P ws per"
    using rmap_all2 [of ws "first_job order library scenarios stats" ?P] first_job_ok [OF ord _ timed] by blast
  from all dist have "distinct (map jb_weblog (concat per)) \<and> (\<forall>j \<in> set (concat per). dict_wf (jb_times j)) \<and>
    length (concat per) \<le> length ws \<and> jb_weblog ` set (concat per) \<subseteq> set ws \<and>
    (\<forall>w \<in> set ws. fst ` set_mset (workload (concat per) w) = supported_names w scenarios)"
  proof (induction rule: list_all2_induct)
    case (Cons w ws js per)
    then have own: "fst ` set_mset (workload js w) = supported_names w scenarios" for w'
      using workload_same_weblog [of js w w] by auto
    have other: "w' \<noteq> w \<Longrightarrow> workload js w' = {#}" for w'
      using Cons.hyps workload_other [of w' js] by auto
    have new: "w \<notin> jb_weblog ` set (concat per)"
    proof -
      have "jb_weblog ` set (concat per) \<subseteq> set ws" using Cons by simp
      moreover have "w \<notin> set ws" using Cons.prems by simp
      ultimately show ?thesis by blast
    qed
    then have rest: "workload (concat per) w = {#}" by (rule workload_other)
    have "distinct (map jb_weblog js)" using Cons.hyps by (cases js) auto
    moreover have disj: "jb_weblog ` set js \<inter> jb_weblog ` set (concat per) = {}"
    proof -
      have "jb_weblog ` set js \<subseteq> {w}" using Cons.hyps(1) by auto
      with new show ?thesis by blast
    qed
    ultimately have "distinct (map jb_weblog (concat (js # per)))" using Cons by simp
    moreover have "\<forall>j \<in> set (concat (js # per)). dict_wf (jb_times j)" using Cons by auto
    moreover have "length (concat (js # per)) \<le> length (w # ws)" using Cons by simp
    moreover have "jb_weblog ` set (concat (js # per)) \<subseteq> set (w # ws)"
    proof -
      have "jb_weblog ` set js \<subseteq> {w}" using Cons.hyps(1) by auto
      moreover have "jb_weblog ` set (concat per) \<subseteq> set ws" using Cons by simp
      ultimately show ?thesis by (simp only: concat.simps set_append image_Un list.set(2)) blast
    qed
    moreover have "fst ` set_mset (workload (concat (js # per)) v) = supported_names v scenarios"
      if "v \<in> set (w # ws)" for v
      using that Cons own other [of v] rest by (cases "v = w") auto
    ultimately show ?case by blast
  qed simp
  then show ?thesis using that [OF r] by blast
qed

lemma count_holders:
  "distinct (concat (map f xs)) \<Longrightarrow>
    length (filter (\<lambda>x. s \<in> set (f x)) xs) = (if s \<in> set (concat (map f xs)) then 1 else 0)"
  by (induction xs) (auto simp: filter_empty_conv)

lemma distinct_workload:
  assumes "workload jobs w = workload jobs' w"
  shows "distinct (map fst (concat (map jb_times (of_weblog jobs w)))) \<longleftrightarrow>
    distinct (map fst (concat (map jb_times (of_weblog jobs' w))))"
proof (rule mset_eq_imp_distinct_iff)
  show "mset (map fst (concat (map jb_times (of_weblog jobs w)))) =
      mset (map fst (concat (map jb_times (of_weblog jobs' w))))"
    using assms by (simp only: workload_def mset_map)
qed

lemma endtoend_jobs_ok:
  assumes ord: "enumerates order (set scenarios)" and dist: "distinct ws" and timed: "timed library stats ws scenarios"
    and max: "length ws \<le> maximum"
  obtains out where "endtoend_jobs order fsum library scenarios stats ws desired maximum = Some (Inr out)"
    and "length out \<le> maximum" and "jb_weblog ` set out \<subseteq> set ws"
    and "\<And>w. distinct (map fst (concat (map jb_times (of_weblog out w))))"
    and "\<And>w. w \<in> set ws \<Longrightarrow> fst ` set_mset (workload out w) = supported_names w scenarios"
proof -
  obtain per where r: "rmap (first_job order library scenarios stats) ws = Inr per"
    and d: "distinct (map jb_weblog (concat per))" and wf: "\<And>j. j \<in> set (concat per) \<Longrightarrow> dict_wf (jb_times j)"
    and len: "length (concat per) \<le> length ws" and sub: "jb_weblog ` set (concat per) \<subseteq> set ws"
    and names: "\<And>w. w \<in> set ws \<Longrightarrow> fst ` set_mset (workload (concat per) w) = supported_names w scenarios"
    by (rule initial_jobs [OF ord dist timed]) blast
  let ?jobs = "concat per"
  let ?key = "\<lambda>j. (wb_name (jb_weblog j), jb_instance j)"
  have own: "distinct (map fst (concat (map jb_times (of_weblog ?jobs w))))" for w
  proof (cases "w \<in> jb_weblog ` set ?jobs")
    case True
    then obtain j where j: "j \<in> set ?jobs" "w = jb_weblog j" by blast
    then have "mset (concat (map jb_times (of_weblog ?jobs w))) = mset (jb_times j)"
      using workload_own [OF d] by (simp add: workload_def)
    then show ?thesis using wf [OF j(1)] by (metis dict_wf_def mset_eq_imp_distinct_iff mset_map)
  next
    case False
    then have "of_weblog ?jobs w = []" by (auto simp: of_weblog_def filter_empty_conv)
    then show ?thesis by simp
  qed
  obtain out where s: "(if desired > 0 then split_jobs_for_parallel_execution fsum ?jobs desired maximum
      else Some (Inr ?jobs)) = Some (Inr out)" and o: "length out \<le> maximum" "jb_weblog ` set out \<subseteq> set ws"
      "workload out = workload ?jobs" and du: "\<And>w. distinct (map fst (concat (map jb_times (of_weblog out w))))"
  proof (cases "desired > 0")
    case True
    have le: "length ?jobs \<le> maximum" using len max by simp
    obtain out where out: "split_jobs_for_parallel_execution fsum ?jobs desired maximum = Some (Inr out)"
      "length out \<le> maximum" "distinct (map job_key out)" "workload out = workload ?jobs"
      "\<And>k. k \<in> set out \<Longrightarrow> jb_weblog k \<in> jb_weblog ` set ?jobs"
      "\<And>w. distinct (map fst (concat (map jb_times (of_weblog out w))))"
      by (rule split_jobs_ok [OF d _ le, of fsum desired], erule wf) (rule that)
    have "jb_weblog ` set out \<subseteq> set ws" using out(5) sub by blast
    with out show ?thesis using True by (intro that [of out]) simp_all
  next
    case False
    then show ?thesis using len max sub own by (intro that [of ?jobs]) auto
  qed
  have perm: "mset (of_weblog (sort_key ?key out) w) = mset (of_weblog out w)" for w
    by (simp add: of_weblog_def)
  have work: "workload (sort_key ?key out) w = workload out w" for w
    by (simp add: workload_def mset_concat perm flip: sum_mset_sum_list)
  have "distinct (map fst (concat (map jb_times (of_weblog (sort_key ?key out) w))))" for w
    using du [of w] distinct_workload [OF work] by blast
  moreover have "endtoend_jobs order fsum library scenarios stats ws desired maximum = Some (Inr (sort_key ?key out))"
    using max s by (simp add: endtoend_jobs_def r)
  ultimately show ?thesis using o names work by (intro that [of "sort_key ?key out"]) auto
qed

subsection \<open>Claims\<close>

text \<open>The packing puts every scenario of a job into exactly one backpack, and a backpack
  holds a single scenario or its accumulated time is within the desired time.\<close>

theorem scenarios_packed:
  assumes "dict_wf durations"
  shows "mset (concat (split_scenarios_for_parallel_execution durations desired)) = mset (dkeys durations) \<and>
    list_all (\<lambda>ss. ss \<noteq> [] \<and> (length ss = 1 \<or> load durations ss \<le> desired))
      (split_scenarios_for_parallel_execution durations desired)"
  using split_scenarios_mset [of durations desired] split_scenarios_fit [OF assms, of desired] by blast

definition sample_durations :: "(string, int) dict" where
  "sample_durations = [(''DEFAULT'', 50), (''APPSEC'', 120), (''IAST'', 30), (''PROFILING'', 40)]"

theorem scenarios_packed_witness:
  "split_scenarios_for_parallel_execution sample_durations 100 =
     [[''APPSEC''], [''DEFAULT'', ''PROFILING''], [''IAST'']] \<and>
   list_all (\<lambda>ss. ss \<noteq> [] \<and> (length ss = 1 \<or> load sample_durations ss \<le> 100))
     (split_scenarios_for_parallel_execution sample_durations 100)"
proof -
  have "dict_wf sample_durations" by (simp add: sample_durations_def dict_wf_def)
  from scenarios_packed [OF this, of 100] show ?thesis
    by (simp add: split_scenarios_for_parallel_execution_def sorted_reverse_def sample_durations_def
      new_backpack_def)
qed

text \<open>C5.  The computation of the end-to-end definitions ends for every input: the loop that
  merges jobs never runs for ever, even on inputs for which it raises an error.\<close>

theorem endtoend_definitions_terminate:
  "\<exists>r. get_endtoend_definitions order fsum loaded stats library scenario_map weblogs_filter ci_environment
     desired maximum unique_id binaries_artifact = Some r"
proof -
  have "\<exists>r. endtoend_jobs order fsum library scenarios stats ws desired maximum = Some r" for scenarios ws
    using split_jobs_total [of fsum] by (auto simp: endtoend_jobs_def split: sum.split)
  then show ?thesis by (auto simp: get_endtoend_definitions_def Let_def)
qed

text \<open>C6.  With at least as many runners as weblogs, splitting the jobs of different weblogs
  succeeds: the loop never looks for the fastest of no jobs and never appends a scenario twice,
  it ends with no more jobs than runners, two jobs of a weblog have different instance numbers,
  and each weblog still has the same scenarios with the same times.\<close>

theorem enough_runners:
  assumes "distinct (map jb_weblog jobs)" and "list_all (\<lambda>j. dict_wf (jb_times j)) jobs"
    and "length jobs \<le> maximum"
  shows "\<exists>out. split_jobs_for_parallel_execution fsum jobs desired maximum = Some (Inr out) \<and>
    length out \<le> maximum \<and> distinct (map (\<lambda>j. (jb_weblog j, jb_instance j)) out) \<and>
    workload out = workload jobs"
proof -
  have wf: "dict_wf (jb_times j)" if "j \<in> set jobs" for j using assms(2) that by (auto simp: list_all_iff)
  show ?thesis
    by (rule split_jobs_ok [OF assms(1) _ assms(3), of fsum desired], erule wf) blast
qed

definition sample_job :: "string \<Rightarrow> (string, int) dict \<Rightarrow> int job" where
  "sample_job name durations = \<lparr>jb_library = ''ruby'', jb_weblog = default_weblog name ''ruby'', jb_instance = 1,
     jb_times = durations, jb_build_time = 10\<rparr>"

theorem enough_runners_witness:
  "\<exists>out. split_jobs_for_parallel_execution sum_list
       [sample_job ''rack'' sample_durations, sample_job ''rails70'' sample_durations] 110 4 = Some (Inr out) \<and>
    length out \<le> 4 \<and> distinct (map (\<lambda>j. (jb_weblog j, jb_instance j)) out) \<and>
    workload out = workload [sample_job ''rack'' sample_durations, sample_job ''rails70'' sample_durations]"
  by (rule enough_runners)
    (simp_all add: sample_job_def default_weblog_def sample_durations_def dict_wf_def)

lemma count_names:
  assumes names: "inj_on wb_name (set ws)" and sub: "jb_weblog ` set out \<subseteq> set ws" and w: "w \<in> set ws"
    and d: "distinct (map fst (concat (map jb_times (of_weblog out w))))"
  shows "length (filter (\<lambda>j. jd_weblog j = wb_name w \<and> s \<in> set (jd_scenarios j)) (map (serialize_job fsum) out)) =
    (if s \<in> fst ` set_mset (workload out w) then 1 else 0)"
proof -
  have same: "wb_name (jb_weblog j) = wb_name w \<longleftrightarrow> jb_weblog j = w" if "j \<in> set out" for j
    using names sub w that by (auto simp: inj_on_def)
  have keys: "map fst (concat (map jb_times xs)) = concat (map (\<lambda>j. dkeys (jb_times j)) xs)" for xs
    by (simp add: map_concat dkeys_def comp_def)
  have "length (filter (\<lambda>j. jd_weblog j = wb_name w \<and> s \<in> set (jd_scenarios j)) (map (serialize_job fsum) out)) =
      length (filter (\<lambda>j. jb_weblog j = w \<and> s \<in> set (dkeys (jb_times j))) out)"
    using same by (auto simp: filter_map comp_def serialize_job_def intro!: arg_cong [of _ _ length] filter_cong)
  also have "\<dots> = length (filter (\<lambda>j. s \<in> set (dkeys (jb_times j))) (of_weblog out w))"
    by (simp add: of_weblog_def conj_commute)
  also have "\<dots> = (if s \<in> set (concat (map (\<lambda>j. dkeys (jb_times j)) (of_weblog out w))) then 1 else 0)"
    by (rule count_holders) (use d in \<open>simp only: keys\<close>)
  also have "set (concat (map (\<lambda>j. dkeys (jb_times j)) (of_weblog out w))) = fst ` set_mset (workload out w)"
    unfolding workload_def keys [symmetric] by simp
  finally show ?thesis .
qed

lemma sort_key_distinct_names:
  "distinct (map wb_name loaded) \<Longrightarrow>
    distinct (map wb_name (get_endtoend_weblogs loaded library names unique_id env artifact))"
proof -
  have sort: "distinct (map wb_name (sort_key wb_name ws)) \<longleftrightarrow> distinct (map wb_name ws)" for ws :: "weblog list"
    by (rule mset_eq_imp_distinct_iff) simp
  assume "distinct (map wb_name loaded)"
  then show ?thesis
    by (simp only: get_endtoend_weblogs_def Let_def sort)
      (simp add: distinct_map_filter comp_def)
qed

lemma endtoend_runs_once:
  assumes "enumerates order (set scenarios)" and "distinct (map wb_name loaded)"
    and "weblogs = get_endtoend_weblogs loaded library names unique_id env artifact"
    and "scenarios = (case dget scenario_map ''endtoend'' of None \<Rightarrow> [] | Some ss \<Rightarrow> ss)"
    and "timed library stats weblogs scenarios" and "length weblogs \<le> maximum"
  shows "\<exists>d. get_endtoend_definitions order fsum loaded stats library scenario_map names env desired maximum
      unique_id artifact = Some (Inr d) \<and> length (ed_parallel_jobs d) \<le> maximum \<and>
    (\<forall>w \<in> set weblogs. \<forall>s.
      length (filter (\<lambda>j. jd_weblog j = wb_name w \<and> s \<in> set (jd_scenarios j)) (ed_parallel_jobs d)) =
      (if s \<in> supported_names w scenarios then 1 else 0))"
proof -
  have dn: "distinct (map wb_name weblogs)" unfolding assms(3) by (rule sort_key_distinct_names [OF assms(2)])
  then have d: "distinct weblogs" by (simp add: distinct_map)
  obtain out where out: "endtoend_jobs order fsum library scenarios stats weblogs desired maximum = Some (Inr out)"
    and len: "length out \<le> maximum" and sub: "jb_weblog ` set out \<subseteq> set weblogs"
    and du: "\<And>w. distinct (map fst (concat (map jb_times (of_weblog out w))))"
    and names: "\<And>w. w \<in> set weblogs \<Longrightarrow> fst ` set_mset (workload out w) = supported_names w scenarios"
    by (rule endtoend_jobs_ok [OF assms(1) d assms(5,6), of fsum desired]) (rule that)
  have "get_endtoend_definitions order fsum loaded stats library scenario_map names env desired maximum
      unique_id artifact = Some (Inr (endtoend_defs_of fsum out))"
    using out by (simp add: get_endtoend_definitions_def Let_def flip: assms(3,4))
  moreover have jobs: "ed_parallel_jobs (endtoend_defs_of fsum out) = map (serialize_job fsum) out"
    by (simp add: endtoend_defs_of_def Let_def)
  moreover have inj: "inj_on wb_name (set weblogs)" using dn by (simp add: distinct_map)
  have "length (filter (\<lambda>j. jd_weblog j = wb_name w \<and> s \<in> set (jd_scenarios j)) (map (serialize_job fsum) out)) =
      (if s \<in> supported_names w scenarios then 1 else 0)" if "w \<in> set weblogs" for w s
    by (simp only: count_names [OF inj sub that du] names [OF that])
  ultimately show ?thesis using len by auto
qed

text \<open>When the weblogs of a library have different names, the statistics give a time for
  all that has to run and there are at least as many runners as weblogs, the definitions are
  computed, there are no more jobs than runners, and in every selected weblog a scenario the
  weblog supports runs in exactly one job, a scenario it does not support in none.\<close>

theorem every_supported_scenario_runs_once:
  assumes "enumerates order (set scenarios)" and "distinct (map wb_name loaded)"
    and "weblogs = get_endtoend_weblogs loaded library names unique_id env artifact"
    and "scenarios = (case dget scenario_map ''endtoend'' of None \<Rightarrow> [] | Some ss \<Rightarrow> ss)"
    and "timed library stats weblogs scenarios" and "length weblogs \<le> maximum"
  shows "\<exists>d. get_endtoend_definitions order fsum loaded stats library scenario_map names env desired maximum
      unique_id artifact = Some (Inr d) \<and> length (ed_parallel_jobs d) \<le> maximum \<and>
    (\<forall>w \<in> set weblogs. \<forall>s.
      length (filter (\<lambda>j. jd_weblog j = wb_name w \<and> s \<in> set (jd_scenarios j)) (ed_parallel_jobs d)) =
      (if s \<in> supported_names w scenarios then 1 else 0))"
  by (rule endtoend_runs_once [OF assms])

definition sample_weblogs :: "weblog list" where
  "sample_weblogs = [(default_weblog ''sinatra22'' ''ruby'')\<lparr>wb_categories := [C_dd_trace]\<rparr>,
     (default_weblog ''rack'' ''ruby'')\<lparr>wb_categories := [C_dd_trace], wb_excluded_scenarios := [''IAST'']\<rparr>]"

definition sample_scenarios :: "scenario list" where
  "sample_scenarios =
     [\<lparr>sc_name = ''DEFAULT'', sc_weblog_categories = [C_dd_trace], sc_github_workflow = Some ''endtoend'',
       sc_scenario_groups = [''essentials'', ''all''], sc_with_datadog_operator = False, sc_with_cluster_agent = False\<rparr>,
      \<lparr>sc_name = ''IAST'', sc_weblog_categories = [C_dd_trace], sc_github_workflow = Some ''endtoend'',
       sc_scenario_groups = [''appsec'', ''all''], sc_with_datadog_operator = False, sc_with_cluster_agent = False\<rparr>]"

definition sample_stats :: "int time_stats" where
  "sample_stats = \<lparr>ts_build = Stat_table [(''*'', Stat_time 10)],
     ts_run = Stat_table [(''*'', Stat_time 60), (''IAST'', Stat_table [(''*'', Stat_time 80)])]\<rparr>"

definition sample_selected :: "weblog list" where
  "sample_selected = get_endtoend_weblogs sample_weblogs ''ruby'' [] ''1'' ''dev'' ''''"

theorem every_supported_scenario_runs_once_witness:
  "\<exists>d. get_endtoend_definitions (\<lambda>_. sample_scenarios) sum_list sample_weblogs sample_stats ''ruby''
      [(''endtoend'', sample_scenarios)] [] ''dev'' 100 2 ''1'' '''' = Some (Inr d) \<and>
    length (ed_parallel_jobs d) \<le> 2 \<and>
    length (filter (\<lambda>j. jd_weblog j = ''rack'' \<and> ''DEFAULT'' \<in> set (jd_scenarios j)) (ed_parallel_jobs d)) = 1 \<and>
    length (filter (\<lambda>j. jd_weblog j = ''rack'' \<and> ''IAST'' \<in> set (jd_scenarios j)) (ed_parallel_jobs d)) = 0"
proof -
  have sel: "sample_selected = map (\<lambda>w. w\<lparr>wb_artifact_name := ''binaries_dev_ruby_'' @ wb_name w @ ''_1''\<rparr>) (rev sample_weblogs)"
    by (simp add: sample_selected_def get_endtoend_weblogs_def sample_weblogs_def default_weblog_def)
  let ?rack = "(default_weblog ''rack'' ''ruby'')\<lparr>wb_categories := [C_dd_trace], wb_excluded_scenarios := [''IAST''],
    wb_artifact_name := ''binaries_dev_ruby_rack_1''\<rparr>"
  have ord: "enumerates (\<lambda>_. sample_scenarios) (set sample_scenarios)"
    by (simp add: enumerates_def sample_scenarios_def)
  have dist: "distinct (map wb_name sample_weblogs)" by (simp add: sample_weblogs_def default_weblog_def)
  have sc: "sample_scenarios = (case dget [(''endtoend'', sample_scenarios)] ''endtoend'' of None \<Rightarrow> [] | Some ss \<Rightarrow> ss)"
    by simp
  have timed: "timed ''ruby'' sample_stats sample_selected sample_scenarios"
    by (simp add: timed_def sel sample_weblogs_def default_weblog_def sample_scenarios_def sample_stats_def
      get_build_time_def get_execution_time_def dhas_def dgetitem_def)
  have len: "length sample_selected \<le> 2" by (simp add: sel sample_weblogs_def)
  have rack: "?rack \<in> set sample_selected" by (simp add: sel sample_weblogs_def default_weblog_def)
  have name: "wb_name ?rack = ''rack''" by (simp add: default_weblog_def)
  have names: "supported_names ?rack sample_scenarios = {''DEFAULT''}"
    by (auto simp: supported_names_def sample_scenarios_def support_scenario_def default_weblog_def)
  obtain d where d: "get_endtoend_definitions (\<lambda>_. sample_scenarios) sum_list sample_weblogs sample_stats ''ruby''
      [(''endtoend'', sample_scenarios)] [] ''dev'' 100 2 ''1'' '''' = Some (Inr d)"
    and l: "length (ed_parallel_jobs d) \<le> 2"
    and c: "\<And>w s. w \<in> set sample_selected \<Longrightarrow>
      length (filter (\<lambda>j. jd_weblog j = wb_name w \<and> s \<in> set (jd_scenarios j)) (ed_parallel_jobs d)) =
      (if s \<in> supported_names w sample_scenarios then 1 else 0)"
    using every_supported_scenario_runs_once
      [OF ord dist sample_selected_def sc timed len, of sum_list 100] by blast
  show ?thesis using d l c [OF rack, of "''DEFAULT''"] c [OF rack, of "''IAST''"] unfolding name names by auto
qed

end
