(* ===== verification/Ci_Data.thy ===== *)
theory Ci_Data
  imports Workflow_Jobs
begin

section \<open>Parameters of a CI workflow (compute-workflow-parameters.py)\<close>

text \<open>
  From the command line of the CI to the data a workflow is built from: which scenarios run in
  which workflow, and the matrices and jobs of every workflow.  The files read on the way are
  fields of \<open>ci_files\<close>; \<open>secrets.token_hex\<close> is the parameter \<open>unique_id\<close>.
\<close>

definition clean_input_value :: "string \<Rightarrow> string" where
  "clean_input_value s =
     str_replace [CHR 0x09] '''' (str_replace [CHR 0x0A] '''' (str_replace '' '' '''' s))"

text \<open>The attributes of \<open>_ScenarioGroups\<close> and \<open>scenario_groups[key]\<close>.\<close>

definition scenario_group_names :: "string list" where
  "scenario_group_names =
     [''agentless'', ''all'', ''ai_guard'', ''appsec'', ''appsec_rasp'', ''appsec_rasp_scenario'',
      ''appsec_lambda'', ''debugger'', ''docker_fixtures'', ''end_to_end'', ''exotics'', ''graphql'',
      ''integrations'', ''integration_frameworks'', ''ipv6'', ''lambda_end_to_end'', ''lib_injection'',
      ''lib_injection_profiling'', ''lib_injection_appsec'', ''k8s_injector_dev'', ''open_telemetry'',
      ''profiling'', ''sampling'', ''onboarding'', ''simple_onboarding'', ''simple_onboarding_profiling'',
      ''simple_onboarding_appsec'', ''docker_ssi'', ''essentials'', ''remote_config'', ''telemetry'',
      ''tracing_config'', ''tracer_release'', ''appsec_low_waf_timeout'', ''ffe'', ''thread_context_sharing'']"

definition group_key :: "string \<Rightarrow> string" where
  "group_key key = str_lower (str_replace ''-'' ''_'' key)"

definition scenario_group :: "string \<Rightarrow> string res" where
  "scenario_group key =
     (if group_key key \<in> set scenario_group_names then Inr (group_key key) else Inl Value_Error)"

subsection \<open>Scenarios per workflow\<close>

definition clean_names :: "string list \<Rightarrow> string list" where
  "clean_names names = [str_strip name. name \<leftarrow> names, str_strip name \<noteq> []]"

definition is_selected :: "string list \<Rightarrow> string list \<Rightarrow> string list \<Rightarrow> scenario \<Rightarrow> bool" where
  "is_selected names excluded groups s =
     (if sc_name s \<in> set excluded then False
      else if sc_name s \<in> set names then True
      else (\<exists>g \<in> set groups. g \<in> set (sc_scenario_groups s)))"

text \<open>One round of the loop over the scenarios; a workflow is listed once a scenario of it is met.\<close>

definition add_to_workflow ::
  "string list \<Rightarrow> string list \<Rightarrow> string list \<Rightarrow> scenario \<Rightarrow> (string, scenario list) dict \<Rightarrow> (string, scenario list) dict" where
  "add_to_workflow names excluded groups s result =
     (case sc_github_workflow s of
        None \<Rightarrow> result
      | Some workflow \<Rightarrow>
          if workflow = [] then result
          else dextend workflow (if is_selected names excluded groups s then [s] else []) result)"

definition existing_scenarios :: "scenario list \<Rightarrow> (string, scenario) dict" where
  "existing_scenarios scenarios = fold (\<lambda>s. dset (sc_name s) s) scenarios []"

definition get_workflow_map ::
  "scenario list \<Rightarrow> string list \<Rightarrow> string list \<Rightarrow> string list \<Rightarrow> (string, scenario list) dict res" where
  "get_workflow_map scenarios scenario_names excluded_scenario_names scenario_groups =
     (let names = clean_names scenario_names;
          group_names = clean_names scenario_groups;
          excluded = clean_names excluded_scenario_names;
          existing = existing_scenarios scenarios
      in if \<not> set names \<subseteq> set (dkeys existing) then Inl Value_Error
         else rbind (rmap scenario_group group_names) (\<lambda>groups.
           Inr (fold (add_to_workflow names excluded groups) (map snd existing) [])))"

subsection \<open>Data of all workflows\<close>

record ci_arguments =
  ca_library :: string
  ca_scenarios :: string
  ca_groups :: string
  ca_excluded_scenarios :: string
  ca_weblogs :: string
  ca_parametric_job_count :: nat
  ca_parametric_workers :: nat
  ca_explicit_binaries_artifact :: string
  ca_system_tests_dev_mode :: bool
  ca_ci_environment :: "string option"

record 'f ci_files =
  cf_scenarios :: "scenario list"
  cf_weblogs :: "weblog list"
  cf_time_stats :: "'f time_stats"
  cf_k8s :: "matrix_entry list"
  cf_k8s_injector_dev :: "matrix_entry list"
  cf_docker_images :: "image list"
  cf_docker_runtimes :: "(string, runtime list) dict"
  cf_docker_matrix :: "matrix_entry list"
  cf_docker_specs :: "(string, docker_weblog_spec list) dict"
  cf_virtual_machines :: "vm list"
  cf_aws_matrix :: "matrix_entry list"
  cf_aws_specs :: "(string, vm_weblog_spec list) dict"

record parametric_data =
  pd_job_count :: nat
  pd_job_matrix :: "nat list"
  pd_workers :: nat
  pd_enable :: bool
  pd_scenarios :: "string list"

record 'f ci_data =
  cd_binaries_artifact :: string
  cd_ci_environment :: string
  cd_endtoend_defs :: "'f endtoend_defs"
  cd_parametric :: parametric_data
  cd_libinjection_defs :: "(string, string list) dict"
  cd_k8s_injector_dev_defs :: "(string, (string, string list) dict) dict"
  cd_dockerssi_defs :: "(string, (string, docker_cell list) dict) dict"
  cd_aws_ssi_defs :: "(string, (string, string list) dict) dict"
  cd_legacy_weblogs :: "string list"
  cd_legacy_scenarios :: "string list"

definition environment_of :: "ci_arguments \<Rightarrow> string \<times> string" where
  "environment_of a =
     (case ca_ci_environment a of
        Some env \<Rightarrow> (env, '''')
      | None \<Rightarrow>
          if ca_system_tests_dev_mode a then (''dev'', ''binaries_dev_'' @ ca_library a)
          else if length (ca_explicit_binaries_artifact a) \<noteq> 0 then (''custom'', ca_explicit_binaries_artifact a)
          else (''prod'', ''''))"

definition not_parametric :: "string list" where
  "not_parametric = [''c'', ''cpp_nginx'', ''cpp_kong'', ''cpp_httpd'', ''java_lambda'', ''nodejs_lambda'',
     ''python_lambda'', ''ruby_lambda'', ''envoy'', ''haproxy'']"

definition workflow_scenarios :: "(string, scenario list) dict \<Rightarrow> string \<Rightarrow> scenario list" where
  "workflow_scenarios m workflow = (case dget m workflow of None \<Rightarrow> [] | Some ss \<Rightarrow> ss)"

definition parametric_data_of :: "ci_arguments \<Rightarrow> (string, scenario list) dict \<Rightarrow> parametric_data" where
  "parametric_data_of a m =
     (let enable = length (workflow_scenarios m ''parametric'') > 0 \<and>
            \<not> str_contains (ca_library a) ''otel'' \<and> ca_library a \<notin> set not_parametric
      in \<lparr>pd_job_count = ca_parametric_job_count a, pd_job_matrix = [1..<ca_parametric_job_count a + 1],
          pd_workers = ca_parametric_workers a, pd_enable = enable,
          pd_scenarios = (if enable then [''PARAMETRIC''] else [])\<rparr>)"

definition names_in :: "(scenario list) \<Rightarrow> string list" where
  "names_in ss = map sc_name ss"

definition ci_data_of ::
  "(scenario set \<Rightarrow> scenario list) \<Rightarrow> ('f::{linorder,plus,minus,zero} list \<Rightarrow> 'f) \<Rightarrow> string \<Rightarrow> ci_arguments
     \<Rightarrow> 'f \<Rightarrow> 'f ci_files \<Rightarrow> 'f ci_data res option" where
  "ci_data_of order fsum unique_id a desired files =
     (let (env, artifact) = environment_of a;
          scenarios = clean_input_value (ca_scenarios a);
          groups = clean_input_value (ca_groups a);
          excluded = clean_input_value (ca_excluded_scenarios a);
          weblogs = clean_input_value (ca_weblogs a);
          library = ca_library a
      in case get_workflow_map (cf_scenarios files) (str_split '','' scenarios) (str_split '','' excluded)
             (str_split '','' groups) of
           Inl e \<Rightarrow> Some (Inl e)
         | Inr m \<Rightarrow>
             map_option (\<lambda>r. rbind r (\<lambda>defs.
               rbind (get_docker_ssi_matrix (cf_docker_images files) (cf_docker_runtimes files) (cf_docker_matrix files)
                   (cf_docker_specs files) (names_in (workflow_scenarios m ''dockerssi'')) library) (\<lambda>docker.
               rbind (get_aws_matrix (cf_virtual_machines files) (cf_aws_matrix files) (cf_aws_specs files)
                   (names_in (workflow_scenarios m ''aws_ssi'')) library) (\<lambda>aws.
               Inr \<lparr>cd_binaries_artifact = artifact, cd_ci_environment = env, cd_endtoend_defs = defs,
                 cd_parametric = parametric_data_of a m,
                 cd_libinjection_defs = get_k8s_matrix (cf_k8s files) (names_in (workflow_scenarios m ''libinjection'')) library,
                 cd_k8s_injector_dev_defs = get_k8s_injector_dev_matrix (cf_k8s_injector_dev files)
                   (names_in (workflow_scenarios m ''k8s_injector_dev'')) library,
                 cd_dockerssi_defs = docker, cd_aws_ssi_defs = aws,
                 cd_legacy_weblogs = sorted_list_of_set (set (map fst (ed_parallel_weblogs defs))),
                 cd_legacy_scenarios = sorted_list_of_set (set (concat (map jd_scenarios (ed_parallel_jobs defs))))\<rparr>))))
               (get_endtoend_definitions order fsum (cf_weblogs files) (cf_time_stats files) library m
                  (if length weblogs > 0 then str_split '','' weblogs else []) env desired 256 unique_id artifact))"

subsection \<open>What a workflow runs\<close>

lemma workflow_after:
  "workflow_scenarios (fold (add_to_workflow names excluded groups) ss m) w =
    workflow_scenarios m w @ filter (\<lambda>s. sc_github_workflow s = Some w \<and> w \<noteq> [] \<and> is_selected names excluded groups s) ss"
proof (induction ss arbitrary: m)
  case (Cons s ss)
  have "workflow_scenarios (add_to_workflow names excluded groups s m) w =
      workflow_scenarios m w @ (if sc_github_workflow s = Some w \<and> w \<noteq> [] \<and> is_selected names excluded groups s then [s] else [])"
    by (auto simp: add_to_workflow_def workflow_scenarios_def dextend_def split: option.splits)
  with Cons show ?case by simp
qed (simp add: workflow_scenarios_def)

lemma rmap_scenario_group: "rmap scenario_group gs = Inr groups \<Longrightarrow> groups = map group_key gs"
  by (induction gs arbitrary: groups) (auto simp: rbind_Inr_iff scenario_group_def split: if_splits)

lemma workflow_map:
  assumes "get_workflow_map scenarios names excluded groups = Inr m" and "distinct (map sc_name scenarios)"
  obtains gs where "rmap scenario_group (clean_names groups) = Inr gs"
    and "\<And>w. workflow_scenarios m w = filter (\<lambda>s. sc_github_workflow s = Some w \<and> w \<noteq> [] \<and>
      is_selected (clean_names names) (clean_names excluded) gs s) scenarios"
proof -
  have ex: "existing_scenarios scenarios = map (\<lambda>s. (sc_name s, s)) scenarios"
  proof -
    have "distinct (map fst d @ map sc_name ss) \<Longrightarrow>
        fold (\<lambda>s. dset (sc_name s) s) ss d = d @ map (\<lambda>s. (sc_name s, s)) ss" for ss d
      by (induction ss arbitrary: d) (auto simp: dset_new)
    from this [of "[]" scenarios] assms(2) show ?thesis by (simp add: existing_scenarios_def)
  qed
  from assms(1) obtain gs where gs: "rmap scenario_group (clean_names groups) = Inr gs"
    and m: "m = fold (add_to_workflow (clean_names names) (clean_names excluded) gs) scenarios []"
    by (auto simp: get_workflow_map_def Let_def ex comp_def rbind_Inr_iff split: if_splits)
  have "workflow_scenarios m w = filter (\<lambda>s. sc_github_workflow s = Some w \<and> w \<noteq> [] \<and>
      is_selected (clean_names names) (clean_names excluded) gs s) scenarios" for w
    unfolding m workflow_after by (simp add: workflow_scenarios_def)
  with gs show ?thesis by (rule that)
qed

text \<open>When the names and groups asked for are valid, the scenarios of a workflow are those that
  declare it and are not excluded, and are asked for by name or through one of their groups (a group
  is compared in lower case with underscores); each runs once, and the excluded list wins over
  the other two.\<close>

theorem workflow_map_selects:
  assumes "get_workflow_map scenarios names excluded groups = Inr m" and "distinct (map sc_name scenarios)"
  shows "distinct (map sc_name (workflow_scenarios m w)) \<and>
    (s \<in> set (workflow_scenarios m w) \<longleftrightarrow>
      s \<in> set scenarios \<and> w \<noteq> [] \<and> sc_github_workflow s = Some w \<and> sc_name s \<notin> set (clean_names excluded) \<and>
      (sc_name s \<in> set (clean_names names) \<or> set (map group_key (clean_names groups)) \<inter> set (sc_scenario_groups s) \<noteq> {}))"
proof -
  obtain gs where gs: "rmap scenario_group (clean_names groups) = Inr gs"
    and w: "workflow_scenarios m w = filter (\<lambda>s. sc_github_workflow s = Some w \<and> w \<noteq> [] \<and>
      is_selected (clean_names names) (clean_names excluded) gs s) scenarios"
    using workflow_map [OF assms] by metis
  show ?thesis
    unfolding w using rmap_scenario_group [OF gs] assms(2)
    by (auto simp: is_selected_def distinct_map_filter)
qed

definition sample_all :: "scenario list" where
  "sample_all = sample_scenarios @
     [\<lparr>sc_name = ''PARAMETRIC'', sc_weblog_categories = [], sc_github_workflow = Some ''parametric'',
       sc_scenario_groups = [''all'', ''tracer_release''], sc_with_datadog_operator = False, sc_with_cluster_agent = False\<rparr>]"

theorem workflow_map_selects_witness:
  "workflow_scenarios [(''endtoend'', [hd sample_scenarios]), (''parametric'', [last sample_all])] ''endtoend'' = [hd sample_scenarios] \<and>
   get_workflow_map sample_all [''DEFAULT'', ''PARAMETRIC''] [''IAST''] [''APPSEC'', ''ALL''] =
     Inr [(''endtoend'', [hd sample_scenarios]), (''parametric'', [last sample_all])] \<and>
   last sample_scenarios \<notin> set (workflow_scenarios [(''endtoend'', [hd sample_scenarios]), (''parametric'', [last sample_all])] ''endtoend'')"
proof -
  have dist: "distinct (map sc_name sample_all)" by (simp add: sample_all_def sample_scenarios_def)
  have clean: "clean_names [''DEFAULT'', ''PARAMETRIC''] = [''DEFAULT'', ''PARAMETRIC'']"
    "clean_names [''IAST''] = [''IAST'']" "clean_names [''APPSEC'', ''ALL''] = [''APPSEC'', ''ALL'']"
    by code_simp+
  have groups: "scenario_group ''APPSEC'' = Inr ''appsec''" "scenario_group ''ALL'' = Inr ''all''"
    by code_simp+
  have run: "get_workflow_map sample_all [''DEFAULT'', ''PARAMETRIC''] [''IAST''] [''APPSEC'', ''ALL''] =
     Inr [(''endtoend'', [hd sample_scenarios]), (''parametric'', [last sample_all])]"
    by (simp add: get_workflow_map_def clean groups existing_scenarios_def sample_all_def sample_scenarios_def
      dkeys_def add_to_workflow_def is_selected_def dextend_def)
  have "sc_name (last sample_scenarios) \<in> set (clean_names [''IAST''])" by (simp add: clean sample_scenarios_def)
  then have "last sample_scenarios \<notin> set (workflow_scenarios
      [(''endtoend'', [hd sample_scenarios]), (''parametric'', [last sample_all])] ''endtoend'')"
    using workflow_map_selects [OF run dist, of "''endtoend''" "last sample_scenarios"] by blast
  with run show ?thesis by (simp add: workflow_scenarios_def)
qed

text \<open>C2.  In the data computed for a run of the CI, every end-to-end scenario that was selected runs in
  exactly one job of each selected weblog that supports it, and no other scenario runs there: the
  selection, the support of the weblogs and the packing of the jobs compose.\<close>

theorem ci_runs_selected_scenarios:
  assumes "ci_data_of order fsum unique_id a desired files = Some (Inr d)"
    and "get_workflow_map (cf_scenarios files) (str_split '','' (clean_input_value (ca_scenarios a)))
      (str_split '','' (clean_input_value (ca_excluded_scenarios a)))
      (str_split '','' (clean_input_value (ca_groups a))) = Inr m"
    and "weblogs = get_endtoend_weblogs (cf_weblogs files) (ca_library a)
      (if length (clean_input_value (ca_weblogs a)) > 0 then str_split '','' (clean_input_value (ca_weblogs a)) else [])
      unique_id (fst (environment_of a)) (snd (environment_of a))"
    and "enumerates order (set (workflow_scenarios m ''endtoend''))"
    and "distinct (map wb_name (cf_weblogs files))" and "distinct (map sc_name (cf_scenarios files))"
    and "timed (ca_library a) (cf_time_stats files) weblogs (workflow_scenarios m ''endtoend'')"
    and "w \<in> set weblogs"
  shows "length (filter (\<lambda>j. jd_weblog j = wb_name w \<and> s \<in> set (jd_scenarios j)) (ed_parallel_jobs (cd_endtoend_defs d))) =
    (if \<exists>sc \<in> set (cf_scenarios files). sc_name sc = s \<and> sc_github_workflow sc = Some ''endtoend'' \<and>
        s \<notin> set (clean_names (str_split '','' (clean_input_value (ca_excluded_scenarios a)))) \<and>
        (s \<in> set (clean_names (str_split '','' (clean_input_value (ca_scenarios a)))) \<or>
         set (map group_key (clean_names (str_split '','' (clean_input_value (ca_groups a))))) \<inter> set (sc_scenario_groups sc) \<noteq> {}) \<and>
        support_scenario w s (sc_weblog_categories sc)
     then 1 else 0)"
proof -
  let ?names = "if length (clean_input_value (ca_weblogs a)) > 0 then str_split '','' (clean_input_value (ca_weblogs a)) else []"
  let ?sel = "workflow_scenarios m ''endtoend''"
  obtain env artifact where env: "environment_of a = (env, artifact)" by force
  obtain defs where defs: "get_endtoend_definitions order fsum (cf_weblogs files) (cf_time_stats files) (ca_library a) m
      ?names env desired 256 unique_id artifact = Some (Inr defs)" and d: "cd_endtoend_defs d = defs"
    using assms(1) unfolding ci_data_of_def env assms(2) Let_def
    by (auto simp: rbind_Inr_iff)
  have ws: "weblogs = get_endtoend_weblogs (cf_weblogs files) (ca_library a) ?names unique_id env artifact"
    using assms(3) by (simp add: env)
  have le: "length weblogs \<le> 256"
  proof (rule ccontr)
    assume "\<not> length weblogs \<le> 256"
    with defs show False
      by (auto simp: get_endtoend_definitions_def Let_def endtoend_jobs_def ws rbind_Inr_iff split: if_splits)
  qed
  have once: "length (filter (\<lambda>j. jd_weblog j = wb_name w \<and> s \<in> set (jd_scenarios j)) (ed_parallel_jobs defs)) =
      (if s \<in> supported_names w ?sel then 1 else 0)"
  proof -
    obtain d' where "get_endtoend_definitions order fsum (cf_weblogs files) (cf_time_stats files) (ca_library a) m
        ?names env desired 256 unique_id artifact = Some (Inr d')"
      and count: "\<forall>w \<in> set weblogs. \<forall>s.
        length (filter (\<lambda>j. jd_weblog j = wb_name w \<and> s \<in> set (jd_scenarios j)) (ed_parallel_jobs d')) =
        (if s \<in> supported_names w ?sel then 1 else 0)"
      using endtoend_runs_once [OF assms(4,5) ws workflow_scenarios_def assms(7) le, of fsum desired] by blast
    then have "d' = defs" using defs by simp
    then show ?thesis using count assms(8) by blast
  qed
  obtain gs where gs: "rmap scenario_group (clean_names (str_split '','' (clean_input_value (ca_groups a)))) = Inr gs"
    and sel: "\<And>w. workflow_scenarios m w = filter (\<lambda>s. sc_github_workflow s = Some w \<and> w \<noteq> [] \<and>
      is_selected (clean_names (str_split '','' (clean_input_value (ca_scenarios a))))
        (clean_names (str_split '','' (clean_input_value (ca_excluded_scenarios a)))) gs s) (cf_scenarios files)"
    by (rule workflow_map [OF assms(2,6)]) (rule that)
  show ?thesis
    unfolding d once supported_names_def sel rmap_scenario_group [OF gs]
    by (auto simp: is_selected_def)
qed

definition sample_arguments :: ci_arguments where
  "sample_arguments = \<lparr>ca_library = ''ruby'', ca_scenarios = ''DEFAULT'', ca_groups = ''appsec'',
     ca_excluded_scenarios = ''IAST'', ca_weblogs = '''', ca_parametric_job_count = 1, ca_parametric_workers = 4,
     ca_explicit_binaries_artifact = '''', ca_system_tests_dev_mode = False, ca_ci_environment = Some ''dev''\<rparr>"

definition sample_files :: "int ci_files" where
  "sample_files = \<lparr>cf_scenarios = sample_scenarios, cf_weblogs = sample_weblogs, cf_time_stats = sample_stats,
     cf_k8s = [], cf_k8s_injector_dev = [], cf_docker_images = [], cf_docker_runtimes = [], cf_docker_matrix = [],
     cf_docker_specs = [], cf_virtual_machines = [], cf_aws_matrix = [], cf_aws_specs = []\<rparr>"

theorem ci_runs_selected_scenarios_witness:
  "\<exists>d. ci_data_of (\<lambda>_. [hd sample_scenarios]) sum_list ''1'' sample_arguments 100 sample_files = Some (Inr d) \<and>
    length (filter (\<lambda>j. jd_weblog j = ''rack'' \<and> ''DEFAULT'' \<in> set (jd_scenarios j)) (ed_parallel_jobs (cd_endtoend_defs d))) = 1 \<and>
    length (filter (\<lambda>j. jd_weblog j = ''rack'' \<and> ''IAST'' \<in> set (jd_scenarios j)) (ed_parallel_jobs (cd_endtoend_defs d))) = 0"
proof -
  let ?order = "\<lambda>_. [hd sample_scenarios]" and ?m = "[(''endtoend'', [hd sample_scenarios])]"
  have clean: "clean_input_value ''DEFAULT'' = ''DEFAULT''" "clean_input_value ''appsec'' = ''appsec''"
    "clean_input_value ''IAST'' = ''IAST''" "clean_input_value '''' = ''''" by code_simp+
  have split: "str_split '','' ''DEFAULT'' = [''DEFAULT'']" "str_split '','' ''appsec'' = [''appsec'']"
    "str_split '','' ''IAST'' = [''IAST'']" by code_simp+
  have names: "clean_names [''DEFAULT''] = [''DEFAULT'']" "clean_names [''IAST''] = [''IAST'']"
    "clean_names [''appsec''] = [''appsec'']" by code_simp+
  have key: "group_key ''appsec'' = ''appsec''" by code_simp
  have group: "scenario_group ''appsec'' = Inr ''appsec''" by (simp add: scenario_group_def key scenario_group_names_def)
  have m: "get_workflow_map (cf_scenarios sample_files) (str_split '','' (clean_input_value (ca_scenarios sample_arguments)))
      (str_split '','' (clean_input_value (ca_excluded_scenarios sample_arguments)))
      (str_split '','' (clean_input_value (ca_groups sample_arguments))) = Inr ?m"
    by (simp add: sample_files_def sample_arguments_def clean split get_workflow_map_def names group
      existing_scenarios_def sample_scenarios_def dkeys_def add_to_workflow_def is_selected_def dextend_def)
  have sel: "workflow_scenarios ?m ''endtoend'' = [hd sample_scenarios]" by (simp add: workflow_scenarios_def)
  let ?ws = "get_endtoend_weblogs (cf_weblogs sample_files) (ca_library sample_arguments)
      (if length (clean_input_value (ca_weblogs sample_arguments)) > 0
       then str_split '','' (clean_input_value (ca_weblogs sample_arguments)) else [])
      ''1'' (fst (environment_of sample_arguments)) (snd (environment_of sample_arguments))"
  have ws: "?ws = map (\<lambda>w. w\<lparr>wb_artifact_name := ''binaries_dev_ruby_'' @ wb_name w @ ''_1''\<rparr>) (rev sample_weblogs)"
    by (simp add: sample_files_def sample_arguments_def clean environment_of_def get_endtoend_weblogs_def
      sample_weblogs_def default_weblog_def)
  have timed: "timed (ca_library sample_arguments) (cf_time_stats sample_files) ?ws (workflow_scenarios ?m ''endtoend'')"
    unfolding sel ws by (simp add: timed_def sample_weblogs_def default_weblog_def sample_scenarios_def
      sample_stats_def sample_arguments_def sample_files_def get_build_time_def get_execution_time_def dhas_def dgetitem_def)
  have ord: "enumerates ?order (set (workflow_scenarios ?m ''endtoend''))"
    by (simp add: enumerates_def sel)
  have dw: "distinct (map wb_name (cf_weblogs sample_files))"
    by (simp add: sample_files_def sample_weblogs_def default_weblog_def)
  have ds: "distinct (map sc_name (cf_scenarios sample_files))"
    by (simp add: sample_files_def sample_scenarios_def)
  have env: "environment_of sample_arguments = (''dev'', '''')" by (simp add: environment_of_def sample_arguments_def)
  have len: "length ?ws \<le> 256" unfolding ws by (simp add: sample_weblogs_def)
  obtain defs where defs: "get_endtoend_definitions ?order sum_list (cf_weblogs sample_files) (cf_time_stats sample_files)
      (ca_library sample_arguments) ?m
      (if length (clean_input_value (ca_weblogs sample_arguments)) > 0
       then str_split '','' (clean_input_value (ca_weblogs sample_arguments)) else [])
      (fst (environment_of sample_arguments)) 100 256 ''1'' (snd (environment_of sample_arguments)) = Some (Inr defs)"
    using endtoend_runs_once [OF ord dw refl workflow_scenarios_def timed len, of sum_list 100] by blast
  have empty: "get_docker_ssi_matrix [] [] [] [] ns l = Inr []" "get_aws_matrix [] [] [] ns l = Inr []" for ns l
    by (simp_all add: get_docker_ssi_matrix_def get_aws_matrix_def)
  have fields: "cf_docker_images sample_files = []" "cf_docker_runtimes sample_files = []" "cf_docker_matrix sample_files = []"
    "cf_docker_specs sample_files = []" "cf_virtual_machines sample_files = []" "cf_aws_matrix sample_files = []"
    "cf_aws_specs sample_files = []" by (simp_all add: sample_files_def)
  obtain d where d: "ci_data_of ?order sum_list ''1'' sample_arguments 100 sample_files = Some (Inr d)"
    using defs unfolding env fst_conv snd_conv by (simp add: ci_data_of_def env m fields empty Let_def)
  let ?rack = "(default_weblog ''rack'' ''ruby'')\<lparr>wb_categories := [C_dd_trace], wb_excluded_scenarios := [''IAST''],
    wb_artifact_name := ''binaries_dev_ruby_rack_1''\<rparr>"
  have rack: "?rack \<in> set ?ws" unfolding ws by (simp add: sample_weblogs_def default_weblog_def)
  have name: "wb_name ?rack = ''rack''" by (simp add: default_weblog_def)
  note count = ci_runs_selected_scenarios [OF d m refl ord dw ds timed rack, unfolded name]
  have "length (filter (\<lambda>j. jd_weblog j = ''rack'' \<and> ''DEFAULT'' \<in> set (jd_scenarios j)) (ed_parallel_jobs (cd_endtoend_defs d))) = 1"
    unfolding count by (simp add: sample_files_def sample_arguments_def sample_scenarios_def clean split names
      support_scenario_def default_weblog_def)
  moreover have "length (filter (\<lambda>j. jd_weblog j = ''rack'' \<and> ''IAST'' \<in> set (jd_scenarios j)) (ed_parallel_jobs (cd_endtoend_defs d))) = 0"
    unfolding count by (simp add: sample_files_def sample_arguments_def sample_scenarios_def clean split names)
  ultimately show ?thesis using d by blast
qed

end
