(* ===== verification/Rc_Tuf.thy ===== *)
theory Rc_Tuf
  imports Mocked_Response Py_Value
begin

section \<open>Signed metadata of the remote configuration (proxy/tuf.py, proxy/rc\_response\_builder.py)\<close>

text \<open>
  The documents of The Update Framework that a client of the remote configuration checks: the
  targets document lists the configuration files, a snapshot holds its hash, a timestamp holds
  the hash of the snapshot, and all are signed with one key.

  The codec is what the code calls and does not define: \<open>json.dumps\<close> in its four layouts
  (its texts are ASCII), \<open>json.loads\<close>, \<open>str\<close> of the values the model does not print,
  SHA-256 in hexadecimal, the signature of the key in hexadecimal, the bytes of its public key,
  and the serialization of the response message.
\<close>

datatype layout = Indented | Compact | Canonical | Plain

record file_msg =
  fm_path :: json
  fm_raw :: bytes

record top_meta =
  tm_version :: json
  tm_raw :: bytes

record metas =
  mt_roots :: "top_meta list"
  mt_timestamp :: top_meta
  mt_snapshot :: top_meta
  mt_targets :: top_meta

record latest_configs =
  lc_config_metas :: metas
  lc_director_metas :: metas
  lc_target_files :: "file_msg list"

record codec =
  cd_dumps :: "layout \<Rightarrow> json \<Rightarrow> string"
  cd_loads :: "bytes \<Rightarrow> json res"
  cd_str :: "json \<Rightarrow> string"
  cd_sha256 :: "bytes \<Rightarrow> string"
  cd_sign :: "bytes \<Rightarrow> string"
  cd_public_key :: bytes
  cd_serialize :: "latest_configs \<Rightarrow> bytes"

definition encode :: "string \<Rightarrow> bytes" where
  "encode s = map (\<lambda>c. word_of_nat (of_char c)) s"

definition hex_digit :: "nat \<Rightarrow> char" where
  "hex_digit n = ''0123456789abcdef'' ! n"

definition py_hex :: "bytes \<Rightarrow> string" where
  "py_hex bs = concat (map (\<lambda>b. [hex_digit (unat b div 16), hex_digit (unat b mod 16)]) bs)"

subsection \<open>Documents\<close>

definition tuf_keyid :: "codec \<Rightarrow> string" where
  "tuf_keyid C = cd_sha256 C (cd_public_key C)"

definition sign_tuf_document :: "codec \<Rightarrow> json \<Rightarrow> json" where
  "sign_tuf_document C signed_content =
     J_obj [(''signatures'', J_list [J_obj [(''keyid'', J_str (tuf_keyid C)),
               (''sig'', J_str (cd_sign C (encode (cd_dumps C Canonical signed_content))))]]),
            (''signed'', signed_content)]"

definition tuf_role :: "codec \<Rightarrow> json" where
  "tuf_role C = J_obj [(''keyids'', J_list [J_str (tuf_keyid C)]), (''threshold'', J_int 1)]"

definition build_tuf_root :: "codec \<Rightarrow> json" where
  "build_tuf_root C =
     J_obj [(''_type'', J_str ''root''), (''consistent_snapshot'', J_bool True),
       (''expires'', J_str ''3000-01-01T00:00:00Z''),
       (''keys'', J_obj [(tuf_keyid C, J_obj [(''keyid_hash_algorithms'', J_list [J_str ''sha256'']),
          (''keytype'', J_str ''ed25519''), (''keyval'', J_obj [(''public'', J_str (py_hex (cd_public_key C)))]),
          (''scheme'', J_str ''ed25519'')])]),
       (''roles'', J_obj [(''root'', tuf_role C), (''snapshot'', tuf_role C), (''targets'', tuf_role C),
          (''timestamp'', tuf_role C)]),
       (''spec_version'', J_str ''1.0''), (''version'', J_int 1)]"

definition get_tuf_root_json :: "codec \<Rightarrow> string" where
  "get_tuf_root_json C = cd_dumps C Compact (sign_tuf_document C (build_tuf_root C))"

definition default_opaque_backend_state :: string where
  "default_opaque_backend_state = ''eyJmb28iOiAiYmFyIn0=''"

definition default_expires :: string where
  "default_expires = ''3000-01-01T00:00:00Z''"

definition build_targets_content :: "json \<Rightarrow> jobj option \<Rightarrow> string \<Rightarrow> string \<Rightarrow> json" where
  "build_targets_content version targets opaque_backend_state expires =
     J_obj [(''_type'', J_str ''targets''), (''custom'', J_obj [(''opaque_backend_state'', J_str opaque_backend_state)]),
       (''expires'', J_str expires), (''spec_version'', J_str ''1.0''),
       (''targets'', J_obj (case targets of None \<Rightarrow> [] | Some t \<Rightarrow> t)), (''version'', version)]"

definition build_signed_targets :: "codec \<Rightarrow> json \<Rightarrow> jobj option \<Rightarrow> string \<Rightarrow> string \<Rightarrow> json" where
  "build_signed_targets C version targets opaque_backend_state expires =
     sign_tuf_document C (build_targets_content version targets opaque_backend_state expires)"

text \<open>What a snapshot and a timestamp say about the document below them.\<close>

definition meta_entry :: "codec \<Rightarrow> json \<Rightarrow> bytes \<Rightarrow> json" where
  "meta_entry C version doc =
     J_obj [(''hashes'', J_obj [(''sha256'', J_str (cd_sha256 C doc))]), (''length'', J_int (int (length doc))),
       (''version'', version)]"

definition build_snapshot_content :: "codec \<Rightarrow> json \<Rightarrow> bytes \<Rightarrow> json" where
  "build_snapshot_content C version targets_json =
     J_obj [(''_type'', J_str ''snapshot''), (''expires'', J_str default_expires),
       (''meta'', J_obj [(''targets.json'', meta_entry C version targets_json)]),
       (''spec_version'', J_str ''1.0''), (''version'', version)]"

definition build_timestamp_content :: "codec \<Rightarrow> json \<Rightarrow> bytes \<Rightarrow> json" where
  "build_timestamp_content C version snapshot_json =
     J_obj [(''_type'', J_str ''timestamp''), (''expires'', J_str default_expires),
       (''meta'', J_obj [(''snapshot.json'', meta_entry C version snapshot_json)]),
       (''spec_version'', J_str ''1.0''), (''version'', version)]"

subsection \<open>The response to the agent\<close>

definition compact_signed :: "codec \<Rightarrow> json \<Rightarrow> bytes" where
  "compact_signed C content = encode (cd_dumps C Compact (sign_tuf_document C content))"

fun j_b64decode :: "json \<Rightarrow> bytes res" where
  "j_b64decode (J_str s) = b64decode_lenient s"
| "j_b64decode v = Inl Type_Error"

text \<open>The version and the bytes of the targets document; \<open>None\<close> and \<open>{}\<close> give an empty one.\<close>

definition rc_targets :: "codec \<Rightarrow> json \<Rightarrow> (json \<times> bytes) res" where
  "rc_targets C rc_state =
     rbind (if j_truthy rc_state then j_contains ''targets'' rc_state else Inr False) (\<lambda>given.
       if given then
         rbind (j_item ''targets'' rc_state) (\<lambda>t.
         rbind (j_b64decode t) (\<lambda>targets_json.
         rbind (cd_loads C targets_json) (\<lambda>parsed.
         rbind (j_get_or ''signed'' (J_obj []) parsed) (\<lambda>signed.
         rbind (j_get_or ''version'' (J_int 1) signed) (\<lambda>version. Inr (version, targets_json))))))
       else Inr (J_int 0, compact_signed C (build_targets_content (J_int 0) None default_opaque_backend_state default_expires)))"

definition rc_target_files :: "json \<Rightarrow> file_msg list res" where
  "rc_target_files rc_state =
     rbind (if j_truthy rc_state then j_contains ''target_files'' rc_state else Inr False) (\<lambda>given.
       if given then
         rbind (j_item ''target_files'' rc_state) (\<lambda>tfs.
         rbind (j_iter tfs) (rmap (\<lambda>tf.
           rbind (j_item ''path'' tf) (\<lambda>path.
           rbind (j_item ''raw'' tf) (\<lambda>raw.
           rbind (j_b64decode raw) (\<lambda>bs. Inr \<lparr>fm_path = path, fm_raw = bs\<rparr>))))))
       else Inr [])"

definition build_latest_configs :: "codec \<Rightarrow> json \<Rightarrow> latest_configs res" where
  "build_latest_configs C rc_state =
     (let root_json = encode (get_tuf_root_json C) in
      rbind (rc_targets C rc_state) (\<lambda>(version, targets_json).
        let snapshot_json = compact_signed C (build_snapshot_content C version targets_json);
            timestamp_json = compact_signed C (build_timestamp_content C version snapshot_json);
            metas = \<lparr>mt_roots = [\<lparr>tm_version = J_int 1, tm_raw = root_json\<rparr>],
              mt_timestamp = \<lparr>tm_version = version, tm_raw = timestamp_json\<rparr>,
              mt_snapshot = \<lparr>tm_version = version, tm_raw = snapshot_json\<rparr>,
              mt_targets = \<lparr>tm_version = version, tm_raw = targets_json\<rparr>\<rparr>
        in rbind (rc_target_files rc_state) (\<lambda>tfs.
          Inr \<lparr>lc_config_metas = metas, lc_director_metas = metas, lc_target_files = tfs\<rparr>)))"

definition build_rc_configurations_protobuf :: "codec \<Rightarrow> json \<Rightarrow> bytes res" where
  "build_rc_configurations_protobuf C rc_state =
     rbind (build_latest_configs C rc_state) (\<lambda>m. Inr (cd_serialize C m))"

subsection \<open>The chain of hashes\<close>

text \<open>
  What a client checks: the document is signed over its own content, and the named entry of its
  \<open>meta\<close> agrees with the document below.
\<close>

definition signed_over :: "codec \<Rightarrow> json \<Rightarrow> json \<Rightarrow> bool" where
  "signed_over C doc content \<longleftrightarrow>
     j_path [''signed''] doc = Inr content \<and>
     (\<exists>s. j_path [''signatures''] doc = Inr (J_list [s]) \<and>
       j_path [''sig''] s = Inr (J_str (cd_sign C (encode (cd_dumps C Canonical content)))) \<and>
       j_path [''keyid''] s = Inr (J_str (tuf_keyid C)))"

definition covers :: "codec \<Rightarrow> json \<Rightarrow> string \<Rightarrow> bytes \<Rightarrow> json \<Rightarrow> bool" where
  "covers C content name below version \<longleftrightarrow>
     j_path [''meta'', name, ''hashes'', ''sha256''] content = Inr (J_str (cd_sha256 C below)) \<and>
     j_path [''meta'', name, ''length''] content = Inr (J_int (int (length below))) \<and>
     j_path [''meta'', name, ''version''] content = Inr version \<and> j_path [''version''] content = Inr version"

definition dump_of :: "codec \<Rightarrow> bytes \<Rightarrow> json \<Rightarrow> bool" where
  "dump_of C raw doc \<longleftrightarrow> raw = encode (cd_dumps C Compact doc)"

lemma signed_over_sign: "signed_over C (sign_tuf_document C content) content"
  by (simp add: signed_over_def sign_tuf_document_def dgetitem_def)

lemma covers_snapshot: "covers C (build_snapshot_content C version doc) ''targets.json'' doc version"
  by (simp add: covers_def build_snapshot_content_def meta_entry_def dgetitem_def)

lemma covers_timestamp: "covers C (build_timestamp_content C version doc) ''snapshot.json'' doc version"
  by (simp add: covers_def build_timestamp_content_def meta_entry_def dgetitem_def)

text \<open>In the response to the agent, in the metadata of the configurations as in that of the
  director, the timestamp is a signed document that covers the snapshot with its hash, its length
  and the version, and the snapshot one that covers the targets document it was given.\<close>

theorem response_chain:
  assumes "build_latest_configs C rc_state = Inr m" and "metas \<in> {lc_config_metas m, lc_director_metas m}"
  shows "\<exists>timestamp snapshot t s.
    dump_of C (tm_raw (mt_timestamp metas)) timestamp \<and> signed_over C timestamp t \<and>
    covers C t ''snapshot.json'' (tm_raw (mt_snapshot metas)) (tm_version (mt_targets metas)) \<and>
    dump_of C (tm_raw (mt_snapshot metas)) snapshot \<and> signed_over C snapshot s \<and>
    covers C s ''targets.json'' (tm_raw (mt_targets metas)) (tm_version (mt_targets metas)) \<and>
    rc_targets C rc_state = Inr (tm_version (mt_targets metas), tm_raw (mt_targets metas))"
proof -
  obtain version targets_json where t: "rc_targets C rc_state = Inr (version, targets_json)"
    using assms(1) by (auto simp: build_latest_configs_def Let_def rbind_Inr_iff split: prod.splits)
  let ?s = "build_snapshot_content C version targets_json"
  let ?t = "build_timestamp_content C version (compact_signed C ?s)"
  from assms t have metas: "tm_raw (mt_targets metas) = targets_json" "tm_version (mt_targets metas) = version"
    "tm_raw (mt_snapshot metas) = compact_signed C ?s" "tm_raw (mt_timestamp metas) = compact_signed C ?t"
    by (auto simp: build_latest_configs_def Let_def rbind_Inr_iff)
  have dec: "dump_of C (compact_signed C c) (sign_tuf_document C c)" for c
    by (simp add: dump_of_def compact_signed_def)
  show ?thesis
    unfolding metas t using dec signed_over_sign covers_snapshot covers_timestamp by blast
qed

definition sample_codec :: codec where
  "sample_codec = \<lparr>cd_dumps = \<lambda>l j. (case j of J_obj m \<Rightarrow> concat (map fst m) | _ \<Rightarrow> []),
     cd_loads = \<lambda>b. Inl Value_Error, cd_str = \<lambda>j. [], cd_sha256 = \<lambda>b. py_hex (take 2 b),
     cd_sign = \<lambda>b. py_hex (take 1 b), cd_public_key = [0x3b], cd_serialize = \<lambda>m. []\<rparr>"

theorem response_chain_witness:
  "\<exists>m timestamp snapshot t s. build_latest_configs sample_codec J_null = Inr m \<and>
    dump_of sample_codec (tm_raw (mt_timestamp (lc_config_metas m))) timestamp \<and> signed_over sample_codec timestamp t \<and>
    covers sample_codec t ''snapshot.json'' (tm_raw (mt_snapshot (lc_config_metas m))) (J_int 0) \<and>
    dump_of sample_codec (tm_raw (mt_snapshot (lc_config_metas m))) snapshot \<and> signed_over sample_codec snapshot s \<and>
    covers sample_codec s ''targets.json'' (tm_raw (mt_targets (lc_config_metas m))) (J_int 0)"
proof -
  obtain m where m: "build_latest_configs sample_codec J_null = Inr m"
    and v: "tm_version (mt_targets (lc_config_metas m)) = J_int 0"
    by (simp add: build_latest_configs_def rc_targets_def rc_target_files_def Let_def)
  show ?thesis
    using response_chain [OF m, of "lc_config_metas m"] m unfolding v by blast
qed

subsection \<open>Base64 texts\<close>

lemma b64_char_alphabet: "n < 64 \<Longrightarrow> b64_char n \<in> set b64_alphabet"
  unfolding b64_char_def by (rule nth_mem) (simp add: b64_alphabet_def)

lemma b64_digits_alphabet:
  "\<forall>b \<in> set bs. b < 256 \<Longrightarrow> c \<in> set (b64_digits bs) \<Longrightarrow> c \<in> set b64_alphabet \<or> c = CHR ''=''"
proof (induction bs rule: b64_digits.induct)
  case (1 a b c' bs)
  have "a div 4 < 64" "a mod 4 * 16 + b div 16 < 64" "b mod 16 * 4 + c' div 64 < 64" "c' mod 64 < 64"
    using 1(2) by auto
  with 1 show ?case by (auto simp: b64_char_alphabet)
next
  case (2 a b)
  have "a div 4 < 64" "a mod 4 * 16 + b div 16 < 64" "b mod 16 * 4 < 64" using 2(1) by auto
  with 2 show ?case by (auto simp: b64_char_alphabet)
next
  case (3 a)
  have "a div 4 < 64" "a mod 4 * 16 < 64" using 3(1) by auto
  with 3 show ?case by (auto simp: b64_char_alphabet)
qed simp

lemma b64_lenient_roundtrip [simp]: "b64decode_lenient (b64encode bs) = Inr bs"
proof -
  have in_alphabet: "c \<in> set b64_alphabet \<or> c = CHR ''=''" if "c \<in> set (b64encode bs)" for c
  proof (rule b64_digits_alphabet)
    have "unat b < 256" for b :: "8 word" using unsigned_less [of b] by simp
    then show "\<forall>b \<in> set (map unat bs). b < 256" by auto
    show "c \<in> set (b64_digits (map unat bs))" using that by (simp add: b64encode_def)
  qed
  have "\<forall>c \<in> insert (CHR ''='') (set b64_alphabet). (of_char c :: nat) < 128" by code_simp
  then have ascii: "\<not> (\<exists>c \<in> set (b64encode bs). 128 \<le> (of_char c :: nat))"
    using in_alphabet by (metis insertCI linorder_not_less)
  have "filter (\<lambda>c. c \<in> set b64_alphabet \<or> c = CHR ''='') (b64encode bs) = b64encode bs"
    using in_alphabet by (auto simp: filter_id_conv)
  with ascii show ?thesis unfolding b64decode_lenient_def by (simp only: if_False b64_roundtrip)
qed

end
