(* ===== verification/Rc_Command.thy ===== *)
theory Rc_Command
  imports Rc_Tuf
begin

section \<open>Remote configuration commands (utils/\_remote\_config.py, builders)\<close>

text \<open>
  The payloads sent as remote configurations: the base command over paths and their contents,
  the commands of the debugger, of the symbol database and of the tracing configuration, with
  the translation of the latter from its \<open>lib_config\<close> to its \<open>sdk_config\<close> form and the
  decision between the two.  A payload is a JSON value; \<open>uuid4\<close> is a parameter.
\<close>

subsection \<open>Base command\<close>

definition json_to_base64 :: "codec \<Rightarrow> json \<Rightarrow> string" where
  "json_to_base64 C j = b64encode (encode (cd_dumps C Indented j))"

definition sha256_of_base64 :: "codec \<Rightarrow> string \<Rightarrow> string res" where
  "sha256_of_base64 C value = rbind (b64decode_lenient value) (\<lambda>bs. Inr (cd_sha256 C bs))"

definition rcm_of :: "json \<Rightarrow> json list \<Rightarrow> json list \<Rightarrow> json" where
  "rcm_of targets target_files client_configs =
     J_obj [(''targets'', targets), (''target_files'', J_list target_files), (''client_configs'', J_list client_configs)]"

definition target_of :: "codec \<Rightarrow> json \<Rightarrow> json res" where
  "target_of C payload =
     (let payload_64 = json_to_base64 C payload in
      rbind (b64decode_lenient payload_64) (\<lambda>bs.
      rbind (sha256_of_base64 C payload_64) (\<lambda>hash.
        Inr (J_obj [(''custom'', J_obj [(''v'', J_int 1)]), (''hashes'', J_obj [(''sha256'', J_str hash)]),
               (''length'', J_int (int (length bs)))]))))"

definition build_base_command :: "codec \<Rightarrow> (string, json) dict \<Rightarrow> json \<Rightarrow> json res" where
  "build_base_command C path_payloads version =
     (if path_payloads = [] then
        Inr (rcm_of (J_str (json_to_base64 C
          (build_signed_targets C version (Some []) default_opaque_backend_state default_expires))) [] [])
      else
        rbind (rmap (\<lambda>(path, payload). rbind (target_of C payload) (\<lambda>t. Inr (path, t))) path_payloads) (\<lambda>items.
          let targets_dict = fold (\<lambda>(path, t). dset path t) items [];
              target_files = map (\<lambda>(path, payload).
                J_obj [(''path'', J_str path), (''raw'', J_str (json_to_base64 C payload))]) path_payloads;
              signed = build_signed_targets C version (Some targets_dict) default_opaque_backend_state default_expires
          in Inr (rcm_of (J_str (json_to_base64 C signed)) target_files (map (\<lambda>p. J_str (fst p)) path_payloads))))"

subsection \<open>Debugger and symbol database\<close>

definition to_upper_letter :: "char \<Rightarrow> char" where
  "to_upper_letter c = (if is_lower c then char_of (of_char c - 32 :: nat) else c)"

text \<open>\<open>re.sub("_([a-z])", upper, s)\<close>: from left to right, without overlap.\<close>

fun camel :: "string \<Rightarrow> string" where
  "camel (c # d # cs) = (if c = CHR ''_'' \<and> is_lower d then to_upper_letter d # camel cs else c # camel (d # cs))"
| "camel cs = cs"

text \<open>\<open>str(v)\<close>, as a format string prints it.\<close>

fun j_show :: "codec \<Rightarrow> json \<Rightarrow> string" where
  "j_show C (J_str s) = s"
| "j_show C (J_int i) = str_of_int i"
| "j_show C (J_bool b) = (if b then ''True'' else ''False'')"
| "j_show C J_null = ''None''"
| "j_show C v = cd_str C v"

definition probe_file :: "codec \<Rightarrow> json \<Rightarrow> string res" where
  "probe_file C probe =
     rbind (j_item ''type'' probe) (\<lambda>t. rbind (j_as_str t) (\<lambda>t.
     rbind (j_item ''id'' probe) (\<lambda>i.
       Inr (''datadog/2/LIVE_DEBUGGING/'' @ camel (str_lower t) @ ''_'' @ j_show C i @ ''/config''))))"

definition add_probes :: "codec \<Rightarrow> json list \<Rightarrow> (string, json) dict \<Rightarrow> (string, json) dict res" where
  "add_probes C = rfold (\<lambda>probe paths. rbind (probe_file C probe) (\<lambda>path. Inr (dset path probe paths)))"

definition build_debugger_command :: "codec \<Rightarrow> json list option \<Rightarrow> json \<Rightarrow> json res" where
  "build_debugger_command C probes version =
     (case probes of
        None \<Rightarrow> build_base_command C [] version
      | Some ps \<Rightarrow> rbind (add_probes C ps []) (\<lambda>paths. build_base_command C paths version))"

definition build_symdb_command :: "codec \<Rightarrow> json \<Rightarrow> json res" where
  "build_symdb_command C version =
     build_base_command C [(''datadog/2/LIVE_DEBUGGING_SYMBOL_DB/symDb/config'', J_obj [(''upload_symbols'', J_bool True)])] version"

subsection \<open>From lib\_config to sdk\_config\<close>

definition lib_config_metadata_keys :: "string list" where
  "lib_config_metadata_keys = [''env'', ''library_language'', ''library_version'', ''service_name'']"

definition apm_tracing_env_var_names :: "(string \<times> string option) list" where
  "apm_tracing_env_var_names =
     [(''code_origin_enabled'', Some ''DD_CODE_ORIGIN_FOR_SPANS_ENABLED''),
      (''data_streams_enabled'', Some ''DD_DATA_STREAMS_ENABLED''),
      (''dynamic_instrumentation_enabled'', Some ''DD_DYNAMIC_INSTRUMENTATION_ENABLED''),
      (''dynamic_sampling_enabled'', None),
      (''exception_replay_enabled'', Some ''DD_EXCEPTION_REPLAY_ENABLED''),
      (''live_debugging_enabled'', Some ''DD_LIVE_DEBUGGING_ENABLED''),
      (''log_injection_enabled'', Some ''DD_LOGS_INJECTION''),
      (''runtime_metrics_enabled'', Some ''DD_RUNTIME_METRICS_ENABLED''),
      (''tracing_debug'', Some ''DD_TRACE_DEBUG''),
      (''tracing_enabled'', Some ''DD_TRACE_ENABLED''),
      (''tracing_header_tags'', Some ''DD_TRACE_HEADER_TAGS''),
      (''tracing_sampling_rate'', Some ''DD_TRACE_SAMPLE_RATE''),
      (''tracing_sampling_rules'', Some ''DD_TRACE_SAMPLING_RULES''),
      (''tracing_service_mapping'', Some ''DD_SERVICE_MAPPING''),
      (''tracing_tags'', Some ''DD_TAGS'')]"

text \<open>\<open>",".join(xs)\<close> raises a \<open>TypeError\<close> on an element that is no text.\<close>

definition join_texts :: "json list \<Rightarrow> string res" where
  "join_texts xs =
     rbind (rmap (\<lambda>x. case x of J_str s \<Rightarrow> Inr s | _ \<Rightarrow> Inl Type_Error) xs) (\<lambda>ss. Inr (str_join '','' ss))"

definition serialize_header_tags :: "codec \<Rightarrow> json \<Rightarrow> string res" where
  "serialize_header_tags C value =
     rbind (j_iter value) (\<lambda>tags.
     rbind (rmap (\<lambda>tag. rbind (j_get ''tag_name'' tag) (\<lambda>name.
         if j_truthy name then
           rbind (j_item ''header'' tag) (\<lambda>h. rbind (j_item ''tag_name'' tag) (\<lambda>n.
             Inr (J_str (j_show C h @ '':'' @ j_show C n))))
         else j_item ''header'' tag)) tags) join_texts)"

definition serialize_service_mapping :: "codec \<Rightarrow> json \<Rightarrow> string res" where
  "serialize_service_mapping C value =
     rbind (j_iter value) (\<lambda>entries.
     rbind (rmap (\<lambda>entry. rbind (j_item ''from_key'' entry) (\<lambda>f. rbind (j_item ''to_name'' entry) (\<lambda>t.
         Inr (J_str (j_show C f @ '':'' @ j_show C t))))) entries) join_texts)"

definition tags_map :: "json list \<Rightarrow> json res" where
  "tags_map tags =
     rbind (rmap (\<lambda>tag. rbind (j_item ''key'' tag) (\<lambda>k. rbind (j_as_str k) (\<lambda>k.
         rbind (j_item ''value_glob'' tag) (\<lambda>v. Inr (k, v))))) tags) (\<lambda>ps.
       Inr (J_obj (fold (\<lambda>(k, v). dset k v) ps [])))"

definition serialize_sampling_rules :: "codec \<Rightarrow> json \<Rightarrow> string res" where
  "serialize_sampling_rules C value =
     rbind (j_iter value) (\<lambda>rules.
     rbind (rmap (\<lambda>rule. case rule of
         J_obj m \<Rightarrow>
           (case dget m ''tags'' of
              Some (J_list tags) \<Rightarrow> rbind (tags_map tags) (\<lambda>t. Inr (J_obj (dset ''tags'' t m)))
            | _ \<Rightarrow> Inr rule)
       | _ \<Rightarrow> Inl Type_Error) rules) (\<lambda>rules. Inr (cd_dumps C Plain (J_list rules))))"

definition serialize_sdk_config_value :: "codec \<Rightarrow> string \<Rightarrow> json \<Rightarrow> string res" where
  "serialize_sdk_config_value C key value =
     (if key = ''tracing_header_tags'' then serialize_header_tags C value
      else if key = ''tracing_sampling_rules'' then serialize_sampling_rules C value
      else if key = ''tracing_service_mapping'' then serialize_service_mapping C value
      else if key = ''tracing_tags'' then rbind (j_iter value) join_texts
      else (case value of
              J_bool b \<Rightarrow> Inr (if b then ''true'' else ''false'')
            | _ \<Rightarrow> Inr (j_show C value)))"

text \<open>One setting: those that describe the config, are \<open>None\<close>, unknown or not projected are left out.\<close>

definition add_setting :: "codec \<Rightarrow> string \<times> json \<Rightarrow> jobj \<Rightarrow> jobj res" where
  "add_setting C = (\<lambda>(key, value) settings.
     if key \<in> set lib_config_metadata_keys \<or> value = J_null then Inr settings
     else (case map_of apm_tracing_env_var_names key of
             None \<Rightarrow> Inr settings
           | Some None \<Rightarrow> Inr settings
           | Some (Some env_var_name) \<Rightarrow>
               rbind (serialize_sdk_config_value C key value) (\<lambda>s. Inr (dset env_var_name (J_str s) settings))))"

fun j_items :: "json \<Rightarrow> (string \<times> json) list res" where
  "j_items (J_obj m) = Inr m"
| "j_items v = Inl Attribute_Error"

definition j_or_empty :: "json \<Rightarrow> json" where
  "j_or_empty v = (if j_truthy v then v else J_obj [])"

definition to_sdk_config_payload :: "codec \<Rightarrow> jobj \<Rightarrow> jobj res" where
  "to_sdk_config_payload C config =
     (let get = (\<lambda>k. case dget config k of None \<Rightarrow> J_null | Some v \<Rightarrow> v);
          service_target = j_or_empty (get ''service_target'')
      in rbind (j_items (j_or_empty (get ''lib_config''))) (\<lambda>items.
         rbind (rfold (add_setting C) items []) (\<lambda>settings.
         rbind (j_get ''service'' service_target) (\<lambda>service.
         rbind (j_get ''env'' service_target) (\<lambda>env.
           let sdk_config = (if service \<noteq> J_null then [(''service_name'', service)] else []) @
                 (if env \<noteq> J_null then [(''env'', env)] else []) @ [(''config'', J_obj settings)]
           in Inr (dset ''sdk_config'' (J_obj sdk_config) (filter (\<lambda>p. fst p \<noteq> ''lib_config'') config)))))))"

subsection \<open>Which form a library reads\<close>

definition capabilities :: "(string \<times> nat) list" where
  "capabilities =
     [(''ASM_ACTIVATION'', 1), (''ASM_IP_BLOCKING'', 2), (''ASM_DD_RULES'', 3), (''ASM_EXCLUSIONS'', 4),
      (''ASM_REQUEST_BLOCKING'', 5), (''ASM_ASM_RESPONSE_BLOCKING'', 6), (''ASM_USER_BLOCKING'', 7),
      (''ASM_CUSTOM_RULES'', 8), (''ASM_CUSTOM_BLOCKING_RESPONSE'', 9), (''ASM_TRUSTED_IPS'', 10),
      (''ASM_API_SECURITY_SAMPLE_RATE'', 11), (''APM_TRACING_SAMPLE_RATE'', 12), (''APM_TRACING_LOGS_INJECTION'', 13),
      (''APM_TRACING_HTTP_HEADER_TAGS'', 14), (''APM_TRACING_CUSTOM_TAGS'', 15), (''ASM_PROCESSOR_OVERRIDES'', 16),
      (''ASM_CUSTOM_DATA_SCANNERS'', 17), (''ASM_EXCLUSION_DATA'', 18), (''APM_TRACING_ENABLED'', 19),
      (''APM_TRACING_DATA_STREAMS_ENABLED'', 20), (''ASM_RASP_SQLI'', 21), (''ASM_RASP_LFI'', 22),
      (''ASM_RASP_SSRF'', 23), (''ASM_RASP_SHI'', 24), (''ASM_RASP_XXE'', 25), (''ASM_RASP_RCE'', 26),
      (''ASM_RASP_NOSQLI'', 27), (''ASM_RASP_XSS'', 28), (''APM_TRACING_SAMPLE_RULES'', 29), (''CSM_ACTIVATION'', 30),
      (''ASM_AUTO_USER_INSTRUM_MODE'', 31), (''ASM_ENDPOINT_FINGERPRINT'', 32), (''ASM_SESSION_FINGERPRINT'', 33),
      (''ASM_NETWORK_FINGERPRINT'', 34), (''ASM_HEADER_FINGERPRINT'', 35), (''ASM_TRUNCATION_RULES'', 36),
      (''ASM_RASP_CMDI'', 37), (''APM_TRACING_ENABLE_DYNAMIC_INSTRUMENTATION'', 38),
      (''APM_TRACING_ENABLE_EXCEPTION_REPLAY'', 39), (''APM_TRACING_ENABLE_CODE_ORIGIN'', 40),
      (''APM_TRACING_ENABLE_LIVE_DEBUGGING'', 41), (''ASM_DD_MULTICONFIG'', 42), (''ASM_TRACE_TAGGING_RULES'', 43),
      (''ASM_EXTENDED_DATA_COLLECTION'', 44), (''APM_TRACING_MULTICONFIG'', 45), (''FFE_FLAG_CONFIGURATION_RULES'', 46),
      (''DATA_STREAMS_TRANSACTION_EXTRACTORS'', 47), (''APM_TRACING_LLMOBS'', 48), (''SDK_CONFIGURATION'', 49),
      (''FFE_FLAG_DEPENDENT_FLAG_VARIANT_KEY_V1'', 50)]"

definition sdk_configuration :: nat where "sdk_configuration = 49"

definition apm_tracing_capabilities :: "nat list" where
  "apm_tracing_capabilities = map snd (filter (\<lambda>p. startswith (fst p) ''APM_TRACING_'') capabilities)"

definition legacy_apm_tracing_capabilities :: "nat list" where
  "legacy_apm_tracing_capabilities = [15, 19, 14, 13, 12, 29]"

definition resolve_sdk_configuration_contract :: "nat set \<Rightarrow> string option \<Rightarrow> bool option" where
  "resolve_sdk_configuration_contract caps library_name =
     (if caps \<inter> set apm_tracing_capabilities = {} then None
      else if sdk_configuration \<notin> caps then Some False
      else if caps \<inter> set legacy_apm_tracing_capabilities \<noteq> {} then Some (library_name = Some ''nodejs'')
      else Some True)"

text \<open>The memo is the module's dictionary: empty, or the answer once the capabilities are conclusive.\<close>

definition resolve_sdk_configuration_support ::
  "nat set res \<Rightarrow> string option \<Rightarrow> bool option \<Rightarrow> bool \<times> bool option" where
  "resolve_sdk_configuration_support get_capabilities library_name memo =
     (case memo of
        Some v \<Rightarrow> (v, memo)
      | None \<Rightarrow>
          (case get_capabilities of
             Inl e \<Rightarrow> (False, memo)
           | Inr caps \<Rightarrow>
               (case resolve_sdk_configuration_contract caps library_name of
                  None \<Rightarrow> (False, memo)
                | Some supported \<Rightarrow> (supported, Some supported))))"

definition library_supports_sdk_configuration ::
  "bool \<Rightarrow> nat set res \<Rightarrow> string \<Rightarrow> bool option \<Rightarrow> bool \<times> bool option" where
  "library_supports_sdk_configuration polled get_capabilities library memo =
     (case memo of
        Some v \<Rightarrow> (v, memo)
      | None \<Rightarrow> if \<not> polled then (False, memo)
                else resolve_sdk_configuration_support get_capabilities (Some library) memo)"

subsection \<open>Tracing configuration\<close>

record apm_options =
  ao_dynamic_instrumentation :: "bool option"
  ao_exception_replay :: "bool option"
  ao_live_debugging :: "bool option"
  ao_code_origin :: "bool option"
  ao_dynamic_sampling :: "bool option"
  ao_service :: "string option"
  ao_env :: "string option"

definition set_option :: "string \<Rightarrow> bool option \<Rightarrow> jobj \<Rightarrow> jobj" where
  "set_option k v d = (case v of None \<Rightarrow> d | Some b \<Rightarrow> dset k (J_bool b) d)"

definition set_options :: "apm_options \<Rightarrow> jobj \<Rightarrow> jobj" where
  "set_options a d =
     set_option ''dynamic_sampling_enabled'' (ao_dynamic_sampling a)
       (set_option ''code_origin_enabled'' (ao_code_origin a)
         (set_option ''live_debugging_enabled'' (ao_live_debugging a)
           (set_option ''exception_replay_enabled'' (ao_exception_replay a)
             (set_option ''dynamic_instrumentation_enabled'' (ao_dynamic_instrumentation a)
               (dset ''tracing_enabled'' (J_bool True) d)))))"

definition base_lib_config :: jobj where
  "base_lib_config = [(''library_language'', J_str ''all''), (''library_version'', J_str ''latest'')]"

definition j_maybe :: "string option \<Rightarrow> json" where
  "j_maybe x = (case x of None \<Rightarrow> J_null | Some s \<Rightarrow> J_str s)"

definition apm_config :: "apm_options \<Rightarrow> jobj \<Rightarrow> jobj" where
  "apm_config a lib_config =
     [(''schema_version'', J_str ''v1.0.0''), (''action'', J_str ''enable''), (''lib_config'', J_obj lib_config),
      (''service_target'', J_obj [(''service'', j_maybe (ao_service a)), (''env'', j_maybe (ao_env a))])]"

definition apm_path :: "string \<Rightarrow> string" where
  "apm_path uuid = ''datadog/2/APM_TRACING/'' @ uuid @ ''/config''"

definition apm_payload :: "codec \<Rightarrow> bool \<Rightarrow> jobj \<Rightarrow> json res" where
  "apm_payload C use_sdk_config config =
     rbind (if use_sdk_config then to_sdk_config_payload C config else Inr config) (\<lambda>m. Inr (J_obj m))"

text \<open>\<open>uuids\<close> are the values of the calls of \<open>uuid4\<close>; the second result is \<open>prev_payloads\<close> after the call.\<close>

definition build_apm_tracing_command ::
  "codec \<Rightarrow> string list \<Rightarrow> json \<Rightarrow> jobj list \<Rightarrow> apm_options \<Rightarrow> bool \<Rightarrow> (json \<times> jobj list) res" where
  "build_apm_tracing_command C uuids version prev_payloads a use_sdk_config =
     (let config = apm_config a (set_options a base_lib_config) in
      rbind (rfold (\<lambda>(uuid, config) paths.
          rbind (apm_payload C use_sdk_config config) (\<lambda>p. Inr (dset (apm_path uuid) p paths)))
        (zip uuids (prev_payloads @ [config])) []) (\<lambda>path_payloads.
      rbind (build_base_command C path_payloads version) (\<lambda>command.
        Inr (command, prev_payloads @ [config]))))"

definition inherited_lib_config :: "jobj list \<Rightarrow> jobj res" where
  "inherited_lib_config prev_payloads =
     (if prev_payloads = [] then Inr base_lib_config
      else rbind (j_items (case dget (last prev_payloads) ''lib_config'' of None \<Rightarrow> J_obj [] | Some v \<Rightarrow> v)) (\<lambda>prev.
        Inr (fold (\<lambda>(k, v). dset k v)
          (filter (\<lambda>p. fst p \<notin> {''library_language'', ''library_version'', ''tracing_enabled''}) prev) base_lib_config)))"

definition build_combined_command ::
  "codec \<Rightarrow> string \<Rightarrow> json \<Rightarrow> jobj list \<Rightarrow> json list option \<Rightarrow> apm_options \<Rightarrow> bool \<Rightarrow> (json \<times> jobj) res" where
  "build_combined_command C uuid version prev_payloads probes a use_sdk_config =
     rbind (inherited_lib_config prev_payloads) (\<lambda>inherited.
       let config = apm_config a (set_options a inherited) in
       rbind (apm_payload C use_sdk_config config) (\<lambda>payload.
       rbind (add_probes C (case probes of None \<Rightarrow> [] | Some ps \<Rightarrow> ps) [(apm_path uuid, payload)]) (\<lambda>path_payloads.
       rbind (build_base_command C path_payloads version) (\<lambda>command. Inr (command, config)))))"

subsection \<open>Claims\<close>

text \<open>What a client reads of a target of the signed document.\<close>

definition target_matches :: "codec \<Rightarrow> json \<Rightarrow> bytes \<Rightarrow> bool" where
  "target_matches C target bs \<longleftrightarrow>
     j_path [''hashes'', ''sha256''] target = Inr (J_str (cd_sha256 C bs)) \<and>
     j_path [''length''] target = Inr (J_int (int (length bs)))"

lemma target_of: "target_of C payload =
    Inr (J_obj [(''custom'', J_obj [(''v'', J_int 1)]),
      (''hashes'', J_obj [(''sha256'', J_str (cd_sha256 C (encode (cd_dumps C Indented payload))))]),
      (''length'', J_int (int (length (encode (cd_dumps C Indented payload)))))])"
  by (simp add: target_of_def sha256_of_base64_def json_to_base64_def Let_def)

lemma target_of_matches: "target_of C payload = Inr t \<Longrightarrow> target_matches C t (encode (cd_dumps C Indented payload))"
  by (auto simp: target_of target_matches_def dgetitem_def)

text \<open>A command is built for every set of paths and contents, and it is consistent: the configs,
  the files and the signed targets list the same paths in the same order, and the hash and the
  length in a signed target are those of the bytes the file of that path decodes to.\<close>

theorem base_command_consistent:
  assumes "dict_wf path_payloads"
  shows "\<exists>targets files. build_base_command C path_payloads version =
      Inr (rcm_of (J_str (json_to_base64 C (build_signed_targets C version (Some targets)
        default_opaque_backend_state default_expires))) files (map (\<lambda>p. J_str (fst p)) path_payloads)) \<and>
    map fst targets = map fst path_payloads \<and> length files = length path_payloads \<and>
    list_all2 (\<lambda>file (path, target). \<exists>raw bs. j_path [''path''] file = Inr (J_str path) \<and>
      j_path [''raw''] file = Inr (J_str raw) \<and> b64decode_lenient raw = Inr bs \<and> target_matches C target bs) files targets"
proof -
  let ?bs = "\<lambda>payload. encode (cd_dumps C Indented payload)"
  let ?targets = "map (\<lambda>(path, payload). (path, projr (target_of C payload))) path_payloads"
  let ?files = "map (\<lambda>(path, payload). J_obj [(''path'', J_str path), (''raw'', J_str (json_to_base64 C payload))]) path_payloads"
  have "rmap (\<lambda>(path, payload). rbind (target_of C payload) (\<lambda>t. Inr (path, t))) path_payloads = Inr ?targets"
    by (rule rmap_total) (auto simp: target_of)
  moreover have "fold (\<lambda>(path, t). dset path t) ps d = d @ ps" if "distinct (map fst (d @ ps))"
    for ps d :: "(string \<times> json) list"
    using that by (induction ps arbitrary: d) (auto simp: dset_new)
  from this [of "[]" ?targets] have "fold (\<lambda>(path, t). dset path t) ?targets [] = ?targets"
    using assms by (simp add: dict_wf_def comp_def case_prod_unfold)
  ultimately have run: "build_base_command C path_payloads version =
      Inr (rcm_of (J_str (json_to_base64 C (build_signed_targets C version (Some ?targets)
        default_opaque_backend_state default_expires))) ?files (map (\<lambda>p. J_str (fst p)) path_payloads))"
    by (simp add: build_base_command_def Let_def)
  have all: "list_all2 (\<lambda>file (path, target). \<exists>raw bs. j_path [''path''] file = Inr (J_str path) \<and>
      j_path [''raw''] file = Inr (J_str raw) \<and> b64decode_lenient raw = Inr bs \<and> target_matches C target bs) ?files ?targets"
    by (auto simp: list_all2_conv_all_nth dgetitem_def json_to_base64_def target_of target_matches_def split: prod.split)
  have "map fst ?targets = map fst path_payloads" by auto
  with run all show ?thesis by (intro exI [of _ ?targets] exI [of _ ?files]) simp
qed

theorem base_command_consistent_witness:
  "\<exists>targets files. build_base_command sample_codec [(''datadog/2/ASM/a/config'', J_null)] (J_int 1) =
      Inr (rcm_of (J_str (json_to_base64 sample_codec (build_signed_targets sample_codec (J_int 1) (Some targets)
        default_opaque_backend_state default_expires))) files [J_str ''datadog/2/ASM/a/config'']) \<and>
    map fst targets = [''datadog/2/ASM/a/config''] \<and> length files = 1"
proof -
  have wf: "dict_wf [(''datadog/2/ASM/a/config'', J_null)]" by (simp add: dict_wf_def)
  show ?thesis
    using base_command_consistent [OF wf, of sample_codec "J_int 1"]
    unfolding list.map list.size fst_conv One_nat_def add_0_left add_0_right add_Suc
    by (elim exE conjE) (intro exI conjI; assumption)
qed

lemma env_vars_distinct: "distinct (map snd (filter (\<lambda>p. snd p \<noteq> None) apm_tracing_env_var_names))"
  by (simp add: apm_tracing_env_var_names_def)

lemma env_var_unique:
  "map_of apm_tracing_env_var_names k = Some (Some v) \<Longrightarrow> map_of apm_tracing_env_var_names k' = Some (Some v) \<Longrightarrow> k' = k"
proof -
  assume "map_of apm_tracing_env_var_names k = Some (Some v)" "map_of apm_tracing_env_var_names k' = Some (Some v)"
  then have "(k, Some v) \<in> set (filter (\<lambda>p. snd p \<noteq> None) apm_tracing_env_var_names)"
    "(k', Some v) \<in> set (filter (\<lambda>p. snd p \<noteq> None) apm_tracing_env_var_names)"
    by (auto dest: map_of_SomeD)
  moreover have "inj_on snd (set (filter (\<lambda>p. snd p \<noteq> None) apm_tracing_env_var_names))"
    using env_vars_distinct unfolding distinct_map by blast
  ultimately show ?thesis by (metis inj_onD snd_conv fst_conv)
qed

lemma settings_after:
  assumes "rfold (add_setting C) items s0 = Inr s" and "map_of apm_tracing_env_var_names k = Some (Some v)"
    and "k \<notin> set lib_config_metadata_keys" and "dict_wf items"
  shows "(case dget items k of
      Some x \<Rightarrow> if x = J_null then dget s v = dget s0 v
        else (\<exists>t. serialize_sdk_config_value C k x = Inr t \<and> dget s v = Some (J_str t))
    | None \<Rightarrow> dget s v = dget s0 v)"
  using assms(1,4)
proof (induction items arbitrary: s0)
  case (Cons p items)
  obtain key val where p: "p = (key, val)" by force
  from Cons.prems obtain s1 where step: "add_setting C (key, val) s0 = Inr s1"
    and rest: "rfold (add_setting C) items s1 = Inr s" by (auto simp: p rbind_Inr_iff)
  have wf: "dict_wf items" and new: "key \<notin> fst ` set items"
    using Cons.prems(2) by (simp_all add: p dict_wf_def)
  note IH = Cons.IH [OF rest wf]
  show ?case
  proof (cases "key = k")
    case True
    then have "dget items k = None" using new by (simp add: map_of_eq_None_iff)
    then have "dget s v = dget s1 v" using IH by simp
    then show ?thesis
      using step True assms(2,3) by (auto simp: p add_setting_def rbind_Inr_iff split: if_splits)
  next
    case False
    have "dget s1 v = dget s0 v"
      using step False env_var_unique [OF assms(2)]
      by (auto simp: add_setting_def rbind_Inr_iff split: if_splits option.splits)
    with IH False show ?thesis by (auto simp: p split: option.splits)
  qed
qed simp

text \<open>A tracing configuration in its \<open>lib_config\<close> form is rewritten so that each setting that
  has an environment variable, is present and is not null appears under that variable with its
  text form, the same setting absent or null leaves the variable out (the library falls back to
  its local value), \<open>lib_config\<close> itself is gone and every other field is unchanged.\<close>

theorem sdk_config_translation:
  assumes "to_sdk_config_payload C config = Inr m" and "dget config ''lib_config'' = Some (J_obj lib)" and "dict_wf lib"
    and "map_of apm_tracing_env_var_names key = Some (Some var)"
  shows "dget m ''lib_config'' = None \<and> (k \<notin> {''lib_config'', ''sdk_config''} \<longrightarrow> dget m k = dget config k) \<and>
    (\<exists>settings. j_path [''sdk_config'', ''config''] (J_obj m) = Inr (J_obj settings) \<and>
      (case dget lib key of
         Some x \<Rightarrow> if x = J_null then dget settings var = None
           else (\<exists>t. serialize_sdk_config_value C key x = Inr t \<and> dget settings var = Some (J_str t))
       | None \<Rightarrow> dget settings var = None))"
proof -
  have meta: "key \<notin> set lib_config_metadata_keys"
    using assms(4) by (auto simp: lib_config_metadata_keys_def apm_tracing_env_var_names_def)
  have "j_items (j_or_empty (J_obj lib)) = Inr lib" by (simp add: j_or_empty_def)
  with assms(1,2) obtain settings service env where s: "rfold (add_setting C) lib [] = Inr settings"
    and m: "m = dset ''sdk_config'' (J_obj ((if service \<noteq> J_null then [(''service_name'', service)] else []) @
        (if env \<noteq> J_null then [(''env'', env)] else []) @ [(''config'', J_obj settings)]))
      (filter (\<lambda>p. fst p \<noteq> ''lib_config'') config)"
    by (auto simp: to_sdk_config_payload_def Let_def rbind_Inr_iff)
  have drop: "dget (filter (\<lambda>p. fst p \<noteq> ''lib_config'') config) k = (if k = ''lib_config'' then None else dget config k)" for k
    by (induction config) auto
  have "j_path [''sdk_config'', ''config''] (J_obj m) = Inr (J_obj settings)"
    by (simp add: m dgetitem_def)
  moreover have "dget m ''lib_config'' = None \<and> (k \<notin> {''lib_config'', ''sdk_config''} \<longrightarrow> dget m k = dget config k)"
    by (simp add: m drop)
  ultimately show ?thesis using settings_after [OF s assms(4) meta assms(3)]
    by (auto split: option.splits)
qed

definition sample_config :: jobj where
  "sample_config = [(''action'', J_str ''enable''),
     (''lib_config'', J_obj [(''tracing_enabled'', J_bool True), (''live_debugging_enabled'', J_null)])]"

theorem sdk_config_translation_witness:
  "to_sdk_config_payload sample_codec sample_config =
     Inr [(''action'', J_str ''enable''), (''sdk_config'', J_obj [(''config'', J_obj [(''DD_TRACE_ENABLED'', J_str ''true'')])])] \<and>
   (\<exists>settings. j_path [''sdk_config'', ''config'']
       (J_obj [(''action'', J_str ''enable''), (''sdk_config'', J_obj [(''config'', J_obj [(''DD_TRACE_ENABLED'', J_str ''true'')])])]) =
       Inr (J_obj settings) \<and> dget settings ''DD_LIVE_DEBUGGING_ENABLED'' = None)"
proof -
  have run: "to_sdk_config_payload sample_codec sample_config =
     Inr [(''action'', J_str ''enable''), (''sdk_config'', J_obj [(''config'', J_obj [(''DD_TRACE_ENABLED'', J_str ''true'')])])]"
    by code_simp
  have lib: "dget sample_config ''lib_config'' =
      Some (J_obj [(''tracing_enabled'', J_bool True), (''live_debugging_enabled'', J_null)])"
    by (simp add: sample_config_def)
  have wf: "dict_wf [(''tracing_enabled'', J_bool True), (''live_debugging_enabled'', J_null)]" by (simp add: dict_wf_def)
  have var: "map_of apm_tracing_env_var_names ''live_debugging_enabled'' = Some (Some ''DD_LIVE_DEBUGGING_ENABLED'')"
    by (simp add: apm_tracing_env_var_names_def)
  have look: "dget [(''tracing_enabled'', J_bool True), (''live_debugging_enabled'', J_null)] ''live_debugging_enabled'' = Some J_null"
    by simp
  show ?thesis
    using run sdk_config_translation [OF run lib wf var, of "''action''"] unfolding look by (simp only: option.case if_True refl)
qed

text \<open>The option of a call for a setting of the tracing configuration.\<close>

definition given_option :: "apm_options \<Rightarrow> string \<Rightarrow> bool option" where
  "given_option a k =
     (case map_of [(''dynamic_instrumentation_enabled'', ao_dynamic_instrumentation a),
         (''exception_replay_enabled'', ao_exception_replay a), (''live_debugging_enabled'', ao_live_debugging a),
         (''code_origin_enabled'', ao_code_origin a), (''dynamic_sampling_enabled'', ao_dynamic_sampling a)] k of
        None \<Rightarrow> None | Some v \<Rightarrow> v)"

lemma dget_set_option:
  "dget (set_option k v d) k' = (if k' = k then (case v of None \<Rightarrow> dget d k' | Some b \<Rightarrow> Some (J_bool b)) else dget d k')"
  by (cases v) (simp_all add: set_option_def)

lemma dget_set_options:
  "k \<noteq> ''tracing_enabled'' \<Longrightarrow>
    dget (set_options a d) k = (case given_option a k of Some b \<Rightarrow> Some (J_bool b) | None \<Rightarrow> dget d k)"
  unfolding set_options_def dget_set_option given_option_def dget_dset map_of.simps fst_conv snd_conv
  by (cases "k = ''dynamic_sampling_enabled''"; cases "k = ''code_origin_enabled''"; cases "k = ''live_debugging_enabled''";
    cases "k = ''exception_replay_enabled''"; cases "k = ''dynamic_instrumentation_enabled''"; simp)

text \<open>The combined command carries settings over from the previous configuration: a setting given in
  this call has the given value, every other one (the description of the library aside) keeps
  the value of the last configuration sent, and tracing is enabled.\<close>

theorem combined_command_inherits:
  assumes "build_combined_command C uuid version (prev @ [p]) probes a use_sdk_config = Inr (command, config)"
    and "dget p ''lib_config'' = Some (J_obj lib)" and "dict_wf lib"
  shows "\<exists>lib'. dget config ''lib_config'' = Some (J_obj lib') \<and>
    dget lib' ''tracing_enabled'' = Some (J_bool True) \<and>
    (k \<notin> {''library_language'', ''library_version'', ''tracing_enabled''} \<longrightarrow>
      dget lib' k = (case given_option a k of Some b \<Rightarrow> Some (J_bool b) | None \<Rightarrow> dget lib k))"
proof -
  let ?kept = "filter (\<lambda>p. fst p \<notin> {''library_language'', ''library_version'', ''tracing_enabled''}) lib"
  let ?base = "fold (\<lambda>(k, v). dset k v) ?kept base_lib_config"
  have inh: "inherited_lib_config (prev @ [p]) = Inr ?base"
    using assms(2) by (simp add: inherited_lib_config_def)
  have config: "config = apm_config a (set_options a ?base)"
    using assms(1) by (auto simp: build_combined_command_def inh Let_def rbind_Inr_iff)
  have "distinct (map fst ?kept)" using assms(3) by (simp add: dict_wf_def distinct_map_filter)
  then have rev: "map_of (rev ?kept) = map_of ?kept" by (subst map_of_inject_set) (simp_all flip: rev_map)
  have kept: "k \<notin> {''library_language'', ''library_version'', ''tracing_enabled''} \<Longrightarrow> map_of ?kept k = dget lib k"
    by (induction lib) auto
  have base: "k \<notin> {''library_language'', ''library_version'', ''tracing_enabled''} \<Longrightarrow> dget ?base k = dget lib k"
    using kept rev od.lookup_fold_store [of ?kept base_lib_config k]
    by (simp add: base_lib_config_def split: option.splits)
  have "dget (set_options a ?base) ''tracing_enabled'' = Some (J_bool True)"
    by (simp add: set_options_def dget_set_option)
  moreover have "k \<notin> {''library_language'', ''library_version'', ''tracing_enabled''} \<Longrightarrow>
      dget (set_options a ?base) k = (case given_option a k of Some b \<Rightarrow> Some (J_bool b) | None \<Rightarrow> dget lib k)"
    using base by (subst dget_set_options) (auto split: option.split)
  moreover have "dget config ''lib_config'' = Some (J_obj (set_options a ?base))"
    by (simp add: config apm_config_def)
  ultimately show ?thesis by blast
qed

definition sample_options :: apm_options where
  "sample_options = \<lparr>ao_dynamic_instrumentation = None, ao_exception_replay = None, ao_live_debugging = None,
     ao_code_origin = Some False, ao_dynamic_sampling = None, ao_service = Some ''weblog'', ao_env = None\<rparr>"

theorem combined_command_inherits_witness:
  "\<exists>command config lib'. build_combined_command sample_codec ''u'' (J_int 2)
      ([] @ [[(''lib_config'', J_obj [(''live_debugging_enabled'', J_bool True)])]]) None sample_options False =
      Inr (command, config) \<and> dget config ''lib_config'' = Some (J_obj lib') \<and>
    dget lib' ''live_debugging_enabled'' = Some (J_bool True)"
proof -
  let ?lib = "[(''live_debugging_enabled'', J_bool True)]"
  obtain command config where run: "build_combined_command sample_codec ''u'' (J_int 2)
      ([] @ [[(''lib_config'', J_obj ?lib)]]) None sample_options False = Inr (command, config)"
    by (simp add: build_combined_command_def inherited_lib_config_def apm_payload_def add_probes_def
      build_base_command_def target_of Let_def)
  have lib: "dget [(''lib_config'', J_obj ?lib)] ''lib_config'' = Some (J_obj ?lib)" by simp
  have wf: "dict_wf ?lib" by (simp add: dict_wf_def)
  show ?thesis
    using combined_command_inherits [OF run lib wf, of "''live_debugging_enabled''"] run
    by (auto simp: given_option_def sample_options_def)
qed

end
