(* ===== verification/Rc_State.thy ===== *)
theory Rc_State
  imports Rc_Command
begin

section \<open>State of the remote configuration (utils/\_remote\_config.py, state and sending)\<close>

text \<open>
  The files a test has configured, the payload built from them, and the wait for the library to
  acknowledge it.  The requests of the library on \<open>/v0.7/config\<close> are JSON values: those
  seen before the wait starts, and those that arrive during the wait.  An exception of the
  callback leaves the wait in the first case; in the second it ends the thread that watches the
  files, and the wait times out.  Logging and the dumps of thread stacks are left out.
\<close>

subsection \<open>A configuration file\<close>

record client_config =
  cc_path :: string
  cc_raw :: string
  cc_text :: bytes
  cc_version :: int
  cc_length :: nat
  cc_sha256 :: string

text \<open>
  \<open>raw_decoded\<close> is the decoded text; \<open>cc_text\<close> holds its UTF-8 bytes and
  \<open>raw_length\<close> counts its code points.  The store is the class attribute \<open>_store\<close>.
\<close>

definition client_config_init ::
  "codec \<Rightarrow> (string, client_config) dict \<Rightarrow> string \<Rightarrow> json \<Rightarrow> int \<Rightarrow> (client_config \<times> (string, client_config) dict) res" where
  "client_config_init C store path config version =
     (let raw = (case config of J_str s \<Rightarrow> s | _ \<Rightarrow> json_to_base64 C config) in
      rbind (b64decode_lenient raw) (\<lambda>bs.
        if \<not> utf8_valid bs then Inl Unicode_Error
        else if config \<noteq> J_null then
          (let c = \<lparr>cc_path = path, cc_raw = raw, cc_text = bs, cc_version = version,
                 cc_length = length (utf8_decode bs), cc_sha256 = cd_sha256 C bs\<rparr>
           in Inr (c, dset path c store))
        else (case dget store path of
                None \<Rightarrow> Inl Value_Error
              | Some stored \<Rightarrow>
                  Inr (\<lparr>cc_path = path, cc_raw = raw, cc_text = bs, cc_version = version,
                    cc_length = cc_length stored, cc_sha256 = cc_sha256 stored\<rparr>, store))))"

definition raw_deserialized :: "codec \<Rightarrow> client_config \<Rightarrow> json res" where
  "raw_deserialized C c = cd_loads C (cc_text c)"

definition get_target_file :: "codec \<Rightarrow> bool \<Rightarrow> client_config \<Rightarrow> json res" where
  "get_target_file C deserialized c =
     rbind (if deserialized then raw_deserialized C c else Inr (J_str (cc_raw c))) (\<lambda>raw.
       Inr (J_obj [(''path'', J_str (cc_path c)), (''raw'', raw)]))"

definition get_target :: "client_config \<Rightarrow> json" where
  "get_target c =
     J_obj [(''custom'', J_obj [(''v'', J_int (cc_version c))]), (''hashes'', J_obj [(''sha256'', J_str (cc_sha256 c))]),
       (''length'', J_int (int (cc_length c)))]"

subsection \<open>All files\<close>

record rc_state =
  rs_target :: string
  rs_targets :: "(string, client_config) dict"
  rs_version :: int
  rs_expires :: string
  rs_opaque :: string
  rs_reset_pending :: bool

text \<open>The class attribute \<open>_instances\<close>: one state per target.\<close>

definition rc_state_init :: "string list \<Rightarrow> string \<Rightarrow> string option \<Rightarrow> (string list \<times> rc_state) res" where
  "rc_state_init instances target expires =
     (if target \<in> set instances then Inl Runtime_Error
      else Inr (instances @ [target],
        \<lparr>rs_target = target, rs_targets = [], rs_version = 0,
         rs_expires = (case expires of None \<Rightarrow> default_expires | Some e \<Rightarrow> if e = [] then default_expires else e),
         rs_opaque = b64encode (encode (''{'' @ [CHR 0x22] @ ''foo'' @ [CHR 0x22] @ '': '' @ [CHR 0x22] @ ''bar'' @ [CHR 0x22] @ ''}'')),
         rs_reset_pending = False\<rparr>))"

definition set_config ::
  "codec \<Rightarrow> string \<Rightarrow> json \<Rightarrow> int option \<Rightarrow> (string, client_config) dict \<times> rc_state
     \<Rightarrow> ((string, client_config) dict \<times> rc_state) res" where
  "set_config C path config config_file_version = (\<lambda>(store, s).
     rbind (client_config_init C store path config
         (case config_file_version of None \<Rightarrow> rs_version s + 1 | Some v \<Rightarrow> v)) (\<lambda>(c, store').
       Inr (store', s\<lparr>rs_targets := dset path c (rs_targets s)\<rparr>)))"

definition del_config :: "string \<Rightarrow> rc_state \<Rightarrow> rc_state" where
  "del_config path s = (if dhas (rs_targets s) path then s\<lparr>rs_targets := ddel path (rs_targets s)\<rparr> else s)"

definition reset :: "rc_state \<Rightarrow> rc_state" where
  "reset s = s\<lparr>rs_targets := [], rs_reset_pending := True\<rparr>"

definition serialize_targets :: "codec \<Rightarrow> bool \<Rightarrow> rc_state \<Rightarrow> json" where
  "serialize_targets C deserialized s =
     (let result = build_signed_targets C (J_int (rs_version s))
            (Some (map (\<lambda>(path, target). (path, get_target target)) (rs_targets s))) (rs_opaque s) (rs_expires s)
      in if deserialized then result else J_str (json_to_base64 C result))"

definition to_payload :: "codec \<Rightarrow> bool \<Rightarrow> rc_state \<Rightarrow> json res" where
  "to_payload C deserialized s =
     rbind (rfilter (\<lambda>(path, c). rbind (raw_deserialized C c) (\<lambda>v. Inr (v \<noteq> J_null))) (rs_targets s)) (\<lambda>sent.
     rbind (rmap (\<lambda>(path, c). get_target_file C deserialized c) sent) (\<lambda>target_files.
       Inr (J_obj ([(''targets'', serialize_targets C deserialized s)] @
         (if length target_files > 0 then [(''target_files'', J_list target_files)] else []) @
         (if length (rs_targets s) > 0 then [(''client_configs'', J_list (map J_str (dkeys (rs_targets s))))] else [])))))"

subsection \<open>Waiting for the library\<close>

definition st_unknown :: int where "st_unknown = 0"
definition st_acknowledged :: int where "st_acknowledged = 2"

record rc_results =
  rr_version :: int
  rr_state :: int
  rr_configs :: "(string, jobj) dict"

text \<open>\<open>config_state.update(reported_state)\<close> for every reported state of a known file and product.\<close>

definition dupdate :: "jobj \<Rightarrow> jobj \<Rightarrow> jobj" where
  "dupdate d new = fold (\<lambda>(k, v). dset k v) new d"

definition known_config :: "(string, jobj) dict \<Rightarrow> json \<Rightarrow> (string \<times> jobj) option" where
  "known_config configs i =
     (case i of
        J_str s \<Rightarrow> (case dget configs s of None \<Rightarrow> None | Some c \<Rightarrow> if c = [] then None else Some (s, c))
      | _ \<Rightarrow> None)"

fun report_states :: "json list \<Rightarrow> (string, jobj) dict \<Rightarrow> (string, jobj) dict \<times> unit res" where
  "report_states [] configs = (configs, Inr ())"
| "report_states (r # rs) configs =
     (case j_item ''id'' r of
        Inl e \<Rightarrow> (configs, Inl e)
      | Inr i \<Rightarrow>
          if \<not> j_hashable i then (configs, Inl Type_Error)
          else (case known_config configs i of
                  None \<Rightarrow> report_states rs configs
                | Some (s, c) \<Rightarrow>
                    (case rbind (j_item ''product'' r) (\<lambda>p. rbind (j_item ''product'' (J_obj c)) (\<lambda>q. Inr (p = q))) of
                       Inl e \<Rightarrow> (configs, Inl e)
                     | Inr False \<Rightarrow> report_states rs configs
                     | Inr True \<Rightarrow>
                         (case r of J_obj m \<Rightarrow> report_states rs (dset s (dupdate c m) configs)
                          | _ \<Rightarrow> (configs, Inl Type_Error)))))"

record wait_state =
  ws_configs :: "(string, jobj) dict"
  ws_state :: int
  ws_last :: json

text \<open>The state of the client in a request, with \<open>{}\<close> for what is missing on the way.\<close>

definition client_state :: "json \<Rightarrow> json res" where
  "client_state data =
     rbind (j_get_or ''request'' (J_obj []) data) (\<lambda>r.
     rbind (j_get_or ''content'' (J_obj []) r) (\<lambda>c.
     rbind (j_get_or ''client'' (J_obj []) c) (j_get_or ''state'' (J_obj []))))"

definition all_reported :: "(string, jobj) dict \<Rightarrow> bool res" where
  "all_reported configs =
     rbind (rmap (\<lambda>(i, c). rbind (j_item ''apply_state'' (J_obj c)) (\<lambda>v. Inr (\<not> j_eq v (J_int st_unknown)))) configs) (\<lambda>bs.
       Inr (list_all id bs))"

definition remote_config_applied ::
  "bool \<Rightarrow> bool \<Rightarrow> json \<Rightarrow> int \<Rightarrow> json \<Rightarrow> wait_state \<Rightarrow> wait_state \<times> bool res" where
  "remote_config_applied no_configs wait_ack version state_version data s =
     (case j_item ''path'' data of
        Inl e \<Rightarrow> (s, Inl e)
      | Inr path \<Rightarrow>
          if path \<noteq> J_str ''/v0.7/config'' then (s, Inr False)
          else (case client_state data of
             Inl e \<Rightarrow> (s, Inl e)
           | Inr client \<Rightarrow>
               (let s1 = s\<lparr>ws_last := client\<rparr> in
                case rbind (j_get ''targets_version'' client) (\<lambda>v. rbind (j_get_or ''config_states'' (J_list []) client) (\<lambda>cs. Inr (v, cs))) of
                  Inl e \<Rightarrow> (s1, Inl e)
                | Inr (targets_version, config_states) \<Rightarrow>
                    if no_configs then
                      (if j_eq targets_version (J_int state_version) \<and> config_states = J_list []
                       then (s1\<lparr>ws_state := st_acknowledged\<rparr>, Inr True) else (s1, Inr False))
                    else if \<not> j_eq targets_version version then (s1, Inr False)
                    else (case j_iter config_states of
                       Inl e \<Rightarrow> (s1, Inl e)
                     | Inr states \<Rightarrow>
                         (case report_states states (ws_configs s1) of
                            (configs, Inl e) \<Rightarrow> (s1\<lparr>ws_configs := configs\<rparr>, Inl e)
                          | (configs, Inr _) \<Rightarrow>
                              (let s2 = s1\<lparr>ws_configs := configs\<rparr> in
                               if \<not> wait_ack then (s2\<lparr>ws_state := st_acknowledged\<rparr>, Inr True)
                               else (case all_reported configs of
                                       Inl e \<Rightarrow> (s2, Inl e)
                                     | Inr False \<Rightarrow> (s2, Inr False)
                                     | Inr True \<Rightarrow> (s2\<lparr>ws_state := st_acknowledged\<rparr>, Inr True))))))))"

text \<open>\<open>wait_for\<close>: the requests already seen, then those that arrive before the timeout.\<close>

fun scan :: "('d \<Rightarrow> 's \<Rightarrow> 's \<times> bool res) \<Rightarrow> 'd list \<Rightarrow> 's \<Rightarrow> 's \<times> bool res" where
  "scan f [] s = (s, Inr False)"
| "scan f (d # ds) s =
     (case f d s of
        (s', Inr False) \<Rightarrow> scan f ds s'
      | r \<Rightarrow> r)"

definition wait_requests ::
  "('d \<Rightarrow> 's \<Rightarrow> 's \<times> bool res) \<Rightarrow> 'd list \<Rightarrow> 'd list \<Rightarrow> 's \<Rightarrow> 's \<times> bool res" where
  "wait_requests f seen incoming s =
     (case scan f seen s of
        (s', Inr False) \<Rightarrow>
          (case scan f incoming s' of
             (s'', Inl e) \<Rightarrow> (s'', Inr False)
           | r \<Rightarrow> r)
      | r \<Rightarrow> r)"

subsection \<open>Sending\<close>

record send_env =
  se_scenario_api :: bool
  se_scenario_backend :: bool
  se_library :: string
  se_fail_fast :: string

definition config_entry :: "json \<Rightarrow> (string \<times> jobj) res" where
  "config_entry client_config =
     rbind (j_as_str client_config) (\<lambda>path.
       case str_split ''/'' path of
         [a, b, prod_name, config_name, e] \<Rightarrow>
           Inr (config_name, [(''id'', J_str config_name), (''product'', J_str prod_name), (''apply_state'', J_int st_unknown),
             (''apply_error'', J_str ''<No known response from the library>'')])
       | _ \<Rightarrow> Inl Value_Error)"

definition initial_configs :: "json list \<Rightarrow> (string, jobj) dict res" where
  "initial_configs client_configs =
     rbind (rmap config_entry client_configs) (\<lambda>es. Inr (fold (\<lambda>(i, c). dset i c) es []))"

text \<open>The mock that delivers the payload.\<close>

definition mock_for :: "codec \<Rightarrow> send_env \<Rightarrow> json \<Rightarrow> string \<Rightarrow> mocked res" where
  "mock_for C env raw_payload target =
     (if \<not> se_scenario_api env then Inl Assertion_Error
      else if target = ''backend'' then
        (if \<not> se_scenario_backend env then Inl Assertion_Error
         else rbind (build_rc_configurations_protobuf C raw_payload) (\<lambda>content.
           Inr (MockedBackend (J_str ''/api/v0.1/configurations'') content (J_str ''application/x-protobuf'') (J_int 200))))
      else if target = ''tracer'' then
        (if se_scenario_backend env then Inl Assertion_Error
         else Inr (StaticJson (J_str ''/v0.7/config'') raw_payload (J_int 200)))
      else Inl Value_Error)"

definition payload_version :: "codec \<Rightarrow> json \<Rightarrow> json res" where
  "payload_version C raw_payload =
     rbind (j_item ''targets'' raw_payload) (\<lambda>t. rbind (j_b64decode t) (\<lambda>bs.
     rbind (cd_loads C bs) (j_path [''signed'', ''version''])))"

text \<open>The part after the mock is sent.\<close>

definition await_state ::
  "codec \<Rightarrow> send_env \<Rightarrow> json \<Rightarrow> bool \<Rightarrow> int \<Rightarrow> json list \<times> json list \<Rightarrow> rc_results res" where
  "await_state C env raw_payload wait_ack state_version requests =
     rbind (j_get_or ''client_configs'' (J_list []) raw_payload) (\<lambda>ccs.
     rbind (payload_version C raw_payload) (\<lambda>version.
     rbind (j_iter ccs) (\<lambda>client_configs.
     rbind (initial_configs client_configs) (\<lambda>configs.
       case wait_requests (remote_config_applied (client_configs = []) wait_ack version state_version)
              (fst requests) (snd requests) \<lparr>ws_configs = configs, ws_state = st_unknown, ws_last = J_obj []\<rparr> of
         (s, Inl e) \<Rightarrow> Inl e
       | (s, Inr rv) \<Rightarrow>
           if \<not> rv \<and> se_library env = ''ruby'' \<and> str_lower (se_fail_fast env) = ''true'' then Inl Assertion_Error
           else Inr \<lparr>rr_version = state_version, rr_state = ws_state s, rr_configs = ws_configs s\<rparr>))))"

definition send_state ::
  "codec \<Rightarrow> send_env \<Rightarrow> json \<Rightarrow> string \<Rightarrow> bool \<Rightarrow> int \<Rightarrow> json list \<times> json list \<Rightarrow> mocked list \<times> rc_results res" where
  "send_state C env raw_payload target wait_ack state_version requests =
     (case mock_for C env raw_payload target of
        Inl e \<Rightarrow> ([], Inl e)
      | Inr m \<Rightarrow> ([m], await_state C env raw_payload wait_ack state_version requests))"

text \<open>
  \<open>apply\<close>: the state afterwards (also when a call raises), the mocks sent and the result.  The
  requests seen while waiting for the empty payload are the first, those for the payload the
  second argument.
\<close>

definition apply_payload ::
  "codec \<Rightarrow> send_env \<Rightarrow> bool \<Rightarrow> json list \<times> json list \<Rightarrow> rc_state \<Rightarrow> rc_state \<times> mocked list \<times> rc_results res" where
  "apply_payload C env wait_ack requests s =
     (let s' = s\<lparr>rs_reset_pending := False, rs_version := rs_version s + 1\<rparr> in
      case to_payload C False s' of
        Inl e \<Rightarrow> (s', [], Inl e)
      | Inr command \<Rightarrow> (s', send_state C env command (rs_target s') wait_ack (rs_version s') requests))"

definition apply_state ::
  "codec \<Rightarrow> send_env \<Rightarrow> bool \<Rightarrow> json list \<times> json list \<Rightarrow> json list \<times> json list \<Rightarrow> rc_state
     \<Rightarrow> rc_state \<times> mocked list \<times> rc_results res" where
  "apply_state C env wait_ack reset_requests requests s =
     (if rs_reset_pending s \<and> rs_targets s \<noteq> [] \<and> se_library env \<in> {''golang'', ''java''} then
        (let cleared = s\<lparr>rs_targets := [], rs_version := rs_version s + 1\<rparr> in
         case to_payload C False cleared of
           Inl e \<Rightarrow> (cleared, [], Inl e)
         | Inr command \<Rightarrow>
             (case send_state C env command (rs_target cleared) True (rs_version cleared) reset_requests of
                (sent, Inl e) \<Rightarrow> (cleared, sent, Inl e)
              | (sent, Inr _) \<Rightarrow>
                  (let (s', sent', r) = apply_payload C env wait_ack requests (cleared\<lparr>rs_targets := rs_targets s\<rparr>)
                   in (s', sent @ sent', r))))
      else apply_payload C env wait_ack requests s)"

subsection \<open>Sequential commands\<close>

text \<open>\<open>all_payload_sent\<close>: how many responses of the sequence each runtime has received.\<close>

fun overwrite_count :: "json list \<Rightarrow> int option res" where
  "overwrite_count [] = Inr None"
| "overwrite_count (h # hs) =
     (case h of
        J_list [J_str name, v] \<Rightarrow>
          if name = ''st-proxy-overwrite-rc-response''
          then (case v of J_str t \<Rightarrow> rbind (py_int 10 t) (\<lambda>n. Inr (Some (n + 1))) | J_int n \<Rightarrow> Inr (Some (n + 1)) | _ \<Rightarrow> Inl Type_Error)
          else overwrite_count hs
      | J_list [x, v] \<Rightarrow> overwrite_count hs
      | J_list _ \<Rightarrow> Inl Value_Error
      | _ \<Rightarrow> Inl Type_Error)"

definition all_payload_sent ::
  "nat \<Rightarrow> json \<Rightarrow> (json, int) dict \<Rightarrow> (json, int) dict \<times> bool res" where
  "all_payload_sent n data counts =
     (case j_item ''path'' data of
        Inl e \<Rightarrow> (counts, Inl e)
      | Inr path \<Rightarrow>
          if path \<noteq> J_str ''/v0.7/config'' then (counts, Inr False)
          else if \<exists>c \<in> snd ` set counts. c \<ge> int n then (counts, Inr True)
          else (case j_path [''request'', ''content'', ''client'', ''client_tracer'', ''runtime_id''] data of
             Inl e \<Rightarrow> (counts, Inl e)
           | Inr runtime_id \<Rightarrow>
               if \<not> j_hashable runtime_id then (counts, Inl Type_Error)
               else
                 (let counts1 = (if dhas counts runtime_id then counts else dset runtime_id 0 counts) in
                  case rbind (j_path [''response'', ''headers''] data) (\<lambda>hs. rbind (j_iter hs) overwrite_count) of
                    Inl e \<Rightarrow> (counts1, Inl e)
                  | Inr None \<Rightarrow> (counts1, Inr False)
                  | Inr (Some c) \<Rightarrow> (dset runtime_id c counts1, Inr False))))"

definition send_sequential_commands ::
  "json list \<Rightarrow> bool \<Rightarrow> json list \<times> json list \<Rightarrow> (mocked \<times> bool) res" where
  "send_sequential_commands commands wait_for_all_command requests =
     (if length commands = 0 then Inl Value_Error
      else
        (let m = SequentialRemoteConfig (J_list commands) [] in
         if \<not> wait_for_all_command then Inr (m, True)
         else (case wait_requests (all_payload_sent (length commands)) (fst requests) (snd requests) [] of
                 (counts, Inl e) \<Rightarrow> Inl e
               | (counts, Inr completed) \<Rightarrow> Inr (m, completed))))"

subsection \<open>When the wait ends\<close>

lemma fold_dset_keys_wf: "dict_wf d \<Longrightarrow> dict_wf (fold (\<lambda>(k, v). dset k v) ps d)"
  by (induction ps arbitrary: d) auto

text \<open>A property of the state every step that does not end the wait keeps, holds until it ends.\<close>

definition keeps :: "('s \<Rightarrow> bool) \<Rightarrow> ('d \<Rightarrow> 's \<Rightarrow> 's \<times> bool res) \<Rightarrow> bool" where
  "keeps P f \<longleftrightarrow> (\<forall>d s s' r. P s \<longrightarrow> f d s = (s', r) \<longrightarrow> r \<noteq> Inr True \<longrightarrow> P s')"

lemma scan_keeps:
  assumes "keeps P f"
  shows "scan f ds s = (s', r) \<Longrightarrow> P s \<Longrightarrow>
    if r = Inr True then \<exists>d \<in> set ds. \<exists>s0. P s0 \<and> f d s0 = (s', Inr True) else P s'"
proof (induction ds arbitrary: s)
  case (Cons d ds)
  obtain s1 r1 where f: "f d s = (s1, r1)" by force
  show ?case
  proof (cases "r1 = Inr False")
    case True
    then have "P s1" using assms Cons.prems(2) f by (auto simp: keeps_def)
    moreover have "scan f ds s1 = (s', r)" using Cons.prems(1) f True by simp
    ultimately show ?thesis using Cons.IH [of s1] by (auto split: if_splits)
  next
    case False
    then have "s1 = s'" "r1 = r" using Cons.prems(1) f by (auto split: sum.splits bool.splits)
    then show ?thesis using assms Cons.prems(2) f by (auto simp: keeps_def)
  qed
qed auto

lemma wait_requests_cases:
  assumes run: "wait_requests f seen incoming s = (s', Inr rv)" and keeps: "keeps P f" and start: "P s"
  shows "if rv then \<exists>d \<in> set (seen @ incoming). \<exists>s0. P s0 \<and> f d s0 = (s', Inr True) else P s'"
proof -
  obtain s1 r1 where seen: "scan f seen s = (s1, r1)" by force
  obtain s2 r2 where incoming: "scan f incoming s1 = (s2, r2)" by force
  consider (True) "r1 = Inr True" | (False) "r1 = Inr False" | (Error) e where "r1 = Inl e"
    by (cases r1) auto
  then show ?thesis
  proof cases
    case True
    then have "s1 = s'" "rv" using run seen by (auto simp: wait_requests_def)
    then show ?thesis using scan_keeps [OF keeps seen start] True by auto
  next
    case False
    then have p: "P s1" using scan_keeps [OF keeps seen start] by simp
    have "s2 = s' \<and> rv = (r2 = Inr True)"
      using run seen incoming False by (auto simp: wait_requests_def split: sum.splits bool.splits)
    moreover have "set incoming \<subseteq> set (seen @ incoming)" by simp
    ultimately show ?thesis using scan_keeps [OF keeps incoming p] by (auto split: if_splits)
  next
    case Error
    then show ?thesis using run seen by (simp add: wait_requests_def)
  qed
qed

text \<open>A request in which the client reports the version that is awaited.\<close>

definition reports_version :: "json \<Rightarrow> json \<Rightarrow> bool" where
  "reports_version version data \<longleftrightarrow> j_item ''path'' data = Inr (J_str ''/v0.7/config'') \<and>
     (\<exists>client v. client_state data = Inr client \<and> j_get ''targets_version'' client = Inr v \<and> j_eq v version)"

definition has_reported :: "jobj \<Rightarrow> bool" where
  "has_reported c \<longleftrightarrow> (\<exists>v. dget c ''apply_state'' = Some v \<and> \<not> j_eq v (J_int st_unknown))"

lemma all_reported_True: "all_reported configs = Inr True \<Longrightarrow> list_all (\<lambda>(i, c). has_reported c) configs"
  by (induction configs) (auto simp: all_reported_def rbind_Inr_iff has_reported_def dgetitem_def of_option_def
    split: option.splits)

lemma applied_True:
  assumes "remote_config_applied no_configs wait_ack version sv data s = (s', Inr True)"
  shows "ws_state s' = st_acknowledged \<and> reports_version (if no_configs then J_int sv else version) data \<and>
    (wait_ack \<and> \<not> no_configs \<longrightarrow> list_all (\<lambda>(i, c). has_reported c) (ws_configs s'))"
proof (cases no_configs)
  case True
  with assms show ?thesis
    by (auto simp: remote_config_applied_def reports_version_def rbind_Inr_iff Let_def
      split: sum.splits if_splits prod.splits)
next
  case False
  with assms show ?thesis
    by (auto simp: remote_config_applied_def reports_version_def rbind_Inr_iff Let_def all_reported_True
      split: sum.splits if_splits prod.splits bool.splits)
qed

lemma applied_other:
  "remote_config_applied no_configs wait_ack version sv data s = (s', r) \<Longrightarrow> r \<noteq> Inr True \<Longrightarrow> ws_state s' = ws_state s"
  by (auto simp: remote_config_applied_def Let_def split: sum.splits if_splits prod.splits bool.splits)

lemma applied_no_configs:
  "remote_config_applied True wait_ack version sv data s = (s', r) \<Longrightarrow> ws_configs s' = ws_configs s"
  by (auto simp: remote_config_applied_def Let_def split: sum.splits if_splits prod.splits)


subsection \<open>A library that reports its files\<close>

definition report_obj :: "string \<times> string \<times> int \<Rightarrow> jobj" where
  "report_obj = (\<lambda>(i, p, st). [(''id'', J_str i), (''product'', J_str p), (''apply_state'', J_int st)])"

definition poll :: "json \<Rightarrow> (string \<times> string \<times> int) list \<Rightarrow> json" where
  "poll version reports =
     J_obj [(''path'', J_str ''/v0.7/config''), (''request'', J_obj [(''content'', J_obj [(''client'', J_obj [(''state'',
       J_obj [(''targets_version'', version), (''config_states'', J_list (map (\<lambda>r. J_obj (report_obj r)) reports))])])])])]"

definition apply_report :: "string \<times> string \<times> int \<Rightarrow> (string, jobj) dict \<Rightarrow> (string, jobj) dict" where
  "apply_report r configs = dset (fst r) (dupdate (the (dget configs (fst r))) (report_obj r)) configs"

lemma report_states_known:
  assumes "distinct (map fst rs)"
    and "\<And>i p st. (i, p, st) \<in> set rs \<Longrightarrow> \<exists>c. dget configs i = Some c \<and> dget c ''product'' = Some (J_str p)"
  shows "report_states (map (\<lambda>r. J_obj (report_obj r)) rs) configs = (fold apply_report rs configs, Inr ())"
  using assms
proof (induction rs arbitrary: configs)
  case (Cons r rs)
  obtain i p st where r: "r = (i, p, st)" by (cases r)
  obtain c where c: "dget configs i = Some c" "dget c ''product'' = Some (J_str p)"
    using Cons.prems(2) [of i p st] by (auto simp: r)
  then have known: "known_config configs (J_str i) = Some (i, c)" by (auto simp: known_config_def)
  have "report_states (map (\<lambda>r. J_obj (report_obj r)) rs) (apply_report r configs) =
      (fold apply_report rs (apply_report r configs), Inr ())"
  proof (rule Cons.IH)
    show "distinct (map fst rs)" using Cons.prems(1) by simp
    fix j q u assume j: "(j, q, u) \<in> set rs"
    then have "j \<noteq> i" using Cons.prems(1) by (auto simp: r rev_image_eqI)
    then show "\<exists>c. dget (apply_report r configs) j = Some c \<and> dget c ''product'' = Some (J_str q)"
      using Cons.prems(2) [of j q u] j by (auto simp: apply_report_def r)
  qed
  moreover have "dset i (dupdate c (report_obj (i, p, st))) configs = apply_report r configs"
    by (simp add: apply_report_def r c)
  moreover have items: "dgetitem (report_obj (i, p, st)) ''id'' = Inr (J_str i)"
    "dgetitem (report_obj (i, p, st)) ''product'' = Inr (J_str p)" "dgetitem c ''product'' = Inr (J_str p)"
    by (simp_all add: report_obj_def dgetitem_def c)
  ultimately show ?case by (simp add: r known items)
qed simp

lemma fold_apply_report_keys:
  "fst ` set rs \<subseteq> set (dkeys configs) \<Longrightarrow> dkeys (fold apply_report rs configs) = dkeys configs"
  by (induction rs arbitrary: configs) (auto simp: apply_report_def dkeys_dset)

lemma fold_apply_report_get:
  "distinct (map fst rs) \<Longrightarrow> dget (fold apply_report rs configs) i =
    (case map_of rs i of None \<Rightarrow> dget configs i | Some r \<Rightarrow> Some (dupdate (the (dget configs i)) (report_obj (i, r))))"
proof (induction rs arbitrary: configs)
  case (Cons r rs)
  have d: "distinct (map fst rs)" "map_of rs (fst r) = None"
    using Cons.prems by (auto simp: map_of_eq_None_iff)
  have g: "dget (apply_report r configs) i =
      (if i = fst r then Some (dupdate (the (dget configs i)) (report_obj (i, snd r))) else dget configs i)" for r
    by (simp add: apply_report_def)
  have "dget (fold apply_report (r # rs) configs) i = (case map_of rs i of None \<Rightarrow> dget (apply_report r configs) i
      | Some u \<Rightarrow> Some (dupdate (the (dget (apply_report r configs) i)) (report_obj (i, u))))"
    by (simp add: Cons.IH [OF d(1)])
  with d(2) show ?case by (cases r) (auto simp: g split: option.splits)
qed simp

lemma dupdate_apply_state: "dget (dupdate c (report_obj (i, p, st))) ''apply_state'' = Some (J_int st)"
  by (simp add: dupdate_def report_obj_def)

lemma has_reported_int: "dget c ''apply_state'' = Some (J_int st) \<Longrightarrow> st \<noteq> 0 \<Longrightarrow> has_reported c"
  by (simp add: has_reported_def j_eq_def st_unknown_def)

lemma all_reported_intro: "list_all (\<lambda>(i, c). has_reported c) configs \<Longrightarrow> all_reported configs = Inr True"
proof (induction configs)
  case (Cons p configs)
  obtain i c where p: "p = (i, c)" by force
  from Cons.prems obtain v where "dget c ''apply_state'' = Some v" "\<not> j_eq v (J_int st_unknown)"
    by (auto simp: p has_reported_def)
  with Cons show ?case by (auto simp: p all_reported_def rbind_Inr_iff dgetitem_def)
qed (simp add: all_reported_def)

lemma client_state_poll: "client_state (poll version rs) =
    Inr (J_obj [(''targets_version'', version), (''config_states'', J_list (map (\<lambda>r. J_obj (report_obj r)) rs))])"
  by (simp add: client_state_def poll_def j_get_or_def)

lemma poll_path: "j_item ''path'' (poll version rs) = Inr (J_str ''/v0.7/config'')"
  by (simp add: poll_def dgetitem_def)

lemma poll_ends_wait:
  assumes wf: "dict_wf (ws_configs s)" and keys: "map fst rs = dkeys (ws_configs s)"
    and known: "\<And>i p st. (i, p, st) \<in> set rs \<Longrightarrow> st \<noteq> 0 \<and> (\<exists>c. dget (ws_configs s) i = Some c \<and> dget c ''product'' = Some (J_str p))"
  shows "\<exists>client. remote_config_applied False wait_ack version sv (poll version rs) s =
    (\<lparr>ws_configs = fold apply_report rs (ws_configs s), ws_state = st_acknowledged, ws_last = client\<rparr>, Inr True)"
proof -
  let ?c = "fold apply_report rs (ws_configs s)"
  have dist: "distinct (map fst rs)" using wf by (simp add: keys dkeys_def dict_wf_def)
  have rep: "report_states (map (\<lambda>r. J_obj (report_obj r)) rs) (ws_configs s) = (?c, Inr ())"
    using known by (intro report_states_known [OF dist]) blast
  have keep: "dkeys ?c = dkeys (ws_configs s)"
    by (rule fold_apply_report_keys) (simp flip: keys)
  have "list_all (\<lambda>(i, c). has_reported c) ?c"
  proof (clarsimp simp: list_all_iff)
    fix i c assume ic: "(i, c) \<in> set ?c"
    have "dict_wf ?c" using wf keep by (simp add: dict_wf_def dkeys_def)
    with ic have get: "dget ?c i = Some c" by (simp add: dget_in_set)
    from ic have "i \<in> set (dkeys ?c)" by (auto simp: dkeys_def rev_image_eqI)
    then have "i \<in> fst ` set rs" by (metis keep keys list.set_map)
    then obtain p st where r: "map_of rs i = Some (p, st)" by (cases "map_of rs i") (auto simp: map_of_eq_None_iff)
    then have "st \<noteq> 0" using known map_of_SomeD by fastforce
    moreover have "dget c ''apply_state'' = Some (J_int st)"
      using get r by (auto simp: fold_apply_report_get [OF dist] dupdate_apply_state)
    ultimately show "has_reported c" by (rule has_reported_int [rotated])
  qed
  then have all: "all_reported ?c = Inr True" by (rule all_reported_intro)
  obtain configs state l where s: "s = \<lparr>ws_configs = configs, ws_state = state, ws_last = l\<rparr>" by (cases s)
  show ?thesis
    using rep all by (simp add: s remote_config_applied_def poll_path client_state_poll j_get_or_def j_eq_refl Let_def)
qed

lemma scan_append:
  "\<forall>d \<in> set pre. f d s = (s, Inr False) \<Longrightarrow> scan f (pre @ ds) s = scan f ds s"
  by (induction pre) auto


definition waiting_codec :: codec where
  "waiting_codec = sample_codec\<lparr>cd_loads := \<lambda>b. Inr (J_obj [(''signed'', J_obj [(''version'', J_int 3)])])\<rparr>"

definition waiting_env :: send_env where
  "waiting_env = \<lparr>se_scenario_api = True, se_scenario_backend = False, se_library = ''golang'', se_fail_fast = []\<rparr>"

definition waiting_payload :: "string list \<Rightarrow> json" where
  "waiting_payload paths = J_obj [(''targets'', J_str []), (''client_configs'', J_list (map J_str paths))]"

lemma waiting_version: "payload_version waiting_codec (waiting_payload paths) = Inr (J_int 3)"
proof -
  have "b64decode_lenient [] = Inr []" by code_simp
  then show ?thesis by (simp add: payload_version_def waiting_payload_def waiting_codec_def dgetitem_def)
qed



end
