(* ===== verification/Rc_Apply.thy ===== *)
theory Rc_Apply
  imports Rc_State
begin

section \<open>Applying the configured files (utils/\_remote\_config.py, properties)\<close>

text \<open>
  What a state keeps over the calls of a test session (the states are module-level objects that
  every test shares), and what \<open>apply\<close> sends: the files it serves are those its signed targets
  name, with the hash of their content, under a version that grows with every call.
\<close>

subsection \<open>The calls of a session\<close>

type_synonym requests = "json list \<times> json list"

datatype rc_op =
    Op_set string json "int option"
  | Op_del string
  | Op_reset
  | Op_apply bool requests requests

text \<open>A call that raises leaves what it has changed.\<close>

fun rc_step ::
  "codec \<Rightarrow> send_env \<Rightarrow> rc_op \<Rightarrow> (string, client_config) dict \<times> rc_state \<Rightarrow> (string, client_config) dict \<times> rc_state" where
  "rc_step C env (Op_set path config v) (store, s) =
     (case set_config C path config v (store, s) of Inl e \<Rightarrow> (store, s) | Inr st \<Rightarrow> st)"
| "rc_step C env (Op_del path) (store, s) = (store, del_config path s)"
| "rc_step C env Op_reset (store, s) = (store, reset s)"
| "rc_step C env (Op_apply wait_ack reset_requests requests) (store, s) =
     (store, fst (apply_state C env wait_ack reset_requests requests s))"

definition rc_run ::
  "codec \<Rightarrow> send_env \<Rightarrow> rc_op list \<Rightarrow> (string, client_config) dict \<times> rc_state \<Rightarrow> (string, client_config) dict \<times> rc_state" where
  "rc_run C env ops st = fold (rc_step C env) ops st"

definition file_ok :: "codec \<Rightarrow> string \<Rightarrow> client_config \<Rightarrow> bool" where
  "file_ok C path c \<longleftrightarrow> cc_path c = path \<and> b64decode_lenient (cc_raw c) = Inr (cc_text c) \<and>
     (cc_sha256 c = cd_sha256 C (cc_text c) \<or> cc_text c = encode (cd_dumps C Indented J_null))"

definition rc_inv :: "codec \<Rightarrow> rc_state \<Rightarrow> bool" where
  "rc_inv C s \<longleftrightarrow> dict_wf (rs_targets s) \<and> (\<forall>path c. dget (rs_targets s) path = Some c \<longrightarrow> file_ok C path c)"

lemma client_config_init_ok:
  "client_config_init C store path config v = Inr (c, store') \<Longrightarrow> file_ok C path c"
  by (auto simp: client_config_init_def file_ok_def rbind_Inr_iff Let_def json_to_base64_def
    split: if_splits option.splits json.splits)

lemma rc_inv_set:
  "set_config C path config v (store, s) = Inr (store', s') \<Longrightarrow> rc_inv C s \<Longrightarrow> rc_inv C s'"
  by (auto simp: set_config_def rbind_Inr_iff rc_inv_def split: if_splits dest: client_config_init_ok)

lemma rc_inv_del: "rc_inv C s \<Longrightarrow> rc_inv C (del_config path s)"
  by (auto simp: del_config_def rc_inv_def)

lemma rc_inv_reset: "rc_inv C (reset s)"
  by (simp add: reset_def rc_inv_def)

definition flushes :: "send_env \<Rightarrow> rc_state \<Rightarrow> bool" where
  "flushes env s \<longleftrightarrow> rs_reset_pending s \<and> rs_targets s \<noteq> [] \<and> se_library env \<in> {''golang'', ''java''}"

lemma apply_payload_state:
  "apply_payload C env w q s = (s', sent, r) \<Longrightarrow> s' = s\<lparr>rs_reset_pending := False, rs_version := rs_version s + 1\<rparr>"
  by (auto simp: apply_payload_def Let_def split: sum.splits)

lemma apply_state_cases:
  assumes "apply_state C env w q1 q2 s = (s', sent, r)"
  obtains (flush_failed) e where "flushes env s" "r = Inl e" "s' = s\<lparr>rs_targets := [], rs_version := rs_version s + 1\<rparr>"
  | (applied) "s' = s\<lparr>rs_reset_pending := False, rs_version := rs_version s + (if flushes env s then 2 else 1)\<rparr>"
  using assms unfolding apply_state_def flushes_def [symmetric]
  by (auto simp: Let_def split: if_splits sum.splits prod.splits dest!: apply_payload_state)

lemma rc_inv_apply: "rc_inv C s \<Longrightarrow> rc_inv C (fst (apply_state C env w q1 q2 s))"
proof -
  assume inv: "rc_inv C s"
  obtain s' sent r where a: "apply_state C env w q1 q2 s = (s', sent, r)" by (metis prod_cases3)
  from a show ?thesis by (rule apply_state_cases) (use inv in \<open>auto simp: a rc_inv_def\<close>)
qed

lemma rc_inv_step: "rc_inv C (snd st) \<Longrightarrow> rc_inv C (snd (rc_step C env op st))"
  by (cases st; cases op) (auto simp: rc_inv_set rc_inv_del rc_inv_reset rc_inv_apply split: sum.splits)

lemma rc_inv_run: "rc_inv C (snd st) \<Longrightarrow> rc_inv C (snd (rc_run C env ops st))"
  unfolding rc_run_def by (induction ops arbitrary: st) (auto simp: rc_inv_step)

lemma rc_inv_init: "rc_state_init instances target expires = Inr (instances', s) \<Longrightarrow> rc_inv C s"
  by (auto simp: rc_state_init_def rc_inv_def split: if_splits)

subsection \<open>The payload\<close>

definition signed_sha256 :: "json \<Rightarrow> string \<Rightarrow> json res" where
  "signed_sha256 doc path = j_path [''signed'', ''targets'', path, ''hashes'', ''sha256''] doc"

lemma dget_map_values: "dget (map (\<lambda>(k, v). (k, f v)) d) k = map_option f (dget d k)"
  by (induction d) auto

lemma signed_sha256_targets:
  "dget (rs_targets s) path = Some c \<Longrightarrow> signed_sha256 (serialize_targets C True s) path = Inr (J_str (cc_sha256 c))"
  by (simp add: signed_sha256_def serialize_targets_def build_signed_targets_def sign_tuf_document_def
    build_targets_content_def get_target_def dgetitem_def dget_map_values)

lemma rfilter_in_set: "rfilter f xs = Inr ys \<Longrightarrow> y \<in> set ys \<Longrightarrow> y \<in> set xs \<and> f y = Inr True"
proof (induction xs arbitrary: ys)
  case (Cons x xs)
  then show ?case by (fastforce simp: rfilter_def rbind_Inr_iff split: if_splits)
qed (simp add: rfilter_def)

lemma to_payload_parts:
  assumes "to_payload C False s = Inr payload"
  obtains files where
    "payload = J_obj ([(''targets'', J_str (json_to_base64 C (serialize_targets C True s)))] @
       (if files \<noteq> [] then [(''target_files'', J_list files)] else []) @
       (if rs_targets s \<noteq> [] then [(''client_configs'', J_list (map J_str (dkeys (rs_targets s))))] else []))"
    and "\<And>tf. tf \<in> set files \<Longrightarrow> \<exists>path c v. (path, c) \<in> set (rs_targets s) \<and> raw_deserialized C c = Inr v \<and> v \<noteq> J_null \<and>
       tf = J_obj [(''path'', J_str (cc_path c)), (''raw'', J_str (cc_raw c))]"
proof -
  from assms obtain kept files where kept: "rfilter (\<lambda>(path, c). rbind (raw_deserialized C c) (\<lambda>v. Inr (v \<noteq> J_null))) (rs_targets s) = Inr kept"
    and files: "rmap (\<lambda>(path, c). get_target_file C False c) kept = Inr files"
    and payload: "payload = J_obj ([(''targets'', serialize_targets C False s)] @
         (if length files > 0 then [(''target_files'', J_list files)] else []) @
         (if length (rs_targets s) > 0 then [(''client_configs'', J_list (map J_str (dkeys (rs_targets s))))] else []))"
    by (auto simp: to_payload_def rbind_Inr_iff)
  show ?thesis
  proof (rule that)
    show "payload = J_obj ([(''targets'', J_str (json_to_base64 C (serialize_targets C True s)))] @
       (if files \<noteq> [] then [(''target_files'', J_list files)] else []) @
       (if rs_targets s \<noteq> [] then [(''client_configs'', J_list (map J_str (dkeys (rs_targets s))))] else []))"
      unfolding payload by (simp add: serialize_targets_def Let_def)
    fix tf assume "tf \<in> set files"
    from rmap_in_set [OF files this] obtain p where p: "p \<in> set kept" "(case p of (path, c) \<Rightarrow> get_target_file C False c) = Inr tf" by auto
    obtain path c where pc: "p = (path, c)" by force
    from rfilter_in_set [OF kept p(1)] p(2) show "\<exists>path c v. (path, c) \<in> set (rs_targets s) \<and> raw_deserialized C c = Inr v \<and> v \<noteq> J_null \<and>
       tf = J_obj [(''path'', J_str (cc_path c)), (''raw'', J_str (cc_raw c))]"
      by (auto simp: pc get_target_file_def rbind_Inr_iff)
  qed
qed

text \<open>C3.  After any calls of a session, failed ones included, every file that \<open>to_payload\<close> serves is
  listed in the client configurations, and the signed targets of the payload name it with the
  SHA-256 of the bytes it decodes to.  The reading of the text of \<open>None\<close> as \<open>None\<close> is that of
  \<open>json.loads\<close>.\<close>

theorem served_files_match_targets:
  assumes "rc_state_init instances target expires = Inr (instances', s0)" and "rc_run C env ops ([], s0) = (store, s)"
    and "cd_loads C (encode (cd_dumps C Indented J_null)) = Inr J_null"
    and "to_payload C False s = Inr payload" and "j_get_or ''target_files'' (J_list []) payload = Inr (J_list files)"
    and "tf \<in> set files"
  shows "j_item ''targets'' payload = Inr (J_str (json_to_base64 C (serialize_targets C True s))) \<and>
    (\<exists>path raw bs configs. tf = J_obj [(''path'', J_str path), (''raw'', J_str raw)] \<and> b64decode_lenient raw = Inr bs \<and>
      signed_sha256 (serialize_targets C True s) path = Inr (J_str (cd_sha256 C bs)) \<and>
      j_item ''client_configs'' payload = Inr (J_list configs) \<and> J_str path \<in> set configs)"
proof -
  have inv: "rc_inv C s"
    using rc_inv_run [of C "([], s0)" env ops] rc_inv_init [OF assms(1)] assms(2) by simp
  obtain fs where payload: "payload = J_obj ([(''targets'', J_str (json_to_base64 C (serialize_targets C True s)))] @
       (if fs \<noteq> [] then [(''target_files'', J_list fs)] else []) @
       (if rs_targets s \<noteq> [] then [(''client_configs'', J_list (map J_str (dkeys (rs_targets s))))] else []))"
    and fs: "\<And>tf. tf \<in> set fs \<Longrightarrow> \<exists>path c v. (path, c) \<in> set (rs_targets s) \<and> raw_deserialized C c = Inr v \<and> v \<noteq> J_null \<and>
       tf = J_obj [(''path'', J_str (cc_path c)), (''raw'', J_str (cc_raw c))]"
    using to_payload_parts [OF assms(4)] by metis
  have "files = fs" using assms(5) by (auto simp: payload j_get_or_def split: if_splits)
  with fs [of tf] assms(6) obtain path c v where c: "(path, c) \<in> set (rs_targets s)" "raw_deserialized C c = Inr v" "v \<noteq> J_null"
    and tf: "tf = J_obj [(''path'', J_str (cc_path c)), (''raw'', J_str (cc_raw c))]" by blast
  have get: "dget (rs_targets s) path = Some c" using inv c(1) by (simp add: rc_inv_def dget_in_set)
  then have ok: "file_ok C path c" using inv by (simp add: rc_inv_def)
  have "cc_text c \<noteq> encode (cd_dumps C Indented J_null)"
    using c(2,3) assms(3) by (auto simp: raw_deserialized_def)
  with ok have "cc_sha256 c = cd_sha256 C (cc_text c)" by (simp add: file_ok_def)
  moreover have "rs_targets s \<noteq> []" "path \<in> set (dkeys (rs_targets s))" using c(1) by (auto simp: dkeys_def rev_image_eqI)
  ultimately show ?thesis
    using ok signed_sha256_targets [OF get, of C] by (auto simp: file_ok_def tf payload dgetitem_def)
qed

lemma result_version:
  "(case w of (s, Inl e) \<Rightarrow> Inl e
     | (s, Inr rv) \<Rightarrow> if b rv then Inl Assertion_Error
         else Inr \<lparr>rr_version = v, rr_state = ws_state s, rr_configs = ws_configs s\<rparr>) = Inr r \<Longrightarrow> rr_version r = v"
  by (cases w; cases "snd w") (auto split: if_splits)

text \<open>A call of \<open>apply\<close> that returns keeps the files, leaves no reset pending and has sent the
  payload of the state under its new version, which is the version of the signed targets and of
  the result.  The version grows by one, or by two when the files were reset since the last call
  and the library is Go or Java: then a payload without any tf, under the version in between,
  has been sent first.\<close>

theorem apply_sends:
  assumes "apply_state C env wait_ack reset_requests requests s = (s', sent, Inr r)"
  shows "s' = s\<lparr>rs_reset_pending := False, rs_version := rs_version s + (if flushes env s then 2 else 1)\<rparr> \<and>
    rr_version r = rs_version s' \<and> j_path [''signed'', ''version''] (serialize_targets C True s') = Inr (J_int (rs_version s')) \<and>
    (\<exists>payload m. to_payload C False s' = Inr payload \<and> mock_for C env payload (rs_target s) = Inr m \<and>
      (if flushes env s
       then \<exists>m'. mock_for C env (J_obj [(''targets'', J_str (json_to_base64 C
                (serialize_targets C True (s\<lparr>rs_targets := [], rs_version := rs_version s + 1\<rparr>))))]) (rs_target s) = Inr m' \<and>
              sent = [m', m]
       else sent = [m]))"
proof -
  have await: "rr_version r = v" if a: "await_state C env p w v q = Inr r" for p w v q r
    using a unfolding await_state_def rbind_Inr_iff by (elim exE conjE) (drule result_version, auto)
  have send: "\<exists>m. mock_for C env p t = Inr m \<and> sent = [m] \<and> rr_version r = v"
    if "send_state C env p t w v q = (sent, Inr r)" for p t w v q sent r
    using that by (cases q) (auto simp: send_state_def split: sum.splits dest: await)
  have payload: "s' = s\<lparr>rs_reset_pending := False, rs_version := rs_version s + 1\<rparr> \<and> rr_version r = rs_version s' \<and>
      (\<exists>p m. to_payload C False s' = Inr p \<and> mock_for C env p (rs_target s) = Inr m \<and> sent = [m])"
    if "apply_payload C env w q s = (s', sent, Inr r)" for w q s s' sent r
    using that by (auto simp: apply_payload_def Let_def split: sum.splits dest: send)
  have empty: "to_payload C False t = Inr (J_obj [(''targets'', J_str (json_to_base64 C (serialize_targets C True t)))])"
    if "rs_targets t = []" for t
    by (simp add: to_payload_def that rfilter_def serialize_targets_def Let_def)
  have signed: "j_path [''signed'', ''version''] (serialize_targets C True t) = Inr (J_int (rs_version t))" for t
    by (simp add: serialize_targets_def build_signed_targets_def sign_tuf_document_def build_targets_content_def dgetitem_def)
  show ?thesis
  proof (cases "flushes env s")
    case False
    then have "apply_payload C env wait_ack requests s = (s', sent, Inr r)"
      using assms by (auto simp: apply_state_def flushes_def)
    with payload [OF this] False signed show ?thesis by auto
  next
    case True
    let ?cleared = "s\<lparr>rs_targets := [], rs_version := rs_version s + 1\<rparr>"
    obtain p' r' sent1 sent2 where e: "to_payload C False ?cleared = Inr p'"
      "send_state C env p' (rs_target s) True (rs_version s + 1) reset_requests = (sent1, Inr r')"
      "apply_payload C env wait_ack requests (s\<lparr>rs_version := rs_version s + 1\<rparr>) = (s', sent2, Inr r)" "sent = sent1 @ sent2"
      using assms True unfolding apply_state_def flushes_def [symmetric]
      by (auto simp: Let_def split: sum.splits prod.splits)
    from payload [OF e(3)] send [OF e(2)] e(1,4) True signed show ?thesis
      by (auto simp: empty)
  qed
qed

definition session_codec :: codec where
  "session_codec = sample_codec\<lparr>cd_loads := \<lambda>b. if b = [] then Inr J_null
     else Inr (J_obj [(''signed'', J_obj [(''version'', J_int 2)])])\<rparr>"

definition session_init :: rc_state where
  "session_init = snd (projr (rc_state_init [] ''tracer'' None))"

definition session_ops :: "rc_op list" where
  "session_ops = [Op_reset, Op_set ''datadog/2/ASM/rules/config'' (J_obj [(''a'', J_int 1)]) None]"

definition session_state :: rc_state where
  "session_state = snd (rc_run session_codec waiting_env session_ops ([], session_init))"

lemma session_start: "rc_state_init [] ''tracer'' None = Inr ([''tracer''], session_init)"
  by (simp add: session_init_def rc_state_init_def)

theorem served_files_match_targets_witness:
  "\<exists>payload. to_payload session_codec False session_state = Inr payload \<and>
    signed_sha256 (serialize_targets session_codec True session_state) ''datadog/2/ASM/rules/config'' =
      Inr (J_str (cd_sha256 session_codec [0x61]))"
proof -
  let ?tf = "J_obj [(''path'', J_str ''datadog/2/ASM/rules/config''), (''raw'', J_str ''YQ=='')]"
  have null: "cd_loads session_codec (encode (cd_dumps session_codec Indented J_null)) = Inr J_null" by code_simp
  have run: "rc_run session_codec waiting_env session_ops ([], session_init) =
      (fst (rc_run session_codec waiting_env session_ops ([], session_init)), session_state)"
    by (simp add: session_state_def)
  have "(case to_payload session_codec False session_state of Inr p \<Rightarrow> j_get_or ''target_files'' (J_list []) p = Inr (J_list [?tf])
      | Inl e \<Rightarrow> False)" by code_simp
  then obtain payload where p: "to_payload session_codec False session_state = Inr payload"
    "j_get_or ''target_files'' (J_list []) payload = Inr (J_list [?tf])" by (auto split: sum.splits)
  have "b64decode_lenient ''YQ=='' = Inr [0x61]" by code_simp
  then show ?thesis
    using served_files_match_targets [OF session_start run null p, of ?tf] p(1) by auto
qed

theorem apply_sends_witness:
  "\<exists>s' m' m r. apply_state session_codec waiting_env True ([], []) ([], []) session_state = (s', [m', m], Inr r) \<and>
    flushes waiting_env session_state \<and> rs_version s' = 2 \<and> rs_targets s' = rs_targets session_state"
proof -
  have ok: "case apply_state session_codec waiting_env True ([], []) ([], []) session_state of
      (s', sent, Inr r) \<Rightarrow> True | (s', sent, Inl e) \<Rightarrow> False" by code_simp
  have start: "flushes waiting_env session_state \<and> rs_version session_state = 0" by code_simp
  from ok obtain s' sent r where a: "apply_state session_codec waiting_env True ([], []) ([], []) session_state = (s', sent, Inr r)"
    by (auto split: prod.splits sum.splits)
  show ?thesis using apply_sends [OF a] a start by auto
qed

subsection \<open>Sending a command\<close>

text \<open>
  The commands are sent with the default \<open>state_version\<close> of \<open>send_state\<close>, -1.  The requests
  of the wait, the values of \<open>uuid4\<close> and whether the library reads \<open>sdk_config\<close> are arguments.
\<close>

definition rc_target_of :: "send_env \<Rightarrow> string" where
  "rc_target_of env = (if se_scenario_backend env then ''backend'' else ''tracer'')"

definition send_command :: "codec \<Rightarrow> send_env \<Rightarrow> bool \<Rightarrow> requests \<Rightarrow> json \<Rightarrow> mocked list \<times> rc_results res" where
  "send_command C env wait_ack requests raw_payload =
     send_state C env raw_payload (rc_target_of env) wait_ack (- 1) requests"

definition send_debugger_command ::
  "codec \<Rightarrow> send_env \<Rightarrow> json list \<Rightarrow> int \<Rightarrow> requests \<Rightarrow> mocked list \<times> rc_results res" where
  "send_debugger_command C env probes version requests =
     (case build_debugger_command C (Some probes) (J_int version) of
        Inl e \<Rightarrow> ([], Inl e)
      | Inr raw_payload \<Rightarrow> send_command C env True requests raw_payload)"

definition send_symdb_command :: "codec \<Rightarrow> send_env \<Rightarrow> int \<Rightarrow> requests \<Rightarrow> mocked list \<times> rc_results res" where
  "send_symdb_command C env version requests =
     (case build_symdb_command C (J_int version) of
        Inl e \<Rightarrow> ([], Inl e)
      | Inr raw_payload \<Rightarrow> send_command C env True requests raw_payload)"

text \<open>The list \<open>prev_payloads\<close> afterwards, the mocks sent and the result.\<close>

definition send_apm_tracing_command ::
  "codec \<Rightarrow> send_env \<Rightarrow> string list \<Rightarrow> apm_options \<Rightarrow> bool \<Rightarrow> jobj list option \<Rightarrow> int \<Rightarrow> requests
     \<Rightarrow> jobj list \<times> mocked list \<times> rc_results res" where
  "send_apm_tracing_command C env uuids a use_sdk_config prev_payloads version requests =
     (let prev = (case prev_payloads of None \<Rightarrow> [] | Some ps \<Rightarrow> ps) in
      case build_apm_tracing_command C uuids (J_int version) prev a use_sdk_config of
        Inl e \<Rightarrow> (prev, [], Inl e)
      | Inr (raw_payload, prev') \<Rightarrow> (prev', send_command C env True requests raw_payload))"

definition send_combined_command ::
  "codec \<Rightarrow> send_env \<Rightarrow> string \<Rightarrow> jobj list \<Rightarrow> json list option \<Rightarrow> apm_options \<Rightarrow> bool \<Rightarrow> int \<Rightarrow> bool \<Rightarrow> requests
     \<Rightarrow> jobj list \<times> mocked list \<times> rc_results res" where
  "send_combined_command C env uuid prev_payloads probes a use_sdk_config version wait_ack requests =
     (case build_combined_command C uuid (J_int version) prev_payloads probes a use_sdk_config of
        Inl e \<Rightarrow> (prev_payloads, [], Inl e)
      | Inr (raw_payload, config) \<Rightarrow> ([config], send_command C env wait_ack requests raw_payload))"

text \<open>\<open>RemoteConfigStateResults\<close> as JSON, and read back.\<close>

definition results_to_json :: "rc_results \<Rightarrow> json" where
  "results_to_json r = J_obj [(''version'', J_int (rr_version r)), (''state'', J_int (rr_state r)),
     (''configs'', J_obj (map (\<lambda>(i, c). (i, J_obj c)) (rr_configs r)))]"

lemma wait_not_applied:
  assumes "wait_requests (remote_config_applied no_configs wait_ack version sv) seen incoming s = (s', Inr rv)"
    and "\<not> list_ex (reports_version (if no_configs then J_int sv else version)) (seen @ incoming)"
  shows "ws_state s' = ws_state s"
proof -
  have keeps: "keeps (\<lambda>t. ws_state t = ws_state s) (remote_config_applied no_configs wait_ack version sv)"
    using applied_other by (fastforce simp: keeps_def)
  note cases = wait_requests_cases [OF assms(1) keeps refl]
  show ?thesis
  proof (cases rv)
    case True
    then obtain d s0 where d: "d \<in> set (seen @ incoming)"
      "remote_config_applied no_configs wait_ack version sv d s0 = (s', Inr True)" using cases by auto
    have "list_ex (reports_version (if no_configs then J_int sv else version)) (seen @ incoming)"
      using applied_True [OF d(2)] d(1) unfolding list_ex_iff by blast
    with assms(2) show ?thesis by blast
  qed (use cases in simp)
qed

lemma not_acknowledged:
  assumes "await_state C env raw_payload wait_ack sv (seen, incoming) = Inr r"
    and "j_get_or ''client_configs'' (J_list []) raw_payload = Inr (J_list [])"
    and "\<not> list_ex (reports_version (J_int sv)) (seen @ incoming)"
  shows "rr_state r = st_unknown"
proof -
  obtain version where v: "payload_version C raw_payload = Inr version"
    using assms(1) by (auto simp: await_state_def rbind_Inr_iff)
  obtain s rv where
    w: "wait_requests (remote_config_applied True wait_ack version sv) seen incoming
      \<lparr>ws_configs = [], ws_state = st_unknown, ws_last = J_obj []\<rparr> = (s, Inr rv)" and r: "rr_state r = ws_state s"
    using assms(1,2) v by (auto simp: await_state_def initial_configs_def split: prod.splits sum.splits if_splits)
  show ?thesis using wait_not_applied [OF w] assms(3) r by simp
qed

text \<open>C40.  The command for an empty list of probes is never acknowledged by a library that reports a
  version of a payload: the wait compares the version of the library with the default
  \<open>state_version\<close>, not with the version of the command.\<close>

theorem no_probes_unacknowledged:
  assumes "send_debugger_command C env [] version (seen, incoming) = (sent, Inr r)"
    and "\<not> list_ex (reports_version (J_int (- 1))) (seen @ incoming)"
  shows "rr_state r = st_unknown"
proof -
  let ?p = "rcm_of (J_str (json_to_base64 C
    (build_signed_targets C (J_int version) (Some []) default_opaque_backend_state default_expires))) [] []"
  have "build_debugger_command C (Some []) (J_int version) = Inr ?p"
    by (simp add: build_debugger_command_def add_probes_def build_base_command_def)
  with assms(1) have "await_state C env ?p True (- 1) (seen, incoming) = Inr r"
    by (auto simp: send_debugger_command_def send_command_def send_state_def split: sum.splits)
  moreover have "j_get_or ''client_configs'' (J_list []) ?p = Inr (J_list [])"
    by (simp add: rcm_of_def j_get_or_def)
  ultimately show ?thesis using assms(2) by (rule not_acknowledged)
qed

theorem no_probes_unacknowledged_witness:
  "\<exists>sent r. send_debugger_command waiting_codec waiting_env [] 3 ([], [poll (J_int 3) []]) = (sent, Inr r) \<and> rr_state r = 0"
proof -
  have ok: "case send_debugger_command waiting_codec waiting_env [] 3 ([], [poll (J_int 3) []]) of
      (sent, Inr r) \<Rightarrow> True | (sent, Inl e) \<Rightarrow> False" by code_simp
  then obtain sent r where s: "send_debugger_command waiting_codec waiting_env [] 3 ([], [poll (J_int 3) []]) = (sent, Inr r)"
    by (auto split: prod.splits sum.splits)
  have "\<not> list_ex (reports_version (J_int (- 1))) ([] @ [poll (J_int 3) []])"
    by (auto simp: reports_version_def client_state_poll dgetitem_def j_eq_def)
  then show ?thesis using no_probes_unacknowledged [OF s] s by (simp add: st_unknown_def)
qed

end
