(* ===== verification/Ffe_Backend.thy ===== *)
theory Ffe_Backend
  imports Rc_Tuf
begin

section \<open>Feature flags of the mocked backend (mocked\_backend/\_backend\_ffe.py)\<close>

text \<open>
  The endpoints that serve configurations of feature flags.  A test sets a timeline of responses,
  one for JSON and one for protobuf; every request takes the next response, the last one is
  repeated, and the state counts requests, codes and requests in progress.  Files of the fixtures,
  the reading of quality values as floating point numbers and the addresses of the server are the
  record \<open>ffe_env\<close>; sleeps and the ways a body is not delivered are part of a reply.
\<close>

subsection \<open>Responses\<close>

datatype response_format = Json_format | Protobuf_format

definition selection_ignored_responses :: "(string \<times> string) list" where
  "selection_ignored_responses =
     [(''selection_ignored_empty'', []), (''selection_ignored_tag_load_failed'', ''tag_load_failed''),
      (''selection_ignored_unknown'', ''future_reason'')]"

definition valid_response_ids :: "response_format \<Rightarrow> string list" where
  "valid_response_ids f =
     (case f of
        Json_format \<Rightarrow> [''valid'', ''unauthorized'', ''malformed'', ''not_modified'', ''server_error'', ''delayed_valid'', ''timeout'']
      | Protobuf_format \<Rightarrow> [''valid'', ''malformed'', ''server_error'', ''forbidden'', ''redirect'', ''empty'', ''wrong_content_type'',
          ''delayed'', ''delayed_body'', ''disconnect'', ''truncated_body''] @ map fst selection_ignored_responses)"

definition default_response :: string where "default_response = ''valid''"

definition ufc_etag :: string where "ufc_etag = [CHR 0x22] @ ''ufc-v1'' @ [CHR 0x22]"

definition malformed_ufc_bytes :: bytes where
  "malformed_ufc_bytes = encode (''{'' @ [CHR 0x22] @ ''flags'' @ [CHR 0x22] @ '': ['')"

definition response_secret :: string where "response_secret = ''private-response-body''"

definition rules_config_path :: string where
  "rules_config_path = ''/api/v2/feature-flagging/config/rules-based''"

definition config_path :: string where "config_path = rules_config_path @ ''/server''"

definition validate_response_format :: "json \<Rightarrow> response_format res" where
  "validate_response_format v =
     (if v = J_str ''json'' then Inr Json_format
      else if v = J_str ''protobuf'' then Inr Protobuf_format else Inl Value_Error)"

definition validate_responses :: "json \<Rightarrow> response_format \<Rightarrow> string list res" where
  "validate_responses responses f =
     (case responses of
        J_list rs \<Rightarrow>
          if rs = [] then Inl Value_Error
          else (case rmap (\<lambda>r. case r of J_str s \<Rightarrow> Inr s | _ \<Rightarrow> Inl Value_Error) rs of
                  Inl e \<Rightarrow> Inl e
                | Inr ss \<Rightarrow> if filter (\<lambda>s. s \<notin> set (valid_response_ids f)) ss \<noteq> [] then Inl Value_Error else Inr ss)
      | _ \<Rightarrow> Inl Value_Error)"

subsection \<open>State\<close>

record ffe_request =
  rq_path :: string
  rq_headers :: "(string, string) dict"

record ffe_state =
  fs_json :: "string list"
  fs_protobuf :: "string list"
  fs_requests_total :: nat
  fs_in_flight :: nat
  fs_max_in_flight :: nat
  fs_last_path :: "string option"
  fs_last_if_none_match :: "string option"
  fs_observed_dd_api_key :: "string option"
  fs_last_status_code :: "int option"
  fs_status_codes :: "int list"
  fs_requests :: "ffe_request list"

definition ffe_init :: ffe_state where
  "ffe_init = \<lparr>fs_json = [default_response], fs_protobuf = [default_response], fs_requests_total = 0, fs_in_flight = 0,
     fs_max_in_flight = 0, fs_last_path = None, fs_last_if_none_match = None, fs_observed_dd_api_key = None,
     fs_last_status_code = None, fs_status_codes = [], fs_requests = []\<rparr>"

definition ffe_reset :: "ffe_state \<Rightarrow> ffe_state" where
  "ffe_reset s = s\<lparr>fs_json := [default_response], fs_protobuf := [default_response], fs_requests_total := 0, fs_in_flight := 0,
     fs_max_in_flight := 0, fs_last_path := None, fs_last_if_none_match := None, fs_observed_dd_api_key := None,
     fs_last_status_code := None, fs_status_codes := [], fs_requests := []\<rparr>"

definition responses_of :: "response_format \<Rightarrow> ffe_state \<Rightarrow> string list" where
  "responses_of f s = (case f of Json_format \<Rightarrow> fs_json s | Protobuf_format \<Rightarrow> fs_protobuf s)"

definition with_responses :: "response_format \<Rightarrow> string list \<Rightarrow> ffe_state \<Rightarrow> ffe_state" where
  "with_responses f rs s = (case f of Json_format \<Rightarrow> s\<lparr>fs_json := rs\<rparr> | Protobuf_format \<Rightarrow> s\<lparr>fs_protobuf := rs\<rparr>)"

definition ffe_set_responses :: "json \<Rightarrow> response_format \<Rightarrow> ffe_state \<Rightarrow> ffe_state res" where
  "ffe_set_responses responses f s =
     rbind (validate_responses responses f) (\<lambda>rs.
       Inr ((with_responses f rs s)\<lparr>fs_last_if_none_match := None, fs_last_status_code := None, fs_status_codes := []\<rparr>))"

text \<open>The \<open>path\<close> of \<open>urlparse\<close> and the query, for a request target that starts with one slash.\<close>

definition until :: "char \<Rightarrow> string \<Rightarrow> string" where
  "until c s = takeWhile (\<lambda>x. x \<noteq> c) s"

definition url_query :: "string \<Rightarrow> string" where
  "url_query target = (case split_once (CHR ''?'') (until (CHR ''#'') target) of [a, b] \<Rightarrow> b | _ \<Rightarrow> [])"

definition url_path_params :: "string \<Rightarrow> string" where
  "url_path_params target = until (CHR ''?'') (until (CHR ''#'') target)"

definition url_path :: "string \<Rightarrow> string" where
  "url_path target =
     (let p = url_path_params target; i = length p - length (takeWhile (\<lambda>c. c \<noteq> CHR ''/'') (rev p))
      in take i p @ until (CHR '';'') (drop i p))"

text \<open>\<open>dict(headers)\<close> with lower case keys: a name sent twice has its first value.\<close>

definition normalized_headers :: "(string \<times> string) list \<Rightarrow> (string, string) dict" where
  "normalized_headers headers =
     fold (\<lambda>(k, v) d. if dhas d (str_lower k) then d else dset (str_lower k) v d) headers []"

definition get_dd_api_key :: "(string, string) dict \<Rightarrow> string option" where
  "get_dd_api_key headers = dget headers ''dd-api-key''"

definition record_request ::
  "(string \<times> string) list \<Rightarrow> string \<Rightarrow> response_format \<Rightarrow> ffe_state \<Rightarrow> (string \<times> ffe_state) res" where
  "record_request headers path f s =
     (let h = normalized_headers headers;
          s1 = s\<lparr>fs_requests_total := fs_requests_total s + 1, fs_in_flight := fs_in_flight s + 1,
                 fs_max_in_flight := max (fs_max_in_flight s) (fs_in_flight s + 1), fs_last_path := Some (url_path path),
                 fs_last_if_none_match := dget h ''if-none-match'', fs_observed_dd_api_key := get_dd_api_key h,
                 fs_requests := fs_requests s @ [\<lparr>rq_path = path, rq_headers = h\<rparr>]\<rparr>
      in case responses_of f s of
           [] \<Rightarrow> Inl Index_Error
         | r # rs \<Rightarrow> Inr (r, if rs \<noteq> [] then with_responses f rs s1 else s1))"

definition record_response :: "int \<Rightarrow> ffe_state \<Rightarrow> ffe_state" where
  "record_response code s = s\<lparr>fs_last_status_code := Some code, fs_status_codes := fs_status_codes s @ [code]\<rparr>"

definition finish_request :: "ffe_state \<Rightarrow> ffe_state" where
  "finish_request s = s\<lparr>fs_in_flight := fs_in_flight s - 1\<rparr>"

definition j_opt :: "('a \<Rightarrow> json) \<Rightarrow> 'a option \<Rightarrow> json" where
  "j_opt f x = (case x of None \<Rightarrow> J_null | Some v \<Rightarrow> f v)"

definition ffe_status :: "ffe_state \<Rightarrow> json" where
  "ffe_status s =
     J_obj [(''requests_total'', J_int (int (fs_requests_total s))), (''in_flight'', J_int (int (fs_in_flight s))),
       (''max_in_flight'', J_int (int (fs_max_in_flight s))), (''last_path'', j_opt J_str (fs_last_path s)),
       (''last_if_none_match'', j_opt J_str (fs_last_if_none_match s)),
       (''observed_dd_api_key'', j_opt J_str (fs_observed_dd_api_key s)),
       (''last_status_code'', j_opt J_int (fs_last_status_code s)), (''status_codes'', J_list (map J_int (fs_status_codes s)))]"

subsection \<open>Requests\<close>

text \<open>
  \<open>parse_qs(query, keep_blank_values=True)\<close>: a percent sequence in a run of ASCII characters is
  a byte of a UTF-8 text, any other character stands for itself.
\<close>

definition hex_val :: "char \<Rightarrow> nat option" where
  "hex_val c = (case digit_val c of Some v \<Rightarrow> if v < 16 then Some v else None | None \<Rightarrow> None)"

fun percent_bytes :: "string \<Rightarrow> bytes" where
  "percent_bytes (c # h # l # cs) =
     (case (hex_val h, hex_val l) of
        (Some a, Some b) \<Rightarrow> if c = CHR ''%'' then word_of_nat (16 * a + b) # percent_bytes cs
          else word_of_nat (of_char c) # percent_bytes (h # l # cs)
      | _ \<Rightarrow> word_of_nat (of_char c) # percent_bytes (h # l # cs))"
| "percent_bytes cs = encode cs"

definition ascii_char :: "char \<Rightarrow> bool" where
  "ascii_char c \<longleftrightarrow> (of_char c :: nat) < 128"

function unquote :: "string \<Rightarrow> unicode" where
  "unquote [] = []"
| "unquote (c # cs) =
     (if ascii_char c
      then utf8_decode (percent_bytes (takeWhile ascii_char (c # cs))) @ unquote (dropWhile ascii_char (c # cs))
      else of_char c # unquote cs)"
  by pat_completeness auto
termination
  by (relation "measure length") (auto simp: less_Suc_eq_le length_dropWhile_le)

definition unquote_plus :: "string \<Rightarrow> unicode" where
  "unquote_plus s = unquote (map (\<lambda>c. if c = CHR ''+'' then CHR '' '' else c) s)"

definition query_pair :: "string \<Rightarrow> unicode \<times> unicode" where
  "query_pair name_value =
     (case split_once (CHR ''='') name_value of
        [name, v] \<Rightarrow> (unquote_plus name, unquote_plus v)
      | _ \<Rightarrow> (unquote_plus name_value, []))"

definition parse_qs :: "string \<Rightarrow> (unicode, unicode list) dict" where
  "parse_qs query =
     fold (\<lambda>(k, v). dextend k [v]) (map query_pair (filter (\<lambda>p. p \<noteq> []) (str_split ''&'' query))) []"

definition text_codes :: "string \<Rightarrow> unicode" where
  "text_codes s = map of_char s"

definition expected_query :: "(unicode, unicode list) dict" where
  "expected_query = [(text_codes ''dd_env'', [text_codes ''test''])]"

record ffe_env =
  en_codec :: codec
  en_unit :: "string \<Rightarrow> bool res"
  en_ufc :: "json res"
  en_rules_wire :: "json res"
  en_library_base_url :: string

text \<open>\<open>en_unit q\<close> is the test \<open>0 < float(q) <= 1\<close>.\<close>

definition partition_once :: "char \<Rightarrow> string \<Rightarrow> string \<times> string" where
  "partition_once c s = (case split_once c s of [a, b] \<Rightarrow> (a, b) | _ \<Rightarrow> (s, []))"

definition quality_of :: "string list \<Rightarrow> string" where
  "quality_of parameters =
     fold (\<lambda>p q. let (name, v) = partition_once (CHR ''='') p
                 in if str_lower (str_strip name) = ''q'' then str_strip v else q) parameters ''1''"

fun accepts_range :: "ffe_env \<Rightarrow> string list \<Rightarrow> bool" where
  "accepts_range E [] = False"
| "accepts_range E (r # rs) =
     (case str_split '';'' r of
        [] \<Rightarrow> accepts_range E rs
      | media_type # parameters \<Rightarrow>
          if str_lower (str_strip media_type) \<noteq> ''application/protobuf'' then accepts_range E rs
          else (case en_unit E (quality_of parameters) of
                  Inr True \<Rightarrow> True
                | _ \<Rightarrow> accepts_range E rs))"

definition accepts_protobuf :: "ffe_env \<Rightarrow> string \<Rightarrow> bool" where
  "accepts_protobuf E accept = accepts_range E (str_split '','' accept)"

definition header_values :: "string \<Rightarrow> (string \<times> string) list \<Rightarrow> string list" where
  "header_values name headers = map snd (filter (\<lambda>p. str_lower (fst p) = str_lower name) headers)"

definition header_or :: "string \<Rightarrow> string \<Rightarrow> (string \<times> string) list \<Rightarrow> string" where
  "header_or name dflt headers = (case header_values name headers of [] \<Rightarrow> dflt | v # vs \<Rightarrow> v)"

subsection \<open>Replies\<close>

datatype delivery = Whole | Late nat | Cut string | No_connection

text \<open>\<open>rp_sleep\<close> is the delay before the headers, in milliseconds.\<close>

record ffe_reply =
  rp_status :: int
  rp_headers :: "(string \<times> string) list"
  rp_body :: bytes
  rp_sleep :: nat
  rp_delivery :: delivery

definition json_content :: "(string \<times> string) list" where
  "json_content = [(''Content-Type'', ''application/json'')]"

definition write_json :: "ffe_env \<Rightarrow> int \<Rightarrow> json \<Rightarrow> ffe_reply" where
  "write_json E status payload =
     \<lparr>rp_status = status, rp_headers = json_content, rp_body = encode (cd_dumps (en_codec E) Plain payload), rp_sleep = 0,
      rp_delivery = Whole\<rparr>"

definition valid_ufc_bytes :: "ffe_env \<Rightarrow> bytes res" where
  "valid_ufc_bytes E =
     rbind (en_ufc E) (\<lambda>attributes.
       Inr (encode (cd_dumps (en_codec E) Plain (J_obj [(''data'', J_obj [(''id'', J_str ''1''),
         (''type'', J_str ''universal-flag-configuration''), (''attributes'', attributes)])]))))"

definition response_for_response :: "ffe_env \<Rightarrow> string \<Rightarrow> (int \<times> bytes \<times> (string \<times> string) list) res" where
  "response_for_response E response =
     (if response = ''unauthorized'' then Inr (401, [], [])
      else if response = ''malformed'' then Inr (200, malformed_ufc_bytes, json_content)
      else if response = ''not_modified'' then Inr (304, [], [(''ETag'', ufc_etag)])
      else if response = ''server_error'' then Inr (500, [], [])
      else if response \<in> {''valid'', ''delayed_valid'', ''timeout''}
        then rbind (valid_ufc_bytes E) (\<lambda>b. Inr (200, b, json_content @ [(''ETag'', ufc_etag)]))
      else Inl Value_Error)"

text \<open>The state afterwards, also when the handler raises: \<open>finish_request\<close> is called in any case.\<close>

definition handle_config_exec ::
  "ffe_env \<Rightarrow> (string \<times> string) list \<Rightarrow> string \<Rightarrow> ffe_state \<Rightarrow> ffe_state \<times> ffe_reply res" where
  "handle_config_exec E headers path s =
     (case record_request headers path Json_format s of
        Inl e \<Rightarrow> (s, Inl e)
      | Inr (response, s1) \<Rightarrow>
          (case response_for_response E response of
             Inl e \<Rightarrow> (finish_request s1, Inl e)
           | Inr (status, body, hs) \<Rightarrow>
               (finish_request (record_response status s1),
                Inr \<lparr>rp_status = status, rp_headers = hs, rp_body = body,
                  rp_sleep = (if response \<in> {''delayed_valid'', ''timeout''} then 1500 else 0), rp_delivery = Whole\<rparr>)))"

definition rules_reply :: "ffe_env \<Rightarrow> string \<Rightarrow> bytes \<Rightarrow> string \<Rightarrow> ffe_reply res" where
  "rules_reply E etag body response =
     (let ok = \<lparr>rp_status = 200, rp_headers = [(''Content-Type'', ''application/protobuf''), (''ETag'', etag)], rp_body = body,
                rp_sleep = 0, rp_delivery = Whole\<rparr>
      in case dget selection_ignored_responses response of
           Some reason \<Rightarrow> Inr (ok\<lparr>rp_headers := rp_headers ok @ [(''DD-Flag-Selection-Ignored'', reason)]\<rparr>)
         | None \<Rightarrow>
             if response = ''delayed'' then Inr (ok\<lparr>rp_sleep := 4000\<rparr>)
             else if response = ''delayed_body'' then Inr (ok\<lparr>rp_sleep := 1500, rp_delivery := Late 1500\<rparr>)
             else if response = ''forbidden'' then Inr (ok\<lparr>rp_status := 403, rp_body := encode response_secret\<rparr>)
             else if response = ''server_error'' then Inr (ok\<lparr>rp_status := 500, rp_body := encode response_secret\<rparr>)
             else if response = ''redirect''
               then Inr (ok\<lparr>rp_status := 302,
                 rp_headers := rp_headers ok @ [(''Location'', en_library_base_url E @ rules_config_path @ ''/redirected'')]\<rparr>)
             else if response = ''malformed'' then Inr (ok\<lparr>rp_body := [0xff]\<rparr>)
             else if response = ''empty'' then Inr (ok\<lparr>rp_body := []\<rparr>)
             else if response = ''wrong_content_type''
               then Inr (ok\<lparr>rp_headers := [(''Content-Type'', ''application/json''), (''ETag'', etag)], rp_body := encode ''{}''\<rparr>)
             else if response = ''disconnect'' then Inr (ok\<lparr>rp_delivery := No_connection\<rparr>)
             else if response = ''truncated_body'' then Inr (ok\<lparr>rp_delivery := Cut response_secret\<rparr>)
             else if response = ''valid'' then Inr ok
             else Inl Value_Error)"

definition handle_rules_config ::
  "ffe_env \<Rightarrow> (string \<times> string) list \<Rightarrow> string \<Rightarrow> ffe_state \<Rightarrow> ffe_state \<times> ffe_reply res" where
  "handle_rules_config E headers path s =
     (case record_request headers path Protobuf_format s of
        Inl e \<Rightarrow> (s, Inl e)
      | Inr (response, s1) \<Rightarrow>
          (case rbind (en_rules_wire E) (\<lambda>wire.
             rbind (j_path [''rules'', ''etag''] wire) (\<lambda>etag. rbind (j_as_str etag) (\<lambda>etag.
             rbind (j_path [''rules'', ''response''] wire) (\<lambda>r. rbind (j_b64decode r) (\<lambda>body.
               rules_reply E etag body response))))) of
             Inl e \<Rightarrow> (finish_request s1, Inl e)
           | Inr reply \<Rightarrow> (finish_request (record_response (rp_status reply) s1), Inr reply)))"

definition handle_config ::
  "ffe_env \<Rightarrow> (string \<times> string) list \<Rightarrow> string \<Rightarrow> ffe_state \<Rightarrow> ffe_state \<times> ffe_reply res" where
  "handle_config E headers path s =
     (if accepts_protobuf E (str_join '','' (header_values ''Accept'' headers)) then handle_rules_config E headers path s
      else if parse_qs (url_query path) = expected_query then handle_config_exec E headers path s
      else (s, Inr (write_json E 404 (J_obj [(''error'', J_str ''not found'')]))))"

definition handle_status :: "ffe_env \<Rightarrow> ffe_state \<Rightarrow> ffe_state \<times> ffe_reply res" where
  "handle_status E s = (s, Inr (write_json E 200 (ffe_status s)))"

definition handle_evp_intake :: "ffe_env \<Rightarrow> ffe_state \<Rightarrow> ffe_state \<times> ffe_reply res" where
  "handle_evp_intake E s = (s, Inr (write_json E 202 (J_obj [])))"

text \<open>The texts of the errors are not kept: a rejected control request has the reply \<open>bad_request\<close>.\<close>

definition bad_request :: "ffe_env \<Rightarrow> ffe_reply" where
  "bad_request E = write_json E 400 (J_obj [(''error'', J_str [])])"

definition control_body :: "json option \<Rightarrow> jobj option" where
  "control_body payload =
     (case payload of
        Some (J_obj m) \<Rightarrow>
          if set (dkeys m) \<in> {{''responses''}, {''responses'', ''response_format''}} then Some m else None
      | _ \<Rightarrow> None)"

definition handle_control_responses ::
  "ffe_env \<Rightarrow> (string \<times> string) list \<Rightarrow> json option \<Rightarrow> ffe_state \<Rightarrow> ffe_state \<times> ffe_reply res" where
  "handle_control_responses E headers payload s =
     (case py_int 10 (header_or ''Content-Length'' ''0'' headers) of
        Inl e \<Rightarrow> (s, Inl e)
      | Inr n \<Rightarrow>
          if n > 512 then (s, Inr (bad_request E))
          else (case control_body payload of
                  None \<Rightarrow> (s, Inr (bad_request E))
                | Some m \<Rightarrow>
                    (case rbind (validate_response_format (case dget m ''response_format'' of None \<Rightarrow> J_str ''json'' | Some v \<Rightarrow> v))
                       (\<lambda>f. ffe_set_responses (the (dget m ''responses'')) f s) of
                       Inl e \<Rightarrow> (s, Inr (bad_request E))
                     | Inr s' \<Rightarrow> (s', Inr (write_json E 200 (ffe_status s'))))))"

definition handle_control_reset :: "ffe_env \<Rightarrow> ffe_state \<Rightarrow> ffe_state \<times> ffe_reply res" where
  "handle_control_reset E s = (ffe_reset s, Inr (write_json E 200 (ffe_status (ffe_reset s))))"

subsection \<open>The timeline of responses\<close>

definition next_responses :: "'a list \<Rightarrow> 'a list" where
  "next_responses l = (if length l > 1 then tl l else l)"

definition rest_of :: "'a list \<Rightarrow> 'a list \<Rightarrow> bool" where
  "rest_of A l \<longleftrightarrow> l \<noteq> [] \<and> l = drop (length A - length l) A"

lemma rest_of_length: "rest_of A l \<Longrightarrow> 0 < length l \<and> length l \<le> length A"
  unfolding rest_of_def by (metis diff_le_self length_drop length_greater_0_conv)

lemma rest_of_next: "rest_of A l \<Longrightarrow> rest_of A (next_responses l)"
proof -
  assume r: "rest_of A l"
  note len = rest_of_length [OF r]
  show ?thesis
  proof (cases "length l > 1")
    case True
    then have "length A - length (tl l) = Suc (length A - length l)" "tl l \<noteq> []" using len by (auto simp: Suc_diff_le simp flip: length_greater_0_conv)
    moreover have "tl l = drop (Suc (length A - length l)) A"
      using r unfolding rest_of_def by (metis drop_Suc tl_drop)
    ultimately show ?thesis using True by (simp add: rest_of_def next_responses_def)
  qed (use r in \<open>simp add: next_responses_def\<close>)
qed

text \<open>The list is a sequence that is replayed, as those of the mocks of the proxy.\<close>

interpretation ffs: replayed_sequence "\<lambda>l (k :: unit). length A - length l"
    "\<lambda>(k :: unit) l. (length A - length l, next_responses l)" "length A" "rest_of A" for A :: "'a list"
proof unfold_locales
  fix l :: "'a list" and k k' :: unit
  assume ok: "rest_of A l"
  note len = rest_of_length [OF ok]
  show "rest_of A (snd (length A - length l, next_responses l))" using rest_of_next [OF ok] by simp
  show "length A - length (snd (length A - length l, next_responses l)) =
      (if k' = k then min (length A - length l + 1) (length A - 1) else length A - length l)"
  proof (cases "length l > 1")
    case False
    with len have "length l = 1" by linarith
    with len show ?thesis by (simp add: next_responses_def)
  qed (use len in \<open>auto simp: next_responses_def\<close>)
  show "length A - length l \<le> length A - 1" using len by linarith
qed simp

text \<open>What the threads of the server do to the state, each under the lock.\<close>

datatype ffe_event =
    Ask "(string \<times> string) list" string response_format
  | Answer int
  | Finish

fun ffe_event_step :: "ffe_event \<Rightarrow> ffe_state \<Rightarrow> ffe_state" where
  "ffe_event_step (Ask headers path f) s = (case record_request headers path f s of Inl e \<Rightarrow> s | Inr (r, s') \<Rightarrow> s')"
| "ffe_event_step (Answer code) s = record_response code s"
| "ffe_event_step Finish s = finish_request s"

fun received :: "response_format \<Rightarrow> ffe_event list \<Rightarrow> ffe_state \<Rightarrow> string res list" where
  "received f [] s = []"
| "received f (ev # evs) s =
     (case ev of
        Ask headers path g \<Rightarrow>
          if g = f then (case record_request headers path f s of Inl e \<Rightarrow> Inl e | Inr (r, s') \<Rightarrow> Inr r) # received f evs (ffe_event_step ev s)
          else received f evs (ffe_event_step ev s)
      | _ \<Rightarrow> received f evs (ffe_event_step ev s))"

definition asks :: "response_format \<Rightarrow> ffe_event list \<Rightarrow> nat" where
  "asks f evs = length (filter (\<lambda>ev. case ev of Ask h p g \<Rightarrow> g = f | _ \<Rightarrow> False) evs)"

lemma responses_of_with: "responses_of f (with_responses g rs s) = (if f = g then rs else responses_of f s)"
  by (cases f; cases g) (auto simp: responses_of_def with_responses_def)

lemma responses_of_update:
  "responses_of f (s\<lparr>fs_requests_total := a, fs_in_flight := b, fs_max_in_flight := c, fs_last_path := d,
     fs_last_if_none_match := e, fs_observed_dd_api_key := g, fs_requests := h\<rparr>) = responses_of f s"
  "responses_of f (s\<lparr>fs_last_if_none_match := e, fs_last_status_code := i, fs_status_codes := j\<rparr>) = responses_of f s"
  "responses_of f (record_response code s) = responses_of f s"
  "responses_of f (finish_request s) = responses_of f s"
  by (simp_all add: responses_of_def record_response_def finish_request_def split: response_format.split)

lemma record_request_responses:
  assumes "responses_of f s \<noteq> []"
  shows "\<exists>s'. record_request headers path f s = Inr (hd (responses_of f s), s') \<and>
    responses_of g s' = (if g = f then next_responses (responses_of f s) else responses_of g s)"
  using assms by (cases "responses_of f s")
    (auto simp: record_request_def Let_def responses_of_with responses_of_update next_responses_def)

lemma received_served:
  "rest_of rs (responses_of f s) \<Longrightarrow> rest_of rs' (responses_of g s) \<Longrightarrow> g \<noteq> f \<Longrightarrow>
   received f evs s = map (\<lambda>i. Inr (rs ! i)) (ffs.served rs (responses_of f s) (replicate (asks f evs) ()))"
proof (induction evs arbitrary: s)
  case (Cons ev evs)
  show ?case
  proof (cases ev)
    case (Ask headers path h)
    have ne: "responses_of h s \<noteq> []" using Cons.prems by (cases "h = f"; cases h; cases f; cases g) (auto simp: rest_of_def)
    from record_request_responses [OF ne] obtain s' where
      s': "record_request headers path h s = Inr (hd (responses_of h s), s')"
        "\<And>k. responses_of k s' = (if k = h then next_responses (responses_of h s) else responses_of k s)"
      by (metis (no_types, lifting) Inr_inject Pair_inject)
    have "rest_of rs (responses_of f s')" "rest_of rs' (responses_of g s')"
      using Cons.prems s'(2) rest_of_next by (auto split: if_splits)
    then have IH: "received f evs s' = map (\<lambda>i. Inr (rs ! i)) (ffs.served rs (responses_of f s') (replicate (asks f evs) ()))"
      using Cons.IH Cons.prems(3) by blast
    have hd: "hd (responses_of f s) = rs ! (length rs - length (responses_of f s))"
      using Cons.prems(1) rest_of_length [OF Cons.prems(1)] unfolding rest_of_def by (metis diff_less hd_drop_conv_nth less_le_trans)
    show ?thesis
      using IH s' hd by (cases "h = f") (auto simp: Ask asks_def)
  qed (use Cons in \<open>auto simp: asks_def responses_of_update\<close>)
qed (simp add: asks_def)

lemma count_list_unit [simp]: "count_list (replicate i ()) () = i"
  by (induction i) auto

lemma served_unit: "rest_of A l \<Longrightarrow> i < n \<Longrightarrow>
    ffs.served A l (replicate n ()) ! i = min (length A - length l + i) (length A - 1)"
  using ffs.served_nth [of A l i "replicate n ()"] by (simp add: min_def)

lemma validate_nonempty: "validate_responses v f = Inr rs \<Longrightarrow> rs \<noteq> [] \<and> set rs \<subseteq> set (valid_response_ids f)"
proof -
  assume v: "validate_responses v f = Inr rs"
  then obtain vs where vs: "v = J_list vs" "vs \<noteq> []" by (cases v) (auto simp: validate_responses_def split: if_splits)
  with v obtain ss where ss: "rmap (\<lambda>r. case r of J_str s \<Rightarrow> Inr s | _ \<Rightarrow> Inl Value_Error) vs = Inr ss"
    "filter (\<lambda>s. s \<notin> set (valid_response_ids f)) ss = []" "rs = ss"
    by (auto simp: validate_responses_def split: sum.splits if_splits)
  have "length ss = length vs" by (rule rmap_length [OF ss(1)])
  with vs ss(2,3) show ?thesis by (auto simp: filter_empty_conv)
qed

text \<open>C14.  After a timeline of responses has been set for a format, the requests of this format get its
  elements in order and then its last element for ever, whatever requests of the other format and
  ends of requests come in between; no request fails.\<close>

theorem timeline_replayed:
  assumes "ffe_set_responses timeline f s = Inr s'" and "validate_responses timeline f = Inr rs"
    and "g \<noteq> f" and "responses_of g s \<noteq> []"
  shows "received f evs s' = map (\<lambda>i. Inr (rs ! min i (length rs - 1))) [0..<asks f evs]"
proof -
  have r: "responses_of f s' = rs" "responses_of g s' = responses_of g s"
    using assms(1-3) by (auto simp: ffe_set_responses_def rbind_Inr_iff responses_of_update responses_of_with)
  have ok: "rest_of rs rs" using validate_nonempty [OF assms(2)] by (simp add: rest_of_def)
  have "rest_of (responses_of g s) (responses_of g s)" using assms(4) by (simp add: rest_of_def)
  then have "received f evs s' = map (\<lambda>i. Inr (rs ! i)) (ffs.served rs rs (replicate (asks f evs) ()))"
    using received_served [of rs f s' "responses_of g s" g evs] ok r assms(3) by simp
  also have "\<dots> = map (\<lambda>i. Inr (rs ! min i (length rs - 1))) [0..<asks f evs]"
    using ok by (intro nth_equalityI) (simp_all add: served_unit)
  finally show ?thesis .
qed

theorem timeline_replayed_witness:
  "\<exists>s'. ffe_set_responses (J_list [J_str ''unauthorized'', J_str ''valid'']) Json_format ffe_init = Inr s' \<and>
    received Json_format [Ask [] ''/a'' Json_format, Ask [] ''/a'' Protobuf_format, Ask [] ''/a'' Json_format, Finish,
      Ask [] ''/a'' Json_format] s' = [Inr ''unauthorized'', Inr ''valid'', Inr ''valid'']"
proof -
  have v: "validate_responses (J_list [J_str ''unauthorized'', J_str ''valid'']) Json_format = Inr [''unauthorized'', ''valid'']"
    by code_simp
  then obtain s' where s': "ffe_set_responses (J_list [J_str ''unauthorized'', J_str ''valid'']) Json_format ffe_init = Inr s'"
    by (simp add: ffe_set_responses_def)
  have ne: "responses_of Protobuf_format ffe_init \<noteq> []" by (simp add: responses_of_def ffe_init_def)
  show ?thesis
    using timeline_replayed [OF s' v _ ne, of "[Ask [] ''/a'' Json_format, Ask [] ''/a'' Protobuf_format, Ask [] ''/a'' Json_format,
      Finish, Ask [] ''/a'' Json_format]"] s' by (simp add: asks_def upt_rec min_def)
qed

subsection \<open>Requests in progress\<close>

text \<open>
  The server runs a thread for each request.  A state of the system is the number of requests
  between \<open>record_request\<close> and \<open>finish_request\<close>, whether the state has been reset, and the state.
\<close>

inductive ffe_reach :: "nat \<Rightarrow> bool \<Rightarrow> ffe_state \<Rightarrow> bool" where
  start: "ffe_reach 0 False ffe_init"
| ask: "ffe_reach n r s \<Longrightarrow> record_request headers path f s = Inr (response, s') \<Longrightarrow> ffe_reach (Suc n) r s'"
| answer: "ffe_reach n r s \<Longrightarrow> n > 0 \<Longrightarrow> ffe_reach n r (record_response code s)"
| finish: "ffe_reach (Suc n) r s \<Longrightarrow> ffe_reach n r (finish_request s)"
| control: "ffe_reach n r s \<Longrightarrow> ffe_set_responses v f s = Inr s' \<Longrightarrow> ffe_reach n r s'"
| reset: "ffe_reach n r s \<Longrightarrow> ffe_reach n True (ffe_reset s)"

definition counters :: "ffe_state \<Rightarrow> nat \<times> nat \<times> nat" where
  "counters s = (fs_requests_total s, fs_in_flight s, fs_max_in_flight s)"

lemma counters_simps:
  "counters ffe_init = (0, 0, 0)" "counters (ffe_reset s) = (0, 0, 0)"
  "counters (record_response code s) = counters s" "counters (with_responses f rs s) = counters s"
  "counters (finish_request s) = (fs_requests_total s, fs_in_flight s - 1, fs_max_in_flight s)"
  "counters (s\<lparr>fs_last_if_none_match := a, fs_last_status_code := b, fs_status_codes := c\<rparr>) = counters s"
  by (simp_all add: counters_def ffe_init_def ffe_reset_def record_response_def finish_request_def with_responses_def
    split: response_format.split)

lemma record_request_counters:
  "record_request headers path f s = Inr (r, s') \<Longrightarrow>
     counters s' = (fs_requests_total s + 1, fs_in_flight s + 1, max (fs_max_in_flight s) (fs_in_flight s + 1))"
  by (auto simp: record_request_def Let_def counters_simps split: list.splits if_splits) (simp_all add: counters_def)

lemma set_responses_counters: "ffe_set_responses v f s = Inr s' \<Longrightarrow> counters s' = counters s"
  by (auto simp: ffe_set_responses_def rbind_Inr_iff counters_simps)

text \<open>C15.  In every interleaving of requests, control requests and resets, the number of requests
  reported in flight is at most the number in progress, with equality when the state has never
  been reset; its maximum is at least the present number and at most the total of requests.\<close>

theorem in_flight_counts:
  assumes "ffe_reach active was_reset s"
  shows "fs_in_flight s \<le> active \<and> (\<not> was_reset \<longrightarrow> fs_in_flight s = active) \<and>
    fs_in_flight s \<le> fs_max_in_flight s \<and> fs_max_in_flight s \<le> fs_requests_total s"
proof -
  have "\<exists>t i m. counters s = (t, i, m) \<and> i \<le> active \<and> (\<not> was_reset \<longrightarrow> i = active) \<and> i \<le> m \<and> m \<le> t"
    using assms
  proof induction
    case (ask n r s headers path f response s')
    from record_request_counters [OF ask(2)] ask(3) show ?case by (auto simp: counters_def)
  next
    case (finish n r s)
    then obtain t i m where c: "counters s = (t, i, m)" "i \<le> Suc n" "\<not> r \<longrightarrow> i = Suc n" "i \<le> m" "m \<le> t" by auto
    then have "counters (finish_request s) = (t, i - 1, m)" unfolding counters_simps by (simp add: counters_def)
    moreover have "i - 1 \<le> n \<and> (\<not> r \<longrightarrow> i - 1 = n) \<and> i - 1 \<le> m \<and> m \<le> t" using c by auto
    ultimately show ?case by blast
  next
    case (control n r s v f s')
    then show ?case using set_responses_counters [OF control(2)] by simp
  next
    case (answer n r s code)
    then show ?case by (simp only: counters_simps)
  qed (simp_all only: counters_simps, auto)
  then show ?thesis by (auto simp: counters_def)
qed

theorem in_flight_counts_witness:
  "\<exists>s. ffe_reach 1 True s \<and> fs_in_flight s = 0 \<and> fs_in_flight s \<le> fs_max_in_flight s"
proof -
  obtain r s1 where 1: "record_request [] ''/a'' Json_format ffe_init = Inr (r, s1)"
    by (simp add: record_request_def ffe_init_def responses_of_def Let_def)
  obtain r' s2 where 2: "record_request [] ''/a'' Json_format (ffe_reset s1) = Inr (r', s2)"
    by (simp add: record_request_def ffe_reset_def responses_of_def Let_def)
  have "ffe_reach (Suc (Suc 0)) True s2"
    by (rule ffe_reach.ask [OF ffe_reach.reset [OF ffe_reach.ask [OF ffe_reach.start 1]] 2])
  then have reach: "ffe_reach 1 True (finish_request s2)" using ffe_reach.finish by simp
  have "fs_in_flight (finish_request s2) = 0"
    using record_request_counters [OF 2] by (simp add: counters_def finish_request_def ffe_reset_def)
  with in_flight_counts [OF reach] reach show ?thesis by blast
qed

subsection \<open>Every request is answered\<close>

definition fixtures :: "ffe_env \<Rightarrow> bool" where
  "fixtures E \<longleftrightarrow> (\<exists>a. en_ufc E = Inr a) \<and>
     (\<exists>wire etag r body. en_rules_wire E = Inr wire \<and> j_path [''rules'', ''etag''] wire = Inr (J_str etag) \<and>
       j_path [''rules'', ''response''] wire = Inr (J_str r) \<and> b64decode_lenient r = Inr body)"

definition valid_state :: "ffe_state \<Rightarrow> bool" where
  "valid_state s \<longleftrightarrow> (\<forall>f. responses_of f s \<noteq> [] \<and> set (responses_of f s) \<subseteq> set (valid_response_ids f))"

lemma json_response_ok:
  assumes "r \<in> set (valid_response_ids Json_format)" and "en_ufc E = Inr a"
  shows "\<exists>x. response_for_response E r = Inr x"
proof -
  have "list_all (\<lambda>r. \<exists>x. response_for_response E r = Inr x) (valid_response_ids Json_format)"
    by (simp add: valid_response_ids_def response_for_response_def valid_ufc_bytes_def assms(2))
  with assms(1) show ?thesis by (simp add: list_all_iff)
qed

lemma rules_reply_ok: "r \<in> set (valid_response_ids Protobuf_format) \<Longrightarrow> \<exists>x. rules_reply E etag body r = Inr x"
proof -
  have "list_all (\<lambda>r. \<exists>x. rules_reply E etag body r = Inr x) (valid_response_ids Protobuf_format)"
    by (simp add: valid_response_ids_def rules_reply_def selection_ignored_responses_def Let_def)
  then show "r \<in> set (valid_response_ids Protobuf_format) \<Longrightarrow> ?thesis" by (simp add: list_all_iff)
qed

lemma record_request_valid:
  assumes "valid_state s"
  obtains r s1 where "record_request headers path f s = Inr (r, s1)" and "r \<in> set (valid_response_ids f)" and "valid_state s1"
    and "counters s1 = (fs_requests_total s + 1, fs_in_flight s + 1, max (fs_max_in_flight s) (fs_in_flight s + 1))"
    and "fs_status_codes s1 = fs_status_codes s"
proof -
  have ne: "responses_of f s \<noteq> []" "set (responses_of f s) \<subseteq> set (valid_response_ids f)"
    using assms by (auto simp: valid_state_def)
  obtain s1 where s1: "record_request headers path f s = Inr (hd (responses_of f s), s1)"
    using record_request_responses [OF ne(1)] by blast
  have rs: "responses_of g s1 = (if g = f then next_responses (responses_of f s) else responses_of g s)" for g
    using record_request_responses [OF ne(1), of headers path g] s1 by auto
  have next_ne: "next_responses (responses_of f s) \<noteq> []" using ne(1) by (auto simp: next_responses_def) (metis Suc_lessE length_tl list.size(3) diff_Suc_1 not_less_zero)
  have "set (next_responses (responses_of f s)) \<subseteq> set (responses_of f s)"
    by (auto simp: next_responses_def dest: list.set_sel(2) [rotated])
  with assms next_ne have "valid_state s1" by (auto simp: valid_state_def rs)
  moreover have "hd (responses_of f s) \<in> set (valid_response_ids f)" using ne by auto
  moreover have "fs_status_codes s1 = fs_status_codes s"
    using s1 by (auto simp: record_request_def Let_def with_responses_def split: list.splits if_splits response_format.splits)
  ultimately show ?thesis using that [OF s1] record_request_counters [OF s1] by blast
qed

definition counted :: "ffe_state \<Rightarrow> ffe_reply \<Rightarrow> ffe_state \<Rightarrow> bool" where
  "counted s reply s' \<longleftrightarrow> fs_requests_total s' = fs_requests_total s + 1 \<and> fs_in_flight s' = fs_in_flight s \<and>
     fs_status_codes s' = fs_status_codes s @ [rp_status reply] \<and> fs_last_status_code s' = Some (rp_status reply) \<and> valid_state s'"

lemma finished_counted:
  assumes "counters s1 = (fs_requests_total s + 1, fs_in_flight s + 1, m)" and "fs_status_codes s1 = fs_status_codes s"
    and "valid_state s1"
  shows "counted s reply (finish_request (record_response (rp_status reply) s1))"
  using assms by (auto simp: counted_def counters_def finish_request_def record_response_def valid_state_def responses_of_def
    split: response_format.splits)

text \<open>While the timelines hold only validated responses, which every handled request keeps, and the
  fixtures are there, a request for a configuration is answered: with 404 and no effect when it
  neither accepts protobuf nor asks for the expected environment, and otherwise with a response
  that is counted, recorded with its code, and no longer in flight.\<close>

theorem config_answered:
  assumes "valid_state s" and "fixtures E" and "handle_config E headers path s = (s', r)"
  shows "\<exists>reply. r = Inr reply \<and>
    (if accepts_protobuf E (str_join '','' (header_values ''Accept'' headers)) \<or> parse_qs (url_query path) = expected_query
     then counted s reply s' else s' = s \<and> rp_status reply = 404)"
proof -
  have json: "\<exists>reply. snd (handle_config_exec E headers path s) = Inr reply \<and> counted s reply (fst (handle_config_exec E headers path s))"
  proof -
    obtain x s1 where x: "record_request headers path Json_format s = Inr (x, s1)" "x \<in> set (valid_response_ids Json_format)"
      "valid_state s1" "fs_status_codes s1 = fs_status_codes s"
      "counters s1 = (fs_requests_total s + 1, fs_in_flight s + 1, max (fs_max_in_flight s) (fs_in_flight s + 1))"
      using record_request_valid [OF assms(1)] by metis
    obtain status body hs where "response_for_response E x = Inr (status, body, hs)"
      using json_response_ok [OF x(2)] assms(2) by (metis fixtures_def prod_cases3)
    then show ?thesis
      using finished_counted [OF x(5,4,3), of "\<lparr>rp_status = status, rp_headers = hs, rp_body = body,
        rp_sleep = (if x \<in> {''delayed_valid'', ''timeout''} then 1500 else 0), rp_delivery = Whole\<rparr>"]
      by (simp add: handle_config_exec_def x(1))
  qed
  have rules: "\<exists>reply. snd (handle_rules_config E headers path s) = Inr reply \<and> counted s reply (fst (handle_rules_config E headers path s))"
  proof -
    obtain x s1 where x: "record_request headers path Protobuf_format s = Inr (x, s1)" "x \<in> set (valid_response_ids Protobuf_format)"
      "valid_state s1" "fs_status_codes s1 = fs_status_codes s"
      "counters s1 = (fs_requests_total s + 1, fs_in_flight s + 1, max (fs_max_in_flight s) (fs_in_flight s + 1))"
      using record_request_valid [OF assms(1)] by metis
    obtain wire etag rt body where w: "en_rules_wire E = Inr wire" "j_path [''rules'', ''etag''] wire = Inr (J_str etag)"
      "j_path [''rules'', ''response''] wire = Inr (J_str rt)" "b64decode_lenient rt = Inr body"
      using assms(2) unfolding fixtures_def by blast
    obtain reply where "rules_reply E etag body x = Inr reply" using rules_reply_ok [OF x(2)] by blast
    then show ?thesis
      using finished_counted [OF x(5,4,3), of reply] by (simp add: handle_rules_config_def x(1) w del: j_path.simps)
  qed
  show ?thesis
    using assms(3) json rules by (auto simp: handle_config_def write_json_def split: if_splits)
qed

definition sample_ffe_env :: ffe_env where
  "sample_ffe_env = \<lparr>en_codec = sample_codec, en_unit = \<lambda>q. Inr (q = ''1''), en_ufc = Inr (J_obj []),
     en_rules_wire = Inr (J_obj [(''rules'', J_obj [(''etag'', J_str ''e''), (''response'', J_str ''YQ=='')])]),
     en_library_base_url = ''http://localhost''\<rparr>"

theorem config_answered_witness:
  "\<exists>s' reply. handle_config sample_ffe_env [(''Accept'', ''application/json, application/protobuf;q=1'')] config_path ffe_init =
    (s', Inr reply) \<and> counted ffe_init reply s'"
proof -
  have ready: "valid_state ffe_init"
    by (auto simp: valid_state_def responses_of_def ffe_init_def valid_response_ids_def default_response_def split: response_format.splits)
  have "b64decode_lenient ''YQ=='' = Inr [0x61]" by code_simp
  then have files: "fixtures sample_ffe_env"
    by (simp add: fixtures_def sample_ffe_env_def dgetitem_def)
  obtain s' r where h: "handle_config sample_ffe_env [(''Accept'', ''application/json, application/protobuf;q=1'')] config_path
      ffe_init = (s', r)" by force
  have "accepts_protobuf sample_ffe_env (str_join '','' (header_values ''Accept'' [(''Accept'', ''application/json, application/protobuf;q=1'')]))"
    by code_simp
  with config_answered [OF ready files h] h show ?thesis by auto
qed

end
