(* ===== verification/Mocked_Backend.thy ===== *)
theory Mocked_Backend
  imports Ffe_Backend
begin

section \<open>The mocked backend (utils/mocked\_backend)\<close>

text \<open>
  The HTTP server that stands for the backend: reading the body of a request, choosing what
  answers it, and recording what was exchanged.  The input of a connection is the list of the bytes
  that will arrive, the end of the list is the end of the stream.  Decompression, the protobuf
  messages without content, and what the deserialization makes of a body (theory
  \<open>Deserializer\<close>, as a JSON value) are the record \<open>server_env\<close>.
\<close>

subsection \<open>Reading the body\<close>

definition lf :: "8 word" where "lf = 0x0A"

text \<open>\<open>rfile.readline()\<close>: the line with its line feed, and the rest.\<close>

fun readline :: "bytes \<Rightarrow> bytes \<times> bytes" where
  "readline [] = ([], [])"
| "readline (b # bs) = (if b = lf then ([b], bs) else (let (l, r) = readline bs in (b # l, r)))"

lemma readline_append: "fst (readline bs) @ snd (readline bs) = bs"
  by (induction bs) (auto simp: Let_def split: prod.splits)

lemma readline_shorter: "snd (readline bs) = bs \<longleftrightarrow> bs = []" "length (snd (readline bs)) \<le> length bs - 1"
proof -
  have *: "bs \<noteq> [] \<Longrightarrow> length (snd (readline bs)) < length bs" for bs
    by (induction bs rule: readline.induct) (auto simp: Let_def split: prod.splits, force)
  show "snd (readline bs) = bs \<longleftrightarrow> bs = []" using * [of bs] by (cases "bs = []") auto
  show "length (snd (readline bs)) \<le> length bs - 1" using * [of bs] by (cases "bs = []") auto
qed

definition text_of :: "bytes \<Rightarrow> string" where
  "text_of bs = map char_of_byte bs"

text \<open>\<open>int(size_line.split(b";", 1)[0].strip(), 16)\<close>\<close>

definition chunk_size :: "bytes \<Rightarrow> int res" where
  "chunk_size size_line = py_int 16 (str_strip (hd (split_once (CHR '';'') (text_of size_line))))"

text \<open>The optional trailers, up to the line that ends them.\<close>

function skip_trailers :: "bytes \<Rightarrow> bytes" where
  "skip_trailers bs =
     (let (l, rest) = readline bs in
      if l = [0x0D, 0x0A] \<or> l = [0x0A] \<or> l = [] then rest else skip_trailers rest)"
  by auto
termination
proof (relation "measure length")
  fix bs x l rest
  assume "x = readline bs" "(l, rest) = x" "\<not> (l = [0x0D, 0x0A] \<or> l = [0x0A] \<or> l = [])"
  then have "length (snd (readline bs)) < length bs"
    using readline_shorter(2) [of bs] by (cases bs) (auto split: if_splits)
  then show "(rest, bs) \<in> measure length" using \<open>x = readline bs\<close> \<open>(l, rest) = x\<close> by (metis in_measure snd_conv)
qed simp

declare skip_trailers.simps [simp del]

text \<open>
  The chunks of a body, and what is left of the input: every size line is followed by that many
  bytes and a line end.  \<open>read\<close> with a negative size reads to the end.
\<close>

function read_chunks :: "bytes \<Rightarrow> (bytes \<times> bytes) res" where
  "read_chunks bs =
     (if bs = [] then Inr ([], [])
      else case chunk_size (fst (readline bs)) of
        Inl e \<Rightarrow> Inl e
      | Inr sz \<Rightarrow>
          if sz = 0 then Inr ([], skip_trailers (snd (readline bs)))
          else
            (let rest = snd (readline bs);
                 n = (if sz < 0 then length rest else nat sz)
             in rbind (read_chunks (snd (readline (drop n rest)))) (\<lambda>(body, left).
                  Inr (take n rest @ body, left))))"
  by auto
termination
proof (relation "measure length")
  fix bs :: bytes and sz :: int and x y
  assume "bs \<noteq> []" "x = snd (readline bs)" "y = (if sz < 0 then length x else nat sz)"
  then show "(snd (readline (drop y x)), bs) \<in> measure length"
    using readline_shorter(2) [of bs] readline_shorter(2) [of "drop y x"] by (cases bs) auto
qed simp

declare read_chunks.simps [simp del]

definition read_body :: "(string \<times> string) list \<Rightarrow> bytes \<Rightarrow> (bytes \<times> bytes) res" where
  "read_body headers bs =
     (if str_contains (str_lower (header_or ''Transfer-Encoding'' [] headers)) ''chunked'' then read_chunks bs
      else rbind (py_int 10 (header_or ''Content-Length'' ''0'' headers)) (\<lambda>n.
        if n = 0 then Inr ([], bs)
        else if n < 0 then Inr (bs, []) else Inr (take (nat n) bs, drop (nat n) bs)))"

subsection \<open>The server\<close>

record server_env =
  sv_ffe :: ffe_env
  sv_decompress :: "string \<Rightarrow> bytes \<Rightarrow> bytes res"
  sv_content :: "string \<Rightarrow> (string \<times> string) list \<Rightarrow> bytes option \<Rightarrow> json option"
  sv_org_data :: bytes
  sv_org_status :: bytes

definition decode_content :: "server_env \<Rightarrow> bytes \<Rightarrow> string \<Rightarrow> bytes res" where
  "decode_content E raw_body content_encoding =
     (let encoding = str_lower content_encoding in
      if encoding \<in> {''gzip'', ''deflate'', ''br'', ''zstd''} then sv_decompress E encoding raw_body else Inr raw_body)"

definition control_url_prefix :: string where "control_url_prefix = ''/system-tests''"

datatype route_handler =
    R_health
  | R_mocked_responses
  | R_config
  | R_rules_config
  | R_evp_intake
  | R_ffe_status
  | R_ffe_responses
  | R_ffe_reset
  | R_static bytes string
  | R_mock json json bytes
  | R_default

record exchange =
  ex_log_filename :: "string option"
  ex_method :: string
  ex_path :: string
  ex_query :: string
  ex_host :: string
  ex_request_length :: "nat option"
  ex_status :: json
  ex_headers :: "(string \<times> json) list"
  ex_content :: bytes

text \<open>What is sent besides the \<open>Content-Length\<close> of the body.\<close>

record http_reply =
  ht_status :: json
  ht_headers :: "(string \<times> json) list"
  ht_body :: bytes
  ht_delivery :: delivery

record server =
  sr_log_folder :: "string option"
  sr_count :: nat
  sr_mocks :: "mocked list"
  sr_internal :: "mocked list"
  sr_routes :: "(string \<times> string, route_handler) dict"
  sr_ffe :: ffe_state
  sr_messages :: "exchange list"

definition ffe_routes :: "((string \<times> string) \<times> route_handler) list" where
  "ffe_routes =
     [((''GET'', config_path), R_config), ((''GET'', rules_config_path @ ''/client''), R_rules_config),
      ((''GET'', rules_config_path @ ''/redirected''), R_rules_config), ((''POST'', ''/api/v2/exposures''), R_evp_intake),
      ((''POST'', ''/api/v2/flagevaluation''), R_evp_intake), ((''GET'', control_url_prefix @ ''/ffe/status''), R_ffe_status),
      ((''POST'', control_url_prefix @ ''/ffe/responses''), R_ffe_responses),
      ((''POST'', control_url_prefix @ ''/ffe/reset''), R_ffe_reset)]"

definition rc_routes :: "server_env \<Rightarrow> ((string \<times> string) \<times> route_handler) list res" where
  "rc_routes E =
     rbind (build_rc_configurations_protobuf (en_codec (sv_ffe E)) J_null) (\<lambda>configurations.
       Inr [((''GET'', ''/api/v0.1/org''), R_static (sv_org_data E) ''application/x-protobuf''),
            ((''GET'', ''/api/v0.1/status''), R_static (sv_org_status E) ''application/x-protobuf''),
            ((''GET'', ''/api/v0.2/echo-test''), R_static (encode ''ok'') ''text/plain''),
            ((''POST'', ''/api/v0.1/configurations''), R_static configurations ''application/x-protobuf'')])"

definition add_handler ::
  "(string \<times> string) \<times> route_handler \<Rightarrow> (string \<times> string, route_handler) dict \<Rightarrow> (string \<times> string, route_handler) dict" where
  "add_handler = (\<lambda>(key, h). dset key h)"

definition server_init :: "server_env \<Rightarrow> string option \<Rightarrow> jobj list \<Rightarrow> server res" where
  "server_init E log_folder internal_responses =
     rbind (from_dicts Backend_factory internal_responses) (\<lambda>internal_mocks.
     rbind (rc_routes E) (\<lambda>rc.
       Inr \<lparr>sr_log_folder = log_folder, sr_count = 0, sr_mocks = [], sr_internal = internal_mocks,
         sr_routes = fold add_handler
           ([((''GET'', control_url_prefix @ ''/health''), R_health),
             ((''PUT'', control_url_prefix @ ''/mocked-responses''), R_mocked_responses)] @ ffe_routes @ rc) [],
         sr_ffe = ffe_init, sr_messages = []\<rparr>))"

definition mocked_response_handler :: "server \<Rightarrow> string \<Rightarrow> route_handler option" where
  "mocked_response_handler s path =
     (if startswith path control_url_prefix then None
      else (case find (\<lambda>m. mock_path m = J_str path) (sr_mocks s @ sr_internal s) of
              Some (MockedBackend p content ctype status) \<Rightarrow> Some (R_mock status ctype content)
            | _ \<Rightarrow> None))"

text \<open>\<open>f"{count:03d}"\<close>\<close>

text \<open>The format \<open>:03d\<close> of a count, for any width.\<close>

definition zero_padded :: "nat \<Rightarrow> nat \<Rightarrow> string" where
  "zero_padded width n = (let d = dec_digits n in replicate (width - length d) (CHR ''0'') @ d)"

definition log_filename_of :: "string \<Rightarrow> nat \<Rightarrow> string \<Rightarrow> string" where
  "log_filename_of log_folder count path =
     log_folder @ ''/'' @ zero_padded 3 count @ ''_'' @ str_replace ''/'' ''_'' path @ ''.json''"

definition choose_handler :: "server \<Rightarrow> string \<Rightarrow> string \<Rightarrow> string \<Rightarrow> route_handler" where
  "choose_handler s http_method path query =
     (case mocked_response_handler s (if query = [] then path else path @ ''?'' @ query) of
        Some h \<Rightarrow> h
      | None \<Rightarrow> (case dget (sr_routes s) (http_method, path) of None \<Rightarrow> R_default | Some h \<Rightarrow> h))"

definition get_handler :: "server \<Rightarrow> string \<Rightarrow> string \<Rightarrow> string \<Rightarrow> route_handler \<times> string option \<times> server" where
  "get_handler s http_method path query =
     (let h = choose_handler s http_method path query in
      if startswith path control_url_prefix then (h, None, s)
      else (h, map_option (\<lambda>folder. log_filename_of folder (sr_count s) path) (sr_log_folder s),
            s\<lparr>sr_count := sr_count s + 1\<rparr>))"

definition of_ffe_reply :: "ffe_reply \<Rightarrow> http_reply" where
  "of_ffe_reply r = \<lparr>ht_status = J_int (rp_status r), ht_headers = map (\<lambda>(k, v). (k, J_str v)) (rp_headers r),
     ht_body = rp_body r, ht_delivery = rp_delivery r\<rparr>"

definition ffe_result :: "server \<Rightarrow> ffe_state \<times> ffe_reply res \<Rightarrow> server \<times> http_reply res" where
  "ffe_result s = (\<lambda>(f, r). (s\<lparr>sr_ffe := f\<rparr>, rbind r (\<lambda>r. Inr (of_ffe_reply r))))"

definition bytes_reply :: "json \<Rightarrow> json \<Rightarrow> bytes \<Rightarrow> http_reply" where
  "bytes_reply status ctype content =
     \<lparr>ht_status = status, ht_headers = [(''Content-Type'', ctype)], ht_body = content, ht_delivery = Whole\<rparr>"

definition json_objects :: "json \<Rightarrow> jobj list option" where
  "json_objects v =
     (case v of
        J_list xs \<Rightarrow> if list_all (\<lambda>x. case x of J_obj m \<Rightarrow> True | _ \<Rightarrow> False) xs
          then Some (map (\<lambda>x. case x of J_obj m \<Rightarrow> m | _ \<Rightarrow> []) xs) else None
      | _ \<Rightarrow> None)"

definition handle_mocked_responses :: "server_env \<Rightarrow> json option \<Rightarrow> server \<Rightarrow> server \<times> http_reply res" where
  "handle_mocked_responses E payload s =
     (let bad = Inr (of_ffe_reply (bad_request (sv_ffe E)));
          responses = (case payload of Some (J_obj m) \<Rightarrow> (case dget m ''responses'' of None \<Rightarrow> J_null | Some v \<Rightarrow> v) | _ \<Rightarrow> J_null)
      in case json_objects responses of
           None \<Rightarrow> (s, bad)
         | Some items \<Rightarrow>
             (case from_dicts Backend_factory items of
                Inl e \<Rightarrow> if e \<in> {Key_Error, Type_Error, Value_Error, Unicode_Error} then (s, bad) else (s, Inl e)
              | Inr mocks \<Rightarrow> (s\<lparr>sr_mocks := mocks\<rparr>, Inr (of_ffe_reply (write_json (sv_ffe E) 200 (J_obj []))))))"

fun run_handler ::
  "server_env \<Rightarrow> route_handler \<Rightarrow> (string \<times> string) list \<Rightarrow> string \<Rightarrow> json option \<Rightarrow> server \<Rightarrow> server \<times> http_reply res" where
  "run_handler E R_health headers target payload s =
     (s, Inr (of_ffe_reply (write_json (sv_ffe E) 200 (J_obj [(''status'', J_str ''ok'')]))))"
| "run_handler E R_mocked_responses headers target payload s = handle_mocked_responses E payload s"
| "run_handler E R_config headers target payload s = ffe_result s (handle_config (sv_ffe E) headers target (sr_ffe s))"
| "run_handler E R_rules_config headers target payload s = ffe_result s (handle_rules_config (sv_ffe E) headers target (sr_ffe s))"
| "run_handler E R_evp_intake headers target payload s = ffe_result s (handle_evp_intake (sv_ffe E) (sr_ffe s))"
| "run_handler E R_ffe_status headers target payload s = ffe_result s (handle_status (sv_ffe E) (sr_ffe s))"
| "run_handler E R_ffe_responses headers target payload s =
     ffe_result s (handle_control_responses (sv_ffe E) headers payload (sr_ffe s))"
| "run_handler E R_ffe_reset headers target payload s = ffe_result s (handle_control_reset (sv_ffe E) (sr_ffe s))"
| "run_handler E (R_static content ctype) headers target payload s = (s, Inr (bytes_reply (J_int 200) (J_str ctype) content))"
| "run_handler E (R_mock status ctype content) headers target payload s = (s, Inr (bytes_reply status ctype content))"
| "run_handler E R_default headers target payload s = (s, Inr (of_ffe_reply (write_json (sv_ffe E) 200 (J_obj []))))"

text \<open>\<open>urlsplit("//" + host).hostname or ""\<close>: without user and port, in lower case up to a zone.\<close>

definition after_last :: "char \<Rightarrow> string \<Rightarrow> string" where
  "after_last c s = rev (takeWhile (\<lambda>x. x \<noteq> c) (rev s))"

definition hostname :: "string \<Rightarrow> string res" where
  "hostname host =
     (let netloc = takeWhile (\<lambda>c. c \<notin> set ''/?#'') host in
      if (CHR ''['' \<in> set netloc) \<noteq> (CHR '']'' \<in> set netloc) then Inl Value_Error
      else
        (let hostinfo = after_last (CHR ''@'') netloc;
             name = (if CHR ''['' \<in> set hostinfo
                     then until (CHR '']'') (tl (dropWhile (\<lambda>c. c \<noteq> CHR ''['') hostinfo))
                     else until (CHR '':'') hostinfo)
         in Inr (case split_once (CHR ''%'') name of
                   [a, zone] \<Rightarrow> str_lower a @ ''%'' @ zone
                 | _ \<Rightarrow> str_lower name)))"

text \<open>One request: the server afterwards, what is left of the input, and the reply.\<close>

record http_request =
  hr_method :: string
  hr_target :: string
  hr_headers :: "(string \<times> string) list"

definition handle_request ::
  "server_env \<Rightarrow> http_request \<Rightarrow> bytes \<Rightarrow> server \<Rightarrow> server \<times> (bytes \<times> http_reply) res" where
  "handle_request E r input s =
     (case read_body (hr_headers r) input of
        Inl e \<Rightarrow> (s, Inl e)
      | Inr (raw_body, input') \<Rightarrow>
          (let path = url_path_params (hr_target r); query = url_query (hr_target r);
               (h, log_filename, s1) = get_handler s (hr_method r) path query
           in case hostname (header_or ''Host'' [] (hr_headers r)) of
                Inl e \<Rightarrow> (s1, Inl e)
              | Inr host \<Rightarrow>
                  (let decoded = (if raw_body = [] then Inr None
                         else rbind (decode_content E raw_body (header_or ''Content-Encoding'' [] (hr_headers r))) (\<lambda>c. Inr (Some c)));
                       payload = (case decoded of Inl e \<Rightarrow> None | Inr c \<Rightarrow> sv_content E path (hr_headers r) c)
                   in case run_handler E h (hr_headers r) (hr_target r) payload s1 of
                        (s2, Inl e) \<Rightarrow> (s2, Inl e)
                      | (s2, Inr reply) \<Rightarrow>
                          (let x = \<lparr>ex_log_filename = log_filename, ex_method = hr_method r, ex_path = path, ex_query = query,
                                 ex_host = host,
                                 ex_request_length = (case decoded of Inl e \<Rightarrow> None
                                   | Inr c \<Rightarrow> Some (case c of None \<Rightarrow> 0 | Some b \<Rightarrow> length b)),
                                 ex_status = ht_status reply, ex_headers = ht_headers reply, ex_content = ht_body reply\<rparr>
                           in (if startswith path control_url_prefix then s2 else s2\<lparr>sr_messages := sr_messages s2 @ [x]\<rparr>,
                               Inr (input', reply))))))"

subsection \<open>Chunked bodies\<close>

record chunk =
  ck_line :: bytes
  ck_data :: bytes

definition chunk_bytes :: "chunk \<Rightarrow> bytes" where
  "chunk_bytes c = ck_line c @ [lf] @ ck_data c @ [0x0D, lf]"

definition chunk_ok :: "chunk \<Rightarrow> bool" where
  "chunk_ok c \<longleftrightarrow> lf \<notin> set (ck_line c) \<and> chunk_size (ck_line c @ [lf]) = Inr (int (length (ck_data c))) \<and> ck_data c \<noteq> []"

lemma readline_line: "lf \<notin> set l \<Longrightarrow> readline (l @ lf # bs) = (l @ [lf], bs)"
  by (induction l) auto

lemma skip_one_trailer:
  "lf \<notin> set l \<Longrightarrow> l \<noteq> [] \<Longrightarrow> l \<noteq> [0x0D] \<Longrightarrow> skip_trailers (l @ lf # bs) = skip_trailers bs"
proof -
  assume l: "lf \<notin> set l" "l \<noteq> []" "l \<noteq> [0x0D]"
  then have "l @ [lf] \<noteq> [0x0D, 0x0A]" "l @ [lf] \<noteq> [0x0A]" by (auto simp: lf_def append_eq_Cons_conv)
  with readline_line [OF l(1), of bs] show ?thesis using l by (subst skip_trailers.simps) auto
qed

lemma skip_all_trailers:
  "list_all (\<lambda>l. lf \<notin> set l \<and> l \<noteq> [] \<and> l \<noteq> [0x0D]) trailers \<Longrightarrow>
     skip_trailers (concat (map (\<lambda>l. l @ [lf]) trailers) @ [0x0D, lf] @ bs) = bs"
proof (induction trailers)
  case Nil
  have "readline ([0x0D] @ lf # bs) = ([0x0D] @ [lf], bs)" by (rule readline_line) (simp add: lf_def)
  then show ?case by (subst skip_trailers.simps) (simp add: lf_def)
next
  case (Cons l ls)
  then show ?case using skip_one_trailer [of l] by simp
qed

lemma read_one_chunk:
  assumes "chunk_ok c"
  shows "read_chunks (chunk_bytes c @ bs) = rbind (read_chunks bs) (\<lambda>(body, left). Inr (ck_data c @ body, left))"
proof -
  let ?in = "chunk_bytes c @ bs"
  have in_line: "?in = ck_line c @ lf # ck_data c @ [0x0D] @ lf # bs" by (simp add: chunk_bytes_def)
  have first: "readline ?in = (ck_line c @ [lf], ck_data c @ [0x0D] @ lf # bs)"
    unfolding in_line by (rule readline_line) (use assms in \<open>simp add: chunk_ok_def\<close>)
  have rest: "readline (0x0D # lf # bs) = ([0x0D, lf], bs)"
    using readline_line [of "[0x0D]" bs] by (simp add: lf_def)
  have "chunk_bytes c \<noteq> []" "ck_data c \<noteq> []" using assms by (auto simp: chunk_bytes_def chunk_ok_def)
  moreover have "chunk_size (fst (readline ?in)) = Inr (int (length (ck_data c)))" using assms first by (simp add: chunk_ok_def)
  ultimately show ?thesis
    by (subst read_chunks.simps) (simp add: first rest del: readline.simps)
qed


definition sample_chunk :: chunk where
  "sample_chunk = \<lparr>ck_line = encode ''00A;name=v'' @ [0x0D], ck_data = encode ''0123456789''\<rparr>"


subsection \<open>Numbers in the names of the files\<close>

lemma zero_padded: "digits_val 10 0 (zero_padded w n) = Some n" "CHR ''_'' \<notin> set (zero_padded w n)"
proof -
  have "digits_val 10 0 (replicate k (CHR ''0'')) = Some 0" for k
    by (induction k) (simp_all add: digit_val_def is_digit_def)
  moreover have "CHR ''_'' \<notin> set (replicate k (CHR ''0''))" for k by auto
  ultimately show "digits_val 10 0 (zero_padded w n) = Some n"
    by (simp add: zero_padded_def Let_def digits_val_append digits_val_dec)
  show "CHR ''_'' \<notin> set (zero_padded w n)" using dec_digits_chars by (auto simp: zero_padded_def Let_def)
qed

lemma padded_prefix:
  assumes "zero_padded w n @ CHR ''_'' # x = zero_padded w m @ CHR ''_'' # y"
  shows "n = m"
proof -
  have front: "takeWhile (\<lambda>c. c \<noteq> CHR ''_'') (zero_padded w k @ CHR ''_'' # z) = zero_padded w k" for k z
    using zero_padded(2) [where w = w and n = k] by (subst takeWhile_append2) auto
  have "zero_padded w n = zero_padded w m" using assms front [of n x] front [of m y] by simp
  then show ?thesis using zero_padded(1) by (metis option.inject)
qed

lemma log_filename_inj: "log_filename_of f n p = log_filename_of f m q \<Longrightarrow> n = m"
  by (auto simp: log_filename_of_def dest: padded_prefix)

end
