(* ===== verification/Backend_Session.thy ===== *)
theory Backend_Session
  imports Mocked_Backend Rc_State
begin

section \<open>Sessions of the mocked backend\<close>

text \<open>
  What the server keeps over the requests of a session, and the way of a remote configuration
  from the test to the agent: \<open>send_state\<close> gives the backend a mocked response through its
  control endpoint (\<open>MockedBackendClient\<close>), and the next poll of the agent is answered with it.
\<close>

subsection \<open>The client (mocked\_backend/\_client.py)\<close>

definition mocked_responses_body :: "mocked list \<Rightarrow> json" where
  "mocked_responses_body responses = J_obj [(''responses'', J_list (map (\<lambda>m. J_obj (to_json m)) responses))]"

definition mocked_responses_target :: string where
  "mocked_responses_target = control_url_prefix @ ''/mocked-responses''"

definition format_text :: "response_format \<Rightarrow> string" where
  "format_text f = (case f of Json_format \<Rightarrow> ''json'' | Protobuf_format \<Rightarrow> ''protobuf'')"

definition ffe_responses_body :: "json \<Rightarrow> response_format \<Rightarrow> json res" where
  "ffe_responses_body responses f =
     rbind (validate_responses responses f) (\<lambda>rs.
       Inr (J_obj [(''responses'', J_list (map J_str rs)), (''response_format'', J_str (format_text f))]))"

subsection \<open>What a request changes\<close>

definition serve :: "server_env \<Rightarrow> (http_request \<times> bytes) list \<Rightarrow> server \<Rightarrow> server" where
  "serve E rs s = fold (\<lambda>(r, input) s. fst (handle_request E r input s)) rs s"

lemma serve_simps: "serve E [] s = s" "serve E (p # ps) s = serve E ps (fst (handle_request E (fst p) (snd p) s))"
  by (simp_all add: serve_def split: prod.splits)

text \<open>The part of the state that only \<open>get_handler\<close> and the recording change, or that is fixed.\<close>

definition frame :: "server \<Rightarrow> string option \<times> mocked list \<times> (string \<times> string, route_handler) dict" where
  "frame s = (sr_log_folder s, sr_internal s, sr_routes s)"

lemma run_handler_keeps:
  assumes "run_handler E h headers target payload s = (s', r)"
  shows "frame s' = frame s" "sr_count s' = sr_count s" "sr_messages s' = sr_messages s"
  using assms by (cases h; auto simp: frame_def ffe_result_def handle_mocked_responses_def Let_def
    split: option.splits sum.splits if_splits prod.splits)+

lemma get_handler_keeps:
  assumes "get_handler s m path query = (h, name, s')"
  shows "frame s' = frame s" "sr_messages s' = sr_messages s"
    "if startswith path control_url_prefix then s' = s \<and> name = None
     else s' = s\<lparr>sr_count := sr_count s + 1\<rparr> \<and> name = map_option (\<lambda>f. log_filename_of f (sr_count s) path) (sr_log_folder s)"
  using assms by (auto simp: get_handler_def frame_def Let_def split: if_splits)

text \<open>A request that fails before \<open>get_handler\<close> changes nothing; otherwise the count advances, and at most
  one message is recorded.\<close>

lemma handle_request_effect:
  assumes "handle_request E r input s = (s', res)"
  shows "frame s' = frame s \<and>
    (sr_messages s' = sr_messages s \<and> sr_count s' \<ge> sr_count s \<or>
     (\<exists>x. sr_messages s' = sr_messages s @ [x] \<and> sr_count s' = sr_count s + 1 \<and>
        \<not> startswith (ex_path x) control_url_prefix \<and>
        ex_log_filename x = map_option (\<lambda>f. log_filename_of f (sr_count s) (ex_path x)) (sr_log_folder s)))"
proof (cases "read_body (hr_headers r) input")
  case (Inl e)
  then show ?thesis using assms by (simp add: handle_request_def)
next
  case (Inr p)
  obtain raw input' where p: "p = (raw, input')" by force
  let ?path = "url_path_params (hr_target r)"
  obtain h name s1 where g: "get_handler s (hr_method r) ?path (url_query (hr_target r)) = (h, name, s1)" by (metis prod_cases3)
  note k = get_handler_keeps [OF g]
  have s1: "frame s1 = frame s \<and> sr_messages s1 = sr_messages s \<and> sr_count s1 \<ge> sr_count s"
    using k by (auto split: if_splits)
  show ?thesis
  proof (cases "hostname (header_or ''Host'' [] (hr_headers r))")
    case h: (Inl e)
    then show ?thesis using assms s1 by (simp add: handle_request_def Inr p g)
  next
    case h: (Inr host)
    let ?decoded = "if raw = [] then Inr None
      else rbind (decode_content E raw (header_or ''Content-Encoding'' [] (hr_headers r))) (\<lambda>c. Inr (Some c))"
    let ?payload = "case ?decoded of Inl e \<Rightarrow> None | Inr c \<Rightarrow> sv_content E ?path (hr_headers r) c"
    obtain s2 rep where run: "run_handler E h (hr_headers r) (hr_target r) ?payload s1 = (s2, rep)" by force
    note k2 = run_handler_keeps [OF run]
    show ?thesis
    proof (cases rep)
      case (Inl e)
      then show ?thesis using assms s1 k2 by (simp add: handle_request_def \<open>read_body _ _ = _\<close> p g h Let_def run)
    next
      case rep: (Inr reply)
      have "s' = (if startswith ?path control_url_prefix then s2 else s2\<lparr>sr_messages := sr_messages s2 @
          [\<lparr>ex_log_filename = name, ex_method = hr_method r, ex_path = ?path, ex_query = url_query (hr_target r), ex_host = host,
            ex_request_length = (case ?decoded of Inl e \<Rightarrow> None | Inr c \<Rightarrow> Some (case c of None \<Rightarrow> 0 | Some b \<Rightarrow> length b)),
            ex_status = ht_status reply, ex_headers = ht_headers reply, ex_content = ht_body reply\<rparr>]\<rparr>)"
        using assms by (simp add: handle_request_def Inr p g h Let_def run rep)
      then show ?thesis using k k2 by (auto simp: frame_def split: if_splits)
    qed
  qed
qed

definition numbered :: "string \<Rightarrow> server \<Rightarrow> bool" where
  "numbered folder s \<longleftrightarrow> (\<exists>ns. sorted_wrt (<) ns \<and> (\<forall>n \<in> set ns. n < sr_count s) \<and>
     list_all2 (\<lambda>n x. ex_log_filename x = Some (log_filename_of folder n (ex_path x)) \<and>
       \<not> startswith (ex_path x) control_url_prefix) ns (sr_messages s))"

lemma numbered_step:
  assumes "numbered folder s" and "sr_log_folder s = Some folder"
  shows "numbered folder (fst (handle_request E r input s))"
proof -
  obtain s' res where h: "handle_request E r input s = (s', res)" by force
  obtain ns where ns: "sorted_wrt (<) ns" "\<forall>n \<in> set ns. n < sr_count s"
    "list_all2 (\<lambda>n x. ex_log_filename x = Some (log_filename_of folder n (ex_path x)) \<and>
       \<not> startswith (ex_path x) control_url_prefix) ns (sr_messages s)"
    using assms(1) unfolding numbered_def by blast
  from handle_request_effect [OF h]
  consider "sr_messages s' = sr_messages s" "sr_count s' \<ge> sr_count s"
    | x where "sr_messages s' = sr_messages s @ [x]" "sr_count s' = sr_count s + 1"
        "\<not> startswith (ex_path x) control_url_prefix"
        "ex_log_filename x = Some (log_filename_of folder (sr_count s) (ex_path x))"
    using assms(2) by auto
  then have "numbered folder s'"
  proof cases
    case 1
    then show ?thesis using ns unfolding numbered_def by (intro exI [of _ ns]) fastforce
  next
    case 2
    then show ?thesis using ns unfolding numbered_def
      by (intro exI [of _ "ns @ [sr_count s]"]) (auto simp: sorted_wrt_append intro: less_SucI list_all2_appendI)
  qed
  then show ?thesis by (simp add: h)
qed

lemma serve_frame: "frame (serve E rs s) = frame s"
proof (induction rs arbitrary: s)
  case (Cons p ps)
  obtain s' res where "handle_request E (fst p) (snd p) s = (s', res)" by force
  with handle_request_effect [OF this] Cons show ?case by (simp add: serve_simps)
qed (simp add: serve_simps)

lemma serve_numbered: "numbered folder s \<Longrightarrow> sr_log_folder s = Some folder \<Longrightarrow> numbered folder (serve E rs s)"
proof (induction rs arbitrary: s)
  case (Cons p ps)
  have "frame (serve E [p] s) = frame s" by (rule serve_frame)
  then have "sr_log_folder (fst (handle_request E (fst p) (snd p) s)) = Some folder"
    using Cons.prems(2) by (simp add: serve_simps frame_def)
  with Cons numbered_step show ?case by (simp add: serve_simps)
qed (simp add: serve_simps)

lemma numbered_distinct:
  "list_all2 (\<lambda>n x. ex_log_filename x = Some (log_filename_of folder n (ex_path x)) \<and> Q x) ns xs \<Longrightarrow>
     sorted_wrt (<) ns \<Longrightarrow> distinct (map ex_log_filename xs)"
proof (induction xs arbitrary: ns)
  case (Cons x xs)
  let ?P = "\<lambda>n x. ex_log_filename x = Some (log_filename_of folder n (ex_path x)) \<and> Q x"
  obtain n ms where n: "ns = n # ms" "?P n x" "list_all2 ?P ms xs" using Cons.prems(1) by (auto simp: list_all2_Cons2)
  have "ex_log_filename x \<noteq> ex_log_filename y" if y: "y \<in> set xs" for y
  proof -
    obtain m where m: "m \<in> set ms" "?P m y" using list_all2_partner [OF n(3) y] by blast
    then have "n \<noteq> m" using Cons.prems(2) n(1) by auto
    then show ?thesis using m(2) n(2) log_filename_inj by auto
  qed
  moreover have "distinct (map ex_log_filename xs)" using Cons.IH [OF n(3)] Cons.prems(2) n(1) by simp
  ultimately show ?case by auto
qed simp

text \<open>Over any requests from the start of the server, requests to the control endpoints are never
  recorded, and the messages that are recorded go to files of different names, numbered in the
  order in which the requests were taken.\<close>

theorem messages_have_own_files:
  assumes "server_init E (Some folder) internal_responses = Inr s0"
  shows "distinct (map ex_log_filename (sr_messages (serve E rs s0))) \<and>
    list_all (\<lambda>x. \<not> startswith (ex_path x) control_url_prefix) (sr_messages (serve E rs s0))"
proof -
  have "sr_log_folder s0 = Some folder" "sr_messages s0 = []"
    using assms by (auto simp: server_init_def rbind_Inr_iff)
  then have "numbered folder (serve E rs s0)"
    by (intro serve_numbered) (auto simp: numbered_def)
  then obtain ns where ns: "sorted_wrt (<) ns"
    and each: "list_all2 (\<lambda>n x. ex_log_filename x = Some (log_filename_of folder n (ex_path x)) \<and>
      \<not> startswith (ex_path x) control_url_prefix) ns (sr_messages (serve E rs s0))"
    unfolding numbered_def by blast
  have "distinct (map ex_log_filename (sr_messages (serve E rs s0)))"
    using each ns by (rule numbered_distinct)
  moreover have "list_all (\<lambda>x. \<not> startswith (ex_path x) control_url_prefix) (sr_messages (serve E rs s0))"
    using each unfolding list_all_length list_all2_conv_all_nth by metis
  ultimately show ?thesis by blast
qed

subsection \<open>From the test to the agent\<close>

lemma from_dicts_to_json:
  "list_all (\<lambda>m. factory_of m = Backend_factory) responses \<Longrightarrow>
     from_dicts Backend_factory (map to_json responses) = Inr responses"
proof -
  have "from_dict Backend_factory (to_json m) = Inr m" if "factory_of m = Backend_factory" for m
    using mocked_roundtrip [of m] that by (cases m) (auto simp: factory_of_def)
  then show "list_all (\<lambda>m. factory_of m = Backend_factory) responses \<Longrightarrow> ?thesis"
    unfolding from_dicts_def by (induction responses) auto
qed

lemma json_objects_map: "json_objects (J_list (map J_obj ms)) = Some ms"
  by (auto simp: json_objects_def list_all_iff comp_def)

lemma set_mocked_responses:
  assumes "list_all (\<lambda>m. factory_of m = Backend_factory) responses"
  shows "handle_mocked_responses E (Some (mocked_responses_body responses)) s =
    (s\<lparr>sr_mocks := responses\<rparr>, Inr (of_ffe_reply (write_json (sv_ffe E) 200 (J_obj []))))"
  using from_dicts_to_json [OF assms] json_objects_map [of "map to_json responses"]
  by (simp add: handle_mocked_responses_def mocked_responses_body_def Let_def comp_def)

text \<open>A request that is read and decoded, with the value its body holds and what is left of the input.\<close>

definition carries :: "server_env \<Rightarrow> http_request \<Rightarrow> bytes \<Rightarrow> json option \<Rightarrow> bytes \<Rightarrow> bool" where
  "carries E r input payload left \<longleftrightarrow>
     (\<exists>raw host c. read_body (hr_headers r) input = Inr (raw, left) \<and>
       hostname (header_or ''Host'' [] (hr_headers r)) = Inr host \<and>
       (if raw = [] then c = None
        else \<exists>b. decode_content E raw (header_or ''Content-Encoding'' [] (hr_headers r)) = Inr b \<and> c = Some b) \<and>
       sv_content E (url_path_params (hr_target r)) (hr_headers r) c = payload)"

lemma handle_carried:
  assumes "carries E r input payload left"
    and "get_handler s (hr_method r) (url_path_params (hr_target r)) (url_query (hr_target r)) = (h, name, s1)"
    and "run_handler E h (hr_headers r) (hr_target r) payload s1 = (s2, Inr reply)"
  shows "snd (handle_request E r input s) = Inr (left, reply) \<and> sr_mocks (fst (handle_request E r input s)) = sr_mocks s2"
  using assms by (auto simp: carries_def handle_request_def Let_def split: if_splits)

lemma handle_request_mocks:
  assumes "choose_handler s (hr_method r) (url_path_params (hr_target r)) (url_query (hr_target r)) \<noteq> R_mocked_responses"
  shows "sr_mocks (fst (handle_request E r input s)) = sr_mocks s"
proof -
  have run: "sr_mocks (fst (run_handler E h hs t p s)) = sr_mocks s" if "h \<noteq> R_mocked_responses" for h hs t p s
    using that by (cases h) (auto simp: ffe_result_def split: prod.splits)
  obtain h name s1 where g: "get_handler s (hr_method r) (url_path_params (hr_target r)) (url_query (hr_target r)) = (h, name, s1)"
    by (metis prod_cases3)
  then have h: "h \<noteq> R_mocked_responses" "sr_mocks s1 = sr_mocks s"
    using assms by (auto simp: get_handler_def Let_def split: if_splits)
  from run [OF h(1)] have run': "run_handler E h hs t p s1 = (s2, x) \<Longrightarrow> sr_mocks s2 = sr_mocks s" for hs t p s2 x
    using h(2) by (metis fst_conv)
  show ?thesis
    using g h(2) run' by (auto simp: handle_request_def Let_def split: sum.splits prod.splits)
qed

lemma route_in_list:
  "dget (fold add_handler ps []) key = map_of (rev ps) key"
  unfolding add_handler_def using od.lookup_fold_store [of ps "[]"] by (simp add: fun_eq_iff split: option.split)

lemma route_mocked:
  assumes "server_init E folder internal_responses = Inr s0"
  shows "dget (sr_routes s0) (''PUT'', mocked_responses_target) = Some R_mocked_responses"
    "dget (sr_routes s0) (m, p) = Some R_mocked_responses \<Longrightarrow> p = mocked_responses_target"
proof -
  obtain rc where rc: "rc_routes E = Inr rc" and routes: "sr_routes s0 = fold add_handler
      ([((''GET'', control_url_prefix @ ''/health''), R_health), ((''PUT'', mocked_responses_target), R_mocked_responses)]
        @ ffe_routes @ rc) []"
    using assms by (auto simp: server_init_def rbind_Inr_iff mocked_responses_target_def)
  let ?ps = "[((''GET'', control_url_prefix @ ''/health''), R_health), ((''PUT'', mocked_responses_target), R_mocked_responses)]
        @ ffe_routes @ rc"
  have static: "fst (fst x) \<noteq> ''PUT'' \<and> snd x \<noteq> R_mocked_responses" if "x \<in> set rc \<union> set ffe_routes" for x
    using that rc by (auto simp: rc_routes_def rbind_Inr_iff ffe_routes_def)
  then have none: "map_of (rev (ffe_routes @ rc)) (''PUT'', p) = None" for p
    by (fastforce simp: map_of_eq_None_iff)
  have "rev ?ps = rev (ffe_routes @ rc) @
      [((''PUT'', mocked_responses_target), R_mocked_responses), ((''GET'', control_url_prefix @ ''/health''), R_health)]" by simp
  then show "dget (sr_routes s0) (''PUT'', mocked_responses_target) = Some R_mocked_responses"
    unfolding routes route_in_list using none by (simp only: map_of_append map_add_def) simp
  assume "dget (sr_routes s0) (m, p) = Some R_mocked_responses"
  then have "map_of (rev ?ps) (m, p) = Some R_mocked_responses" by (simp only: routes route_in_list)
  then have "((m, p), R_mocked_responses) \<in> set (rev ?ps)" by (rule map_of_SomeD)
  then show "p = mocked_responses_target" using static by fastforce
qed

definition configurations_path :: string where "configurations_path = ''/api/v0.1/configurations''"

lemma choose_from_init:
  assumes "server_init E folder internal_responses = Inr s0" and "sr_routes s = sr_routes s0"
  shows "choose_handler s ''PUT'' mocked_responses_target [] = R_mocked_responses"
    "p \<noteq> mocked_responses_target \<Longrightarrow> choose_handler s m p q \<noteq> R_mocked_responses"
proof -
  have "startswith mocked_responses_target control_url_prefix" by code_simp
  then show "choose_handler s ''PUT'' mocked_responses_target [] = R_mocked_responses"
    using route_mocked(1) [OF assms(1)] by (simp add: choose_handler_def mocked_response_handler_def assms(2))
  assume "p \<noteq> mocked_responses_target"
  then have "dget (sr_routes s) (m, p) \<noteq> Some R_mocked_responses"
    using route_mocked(2) [OF assms(1)] by (auto simp: assms(2))
  then show "choose_handler s m p q \<noteq> R_mocked_responses"
    by (auto simp: choose_handler_def mocked_response_handler_def split: option.splits mocked.splits if_splits)
qed

text \<open>C10.  A remote configuration that \<open>send_state\<close> sends to the backend reaches the agent: after the
  mock has been put to the control endpoint of a server in any state of a session, and whatever
  requests come in between that do not set other mocks, a poll of the agent is answered with the
  response message built from the payload.\<close>

theorem backend_delivers_payload:
  assumes "server_init E folder internal_responses = Inr s0" and "mock_for C env raw_payload ''backend'' = Inr m"
    and "hr_method put = ''PUT''" and "hr_target put = mocked_responses_target"
    and "carries E put put_input (Some (mocked_responses_body [m])) put_left"
    and "list_all (\<lambda>(q, i). url_path_params (hr_target q) \<noteq> mocked_responses_target) between"
    and "hr_target ask = configurations_path" and "carries E ask poll_input payload poll_left"
  shows "\<exists>content reply.
    snd (handle_request E ask poll_input (serve E between (fst (handle_request E put put_input (serve E before s0))))) =
      Inr (poll_left, reply) \<and>
    build_rc_configurations_protobuf C raw_payload = Inr content \<and> ht_body reply = content \<and> ht_status reply = J_int 200"
proof -
  obtain content where content: "build_rc_configurations_protobuf C raw_payload = Inr content"
    and m: "m = MockedBackend (J_str configurations_path) content (J_str ''application/x-protobuf'') (J_int 200)"
    using assms(2) by (auto simp: mock_for_def rbind_Inr_iff configurations_path_def split: if_splits)
  let ?s = "serve E before s0"
  let ?s1 = "fst (handle_request E put put_input ?s)"
  have routes: "sr_routes (serve E rs s) = sr_routes s" for rs s using serve_frame [of E rs s] by (simp add: frame_def)
  have s1: "sr_routes ?s1 = sr_routes s0"
    using routes [of "[(put, put_input)]" ?s] routes [of before s0] by (simp add: serve_simps)
  have target: "url_path_params mocked_responses_target = mocked_responses_target" "url_query mocked_responses_target = []"
    "startswith mocked_responses_target control_url_prefix" by code_simp+
  have "get_handler ?s ''PUT'' mocked_responses_target [] = (R_mocked_responses, None, ?s)"
    using choose_from_init(1) [OF assms(1) routes] target(3) by (simp add: get_handler_def Let_def)
  moreover have "run_handler E R_mocked_responses (hr_headers put) (hr_target put) (Some (mocked_responses_body [m])) ?s =
      (?s\<lparr>sr_mocks := [m]\<rparr>, Inr (of_ffe_reply (write_json (sv_ffe E) 200 (J_obj []))))"
    using set_mocked_responses [of "[m]" E ?s] by (simp add: m factory_of_def)
  ultimately have mocks1: "sr_mocks ?s1 = [m]"
    using handle_carried [OF assms(5)] by (simp add: assms(3,4) target)
  have mocks: "sr_mocks (serve E rs s) = sr_mocks s"
    if "list_all (\<lambda>(q, i). url_path_params (hr_target q) \<noteq> mocked_responses_target) rs" "sr_routes s = sr_routes s0" for rs s
    using that
  proof (induction rs arbitrary: s)
    case (Cons p rs)
    let ?t = "fst (handle_request E (fst p) (snd p) s)"
    have "sr_mocks ?t = sr_mocks s"
      by (rule handle_request_mocks) (use Cons.prems choose_from_init(2) [OF assms(1)] in \<open>auto split: prod.splits\<close>)
    moreover have "sr_routes ?t = sr_routes s0" using routes [of "[p]" s] Cons.prems(2) by (simp add: serve_simps)
    ultimately show ?case using Cons by (simp add: serve_simps)
  qed (simp add: serve_simps)
  let ?s2 = "serve E between ?s1"
  have s2: "sr_mocks ?s2 = [m]" using mocks [OF assms(6) s1] mocks1 by simp
  have path: "url_path_params configurations_path = configurations_path" "url_query configurations_path = []"
    "\<not> startswith configurations_path control_url_prefix" by code_simp+
  have "choose_handler ?s2 (hr_method ask) configurations_path [] = R_mock (J_int 200) (J_str ''application/x-protobuf'') content"
    using path(3) s2 by (simp add: choose_handler_def mocked_response_handler_def m)
  then obtain name s3 where "get_handler ?s2 (hr_method ask) configurations_path [] =
      (R_mock (J_int 200) (J_str ''application/x-protobuf'') content, name, s3)"
    using path(3) by (simp add: get_handler_def Let_def)
  then have "snd (handle_request E ask poll_input ?s2) =
      Inr (poll_left, bytes_reply (J_int 200) (J_str ''application/x-protobuf'') content)"
    using handle_carried [OF assms(8), of ?s2] by (simp add: assms(7) path)
  then show ?thesis using content by (auto simp: bytes_reply_def)
qed

subsection \<open>A small session\<close>

definition backend_env :: send_env where
  "backend_env = \<lparr>se_scenario_api = True, se_scenario_backend = True, se_library = ''java'', se_fail_fast = []\<rparr>"

definition sample_mock :: mocked where
  "sample_mock = MockedBackend (J_str configurations_path) [] (J_str ''application/x-protobuf'') (J_int 200)"

definition sample_server :: server_env where
  "sample_server = \<lparr>sv_ffe = sample_ffe_env, sv_decompress = \<lambda>e b. Inl Value_Error,
     sv_content = \<lambda>p h c. if p = mocked_responses_target then Some (mocked_responses_body [sample_mock]) else None,
     sv_org_data = [], sv_org_status = []\<rparr>"

definition plain_request :: "string \<Rightarrow> string \<Rightarrow> http_request" where
  "plain_request m target = \<lparr>hr_method = m, hr_target = target, hr_headers = []\<rparr>"

lemma sample_configurations: "build_rc_configurations_protobuf sample_codec J_null = Inr []"
  by (simp add: build_rc_configurations_protobuf_def build_latest_configs_def rc_targets_def rc_target_files_def Let_def
    sample_codec_def)

lemma sample_server_init: "\<exists>s0. server_init sample_server (Some ''logs'') [] = Inr s0"
  by (simp add: server_init_def from_dicts_def rc_routes_def sample_server_def sample_ffe_env_def sample_configurations)

lemma plain_carries:
  assumes "url_path_params target = target"
  shows "carries sample_server (plain_request m target) input (sv_content sample_server target [] None) input"
proof -
  have "read_body [] input = Inr ([], input)"
  proof -
    have "\<not> str_contains (str_lower (header_or ''Transfer-Encoding'' [] [])) ''chunked''"
      "py_int 10 (header_or ''Content-Length'' ''0'' []) = Inr 0" by code_simp+
    then show ?thesis by (simp add: read_body_def)
  qed
  moreover have "hostname (header_or ''Host'' [] []) = Inr []" by code_simp
  ultimately show ?thesis using assms by (simp add: carries_def plain_request_def)
qed

theorem messages_have_own_files_witness:
  "\<exists>s0. server_init sample_server (Some ''logs'') [] = Inr s0 \<and>
    distinct (map ex_log_filename (sr_messages (serve sample_server
      [(plain_request ''GET'' ''/a'', []), (plain_request ''GET'' ''/system-tests/health'', []), (plain_request ''POST'' ''/a'', [])] s0)))"
  using messages_have_own_files [of sample_server "''logs''" "[]"] sample_server_init by blast

theorem backend_delivers_payload_witness:
  "\<exists>s0 reply. server_init sample_server (Some ''logs'') [] = Inr s0 \<and>
    snd (handle_request sample_server (plain_request ''POST'' configurations_path) []
      (serve sample_server [(plain_request ''GET'' ''/a'', [])] (fst (handle_request sample_server
        (plain_request ''PUT'' mocked_responses_target) [] (serve sample_server [] s0))))) = Inr ([], reply) \<and>
    ht_body reply = [] \<and> ht_status reply = J_int 200"
proof -
  obtain s0 where s0: "server_init sample_server (Some ''logs'') [] = Inr s0" using sample_server_init by blast
  have mock: "mock_for sample_codec backend_env J_null ''backend'' = Inr sample_mock"
    by (simp add: mock_for_def backend_env_def sample_configurations sample_mock_def configurations_path_def)
  have paths: "url_path_params mocked_responses_target = mocked_responses_target"
    "url_path_params configurations_path = configurations_path" by code_simp+
  have put: "carries sample_server (plain_request ''PUT'' mocked_responses_target) []
      (Some (mocked_responses_body [sample_mock])) []"
    using plain_carries [OF paths(1), of "''PUT''" "[]"] by (simp add: sample_server_def)
  have between: "list_all (\<lambda>(q, i). url_path_params (hr_target q) \<noteq> mocked_responses_target) [(plain_request ''GET'' ''/a'', [] :: bytes)]"
    by code_simp
  have requests: "hr_method (plain_request ''PUT'' mocked_responses_target) = ''PUT''"
    "hr_target (plain_request ''PUT'' mocked_responses_target) = mocked_responses_target"
    "hr_target (plain_request ''POST'' configurations_path) = configurations_path"
    by (simp_all add: plain_request_def)
  show ?thesis
    using backend_delivers_payload [OF s0 mock requests(1,2) put between requests(3) plain_carries [OF paths(2)], of "[]"]
      s0 sample_configurations by auto
qed

end
