(* ===== verification/Proxy_Core.thy ===== *)
theory Proxy_Core
  imports Mocked_Backend Rc_State
begin

section \<open>The proxy between tracer, agent and backend (utils/proxy/core.py)\<close>

text \<open>
  The two hooks that mitmproxy calls for a flow: \<open>request\<close> sends it where the port it came in on
  says, \<open>response\<close> applies the mocked responses and records the exchange.  A flow has its address,
  the flow of \<open>Mocked_Response\<close> (bodies as the mocks see them), and the raw bodies with their
  encoding.  An exception in a hook leaves what the hook has
  changed before; what a mock changes before it raises itself is not kept.  What mitmproxy decodes by
  itself and the decoder of zstd are the record \<open>decoders\<close>; the deserialization of the recorded
  bodies is that of \<open>Deserializer\<close> and is left out here, as are the UDP forwarder and the logs.
\<close>

subsection \<open>Ports\<close>

definition port_proxy_commands :: int where "port_proxy_commands = 11111"
definition port_weblog :: int where "port_weblog = 8126"
definition port_open_telemetry_weblog :: int where "port_open_telemetry_weblog = 8127"
definition port_otel_collector :: int where "port_otel_collector = 8128"
definition port_python_buddy :: int where "port_python_buddy = 9001"
definition port_nodejs_buddy :: int where "port_nodejs_buddy = 9002"
definition port_java_buddy :: int where "port_java_buddy = 9003"
definition port_ruby_buddy :: int where "port_ruby_buddy = 9004"
definition port_golang_buddy :: int where "port_golang_buddy = 9005"

lemmas port_defs = port_proxy_commands_def port_weblog_def port_open_telemetry_weblog_def port_otel_collector_def
  port_python_buddy_def port_nodejs_buddy_def port_java_buddy_def port_ruby_buddy_def port_golang_buddy_def

text \<open>The ports of the \<open>modes\<close> of \<open>start_proxy\<close>.\<close>

definition listening_ports :: "int list" where
  "listening_ports =
     [port_proxy_commands, port_weblog, port_python_buddy, port_nodejs_buddy, port_java_buddy, port_ruby_buddy,
      port_golang_buddy, port_open_telemetry_weblog, port_otel_collector]"

definition agent_ports :: "int list" where
  "agent_ports = [port_python_buddy, port_nodejs_buddy, port_java_buddy, port_ruby_buddy, port_golang_buddy, port_weblog]"

definition interface_of :: "int \<Rightarrow> string option" where
  "interface_of port =
     (if port = port_otel_collector then Some ''otel_collector''
      else if port = port_open_telemetry_weblog then Some ''open_telemetry''
      else if port = port_weblog then Some ''library''
      else if port = port_python_buddy then Some ''python_buddy''
      else if port = port_nodejs_buddy then Some ''nodejs_buddy''
      else if port = port_java_buddy then Some ''java_buddy''
      else if port = port_ruby_buddy then Some ''ruby_buddy''
      else if port = port_golang_buddy then Some ''golang_buddy''
      else None)"

subsection \<open>Flows and messages\<close>

record raw_message =
  rw_encoding :: string
  rw_raw :: "bytes option"

record decoders =
  dc_content :: "raw_message \<Rightarrow> bytes option"
  dc_zstd :: "bytes \<Rightarrow> bytes option"

text \<open>\<open>None\<close> of the decoder is a \<open>ZstdError\<close>.\<close>

definition get_decoded_content :: "decoders \<Rightarrow> raw_message \<Rightarrow> bytes option" where
  "get_decoded_content D m =
     (if str_lower (rw_encoding m) \<noteq> ''zstd'' then dc_content D m
      else (case rw_raw m of
              None \<Rightarrow> None
            | Some raw \<Rightarrow> if raw = [] then Some [] else (case dc_zstd D raw of Some b \<Rightarrow> Some b | None \<Rightarrow> dc_content D m)))"

record 'h px_flow =
  px_port :: int
  px_method :: string
  px_path :: string
  px_host :: string
  px_dest_port :: int
  px_scheme :: string
  px_otlp_path :: "string option"
  px_flow :: "'h flow"
  px_raw_request :: raw_message
  px_raw_response :: raw_message
  px_killed :: bool

record px_message =
  pm_log_filename :: string
  pm_path :: string
  pm_query :: string
  pm_host :: string
  pm_port :: int
  pm_method :: string
  pm_request_length :: nat
  pm_response_length :: nat
  pm_status :: json
  pm_has_response :: bool

record px_env =
  pv_log_folder :: string
  pv_target_host :: string
  pv_target_port :: int
  pv_dd_site :: string

record px_state =
  ps_mocks :: "mocked list"
  ps_internal :: "mocked list"
  ps_counts :: "(string, nat) dict"
  ps_messages :: "px_message list"

definition mocked_tracer_responses_path :: string where
  "mocked_tracer_responses_path = ''/mocked_tracer_responses''"

text \<open>\<open>http.Response.make\<close> with a status and bytes.\<close>

definition make_response :: "'h http_lib \<Rightarrow> int \<Rightarrow> bytes \<Rightarrow> 'h http_response" where
  "make_response H status content = \<lparr>rs_status = J_int status, rs_headers = make_headers H [], rs_body = B_raw content\<rparr>"

definition answer :: "'h http_response \<Rightarrow> 'h px_flow \<Rightarrow> 'h px_flow" where
  "answer r f = f\<lparr>px_flow := with_response (px_flow f) r\<rparr>"

text \<open>The text of the error is not kept.\<close>

definition store_mocked_tracer_responses :: "'h http_lib \<Rightarrow> px_state \<Rightarrow> 'h px_flow \<Rightarrow> px_state \<times> 'h px_flow" where
  "store_mocked_tracer_responses H s f =
     (case rbind (json_loads (fl_request (px_flow f))) (\<lambda>source.
        rbind (j_iter source) (\<lambda>items.
        rbind (rmap (\<lambda>item. case item of J_obj m \<Rightarrow> Inr m | _ \<Rightarrow> Inl Attribute_Error) items) (from_dicts Tracer_factory))) of
        Inl e \<Rightarrow> (s, answer (make_response H 400 []) f)
      | Inr mocks \<Rightarrow> (s\<lparr>ps_mocks := mocks\<rparr>, answer (make_response H 200 (encode ''Ok'')) f))"

definition route_to :: "string \<Rightarrow> int \<Rightarrow> string \<Rightarrow> 'h px_flow \<Rightarrow> 'h px_flow" where
  "route_to host port scheme f = f\<lparr>px_host := host, px_dest_port := port, px_scheme := scheme\<rparr>"

definition otlp_route :: "px_env \<Rightarrow> 'h px_flow \<Rightarrow> 'h px_flow res" where
  "otlp_route E f =
     (let p = px_otlp_path f in
      if p = Some ''agent'' then Inr (route_to ''agent'' 4318 ''http'' f)
      else if p = Some ''collector'' then Inr (route_to ''system-tests-collector'' 4318 ''http'' f)
      else if p = Some ''intake-traces'' then Inr (route_to (''trace.agent.'' @ pv_dd_site E) 443 ''https'' f)
      else if p = Some ''intake-metrics'' then Inr (route_to (''api.'' @ pv_dd_site E) 443 ''https'' f)
      else if p = Some ''intake-logs'' then Inr (route_to (''http-intake.logs.'' @ pv_dd_site E) 443 ''https'' f)
      else Inl Value_Error)"

definition px_request :: "'h http_lib \<Rightarrow> px_env \<Rightarrow> px_state \<Rightarrow> 'h px_flow \<Rightarrow> px_state \<times> 'h px_flow res" where
  "px_request H E s f =
     (if px_port f = port_proxy_commands then
        (if px_path f = mocked_tracer_responses_path \<and> px_method f = ''PUT''
         then (let (s', f') = store_mocked_tracer_responses H s f in (s', Inr f'))
         else (s, Inr (answer (make_response H 404 (encode ''Not found'')) f)))
      else if px_port f = port_open_telemetry_weblog then (s, otlp_route E f)
      else if px_port f = port_otel_collector then (s, Inr (answer (make_response H 200 (encode ''Ok'')) f))
      else if px_port f \<in> set agent_ports then (s, Inr (route_to (pv_target_host E) (pv_target_port E) ''http'' f))
      else (s, Inr f))"

definition request_is_from_tracer :: "'h px_flow \<Rightarrow> bool" where
  "request_is_from_tracer f \<longleftrightarrow> px_host f = ''agent''"

text \<open>
  Every mock of the path is executed, the internal ones first; the mocks are objects that count
  their requests.  \<open>apply_mocks\<close> gives the mocks and the flow as they are when it returns or raises.
\<close>

fun apply_mocks :: "'h http_lib \<Rightarrow> string \<Rightarrow> mocked list \<Rightarrow> 'h flow \<Rightarrow> mocked list \<times> 'h flow \<times> unit res" where
  "apply_mocks H path [] f = ([], f, Inr ())"
| "apply_mocks H path (m # ms) f =
     (if mock_path m = J_str path
      then (case execute H m f of
              Inl e \<Rightarrow> (m # ms, f, Inl e)
            | Inr (m', f') \<Rightarrow> (let (ms', f'', r) = apply_mocks H path ms f' in (m' # ms', f'', r)))
      else (let (ms', f', r) = apply_mocks H path ms f in (m # ms', f', r)))"

definition modify_response :: "'h http_lib \<Rightarrow> px_state \<Rightarrow> 'h px_flow \<Rightarrow> px_state \<times> 'h px_flow \<times> unit res" where
  "modify_response H s f =
     (if request_is_from_tracer f
      then (let (ms, f', r) = apply_mocks H (px_path f) (ps_internal s @ ps_mocks s) (px_flow f);
                n = length (ps_internal s)
            in (s\<lparr>ps_internal := take n ms, ps_mocks := drop n ms\<rparr>, f\<lparr>px_flow := f'\<rparr>, r))
      else (s, f, Inr ()))"

definition message_filename :: "px_env \<Rightarrow> string \<Rightarrow> nat \<Rightarrow> string \<Rightarrow> string" where
  "message_filename E interface n path =
     pv_log_folder E @ ''/interfaces/'' @ interface @ ''/'' @ zero_padded 5 n @ ''_'' @ str_replace ''/'' ''_'' path @ ''.json''"

definition count_of :: "(string, nat) dict \<Rightarrow> string \<Rightarrow> nat" where
  "count_of counts interface = (case dget counts interface of None \<Rightarrow> 0 | Some n \<Rightarrow> n)"

definition record_message :: "px_env \<Rightarrow> decoders \<Rightarrow> string \<Rightarrow> px_state \<Rightarrow> 'h px_flow \<Rightarrow> 'h http_response \<Rightarrow> px_state" where
  "record_message E D interface s f r =
     (let (path, query) = partition_once (CHR ''?'') (px_path f);
          n = count_of (ps_counts s) interface;
          len = (\<lambda>m. case get_decoded_content D m of None \<Rightarrow> 0 | Some b \<Rightarrow> length b)
      in s\<lparr>ps_counts := dset interface (n + 1) (ps_counts s),
           ps_messages := ps_messages s @
             [\<lparr>pm_log_filename = message_filename E interface n path, pm_path = path, pm_query = query, pm_host = px_host f,
               pm_port = px_dest_port f, pm_method = px_method f, pm_request_length = len (px_raw_request f),
               pm_response_length = len (px_raw_response f), pm_status = rs_status r, pm_has_response = \<not> px_killed f\<rparr>]\<rparr>)"

text \<open>A flow without a response has no status code to log.\<close>

definition px_response :: "'h http_lib \<Rightarrow> px_env \<Rightarrow> decoders \<Rightarrow> px_state \<Rightarrow> 'h px_flow \<Rightarrow> px_state \<times> 'h px_flow \<times> unit res" where
  "px_response H E D s f =
     (if px_port f = port_proxy_commands then (s, f, Inr ())
      else (case fl_response (px_flow f) of
         None \<Rightarrow> (s, f, Inl Attribute_Error)
       | Some r0 \<Rightarrow>
           (case modify_response H s f of
              (s1, f1, Inl e) \<Rightarrow> (s1, f1, Inl e)
            | (s1, f1, Inr u) \<Rightarrow>
                (case (interface_of (px_port f), fl_response (px_flow f1)) of
                   (Some interface, Some r) \<Rightarrow> (record_message E D interface s1 f1 r, f1, Inr ())
                 | _ \<Rightarrow> (s1, f1, Inl Value_Error)))))"

end
