(* ===== verification/Proxy_Session.thy ===== *)
theory Proxy_Session
  imports Proxy_Core
begin

section \<open>Sessions of the proxy\<close>

text \<open>
  Flows that pass both hooks one after the other: what is recorded of them, under which names, and
  the way of a remote configuration from the test to the tracer.
\<close>

subsection \<open>Exchanges\<close>

text \<open>
  One exchange: the request hook, the answer of the server it is sent to (unless the hook has
  answered already; an exception of the hook is logged by mitmproxy and the flow goes on as it
  is), and the response hook.
\<close>

definition answered :: "'h http_response \<Rightarrow> 'h px_flow \<Rightarrow> 'h px_flow res \<Rightarrow> 'h px_flow" where
  "answered upstream f r =
     (let f' = (case r of Inl e \<Rightarrow> f | Inr g \<Rightarrow> g)
      in if fl_response (px_flow f') = None then answer upstream f' else f')"

definition px_exchange ::
  "'h http_lib \<Rightarrow> px_env \<Rightarrow> decoders \<Rightarrow> 'h http_response \<Rightarrow> px_state \<Rightarrow> 'h px_flow \<Rightarrow> px_state \<times> 'h px_flow \<times> unit res"
where
  "px_exchange H E D upstream s f =
     (let (s1, r) = px_request H E s f in px_response H E D s1 (answered upstream f r))"

definition px_session ::
  "'h http_lib \<Rightarrow> px_env \<Rightarrow> decoders \<Rightarrow> ('h http_response \<times> 'h px_flow) list \<Rightarrow> px_state \<Rightarrow> px_state" where
  "px_session H E D fs s = fold (\<lambda>(upstream, f) s. fst (px_exchange H E D upstream s f)) fs s"

lemma px_session_simps:
  "px_session H E D [] s = s"
  "px_session H E D (p # ps) s = px_session H E D ps (fst (px_exchange H E D (fst p) s (snd p)))"
  by (simp_all add: px_session_def split: prod.splits)

text \<open>What a mock keeps of itself when it is executed.\<close>

definition same_mock :: "mocked \<Rightarrow> mocked \<Rightarrow> bool" where
  "same_mock m m' \<longleftrightarrow> mock_path m' = mock_path m \<and> (case m of StaticJson p j st \<Rightarrow> m' = m | _ \<Rightarrow> True)"

lemma execute_same: "execute H m f = Inr (m', f') \<Longrightarrow> same_mock m m'"
  by (cases m) (auto simp: same_mock_def rbind_Inr_iff)

lemma same_mock_refl: "same_mock m m"
  by (cases m) (simp_all add: same_mock_def)

lemma apply_mocks_same: "apply_mocks H path ms f = (ms', f', r) \<Longrightarrow> list_all2 same_mock ms ms'"
proof (induction H path ms f arbitrary: ms' f' r rule: apply_mocks.induct)
  case (2 H path m ms f)
  then show ?case
    by (auto simp: same_mock_refl list_all2_same Let_def dest: execute_same split: if_splits sum.splits prod.splits)
qed simp

lemma apply_mocks_none: "list_all (\<lambda>m. mock_path m \<noteq> J_str path) ms \<Longrightarrow> apply_mocks H path ms f = (ms, f, Inr ())"
  by (induction ms) auto

definition same_mocks :: "px_state \<Rightarrow> px_state \<Rightarrow> bool" where
  "same_mocks s s' \<longleftrightarrow> list_all2 same_mock (ps_internal s) (ps_internal s') \<and> list_all2 same_mock (ps_mocks s) (ps_mocks s')"

lemma modify_response_keeps:
  assumes "modify_response H s f = (s', f', r)"
  shows "same_mocks s s'" "ps_counts s' = ps_counts s \<and> ps_messages s' = ps_messages s"
    "px_port f' = px_port f \<and> px_path f' = px_path f"
proof -
  obtain ms g r' where run: "apply_mocks H (px_path f) (ps_internal s @ ps_mocks s) (px_flow f) = (ms, g, r')"
    by (metis prod_cases3)
  from apply_mocks_same [OF run] have "list_all2 same_mock (ps_internal s) (take (length (ps_internal s)) ms)"
    "list_all2 same_mock (ps_mocks s) (drop (length (ps_internal s)) ms)"
    by (auto simp: list_all2_append1)
  then show "same_mocks s s'" using assms
    by (auto simp: modify_response_def run Let_def same_mocks_def list_all2_same same_mock_refl split: if_splits)
  show "ps_counts s' = ps_counts s \<and> ps_messages s' = ps_messages s" "px_port f' = px_port f \<and> px_path f' = px_path f"
    using assms by (auto simp: modify_response_def run Let_def split: if_splits)
qed

lemma px_request_keeps:
  assumes "px_request H E s f = (s', r)"
  shows "ps_counts s' = ps_counts s \<and> ps_messages s' = ps_messages s" "px_port f \<noteq> port_proxy_commands \<Longrightarrow> s' = s"
    "r = Inr f' \<Longrightarrow> px_port f' = px_port f \<and> px_path f' = px_path f"
  using assms
  by (auto simp: px_request_def store_mocked_tracer_responses_def otlp_route_def route_to_def answer_def Let_def
    split: if_splits sum.splits prod.splits)

lemma answered_keeps:
  assumes "px_request H E s f = (s1, r)"
  shows "px_port (answered upstream f r) = px_port f" "px_path (answered upstream f r) = px_path f"
    "\<exists>x. fl_response (px_flow (answered upstream f r)) = Some x"
proof -
  define g where "g = (case r of Inl e \<Rightarrow> f | Inr g \<Rightarrow> g)"
  have g: "px_port g = px_port f \<and> px_path g = px_path f"
  proof (cases r)
    case (Inr h)
    then show ?thesis using px_request_keeps(3) [OF assms Inr] by (simp add: g_def)
  qed (simp add: g_def)
  have "answered upstream f r = (if fl_response (px_flow g) = None then answer upstream g else g)"
    by (simp only: answered_def g_def Let_def)
  with g show "px_port (answered upstream f r) = px_port f" "px_path (answered upstream f r) = px_path f"
    "\<exists>x. fl_response (px_flow (answered upstream f r)) = Some x"
    by (auto simp: answer_def with_response_def)
qed

subsection \<open>What an exchange records\<close>

definition message_path :: "string \<Rightarrow> string" where "message_path path = fst (partition_once (CHR ''?'') path)"

lemma record_message_effect:
  "\<exists>x. ps_messages (record_message E D i s f r) = ps_messages s @ [x] \<and>
     ps_counts (record_message E D i s f r) = dset i (count_of (ps_counts s) i + 1) (ps_counts s) \<and>
     pm_log_filename x = message_filename E i (count_of (ps_counts s) i) (pm_path x) \<and> pm_path x = message_path (px_path f)"
  by (simp add: record_message_def message_path_def Let_def split: prod.split)

lemma record_message_mocks:
  "ps_mocks (record_message E D i s f r) = ps_mocks s" "ps_internal (record_message E D i s f r) = ps_internal s"
  by (simp_all add: record_message_def Let_def split: prod.split)

text \<open>One message under the next number of its interface, or none.\<close>

definition recorded :: "px_env \<Rightarrow> string \<Rightarrow> string \<Rightarrow> px_state \<Rightarrow> px_state \<Rightarrow> bool" where
  "recorded E i path s s' \<longleftrightarrow>
     (\<exists>x. ps_messages s' = ps_messages s @ [x] \<and> ps_counts s' = dset i (count_of (ps_counts s) i + 1) (ps_counts s) \<and>
        pm_log_filename x = message_filename E i (count_of (ps_counts s) i) (pm_path x) \<and> pm_path x = message_path path)"

lemma px_response_effect:
  assumes "px_response H E D s f = (s', f', r)"
  shows "(ps_counts s' = ps_counts s \<and> ps_messages s' = ps_messages s) \<or>
    (\<exists>i. interface_of (px_port f) = Some i \<and> recorded E i (px_path f) s s')"
proof (cases "modify_response H s f")
  case (fields s1 f1 r1)
  note k = modify_response_keeps [OF fields]
  show ?thesis using assms k record_message_effect [of E D _ s1 f1]
    by (auto simp: px_response_def fields recorded_def split: if_splits option.splits sum.splits)
qed

lemma px_exchange_effect:
  "(let s' = fst (px_exchange H E D upstream s f) in
     (ps_counts s' = ps_counts s \<and> ps_messages s' = ps_messages s) \<or>
     (\<exists>i. interface_of (px_port f) = Some i \<and> recorded E i (px_path f) s s'))"
proof -
  obtain s1 r where req: "px_request H E s f = (s1, r)" by force
  define g where "g = answered upstream f r"
  note g = answered_keeps [OF req, of upstream, folded g_def]
  obtain s2 f3 r2 where resp: "px_response H E D s1 g = (s2, f3, r2)" by (metis prod_cases3)
  have s2: "fst (px_exchange H E D upstream s f) = s2"
    by (simp add: px_exchange_def req g_def [symmetric] resp)
  show ?thesis
    using px_response_effect [OF resp] px_request_keeps(1) [OF req] unfolding s2 Let_def recorded_def g(1,2) by simp
qed

lemma interface_no_slash: "interface_of p = Some i \<Longrightarrow> CHR ''/'' \<notin> set i"
  by (auto simp: interface_of_def split: if_splits)

lemma message_filename_inj:
  assumes "message_filename E i n p = message_filename E j m q" and "CHR ''/'' \<notin> set i" and "CHR ''/'' \<notin> set j"
  shows "i = j \<and> n = m"
proof -
  have front: "takeWhile (\<lambda>c. c \<noteq> CHR ''/'') (k @ CHR ''/'' # x) = k" if "CHR ''/'' \<notin> set k" for k x
    using that by (subst takeWhile_append2) auto
  obtain x y where eq: "i @ CHR ''/'' # zero_padded 5 n @ CHR ''_'' # x = j @ CHR ''/'' # zero_padded 5 m @ CHR ''_'' # y"
    using assms(1) by (auto simp: message_filename_def)
  have "i = j" using front [OF assms(2)] front [OF assms(3)] eq by metis
  with eq show ?thesis by (auto dest: padded_prefix)
qed

text \<open>The messages have the keys of an injective numbering: interfaces with numbers below their counts.\<close>

definition filed :: "px_env \<Rightarrow> px_state \<Rightarrow> bool" where
  "filed E s \<longleftrightarrow> (\<exists>ks. distinct ks \<and>
     (\<forall>(i, n) \<in> set ks. CHR ''/'' \<notin> set i \<and> n < count_of (ps_counts s) i) \<and>
     list_all2 (\<lambda>(i, n) x. pm_log_filename x = message_filename E i n (pm_path x)) ks (ps_messages s))"

lemma filed_step:
  assumes "filed E s"
  shows "filed E (fst (px_exchange H E D upstream s f))"
proof -
  let ?s = "fst (px_exchange H E D upstream s f)"
  obtain ks where ks: "distinct ks" "\<forall>(i, n) \<in> set ks. CHR ''/'' \<notin> set i \<and> n < count_of (ps_counts s) i"
    "list_all2 (\<lambda>(i, n) x. pm_log_filename x = message_filename E i n (pm_path x)) ks (ps_messages s)"
    using assms unfolding filed_def by blast
  consider "ps_counts ?s = ps_counts s" "ps_messages ?s = ps_messages s"
    | i where "interface_of (px_port f) = Some i" "recorded E i (px_path f) s ?s"
    using px_exchange_effect [of H E D upstream s f] by (auto simp: Let_def)
  then show ?thesis
  proof cases
    case 1
    then show ?thesis using ks unfolding filed_def by (intro exI [of _ ks]) simp
  next
    case 2
    then obtain x where x: "ps_messages ?s = ps_messages s @ [x]"
      "ps_counts ?s = dset i (count_of (ps_counts s) i + 1) (ps_counts s)"
      "pm_log_filename x = message_filename E i (count_of (ps_counts s) i) (pm_path x)"
      by (auto simp: recorded_def)
    let ?k = "(i, count_of (ps_counts s) i)"
    have count: "count_of (ps_counts ?s) j = (if j = i then count_of (ps_counts s) i + 1 else count_of (ps_counts s) j)" for j
      by (simp add: x(2) count_of_def)
    have "distinct (ks @ [?k])" using ks(1,2) by auto
    moreover have "CHR ''/'' \<notin> set j \<and> n < count_of (ps_counts ?s) j" if k: "(j, n) \<in> set (ks @ [?k])" for j n
      using k bspec [OF ks(2), of "(j, n)"] interface_no_slash [OF 2(1)] by (auto simp: count)
    moreover have "list_all2 (\<lambda>(i, n) x. pm_log_filename x = message_filename E i n (pm_path x)) (ks @ [?k]) (ps_messages ?s)"
      using ks(3) x(3) by (auto simp: x(1) intro: list_all2_appendI)
    ultimately show ?thesis unfolding filed_def by (intro exI [of _ "ks @ [?k]"]) auto
  qed
qed

lemma filed_session: "filed E s \<Longrightarrow> filed E (px_session H E D fs s)"
  by (induction fs arbitrary: s) (simp_all add: px_session_simps filed_step)

lemma filed_distinct:
  "list_all2 (\<lambda>(i, n) x. pm_log_filename x = message_filename E i n (pm_path x)) ks xs \<Longrightarrow> distinct ks \<Longrightarrow>
     (\<forall>(i, n) \<in> set ks. CHR ''/'' \<notin> set i) \<Longrightarrow> distinct (map pm_log_filename xs)"
proof (induction xs arbitrary: ks)
  case (Cons x xs)
  let ?P = "\<lambda>(i, n) x. pm_log_filename x = message_filename E i n (pm_path x)"
  obtain k ls where k: "ks = k # ls" "?P k x" "list_all2 ?P ls xs" using Cons.prems(1) by (auto simp: list_all2_Cons2)
  have "pm_log_filename x \<noteq> pm_log_filename y" if y: "y \<in> set xs" for y
  proof -
    obtain l where l: "l \<in> set ls" "?P l y" using list_all2_partner [OF k(3) y] by blast
    obtain i n j m where split: "k = (i, n)" "l = (j, m)" by force
    have "(i, n) \<noteq> (j, m)" using Cons.prems(2) k(1) l(1) by (auto simp: split)
    moreover have "CHR ''/'' \<notin> set i" "CHR ''/'' \<notin> set j"
      using bspec [OF Cons.prems(3), of k] bspec [OF Cons.prems(3), of l] k(1) l(1) by (simp_all add: split)
    ultimately show ?thesis using l(2) k(2) message_filename_inj [of E i n "pm_path x" j m "pm_path y"] by (auto simp: split)
  qed
  moreover have "distinct (map pm_log_filename xs)" using Cons.IH [OF k(3)] Cons.prems(2,3) k(1) by simp
  ultimately show ?case by auto
qed simp

text \<open>C12.  Whatever passes the proxy in a session, exceptions in its hooks included, no message
  overwrites the file of another: every recorded message has a file of its own.\<close>

theorem exchanges_have_own_files:
  assumes "ps_counts s0 = []" and "ps_messages s0 = []"
  shows "distinct (map pm_log_filename (ps_messages (px_session H E D fs s0)))"
proof -
  have "filed E (px_session H E D fs s0)"
    by (rule filed_session) (auto simp: filed_def assms)
  then show ?thesis unfolding filed_def by (blast intro: filed_distinct)
qed

subsection \<open>Every exchange is recorded\<close>

definition unmocked :: "px_state \<Rightarrow> 'h px_flow \<Rightarrow> bool" where
  "unmocked s f \<longleftrightarrow> list_all (\<lambda>m. mock_path m \<noteq> J_str (px_path f)) (ps_internal s @ ps_mocks s)"

lemma unmocked_modify: "unmocked s f \<Longrightarrow> modify_response H s f = (s, f, Inr ())"
  by (simp add: unmocked_def modify_response_def apply_mocks_none Let_def)

lemma no_interface: "interface_of port_proxy_commands = None"
  by (simp add: interface_of_def port_defs)

lemma listening_interface: "p \<in> set listening_ports \<Longrightarrow> p \<noteq> port_proxy_commands \<Longrightarrow> \<exists>i. interface_of p = Some i"
  by (auto simp: listening_ports_def interface_of_def)

lemma exchange_unmocked:
  fixes H :: "'h http_lib" and E :: px_env and D :: decoders and upstream :: "'h http_response"
  assumes "interface_of (px_port f) = Some i" and "unmocked s f"
  defines "s' \<equiv> fst (px_exchange H E D upstream s f)"
  shows "recorded E i (px_path f) s s' \<and> ps_mocks s' = ps_mocks s \<and> ps_internal s' = ps_internal s"
proof -
  have port: "px_port f \<noteq> port_proxy_commands" using assms(1) no_interface by auto
  obtain s1 x where req: "px_request H E s f = (s1, x)" by force
  have s1: "s1 = s" using px_request_keeps(2) [OF req port] .
  define g where "g = answered upstream f x"
  note g = answered_keeps [OF req, of upstream, folded g_def]
  obtain r where r: "fl_response (px_flow g) = Some r" using g(3) by blast
  have "unmocked s g" using assms(2) by (simp add: unmocked_def g(2))
  then have "s' = record_message E D i s g r"
    using assms(1) port r by (simp add: s'_def px_exchange_def req s1 g_def [symmetric] px_response_def g(1) unmocked_modify)
  then show ?thesis
    using record_message_effect [of E D i s g r] by (simp add: recorded_def record_message_mocks g(2))
qed

definition nth_of_interface :: "('h http_response \<times> 'h px_flow) list \<Rightarrow> nat \<Rightarrow> string \<Rightarrow> nat" where
  "nth_of_interface fs k i = length (filter (\<lambda>(u, g). interface_of (px_port g) = Some i) (take k fs))"

lemma session_unmocked:
  "list_all (\<lambda>(u, f). \<exists>i. interface_of (px_port f) = Some i) fs \<Longrightarrow> list_all (\<lambda>(u, f). unmocked s f) fs \<Longrightarrow>
     \<exists>ms. ps_messages (px_session H E D fs s) = ps_messages s @ ms \<and> length ms = length fs \<and>
       (\<forall>k < length fs. \<forall>i. interface_of (px_port (snd (fs ! k))) = Some i \<longrightarrow>
          pm_log_filename (ms ! k) = message_filename E i (count_of (ps_counts s) i + nth_of_interface fs k i)
            (message_path (px_path (snd (fs ! k)))))"
proof (induction fs arbitrary: s)
  case (Cons p fs)
  obtain u f where p: "p = (u, f)" by force
  obtain i where i: "interface_of (px_port f) = Some i" using Cons.prems(1) p by auto
  let ?s = "fst (px_exchange H E D u s f)"
  have step: "recorded E i (px_path f) s ?s" "ps_mocks ?s = ps_mocks s" "ps_internal ?s = ps_internal s"
    using exchange_unmocked [OF i] Cons.prems(2) p by auto
  then obtain x where x: "ps_messages ?s = ps_messages s @ [x]"
    "ps_counts ?s = dset i (count_of (ps_counts s) i + 1) (ps_counts s)"
    "pm_log_filename x = message_filename E i (count_of (ps_counts s) i) (message_path (px_path f))"
    by (auto simp: recorded_def)
  have count: "count_of (ps_counts ?s) j = count_of (ps_counts s) j + (if j = i then 1 else 0)" for j
    by (simp add: x(2) count_of_def)
  have "list_all (\<lambda>(u, f). unmocked ?s f) fs" using Cons.prems(2) by (simp add: unmocked_def step)
  moreover have "list_all (\<lambda>(u, f). \<exists>i. interface_of (px_port f) = Some i) fs" using Cons.prems(1) by simp
  ultimately obtain ms where ms: "ps_messages (px_session H E D fs ?s) = ps_messages ?s @ ms" "length ms = length fs"
    and each: "\<And>k j. k < length fs \<Longrightarrow> interface_of (px_port (snd (fs ! k))) = Some j \<Longrightarrow>
      pm_log_filename (ms ! k) = message_filename E j (count_of (ps_counts ?s) j + nth_of_interface fs k j)
        (message_path (px_path (snd (fs ! k))))"
    using Cons.IH [of ?s] by blast
  have "pm_log_filename ((x # ms) ! k) = message_filename E j (count_of (ps_counts s) j + nth_of_interface (p # fs) k j)
      (message_path (px_path (snd ((p # fs) ! k))))"
    if k: "k < length (p # fs)" "interface_of (px_port (snd ((p # fs) ! k))) = Some j" for k j
  proof (cases k)
    case 0
    then show ?thesis using k(2) i x(3) by (simp add: nth_of_interface_def p)
  next
    case (Suc n)
    have "nth_of_interface (p # fs) (Suc n) j = nth_of_interface fs n j + (if j = i then 1 else 0)"
      by (simp add: nth_of_interface_def p i)
    then show ?thesis using each [of n j] k Suc by (simp add: count)
  qed
  moreover have "ps_messages (px_session H E D (p # fs) s) = ps_messages s @ x # ms"
    using ms(1) x(1) by (simp add: px_session_simps p)
  ultimately show ?case using ms(2) by (intro exI [of _ "x # ms"]) auto
qed (simp add: px_session_simps)


subsection \<open>From the test to the tracer\<close>

text \<open>The mock is the only one the test has set, and no mock of the scenario is in its way.\<close>

definition delivers :: "mocked \<Rightarrow> px_state \<Rightarrow> bool" where
  "delivers m s \<longleftrightarrow> ps_mocks s = [m] \<and> list_all (\<lambda>i. mock_path i \<noteq> J_str rc_path) (ps_internal s)"

lemma same_mock_paths: "list_all2 same_mock ms ms' \<Longrightarrow> map mock_path ms' = map mock_path ms"
  by (induction rule: list_all2_induct) (auto simp: same_mock_def)

lemma same_mocks_delivers:
  assumes "same_mocks s s'" and "delivers (StaticJson p j st) s"
  shows "delivers (StaticJson p j st) s'"
proof -
  have "list_all (\<lambda>x. x \<noteq> J_str rc_path) (map mock_path (ps_internal s'))"
    using assms same_mock_paths [of "ps_internal s" "ps_internal s'"]
    by (simp add: same_mocks_def delivers_def list_all_iff)
  then show ?thesis using assms by (auto simp: delivers_def same_mocks_def list_all2_Cons1 same_mock_def list_all_iff)
qed

lemma exchange_same_mocks:
  assumes "px_port f \<noteq> port_proxy_commands"
  shows "same_mocks s (fst (px_exchange H E D upstream s f))"
proof -
  obtain s1 x where req: "px_request H E s f = (s1, x)" by force
  have s1: "s1 = s" using px_request_keeps(2) [OF req assms] .
  define g where "g = answered upstream f x"
  have refl: "same_mocks s s" by (simp add: same_mocks_def list_all2_same same_mock_refl)
  obtain s2 g2 r2 where m: "modify_response H s g = (s2, g2, r2)" by (metis prod_cases3)
  have "same_mocks s (fst (px_response H E D s g))"
    using modify_response_keeps(1) [OF m] refl
    by (auto simp: px_response_def m same_mocks_def record_message_mocks split: option.split sum.split)
  then show ?thesis by (simp add: px_exchange_def req s1 g_def)
qed

lemma session_delivers:
  "delivers (StaticJson p j st) s \<Longrightarrow> list_all (\<lambda>(u, f). px_port f \<noteq> port_proxy_commands) fs \<Longrightarrow>
     delivers (StaticJson p j st) (px_session H E D fs s)"
proof (induction fs arbitrary: s)
  case (Cons q fs)
  obtain u f where q: "q = (u, f)" by force
  have "delivers (StaticJson p j st) (fst (px_exchange H E D u s f))"
    using Cons.prems q by (intro same_mocks_delivers [OF exchange_same_mocks]) simp_all
  with Cons q show ?case by (simp add: px_session_simps)
qed (simp add: px_session_simps)

lemma put_mock:
  assumes "px_port put = port_proxy_commands" and "px_path put = mocked_tracer_responses_path" and "px_method put = ''PUT''"
    and "fl_request (px_flow put) = B_json (J_list [J_obj (to_json (StaticJson p j st))])"
  shows "fst (px_exchange H E D upstream s put) = s\<lparr>ps_mocks := [StaticJson p j st]\<rparr>"
proof -
  have "from_dicts Tracer_factory [to_json (StaticJson p j st)] = Inr [StaticJson p j st]"
    using mocked_roundtrip [of "StaticJson p j st"] by (simp add: from_dicts_def factory_of_def)
  then obtain g where req: "px_request H E s put = (s\<lparr>ps_mocks := [StaticJson p j st]\<rparr>, Inr g)"
    using assms by (simp add: px_request_def store_mocked_tracer_responses_def)
  show ?thesis
    using answered_keeps(1) [OF req, of upstream] assms(1) by (simp add: px_exchange_def req px_response_def)
qed

lemma gate_all_subscribed:
  assumes "rc_response m configs targets" and "j_path [''client'', ''products''] c = Inr (J_list products)"
    and "list_all j_hashable products" and "list_all (subscribed products) configs"
  shows "gate_rc_response_by_products (J_obj m) c = Inr (J_obj m)"
proof -
  have "rfilter (\<lambda>path. rbind (j_as_str path) (\<lambda>s. rbind (product_of s) (\<lambda>p. Inr (J_str p \<in> set products)))) configs
      = Inr (filter (subscribed products) configs)"
  proof (rule rfilter_total)
    fix x assume "x \<in> set configs"
    with assms(1) obtain s where "x = J_str s" "3 \<le> length (str_split ''/'' s)" by (auto simp: rc_response_def)
    then show "rbind (j_as_str x) (\<lambda>s. rbind (product_of s) (\<lambda>p. Inr (J_str p \<in> set products))) = Inr (subscribed products x)"
      by (simp add: product_of_def subscribed_def product_def Let_def)
  qed
  moreover have "filter (subscribed products) configs = configs" using assms(4) by (simp add: list_all_iff filter_id_conv)
  ultimately show ?thesis
    using assms(1-3) by (simp add: gate_rc_response_by_products_def rc_response_def gate_configs_def del: j_path.simps)
qed

lemma apply_mocks_append:
  "list_all (\<lambda>m. mock_path m \<noteq> J_str path) ms \<Longrightarrow>
     apply_mocks H path (ms @ ns) f = (let (ns', f', r) = apply_mocks H path ns f in (ms @ ns', f', r))"
  by (induction ms) (auto split: prod.split)

text \<open>C9.  A remote configuration that \<open>send_state\<close> sends to the tracer reaches it: after the mock has been
  put to the command port, and whatever passes the proxy in between, a poll on \<open>/v0.7/config\<close> of a
  tracer that has subscribed to the products gets exactly the payload with status 200, whatever
  the agent has answered -- where the proxy sends the tracers to the host \<open>agent\<close>.\<close>

theorem tracer_delivers_payload:
  assumes "mock_for C env (J_obj payload) ''tracer'' = Inr m"
    and "list_all (\<lambda>i. mock_path i \<noteq> J_str rc_path) (ps_internal s0)"
    and "px_port put = port_proxy_commands" and "px_path put = mocked_tracer_responses_path" and "px_method put = ''PUT''"
    and "fl_request (px_flow put) = B_json (J_list [J_obj (to_json m)])"
    and "list_all (\<lambda>(u, f). px_port f \<noteq> port_proxy_commands) between"
    and "px_port ask \<in> set agent_ports" and "px_path ask = rc_path" and "fl_response (px_flow ask) = None"
    and "pv_target_host E = ''agent''"
    and "rc_response payload configs targets" and "fl_request (px_flow ask) = B_json (J_obj c)"
    and "j_path [''client'', ''products''] (J_obj c) = Inr (J_list products)"
    and "list_all j_hashable products" and "list_all (subscribed products) configs"
  shows "\<exists>f' r. snd (px_exchange H E D agents (px_session H E D between (fst (px_exchange H E D nothing s0 put))) ask) = (f', Inr ()) \<and>
    fl_response (px_flow f') = Some r \<and> rs_body r = B_json (J_obj payload) \<and> rs_status r = J_int 200"
proof -
  have m: "m = StaticJson (J_str rc_path) (J_obj payload) (J_int 200)"
    using assms(1) by (auto simp: mock_for_def rc_path_def split: if_splits)
  define s where "s = px_session H E D between (fst (px_exchange H E D nothing s0 put))"
  have "delivers m s"
    unfolding s_def m using assms(2) put_mock [OF assms(3-5)] assms(6)
    by (intro session_delivers assms(7)) (simp add: m delivers_def)
  then have mocks: "ps_mocks s = [m]" "list_all (\<lambda>i. mock_path i \<noteq> J_str rc_path) (ps_internal s)" by (simp_all add: delivers_def)
  have ports: "px_port ask \<noteq> port_proxy_commands" "px_port ask \<noteq> port_open_telemetry_weblog" "px_port ask \<noteq> port_otel_collector"
    "\<exists>i. interface_of (px_port ask) = Some i"
    using assms(8) by (auto simp: agent_ports_def port_defs interface_of_def)
  define g where "g = answer agents (route_to ''agent'' (pv_target_port E) ''http'' ask)"
  have g: "px_path g = rc_path" "px_host g = ''agent''" "px_port g = px_port ask" "fl_response (px_flow g) = Some agents"
    "fl_request (px_flow g) = B_json (J_obj c)"
    using assms(9,13) by (simp_all add: g_def answer_def route_to_def with_response_def)
  have req: "px_request H E s ask = (s, Inr (route_to ''agent'' (pv_target_port E) ''http'' ask))"
    using ports(1-3) assms(8,11) by (simp add: px_request_def)
  have answered: "answered agents ask (Inr (route_to ''agent'' (pv_target_port E) ''http'' ask)) = g"
    using assms(10) by (simp add: answered_def g_def route_to_def)
  define h where "h = fold (\<lambda>(k, v) h. set_header H k v h) [(''Content-Type'', J_str ''application/json'')] (rs_headers agents)"
  have "execute H m (px_flow g) =
      Inr (m, with_response (px_flow g) \<lparr>rs_status = J_int 200, rs_headers = h, rs_body = B_json (J_obj payload)\<rparr>)"
    using g(4,5) gate_all_subscribed [OF assms(12,14-16)]
    by (cases agents) (simp add: m static_execute_def base_execute_def apply_headers_def json_content_type_def h_def)
  then have "\<exists>s1 g1. modify_response H s g = (s1, g1, Inr ()) \<and> px_port g1 = px_port ask \<and>
      fl_response (px_flow g1) = Some \<lparr>rs_status = J_int 200, rs_headers = h, rs_body = B_json (J_obj payload)\<rparr>"
    using g(1-3) mocks by (simp add: modify_response_def request_is_from_tracer_def apply_mocks_append m with_response_def Let_def)
  then obtain s1 g1 where mod: "modify_response H s g = (s1, g1, Inr ())" "px_port g1 = px_port ask"
    "fl_response (px_flow g1) = Some \<lparr>rs_status = J_int 200, rs_headers = h, rs_body = B_json (J_obj payload)\<rparr>" by blast
  have "snd (px_exchange H E D agents s ask) = (g1, Inr ())"
    using ports(1,4) g(3,4) mod by (auto simp: px_exchange_def req answered px_response_def)
  with mod(3) show ?thesis unfolding s_def [symmetric] by simp
qed

subsection \<open>A small session\<close>

definition px_sample_env :: px_env where
  "px_sample_env = \<lparr>pv_log_folder = ''logs'', pv_target_host = ''agent'', pv_target_port = 8127, pv_dd_site = ''datad0g.com''\<rparr>"

definition px_sample_decoders :: decoders where
  "px_sample_decoders = \<lparr>dc_content = rw_raw, dc_zstd = \<lambda>b. None\<rparr>"

definition px_start :: px_state where
  "px_start = \<lparr>ps_mocks = [], ps_internal = [AddRemoteConfigEndpoint], ps_counts = [], ps_messages = []\<rparr>"

definition px_sample :: "int \<Rightarrow> string \<Rightarrow> string \<Rightarrow> body \<Rightarrow> (string \<times> json) list px_flow" where
  "px_sample port method path request =
     \<lparr>px_port = port, px_method = method, px_path = path, px_host = ''localhost'', px_dest_port = port, px_scheme = ''http'',
      px_otlp_path = None, px_flow = \<lparr>fl_request = request, fl_response = None\<rparr>,
      px_raw_request = \<lparr>rw_encoding = [], rw_raw = None\<rparr>, px_raw_response = \<lparr>rw_encoding = [], rw_raw = None\<rparr>,
      px_killed = False\<rparr>"

definition px_reply :: "(string \<times> json) list http_response" where
  "px_reply = \<lparr>rs_status = J_int 404, rs_headers = [], rs_body = B_none\<rparr>"

definition px_sample_flows :: "((string \<times> json) list http_response \<times> (string \<times> json) list px_flow) list" where
  "px_sample_flows = [(px_reply, px_sample 8126 ''GET'' ''/a/b?q=1'' B_none), (px_reply, px_sample 8127 ''POST'' ''/v1/traces'' B_none),
     (px_reply, px_sample 9001 ''GET'' ''/a'' B_none), (px_reply, px_sample 8126 ''GET'' ''/a/b'' B_none)]"

theorem exchanges_have_own_files_witness:
  "distinct (map pm_log_filename (ps_messages (px_session sample_http px_sample_env px_sample_decoders px_sample_flows px_start)))"
  by (rule exchanges_have_own_files) (simp_all add: px_start_def)


definition px_payload :: jobj where
  "px_payload = [(''client_configs'', J_list [J_str ''datadog/2/ASM/a/b'']), (''target_files'', J_list [])]"

theorem tracer_delivers_payload_witness:
  "\<exists>f' r. snd (px_exchange sample_http px_sample_env px_sample_decoders px_reply
      (px_session sample_http px_sample_env px_sample_decoders px_sample_flows
        (fst (px_exchange sample_http px_sample_env px_sample_decoders px_reply px_start
          (px_sample 11111 ''PUT'' mocked_tracer_responses_path
            (B_json (J_list [J_obj (to_json (StaticJson (J_str rc_path) (J_obj px_payload) (J_int 200)))]))))))
      (px_sample 8126 ''POST'' rc_path (B_json (sample_content ''r'')))) = (f', Inr ()) \<and>
    fl_response (px_flow f') = Some r \<and> rs_body r = B_json (J_obj px_payload) \<and> rs_status r = J_int 200"
proof -
  have split: "str_split ''/'' ''datadog/2/ASM/a/b'' = [''datadog'', ''2'', ''ASM'', ''a'', ''b'']" by code_simp
  let ?configs = "[J_str ''datadog/2/ASM/a/b'']"
  have mock: "mock_for waiting_codec waiting_env (J_obj px_payload) ''tracer'' =
      Inr (StaticJson (J_str rc_path) (J_obj px_payload) (J_int 200))"
    by (simp add: mock_for_def waiting_env_def rc_path_def)
  have payload: "rc_response px_payload ?configs []" by (simp add: rc_response_def px_payload_def split)
  obtain c where c: "sample_content ''r'' = J_obj c" by (simp add: sample_content_def)
  have products: "j_path [''client'', ''products''] (J_obj c) = Inr (J_list [J_str ''ASM''])"
    unfolding c [symmetric] by (simp add: sample_content_def dgetitem_def)
  have "list_all (subscribed [J_str ''ASM'']) ?configs" by (simp add: subscribed_def product_def split)
  note rule = tracer_delivers_payload [OF mock _ _ _ _ _ _ _ _ _ _ payload _ products _ this]
  show ?thesis unfolding c
    by (rule rule) (simp_all add: px_start_def px_sample_def port_defs px_sample_flows_def agent_ports_def px_sample_env_def rc_path_def)
qed

end
