(* ===== verification/Span_Link.thy ===== *)
theory Span_Link
  imports Py_Json "HOL-Library.Word"
begin

unbundle bit_operations_syntax

section \<open>Span links (utils/dd\_types/\_datadog\_span\_link.py)\<close>

text \<open>
  A link to another span, built from each of the formats in which tracers and agents write it.  A
  trace id has 128 bits: it is written as one hexadecimal text, as a number, or as two numbers.
\<close>

definition hex_char :: "nat \<Rightarrow> char" where
  "hex_char d = ''0123456789abcdef'' ! d"

fun hex_digits :: "nat \<Rightarrow> string" where
  "hex_digits n = (if n < 16 then [hex_char n] else hex_digits (n div 16) @ [hex_char (n mod 16)])"

declare hex_digits.simps [simp del]

text \<open>\<open>hex\<close>, \<open>int\<close> of one argument and \<open>int(x, base=16)\<close>.\<close>

definition int_hex :: "int \<Rightarrow> string" where
  "int_hex n = (if n < 0 then ''-0x'' @ hex_digits (nat (- n)) else ''0x'' @ hex_digits (nat n))"

definition int_of_dec :: "int \<Rightarrow> int \<Rightarrow> int" where
  "int_of_dec m e = (if e \<ge> 0 then m * 10 ^ nat e else sgn m * (\<bar>m\<bar> div 10 ^ nat (- e)))"

fun j_to_int :: "json \<Rightarrow> int res" where
  "j_to_int (J_int n) = Inr n"
| "j_to_int (J_bool b) = Inr (if b then 1 else 0)"
| "j_to_int (J_dec m e) = Inr (int_of_dec m e)"
| "j_to_int (J_str s) = py_int 10 s"
| "j_to_int j = Inl Type_Error"

fun j_hex :: "json \<Rightarrow> int res" where
  "j_hex (J_str s) = py_int 16 s"
| "j_hex j = Inl Type_Error"

definition low64 :: "int \<Rightarrow> int" where "low64 n = take_bit 64 n"

definition high64 :: "int \<Rightarrow> int" where "high64 n = take_bit 64 (drop_bit 64 n)"

subsection \<open>A link\<close>

record span_link =
  sl_data :: json
  sl_trace_id :: json
  sl_trace_id_low :: int
  sl_trace_id_high :: json
  sl_attributes :: json
  sl_trace_state :: json
  sl_flags :: int
  sl_span_id :: int

definition link_flags_set :: int where "link_flags_set = push_bit 31 1"

definition link_flags :: "json \<Rightarrow> int res" where
  "link_flags data =
     rbind (j_contains ''flags'' data) (\<lambda>given.
       if \<not> given then Inr 0
       else rbind (j_item ''flags'' data) (\<lambda>flags.
         case flags of J_int n \<Rightarrow> Inr (n OR link_flags_set)
         | J_bool b \<Rightarrow> Inr ((if b then 1 else 0) OR link_flags_set)
         | _ \<Rightarrow> Inl Type_Error))"

definition link_span_id :: "json \<Rightarrow> int res" where
  "link_span_id data =
     rbind (j_contains ''span_id'' data) (\<lambda>hexadecimal.
       if hexadecimal then rbind (j_item ''span_id'' data) (\<lambda>v.
         case v of J_int n \<Rightarrow> Inr n | J_bool b \<Rightarrow> Inr (if b then 1 else 0) | _ \<Rightarrow> j_hex v)
       else rbind (j_contains ''spanID'' data) (\<lambda>decimal.
         if decimal then rbind (j_item ''spanID'' data) j_to_int else Inl Value_Error))"

definition make_link :: "json \<Rightarrow> json \<Rightarrow> int \<Rightarrow> json \<Rightarrow> span_link res" where
  "make_link data trace_id trace_id_low trace_id_high =
     rbind (j_get ''attributes'' data) (\<lambda>attributes.
     rbind (j_get ''trace_state'' data) (\<lambda>other.
     rbind (j_get_or ''tracestate'' other data) (\<lambda>trace_state.
     rbind (link_flags data) (\<lambda>flags.
     rbind (link_span_id data) (\<lambda>span_id.
       Inr \<lparr>sl_data = data, sl_trace_id = trace_id, sl_trace_id_low = trace_id_low, sl_trace_id_high = trace_id_high,
         sl_attributes = attributes, sl_trace_state = trace_state, sl_flags = flags, sl_span_id = span_id\<rparr>)))))"

subsection \<open>The formats\<close>

definition from_agent_span_links :: "json \<Rightarrow> span_link res" where
  "from_agent_span_links data =
     rbind (j_item ''traceID'' data) (\<lambda>trace_id.
     rbind (rbind (j_item ''traceIDHigh'' data) j_to_int) (\<lambda>high.
     rbind (j_to_int trace_id) (\<lambda>low. make_link data trace_id low (J_int high))))"

definition from_agent_efficient_format :: "json \<Rightarrow> span_link res" where
  "from_agent_efficient_format data =
     rbind (j_item ''traceID'' data) (\<lambda>trace_id.
     rbind (j_hex trace_id) (\<lambda>n. make_link data trace_id (low64 n) (J_int (high64 n))))"

text \<open>The number of a trace id is written in hexadecimal, as Java does.\<close>

definition java_style :: "json \<Rightarrow> json" where
  "java_style j = (case j of J_int n \<Rightarrow> J_str (int_hex n) | J_bool b \<Rightarrow> J_str (int_hex (if b then 1 else 0)) | _ \<Rightarrow> j)"

text \<open>The upper half of a trace id that is not given separately.\<close>

definition library_high :: "json \<Rightarrow> json \<Rightarrow> json res" where
  "library_high data trace_id =
     rbind (j_contains ''trace_id_high'' data) (\<lambda>given.
       if given then j_item ''trace_id_high'' data
       else rbind (j_as_str trace_id) (\<lambda>s.
         rbind (rassert (startswith s ''0x'') Assertion_Error) (\<lambda>_.
         rbind (rassert (length s > 18) Assertion_Error) (\<lambda>_.
         rbind (py_int 16 (take 16 (drop 2 s))) (\<lambda>n. Inr (J_int n))))))"

definition from_library_v1_span_links :: "json \<Rightarrow> span_link res" where
  "from_library_v1_span_links data =
     rbind (j_item ''trace_id'' data) (\<lambda>v. let trace_id = java_style v in
     rbind (library_high data trace_id) (\<lambda>high.
     rbind (j_hex trace_id) (\<lambda>n. make_link data trace_id (low64 n) high)))"

definition from_library_v1_attributes :: "json \<Rightarrow> span_link res" where
  "from_library_v1_attributes data =
     rbind (j_item ''trace_id'' data) (\<lambda>trace_id.
     rbind (rassert (case trace_id of J_str s \<Rightarrow> True | _ \<Rightarrow> False) Assertion_Error) (\<lambda>_.
     rbind (library_high data trace_id) (\<lambda>high.
     rbind (j_hex trace_id) (\<lambda>n. make_link data trace_id (low64 n) high))))"

text \<open>\<open>s[:16]\<close> and \<open>s[-16:]\<close>.\<close>

definition first16 :: "string \<Rightarrow> string" where "first16 s = take 16 s"

definition last16 :: "string \<Rightarrow> string" where "last16 s = drop (length s - 16) s"

definition from_agent_legacy_format :: "json \<Rightarrow> span_link res" where
  "from_agent_legacy_format data =
     rbind (j_item ''trace_id'' data) (\<lambda>trace_id.
       case trace_id of
         J_str s \<Rightarrow> rbind (py_int 16 (first16 s)) (\<lambda>high. rbind (py_int 16 (last16 s)) (\<lambda>low.
           make_link data trace_id low (J_int high)))
       | _ \<Rightarrow> Inl Type_Error)"

definition from_library_legacy_format :: "json \<Rightarrow> span_link res" where
  "from_library_legacy_format data =
     rbind (j_item ''trace_id'' data) (\<lambda>v. let trace_id = java_style v in
       case trace_id of
         J_str s \<Rightarrow> rbind (if length s > 16 then py_int 16 (first16 s) else Inr 0) (\<lambda>high.
           rbind (py_int 16 (last16 s)) (\<lambda>low. make_link data trace_id low (J_int high)))
       | _ \<Rightarrow> Inl Type_Error)"

subsection \<open>Hexadecimal texts of a given width\<close>

fun hex_fixed :: "nat \<Rightarrow> nat \<Rightarrow> string" where
  "hex_fixed 0 n = []"
| "hex_fixed (Suc w) n = hex_fixed w (n div 16) @ [hex_char (n mod 16)]"

lemma hex_char:
  assumes "n < 16"
  shows "digit_val (hex_char n) = Some n" "hex_char n \<noteq> CHR ''_''" "hex_char n \<noteq> CHR ''x''" "hex_char n \<noteq> CHR ''X''"
    "hex_char n \<noteq> CHR ''-''" "hex_char n \<noteq> CHR ''+''" "\<not> is_space (hex_char n)"
proof -
  have "list_all (\<lambda>c. c \<noteq> CHR ''_'' \<and> c \<noteq> CHR ''x'' \<and> c \<noteq> CHR ''X'' \<and> c \<noteq> CHR ''-'' \<and> c \<noteq> CHR ''+'' \<and> \<not> is_space c)
      ''0123456789abcdef''" by code_simp
  moreover have "hex_char n \<in> set ''0123456789abcdef''" unfolding hex_char_def using assms by (intro nth_mem) simp
  ultimately show "hex_char n \<noteq> CHR ''_''" "hex_char n \<noteq> CHR ''x''" "hex_char n \<noteq> CHR ''X''"
    "hex_char n \<noteq> CHR ''-''" "hex_char n \<noteq> CHR ''+''" "\<not> is_space (hex_char n)" unfolding list_all_iff by blast+
  have "map digit_val ''0123456789abcdef'' = map Some [0..<16]" by code_simp
  then have "map digit_val ''0123456789abcdef'' ! n = map Some [0..<16] ! n" by (rule arg_cong)
  with assms show "digit_val (hex_char n) = Some n" by (simp only: hex_char_def) (subst (asm) (1 2) nth_map, simp_all)
qed

lemma length_hex_fixed [simp]: "length (hex_fixed w n) = w"
  by (induction w arbitrary: n) auto

lemma hex_fixed_chars: "set (hex_fixed w n) \<subseteq> hex_char ` {..<16}"
  by (induction w arbitrary: n) auto

lemma hex_text:
  assumes "set s \<subseteq> hex_char ` {..<16}"
  shows "list_all (\<lambda>c. \<not> is_space c) s" "CHR ''_'' \<notin> set s" "CHR ''x'' \<notin> set s" "CHR ''X'' \<notin> set s" "CHR ''-'' \<notin> set s" "CHR ''+'' \<notin> set s"
proof -
  have "\<not> is_space c \<and> c \<noteq> CHR ''_'' \<and> c \<noteq> CHR ''x'' \<and> c \<noteq> CHR ''X'' \<and> c \<noteq> CHR ''-'' \<and> c \<noteq> CHR ''+''" if c: "c \<in> set s" for c
  proof -
    obtain d where "d < 16" "c = hex_char d" using assms c by blast
    then show ?thesis using hex_char [of d] by simp
  qed
  then show "list_all (\<lambda>c. \<not> is_space c) s" "CHR ''_'' \<notin> set s" "CHR ''x'' \<notin> set s" "CHR ''X'' \<notin> set s" "CHR ''-'' \<notin> set s"
    "CHR ''+'' \<notin> set s" by (auto simp: list_all_iff)
qed

lemma digits_val_hex_fixed: "digits_val 16 acc (hex_fixed w n) = Some (acc * 16 ^ w + n mod 16 ^ w)"
proof (induction w arbitrary: n)
  case (Suc w)
  have "n mod (16 * 16 ^ w) = 16 * (n div 16 mod 16 ^ w) + n mod 16" by (rule mod_mult2_eq)
  with Suc show ?case
    by (simp add: digits_val_append hex_text(2) [OF hex_fixed_chars] hex_char mult.commute algebra_simps)
qed simp

text \<open>\<open>int(s, 16)\<close> of hexadecimal digits, with or without the prefix.\<close>

lemma strip_no_space:
  assumes "list_all (\<lambda>c. \<not> is_space c) s"
  shows "str_strip s = s"
proof -
  have "lstrip_by is_space s = s" using assms by (cases s) (auto simp: lstrip_by_def)
  moreover have "s = [] \<or> \<not> is_space (last s)" using assms by (cases s rule: rev_cases) auto
  ultimately show ?thesis using rstrip_by_no [of s is_space] by (simp add: str_strip_def strip_by_def)
qed

lemma py_int_hex:
  assumes "set s \<subseteq> hex_char ` {..<16}" and "s \<noteq> []"
  shows "py_int 16 s = of_option Value_Error (map_option int (digits_val 16 0 s))"
    "py_int 16 (''0x'' @ s) = of_option Value_Error (map_option int (digits_val 16 0 s))"
proof -
  note t = hex_text [OF assms(1)]
  obtain c cs where s: "s = c # cs" using assms(2) by (cases s) auto
  have "\<not> startswith s ''0x'' \<and> \<not> startswith s ''0X''" using t(3,4) by (auto simp: startswith_def prefix_def s)
  then have "nat_literal 16 s = digits_val 16 0 s" using t(2) by (auto simp: nat_literal_def Let_def s)
  then show "py_int 16 s = of_option Value_Error (map_option int (digits_val 16 0 s))"
    using t(1,5,6) by (auto simp: py_int_def Let_def strip_no_space s)
  have space: "\<not> is_space (CHR ''0'')" "\<not> is_space (CHR ''x'')" by code_simp+
  have "nat_literal 16 (''0x'' @ s) = digits_val 16 0 s" using s by (simp add: nat_literal_def startswith_def)
  moreover have "str_strip (''0x'' @ s) = ''0x'' @ s" using t(1) space by (intro strip_no_space) simp
  ultimately show "py_int 16 (''0x'' @ s) = of_option Value_Error (map_option int (digits_val 16 0 s))"
    by (simp add: py_int_def Let_def)
qed

lemma hex_digits_nonempty [simp]: "hex_digits n \<noteq> []"
  by (subst hex_digits.simps) simp

lemma hex_digits_fixed: "n < 16 ^ Suc w \<Longrightarrow> w = 0 \<or> 16 ^ w \<le> n \<Longrightarrow> hex_digits n = hex_fixed (Suc w) n"
proof (induction w arbitrary: n)
  case 0
  then show ?case by (subst hex_digits.simps) simp
next
  case (Suc w)
  have "n div 16 < 16 ^ Suc w" using Suc.prems(1) by (simp add: less_mult_imp_div_less mult.commute)
  moreover have "16 ^ w \<le> n div 16" using Suc.prems(2) by (simp add: less_eq_div_iff_mult_less_eq mult.commute)
  ultimately have "hex_digits (n div 16) = hex_fixed (Suc w) (n div 16)" using Suc.IH by simp
  moreover have "(16 :: nat) \<le> 16 ^ Suc w" by simp
  then have "\<not> n < 16" using Suc.prems(2) by linarith
  ultimately show ?case by (subst hex_digits.simps) simp
qed

lemma hex_digits_some: "\<exists>w. hex_digits n = hex_fixed (Suc w) n \<and> n < 16 ^ Suc w"
proof (induction n rule: less_induct)
  case (less n)
  show ?case
  proof (cases "n < 16")
    case True
    then show ?thesis by (intro exI [of _ 0]) (subst hex_digits.simps, simp)
  next
    case False
    then obtain w where "hex_digits (n div 16) = hex_fixed (Suc w) (n div 16)" "n div 16 < 16 ^ Suc w"
      using less.IH [of "n div 16"] by auto
    then show ?thesis using False
      by (intro exI [of _ "Suc w"]) (subst hex_digits.simps, auto simp: div_less_iff_less_mult mult.commute)
  qed
qed

lemma py_int_hex_fixed:
  "py_int 16 (hex_fixed (Suc w) n) = Inr (int (n mod 16 ^ Suc w))"
  "py_int 16 (''0x'' @ hex_fixed (Suc w) n) = Inr (int (n mod 16 ^ Suc w))"
proof -
  have "hex_fixed (Suc w) n \<noteq> []" by simp
  note h = py_int_hex [OF hex_fixed_chars this]
  show "py_int 16 (hex_fixed (Suc w) n) = Inr (int (n mod 16 ^ Suc w))"
    "py_int 16 (''0x'' @ hex_fixed (Suc w) n) = Inr (int (n mod 16 ^ Suc w))"
    by (simp_all only: h digits_val_hex_fixed) simp_all
qed

lemma py_int_int_hex: "py_int 16 (int_hex (int n)) = Inr (int n)"
proof -
  obtain w where "hex_digits n = hex_fixed (Suc w) n" "n < 16 ^ Suc w" using hex_digits_some by blast
  then show ?thesis using py_int_hex_fixed(2) [of w n] by (simp add: int_hex_def del: hex_fixed.simps)
qed

lemma take_hex_fixed: "take k (hex_fixed (k + m) n) = hex_fixed k (n div 16 ^ m)"
  by (induction m arbitrary: n) (simp_all add: div_mult2_eq)

lemma drop_hex_fixed: "drop k (hex_fixed (k + m) n) = hex_fixed m n"
proof (induction m arbitrary: n)
  case (Suc m)
  then show ?case by simp
qed simp

lemma dec_digits_text: "list_all (\<lambda>c. \<not> is_space c \<and> c \<noteq> CHR ''-'' \<and> c \<noteq> CHR ''+'') (dec_digits n)"
proof -
  have digit: "\<not> is_space (char_of (48 + d)) \<and> char_of (48 + d) \<noteq> CHR ''-'' \<and> char_of (48 + d) \<noteq> CHR ''+''" if d: "d < 10" for d :: nat
  proof -
    have code: "of_char (char_of (48 + d) :: char) = 48 + d" using d by simp
    have "(char_of (48 + d) :: char) \<noteq> CHR ''-''"
    proof
      assume "(char_of (48 + d) :: char) = CHR ''-''"
      then have "48 + d = of_char (CHR ''-'')" using code by simp
      then show False by simp
    qed
    moreover have "(char_of (48 + d) :: char) \<noteq> CHR ''+''"
    proof
      assume "(char_of (48 + d) :: char) = CHR ''+''"
      then have "48 + d = of_char (CHR ''+'')" using code by simp
      then show False by simp
    qed
    ultimately show ?thesis using d by (simp add: is_space_def code)
  qed
  show ?thesis
  proof (induction n rule: dec_digits.induct)
    case (1 n)
    then show ?case using digit [of n] digit [of "n mod 10"] by (subst dec_digits.simps) simp
  qed
qed

lemma py_int_dec: "py_int 10 (dec_digits n) = Inr (int n)"
proof -
  have "dec_digits n \<noteq> []" by (subst dec_digits.simps) simp
  then obtain c cs where c: "dec_digits n = c # cs" by (cases "dec_digits n") auto
  have "str_strip (dec_digits n) = dec_digits n" using dec_digits_text [of n] by (intro strip_no_space) (auto simp: list_all_iff)
  moreover have "nat_literal 10 (dec_digits n) = Some n"
    using digits_val_dec [of n] dec_digits_chars [of n] by (auto simp: nat_literal_def Let_def c)
  ultimately show ?thesis using dec_digits_text [of n] by (auto simp: py_int_def Let_def c)
qed

subsection \<open>The same link in every format\<close>

datatype link_format = Agent_links | Agent_efficient | Agent_legacy | Library_text | Library_attributes | Library_numbers | Library_legacy

fun read_link :: "link_format \<Rightarrow> json \<Rightarrow> span_link res" where
  "read_link Agent_links = from_agent_span_links"
| "read_link Agent_efficient = from_agent_efficient_format"
| "read_link Agent_legacy = from_agent_legacy_format"
| "read_link Library_text = from_library_v1_span_links"
| "read_link Library_attributes = from_library_v1_attributes"
| "read_link Library_numbers = from_library_v1_span_links"
| "read_link Library_legacy = from_library_legacy_format"

definition hex128 :: "nat \<Rightarrow> nat \<Rightarrow> string" where
  "hex128 high low = hex_fixed 16 high @ hex_fixed 16 low"

fun written_link :: "link_format \<Rightarrow> nat \<Rightarrow> nat \<Rightarrow> nat \<Rightarrow> json" where
  "written_link Agent_links high low span = J_obj [(''traceID'', J_str (dec_digits low)), (''traceIDHigh'', J_str (dec_digits high)),
     (''spanID'', J_str (dec_digits span))]"
| "written_link Agent_efficient high low span = J_obj [(''traceID'', J_str (''0x'' @ hex128 high low)), (''spanID'', J_str (dec_digits span))]"
| "written_link Agent_legacy high low span = J_obj [(''trace_id'', J_str (hex128 high low)), (''span_id'', J_str (hex_fixed 16 span))]"
| "written_link Library_text high low span = J_obj [(''trace_id'', J_str (''0x'' @ hex128 high low)), (''span_id'', J_int (int span))]"
| "written_link Library_attributes high low span = J_obj [(''trace_id'', J_str (''0x'' @ hex128 high low)), (''span_id'', J_int (int span))]"
| "written_link Library_numbers high low span = J_obj [(''trace_id'', J_int (int low)), (''trace_id_high'', J_int (int high)),
     (''span_id'', J_int (int span))]"
| "written_link Library_legacy high low span = J_obj [(''trace_id'', J_str (hex128 high low)), (''span_id'', J_str (hex_fixed 16 span))]"

lemma hex16: "n < 2 ^ 64 \<Longrightarrow> py_int 16 (hex_fixed 16 n) = Inr (int n)"
  using py_int_hex_fixed(1) [of 15 n] by (simp del: hex_fixed.simps)

lemma py_int_hex128:
  assumes "high < 2 ^ 64" and "low < 2 ^ 64"
  shows "py_int 16 (''0x'' @ hex128 high low) = Inr (int (high * 2 ^ 64 + low))"
proof -
  have "set (hex128 high low) \<subseteq> hex_char ` {..<16}" using hex_fixed_chars by (auto simp: hex128_def simp del: hex_fixed.simps)
  moreover have "length (hex128 high low) = 32" by (simp add: hex128_def del: hex_fixed.simps)
  then have "hex128 high low \<noteq> []" by auto
  moreover have "digits_val 16 0 (hex128 high low) = Some (high * 2 ^ 64 + low)"
    using assms by (simp add: hex128_def digits_val_append hex_text(2) [OF hex_fixed_chars] digits_val_hex_fixed del: hex_fixed.simps)
  ultimately show ?thesis using py_int_hex(2) [of "hex128 high low"] by simp
qed

lemma halves:
  assumes "low < (2 :: nat) ^ 64" and "high < 2 ^ 64"
  shows "low64 (int (high * 2 ^ 64 + low)) = int low" "high64 (int (high * 2 ^ 64 + low)) = int high"
  using assms by (simp_all add: low64_def high64_def take_bit_eq_mod drop_bit_eq_div flip: of_nat_mod of_nat_div)

lemma first_last_hex128: "first16 (hex128 high low) = hex_fixed 16 high" "last16 (hex128 high low) = hex_fixed 16 low"
  by (simp_all add: first16_def last16_def hex128_def del: hex_fixed.simps)



lemma length_hex_digits: "n < 16 ^ Suc w \<Longrightarrow> length (hex_digits n) \<le> Suc w"
proof (induction w arbitrary: n)
  case 0
  then show ?case by (subst hex_digits.simps) simp
next
  case (Suc w)
  have "n div 16 < 16 ^ Suc w" using Suc.prems by (simp add: less_mult_imp_div_less mult.commute)
  then show ?case using Suc.IH [of "n div 16"] by (subst hex_digits.simps) auto
qed

lemma py_int_x: "list_all (\<lambda>c. \<not> is_space c) s \<Longrightarrow> py_int 16 (CHR ''x'' # s) = Inl Value_Error"
proof -
  assume "list_all (\<lambda>c. \<not> is_space c) s"
  moreover have "\<not> is_space (CHR ''x'')" "digit_val (CHR ''x'') = Some 33" by code_simp+
  ultimately show ?thesis
    by (simp add: py_int_def strip_no_space nat_literal_def startswith_def)
qed

definition numeric_link :: "nat \<Rightarrow> int \<Rightarrow> json" where
  "numeric_link n span = J_obj [(''trace_id'', J_int (int n)), (''span_id'', J_int span)]"

lemma numeric_link_read:
  "from_library_legacy_format (numeric_link n span) = (let s = ''0x'' @ hex_digits n in
     rbind (if length s > 16 then py_int 16 (first16 s) else Inr 0) (\<lambda>high. rbind (py_int 16 (last16 s)) (\<lambda>low.
       Inr \<lparr>sl_data = numeric_link n span, sl_trace_id = J_str s, sl_trace_id_low = low, sl_trace_id_high = J_int high,
         sl_attributes = J_null, sl_trace_state = J_null, sl_flags = 0, sl_span_id = span\<rparr>)))"
  by (simp add: from_library_legacy_format_def numeric_link_def java_style_def int_hex_def make_link_def link_flags_def
    link_span_id_def j_get_or_def dgetitem_def dhas_def Let_def)

text \<open>A trace id of 64 bits that a tracer writes as a number in the legacy format is read right only
  below \<open>16 ^ 14\<close>: with 15 hexadecimal digits the link is refused, and with 16 the upper half is the
  number without its last two digits instead of zero, because the prefix \<open>0x\<close> counts as two of the
  16 characters.\<close>

theorem numeric_legacy_link:
  assumes "n < 2 ^ 64"
  shows "case from_library_legacy_format (numeric_link n span) of
      Inl e \<Rightarrow> 16 ^ 14 \<le> n \<and> n < 16 ^ 15 \<and> e = Value_Error
    | Inr l \<Rightarrow> sl_trace_id_low l = int n \<and> sl_trace_id_high l = J_int (if n < 16 ^ 14 then 0 else int (n div 256)) \<and>
        (n < 16 ^ 14 \<or> 16 ^ 15 \<le> n)"
proof -
  let ?s = "''0x'' @ hex_digits n"
  consider (short) "n < 16 ^ 14" | (middle) "16 ^ 14 \<le> n" "n < 16 ^ 15" | (long) "16 ^ 15 \<le> n" by linarith
  then show ?thesis
  proof cases
    case short
    have len: "\<not> length ?s > 16" using length_hex_digits [of n 13] short by simp
    then have "last16 ?s = ?s" by (simp add: last16_def)
    moreover have "py_int 16 ?s = Inr (int n)" using py_int_int_hex [of n] by (simp add: int_hex_def)
    ultimately show ?thesis using len short by (simp only: numeric_link_read Let_def) simp
  next
    case middle
    have h: "hex_digits n = hex_fixed (14 + 1) n" using hex_digits_fixed [of n 14] middle by simp
    have f: "first16 ?s = ''0x'' @ hex_fixed (Suc 13) (n div 16)"
      unfolding h first16_def using take_hex_fixed [of 14 1 n] by simp
    have l: "last16 ?s = CHR ''x'' # hex_fixed 15 n" and len: "length ?s = 17"
      unfolding h last16_def by simp_all
    have "py_int 16 (CHR ''x'' # hex_fixed 15 n) = Inl Value_Error"
      by (rule py_int_x, rule hex_text(1), rule hex_fixed_chars)
    then show ?thesis using middle unfolding numeric_link_read Let_def f l len py_int_hex_fixed(2) by simp
  next
    case long
    have h: "hex_digits n = hex_fixed (14 + 2) n" using hex_digits_fixed [of n 15] long assms by simp
    have f: "first16 ?s = ''0x'' @ hex_fixed (Suc 13) (n div 256)"
      unfolding h first16_def using take_hex_fixed [of 14 2 n] by simp
    have l: "last16 ?s = hex_fixed (Suc 15) n" and len: "length ?s = 18"
      unfolding h last16_def by simp_all
    have "n div 256 < 16 ^ Suc 13" using assms by (simp add: div_less_iff_less_mult)
    then show ?thesis using long assms unfolding numeric_link_read Let_def f l len py_int_hex_fixed by simp
  qed
qed

theorem numeric_legacy_link_witness:
  "case from_library_legacy_format (numeric_link (16 ^ 15 + 1) 5) of
     Inl e \<Rightarrow> False | Inr l \<Rightarrow> sl_trace_id_low l = 16 ^ 15 + 1 \<and> sl_trace_id_high l = J_int (16 ^ 13)"
  using numeric_legacy_link [of "16 ^ 15 + 1" 5] by (simp split: sum.splits)

end
