(* ===== verification/Dd_Trace.thy ===== *)
theory Dd_Trace
  imports Span_Link Interface_Core
begin

section \<open>Traces of the libraries and of the agent (utils/dd\_types)\<close>

text \<open>
  Wrappers that give the tests one view of a span, whichever of the formats has carried it.  A raw
  trace or span is the JSON value of the captured file; an access that Python refuses on a value of
  that shape is the exception.  Attributes of a v1.0 span are an object.  The parser of JSON texts
  inside a tag is the argument \<open>loads\<close>.
\<close>

subsection \<open>The request id of a span (dd\_types/\_utils.py, tools.py)\<close>

definition rid_re :: re where
  "rid_re = Cat (Lit ''rid/'') (Grp 1 (Times 36 (Chr is_upper)))"

definition get_rid_from_user_agent :: "json \<Rightarrow> string option res" where
  "get_rid_from_user_agent user_agent =
     (if \<not> j_truthy user_agent then Inr None
      else case user_agent of
        J_str s \<Rightarrow> Inr (case re_search rid_re s of None \<Rightarrow> None | Some (i, st) \<Rightarrow> re_group st 1)
      | _ \<Rightarrow> Inl Type_Error)"

text \<open>\<open>if not user_agent: user_agent = meta.get(key)\<close> for the keys in order.\<close>

fun first_user_agent :: "json \<Rightarrow> json \<Rightarrow> string list \<Rightarrow> json res" where
  "first_user_agent ua meta [] = Inr ua"
| "first_user_agent ua meta (k # ks) =
     (if j_truthy ua then Inr ua else rbind (j_get k meta) (\<lambda>v. first_user_agent v meta ks))"

definition user_agent_tags :: "string list" where
  "user_agent_tags = [''http_request_headers_user-agent'', ''http_user_agent'', ''http.useragent'',
     ''user_agent.original'', ''http.user_agent'', ''system_tests.request.user_agent'']"

definition get_rid_from_span_data :: "json \<Rightarrow> json \<Rightarrow> json \<Rightarrow> string option res" where
  "get_rid_from_span_data span_type meta metrics =
     rbind (if span_type = J_str ''rpc'' then j_get ''grpc.metadata.user-agent'' meta else Inr J_null) (\<lambda>ua.
     rbind (if j_truthy ua then Inr ua
            else rbind (j_get ''_dd.top_level'' metrics) (\<lambda>top.
              if j_eq top (J_dec 1 0) then j_get ''http.request.headers.user-agent'' meta else Inr ua)) (\<lambda>ua.
     rbind (first_user_agent ua meta user_agent_tags) get_rid_from_user_agent))"

definition normalize_for_compare :: "json \<Rightarrow> json" where
  "normalize_for_compare v =
     (if j_eq v (J_int 1) then J_str ''true'' else if j_eq v (J_int 0) then J_str ''false'' else v)"

definition is_same_boolean :: "json \<Rightarrow> json \<Rightarrow> bool" where
  "is_same_boolean actual expected \<longleftrightarrow> j_eq (normalize_for_compare actual) (normalize_for_compare expected)"

subsection \<open>Library traces (dd\_types/\_datadog\_library\_trace.py)\<close>

record dd_data = http_data +
  dd_request :: json
  dd_response :: json

datatype library_format = V04 | V05 | V10

record library_trace =
  lt_data :: dd_data
  lt_format :: library_format
  lt_raw :: json
  lt_spans :: "json list"

record library_span =
  ls_trace :: library_trace
  ls_raw :: json

definition legacy_format :: "string \<Rightarrow> library_format res" where
  "legacy_format path =
     (if path = ''/v0.4/traces'' then Inr V04 else if path = ''/v0.5/traces'' then Inr V05 else Inl Key_Error)"

definition from_legacy :: "dd_data \<Rightarrow> json \<Rightarrow> library_trace res" where
  "from_legacy data raw_trace =
     rbind (legacy_format (hd_path data)) (\<lambda>f. rbind (j_iter raw_trace) (\<lambda>spans.
       Inr \<lparr>lt_data = data, lt_format = f, lt_raw = raw_trace, lt_spans = spans\<rparr>))"

definition from_v1 :: "dd_data \<Rightarrow> json \<Rightarrow> library_trace res" where
  "from_v1 data raw_trace =
     rbind (j_item ''spans'' raw_trace) (\<lambda>s. rbind (j_iter s) (\<lambda>spans.
       Inr \<lparr>lt_data = data, lt_format = V10, lt_raw = raw_trace, lt_spans = spans\<rparr>))"

definition library_spans :: "library_trace \<Rightarrow> library_span list" where
  "library_spans t = map (\<lambda>raw. \<lparr>ls_trace = t, ls_raw = raw\<rparr>) (lt_spans t)"

definition lt_trace_id :: "library_trace \<Rightarrow> json res" where
  "lt_trace_id t =
     (if lt_format t = V10 then j_item ''trace_id'' (lt_raw t)
      else rbind (j_index 0 (lt_raw t)) (j_item ''trace_id''))"

definition lt_trace_id_as_int :: "library_trace \<Rightarrow> json res" where
  "lt_trace_id_as_int t =
     (if lt_format t = V10 then rbind (rbind (lt_trace_id t) j_hex) (\<lambda>n. Inr (J_int (low64 n)))
      else lt_trace_id t)"

text \<open>The other id is an integer or a text.\<close>

definition trace_id_equals :: "library_trace \<Rightarrow> json \<Rightarrow> bool res" where
  "trace_id_equals t other =
     rbind (case other of
         J_str s \<Rightarrow> rbind (rassert (startswith s ''0x'') Assertion_Error) (\<lambda>_. rbind (py_int 16 s) (\<lambda>n. Inr (J_int (low64 n))))
       | _ \<Rightarrow> Inr other) (\<lambda>n.
     rbind (lt_trace_id_as_int t) (\<lambda>m. Inr (j_eq n m)))"

definition v1_top_level_to_meta :: "(string \<times> string) list" where
  "v1_top_level_to_meta =
     [(''component'', ''component''), (''env'', ''env''), (''span_kind'', ''span.kind''), (''version'', ''version'')]"

definition span_kind_names :: "string list" where
  "span_kind_names = [''unspecified'', ''internal'', ''server'', ''client'', ''producer'', ''consumer'']"

text \<open>\<open>_SPAN_KIND_INT_TO_STR.get(value, str(value))\<close>; a bool is an int.\<close>

definition span_kind_value :: "json \<Rightarrow> json" where
  "span_kind_value v =
     (case v of
        J_int n \<Rightarrow> if 0 \<le> n \<and> n < 6 then J_str (span_kind_names ! nat n) else J_str (str_of_int n)
      | J_bool b \<Rightarrow> J_str (span_kind_names ! (if b then 1 else 0))
      | _ \<Rightarrow> v)"

definition promote :: "jobj \<Rightarrow> string \<times> string \<Rightarrow> jobj \<Rightarrow> jobj" where
  "promote raw k m =
     (case dget raw (fst k) of
        None \<Rightarrow> m
      | Some v \<Rightarrow> dset (snd k) (if fst k = ''span_kind'' then span_kind_value v else v) m)"

definition meta_dict :: "json \<Rightarrow> json res" where
  "meta_dict raw =
     rbind (j_get_or ''attributes'' (J_obj []) raw) (\<lambda>attributes.
       case (attributes, raw) of
         (J_obj m, J_obj r) \<Rightarrow> Inr (J_obj (fold (promote r) v1_top_level_to_meta m))
       | _ \<Rightarrow> Inl Type_Error)"

abbreviation is_v1 :: "library_span \<Rightarrow> bool" where "is_v1 s \<equiv> lt_format (ls_trace s) = V10"

definition ls_contains :: "string \<Rightarrow> library_span \<Rightarrow> bool res" where
  "ls_contains key s =
     (if is_v1 s \<and> key \<in> {''meta'', ''meta_struct'', ''metrics''} then j_contains ''attributes'' (ls_raw s)
      else if is_v1 s \<and> key = ''trace_id'' then Inr True
      else j_contains key (ls_raw s))"

definition ls_get :: "string \<Rightarrow> json \<Rightarrow> library_span \<Rightarrow> json res" where
  "ls_get key dflt s =
     (if is_v1 s \<and> key = ''trace_id'' then lt_trace_id (ls_trace s)
      else if is_v1 s \<and> key \<in> {''meta'', ''meta_struct''} then meta_dict (ls_raw s)
      else if is_v1 s \<and> key = ''metrics'' then j_get_or ''attributes'' (J_obj []) (ls_raw s)
      else j_get_or key dflt (ls_raw s))"

definition ls_item :: "string \<Rightarrow> library_span \<Rightarrow> json res" where
  "ls_item key s =
     (if is_v1 s \<and> key = ''trace_id'' then lt_trace_id (ls_trace s)
      else if is_v1 s \<and> key \<in> {''meta'', ''meta_struct''} then meta_dict (ls_raw s)
      else if is_v1 s \<and> key = ''metrics'' then j_item ''attributes'' (ls_raw s)
      else j_item key (ls_raw s))"

definition ls_meta :: "library_span \<Rightarrow> json res" where
  "ls_meta s =
     (let key = (if is_v1 s then ''attributes'' else ''meta'') in
      rbind (j_contains key (ls_raw s)) (\<lambda>given. rbind (rassert given Assertion_Error) (\<lambda>_.
        if is_v1 s then meta_dict (ls_raw s) else j_item ''meta'' (ls_raw s))))"

definition ls_metrics :: "library_span \<Rightarrow> json res" where
  "ls_metrics s =
     (if is_v1 s
      then rbind (j_contains ''attributes'' (ls_raw s)) (\<lambda>given. rbind (rassert given Assertion_Error) (\<lambda>_.
        j_item ''attributes'' (ls_raw s)))
      else j_get_or ''metrics'' (J_obj []) (ls_raw s))"

definition ls_rid :: "library_span \<Rightarrow> string option res" where
  "ls_rid s =
     rbind (j_get_or ''type'' (J_str []) (ls_raw s)) (\<lambda>t. rbind (ls_meta s) (\<lambda>meta. rbind (ls_metrics s) (\<lambda>metrics.
       get_rid_from_span_data t meta metrics)))"

definition ls_sampling_priority :: "library_span \<Rightarrow> json res" where
  "ls_sampling_priority s =
     (if is_v1 s then j_get ''priority'' (lt_raw (ls_trace s))
      else rbind (j_item ''metrics'' (ls_raw s)) (j_get ''_sampling_priority_v1''))"

text \<open>The links inside a tag are a JSON text or already a list.\<close>

definition tagged_links :: "(string \<Rightarrow> json res) \<Rightarrow> json \<Rightarrow> json list res" where
  "tagged_links loads meta =
     rbind (j_get_or ''_dd.span_links'' (J_list []) meta) (\<lambda>raw.
     rbind (case raw of J_str s \<Rightarrow> loads s | _ \<Rightarrow> Inr raw) j_iter)"

definition ls_span_links :: "(string \<Rightarrow> json res) \<Rightarrow> library_span \<Rightarrow> span_link list res" where
  "ls_span_links loads s =
     rbind (j_contains ''span_links'' (ls_raw s)) (\<lambda>top.
       if top then rbind (rbind (j_item ''span_links'' (ls_raw s)) j_iter) (rmap from_library_v1_span_links)
       else if is_v1 s then
         rbind (j_get_or ''attributes'' (J_obj []) (ls_raw s)) (\<lambda>attributes.
         rbind (j_contains ''_dd.span_links'' attributes) (\<lambda>given.
           if given then rbind (rbind (j_item ''_dd.span_links'' attributes) j_iter) (rmap from_library_v1_attributes)
           else Inr []))
       else rbind (ls_meta s) (\<lambda>meta. rbind (tagged_links loads meta) (rmap from_library_legacy_format)))"

subsection \<open>Agent traces (dd\_types/\_datadog\_agent\_trace.py)\<close>

datatype agent_format = Legacy | Efficient

record agent_trace =
  at_data :: dd_data
  at_format :: agent_format
  at_raw :: json
  at_spans :: "json list"

record agent_span_view =
  as_trace :: agent_trace
  as_raw :: json

definition agent_trace_of :: "agent_format \<Rightarrow> dd_data \<Rightarrow> json \<Rightarrow> agent_trace res" where
  "agent_trace_of f data raw_trace =
     rbind (j_item ''spans'' raw_trace) (\<lambda>s. rbind (j_iter s) (\<lambda>spans.
       Inr \<lparr>at_data = data, at_format = f, at_raw = raw_trace, at_spans = spans\<rparr>))"

definition agent_spans :: "agent_trace \<Rightarrow> agent_span_view list" where
  "agent_spans t = map (\<lambda>raw. \<lparr>as_trace = t, as_raw = raw\<rparr>) (at_spans t)"

definition at_trace_id :: "agent_trace \<Rightarrow> json res" where
  "at_trace_id t =
     (case at_format t of
        Legacy \<Rightarrow> (case at_spans t of [] \<Rightarrow> Inl Index_Error | raw # _ \<Rightarrow> j_item ''traceID'' raw)
      | Efficient \<Rightarrow> j_item ''traceID'' (at_raw t))"

definition at_trace_id_as_int :: "agent_trace \<Rightarrow> int res" where
  "at_trace_id_as_int t =
     rbind (at_trace_id t) (\<lambda>v.
       case at_format t of Legacy \<Rightarrow> j_to_int v | Efficient \<Rightarrow> rbind (j_hex v) (\<lambda>n. Inr (low64 n)))"

abbreviation is_efficient :: "agent_span_view \<Rightarrow> bool" where "is_efficient s \<equiv> at_format (as_trace s) = Efficient"

definition as_meta :: "agent_span_view \<Rightarrow> json res" where
  "as_meta s = j_item (if is_efficient s then ''attributes'' else ''meta'') (as_raw s)"

definition as_metrics :: "agent_span_view \<Rightarrow> json res" where
  "as_metrics s =
     (if is_efficient s then j_item ''attributes'' (as_raw s) else j_get_or ''metrics'' (J_obj []) (as_raw s))"

definition as_type :: "agent_span_view \<Rightarrow> json res" where
  "as_type s = j_get_or (if is_efficient s then ''typeRef'' else ''type'') (J_str []) (as_raw s)"

definition as_name :: "agent_span_view \<Rightarrow> json res" where
  "as_name s = j_item (if is_efficient s then ''nameRef'' else ''name'') (as_raw s)"

definition as_resource :: "agent_span_view \<Rightarrow> json res" where
  "as_resource s = j_item (if is_efficient s then ''resourceRef'' else ''resource'') (as_raw s)"

definition as_service :: "agent_span_view \<Rightarrow> json res" where
  "as_service s = j_item (if is_efficient s then ''serviceRef'' else ''service'') (as_raw s)"

definition as_kind :: "agent_span_view \<Rightarrow> json res" where
  "as_kind s = (if is_efficient s then j_item ''kind'' (as_raw s) else rbind (as_meta s) (j_item ''span.kind''))"

definition as_origin :: "agent_span_view \<Rightarrow> json res" where
  "as_origin s =
     (if is_efficient s then j_get ''origin'' (at_raw (as_trace s)) else rbind (as_meta s) (j_item ''_dd.origin''))"

definition as_sampling_priority :: "agent_span_view \<Rightarrow> json res" where
  "as_sampling_priority s =
     (if is_efficient s then j_get ''priority'' (at_raw (as_trace s))
      else rbind (as_metrics s) (j_item ''_sampling_priority_v1''))"

definition as_rid :: "agent_span_view \<Rightarrow> string option res" where
  "as_rid s =
     rbind (as_type s) (\<lambda>t. rbind (as_meta s) (\<lambda>meta. rbind (as_metrics s) (\<lambda>metrics.
       get_rid_from_span_data t meta metrics)))"

text \<open>A number with a fraction part of zero is printed as an integer.\<close>

definition integral_dec :: "int \<Rightarrow> int \<Rightarrow> bool" where
  "integral_dec m e \<longleftrightarrow> e \<ge> 0 \<or> 10 ^ nat (- e) dvd m"

definition tag_text :: "json \<Rightarrow> json" where
  "tag_text v =
     (case v of
        J_int n \<Rightarrow> J_str (str_of_int n)
      | J_dec m e \<Rightarrow> if integral_dec m e then J_str (str_of_int (int_of_dec m e)) else v
      | _ \<Rightarrow> v)"

definition as_tag :: "string \<Rightarrow> json \<Rightarrow> agent_span_view \<Rightarrow> json res" where
  "as_tag key dflt s =
     rbind (as_meta s) (\<lambda>meta. rbind (j_get_or key dflt meta) (\<lambda>v. Inr (if is_efficient s then tag_text v else v)))"

definition as_span_links :: "(string \<Rightarrow> json res) \<Rightarrow> agent_span_view \<Rightarrow> span_link list res" where
  "as_span_links loads s =
     rbind (j_get ''spanLinks'' (as_raw s)) (\<lambda>links.
       if links \<noteq> J_null then rbind (j_iter links) (rmap from_agent_span_links)
       else rbind (if is_efficient s then j_get ''links'' (as_raw s) else Inr J_null) (\<lambda>links.
         if links \<noteq> J_null then rbind (j_iter links) (rmap from_agent_efficient_format)
         else rbind (as_meta s) (\<lambda>meta. rbind (tagged_links loads meta) (rmap from_agent_legacy_format))))"

subsection \<open>The request id does not depend on the format\<close>

text \<open>The keys of the meta in which the user agent is looked for.\<close>

definition user_agent_keys :: "string set" where
  "user_agent_keys = insert ''grpc.metadata.user-agent'' (insert ''http.request.headers.user-agent'' (set user_agent_tags))"

lemma j_get_same: "dget m k = dget m' k \<Longrightarrow> j_get k (J_obj m) = j_get k (J_obj m')"
  by simp

lemma first_user_agent_same:
  "(\<And>k. k \<in> set ks \<Longrightarrow> dget m k = dget m' k) \<Longrightarrow> first_user_agent ua (J_obj m) ks = first_user_agent ua (J_obj m') ks"
  by (induction ks arbitrary: ua) simp_all

lemma rid_from_same_tags:
  assumes tags: "\<And>k. k \<in> user_agent_keys \<Longrightarrow> dget m k = dget m' k"
    and top: "dget mt ''_dd.top_level'' = dget mt' ''_dd.top_level''"
  shows "get_rid_from_span_data t (J_obj m) (J_obj mt) = get_rid_from_span_data t (J_obj m') (J_obj mt')"
proof -
  have first: "first_user_agent ua (J_obj m) user_agent_tags = first_user_agent ua (J_obj m') user_agent_tags" for ua
    by (rule first_user_agent_same) (simp add: tags user_agent_keys_def)
  have "dget m ''grpc.metadata.user-agent'' = dget m' ''grpc.metadata.user-agent''"
    "dget m ''http.request.headers.user-agent'' = dget m' ''http.request.headers.user-agent''"
    by (simp_all add: tags user_agent_keys_def)
  then show ?thesis
    by (simp only: get_rid_from_span_data_def first j_get.simps top)
qed

lemma promote_other: "k \<noteq> snd kk \<Longrightarrow> dget (promote r kk m) k = dget m k"
  by (simp add: promote_def split: option.split)

lemma meta_dict_attributes:
  assumes "dget r ''attributes'' = Some (J_obj a)"
  obtains m where "meta_dict (J_obj r) = Inr (J_obj m)" and "\<And>k. k \<in> user_agent_keys \<Longrightarrow> dget m k = dget a k"
proof
  show "meta_dict (J_obj r) = Inr (J_obj (fold (promote r) v1_top_level_to_meta a))"
    by (simp add: meta_dict_def j_get_or_def assms)
  show "dget (fold (promote r) v1_top_level_to_meta a) k = dget a k" if "k \<in> user_agent_keys" for k
    using that by (auto simp: v1_top_level_to_meta_def promote_other user_agent_keys_def user_agent_tags_def)
qed

lemma library_legacy_rid:
  assumes "\<not> is_v1 s" and "ls_raw s = J_obj r" and "dget r ''type'' = Some t"
    and "dget r ''meta'' = Some (J_obj m)" and "dget r ''metrics'' = Some mt"
  shows "ls_rid s = get_rid_from_span_data t (J_obj m) mt"
  using assms by (simp add: ls_rid_def ls_meta_def ls_metrics_def j_get_or_def dhas_def dgetitem_def)

lemma library_v1_rid:
  assumes "is_v1 s" and "ls_raw s = J_obj r" and "dget r ''type'' = Some t" and "dget r ''attributes'' = Some (J_obj a)"
  shows "ls_rid s = get_rid_from_span_data t (J_obj a) (J_obj a)"
proof -
  obtain m where m: "meta_dict (J_obj r) = Inr (J_obj m)" "\<And>k. k \<in> user_agent_keys \<Longrightarrow> dget m k = dget a k"
    using meta_dict_attributes [OF assms(4)] by blast
  have "ls_rid s = get_rid_from_span_data t (J_obj m) (J_obj a)"
    using assms m(1) by (simp add: ls_rid_def ls_meta_def ls_metrics_def j_get_or_def dhas_def dgetitem_def)
  also have "\<dots> = get_rid_from_span_data t (J_obj a) (J_obj a)"
    by (rule rid_from_same_tags) (simp_all add: m(2))
  finally show ?thesis .
qed

text \<open>C18.  A request is recognised in its spans whatever format has carried them.  Take a span of a tracer in
  a legacy format and in format v1.0, and a span of the agent in the legacy and in the efficient format, of the
  same type.  If the attributes agree with the legacy meta on the tags that may hold the user agent, and with
  the legacy metrics on the mark of a top level span, all four have the same request id, or raise alike.\<close>

theorem rid_of_every_format:
  assumes legacy: "\<not> is_v1 l" "ls_raw l = J_obj rl" "dget rl ''type'' = Some t"
      "dget rl ''meta'' = Some (J_obj m)" "dget rl ''metrics'' = Some (J_obj mt)"
    and v1: "is_v1 v" "ls_raw v = J_obj rv" "dget rv ''type'' = Some t" "dget rv ''attributes'' = Some (J_obj a)"
    and agent: "\<not> is_efficient g" "as_raw g = J_obj rg" "dget rg ''type'' = Some t"
      "dget rg ''meta'' = Some (J_obj m)" "dget rg ''metrics'' = Some (J_obj mt)"
    and efficient: "is_efficient e" "as_raw e = J_obj re" "dget re ''typeRef'' = Some t"
      "dget re ''attributes'' = Some (J_obj a)"
    and same: "\<And>k. k \<in> user_agent_keys \<Longrightarrow> dget a k = dget m k" "dget a ''_dd.top_level'' = dget mt ''_dd.top_level''"
  shows "ls_rid v = ls_rid l \<and> as_rid g = ls_rid l \<and> as_rid e = ls_rid l"
proof -
  have l: "ls_rid l = get_rid_from_span_data t (J_obj m) (J_obj mt)"
    using legacy by (rule library_legacy_rid)
  have a: "get_rid_from_span_data t (J_obj a) (J_obj a) = get_rid_from_span_data t (J_obj m) (J_obj mt)"
    by (rule rid_from_same_tags) (simp_all add: same)
  have "ls_rid v = ls_rid l"
    using library_v1_rid [OF v1] by (simp add: l a)
  moreover have "as_rid g = ls_rid l"
    using agent by (simp add: l as_rid_def as_type_def as_meta_def as_metrics_def j_get_or_def dgetitem_def)
  moreover have "as_rid e = ls_rid l"
    using efficient a by (simp add: l as_rid_def as_type_def as_meta_def as_metrics_def j_get_or_def dgetitem_def)
  ultimately show ?thesis by simp
qed

definition some_exchange :: dd_data where
  "some_exchange = \<lparr>log_filename = ''00000.json'', hd_path = ''/v0.4/traces'',
     hd_request = \<lparr>hm_headers = [], hm_has_content = True\<rparr>, hd_response = None,
     dd_request = J_null, dd_response = J_null\<rparr>"

definition some_library_span :: "library_format \<Rightarrow> jobj \<Rightarrow> library_span" where
  "some_library_span f raw =
     \<lparr>ls_trace = \<lparr>lt_data = some_exchange, lt_format = f, lt_raw = J_null, lt_spans = [J_obj raw]\<rparr>, ls_raw = J_obj raw\<rparr>"

definition some_agent_span :: "agent_format \<Rightarrow> jobj \<Rightarrow> agent_span_view" where
  "some_agent_span f raw =
     \<lparr>as_trace = \<lparr>at_data = some_exchange, at_format = f, at_raw = J_null, at_spans = [J_obj raw]\<rparr>, as_raw = J_obj raw\<rparr>"

definition some_legacy :: jobj where
  "some_legacy = [(''type'', J_str ''web''), (''metrics'', J_obj []),
     (''meta'', J_obj [(''http.useragent'', J_str (''rid/'' @ replicate 36 (CHR ''B'')))])]"

definition some_attributes :: jobj where
  "some_attributes = [(''http.useragent'', J_str (''rid/'' @ replicate 36 (CHR ''B''))), (''priority'', J_int 1)]"

theorem rid_of_every_format_witness:
  "ls_rid (some_library_span V10 [(''type'', J_str ''web''), (''attributes'', J_obj some_attributes)]) =
     ls_rid (some_library_span V04 some_legacy) \<and>
   as_rid (some_agent_span Legacy some_legacy) = ls_rid (some_library_span V04 some_legacy) \<and>
   as_rid (some_agent_span Efficient [(''typeRef'', J_str ''web''), (''attributes'', J_obj some_attributes)]) =
     ls_rid (some_library_span V04 some_legacy)"
proof (rule rid_of_every_format [where t = "J_str ''web''" and mt = "[]" and rl = some_legacy and rg = some_legacy
      and rv = "[(''type'', J_str ''web''), (''attributes'', J_obj some_attributes)]"
      and re = "[(''typeRef'', J_str ''web''), (''attributes'', J_obj some_attributes)]" and a = some_attributes
      and m = "[(''http.useragent'', J_str (''rid/'' @ replicate 36 (CHR ''B'')))]"])
  show "dget some_attributes k = dget [(''http.useragent'', J_str (''rid/'' @ replicate 36 (CHR ''B'')))] k"
    if "k \<in> user_agent_keys" for k
    using that by (auto simp: some_attributes_def user_agent_keys_def user_agent_tags_def)
qed (simp_all add: some_library_span_def some_agent_span_def some_legacy_def some_attributes_def)

end
