(* ===== verification/Py_Gen.thy ===== *)
theory Py_Gen
  imports Prelude
begin

section \<open>Generators\<close>

text \<open>
  A Python generator that is read to its end: what it yields and whether it ends by an exception.
  A consumer that stops early does not see the exception, so the yielded values come with the end
  instead of being lost in it.
\<close>

type_synonym 'a gen = "'a list \<times> unit res"

definition gen_list :: "'a gen \<Rightarrow> 'a list res" where
  "gen_list g = rbind (snd g) (\<lambda>_. Inr (fst g))"

definition gen_of :: "'a list res \<Rightarrow> 'a gen" where
  "gen_of r = (case r of Inl e \<Rightarrow> ([], Inl e) | Inr xs \<Rightarrow> (xs, Inr ()))"

text \<open>\<open>for x in xs: ...\<close> with a body that yields, over a list and over a generator.\<close>

fun gen_for :: "('a \<Rightarrow> 'b gen) \<Rightarrow> 'a list \<Rightarrow> 'b gen" where
  "gen_for f [] = ([], Inr ())"
| "gen_for f (x # xs) =
     (let (ys, r) = f x in
      case r of Inl e \<Rightarrow> (ys, Inl e) | Inr _ \<Rightarrow> (let (zs, r') = gen_for f xs in (ys @ zs, r')))"

definition gen_bind :: "'a gen \<Rightarrow> ('a \<Rightarrow> 'b gen) \<Rightarrow> 'b gen" where
  "gen_bind g f = (let (ys, r) = gen_for f (fst g) in (ys, rbind r (\<lambda>_. snd g)))"

text \<open>A loop whose body may raise.\<close>

definition gen_each :: "('a \<Rightarrow> unit res) \<Rightarrow> 'a gen \<Rightarrow> unit res" where
  "gen_each f g = rbind (rmap f (fst g)) (\<lambda>_. snd g)"

lemma gen_for_total:
  "(\<And>x. x \<in> set xs \<Longrightarrow> f x = (g x, Inr ())) \<Longrightarrow> gen_for f xs = (concat (map g xs), Inr ())"
  by (induction xs) auto

lemma gen_bind_total:
  "(\<And>x. x \<in> set xs \<Longrightarrow> f x = (g x, Inr ())) \<Longrightarrow> gen_bind (xs, Inr ()) f = (concat (map g xs), Inr ())"
  by (simp add: gen_bind_def gen_for_total)

lemma gen_for_append:
  "gen_for f (xs @ ys) =
     (let (us, r) = gen_for f xs in case r of Inl e \<Rightarrow> (us, Inl e) | Inr _ \<Rightarrow> (let (vs, r') = gen_for f ys in (us @ vs, r')))"
  by (induction xs) (auto simp: Let_def split: prod.split sum.split)

lemma gen_list_simps [simp]: "gen_list (xs, Inr ()) = Inr xs" "gen_list (xs, Inl e) = Inl e"
  by (simp_all add: gen_list_def)

lemma gen_for_end: "snd (gen_for f xs) = Inr () \<longleftrightarrow> (\<forall>x \<in> set xs. snd (f x) = Inr ())"
  by (induction xs) (auto simp: Let_def split: prod.splits sum.splits)

lemma gen_for_yields: "\<forall>x \<in> set xs. snd (f x) = Inr () \<Longrightarrow> fst (gen_for f xs) = concat (map (\<lambda>x. fst (f x)) xs)"
  by (induction xs) (auto simp: Let_def split: prod.splits sum.splits)

lemma gen_bind_ok:
  "gen_bind g f = (ys, Inr ()) \<longleftrightarrow>
     snd g = Inr () \<and> (\<forall>x \<in> set (fst g). snd (f x) = Inr ()) \<and> ys = concat (map (\<lambda>x. fst (f x)) (fst g))"
proof -
  obtain zs r where z: "gen_for f (fst g) = (zs, r)" by force
  have "r = Inr () \<longleftrightarrow> (\<forall>x \<in> set (fst g). snd (f x) = Inr ())" using gen_for_end [of f "fst g"] z by simp
  moreover have "r = Inr () \<Longrightarrow> zs = concat (map (\<lambda>x. fst (f x)) (fst g))"
    using gen_for_yields [of "fst g" f] gen_for_end [of f "fst g"] z by simp
  ultimately show ?thesis by (cases r) (auto simp: gen_bind_def z)
qed

end
