(* ===== verification/Library_Interface.thy ===== *)
theory Library_Interface
  imports Dd_Trace Py_Gen Rc_Command "HOL-Library.Product_Lexorder" "HOL-Library.Multiset"
begin

section \<open>The interface between library and agent (interfaces/\_library/core.py)\<close>

text \<open>
  The queries of the tests on the data captured between a tracer and the agent.  The generators of
  the class yield the values of \<open>Py_Gen\<close>; a request of a test is given by its request id, and
  \<open>None\<close> is no request.  The data of the interface and its filters by path are those of
  \<open>Interface_Core\<close>.
\<close>

definition gen_any :: "('a \<Rightarrow> bool res) \<Rightarrow> 'a gen \<Rightarrow> bool res" where
  "gen_any p g = rbind (validate_loop p (fst g)) (\<lambda>b. if b then Inr True else rbind (snd g) (\<lambda>_. Inr False))"

text \<open>A filter by path is a regular expression: a dot is any character.\<close>

fun path_re :: "string \<Rightarrow> re" where
  "path_re [] = Eps"
| "path_re (c # cs) = Cat (Chr (if c = CHR ''.'' then any_char else (\<lambda>x. x = c))) (path_re cs)"

subsection \<open>Traces and spans\<close>

definition trace_paths :: "re list" where
  "trace_paths = map path_re [''/v0.4/traces'', ''/v0.5/traces'', ''/v1.0/traces'']"

definition has_rid :: "string \<Rightarrow> library_span \<Rightarrow> bool res" where
  "has_rid rid s = rbind (ls_rid s) (\<lambda>r. Inr (r = Some rid))"

text \<open>The loop over the spans stops at the first that has the request id.\<close>

definition select_trace :: "string option \<Rightarrow> dd_data \<Rightarrow> library_trace res \<Rightarrow> (dd_data \<times> library_trace) gen" where
  "select_trace rid data t =
     gen_of (rbind t (\<lambda>t. rbind (case rid of None \<Rightarrow> Inr True | Some r \<Rightarrow> validate_loop (has_rid r) (library_spans t))
       (\<lambda>found. Inr (if found then [(data, t)] else []))))"

definition data_traces :: "string option \<Rightarrow> dd_data \<Rightarrow> (dd_data \<times> library_trace) gen" where
  "data_traces rid data =
     gen_bind (gen_of (rbind (j_item ''content'' (dd_request data)) (\<lambda>content.
         if \<not> j_truthy content then Inr []
         else if hd_path data \<in> {''/v0.4/traces'', ''/v0.5/traces''} then j_iter content
         else if hd_path data = ''/v1.0/traces'' then
           rbind (j_get ''chunks'' content) (\<lambda>chunks. if j_truthy chunks then j_iter chunks else Inr [])
         else Inl Value_Error)))
       (\<lambda>raw. select_trace rid data (if hd_path data = ''/v1.0/traces'' then from_v1 data raw else from_legacy data raw))"

definition get_traces :: "bool \<Rightarrow> dd_data list \<Rightarrow> string option \<Rightarrow> (dd_data \<times> library_trace) gen" where
  "get_traces configured ds rid = gen_bind (gen_of (get_data configured ds (Some trace_paths))) (data_traces rid)"

definition get_spans ::
  "bool \<Rightarrow> dd_data list \<Rightarrow> string option \<Rightarrow> bool \<Rightarrow> (dd_data \<times> library_trace \<times> library_span) gen" where
  "get_spans configured ds rid full_trace =
     gen_bind (get_traces configured ds rid) (\<lambda>(data, t). gen_for (\<lambda>s.
       case rid of
         None \<Rightarrow> ([(data, t, s)], Inr ())
       | Some r \<Rightarrow> if full_trace then ([(data, t, s)], Inr ())
           else gen_of (rbind (has_rid r s) (\<lambda>b. Inr (if b then [(data, t, s)] else [])))) (library_spans t))"

definition is_root :: "json list \<Rightarrow> library_span \<Rightarrow> bool res" where
  "is_root roots s = rbind (ls_get ''parent_id'' J_null s) (\<lambda>v. Inr (list_ex (j_eq v) roots))"

definition get_root_spans :: "bool \<Rightarrow> dd_data list \<Rightarrow> string option \<Rightarrow> (library_trace \<times> library_span) gen" where
  "get_root_spans configured ds rid =
     gen_bind (get_spans configured ds rid False) (\<lambda>(data, t, s).
       gen_of (rbind (is_root [J_int 0, J_null] s) (\<lambda>b. Inr (if b then [(t, s)] else []))))"

definition get_root_span :: "bool \<Rightarrow> dd_data list \<Rightarrow> string option \<Rightarrow> library_span res" where
  "get_root_span configured ds rid =
     rbind (rassert (rid \<noteq> None) Assertion_Error) (\<lambda>_.
     rbind (gen_list (get_root_spans configured ds rid)) (\<lambda>spans.
       case spans of [(t, s)] \<Rightarrow> Inr s | _ \<Rightarrow> Inl Assertion_Error))"

definition assert_receive_request_root_trace :: "bool \<Rightarrow> dd_data list \<Rightarrow> unit res" where
  "assert_receive_request_root_trace configured ds =
     rbind (gen_any (\<lambda>(t, s). rbind (ls_get ''type'' J_null s) (\<lambda>v. Inr (v = J_str ''web''))) (get_root_spans configured ds None))
       (\<lambda>found. if found then Inr () else Inl Value_Error)"

text \<open>The id of a trace is that of its first root span.\<close>

definition root_trace_id :: "library_trace \<Rightarrow> json option res" where
  "root_trace_id t =
     rbind (rmap (\<lambda>s. rbind (is_root [J_str ''0'', J_int 0, J_null] s) (\<lambda>b. Inr (if b then [s] else []))) (library_spans t)) (\<lambda>spans.
       case concat spans of
         [] \<Rightarrow> Inr None
       | s # _ \<Rightarrow> rbind (ls_item ''trace_id'' s) (\<lambda>v. if j_hashable v then Inr (Some v) else Inl Type_Error))"

definition assert_trace_id_uniqueness :: "bool \<Rightarrow> dd_data list \<Rightarrow> unit res" where
  "assert_trace_id_uniqueness configured ds =
     rbind (rfold (\<lambda>(data, t) seen. rbind (root_trace_id t) (\<lambda>v.
         case v of
           None \<Rightarrow> Inr seen
         | Some i \<Rightarrow> if list_ex (j_eq i) seen then Inl Value_Error else Inr (i # seen))) (fst (get_traces configured ds None)) [])
       (\<lambda>_. snd (get_traces configured ds None))"

definition validate_one_trace ::
  "bool \<Rightarrow> dd_data list \<Rightarrow> string option \<Rightarrow> (library_trace \<Rightarrow> bool res) \<Rightarrow> unit res" where
  "validate_one_trace configured ds rid validator =
     rbind (gen_any (\<lambda>(data, t). validator t) (get_traces configured ds rid))
       (\<lambda>found. if found then Inr () else Inl Value_Error)"

definition validate_one_span ::
  "bool \<Rightarrow> dd_data list \<Rightarrow> string option \<Rightarrow> (library_span \<Rightarrow> bool res) \<Rightarrow> bool \<Rightarrow> unit res" where
  "validate_one_span configured ds rid validator full_trace =
     rbind (gen_any (\<lambda>(data, t, s). validator s) (get_spans configured ds rid full_trace))
       (\<lambda>found. if found then Inr () else Inl Value_Error)"

definition validate_all_spans ::
  "bool \<Rightarrow> dd_data list \<Rightarrow> string option \<Rightarrow> (library_span \<Rightarrow> unit res) \<Rightarrow> bool \<Rightarrow> bool \<Rightarrow> unit res" where
  "validate_all_spans configured ds rid validator full_trace allow_no_data =
     rbind (gen_each (\<lambda>(data, t, s). validator s) (get_spans configured ds rid full_trace)) (\<lambda>_.
       if \<not> allow_no_data \<and> fst (get_spans configured ds rid full_trace) = [] then Inl Value_Error else Inr ())"

definition assert_trace_exists :: "bool \<Rightarrow> dd_data list \<Rightarrow> string option \<Rightarrow> string option \<Rightarrow> unit res" where
  "assert_trace_exists configured ds rid span_type =
     rbind (gen_any (\<lambda>(data, t, s). case span_type of
         None \<Rightarrow> Inr True
       | Some ty \<Rightarrow> rbind (ls_get ''type'' J_null s) (\<lambda>v. Inr (v = J_str ty))) (get_spans configured ds rid False))
       (\<lambda>found. if found then Inr () else Inl Value_Error)"

text \<open>\<open>_SpanTagValidator\<close> without regular expressions, and \<open>add_span_tag_validation\<close>: after a success the
  validator is not called any more.\<close>

definition span_tags_match :: "jobj \<Rightarrow> library_span \<Rightarrow> bool res" where
  "span_tags_match tags s =
     rbind (rmap (\<lambda>(k, expected). rbind (ls_item ''meta'' s) (\<lambda>meta. rbind (j_contains k meta) (\<lambda>given.
       if \<not> given then Inl Value_Error
       else rbind (j_item k meta) (\<lambda>actual. if j_eq expected actual then Inr () else Inl Value_Error)))) tags) (\<lambda>_. Inr True)"

definition add_span_tag_validation :: "bool \<Rightarrow> dd_data list \<Rightarrow> string option \<Rightarrow> jobj \<Rightarrow> bool \<Rightarrow> unit res" where
  "add_span_tag_validation configured ds rid tags full_trace =
     (let g = get_spans configured ds rid full_trace in
      rbind (rfold (\<lambda>(data, t, s) success. if success then Inr True else span_tags_match tags s) (fst g) False) (\<lambda>success.
      rbind (snd g) (\<lambda>_. if success then Inr () else Inl Value_Error)))"

subsection \<open>AppSec events\<close>

text \<open>The log line of a request reads the id of the span.\<close>

definition appsec_data :: "bool \<Rightarrow> library_span \<Rightarrow> json option res" where
  "appsec_data has_request s =
     (let found = (\<lambda>holder key. rbind (if has_request then rbind (ls_item ''span_id'' s) (\<lambda>_. Inr ()) else Inr ()) (\<lambda>_.
            rbind (rbind (ls_item holder s) (j_item key)) (\<lambda>v. Inr (Some v))))
      in rbind (rbind (ls_get ''meta_struct'' (J_obj []) s) (j_contains ''appsec'')) (\<lambda>b.
         if b then found ''meta_struct'' ''appsec''
         else rbind (rbind (ls_get ''meta'' (J_obj []) s) (j_contains ''_dd.appsec.json'')) (\<lambda>b.
           if b then found ''meta'' ''_dd.appsec.json'' else Inr None)))"

definition get_appsec_events ::
  "bool \<Rightarrow> dd_data list \<Rightarrow> string option \<Rightarrow> bool \<Rightarrow> (library_span \<times> json) gen" where
  "get_appsec_events configured ds rid full_trace =
     gen_bind (get_spans configured ds rid full_trace) (\<lambda>(data, t, s).
       gen_of (rbind (appsec_data (rid \<noteq> None) s) (\<lambda>v. Inr (case v of None \<Rightarrow> [] | Some a \<Rightarrow> [(s, a)]))))"

definition appsec_paths :: "re list" where
  "appsec_paths = map path_re [''/appsec/proxy/v1/input'', ''/appsec/proxy/api/v2/appsecevts'']"

definition event_user_agents :: "json \<Rightarrow> json list res" where
  "event_user_agents event =
     rbind (rfold (\<lambda>k v. j_get_or k (J_obj []) v) [''context'', ''http'', ''request'', ''headers''] event) (\<lambda>headers.
     rbind (j_get_or ''user-agent'' (J_list []) headers) (\<lambda>uas.
       case uas of J_str s \<Rightarrow> Inr [J_str s] | _ \<Rightarrow> j_iter uas))"

definition event_matches :: "string option \<Rightarrow> json \<Rightarrow> bool res" where
  "event_matches rid event =
     rbind (j_item ''context'' event) (\<lambda>c. rbind (j_contains ''trace'' c) (\<lambda>trace.
       if \<not> trace then Inr False
       else rbind (j_contains ''span'' c) (\<lambda>span.
         if \<not> span then Inr False
         else case rid of None \<Rightarrow> Inr True
           | Some r \<Rightarrow> rbind (event_user_agents event)
               (validate_loop (\<lambda>ua. rbind (get_rid_from_user_agent ua) (\<lambda>x. Inr (x = Some r)))))))"

definition get_legacy_appsec_events :: "bool \<Rightarrow> dd_data list \<Rightarrow> string option \<Rightarrow> json gen" where
  "get_legacy_appsec_events configured ds rid =
     gen_bind (gen_of (get_data configured ds (Some appsec_paths))) (\<lambda>data.
       gen_bind (gen_of (rbind (j_path [''content'', ''events''] (dd_request data)) j_iter)) (\<lambda>event.
         gen_of (rbind (event_matches rid event) (\<lambda>b. Inr (if b then [event] else [])))))"

definition validate_one_appsec ::
  "bool \<Rightarrow> dd_data list \<Rightarrow> string option \<Rightarrow> (library_span \<Rightarrow> json \<Rightarrow> bool res) option \<Rightarrow> (json \<Rightarrow> bool res) option \<Rightarrow> bool \<Rightarrow> unit res"
where
  "validate_one_appsec configured ds rid validator legacy_validator full_trace =
     rbind (case validator of None \<Rightarrow> Inr False
            | Some v \<Rightarrow> gen_any (\<lambda>(s, a). v s a) (get_appsec_events configured ds rid full_trace)) (\<lambda>found.
       if found then Inr ()
       else rbind (case legacy_validator of None \<Rightarrow> Inr False
              | Some v \<Rightarrow> gen_any v (get_legacy_appsec_events configured ds rid)) (\<lambda>found.
         if found then Inr () else Inl Value_Error))"

definition validate_all_appsec ::
  "bool \<Rightarrow> dd_data list \<Rightarrow> string option \<Rightarrow> (library_span \<Rightarrow> json \<Rightarrow> unit res) \<Rightarrow> bool \<Rightarrow> bool \<Rightarrow> unit res" where
  "validate_all_appsec configured ds rid validator allow_no_data full_trace =
     (let g = get_appsec_events configured ds rid full_trace in
      rbind (gen_each (\<lambda>(s, a). validator s a) g) (\<lambda>_.
        if \<not> allow_no_data \<and> fst g = [] then Inl Value_Error else Inr ()))"

definition assert_no_appsec_event :: "bool \<Rightarrow> dd_data list \<Rightarrow> string option \<Rightarrow> unit res" where
  "assert_no_appsec_event configured ds rid =
     rbind (gen_each (\<lambda>_. Inl Value_Error) (get_appsec_events configured ds rid False)) (\<lambda>_.
       gen_each (\<lambda>_. Inl Value_Error) (get_legacy_appsec_events configured ds rid))"

subsection \<open>Telemetry\<close>

definition telemetry_paths :: "re list" where
  "telemetry_paths = [path_re ''/telemetry/proxy/api/v2/apmtelemetry'']"

definition content_of :: "dd_data \<Rightarrow> json res" where
  "content_of data = j_item ''content'' (dd_request data)"

text \<open>A copy of the data for one payload of a batch.\<close>

definition batch_copy :: "dd_data \<Rightarrow> json \<Rightarrow> dd_data res" where
  "batch_copy data batch_payload =
     rbind (content_of data) (\<lambda>content.
     rbind (j_get ''request_type'' batch_payload) (\<lambda>ty. rbind (j_set ''request_type'' ty content) (\<lambda>content.
     rbind (j_get ''payload'' batch_payload) (\<lambda>pl. rbind (j_set ''payload'' pl content) (\<lambda>content.
     rbind (j_set ''content'' content (dd_request data)) (\<lambda>request. Inr (data\<lparr>dd_request := request\<rparr>)))))))"

definition flatten_data :: "dd_data \<Rightarrow> dd_data gen" where
  "flatten_data data =
     (case rbind (content_of data) (j_get ''request_type'') of
        Inl e \<Rightarrow> ([], Inl e)
      | Inr ty \<Rightarrow>
          if ty = J_str ''message-batch''
          then gen_bind (gen_of (rbind (rbind (content_of data) (j_item ''payload'')) j_iter))
                 (\<lambda>b. gen_of (rbind (batch_copy data b) (\<lambda>d. Inr [d])))
          else ([data], Inr ()))"

definition get_telemetry_data :: "bool \<Rightarrow> dd_data list \<Rightarrow> bool \<Rightarrow> dd_data gen" where
  "get_telemetry_data configured ds flatten =
     (let g = gen_of (get_data configured ds (Some telemetry_paths)) in if flatten then gen_bind g flatten_data else g)"

definition lifecycle_events :: "json list" where
  "lifecycle_events = map J_str [''app-started'', ''app-closing'', ''app-integrations-change'', ''app-dependencies-loaded'',
     ''app-client-configuration-change'', ''app-product-change'']"

definition get_lifecycle_events :: "bool \<Rightarrow> dd_data list \<Rightarrow> dd_data gen" where
  "get_lifecycle_events configured ds =
     gen_bind (get_telemetry_data configured ds True) (\<lambda>data.
       gen_of (rbind (rbind (content_of data) (j_get ''request_type'')) (\<lambda>ty. Inr (if ty \<in> set lifecycle_events then [data] else []))))"

definition telemetry_configurations :: "dd_data \<Rightarrow> json list res" where
  "telemetry_configurations data =
     rbind (content_of data) (\<lambda>content.
     rbind (j_get ''request_type'' content) (\<lambda>ty.
     rbind (if ty = J_str ''message-batch'' then rbind (j_item ''payload'' content) (j_index 0) else Inr content) (\<lambda>content.
     rbind (j_get ''request_type'' content) (\<lambda>ty.
       if ty \<in> {J_str ''app-started'', J_str ''app-client-configuration-change''}
       then rbind (j_path [''payload'', ''configuration''] content) j_iter
       else Inr []))))"

definition get_telemetry_configurations :: "bool \<Rightarrow> dd_data list \<Rightarrow> json list res" where
  "get_telemetry_configurations configured ds =
     gen_list (gen_bind (get_telemetry_data configured ds True) (\<lambda>d. gen_of (telemetry_configurations d)))"

text \<open>The relevant series, with the namespace that is written into them.\<close>

definition telemetry_series :: "json \<Rightarrow> json \<Rightarrow> dd_data \<Rightarrow> json list res" where
  "telemetry_series namespace metric data =
     rbind (content_of data) (\<lambda>content. rbind (j_get ''request_type'' content) (\<lambda>ty.
       if ty \<noteq> J_str ''generate-metrics'' then Inr []
       else rbind (j_item ''payload'' content) (\<lambda>payload. rbind (j_get ''namespace'' payload) (\<lambda>fallback.
         rbind (rbind (j_item ''series'' payload) j_iter) (\<lambda>all_series.
         rbind (rmap (\<lambda>series. rbind (j_get_or ''namespace'' fallback series) (\<lambda>computed.
           rbind (j_set ''_computed_namespace'' computed series) (\<lambda>series.
             if j_eq computed namespace then rbind (j_item ''metric'' series) (\<lambda>m. Inr (if j_eq m metric then [series] else []))
             else Inr []))) all_series) (\<lambda>xss. Inr (concat xss)))))))"

definition get_telemetry_metric_series :: "bool \<Rightarrow> dd_data list \<Rightarrow> json \<Rightarrow> json \<Rightarrow> json list res" where
  "get_telemetry_metric_series configured ds namespace metric =
     gen_list (gen_bind (get_telemetry_data configured ds True) (\<lambda>d. gen_of (telemetry_series namespace metric d)))"

definition skip_onboarding_event :: "(dd_data \<Rightarrow> unit res) \<Rightarrow> dd_data \<Rightarrow> unit res" where
  "skip_onboarding_event validator data =
     rbind (rbind (content_of data) (j_get ''request_type'')) (\<lambda>ty.
       if ty = J_str ''apm-onboarding-event'' then Inr () else validator data)"

definition validate_telemetry :: "bool \<Rightarrow> dd_data list \<Rightarrow> (dd_data \<Rightarrow> unit res) \<Rightarrow> unit res" where
  "validate_telemetry configured ds validator =
     validate_all configured ds (skip_onboarding_event validator) (Some telemetry_paths) True"

subsection \<open>Sequence numbers of telemetry (interfaces/\_library/telemetry.py)\<close>

text \<open>\<open>HTTPStatus(code)\<close> accepts these codes; sequence numbers are integers.\<close>

definition http_statuses :: "int list" where
  "http_statuses = [100..103] @ [200..208] @ [226] @ [300..305] @ [307, 308] @ [400..418] @ [421..426] @ [428, 429, 431, 451] @
     [500..508] @ [510, 511]"

definition is_success :: "json \<Rightarrow> bool res" where
  "is_success status =
     (case status of
        J_int n \<Rightarrow> if n \<in> set http_statuses then Inr (200 \<le> n \<and> n \<le> 299) else Inl Value_Error
      | _ \<Rightarrow> Inl Value_Error)"

definition j_integer :: "json \<Rightarrow> int res" where
  "j_integer v = (case v of J_int n \<Rightarrow> Inr n | _ \<Rightarrow> Inl Type_Error)"

definition seq_id_of :: "dd_data \<Rightarrow> int res" where
  "seq_id_of data = rbind (rbind (content_of data) (j_item ''seq_id'')) j_integer"

text \<open>What \<open>_NoSkippedSeqId\<close> remembers of one message, and its \<open>final_check\<close>.\<close>

definition seq_entry :: "dd_data \<Rightarrow> (int \<times> string) list res" where
  "seq_entry data =
     rbind (rbind (j_item ''status_code'' (dd_response data)) is_success) (\<lambda>ok.
       if ok then rbind (seq_id_of data) (\<lambda>n. Inr [(n, log_filename data)]) else Inr [])"

fun check_gaps :: "(int \<times> string) list \<Rightarrow> unit res" where
  "check_gaps (x # y # xs) =
     (if fst y - fst x = 0 then Inl Value_Error
      else if fst y - fst x > 1 then Inl Value_Error
      else check_gaps (y # xs))"
| "check_gaps xs = Inr ()"

definition final_check :: "(int \<times> string) list \<Rightarrow> unit res" where
  "final_check seq_ids = check_gaps (sort seq_ids)"

definition seq_entries :: "bool \<Rightarrow> dd_data list \<Rightarrow> (int \<times> string) list res" where
  "seq_entries configured ds =
     rbind (get_data configured ds (Some telemetry_paths)) (\<lambda>ds.
     rbind (rmap (\<lambda>d. rbind (rbind (content_of d) (j_get ''request_type'')) (\<lambda>ty.
       if ty = J_str ''apm-onboarding-event'' then Inr [] else seq_entry d)) ds) (\<lambda>xss. Inr (concat xss)))"

definition assert_no_skipped_seq_ids :: "bool \<Rightarrow> dd_data list \<Rightarrow> unit res" where
  "assert_no_skipped_seq_ids configured ds = rbind (seq_entries configured ds) final_check"

text \<open>\<open>_SeqIdLatencyValidation\<close>: the greatest number so far and when it was seen; \<open>late a b\<close> says that more
  than the allowed lag lies between the two times.\<close>

definition latency_step :: "('t \<Rightarrow> 't \<Rightarrow> bool) \<Rightarrow> int \<times> 't \<Rightarrow> int \<times> 't option \<Rightarrow> (int \<times> 't option) res" where
  "latency_step late m s =
     (let (seq_id, now) = m; (max_seq_id, received_max_time) = s in
      if seq_id > max_seq_id then Inr (seq_id, Some now)
      else case received_max_time of
        Some t \<Rightarrow> if late t now then Inl Value_Error else Inr s
      | None \<Rightarrow> Inr s)"

subsection \<open>Headers (interfaces/\_misc\_validators.py)\<close>

definition headers_presence :: "string list \<Rightarrow> string list \<Rightarrow> (dd_data \<Rightarrow> bool) option \<Rightarrow> dd_data \<Rightarrow> unit res" where
  "headers_presence request_headers response_headers check_condition data =
     (let missing = (\<lambda>required m. set required - (\<lambda>h. str_lower (fst h)) ` set (hm_headers m)) in
      if (case check_condition of None \<Rightarrow> False | Some c \<Rightarrow> \<not> c data) then Inr ()
      else rbind (rassert (missing request_headers (hd_request data) = {}) Value_Error) (\<lambda>_.
        case hd_response data of
          None \<Rightarrow> Inl Type_Error
        | Some r \<Rightarrow> rassert (missing response_headers r = {}) Value_Error))"

definition assert_headers_presence ::
  "bool \<Rightarrow> dd_data list \<Rightarrow> re list option \<Rightarrow> string list \<Rightarrow> string list \<Rightarrow> (dd_data \<Rightarrow> bool) option \<Rightarrow> unit res" where
  "assert_headers_presence configured ds path_filter request_headers response_headers check_condition =
     validate_all configured ds (headers_presence request_headers response_headers check_condition) path_filter True"

subsection \<open>Remote configuration\<close>

definition config_paths :: "re list" where "config_paths = [path_re ''/v0.7/config'']"

text \<open>\<open>int.from_bytes\<close>, most significant byte first, of a list of numbers or a base64 text.\<close>

definition int_of_bytes :: "bytes \<Rightarrow> nat" where
  "int_of_bytes bs = foldl (\<lambda>acc b. acc * 256 + unat b) 0 bs"

fun j_byte :: "json \<Rightarrow> 8 word res" where
  "j_byte (J_int n) = (if 0 \<le> n \<and> n < 256 then Inr (word_of_int n) else Inl Value_Error)"
| "j_byte (J_bool b) = Inr (if b then 1 else 0)"
| "j_byte v = Inl Type_Error"

definition int_capabilities :: "json \<Rightarrow> nat res" where
  "int_capabilities v =
     rbind (case v of J_list xs \<Rightarrow> rmap j_byte xs | _ \<Rightarrow> j_b64decode v) (\<lambda>bs. Inr (int_of_bytes bs))"

definition has_capability :: "nat \<Rightarrow> nat \<Rightarrow> bool" where
  "has_capability n capability \<longleftrightarrow> and (drop_bit capability n) 1 = 1"

definition rc_client :: "dd_data \<Rightarrow> json res" where
  "rc_client data = j_path [''content'', ''client''] (dd_request data)"

definition assert_rc_capability :: "bool \<Rightarrow> dd_data list \<Rightarrow> nat \<Rightarrow> unit res" where
  "assert_rc_capability configured ds capability =
     rbind (get_data configured ds (Some config_paths)) (\<lambda>ds.
     rbind (rmap (\<lambda>d. rbind (rbind (rc_client d) (j_item ''capabilities'')) int_capabilities) ds) (\<lambda>ns.
       rassert (list_ex (\<lambda>n. has_capability n capability) ns) Assertion_Error))"

definition capability_names :: "nat \<Rightarrow> string set" where
  "capability_names n = fst ` set (filter (\<lambda>(name, c). has_capability n c) capabilities)"

definition capabilities_step :: "json option \<Rightarrow> dd_data \<Rightarrow> bool \<times> string set \<Rightarrow> (bool \<times> string set) res" where
  "capabilities_step targets_version data s =
     rbind (rc_client data) (\<lambda>client.
     rbind (case targets_version of None \<Rightarrow> Inr True
            | Some v \<Rightarrow> rbind (j_path [''state'', ''targets_version''] client) (\<lambda>w. Inr (j_eq w v))) (\<lambda>relevant.
       if \<not> relevant then Inr s
       else rbind (rbind (j_item ''capabilities'' client) int_capabilities) (\<lambda>n.
         Inr (True, if targets_version = None then snd s \<union> capability_names n else capability_names n))))"

definition get_rc_capabilities :: "bool \<Rightarrow> dd_data list \<Rightarrow> json option \<Rightarrow> string set res" where
  "get_rc_capabilities configured ds targets_version =
     rbind (get_data configured ds (Some config_paths)) (\<lambda>ds.
     rbind (rfold (capabilities_step targets_version) ds (False, {})) (\<lambda>(found, result).
       if targets_version \<noteq> None \<and> \<not> found then Inl Assertion_Error else Inr result))"

definition apply_state_step :: "string \<Rightarrow> string \<Rightarrow> int \<Rightarrow> dd_data \<Rightarrow> bool res" where
  "apply_state_step prod_name config_id apply_state data =
     rbind (rbind (rc_client data) (j_item ''state'')) (\<lambda>state.
     rbind (rbind (j_get_or ''config_states'' (J_list []) state) j_iter) (\<lambda>config_states.
     rbind (rmap (\<lambda>cs. rbind (j_item ''id'' cs) (\<lambda>i.
       if i \<noteq> J_str config_id then Inr False
       else rbind (j_item ''product'' cs) (\<lambda>p.
         if p \<noteq> J_str prod_name then Inr False
         else rbind (j_item ''apply_state'' cs) (\<lambda>v.
           rbind (rassert (j_eq v (J_int apply_state)) Assertion_Error) (\<lambda>_. Inr True))))) config_states) (\<lambda>bs.
       Inr (list_ex id bs))))"

definition assert_rc_apply_state :: "bool \<Rightarrow> dd_data list \<Rightarrow> string \<Rightarrow> string \<Rightarrow> int \<Rightarrow> unit res" where
  "assert_rc_apply_state configured ds prod_name config_id apply_state =
     rbind (get_data configured ds (Some config_paths)) (\<lambda>ds.
     rbind (rmap (apply_state_step prod_name config_id apply_state) ds) (\<lambda>bs. rassert (list_ex id bs) Assertion_Error))"

text \<open>Python's \<open>==\<close> on nested values: a dictionary does not depend on its order.\<close>

lemma in_list_size: "x \<in> set xs \<Longrightarrow> size x \<le> size_list size xs"
  by (erule size_list_estimation') simp

lemma in_obj_size: "(k, v) \<in> set m \<Longrightarrow> size v \<le> size_list (size_prod (\<lambda>_. 0) size) m"
  by (erule size_list_estimation') simp

function j_same :: "json \<Rightarrow> json \<Rightarrow> bool" where
  "j_same a b =
     (case (a, b) of
        (J_list xs, J_list ys) \<Rightarrow> length xs = length ys \<and> list_all (\<lambda>p. j_same (fst p) (snd p)) (zip xs ys)
      | (J_obj m, J_obj n) \<Rightarrow> length m = length n \<and>
          list_all (\<lambda>p. case dget n (fst p) of None \<Rightarrow> False | Some w \<Rightarrow> j_same (snd p) w) m
      | _ \<Rightarrow> j_eq a b)"
  by pat_completeness auto
termination
  by (relation "measure (size \<circ> fst)") (auto dest!: set_zip_leftD dest: in_list_size in_obj_size simp: less_Suc_eq_le)

definition drop_empty_error :: "json \<Rightarrow> json res" where
  "drop_empty_error config_state =
     rbind (j_contains ''apply_error'' config_state) (\<lambda>given.
       if \<not> given then Inr config_state
       else rbind (j_item ''apply_error'' config_state) (\<lambda>e. Inr (case config_state of
         J_obj m \<Rightarrow> if e \<in> {J_null, J_str []} then J_obj (ddel ''apply_error'' m) else config_state
       | _ \<Rightarrow> config_state)))"

definition version_states_step :: "json \<Rightarrow> json list \<Rightarrow> dd_data \<Rightarrow> bool res" where
  "version_states_step targets_version config_states data =
     rbind (rbind (rc_client data) (j_item ''state'')) (\<lambda>state.
     rbind (j_item ''targets_version'' state) (\<lambda>v.
       if \<not> j_same v targets_version then Inr False
       else rbind (j_get ''has_error'' state) (\<lambda>has_error.
         rbind (rassert (\<not> j_truthy has_error) Assertion_Error) (\<lambda>_.
         rbind (j_get_or ''config_states'' (J_list []) state) (\<lambda>observed.
         rbind (j_iter observed) (\<lambda>states. rbind (rmap drop_empty_error states) (\<lambda>states.
         rbind (rassert (case observed of J_list _ \<Rightarrow> j_same (J_list config_states) (J_list states) | _ \<Rightarrow> False)
           Assertion_Error) (\<lambda>_. Inr True))))))))"

definition assert_rc_targets_version_states :: "bool \<Rightarrow> dd_data list \<Rightarrow> json \<Rightarrow> json list \<Rightarrow> unit res" where
  "assert_rc_targets_version_states configured ds targets_version config_states =
     rbind (get_data configured ds (Some config_paths)) (\<lambda>ds.
     rbind (rmap (version_states_step targets_version config_states) ds) (\<lambda>bs. rassert (list_ex id bs) Assertion_Error))"

text \<open>The pattern of the paths is \<open>/v\d+.\d+/config\<close>, whose dot is any character.\<close>

definition any_config_paths :: "re list" where
  "any_config_paths = [Cat (Lit ''/v'') (Cat (Plus (Chr is_digit)) (Cat (Chr any_char) (Cat (Plus (Chr is_digit)) (Lit ''/config''))))]"

definition validate_one_remote_configuration :: "bool \<Rightarrow> dd_data list \<Rightarrow> (dd_data \<Rightarrow> bool res) \<Rightarrow> unit res" where
  "validate_one_remote_configuration configured ds validator = validate_one configured ds validator (Some any_config_paths)"

definition validate_all_remote_configuration :: "bool \<Rightarrow> dd_data list \<Rightarrow> (dd_data \<Rightarrow> unit res) \<Rightarrow> bool \<Rightarrow> unit res" where
  "validate_all_remote_configuration configured ds validator allow_no_data =
     validate_all configured ds validator (Some any_config_paths) allow_no_data"

subsection \<open>All traces, headers that match, process tags\<close>

text \<open>\<open>/v0\.[1-9]+/traces\<close>.\<close>

definition v0_trace_paths :: "re list" where
  "v0_trace_paths =
     [Cat (Lit ''/v0.'') (Cat (Plus (Chr (\<lambda>c. is_digit c \<and> c \<noteq> CHR ''0''))) (Lit ''/traces''))]"

definition validate_all_traces :: "bool \<Rightarrow> dd_data list \<Rightarrow> (dd_data \<Rightarrow> unit res) \<Rightarrow> bool \<Rightarrow> unit res" where
  "validate_all_traces configured ds validator allow_no_trace =
     validate_all configured ds validator (Some v0_trace_paths) allow_no_trace"

definition get_profiling_data :: "bool \<Rightarrow> dd_data list \<Rightarrow> dd_data gen" where
  "get_profiling_data configured ds = gen_of (get_data configured ds (Some [path_re ''/profiling/v1/input'']))"

definition headers_match_one :: "(string \<times> re) list \<Rightarrow> http_message \<Rightarrow> unit res" where
  "headers_match_one required m =
     (let headers = fold (\<lambda>h. dset (str_lower (fst h)) (snd h)) (hm_headers m) [] in
      rbind (rmap (\<lambda>(name, regexp). rbind (dgetitem headers (str_lower name)) (\<lambda>header.
        rassert (header \<noteq> [] \<and> re_match regexp header \<noteq> None) Value_Error)) required) (\<lambda>_. Inr ()))"

definition headers_match ::
  "(string \<times> re) list \<Rightarrow> (string \<times> re) list \<Rightarrow> (dd_data \<Rightarrow> bool) option \<Rightarrow> dd_data \<Rightarrow> unit res" where
  "headers_match request_headers response_headers check_condition data =
     (if (case check_condition of None \<Rightarrow> False | Some c \<Rightarrow> \<not> c data) then Inr ()
      else rbind (headers_match_one request_headers (hd_request data)) (\<lambda>_.
        rbind (message_of Response data) (headers_match_one response_headers)))"

definition validate_process_tags :: "string \<Rightarrow> unit res" where
  "validate_process_tags process_tags =
     rassert (str_contains process_tags ''entrypoint.name:'' \<and> str_contains process_tags ''entrypoint.workdir:'') Value_Error"

definition validate_process_tags_svc :: "string \<Rightarrow> unit res" where
  "validate_process_tags_svc process_tags =
     rbind (validate_process_tags process_tags) (\<lambda>_.
       rassert (str_contains process_tags ''svc.auto:'' \<or> str_contains process_tags ''svc.user'') Value_Error)"

subsection \<open>What the tests wait for\<close>

text \<open>The functions given to \<open>wait_for\<close>.\<close>

definition remote_config_request_seen :: "dd_data \<Rightarrow> bool res" where
  "remote_config_request_seen data =
     (if hd_path data = ''/v0.7/config''
      then rbind (j_get_or ''content'' (J_obj []) (dd_response data)) (j_contains ''client_configs'')
      else Inr False)"

definition stats_payload_seen :: "dd_data \<Rightarrow> bool res" where
  "stats_payload_seen data = Inr (hd_path data = ''/v0.6/stats'')"

subsection \<open>The spans of a request\<close>

lemma validate_loop_total: "(\<And>x. x \<in> set xs \<Longrightarrow> p x = Inr (q x)) \<Longrightarrow> validate_loop p xs = Inr (list_ex q xs)"
  by (induction xs) auto

definition span_has :: "string \<Rightarrow> library_span \<Rightarrow> bool" where
  "span_has rid s \<longleftrightarrow> ls_rid s = Inr (Some rid)"

definition readable :: "library_span \<Rightarrow> bool" where
  "readable s \<longleftrightarrow> is_ok (ls_rid s)"

lemma has_rid_readable: "readable s \<Longrightarrow> has_rid rid s = Inr (span_has rid s)"
  by (cases "ls_rid s") (auto simp: readable_def has_rid_def span_has_def)

lemma select_trace_Some:
  assumes "select_trace None data t = (xs, Inr ())" and "\<forall>(d, t) \<in> set xs. list_all readable (library_spans t)"
  shows "select_trace (Some rid) data t = (filter (\<lambda>(d, t). list_ex (span_has rid) (library_spans t)) xs, Inr ())"
proof (cases t)
  case (Inr u)
  then have xs: "xs = [(data, u)]" using assms(1) by (simp add: select_trace_def gen_of_def)
  then have "validate_loop (has_rid rid) (library_spans u) = Inr (list_ex (span_has rid) (library_spans u))"
    using assms(2) by (intro validate_loop_total has_rid_readable) (auto simp: list_all_iff)
  then show ?thesis by (simp add: select_trace_def gen_of_def Inr xs)
qed (use assms(1) in \<open>simp add: select_trace_def gen_of_def\<close>)

lemma filter_bind:
  assumes "gen_bind g f = (xs, Inr ())"
    and "\<And>x ys. x \<in> set (fst g) \<Longrightarrow> f x = (ys, Inr ()) \<Longrightarrow> set ys \<subseteq> set xs \<Longrightarrow> f' x = (filter P ys, Inr ())"
  shows "gen_bind g f' = (filter P xs, Inr ())"
proof -
  have g: "snd g = Inr ()" "\<forall>x \<in> set (fst g). snd (f x) = Inr ()" "xs = concat (map (\<lambda>x. fst (f x)) (fst g))"
    using assms(1) by (simp_all add: gen_bind_ok)
  have each: "f' x = (filter P (fst (f x)), Inr ())" if x: "x \<in> set (fst g)" for x
  proof (rule assms(2) [OF x])
    show "f x = (fst (f x), Inr ())" using g(2) x by (simp add: prod_eq_iff)
    show "set (fst (f x)) \<subseteq> set xs" using x by (auto simp: g(3))
  qed
  then have "map (\<lambda>x. fst (f' x)) (fst g) = map (\<lambda>x. filter P (fst (f x))) (fst g)" by simp
  then have "filter P xs = concat (map (\<lambda>x. fst (f' x)) (fst g))" by (simp only: g(3) filter_concat map_map o_def)
  then show ?thesis using g(1) each by (simp add: gen_bind_ok)
qed

lemma get_traces_request:
  assumes "get_traces configured ds None = (ts, Inr ())" and "\<forall>(d, t) \<in> set ts. list_all readable (library_spans t)"
  shows "get_traces configured ds (Some rid) = (filter (\<lambda>(d, t). list_ex (span_has rid) (library_spans t)) ts, Inr ())"
  unfolding get_traces_def
proof (rule filter_bind)
  show "gen_bind (gen_of (get_data configured ds (Some trace_paths))) (data_traces None) = (ts, Inr ())"
    using assms(1) by (simp add: get_traces_def)
  fix data us assume us: "data_traces None data = (us, Inr ())" "set us \<subseteq> set ts"
  show "data_traces (Some rid) data = (filter (\<lambda>(d, t). list_ex (span_has rid) (library_spans t)) us, Inr ())"
    unfolding data_traces_def
  proof (rule filter_bind)
    fix raw vs assume "select_trace None data (if hd_path data = ''/v1.0/traces'' then from_v1 data raw else from_legacy data raw) = (vs, Inr ())"
      "set vs \<subseteq> set us"
    then show "select_trace (Some rid) data (if hd_path data = ''/v1.0/traces'' then from_v1 data raw else from_legacy data raw)
        = (filter (\<lambda>(d, t). list_ex (span_has rid) (library_spans t)) vs, Inr ())"
      using assms(2) us(2) by (intro select_trace_Some) blast+
  qed (rule us(1) [unfolded data_traces_def])
qed

definition trace_rows :: "dd_data \<times> library_trace \<Rightarrow> (dd_data \<times> library_trace \<times> library_span) list" where
  "trace_rows p = map (\<lambda>s. (fst p, snd p, s)) (library_spans (snd p))"

lemma get_spans_all:
  "get_spans configured ds None full_trace = (all, Inr ()) \<longleftrightarrow>
     (\<exists>ts. get_traces configured ds None = (ts, Inr ()) \<and> all = concat (map trace_rows ts))"
proof -
  have row: "gen_for (\<lambda>s. ([(d, t, s)], Inr ())) ss = (map (\<lambda>s. (d, t, s)) ss, Inr ())" for d :: dd_data and t :: library_trace and ss
    by (induction ss) auto
  show ?thesis
    by (cases "get_traces configured ds None") (auto simp: get_spans_def gen_bind_ok row trace_rows_def [abs_def] case_prod_beta)
qed

text \<open>C17.  The spans of a request are exactly the captured spans that carry its request id, in order,
  whatever trace they are in; with the full traces they are exactly the spans of the traces in
  which some span carries it.\<close>

theorem spans_of_request:
  assumes "get_spans configured ds None False = (all, Inr ())" and "list_all (\<lambda>(d, t, s). readable s) all"
  shows "get_spans configured ds (Some rid) False = (filter (\<lambda>(d, t, s). span_has rid s) all, Inr ()) \<and>
    get_spans configured ds (Some rid) True = (filter (\<lambda>(d, t, s). list_ex (span_has rid) (library_spans t)) all, Inr ())"
proof -
  obtain ts where ts: "get_traces configured ds None = (ts, Inr ())" "all = concat (map trace_rows ts)"
    using assms(1) get_spans_all by blast
  have readable: "\<forall>(d, t) \<in> set ts. list_all readable (library_spans t)"
    using assms(2) by (fastforce simp: ts(2) trace_rows_def list_all_iff)
  note request = get_traces_request [OF ts(1) readable, of rid]
  let ?Q = "\<lambda>(d :: dd_data, t). list_ex (span_has rid) (library_spans t)"
  let ?P = "\<lambda>(d :: dd_data, t :: library_trace, s). span_has rid s"
  let ?full = "\<lambda>(d :: dd_data, t, s :: library_span). list_ex (span_has rid) (library_spans t)"
  have row: "gen_for (\<lambda>s. ([(d, t, s)], Inr ())) ss = (map (\<lambda>s. (d, t, s)) ss, Inr ())" for d :: dd_data and t :: library_trace and ss
    by (induction ss) auto
  have one: "gen_for (\<lambda>s. gen_of (rbind (has_rid rid s) (\<lambda>b. Inr (if b then [(d, t, s)] else [])))) ss =
      (filter ?P (map (\<lambda>s. (d, t, s)) ss), Inr ())" if "list_all readable ss" for d :: dd_data and t :: library_trace and ss
    using that by (induction ss) (auto simp: has_rid_readable gen_of_def)
  have rows: "filter ?full (trace_rows p) = (if ?Q p then trace_rows p else [])" "\<not> ?Q p \<Longrightarrow> filter ?P (trace_rows p) = []" for p
    by (auto simp: trace_rows_def filter_empty_conv list_ex_iff split: prod.splits)
  have some: "concat (map (\<lambda>p. filter ?P (trace_rows p)) (filter ?Q us)) = filter ?P (concat (map trace_rows us))"
    "concat (map trace_rows (filter ?Q us)) = filter ?full (concat (map trace_rows us))" for us
    using rows by (induction us) auto
  have "get_spans configured ds (Some rid) False = (concat (map (\<lambda>p. filter ?P (trace_rows p)) (filter ?Q ts)), Inr ())"
    unfolding get_spans_def gen_bind_ok
    using one readable by (auto simp: request trace_rows_def intro!: arg_cong [of _ _ concat] split: prod.splits)
  moreover have "get_spans configured ds (Some rid) True = (concat (map trace_rows (filter ?Q ts)), Inr ())"
    unfolding get_spans_def gen_bind_ok by (auto simp: request trace_rows_def row split: prod.splits intro!: arg_cong [of _ _ concat])
  ultimately show ?thesis by (simp add: some ts(2))
qed


definition sample_rid :: string where "sample_rid = replicate 36 (CHR ''A'')"

definition sample_span :: "int \<Rightarrow> string \<Rightarrow> json" where
  "sample_span i user_agent = J_obj [(''span_id'', J_int i), (''trace_id'', J_int 9),
     (''meta'', J_obj [(''http.useragent'', J_str user_agent)])]"

definition sample_data :: dd_data where
  "sample_data = \<lparr>log_filename = ''00000.json'', hd_path = ''/v0.4/traces'',
     hd_request = \<lparr>hm_headers = [], hm_has_content = True\<rparr>, hd_response = None,
     dd_request = J_obj [(''content'', J_list [J_list [sample_span 1 (''system_tests rid/'' @ sample_rid), sample_span 2 ''curl'']])],
     dd_response = J_null\<rparr>"

theorem spans_of_request_witness:
  "\<exists>all. get_spans True [sample_data] None False = (all, Inr ()) \<and>
    get_spans True [sample_data] (Some sample_rid) False = (filter (\<lambda>(d, t, s). span_has sample_rid s) all, Inr ())"
proof -
  have ok: "snd (get_spans True [sample_data] None False) = Inr ()" by code_simp
  have readable: "list_all (\<lambda>(d, t, s). readable s) (fst (get_spans True [sample_data] None False))" by code_simp
  obtain all where all: "get_spans True [sample_data] None False = (all, Inr ())" using ok by (metis prod.collapse)
  then have "list_all (\<lambda>(d, t, s). readable s) all" using readable by simp
  with spans_of_request [OF all this, of sample_rid] all show ?thesis by blast
qed


subsection \<open>Sequence numbers without gap\<close>

lemma check_gaps_iff:
  "sorted (map fst xs) \<Longrightarrow> check_gaps xs = Inr () \<longleftrightarrow>
     (xs = [] \<or> map fst xs = [fst (hd xs)..fst (hd xs) + int (length xs) - 1])"
proof (induction xs rule: check_gaps.induct)
  case (1 x y xs)
  let ?n = "int (length (y # xs))"
  have ih: "check_gaps (y # xs) = Inr () \<longleftrightarrow> map fst (y # xs) = [fst y..fst y + ?n - 1]"
    if "fst y - fst x \<noteq> 0" "\<not> 1 < fst y - fst x" using 1 that by simp
  have first: "[fst x..fst x + int (length (x # y # xs)) - 1] = fst x # [fst x + 1..fst x + ?n]" by (subst upto.simps) (simp add: algebra_simps)
  have second: "[fst x + 1..fst x + ?n] = (fst x + 1) # [fst x + 2..fst x + ?n]" by (subst upto.simps) (simp add: algebra_simps)
  show ?case
  proof (cases "fst y = fst x + 1")
    case True
    then have "check_gaps (x # y # xs) = Inr () \<longleftrightarrow> map fst (y # xs) = [fst y..fst y + ?n - 1]" using ih by simp
    moreover have "fst y + ?n - 1 = fst x + ?n" using True by simp
    ultimately have "check_gaps (x # y # xs) = Inr () \<longleftrightarrow> map fst (y # xs) = [fst x + 1..fst x + ?n]" using True by (simp only:)
    then show ?thesis by (simp only: list.map list.sel list.distinct first list.inject simp_thms)
  next
    case False
    then have "fst y - fst x = 0 \<or> 1 < fst y - fst x" using 1(2) by auto
    then have "check_gaps (x # y # xs) \<noteq> Inr ()" by auto
    moreover have "map fst (x # y # xs) \<noteq> [fst x..fst x + int (length (x # y # xs)) - 1]"
      using False by (simp only: first second list.map) simp
    ultimately show ?thesis by simp
  qed
qed (simp_all add: upto.simps)

lemma sorted_fst: "sorted (xs :: (int \<times> string) list) \<Longrightarrow> sorted (map fst xs)"
  by (induction xs) (auto simp: less_eq_prod_def)

text \<open>C23.  The check of the telemetry sequence numbers passes exactly when the numbers of the accepted
  messages are consecutive, each once, in whatever order the messages were captured.\<close>

theorem no_skipped_seq_ids_iff:
  assumes "seq_entries configured ds = Inr es"
  shows "assert_no_skipped_seq_ids configured ds = Inr () \<longleftrightarrow>
    (\<exists>a. mset (map fst es) = mset [a..a + int (length es) - 1])"
proof -
  let ?ys = "sort es"
  have sorted: "sorted (map fst ?ys)" by (intro sorted_fst) simp
  have same: "mset (map fst ?ys) = mset (map fst es)" by (simp only: mset_map mset_sort)
  have "check_gaps ?ys = Inr () \<longleftrightarrow> (\<exists>a. mset (map fst es) = mset [a..a + int (length es) - 1])"
  proof
    assume "check_gaps ?ys = Inr ()"
    then consider "es = []" | "map fst ?ys = [fst (hd ?ys)..fst (hd ?ys) + int (length es) - 1]"
      using check_gaps_iff [OF sorted] by (metis length_0_conv length_sort)
    then show "\<exists>a. mset (map fst es) = mset [a..a + int (length es) - 1]"
    proof cases
      case 1
      then show ?thesis by (simp add: upto.simps)
    next
      case 2
      then show ?thesis using same by (intro exI [of _ "fst (hd ?ys)"]) metis
    qed
  next
    assume "\<exists>a. mset (map fst es) = mset [a..a + int (length es) - 1]"
    then obtain a where a: "mset (map fst es) = mset [a..a + int (length es) - 1]" by blast
    have "sort (map fst es) = [a..a + int (length es) - 1]" by (rule properties_for_sort, rule a [symmetric], rule sorted_upto)
    moreover have "sort (map fst es) = map fst ?ys" by (rule properties_for_sort) (simp_all add: sorted)
    ultimately have run: "map fst ?ys = [a..a + int (length es) - 1]" by simp
    then have "?ys = [] \<or> fst (hd ?ys) = a"
      by (cases ?ys) (auto simp: upto.simps [of a] split: if_splits)
    then show "check_gaps ?ys = Inr ()" using check_gaps_iff [OF sorted] run by auto
  qed
  then show ?thesis using assms by (simp add: assert_no_skipped_seq_ids_def final_check_def)
qed

subsection \<open>Tags of spans\<close>

lemma span_tags_match_True: "span_tags_match tags s = Inr b \<Longrightarrow> b"
  by (auto simp: span_tags_match_def rbind_Inr_iff)

text \<open>The validation of the tags looks at the first span only: it passes exactly when all spans can be
  read and the first one has the tags; a first span without them fails it, whatever follows.\<close>

theorem span_tag_validation_first:
  "add_span_tag_validation configured ds rid tags full_trace = Inr () \<longleftrightarrow>
     (\<exists>data t s rest. get_spans configured ds rid full_trace = ((data, t, s) # rest, Inr ()) \<and> span_tags_match tags s = Inr True)"
proof -
  obtain ss e where g: "get_spans configured ds rid full_trace = (ss, e)" by force
  have rest: "rfold (\<lambda>(data, t, s) success. if success then Inr True else span_tags_match tags s) xs True = Inr True" for xs
    by (induction xs) auto
  show ?thesis
  proof (cases ss)
    case Nil
    then show ?thesis by (cases e) (simp_all add: add_span_tag_validation_def g)
  next
    case (Cons p xs)
    obtain d t s where p: "p = (d, t, s)" by (cases p) auto
    show ?thesis
    proof (cases "span_tags_match tags s")
      case (Inl a)
      then show ?thesis by (simp add: add_span_tag_validation_def g Cons p)
    next
      case (Inr b)
      then have "span_tags_match tags s = Inr True" using span_tags_match_True by auto
      then show ?thesis by (cases e) (simp_all add: add_span_tag_validation_def g Cons p rest)
    qed
  qed
qed


definition telemetry_message :: "int \<Rightarrow> string \<Rightarrow> dd_data" where
  "telemetry_message n file_name = \<lparr>log_filename = file_name, hd_path = ''/telemetry/proxy/api/v2/apmtelemetry'',
     hd_request = \<lparr>hm_headers = [], hm_has_content = True\<rparr>, hd_response = None,
     dd_request = J_obj [(''content'', J_obj [(''request_type'', J_str ''app-started''), (''seq_id'', J_int n)])],
     dd_response = J_obj [(''status_code'', J_int 202)]\<rparr>"

theorem no_skipped_seq_ids_iff_witness:
  "assert_no_skipped_seq_ids True [telemetry_message 8 ''a'', telemetry_message 7 ''b''] = Inr ()"
proof -
  have "seq_entries True [telemetry_message 8 ''a'', telemetry_message 7 ''b''] = Inr [(8, ''a''), (7, ''b'')]" by code_simp
  from no_skipped_seq_ids_iff [OF this] show ?thesis
    by (simp add: exI [of _ 7] upto.simps add_mset_commute)
qed

subsection \<open>Capabilities\<close>

lemma has_capability_bit: "has_capability n c \<longleftrightarrow> bit n c"
  by (simp add: has_capability_def and_one_eq bit_iff_odd_drop_bit odd_iff_mod_2_eq_one)

lemma int_of_bytes_snoc: "int_of_bytes (bs @ [b]) = int_of_bytes bs * 256 + unat b"
  by (simp add: int_of_bytes_def)

text \<open>Capability \<open>c\<close> is the bit \<open>c mod 8\<close> of the byte that is \<open>c div 8\<close> bytes from the end.\<close>

lemma has_capability_byte:
  "has_capability (int_of_bytes bs) c \<longleftrightarrow> c div 8 < length bs \<and> bit (rev bs ! (c div 8)) (c mod 8)"
proof (induction bs arbitrary: c rule: rev_induct)
  case Nil
  then show ?case by (simp add: has_capability_bit int_of_bytes_def)
next
  case (snoc b bs)
  have small: "unat b < 256" using unsigned_less [of b, where ?'a = nat] by simp
  have split: "bit (m * 256 + unat b) c \<longleftrightarrow> (if c < 8 then bit b c else bit m (c - 8))" for m
  proof (cases "c < 8")
    case True
    have "bit (take_bit 8 (m * 256 + unat b)) c = bit (m * 256 + unat b) c" using True by (simp only: bit_take_bit_iff simp_thms)
    moreover have "take_bit 8 (m * 256 + unat b) = unat b" using small by (simp add: take_bit_eq_mod)
    moreover have "bit (unat b) c = bit b c" by (simp add: bit_unsigned_iff)
    ultimately show ?thesis using True by simp
  next
    case False
    have "bit (drop_bit 8 (m * 256 + unat b)) (c - 8) = bit (m * 256 + unat b) c" using False by (simp only: bit_drop_bit_eq o_apply le_add_diff_inverse not_less)
    moreover have "drop_bit 8 (m * 256 + unat b) = m" using small by (simp add: drop_bit_eq_div)
    ultimately show ?thesis using False by simp
  qed
  show ?case
  proof (cases "c < 8")
    case True
    then show ?thesis by (simp add: has_capability_bit int_of_bytes_snoc split)
  next
    case False
    then obtain d where d: "c = d + 8" by (metis add.commute le_Suc_ex linorder_not_less)
    then have "c div 8 = Suc (d div 8)" "c mod 8 = d mod 8" by simp_all
    then show ?thesis using snoc.IH [of d] split [of "int_of_bytes bs"] False
      by (simp add: has_capability_bit int_of_bytes_snoc d)
  qed
qed


lemma capability_names_bits: "name \<in> capability_names n \<longleftrightarrow> (\<exists>c. (name, c) \<in> set capabilities \<and> bit n c)"
  by (force simp: capability_names_def has_capability_bit)

definition reports :: "dd_data \<Rightarrow> json \<Rightarrow> nat \<Rightarrow> bool" where
  "reports d version n \<longleftrightarrow> (\<exists>client. rc_client d = Inr client \<and>
     j_path [''state'', ''targets_version''] client = Inr version \<and>
     rbind (j_item ''capabilities'' client) int_capabilities = Inr n)"

lemma capabilities_step_simp:
  assumes "reports d w n"
  shows "capabilities_step v d s = Inr (if (case v of None \<Rightarrow> True | Some u \<Rightarrow> j_eq w u)
    then (True, if v = None then snd s \<union> capability_names n else capability_names n) else s)"
  using assms by (auto simp: reports_def capabilities_step_def split: option.split simp del: j_path.simps)

text \<open>The capabilities of a library are those whose bit some request reports; for a version of the
  targets they are the bits of the last request that acknowledges it, and without such a request
  the query fails.\<close>

theorem rc_capabilities_reported:
  assumes "get_data configured ds (Some config_paths) = Inr polls"
    and "list_all2 (\<lambda>d (w, n). reports d w n) polls reported"
  shows "get_rc_capabilities configured ds None = Inr (\<Union>(w, n) \<in> set reported. capability_names n) \<and>
    get_rc_capabilities configured ds (Some v) =
      (case rev (filter (\<lambda>(w, n). j_eq w v) reported) of
         [] \<Rightarrow> Inl Assertion_Error
       | (w, n) # _ \<Rightarrow> Inr (capability_names n))"
proof -
  have union: "rfold (capabilities_step None) polls s =
      Inr (fst s \<or> polls \<noteq> [], snd s \<union> (\<Union>(w, n) \<in> set reported. capability_names n))" for s
    using assms(2)
    by (induction polls reported arbitrary: s rule: list_all2_induct) (auto simp: capabilities_step_simp)
  have newest: "rfold (capabilities_step (Some v)) polls s =
      Inr (case rev (filter (\<lambda>(w, n). j_eq w v) reported) of [] \<Rightarrow> s | (w, n) # _ \<Rightarrow> (True, capability_names n))" for s
    using assms(2)
  proof (induction polls reported arbitrary: s rule: list_all2_induct)
    case (Cons d ds r rs)
    obtain w n where r: "r = (w, n)" by force
    have "capabilities_step (Some v) d s = Inr (if j_eq w v then (True, capability_names n) else s)"
      using capabilities_step_simp [of d w n "Some v" s] Cons.hyps(1) by (simp add: r)
    then show ?case using Cons.IH by (auto simp: r split: list.split)
  qed simp
  show ?thesis
    by (auto simp: get_rc_capabilities_def assms(1) union newest split: list.split)
qed

definition config_poll :: "int \<Rightarrow> json \<Rightarrow> dd_data" where
  "config_poll version caps = \<lparr>log_filename = ''a'', hd_path = ''/v0.7/config'',
     hd_request = \<lparr>hm_headers = [], hm_has_content = True\<rparr>, hd_response = None,
     dd_request = J_obj [(''content'', J_obj [(''client'', J_obj [(''state'', J_obj [(''targets_version'', J_int version)]),
       (''capabilities'', caps)])])], dd_response = J_null\<rparr>"

theorem rc_capabilities_reported_witness:
  "get_rc_capabilities True [config_poll 1 (J_list [J_int 2]), config_poll 2 (J_list [J_int 1, J_int 0])] (Some (J_int 2)) =
     Inr (capability_names 256)"
proof -
  let ?ds = "[config_poll 1 (J_list [J_int 2]), config_poll 2 (J_list [J_int 1, J_int 0])]"
  have polls: "get_data True ?ds (Some config_paths) = Inr ?ds" by code_simp
  have "list_all2 (\<lambda>d (w, n). reports d w n) ?ds [(J_int 1, 2), (J_int 2, 256)]"
    by (simp add: reports_def rc_client_def config_poll_def int_capabilities_def int_of_bytes_def dgetitem_def)
  from rc_capabilities_reported [OF polls this, of "J_int 2"] show ?thesis by (simp add: j_eq_def)
qed

subsection \<open>What is checked on all traces\<close>

text \<open>The pattern of \<open>validate_all_traces\<close> has no place for format v1.0, which the other checks of this
  interface read: its traces are never given to the validator.\<close>

lemma v1_traces_not_validated:
  assumes "\<And>d. d \<in> set ds \<Longrightarrow> hd_path d = ''/v1.0/traces''"
  shows "validate_all_traces True ds validator allow_no_trace = (if allow_no_trace then Inr () else Inl Value_Error)"
proof -
  have "list_all (\<lambda>r. re_fullmatch r ''/v1.0/traces'' = None) v0_trace_paths" by code_simp
  then have "get_data True ds (Some v0_trace_paths) = Inr []"
    using assms by (auto simp: get_data_def filter_empty_conv)
  then show ?thesis by (simp add: validate_all_traces_def validate_all_def)
qed

lemma v04_traces_validated: "list_ex (\<lambda>r. re_fullmatch r ''/v0.4/traces'' \<noteq> None) v0_trace_paths"
  by code_simp

end
