(* ===== verification/Library_Appsec.thy ===== *)
theory Library_Appsec
  imports Library_Interface
begin

section \<open>AppSec checks of the library interface (interfaces/\_library/appsec.py)\<close>

text \<open>
  The validators that look for an attack in the events of a span, in the current format and in the
  legacy one, and the checks of the interface that use them.  An event is the JSON value that is
  captured; highlights, rule ids and types are texts there.
\<close>

definition rule_id_to_type :: "(string \<times> string) list" where
  "rule_id_to_type =
     [(''crs-913-110'', ''security_scanner''), (''crs-913-120'', ''security_scanner''),
      (''nfd-000-001'', ''security_scanner''), (''nfd-000-002'', ''security_scanner''),
      (''nfd-000-003'', ''security_scanner''), (''nfd-000-004'', ''security_scanner''),
      (''nfd-000-005'', ''security_scanner''), (''nfd-000-006'', ''security_scanner''),
      (''nfd-000-007'', ''security_scanner''), (''nfd-000-008'', ''security_scanner''),
      (''nfd-000-009'', ''security_scanner''), (''ua0-600-0xx'', ''security_scanner''),
      (''ua0-600-10x'', ''security_scanner''), (''ua0-600-12x'', ''security_scanner''),
      (''ua0-600-13x'', ''security_scanner''), (''ua0-600-14x'', ''security_scanner''),
      (''ua0-600-15x'', ''security_scanner''), (''ua0-600-16x'', ''security_scanner''),
      (''ua0-600-18x'', ''security_scanner''), (''ua0-600-19x'', ''security_scanner''),
      (''ua0-600-1xx'', ''security_scanner''), (''ua0-600-20x'', ''security_scanner''),
      (''ua0-600-22x'', ''security_scanner''), (''ua0-600-23x'', ''security_scanner''),
      (''ua0-600-25x'', ''security_scanner''), (''ua0-600-26x'', ''security_scanner''),
      (''ua0-600-27x'', ''security_scanner''), (''ua0-600-28x'', ''security_scanner''),
      (''ua0-600-29x'', ''security_scanner''), (''ua0-600-2xx'', ''security_scanner''),
      (''ua0-600-30x'', ''security_scanner''), (''ua0-600-31x'', ''security_scanner''),
      (''ua0-600-32x'', ''security_scanner''), (''ua0-600-33x'', ''security_scanner''),
      (''ua0-600-34x'', ''security_scanner''), (''ua0-600-35x'', ''security_scanner''),
      (''ua0-600-36x'', ''security_scanner''), (''ua0-600-37x'', ''security_scanner''),
      (''ua0-600-39x'', ''security_scanner''), (''ua0-600-3xx'', ''security_scanner''),
      (''ua0-600-40x'', ''security_scanner''), (''ua0-600-42x'', ''security_scanner''),
      (''ua0-600-43x'', ''security_scanner''), (''ua0-600-44x'', ''security_scanner''),
      (''ua0-600-45x'', ''security_scanner''), (''ua0-600-46x'', ''security_scanner''),
      (''ua0-600-47x'', ''security_scanner''), (''ua0-600-48x'', ''security_scanner''),
      (''ua0-600-49x'', ''security_scanner''), (''ua0-600-4xx'', ''security_scanner''),
      (''ua0-600-51x'', ''security_scanner''), (''ua0-600-52x'', ''security_scanner''),
      (''ua0-600-53x'', ''security_scanner''), (''ua0-600-54x'', ''security_scanner''),
      (''ua0-600-55x'', ''security_scanner''), (''ua0-600-5xx'', ''security_scanner''),
      (''ua0-600-6xx'', ''security_scanner''), (''ua0-600-7xx'', ''security_scanner''),
      (''ua0-600-9xx'', ''security_scanner''), (''crs-920-260'', ''http_protocol_violation''),
      (''crs-921-110'', ''http_protocol_violation''), (''crs-921-140'', ''http_protocol_violation''),
      (''crs-921-160'', ''http_protocol_violation''), (''crs-943-100'', ''http_protocol_violation''),
      (''crs-930-100'', ''lfi''), (''crs-930-110'', ''lfi''), (''crs-930-120'', ''lfi''), (''crs-931-110'', ''rfi''),
      (''crs-931-120'', ''rfi''), (''crs-932-160'', ''command_injection''), (''crs-932-171'', ''command_injection''),
      (''crs-932-180'', ''command_injection''), (''sqr-000-008'', ''command_injection''),
      (''sqr-000-009'', ''command_injection''), (''sqr-000-010'', ''command_injection''),
      (''crs-933-111'', ''unrestricted_file_upload''), (''crs-933-130'', ''php_code_injection''),
      (''crs-933-131'', ''php_code_injection''), (''crs-933-140'', ''php_code_injection''),
      (''crs-933-150'', ''php_code_injection''), (''crs-933-160'', ''php_code_injection''),
      (''crs-933-170'', ''php_code_injection''), (''crs-933-200'', ''php_code_injection''),
      (''crs-934-100'', ''js_code_injection''), (''dog-000-005'', ''js_code_injection''),
      (''dog-000-006'', ''js_code_injection''), (''sqr-000-002'', ''js_code_injection''), (''crs-941-100'', ''xss''),
      (''crs-941-110'', ''xss''), (''crs-941-120'', ''xss''), (''crs-941-140'', ''xss''), (''crs-941-180'', ''xss''),
      (''crs-941-200'', ''xss''), (''crs-941-210'', ''xss''), (''crs-941-220'', ''xss''), (''crs-941-230'', ''xss''),
      (''crs-941-240'', ''xss''), (''crs-941-270'', ''xss''), (''crs-941-280'', ''xss''), (''crs-941-290'', ''xss''),
      (''crs-941-300'', ''xss''), (''crs-941-350'', ''xss''), (''crs-941-360'', ''xss''),
      (''crs-942-100'', ''sql_injection''), (''crs-942-160'', ''sql_injection''),
      (''crs-942-190'', ''sql_injection''), (''crs-942-240'', ''sql_injection''),
      (''crs-942-250'', ''sql_injection''), (''crs-942-270'', ''sql_injection''),
      (''crs-942-280'', ''sql_injection''), (''crs-942-360'', ''sql_injection''),
      (''crs-942-500'', ''sql_injection''), (''crs-942-290'', ''nosql_injection''),
      (''dog-000-001'', ''nosql_injection''), (''sqr-000-007'', ''nosql_injection''),
      (''crs-944-100'', ''java_code_injection''), (''crs-944-110'', ''java_code_injection''),
      (''crs-944-130'', ''java_code_injection''), (''dog-000-002'', ''java_code_injection''),
      (''dog-000-003'', ''java_code_injection''), (''dog-000-004'', ''exploit_detection''),
      (''sqr-000-017'', ''exploit_detection''), (''sqr-000-001'', ''ssrf''), (''sqr-000-011'', ''ssrf''),
      (''sqr-000-012'', ''ssrf''), (''sqr-000-013'', ''ssrf''), (''sqr-000-014'', ''ssrf''),
      (''sqr-000-015'', ''ssrf'')]"

definition rule_type_of :: "json \<Rightarrow> json res" where
  "rule_type_of rule_id =
     (if \<not> j_hashable rule_id then Inl Type_Error
      else Inr (case rule_id of
        J_str s \<Rightarrow> (case map_of rule_id_to_type s of None \<Rightarrow> J_null | Some t \<Rightarrow> J_str t)
      | _ \<Rightarrow> J_null))"

subsection \<open>What an attack has to look like\<close>

text \<open>A rule is given by its id or by the class of its type; the key path is a text or a list.\<close>

datatype waf_rule = No_rule | Rule_id string | Rule_type string

record waf_attack =
  wa_rule :: waf_rule
  wa_pattern :: "string option"
  wa_patterns :: "string list option"
  wa_value :: "string option"
  wa_address :: "string option"
  wa_key_path :: "json option"

definition given :: "string option \<Rightarrow> string option" where
  "given x = (case x of Some s \<Rightarrow> if s = [] then None else Some s | None \<Rightarrow> None)"

text \<open>What a trigger holds, gathered over its rule matches and their parameters.\<close>

record trigger_info =
  ti_rule_id :: json
  ti_rule_type :: json
  ti_patterns :: "json list"
  ti_values :: "json list"
  ti_addresses :: "json list"
  ti_full_addresses :: "(json \<times> json) list"

definition rule_of :: "json \<Rightarrow> (json \<times> json) res" where
  "rule_of holder =
     rbind (j_get_or ''rule'' (J_obj []) holder) (\<lambda>rule.
     rbind (j_get ''id'' rule) (\<lambda>rule_id.
     rbind (rbind (j_get_or ''tags'' (J_obj []) rule) (j_get ''type'')) (\<lambda>rule_type.
     rbind (if j_truthy rule_type then Inr rule_type else rule_type_of rule_id) (\<lambda>rule_type.
       Inr (rule_id, rule_type)))))"

text \<open>A key path that ends in an index of zero also stands for the path without it.\<close>

definition ends_in_zero :: "json list \<Rightarrow> bool" where
  "ends_in_zero path \<longleftrightarrow> path \<noteq> [] \<and> (j_eq (last path) (J_int 0) \<or> last path = J_str ''0'')"

definition full_addresses :: "json \<Rightarrow> json \<Rightarrow> (json \<times> json) list" where
  "full_addresses address key_path =
     (address, key_path) # (case key_path of
        J_list path \<Rightarrow> if ends_in_zero path then [(address, J_list (butlast path))] else []
      | _ \<Rightarrow> [])"

definition add_parameter :: "json \<Rightarrow> trigger_info \<Rightarrow> trigger_info res" where
  "add_parameter parameter i =
     rbind (rbind (j_item ''highlight'' parameter) j_iter) (\<lambda>highlight.
     rbind (j_item ''value'' parameter) (\<lambda>v.
     rbind (j_item ''address'' parameter) (\<lambda>address.
     rbind (j_item ''key_path'' parameter) (\<lambda>key_path.
       Inr (i\<lparr>ti_patterns := ti_patterns i @ highlight, ti_values := ti_values i @ [v],
              ti_addresses := ti_addresses i @ [address],
              ti_full_addresses := ti_full_addresses i @ full_addresses address key_path\<rparr>)))))"

definition trigger_info_of :: "json \<Rightarrow> trigger_info res" where
  "trigger_info_of trigger =
     rbind (rule_of trigger) (\<lambda>(rule_id, rule_type).
     rbind (rbind (j_get_or ''rule_matches'' (J_list []) trigger) j_iter) (\<lambda>rule_matches.
     rfold (\<lambda>rule_match i. rbind (rbind (j_get_or ''parameters'' (J_list []) rule_match) j_iter) (\<lambda>parameters.
         rfold add_parameter parameters i))
       rule_matches \<lparr>ti_rule_id = rule_id, ti_rule_type = rule_type, ti_patterns = [], ti_values = [], ti_addresses = [],
         ti_full_addresses = []\<rparr>))"

definition same_rule :: "waf_rule \<Rightarrow> json \<Rightarrow> json \<Rightarrow> bool" where
  "same_rule r rule_id rule_type =
     (case r of
        No_rule \<Rightarrow> True
      | Rule_id s \<Rightarrow> s = [] \<or> rule_id = J_str s
      | Rule_type s \<Rightarrow> s = [] \<or> rule_type = J_str s)"

definition listed :: "string option \<Rightarrow> json list \<Rightarrow> bool" where
  "listed x vs = (case given x of None \<Rightarrow> True | Some s \<Rightarrow> J_str s \<in> set vs)"

definition same_address :: "waf_attack \<Rightarrow> json option \<Rightarrow> json list \<Rightarrow> (json \<times> json) list \<Rightarrow> bool" where
  "same_address w key_path addresses full =
     (case given (wa_address w) of
        None \<Rightarrow> True
      | Some a \<Rightarrow> (case key_path of
          None \<Rightarrow> J_str a \<in> set addresses
        | Some k \<Rightarrow> \<not> j_truthy k \<or> (J_str a, k) \<in> set full))"

definition trigger_matches :: "waf_attack \<Rightarrow> trigger_info \<Rightarrow> bool" where
  "trigger_matches w i \<longleftrightarrow>
     same_rule (wa_rule w) (ti_rule_id i) (ti_rule_type i) \<and> listed (wa_pattern w) (ti_patterns i) \<and>
     (case wa_patterns w of None \<Rightarrow> True | Some ps \<Rightarrow> ps = [] \<or> mset (map J_str ps) = mset (ti_patterns i)) \<and>
     listed (wa_value w) (ti_values i) \<and> same_address w (wa_key_path w) (ti_addresses i) (ti_full_addresses i)"

text \<open>The loop returns at the first trigger that matches; no result is \<open>False\<close> for the callers.\<close>

fun validate_triggers ::
  "waf_attack \<Rightarrow> (library_span \<Rightarrow> json \<Rightarrow> bool res) option \<Rightarrow> library_span \<Rightarrow> json \<Rightarrow> json list \<Rightarrow> bool res" where
  "validate_triggers w span_validator s event [] = Inr False"
| "validate_triggers w span_validator s event (t # ts) =
     rbind (trigger_info_of t) (\<lambda>i.
       if trigger_matches w i then (case span_validator of None \<Rightarrow> Inr True | Some v \<Rightarrow> v s event)
       else validate_triggers w span_validator s event ts)"

definition waf_validate ::
  "waf_attack \<Rightarrow> (library_span \<Rightarrow> json \<Rightarrow> bool res) option \<Rightarrow> library_span \<Rightarrow> json \<Rightarrow> bool res" where
  "waf_validate w span_validator s event =
     rbind (rbind (j_item ''triggers'' event) j_iter) (validate_triggers w span_validator s event)"

subsection \<open>The legacy format\<close>

definition legacy_parameter :: "json \<Rightarrow> (json \<times> json) list res" where
  "legacy_parameter parameter =
     rbind (rbind (j_contains ''address'' parameter) (\<lambda>b.
       if b then rbind (j_item ''address'' parameter) (\<lambda>a. Inr (Some a))
       else rbind (j_contains ''name'' parameter) (\<lambda>b.
         if b then rbind (rbind (j_item ''name'' parameter) j_as_str) (\<lambda>n. Inr (Some (J_str (hd (split_once (CHR '':'') n)))))
         else Inr None))) (\<lambda>address.
     case address of
       None \<Rightarrow> Inr []
     | Some a \<Rightarrow> rbind (j_get_or ''key_path'' (J_list []) parameter) (\<lambda>key_path.
         Inr [(a, case key_path of
            J_list path \<Rightarrow> if ends_in_zero path then J_list (butlast path) else key_path
          | J_str s \<Rightarrow> if s \<noteq> [] \<and> last s = CHR ''0'' then J_str (butlast s) else key_path
          | _ \<Rightarrow> key_path)]))"

definition get_parameters :: "json \<Rightarrow> (json \<times> json) list res" where
  "get_parameters event =
     rbind (rbind (j_get_or ''rule_match'' (J_obj []) event) (j_get_or ''parameters'' (J_list []))) (\<lambda>ps.
     rbind (j_iter ps) (\<lambda>ps. rbind (rmap legacy_parameter ps) (\<lambda>xss. Inr (concat xss))))"

definition legacy_patterns :: "json \<Rightarrow> json res" where
  "legacy_patterns event =
     rbind (j_get_or ''rule_match'' (J_obj []) event) (\<lambda>rule_match.
     rbind (rbind (rbind (j_get_or ''parameters'' (J_list [J_obj []]) rule_match) (j_index 0)) (j_get_or ''highlight'' (J_list []))) (\<lambda>dflt.
       j_get_or ''highlight'' dflt rule_match))"

definition waf_validate_legacy :: "waf_attack \<Rightarrow> json \<Rightarrow> bool res" where
  "waf_validate_legacy w event =
     rbind (j_get_or ''event_version'' (J_str ''0.1.0'') event) (\<lambda>event_version.
     rbind (get_parameters event) (\<lambda>parameters.
     rbind (legacy_patterns event) (\<lambda>patterns.
     rbind (rule_of event) (\<lambda>(rule_id, rule_type).
       if \<not> same_rule (wa_rule w) rule_id rule_type then Inr False
       else rbind (case given (wa_pattern w) of None \<Rightarrow> Inr True | Some p \<Rightarrow> j_contains p patterns) (\<lambda>found.
         Inr (found \<and> same_address w (if event_version = J_str ''0.1.0'' then None else wa_key_path w)
           (map fst parameters) parameters))))))"

subsection \<open>Reported headers\<close>

definition header_reported :: "string \<Rightarrow> library_span \<Rightarrow> bool res" where
  "header_reported header_name s =
     rbind (rbind (ls_item ''meta'' s) j_iter) (\<lambda>names.
     rbind (rmap j_as_str names) (\<lambda>names.
     rbind (rassert (''http.request.headers.'' @ str_lower header_name \<in>
         set (map str_lower (filter (\<lambda>n. startswith n ''http.request.headers.'') names))) Assertion_Error) (\<lambda>_. Inr True)))"

definition header_reported_legacy :: "string \<Rightarrow> json \<Rightarrow> bool res" where
  "header_reported_legacy header_name event =
     rbind (rbind (j_path [''context'', ''http'', ''request'', ''headers''] event) j_iter) (\<lambda>names.
     rbind (rmap j_as_str names) (\<lambda>names.
     rbind (rassert (str_lower header_name \<in> set (map str_lower names)) Assertion_Error) (\<lambda>_. Inr True)))"

definition assert_waf_attack ::
  "bool \<Rightarrow> dd_data list \<Rightarrow> string option \<Rightarrow> waf_attack \<Rightarrow> (library_span \<Rightarrow> json \<Rightarrow> bool res) option \<Rightarrow> bool \<Rightarrow> unit res" where
  "assert_waf_attack configured ds rid w span_validator full_trace =
     validate_one_appsec configured ds rid (Some (waf_validate w span_validator)) (Some (waf_validate_legacy w)) full_trace"

definition add_appsec_reported_header :: "bool \<Rightarrow> dd_data list \<Rightarrow> string option \<Rightarrow> string \<Rightarrow> unit res" where
  "add_appsec_reported_header configured ds rid header_name =
     validate_one_appsec configured ds rid (Some (\<lambda>s a. header_reported header_name s)) (Some (header_reported_legacy header_name)) False"

subsection \<open>RASP and IAST\<close>

definition expect_field :: "string \<Rightarrow> jobj \<Rightarrow> json \<Rightarrow> unit res" where
  "expect_field key wanted obtained =
     (case dget wanted key of
        None \<Rightarrow> Inr ()
      | Some expected \<Rightarrow> if expected = J_null then Inr ()
          else rbind (j_item key obtained) (\<lambda>v. rassert (j_same v expected) Assertion_Error))"

definition rasp_parameter :: "json \<Rightarrow> string \<times> jobj \<Rightarrow> unit res" where
  "rasp_parameter obtained_parameters p =
     (let (name, wanted) = p in
      rbind (dgetitem wanted ''address'') (\<lambda>address.
      rbind (rbind (j_contains name obtained_parameters) (\<lambda>b. rassert b Assertion_Error)) (\<lambda>_.
      rbind (j_item name obtained_parameters) (\<lambda>obtained.
      rbind (rbind (j_item ''address'' obtained) (\<lambda>a. rassert (j_same a address) Assertion_Error)) (\<lambda>_.
      rbind (expect_field ''value'' wanted obtained) (\<lambda>_. expect_field ''key_path'' wanted obtained))))))"

text \<open>\<open>assert len(x) == 1\<close> and then \<open>x[0]\<close>.\<close>

definition only_item :: "json \<Rightarrow> json res" where
  "only_item v = rbind (j_len v) (\<lambda>n. rbind (rassert (n = 1) Assertion_Error) (\<lambda>_. j_index 0 v))"

definition rasp_validate :: "string \<Rightarrow> (string \<times> jobj) list option \<Rightarrow> library_span \<Rightarrow> json \<Rightarrow> bool res" where
  "rasp_validate rule parameters s event =
     rbind (rbind (j_contains ''triggers'' event) (\<lambda>b. rassert b Assertion_Error)) (\<lambda>_.
     rbind (rbind (j_item ''triggers'' event) only_item) (\<lambda>trigger.
     rbind (j_path [''rule'', ''id''] trigger) (\<lambda>obtained_rule_id.
     rbind (rassert (obtained_rule_id = J_str rule) Assertion_Error) (\<lambda>_.
       case parameters of
         None \<Rightarrow> Inr True
       | Some ps \<Rightarrow>
           rbind (rbind (j_item ''rule_matches'' trigger) only_item) (\<lambda>rule_match.
           rbind (rbind (j_item ''parameters'' rule_match) only_item) (\<lambda>obtained_parameters.
           rbind (rmap (rasp_parameter obtained_parameters) ps) (\<lambda>_. Inr True)))))))"

definition assert_rasp_attack ::
  "bool \<Rightarrow> dd_data list \<Rightarrow> string option \<Rightarrow> string \<Rightarrow> (string \<times> jobj) list option \<Rightarrow> unit res" where
  "assert_rasp_attack configured ds rid rule parameters =
     validate_one_appsec configured ds rid (Some (rasp_validate rule parameters)) None False"

definition has_iast_tag :: "library_span \<Rightarrow> bool res" where
  "has_iast_tag s =
     rbind (rbind (ls_get ''metrics'' (J_obj []) s) (j_contains ''_dd.iast.enabled'')) (\<lambda>b.
       if b then Inr True else rbind (ls_get ''meta'' (J_obj []) s) (j_contains ''_dd.iast.enabled''))"

definition assert_iast_implemented :: "bool \<Rightarrow> dd_data list \<Rightarrow> unit res" where
  "assert_iast_implemented configured ds =
     rbind (gen_any (\<lambda>(t, s). has_iast_tag s) (get_root_spans configured ds None)) (\<lambda>found.
       rassert found Value_Error)"

subsection \<open>An attack is found whatever the order of the triggers\<close>

lemma validate_triggers_found:
  assumes "rmap trigger_info_of ts = Inr infos"
  shows "validate_triggers w span_validator s event ts =
     (if list_ex (trigger_matches w) infos then (case span_validator of None \<Rightarrow> Inr True | Some v \<Rightarrow> v s event) else Inr False)"
  using assms
proof (induction ts arbitrary: infos)
  case (Cons t ts)
  then obtain i rest where "trigger_info_of t = Inr i" and "rmap trigger_info_of ts = Inr rest" and "infos = i # rest"
    by (auto simp: rbind_Inr_iff)
  then show ?case by (simp add: Cons.IH [of rest])
qed simp


text \<open>A header that some frameworks report as an array is found with and without its index.\<close>

lemma header_with_index:
  assumes "wa_address w = Some a" and "k = J_list path \<or> k = J_list (path @ [J_int 0])"
    and "set (full_addresses (J_str a) (J_list (path @ [J_int 0]))) \<subseteq> set full"
  shows "same_address w (Some k) addresses full"
  using assms by (auto simp: same_address_def full_addresses_def ends_in_zero_def j_eq_def given_def split: option.splits if_splits)

definition sample_trigger :: "string \<Rightarrow> string \<Rightarrow> json" where
  "sample_trigger rule pattern = J_obj [(''rule'', J_obj [(''id'', J_str rule)]),
     (''rule_matches'', J_list [J_obj [(''parameters'', J_list [J_obj [(''highlight'', J_list [J_str pattern]),
        (''value'', J_str pattern), (''address'', J_str ''server.request.query''), (''key_path'', J_list [J_str ''q'', J_int 0])]])]])]"

definition sqli :: waf_attack where
  "sqli = \<lparr>wa_rule = Rule_type ''sql_injection'', wa_pattern = Some ''or 1=1'', wa_patterns = None, wa_value = None,
     wa_address = Some ''server.request.query'', wa_key_path = Some (J_list [J_str ''q''])\<rparr>"

definition sample_triggers :: "json list" where
  "sample_triggers = [sample_trigger ''crs-941-100'' ''<script>'', sample_trigger ''crs-942-100'' ''or 1=1'']"


end
