(* ===== verification/Backend_Interface.thy ===== *)
theory Backend_Interface
  imports Library_Interface
begin

section \<open>Interface of the mocked backend (interfaces/\_mocked\_backend.py)\<close>

text \<open>
  Queries on what the mocked backend has received: the traces of the agent in both formats, the
  application security data, telemetry, metrics, sketches and stats.  \<open>None\<close> is no request, or no
  filter by API key.
\<close>

subsection \<open>The data of a sender\<close>

definition get_api_key :: "dd_data \<Rightarrow> string option" where
  "get_api_key data =
     map_option snd (find (\<lambda>h. str_lower (fst h) = ''dd-api-key'') (hm_headers (hd_request data)))"

definition backend_data :: "bool \<Rightarrow> dd_data list \<Rightarrow> re list \<Rightarrow> string option \<Rightarrow> dd_data gen" where
  "backend_data configured ds path_filters with_api_key =
     gen_of (rbind (get_data configured ds (Some path_filters)) (\<lambda>ds.
       Inr (filter (\<lambda>d. with_api_key = None \<or> get_api_key d = with_api_key) ds)))"

text \<open>The data of a server in the same process: appended, then sorted by the name of the file.\<close>

definition on_message :: "dd_data \<Rightarrow> dd_data list \<Rightarrow> dd_data list" where
  "on_message data ds = sort_key log_filename (ds @ [data])"

subsection \<open>Traces and spans\<close>

definition backend_payloads :: "dd_data \<Rightarrow> (agent_format \<times> json list) res" where
  "backend_payloads data =
     rbind (j_contains ''content'' (dd_request data)) (\<lambda>given.
     rbind (rassert given Value_Error) (\<lambda>_.
     rbind (content_of data) (\<lambda>content.
     rbind (j_contains ''tracerPayloads'' content) (\<lambda>legacy.
       if legacy then rbind (rbind (j_item ''tracerPayloads'' content) j_iter) (\<lambda>ps. Inr (Legacy, ps))
       else rbind (j_contains ''idxTracerPayloads'' content) (\<lambda>efficient.
         if efficient then rbind (rbind (j_item ''idxTracerPayloads'' content) j_iter) (\<lambda>ps. Inr (Efficient, ps))
         else Inl Type_Error)))))"

definition agent_has_rid :: "string \<Rightarrow> agent_span_view \<Rightarrow> bool res" where
  "agent_has_rid rid s = rbind (as_rid s) (\<lambda>r. Inr (r = Some rid))"

definition select_agent_trace :: "string option \<Rightarrow> dd_data \<Rightarrow> agent_trace res \<Rightarrow> (dd_data \<times> agent_trace) gen" where
  "select_agent_trace rid data t =
     gen_of (rbind t (\<lambda>t. rbind (case rid of None \<Rightarrow> Inr True | Some r \<Rightarrow> validate_loop (agent_has_rid r) (agent_spans t))
       (\<lambda>found. Inr (if found then [(data, t)] else []))))"

definition backend_data_traces :: "string option \<Rightarrow> dd_data \<Rightarrow> (dd_data \<times> agent_trace) gen" where
  "backend_data_traces rid data =
     (case backend_payloads data of
        Inl e \<Rightarrow> ([], Inl e)
      | Inr (f, payloads) \<Rightarrow>
          gen_for (\<lambda>payload. gen_bind (gen_of (rbind (j_get_or ''chunks'' (J_list []) payload) j_iter))
            (\<lambda>chunk. select_agent_trace rid data (agent_trace_of f data chunk))) payloads)"

definition backend_traces ::
  "bool \<Rightarrow> dd_data list \<Rightarrow> string option \<Rightarrow> string option \<Rightarrow> (dd_data \<times> agent_trace) gen" where
  "backend_traces configured ds rid with_api_key =
     gen_bind (backend_data configured ds [path_re ''/api/v0.2/traces''] with_api_key) (backend_data_traces rid)"

definition backend_spans ::
  "bool \<Rightarrow> dd_data list \<Rightarrow> string option \<Rightarrow> string option \<Rightarrow> (dd_data \<times> agent_span_view) gen" where
  "backend_spans configured ds rid with_api_key =
     gen_bind (backend_traces configured ds rid with_api_key) (\<lambda>(data, t). gen_for (\<lambda>s.
       gen_of (rbind (case rid of None \<Rightarrow> Inr True | Some r \<Rightarrow> agent_has_rid r s) (\<lambda>b.
         Inr (if b then [(data, s)] else [])))) (agent_spans t))"

definition backend_spans_list :: "bool \<Rightarrow> dd_data list \<Rightarrow> string option \<Rightarrow> string option \<Rightarrow> agent_span_view list res" where
  "backend_spans_list configured ds rid with_api_key =
     rbind (gen_list (backend_spans configured ds rid with_api_key)) (\<lambda>rows. Inr (map snd rows))"

definition backend_assert_trace_exists :: "bool \<Rightarrow> dd_data list \<Rightarrow> string option \<Rightarrow> string option \<Rightarrow> unit res" where
  "backend_assert_trace_exists configured ds rid with_api_key =
     rbind (gen_any (\<lambda>_. Inr True) (backend_traces configured ds rid with_api_key)) (\<lambda>found. rassert found Value_Error)"

text \<open>The first of the three places that holds something.\<close>

definition agent_appsec_data :: "agent_span_view \<Rightarrow> json res" where
  "agent_appsec_data s =
     rbind (rbind (as_meta s) (j_get ''_dd.appsec.json'')) (\<lambda>a.
       if a \<noteq> J_null then Inr a
       else rbind (rbind (j_get_or ''metaStruct'' (J_obj []) (as_raw s)) (j_get ''appsec'')) (\<lambda>b.
         if b \<noteq> J_null then Inr b else rbind (as_meta s) (j_get ''appsec'')))"

definition backend_appsec_data ::
  "bool \<Rightarrow> dd_data list \<Rightarrow> string option \<Rightarrow> string option \<Rightarrow> (dd_data \<times> agent_span_view \<times> json) gen" where
  "backend_appsec_data configured ds rid with_api_key =
     gen_bind (backend_spans configured ds rid with_api_key) (\<lambda>(data, s).
       gen_of (rbind (agent_appsec_data s) (\<lambda>a. Inr (if a \<noteq> J_null then [(data, s, a)] else []))))"

subsection \<open>Telemetry, metrics and stats\<close>

definition backend_profiling_data :: "bool \<Rightarrow> dd_data list \<Rightarrow> string option \<Rightarrow> dd_data gen" where
  "backend_profiling_data configured ds = backend_data configured ds [path_re ''/api/v2/profile'']"

definition backend_dsm_data :: "bool \<Rightarrow> dd_data list \<Rightarrow> string option \<Rightarrow> dd_data gen" where
  "backend_dsm_data configured ds = backend_data configured ds [path_re ''/api/v0.1/pipeline_stats'']"

definition backend_telemetry_data :: "bool \<Rightarrow> dd_data list \<Rightarrow> bool \<Rightarrow> string option \<Rightarrow> dd_data gen" where
  "backend_telemetry_data configured ds flatten_message_batches with_api_key =
     (let all_data = backend_data configured ds [path_re ''/api/v2/apmtelemetry''] with_api_key in
      if flatten_message_batches then all_data else gen_bind all_data flatten_data)"

definition backend_metrics :: "bool \<Rightarrow> dd_data list \<Rightarrow> string option \<Rightarrow> (dd_data \<times> json) gen" where
  "backend_metrics configured ds with_api_key =
     gen_bind (backend_data configured ds [path_re ''/api/v2/series'', path_re ''/api/intake/metrics/v3/series''] with_api_key)
       (\<lambda>data. gen_of (rbind (content_of data) (\<lambda>content.
          case content of
            J_obj m \<Rightarrow>
              if m = [] then Inr []
              else rbind (rassert (dhas m ''series'') Value_Error) (\<lambda>_.
                rbind (rbind (dgetitem m ''series'') j_iter) (\<lambda>series. Inr (map (Pair data) series)))
          | _ \<Rightarrow> Inl Assertion_Error)))"

definition backend_sketches :: "bool \<Rightarrow> dd_data list \<Rightarrow> string option \<Rightarrow> (dd_data \<times> json) gen" where
  "backend_sketches configured ds with_api_key =
     gen_bind (backend_data configured ds [path_re ''/api/beta/sketches'', path_re ''/api/intake/metrics/v3/sketches''] with_api_key)
       (\<lambda>data. gen_of (rbind (content_of data) (\<lambda>content. rbind (j_contains ''sketches'' content) (\<lambda>given.
          if \<not> given then Inr []
          else rbind (rbind (j_item ''sketches'' content) j_iter) (\<lambda>points. Inr (map (Pair data) points))))))"

definition wanted_stat :: "string list \<Rightarrow> json \<Rightarrow> bool res" where
  "wanted_stat resources stat =
     (if resources = [] \<or> [] \<in> set resources then Inr True
      else rbind (j_item ''Resource'' stat) (\<lambda>r. Inr (r \<in> J_str ` set resources)))"

definition stat_rows :: "json \<Rightarrow> json gen" where
  "stat_rows holder = gen_of (rbind (j_item ''Stats'' holder) j_iter)"

definition backend_stats :: "bool \<Rightarrow> dd_data list \<Rightarrow> string list \<Rightarrow> string option \<Rightarrow> json gen" where
  "backend_stats configured ds resources with_api_key =
     gen_bind (backend_data configured ds [path_re ''/api/v0.2/stats''] with_api_key) (\<lambda>data.
     gen_bind (case content_of data of Inl e \<Rightarrow> ([], Inl e) | Inr content \<Rightarrow> stat_rows content) (\<lambda>payload.
     gen_bind (stat_rows payload) (\<lambda>bucket.
     gen_bind (stat_rows bucket) (\<lambda>stat.
       gen_of (rbind (wanted_stat resources stat) (\<lambda>b. Inr (if b then [stat] else [])))))))"

subsection \<open>Messages of telemetry\<close>

text \<open>A batch stays a batch when it is asked to be flattened, and is flattened when it is not.\<close>

definition batch_message :: dd_data where
  "batch_message = \<lparr>log_filename = ''00001.json'', hd_path = ''/api/v2/apmtelemetry'',
     hd_request = \<lparr>hm_headers = [(''DD-API-KEY'', ''k'')], hm_has_content = True\<rparr>, hd_response = None,
     dd_request = J_obj [(''content'', J_obj [(''request_type'', J_str ''message-batch''),
       (''payload'', J_list [J_obj [(''request_type'', J_str ''app-started'')], J_obj [(''request_type'', J_str ''app-closing'')]])])],
     dd_response = J_null\<rparr>"

lemma telemetry_flag_inverted:
  "gen_list (backend_telemetry_data True [batch_message] True (Some ''k'')) = Inr [batch_message]"
  "map_sum id length (gen_list (backend_telemetry_data True [batch_message] False (Some ''k''))) = Inr 2"
  by code_simp+

lemma on_message_sorted: "sorted (map log_filename (on_message data ds))"
  by (simp add: on_message_def)

end
