(* ===== verification/Otel_Interface.thy ===== *)
theory Otel_Interface
  imports Library_Interface
begin

section \<open>Interface of the OTLP exporter (interfaces/\_open\_telemetry.py)\<close>

text \<open>
  The spans that a tracer exports in the OTLP format belong to a request when their user agent names
  it, or when their parent does: children may be exported before their parents, so the code resolves
  the descendants only after all payloads are collected, by passes over the records until one of
  them finds nothing.
\<close>

subsection \<open>Spans that name a request\<close>

definition otel_agent_keys :: "string list" where
  "otel_agent_keys = [''http.request.headers.user-agent'', ''http.useragent'', ''user_agent.original'']"

definition is_otel_span_for_request :: "json \<Rightarrow> string \<Rightarrow> bool res" where
  "is_otel_span_for_request span request_id =
     rbind (j_get_or ''attributes'' (J_obj []) span) (\<lambda>attributes.
       Inr (case attributes of
         J_obj m \<Rightarrow>
           (let standard = filter j_truthy (List.map_filter (dget m) otel_agent_keys);
                user_agents = (if standard = [] then (case dget m ''system_tests.request.user_agent'' of None \<Rightarrow> [] | Some v \<Rightarrow> [v])
                               else standard)
            in request_id \<noteq> [] \<and> list_ex (\<lambda>v. case v of J_str s \<Rightarrow> str_contains s request_id | _ \<Rightarrow> False) user_agents)
       | _ \<Rightarrow> False))"

definition otel_paths :: "re list" where
  "otel_paths = map path_re [''/api/v0.2/traces'', ''/v1/traces'']"

text \<open>\<open>x or []\<close>, then iteration.\<close>

definition or_empty :: "json res \<Rightarrow> json list res" where
  "or_empty r = rbind r (\<lambda>v. if j_truthy v then j_iter v else Inr [])"

definition first_truthy :: "string \<Rightarrow> string \<Rightarrow> json \<Rightarrow> json res" where
  "first_truthy k k' v = rbind (j_get k v) (\<lambda>x. if j_truthy x then Inr x else j_get k' v)"

definition otel_trace_ids :: "bool \<Rightarrow> dd_data list \<Rightarrow> string \<Rightarrow> json gen" where
  "otel_trace_ids configured ds rid =
     gen_bind (gen_of (get_data configured ds (Some otel_paths))) (\<lambda>data.
     gen_bind (gen_of (rbind (j_get ''content'' (dd_request data)) (\<lambda>c. or_empty (j_get ''resourceSpans'' c)))) (\<lambda>resource_span.
     gen_bind (gen_of (or_empty (j_get ''scopeSpans'' resource_span))) (\<lambda>scope_span.
     gen_bind (gen_of (rbind (j_get_or ''spans'' (J_list []) scope_span) j_iter)) (\<lambda>span.
       gen_of (rbind (is_otel_span_for_request span rid) (\<lambda>b.
         if b then rbind (first_truthy ''trace_id'' ''traceId'' span) (\<lambda>i. Inr [i]) else Inr []))))))"

subsection \<open>Correlation\<close>

text \<open>A record is the request, its content and a span.\<close>

type_synonym otel_row = "json \<times> json \<times> json"

definition otel_rows :: "bool \<Rightarrow> dd_data list \<Rightarrow> otel_row gen" where
  "otel_rows configured ds =
     gen_bind (gen_of (get_data configured ds (Some otel_paths))) (\<lambda>data.
       case j_get ''content'' (dd_request data) of
         Inl e \<Rightarrow> ([], Inl e)
       | Inr content \<Rightarrow>
           gen_bind (gen_of (or_empty (j_get ''resourceSpans'' content))) (\<lambda>resource_span.
           gen_bind (gen_of (rbind (j_get ''scopeSpans'' resource_span) j_iter)) (\<lambda>scope_span.
           gen_bind (gen_of (rbind (j_get ''spans'' scope_span) j_iter)) (\<lambda>span.
             ([(dd_request data, content, span)], Inr ())))))"

record correlation =
  correlated_indexes :: "nat set"
  correlated_span_ids :: "json set"

text \<open>An identifier that cannot be hashed raises when it is put into the set, or looked up in it.\<close>

definition correlate :: "nat \<Rightarrow> json \<Rightarrow> correlation \<Rightarrow> correlation res" where
  "correlate i span s =
     rbind (j_get ''spanId'' span) (\<lambda>x.
       let s' = s\<lparr>correlated_indexes := insert i (correlated_indexes s)\<rparr> in
       if \<not> j_truthy x then Inr s'
       else if \<not> j_hashable x then Inl Type_Error
       else Inr (s'\<lparr>correlated_span_ids := insert x (correlated_span_ids s)\<rparr>))"

definition collect_step :: "string \<Rightarrow> nat \<times> otel_row \<Rightarrow> correlation \<Rightarrow> correlation res" where
  "collect_step rid = (\<lambda>(i, request, content, span) s.
     rbind (is_otel_span_for_request span rid) (\<lambda>m. if m then correlate i span s else Inr s))"

definition descendant_step :: "nat \<times> otel_row \<Rightarrow> correlation \<times> bool \<Rightarrow> (correlation \<times> bool) res" where
  "descendant_step = (\<lambda>(i, request, content, span) (s, found).
     if i \<in> correlated_indexes s then Inr (s, found)
     else rbind (j_get ''parentSpanId'' span) (\<lambda>p.
       if \<not> j_hashable p then Inl Type_Error
       else if p \<notin> correlated_span_ids s then Inr (s, found)
       else rbind (correlate i span s) (\<lambda>s'. Inr (s', True))))"

definition descendant_pass :: "otel_row list \<Rightarrow> correlation \<Rightarrow> (correlation \<times> bool) res" where
  "descendant_pass rows s = rfold descendant_step (enumerate 0 rows) (s, False)"

lemma correlate_indexes: "correlate i span s = Inr s' \<Longrightarrow> correlated_indexes s' = insert i (correlated_indexes s)"
  by (auto simp: correlate_def rbind_Inr_iff Let_def split: if_splits)

lemma descendant_pass_grows:
  assumes "descendant_pass rows s = Inr (s', found)"
  shows "correlated_indexes s \<subseteq> correlated_indexes s' \<and>
    (found \<longrightarrow> (\<exists>i < length rows. i \<in> correlated_indexes s' - correlated_indexes s))"
proof -
  let ?I = "\<lambda>(s', found). correlated_indexes s \<subseteq> correlated_indexes s' \<and>
    (found \<longrightarrow> (\<exists>i < length rows. i \<in> correlated_indexes s' - correlated_indexes s))"
  have "?I (s', found)"
  proof (rule rfold_invariant [OF assms [unfolded descendant_pass_def], where I = ?I])
    fix x u v assume "x \<in> set (enumerate 0 rows)" and "?I u" and "descendant_step x u = Inr v"
    then show "?I v"
      by (auto simp: descendant_step_def rbind_Inr_iff in_set_enumerate_eq dest: correlate_indexes split: if_splits prod.splits)
  qed simp
  then show ?thesis by simp
qed

function descendants :: "otel_row list \<Rightarrow> correlation \<Rightarrow> correlation res" where
  "descendants rows s =
     (case descendant_pass rows s of
        Inl e \<Rightarrow> Inl e
      | Inr (s', found) \<Rightarrow> if found then descendants rows s' else Inr s')"
  by pat_completeness auto
termination
proof (relation "measure (\<lambda>(rows, s). card ({..<length rows} - correlated_indexes s))")
  fix rows s p s' found
  assume "descendant_pass rows s = Inr p" and "(s', found) = p" and found
  then have "{..<length rows} - correlated_indexes s' \<subset> {..<length rows} - correlated_indexes s"
    using descendant_pass_grows [of rows s s' found] by auto
  then show "((rows, s'), (rows, s)) \<in> measure (\<lambda>(rows, s). card ({..<length rows} - correlated_indexes s))"
    by (simp add: psubset_card_mono)
qed simp

declare descendants.simps [simp del]

definition get_otel_spans :: "bool \<Rightarrow> dd_data list \<Rightarrow> string \<Rightarrow> otel_row list res" where
  "get_otel_spans configured ds rid =
     (let g = otel_rows configured ds in
      rbind (rfold (collect_step rid) (enumerate 0 (fst g)) \<lparr>correlated_indexes = {}, correlated_span_ids = {}\<rparr>) (\<lambda>s.
      rbind (snd g) (\<lambda>_.
      rbind (descendants (fst g) s) (\<lambda>s. Inr (nths (fst g) (correlated_indexes s))))))"

subsection \<open>The spans of a request and their descendants\<close>

definition otel_matches :: "string \<Rightarrow> otel_row \<Rightarrow> bool" where
  "otel_matches rid = (\<lambda>(request, content, span). is_otel_span_for_request span rid = Inr True)"

definition otel_id :: "otel_row \<Rightarrow> json option" where
  "otel_id = (\<lambda>(request, content, span).
     case j_get ''spanId'' span of Inl e \<Rightarrow> None | Inr x \<Rightarrow> if j_truthy x then Some x else None)"

definition otel_parent :: "otel_row \<Rightarrow> json" where
  "otel_parent = (\<lambda>(request, content, span). case j_get ''parentSpanId'' span of Inl e \<Rightarrow> J_null | Inr x \<Rightarrow> x)"

text \<open>A record of the shape that the exporters send: an object whose identifiers are no lists or objects.\<close>

definition otel_readable :: "otel_row \<Rightarrow> bool" where
  "otel_readable = (\<lambda>(request, content, span). case span of
      J_obj m \<Rightarrow> list_all (\<lambda>k. case dget m k of None \<Rightarrow> True | Some v \<Rightarrow> j_hashable v) [''spanId'', ''parentSpanId'']
    | _ \<Rightarrow> False)"

inductive descends :: "string \<Rightarrow> otel_row set \<Rightarrow> otel_row \<Rightarrow> bool" for rid :: string and rows :: "otel_row set" where
  request: "r \<in> rows \<Longrightarrow> otel_matches rid r \<Longrightarrow> descends rid rows r"
| child: "r \<in> rows \<Longrightarrow> descends rid rows q \<Longrightarrow> otel_id q = Some (otel_parent r) \<Longrightarrow> descends rid rows r"

lemma descends_in: "descends rid rows r \<Longrightarrow> r \<in> rows"
  by (induction rule: descends.induct)

lemma readable_row:
  assumes "otel_readable (request, content, span)"
  obtains m x p where "is_otel_span_for_request span rid = Inr m" and "j_get ''spanId'' span = Inr x"
    and "j_get ''parentSpanId'' span = Inr p" and "j_truthy x \<longrightarrow> j_hashable x" and "j_hashable p"
  using assms
  by (cases span) (auto simp: otel_readable_def is_otel_span_for_request_def j_get_or_def split: option.splits)

text \<open>What the loops keep: only descendants are marked, and the set holds exactly their identifiers.\<close>

definition correlation_inv :: "string \<Rightarrow> otel_row list \<Rightarrow> correlation \<Rightarrow> bool" where
  "correlation_inv rid rows s \<longleftrightarrow>
     (\<forall>i \<in> correlated_indexes s. i < length rows \<and> descends rid (set rows) (rows ! i)) \<and>
     correlated_span_ids s = {x. \<exists>i \<in> correlated_indexes s. otel_id (rows ! i) = Some x}"

lemma correlate_inv:
  assumes "correlation_inv rid rows s" and "i < length rows" and "rows ! i = (request, content, span)"
    and "otel_readable (request, content, span)" and "descends rid (set rows) (rows ! i)"
  obtains s' where "correlate i span s = Inr s'" and "correlation_inv rid rows s'"
    and "correlated_indexes s' = insert i (correlated_indexes s)"
proof -
  obtain x where x: "j_get ''spanId'' span = Inr x" "j_truthy x \<longrightarrow> j_hashable x"
    using readable_row [OF assms(4)] by metis
  let ?s = "s\<lparr>correlated_indexes := insert i (correlated_indexes s)\<rparr>"
  let ?s' = "if j_truthy x then ?s\<lparr>correlated_span_ids := insert x (correlated_span_ids s)\<rparr> else ?s"
  have i: "otel_id (rows ! i) = (if j_truthy x then Some x else None)"
    by (simp add: assms(3) otel_id_def x(1) del: j_get.simps)
  have "correlate i span s = Inr ?s'" using x by (simp add: correlate_def Let_def del: j_get.simps)
  moreover have "correlation_inv rid rows ?s'" using assms(1,2,5) i by (auto simp: correlation_inv_def)
  moreover have "correlated_indexes ?s' = insert i (correlated_indexes s)" by simp
  ultimately show thesis by (rule that)
qed

lemma collect_all:
  assumes "\<forall>(i, r) \<in> set ps. i < length rows \<and> rows ! i = r" and "\<forall>r \<in> set rows. otel_readable r"
    and "correlation_inv rid rows s"
  shows "\<exists>s'. rfold (collect_step rid) ps s = Inr s' \<and> correlation_inv rid rows s' \<and>
    correlated_indexes s \<subseteq> correlated_indexes s' \<and> (\<forall>(i, r) \<in> set ps. otel_matches rid r \<longrightarrow> i \<in> correlated_indexes s')"
  using assms(1,3)
proof (induction ps arbitrary: s)
  case (Cons p ps)
  obtain i request content span where p: "p = (i, request, content, span)" by (cases p)
  have i: "i < length rows" "rows ! i = (request, content, span)" using Cons.prems(1) by (simp_all add: p)
  have readable: "otel_readable (request, content, span)" using assms(2) i by (metis nth_mem)
  obtain m where m: "is_otel_span_for_request span rid = Inr m" using readable_row [OF readable] by metis
  have matches: "otel_matches rid (request, content, span) = m" by (simp add: otel_matches_def m)
  obtain u where u: "collect_step rid p s = Inr u" "correlation_inv rid rows u"
    "correlated_indexes u = (if m then insert i (correlated_indexes s) else correlated_indexes s)"
  proof (cases m)
    case True
    have "descends rid (set rows) (rows ! i)"
      by (rule descends.request) (use nth_mem [OF i(1)] i(2) matches True in simp_all)
    from correlate_inv [OF Cons.prems(2) i readable this] obtain u where "correlate i span s = Inr u"
      "correlation_inv rid rows u" "correlated_indexes u = insert i (correlated_indexes s)" .
    then show thesis using that [of u] True by (simp add: collect_step_def p m)
  next
    case False
    then show thesis using that [of s] Cons.prems(2) by (simp add: collect_step_def p m)
  qed
  from Cons.IH [OF _ u(2)] Cons.prems(1) obtain s' where "rfold (collect_step rid) ps u = Inr s'" "correlation_inv rid rows s'"
    "correlated_indexes u \<subseteq> correlated_indexes s'" "\<forall>(i, r) \<in> set ps. otel_matches rid r \<longrightarrow> i \<in> correlated_indexes s'"
    by auto
  with u(1,3) matches show ?case by (auto simp: p split: if_splits)
qed simp

lemma pass_all:
  assumes "\<forall>(i, r) \<in> set ps. i < length rows \<and> rows ! i = r" and "\<forall>r \<in> set rows. otel_readable r"
    and "correlation_inv rid rows s"
  shows "\<exists>s' found'. rfold descendant_step ps (s, found) = Inr (s', found') \<and> correlation_inv rid rows s' \<and>
    correlated_indexes s \<subseteq> correlated_indexes s' \<and> (found \<longrightarrow> found') \<and>
    (\<not> found' \<longrightarrow> s' = s \<and> (\<forall>(i, r) \<in> set ps. i \<in> correlated_indexes s \<or> otel_parent r \<notin> correlated_span_ids s))"
  using assms(1,3)
proof (induction ps arbitrary: s found)
  case (Cons q ps)
  obtain i request content span where q: "q = (i, request, content, span)" by (cases q)
  have i: "i < length rows" "rows ! i = (request, content, span)" using Cons.prems(1) by (simp_all add: q)
  have readable: "otel_readable (request, content, span)" using assms(2) i by (metis nth_mem)
  obtain p where p: "j_get ''parentSpanId'' span = Inr p" "j_hashable p" using readable_row [OF readable] by metis
  have parent: "otel_parent (request, content, span) = p" by (simp add: otel_parent_def p(1) del: j_get.simps)
  show ?case
  proof (cases "i \<in> correlated_indexes s \<or> p \<notin> correlated_span_ids s")
    case True
    then have "descendant_step q (s, found) = Inr (s, found)"
      using p by (auto simp: descendant_step_def q simp del: j_get.simps)
    moreover obtain s' found' where "rfold descendant_step ps (s, found) = Inr (s', found')" "correlation_inv rid rows s'"
      "correlated_indexes s \<subseteq> correlated_indexes s'" "found \<longrightarrow> found'"
      "\<not> found' \<longrightarrow> s' = s \<and> (\<forall>(i, r) \<in> set ps. i \<in> correlated_indexes s \<or> otel_parent r \<notin> correlated_span_ids s)"
      using Cons.IH [OF _ Cons.prems(2), of found] Cons.prems(1) by auto
    ultimately show ?thesis using True by (auto simp: q parent)
  next
    case False
    then obtain j where j: "j < length rows" "descends rid (set rows) (rows ! j)" "otel_id (rows ! j) = Some p"
      using Cons.prems(2) by (auto simp: correlation_inv_def)
    have "descends rid (set rows) (rows ! i)"
      by (rule descends.child [OF _ j(2)]) (use nth_mem [OF i(1)] j(3) i(2) parent in simp_all)
    from correlate_inv [OF Cons.prems(2) i readable this] obtain u where u: "correlate i span s = Inr u"
      "correlation_inv rid rows u" "correlated_indexes u = insert i (correlated_indexes s)" .
    have "descendant_step q (s, found) = Inr (u, True)"
      using p u(1) False by (auto simp: descendant_step_def q simp del: j_get.simps)
    moreover obtain s' where "rfold descendant_step ps (u, True) = Inr (s', True)" "correlation_inv rid rows s'"
      "correlated_indexes u \<subseteq> correlated_indexes s'"
      using Cons.IH [OF _ u(2), of True] Cons.prems(1) by auto
    ultimately show ?thesis using u(3) by auto
  qed
qed simp

lemma enumerate_rows: "\<forall>(i, r) \<in> set (enumerate 0 rows). i < length rows \<and> rows ! i = r"
  by (auto simp: in_set_enumerate_eq)

lemma ball_enumerate: "(\<forall>(i, r) \<in> set (enumerate 0 rows). P i r) \<longleftrightarrow> (\<forall>i < length rows. P i (rows ! i))"
  by (force simp: in_set_enumerate_eq)

text \<open>The loop ends in a state that is closed under the step from a span to its children.\<close>

lemma descendants_closed:
  assumes "\<forall>r \<in> set rows. otel_readable r" and "correlation_inv rid rows s"
  shows "\<exists>s'. descendants rows s = Inr s' \<and> correlation_inv rid rows s' \<and> correlated_indexes s \<subseteq> correlated_indexes s' \<and>
    (\<forall>i < length rows. i \<in> correlated_indexes s' \<or> otel_parent (rows ! i) \<notin> correlated_span_ids s')"
  using assms
proof (induction rows s rule: descendants.induct)
  case (1 rows s)
  obtain u found where u: "descendant_pass rows s = Inr (u, found)" "correlation_inv rid rows u"
    "correlated_indexes s \<subseteq> correlated_indexes u"
    "\<not> found \<longrightarrow> u = s \<and> (\<forall>(i, r) \<in> set (enumerate 0 rows). i \<in> correlated_indexes s \<or> otel_parent r \<notin> correlated_span_ids s)"
    using pass_all [OF enumerate_rows 1(2) 1(3), of False] unfolding descendant_pass_def by auto
  show ?case
  proof (cases found)
    case True
    from 1(1) [OF u(1) refl this 1(2) u(2)] u(1,3) True show ?thesis by (subst descendants.simps) auto
  next
    case False
    then have "\<forall>i < length rows. i \<in> correlated_indexes s \<or> otel_parent (rows ! i) \<notin> correlated_span_ids s"
      using u(4) by (simp add: ball_enumerate)
    with False u show ?thesis by (subst descendants.simps) simp
  qed
qed

lemma closed_indexes:
  assumes inv: "correlation_inv rid rows s"
    and matching: "\<forall>i < length rows. otel_matches rid (rows ! i) \<longrightarrow> i \<in> correlated_indexes s"
    and closed: "\<forall>i < length rows. i \<in> correlated_indexes s \<or> otel_parent (rows ! i) \<notin> correlated_span_ids s"
  shows "correlated_indexes s = {i. i < length rows \<and> descends rid (set rows) (rows ! i)}"
proof -
  have "\<forall>i < length rows. rows ! i = r \<longrightarrow> i \<in> correlated_indexes s" if "descends rid (set rows) r" for r
    using that
  proof (induction rule: descends.induct)
    case (request r)
    with matching show ?case by auto
  next
    case (child r q)
    obtain j where "j < length rows" "rows ! j = q" using descends_in [OF child.hyps(2)] by (auto simp: in_set_conv_nth)
    with child have "otel_parent r \<in> correlated_span_ids s" using inv by (auto simp: correlation_inv_def)
    with closed show ?case by auto
  qed
  then have "{i. i < length rows \<and> descends rid (set rows) (rows ! i)} \<subseteq> correlated_indexes s" by blast
  with inv show ?thesis by (auto simp: correlation_inv_def)
qed

text \<open>C16.  The spans of a request are those that name it and all their descendants, in the order in which they
  were received: the passes over the records end, miss none and add no other.  Whether a span descends from
  the request depends on the set of the records only, so the order in which parents and children are exported
  does not matter.\<close>

theorem otel_spans_are_descendants:
  assumes "otel_rows configured ds = (rows, Inr ())" and "\<forall>r \<in> set rows. otel_readable r"
  shows "get_otel_spans configured ds rid = Inr (filter (descends rid (set rows)) rows)"
proof -
  let ?s = "\<lparr>correlated_indexes = {}, correlated_span_ids = {}\<rparr>"
  have "correlation_inv rid rows ?s" by (simp add: correlation_inv_def)
  from collect_all [OF enumerate_rows assms(2) this] obtain u where u: "rfold (collect_step rid) (enumerate 0 rows) ?s = Inr u"
    "correlation_inv rid rows u" "\<forall>(i, r) \<in> set (enumerate 0 rows). otel_matches rid r \<longrightarrow> i \<in> correlated_indexes u" by auto
  from descendants_closed [OF assms(2) u(2)] obtain s where s: "descendants rows u = Inr s" "correlation_inv rid rows s"
    "correlated_indexes u \<subseteq> correlated_indexes s"
    "\<forall>i < length rows. i \<in> correlated_indexes s \<or> otel_parent (rows ! i) \<notin> correlated_span_ids s" by auto
  have "\<forall>i < length rows. otel_matches rid (rows ! i) \<longrightarrow> i \<in> correlated_indexes s"
    using u(3) s(3) by (auto simp: ball_enumerate)
  from closed_indexes [OF s(2) this s(4)]
  show ?thesis by (simp add: get_otel_spans_def assms(1) u(1) s(1) filter_eq_nths)
qed

definition otel_export :: "json list \<Rightarrow> dd_data" where
  "otel_export spans = \<lparr>log_filename = ''00000.json'', hd_path = ''/v1/traces'',
     hd_request = \<lparr>hm_headers = [], hm_has_content = True\<rparr>, hd_response = None,
     dd_request = J_obj [(''content'', J_obj [(''resourceSpans'', J_list [J_obj [(''scopeSpans'', J_list [J_obj [(''spans'', J_list spans)]])]])])],
     dd_response = J_null\<rparr>"

definition otel_child :: json where
  "otel_child = J_obj [(''spanId'', J_str ''b''), (''parentSpanId'', J_str ''a'')]"

definition otel_root :: json where
  "otel_root = J_obj [(''spanId'', J_str ''a''), (''attributes'', J_obj [(''http.useragent'', J_str ''rid/X'')])]"

theorem otel_spans_are_descendants_witness:
  "\<exists>rows. otel_rows True [otel_export [otel_child], otel_export [otel_root]] = (rows, Inr ()) \<and>
     get_otel_spans True [otel_export [otel_child], otel_export [otel_root]] ''X'' = Inr (filter (descends ''X'' (set rows)) rows)"
proof -
  let ?ds = "[otel_export [otel_child], otel_export [otel_root]]"
  have "snd (otel_rows True ?ds) = Inr ()" by code_simp
  then obtain rows where rows: "otel_rows True ?ds = (rows, Inr ())" by (metis prod.collapse)
  have "list_all otel_readable (fst (otel_rows True ?ds))" by code_simp
  then have "\<forall>r \<in> set rows. otel_readable r" by (simp add: rows list_all_iff)
  from otel_spans_are_descendants [OF rows this, of "''X''"] rows show ?thesis by blast
qed

text \<open>A child that is exported before its parent is found as well.\<close>

lemma otel_child_before_parent:
  "map_sum id (map (\<lambda>(request, content, span). span))
     (get_otel_spans True [otel_export [otel_child], otel_export [otel_root]] ''X'') = Inr [otel_child, otel_root]"
  by code_simp

end
