(* ===== verification/Test_Agent_Interface.thy ===== *)
theory Test_Agent_Interface
  imports Library_Interface
begin

section \<open>Interface of the test agent (interfaces/\_test\_agent.py)\<close>

text \<open>
  Queries on the traces and the telemetry that the test agent has collected.  Both are lists of JSON
  values, and the client that reads them is outside: a refresh is an event that brings new telemetry
  or fails.
\<close>

subsection \<open>Spans\<close>

definition agent_rid_from_span :: "json \<Rightarrow> string option res" where
  "agent_rid_from_span span =
     rbind (j_get_or ''meta'' (J_obj []) span) (\<lambda>meta.
     rbind (j_get_or ''metrics'' (J_obj []) span) (\<lambda>metrics.
     rbind (j_get ''attributes'' span) (\<lambda>attributes.
     rbind (j_get ''type'' span) (\<lambda>ty.
       let meta = (if attributes \<noteq> J_null then attributes else meta);
           metrics = (if attributes \<noteq> J_null then attributes else metrics)
       in rbind (if ty = J_str ''rpc'' then j_get ''grpc.metadata.user-agent'' meta else Inr J_null) (\<lambda>ua.
          rbind (if j_truthy ua then Inr ua
                 else rbind (j_get ''_dd.top_level'' metrics) (\<lambda>top.
                   if j_eq top (J_dec 1 0) then j_get ''http.request.headers.user-agent'' meta else Inr ua)) (\<lambda>ua.
          rbind (first_user_agent ua meta user_agent_tags) get_rid_from_user_agent))))))"

text \<open>The search returns at the first span of the request.\<close>

fun find_span :: "string \<Rightarrow> json list \<Rightarrow> json option res" where
  "find_span rid [] = Inr None"
| "find_span rid (s # ss) =
     rbind (agent_rid_from_span s) (\<lambda>r. if r = Some rid then Inr (Some s) else find_span rid ss)"

fun find_in_traces :: "string \<Rightarrow> json list \<Rightarrow> json option res" where
  "find_in_traces rid [] = Inr None"
| "find_in_traces rid (t # ts) =
     rbind (rbind (j_iter t) (find_span rid)) (\<lambda>found. case found of Some s \<Rightarrow> Inr (Some s) | None \<Rightarrow> find_in_traces rid ts)"

definition agent_get_traces :: "json list \<Rightarrow> string option \<Rightarrow> json option res" where
  "agent_get_traces traces rid =
     (case rid of
        None \<Rightarrow> Inl Value_Error
      | Some r \<Rightarrow> if r = [] then Inl Value_Error else find_in_traces r traces)"

subsection \<open>Telemetry\<close>

text \<open>\<open>[x for x in xs if p x]\<close> with a condition that may raise.\<close>

definition rcollect :: "('a \<Rightarrow> 'b list res) \<Rightarrow> 'a list \<Rightarrow> 'b list res" where
  "rcollect f xs = rbind (rmap f xs) (\<lambda>xss. Inr (concat xss))"

definition rfilter :: "('a \<Rightarrow> bool res) \<Rightarrow> 'a list \<Rightarrow> 'a list res" where
  "rfilter p xs = rcollect (\<lambda>x. rbind (p x) (\<lambda>b. Inr (if b then [x] else []))) xs"

definition telemetry_for_runtime :: "json list \<Rightarrow> string option \<Rightarrow> json list res" where
  "telemetry_for_runtime telemetry runtime_id =
     (case runtime_id of
        None \<Rightarrow> Inr telemetry
      | Some r \<Rightarrow> if r = [] then Inr telemetry
          else rfilter (\<lambda>d. rbind (j_item ''runtime_id'' d) (\<lambda>i. Inr (i = J_str r))) telemetry)"

definition of_type :: "string \<Rightarrow> json \<Rightarrow> bool res" where
  "of_type ty t = rbind (j_item ''request_type'' t) (\<lambda>v. Inr (v = J_str ty))"

definition telemetry_logs :: "json list \<Rightarrow> json list res" where
  "telemetry_logs telemetry = rfilter (of_type ''logs'') telemetry"

definition crashlog_for_runtime :: "json list \<Rightarrow> string \<Rightarrow> json list res" where
  "crashlog_for_runtime telemetry runtime_id =
     rbind (telemetry_logs telemetry)
       (rfilter (\<lambda>l. rbind (j_item ''runtime_id'' l) (\<lambda>i. Inr (i = J_str runtime_id))))"

text \<open>The series of the metrics whose name starts with the prefix; names of metrics are texts.\<close>

definition metrics_with_prefix :: "string \<Rightarrow> json list \<Rightarrow> json list res" where
  "metrics_with_prefix start telemetry =
     rcollect (\<lambda>t. rbind (of_type ''generate-metrics'' t) (\<lambda>b.
       if \<not> b then Inr []
       else rbind (rbind (j_path [''payload'', ''series''] t) j_iter)
         (rfilter (\<lambda>series. rbind (j_item ''metric'' series) (\<lambda>m.
           Inr (case m of J_str s \<Rightarrow> startswith s start | _ \<Rightarrow> False)))))) telemetry"

definition telemetry_for_autoinject :: "json list \<Rightarrow> json list res" where
  "telemetry_for_autoinject = metrics_with_prefix ''inject.''"

definition telemetry_for_library_entrypoint :: "json list \<Rightarrow> json list res" where
  "telemetry_for_library_entrypoint = metrics_with_prefix ''library_entrypoint.''"

definition injection_metadata :: "json list \<Rightarrow> json list res" where
  "injection_metadata telemetry =
     rcollect (\<lambda>t. rbind (of_type ''injection-metadata'' t) (\<lambda>b.
       if b then rbind (j_item ''payload'' t) (\<lambda>v. Inr [v]) else Inr [])) telemetry"

subsection \<open>Crash reports\<close>

text \<open>\<open>key in x.get("tags", "")\<close>.\<close>

definition tagged :: "string \<Rightarrow> json \<Rightarrow> bool res" where
  "tagged key p = rbind (j_get_or ''tags'' (J_str []) p) (j_contains key)"

definition is_crash :: "json \<Rightarrow> bool res" where
  "is_crash p = validate_loop (\<lambda>k. tagged k p) [''si_signo'', ''signame'', ''signum'']"

definition crashes_of_object :: "jobj \<Rightarrow> json list res" where
  "crashes_of_object m =
     rbind (is_crash (J_obj m)) (\<lambda>b.
     rbind (case dget m ''logs'' of
         Some (J_list logs) \<Rightarrow> rfilter is_crash (filter (\<lambda>l. case l of J_obj _ \<Rightarrow> True | _ \<Rightarrow> False) logs)
       | _ \<Rightarrow> Inr []) (\<lambda>logs.
       Inr ((if b then [J_obj m] else []) @ logs)))"

definition crashes_of_payload :: "json \<Rightarrow> json list res" where
  "crashes_of_payload payload =
     (case payload of
        J_list ps \<Rightarrow> rfilter is_crash ps
      | J_obj m \<Rightarrow> crashes_of_object m
      | _ \<Rightarrow> Inr [])"

definition crash_reports :: "json list \<Rightarrow> json list res" where
  "crash_reports telemetry =
     rbind (telemetry_logs telemetry) (\<lambda>logs.
     rbind (rcollect (\<lambda>t. rbind (j_item ''payload'' t) crashes_of_payload) logs)
       (rfilter (\<lambda>r. rbind (tagged ''is_crash_ping'' r) (\<lambda>b. Inr (\<not> b)))))"

text \<open>
  The wait for a crash report.  A poll is a refresh, which brings the telemetry or fails, and whether
  the deadline has passed after it; the list of polls ends at the deadline.  The state is the telemetry.
\<close>

type_synonym poll_event = "json list option \<times> bool"

fun poll_loop :: "json list \<Rightarrow> poll_event list \<Rightarrow> (json list \<times> json list) res" where
  "poll_loop telemetry ps =
     rbind (crash_reports telemetry) (\<lambda>reports.
       if reports \<noteq> [] then Inr (reports, telemetry)
       else case ps of
         [] \<Rightarrow> Inr ([], telemetry)
       | (refresh, expired) # ps' \<Rightarrow>
           (let telemetry' = (case refresh of None \<Rightarrow> telemetry | Some t \<Rightarrow> t)
            in rbind (crash_reports telemetry') (\<lambda>reports.
                 if reports \<noteq> [] \<or> expired then Inr (reports, telemetry') else poll_loop telemetry' ps')))"

declare poll_loop.simps [simp del]

text \<open>After the first report the telemetry is read once more.\<close>

definition wait_for_crash_reports :: "json list \<Rightarrow> poll_event list \<Rightarrow> json list option \<Rightarrow> (json list \<times> json list) res" where
  "wait_for_crash_reports telemetry ps settled =
     rbind (poll_loop telemetry ps) (\<lambda>(reports, t).
       if reports = [] then Inl Assertion_Error
       else (let t' = (case settled of None \<Rightarrow> t | Some t' \<Rightarrow> t')
             in rbind (crash_reports t') (\<lambda>reports. Inr (reports, t'))))"

subsection \<open>Configurations\<close>

text \<open>Requests are sorted by time and number, entries by number; both are integers and the sort is stable.
  Names of configurations are texts.\<close>

definition request_order :: "json \<Rightarrow> (int \<times> int) res" where
  "request_order r =
     rbind (rbind (j_item ''tracer_time'' r) j_integer) (\<lambda>t.
     rbind (rbind (j_get_or ''seq_id'' (J_int 0) r) j_integer) (\<lambda>n. Inr (t, n)))"

definition config_order :: "json \<Rightarrow> int res" where
  "config_order c = rbind (j_get ''seq_id'' c) (\<lambda>v. if j_truthy v then j_integer v else Inr 0)"

definition rsort :: "('a \<Rightarrow> 'k :: linorder res) \<Rightarrow> 'a list \<Rightarrow> 'a list res" where
  "rsort f xs = rbind (rmap f xs) (\<lambda>ks. Inr (map snd (sort_key fst (zip ks xs))))"

definition request_events :: "json \<Rightarrow> json list res" where
  "request_events r =
     rbind (j_item ''request_type'' r) (\<lambda>ty.
     rbind (j_get ''payload'' r) (\<lambda>payload.
       if ty = J_str ''message-batch'' then j_iter payload
       else Inr [J_obj [(''payload'', payload), (''request_type'', ty)]]))"

definition add_config :: "json \<Rightarrow> jobj \<Rightarrow> jobj res" where
  "add_config c configurations = rbind (rbind (j_item ''name'' c) j_as_str) (\<lambda>n. Inr (dset n c configurations))"

definition add_event :: "json \<Rightarrow> jobj \<Rightarrow> jobj res" where
  "add_event event configurations =
     (if \<not> j_truthy event then Inr configurations
      else rbind (j_item ''request_type'' event) (\<lambda>ty.
        if ty \<notin> {J_str ''app-started'', J_str ''app-client-configuration-change''} then Inr configurations
        else rbind (rbind (j_item ''payload'' event) (j_get_or ''configuration'' (J_list []))) (\<lambda>cs.
          rbind (case cs of J_list xs \<Rightarrow> rsort config_order xs | _ \<Rightarrow> Inl Attribute_Error) (\<lambda>xs.
            rfold add_config xs configurations))))"

definition add_request :: "string option \<Rightarrow> json \<Rightarrow> jobj \<Rightarrow> jobj res" where
  "add_request service_name r configurations =
     rbind (case service_name of
         None \<Rightarrow> Inr True
       | Some s \<Rightarrow> rbind (j_path [''application'', ''service_name''] r) (\<lambda>v. Inr (v = J_str s))) (\<lambda>relevant.
       if \<not> relevant then Inr configurations
       else rbind (request_events r) (\<lambda>events. rfold add_event events configurations))"

definition agent_telemetry_configurations :: "json list \<Rightarrow> string option \<Rightarrow> string option \<Rightarrow> jobj res" where
  "agent_telemetry_configurations telemetry service_name runtime_id =
     rbind (telemetry_for_runtime telemetry runtime_id) (\<lambda>rs.
     rbind (rsort request_order rs) (\<lambda>rs. rfold (add_request service_name) rs []))"

subsection \<open>The same request id as in the library interface\<close>

lemma rid_of_type: "(t = J_str ''rpc'') = (t' = J_str ''rpc'') \<Longrightarrow> get_rid_from_span_data t m mt = get_rid_from_span_data t' m mt"
  by (simp only: get_rid_from_span_data_def)

lemma agent_rid_object:
  fixes r :: jobj
  defines "at \<equiv> (case dget r ''attributes'' of None \<Rightarrow> J_null | Some v \<Rightarrow> v)"
  shows "agent_rid_from_span (J_obj r) =
    get_rid_from_span_data (case dget r ''type'' of None \<Rightarrow> J_null | Some v \<Rightarrow> v)
      (if at \<noteq> J_null then at else case dget r ''meta'' of None \<Rightarrow> J_obj [] | Some v \<Rightarrow> v)
      (if at \<noteq> J_null then at else case dget r ''metrics'' of None \<Rightarrow> J_obj [] | Some v \<Rightarrow> v)"
  by (simp only: agent_rid_from_span_def get_rid_from_span_data_def j_get_or_def j_get.simps json.case rbind_simps Let_def at_def)

text \<open>The function that the test agent interface has of its own for the request id of a span agrees with the
  one of the library interface, on the spans of both formats: a span of a legacy format, which has no
  attributes, and a span of format v1.0, whose attributes stand for its meta and its metrics.\<close>

theorem same_rid_in_test_agent:
  assumes "ls_raw s = J_obj r"
    and "if is_v1 s then dget r ''attributes'' = Some (J_obj a)
         else dget r ''attributes'' = None \<and> dget r ''meta'' = Some (J_obj a)"
  shows "agent_rid_from_span (J_obj r) = ls_rid s"
proof (cases "is_v1 s")
  case True
  then have a: "dget r ''attributes'' = Some (J_obj a)" using assms(2) by simp
  obtain m where m: "meta_dict (J_obj r) = Inr (J_obj m)" "\<And>k. k \<in> user_agent_keys \<Longrightarrow> dget m k = dget a k"
    using meta_dict_attributes [OF a] by blast
  let ?t = "case dget r ''type'' of None \<Rightarrow> J_str [] | Some v \<Rightarrow> v"
  have "ls_rid s = get_rid_from_span_data ?t (J_obj m) (J_obj a)"
    using True a m(1) assms(1) by (simp add: ls_rid_def ls_meta_def ls_metrics_def j_get_or_def dhas_def dgetitem_def)
  also have "\<dots> = get_rid_from_span_data ?t (J_obj a) (J_obj a)" by (rule rid_from_same_tags) (simp_all add: m(2))
  also have "\<dots> = agent_rid_from_span (J_obj r)"
    unfolding agent_rid_object a by (simp, rule rid_of_type) (simp split: option.split)
  finally show ?thesis by simp
next
  case False
  then have a: "dget r ''attributes'' = None" "dget r ''meta'' = Some (J_obj a)" using assms(2) by simp_all
  let ?m = "case dget r ''metrics'' of None \<Rightarrow> J_obj [] | Some v \<Rightarrow> v"
  have "ls_rid s = get_rid_from_span_data (case dget r ''type'' of None \<Rightarrow> J_str [] | Some v \<Rightarrow> v) (J_obj a) ?m"
    using False a assms(1) by (simp add: ls_rid_def ls_meta_def ls_metrics_def j_get_or_def dhas_def dgetitem_def)
  also have "\<dots> = agent_rid_from_span (J_obj r)"
    unfolding agent_rid_object a by (simp, rule rid_of_type) (simp split: option.split)
  finally show ?thesis by simp
qed

theorem same_rid_in_test_agent_witness:
  "agent_rid_from_span (J_obj [(''type'', J_str ''web''), (''attributes'', J_obj some_attributes)]) =
     ls_rid (some_library_span V10 [(''type'', J_str ''web''), (''attributes'', J_obj some_attributes)])"
  by (rule same_rid_in_test_agent) (simp_all add: some_library_span_def)

subsection \<open>The latest configuration\<close>

lemma filter_key_distinct:
  "distinct (map f zs) \<Longrightarrow> k \<in> set zs \<Longrightarrow> filter (\<lambda>x. f k = f x) zs = [k]"
proof (induction zs)
  case (Cons z zs)
  then show ?case by (cases "k = z") (auto simp: filter_empty_conv image_iff)
qed simp

lemma sort_key_perm:
  assumes "mset xs = mset ys" and "distinct (map f xs)"
  shows "sort_key f xs = sort_key f ys"
proof (rule properties_for_sort_key)
  have d: "distinct (map f (sort_key f ys))"
    using assms by (metis distinct_map mset_eq_setD mset_map mset_sort mset_eq_imp_distinct_iff)
  fix k assume k: "k \<in> set (sort_key f ys)"
  then have "k \<in> set xs" using assms(1) by (metis mset_eq_setD set_sort)
  then show "filter (\<lambda>x. f k = f x) (sort_key f ys) = filter (\<lambda>x. f k = f x) xs"
    using filter_key_distinct [OF d k] filter_key_distinct [OF assms(2)] by simp
qed (simp_all add: assms(1))

lemma rmap_set:
  assumes "rmap f xs = Inr ks" and "set ys \<subseteq> set xs"
  shows "rmap f ys = Inr (map (\<lambda>x. projr (f x)) ys)"
proof (rule rmap_total)
  fix y assume "y \<in> set ys"
  then obtain i where "i < length xs" "xs ! i = y" using assms(2) by (metis in_set_conv_nth subsetD)
  then have "f y = Inr (ks ! i)" using assms(1) by (auto simp: rmap_Inr_iff)
  then show "f y = Inr (projr (f y))" by simp
qed

lemma rsort_perm:
  assumes "mset xs = mset ys" and "rmap f xs = Inr ks" and "distinct ks"
  shows "rsort f xs = rsort f ys"
proof -
  let ?g = "\<lambda>x. projr (f x)"
  have x: "rmap f xs = Inr (map ?g xs)" and y: "rmap f ys = Inr (map ?g ys)"
    using rmap_set [OF assms(2)] mset_eq_setD [OF assms(1)] by simp_all
  have z: "zip (map ?g zs) zs = map (\<lambda>x. (?g x, x)) zs" for zs by (simp add: zip_map1 zip_same_conv_map)
  have "sort_key fst (map (\<lambda>x. (?g x, x)) xs) = sort_key fst (map (\<lambda>x. (?g x, x)) ys)"
    by (rule sort_key_perm) (use assms x in \<open>simp_all add: comp_def\<close>)
  then show ?thesis by (simp add: rsort_def x y z)
qed

lemma rfilter_Inr:
  "rfilter p xs = Inr ys \<longleftrightarrow> (\<forall>x \<in> set xs. p x = Inr True \<or> p x = Inr False) \<and> ys = filter (\<lambda>x. p x = Inr True) xs"
proof (induction xs arbitrary: ys)
  case (Cons x xs)
  show ?case
  proof (cases "p x")
    case (Inr b)
    have "rfilter p (x # xs) = rbind (rfilter p xs) (\<lambda>zs. Inr ((if b then [x] else []) @ zs))"
      by (cases "rmap (\<lambda>x. rbind (p x) (\<lambda>b. Inr (if b then [x] else []))) xs") (simp_all add: rfilter_def rcollect_def Inr)
    then show ?thesis using Inr Cons.IH by (auto simp: rbind_Inr_iff)
  qed (simp add: rfilter_def rcollect_def)
qed (auto simp: rfilter_def rcollect_def)

lemma telemetry_for_runtime_perm:
  assumes "mset ts = mset us" and "telemetry_for_runtime ts runtime_id = Inr rs"
  obtains rs' where "telemetry_for_runtime us runtime_id = Inr rs'" and "mset rs = mset rs'"
proof (cases "runtime_id = None \<or> runtime_id = Some []")
  case True
  then show thesis using assms that by (auto simp: telemetry_for_runtime_def)
next
  case False
  then obtain r where r: "runtime_id = Some r" "r \<noteq> []" by auto
  let ?p = "\<lambda>d. rbind (j_item ''runtime_id'' d) (\<lambda>i. Inr (i = J_str r))"
  have "rfilter ?p ts = Inr rs" using assms(2) r by (simp add: telemetry_for_runtime_def)
  then have p: "\<forall>x \<in> set ts. ?p x = Inr True \<or> ?p x = Inr False" "rs = filter (\<lambda>x. ?p x = Inr True) ts"
    unfolding rfilter_Inr by blast+
  then have "rfilter ?p us = Inr (filter (\<lambda>x. ?p x = Inr True) us)"
    unfolding rfilter_Inr using mset_eq_setD [OF assms(1)] by simp
  moreover have "mset rs = mset (filter (\<lambda>x. ?p x = Inr True) us)" by (simp add: p(2) assms(1))
  ultimately show thesis using that r by (simp add: telemetry_for_runtime_def)
qed


definition config_message :: "int \<Rightarrow> string \<Rightarrow> json" where
  "config_message t v = J_obj [(''tracer_time'', J_int t), (''request_type'', J_str ''app-started''),
     (''payload'', J_obj [(''configuration'', J_list [J_obj [(''name'', J_str ''trace_enabled''), (''value'', J_str v)]])])]"


lemma latest_configuration:
  "agent_telemetry_configurations [config_message 2 ''b'', config_message 1 ''a''] None None =
     Inr [(''trace_enabled'', J_obj [(''name'', J_str ''trace_enabled''), (''value'', J_str ''b'')])]"
  by code_simp

end
