(* ===== verification/Log_Interface.thy ===== *)
theory Log_Interface
  imports Py_Re Py_Dict
begin

section \<open>Log interfaces (interfaces/\_logs.py)\<close>

text \<open>
  The logs of a container are read line by line, joined to records, and each record is parsed by the
  first of the patterns of the interface that matches.  A file is the list of the lines that iterating
  over it gives; a pattern with named groups comes with the names of its groups.  Characters are those
  of 8-bit texts.
\<close>

type_synonym log_data = "(string, string) dict"

record log_interface =
  skipped_patterns :: "re list"
  new_log_line_pattern :: re
  log_parsers :: "(re \<times> (nat \<times> string) list) list"
  clean_line :: "string \<Rightarrow> string"
  standardized_level :: "string \<Rightarrow> string"

definition space_class :: re where "space_class = Chr is_space"

definition digit_class :: re where "digit_class = Chr is_digit"

definition log_interface_init :: "re \<Rightarrow> log_interface" where
  "log_interface_init new_line =
     \<lparr>skipped_patterns = [Seq [Bos, Star space_class, Eos]], new_log_line_pattern = new_line, log_parsers = [],
      clean_line = id, standardized_level = id\<rparr>"

definition is_new_log_line :: "log_interface \<Rightarrow> string \<Rightarrow> bool" where
  "is_new_log_line li line \<longleftrightarrow> re_search (new_log_line_pattern li) line \<noteq> None"

definition is_skipped_line :: "log_interface \<Rightarrow> string \<Rightarrow> bool" where
  "is_skipped_line li line \<longleftrightarrow> list_ex (\<lambda>r. re_search r line \<noteq> None) (skipped_patterns li)"

definition log_line :: "log_interface \<Rightarrow> string \<Rightarrow> string" where
  "log_line li raw_line =
     clean_line li (if raw_line \<noteq> [] \<and> last raw_line = nl then butlast raw_line else raw_line)"

text \<open>\<open>"\n".join(buffer) + "\n"\<close>.\<close>

definition log_text :: "string list \<Rightarrow> string" where
  "log_text buffer = str_join [nl] buffer @ [nl]"

fun read_lines :: "log_interface \<Rightarrow> string list \<Rightarrow> string list \<Rightarrow> string list" where
  "read_lines li buffer [] = [log_text buffer]"
| "read_lines li buffer (raw_line # lines) =
     (let line = log_line li raw_line in
      if is_skipped_line li line then read_lines li buffer lines
      else if is_new_log_line li line \<and> length buffer \<noteq> 0 then log_text buffer # read_lines li [line] lines
      else read_lines li (buffer @ [line]) lines)"

text \<open>A file that does not exist is \<open>None\<close>.\<close>

definition read_files :: "log_interface \<Rightarrow> string list option list \<Rightarrow> string list" where
  "read_files li files = concat (map (\<lambda>f. case f of None \<Rightarrow> [] | Some lines \<Rightarrow> read_lines li [] lines) files)"

definition groupdict :: "(nat \<times> string) list \<Rightarrow> mstate \<Rightarrow> log_data" where
  "groupdict names st = concat (map (\<lambda>(n, name). case re_group st n of None \<Rightarrow> [] | Some t \<Rightarrow> [(name, t)]) names)"

fun parse_log :: "log_interface \<Rightarrow> (re \<times> (nat \<times> string) list) list \<Rightarrow> string \<Rightarrow> log_data" where
  "parse_log li [] line = []"
| "parse_log li ((r, names) # ps) line =
     (case re_match r line of
        None \<Rightarrow> parse_log li ps line
      | Some st \<Rightarrow>
          (let parsed = groupdict names st in
           case dget parsed ''level'' of None \<Rightarrow> parsed | Some l \<Rightarrow> dset ''level'' (standardized_level li l) parsed))"

definition load_data :: "log_interface \<Rightarrow> string list option list \<Rightarrow> log_data list" where
  "load_data li files = map (\<lambda>line. dset ''raw'' line (parse_log li (log_parsers li) line)) (read_files li files)"

subsection \<open>Presence and absence\<close>

definition log_presence :: "re \<Rightarrow> (string \<times> re) list \<Rightarrow> log_data \<Rightarrow> bool" where
  "log_presence pattern extra_conditions data =
     (case dget data ''message'' of
        None \<Rightarrow> False
      | Some m \<Rightarrow> re_search pattern m \<noteq> None \<and>
          list_all (\<lambda>(key, extra). case dget data key of None \<Rightarrow> False | Some v \<Rightarrow> re_search extra v \<noteq> None) extra_conditions)"

definition log_absence :: "re \<Rightarrow> re list \<Rightarrow> log_data \<Rightarrow> unit res" where
  "log_absence pattern allowed_patterns data =
     rbind (dgetitem data ''raw'') (\<lambda>raw.
       rassert (re_search pattern raw = None \<or> list_ex (\<lambda>r. re_search r raw \<noteq> None) allowed_patterns) Value_Error)"

definition assert_presence :: "log_data list \<Rightarrow> re \<Rightarrow> (string \<times> re) list \<Rightarrow> unit res" where
  "assert_presence ds pattern extra_conditions =
     rassert (list_ex (log_presence pattern extra_conditions) ds) Value_Error"

definition assert_absence :: "log_data list \<Rightarrow> re \<Rightarrow> re list \<Rightarrow> unit res" where
  "assert_absence ds pattern allowed_patterns =
     rbind (rmap (log_absence pattern allowed_patterns) ds) (\<lambda>_. Inr ())"

subsection \<open>The interfaces\<close>

definition stdout_files :: "string \<Rightarrow> string \<Rightarrow> string list" where
  "stdout_files host_log_folder container_name =
     map (\<lambda>n. host_log_folder @ ''/docker/'' @ container_name @ n) [''/stdout.log'', ''/stderr.log'']"

definition digits_re :: "nat \<Rightarrow> re" where "digits_re n = Times n digit_class"

definition words :: re where "words = Plus (Chr is_word)"

definition blanks :: re where "blanks = Star (Lit '' '')"

definition rest_of_line :: re where "rest_of_line = Star (Chr any_char)"

text \<open>A date such as \<open>2024-01-31\<close> and a time such as \<open>10:20:30\<close>, with the given separators.\<close>

definition date_re :: "string \<Rightarrow> re" where
  "date_re sep = Seq [digits_re 4, Lit sep, digits_re 2, Lit sep, digits_re 2]"

definition time_re :: re where
  "time_re = Seq [digits_re 2, Lit '':'', digits_re 2, Lit '':'', digits_re 2]"

definition library_skipped :: "re list" where
  "library_skipped =
     [Seq [Bos, Lit ''Attaching to systemtests_weblog_1'', Eos],
      Seq [Lit ''systemtests_weblog_1 exited with code '', Plus digit_class]]"

definition java_skipped :: "re list" where
  "java_skipped =
     [Seq [Bos, Star (Chr (\<lambda>c. c \<in> set '' /_,.()=|'' \<or> c = CHR 0x5C \<or> c = CHR 0x27 \<or> c = CHR 0x60)), Eos],
      Seq [Bos, Plus (Lit '' ''), Lit '':: Spring Boot ::'', Plus (Lit '' ''), Lit ''(v'', Plus digit_class, Chr any_char,
        Plus digit_class, Chr any_char, Plus digit_class, Opt (Lit ''-SNAPSHOT''), Lit '')'', Eos]]"

definition java_new_line :: re where
  "java_new_line = Seq [Bos, Opt (Seq [Lit ''[dd'', Chr any_char, Lit ''trace '']), date_re ''-'']"

definition java_parsers :: "(re \<times> (nat \<times> string) list) list" where
  "java_parsers =
     (let source = Plus (Chr (\<lambda>c. is_lower c \<or> c = CHR ''.''));
          thread = Plus (Chr (\<lambda>c. c \<noteq> CHR '']''));
          klass1 = Plus (Chr (\<lambda>c. is_word c \<or> c \<in> set ''.$''));
          klass2 = Plus (Chr (\<lambda>c. is_word c \<or> c \<in> set ''.$[]/''));
          timestamp1 = Seq [date_re ''-'', Lit '' '', time_re, Lit '':'', digits_re 3, Lit '' '', Chr (\<lambda>c. c \<in> set ''+-''), Lit ''0000''];
          timestamp2 = Seq [date_re ''-'', Lit '' '', time_re, Lit ''.'', digits_re 3]
      in [(Seq [Bos, Lit ''['', Grp 1 source, Lit '' '', Grp 2 timestamp1, Lit ''] ['', Grp 3 thread, Lit ''] '', Grp 4 words,
            Lit '' '', Grp 5 klass1, Lit '' - '', Grp 6 rest_of_line],
           [(1, ''source''), (2, ''timestamp''), (3, ''thread''), (4, ''level''), (5, ''klass''), (6, ''message'')]),
          (Seq [Bos, Grp 1 timestamp2, Plus (Lit '' ''), Grp 2 words, Lit '' '', digit_class, Lit '' '', Plus (Lit ''-''), Lit '' ['', blanks,
            Grp 3 thread, Lit '']'', Plus (Lit '' ''), Grp 4 klass2, blanks, Lit '':'', blanks, Grp 5 rest_of_line],
           [(1, ''timestamp''), (2, ''level''), (3, ''thread''), (4, ''klass''), (5, ''message'')])])"

definition nginx_parsers :: "(re \<times> (nat \<times> string) list) list" where
  "nginx_parsers =
     [(Seq [Bos, Grp 1 (Seq [date_re ''/'', Lit '' '', time_re]), Lit '' ['', Grp 2 words, Lit ''] '',
        Grp 3 (Seq [Plus digit_class, Lit ''#'', Plus digit_class]), Lit '': '', Grp 4 (Plus (Chr any_char))],
       [(1, ''timestamp''), (2, ''level''), (3, ''thread''), (4, ''message'')])]"

definition php_skipped :: "re list" where
  "php_skipped =
     [Alt (Seq [Lit ''export '', words, Star space_class, Lit ''='', Star space_class, rest_of_line])
          (Seq [Lit ''env['', words, Lit '']'', Star space_class, Lit ''='', rest_of_line])]"

definition php_parsers :: "(re \<times> (nat \<times> string) list) list" where
  "php_parsers =
     [(Seq [Lit ''['', Grp 1 (Seq [date_re ''-'', Lit '' '', time_re, Lit ''.'', digits_re 3]), Lit '']['', Grp 2 words,
        Lit '']['', Grp 3 (Plus digit_class), Lit ''] '', Grp 4 (Plus (Chr any_char))],
       [(1, ''timestamp''), (2, ''level''), (3, ''thread''), (4, ''message'')])]"

definition to_upper :: "char \<Rightarrow> char" where
  "to_upper c = (if is_lower c then char_of (of_char c - 32 :: nat) else c)"

definition library_stdout :: "string \<Rightarrow> log_interface" where
  "library_stdout library =
     (let base = log_interface_init (Chr any_char);
          li = base\<lparr>skipped_patterns := skipped_patterns base @ library_skipped,
                    clean_line := (\<lambda>line. removeprefix line ''weblog_1         | ''),
                    standardized_level := (if library \<in> {''php'', ''cpp_nginx''} then map to_upper else id)\<rparr>
      in if library = ''java'' then
           li\<lparr>skipped_patterns := skipped_patterns li @ java_skipped, new_log_line_pattern := java_new_line, log_parsers := java_parsers\<rparr>
         else if library = ''cpp_nginx'' then li\<lparr>log_parsers := nginx_parsers\<rparr>
         else if library = ''php'' then li\<lparr>skipped_patterns := skipped_patterns li @ php_skipped, log_parsers := php_parsers\<rparr>
         else li\<lparr>log_parsers := [(Grp 1 rest_of_line, [(1, ''message'')])]\<rparr>)"

definition dotnet_level :: "string \<Rightarrow> string" where
  "dotnet_level level =
     (case map_of [(''DBG'', ''DEBUG''), (''INF'', ''INFO''), (''ERR'', ''ERROR'')] level of None \<Rightarrow> level | Some l \<Rightarrow> l)"

definition library_dotnet_managed :: log_interface where
  "library_dotnet_managed =
     (let base = log_interface_init (Seq [Bos, date_re ''-'']);
          timestamp = Seq [date_re ''-'', Lit '' '', time_re, Chr any_char, digits_re 3, Lit '' '', Chr (\<lambda>c. c \<in> set ''+-''), Lit ''00:00'']
      in base\<lparr>skipped_patterns := skipped_patterns base @
                [Seq [Lit ''{ MachineName: \".\", Process: \"[1 dotnet]\", AppDomain: \"[1 app]\", TracerVersion: \"'',
                   Star (Chr (\<lambda>c. is_digit c \<or> c = CHR ''.'')), Lit ''\" }'']],
              log_parsers := [(Seq [Bos, Grp 1 timestamp, Lit '' ['', Grp 2 words, Lit ''] '', Grp 3 rest_of_line],
                [(1, ''timestamp''), (2, ''level''), (3, ''message'')])],
              standardized_level := dotnet_level\<rparr>)"

definition is_dotnet_log_file :: "string \<Rightarrow> bool" where
  "is_dotnet_log_file name \<longleftrightarrow>
     re_search (Seq [Lit ''dotnet-tracer-managed-dotnet-'', Plus digit_class, Opt (Cat (Lit ''_'') (Plus digit_class)),
       Chr any_char, Lit ''log'']) name \<noteq> None"

definition agent_stdout :: log_interface where
  "agent_stdout =
     (let base = log_interface_init (Chr any_char);
          upper = Star (Chr is_upper);
          bar = Seq [blanks, Lit ''|'', blanks]
      in base\<lparr>log_parsers :=
           [(Seq [Bos, Grp 1 (Star (Chr (\<lambda>c. c \<noteq> CHR ''|''))), bar, upper, bar, Grp 2 upper, bar, Grp 3 rest_of_line],
             [(1, ''timestamp''), (2, ''level''), (3, ''message'')]),
            (Grp 1 rest_of_line, [(1, ''message'')])]\<rparr>)"

definition postgres_stdout :: log_interface where
  "postgres_stdout =
     (let timestamp = Seq [date_re ''-'', Lit '' '', time_re, Chr any_char, digits_re 3, Lit '' UTC''];
          process = Seq [Lit '' ['', Plus digit_class, Lit '']''];
          base = log_interface_init (Seq [Bos, timestamp, process])
      in base\<lparr>log_parsers :=
           [(Seq [Bos, Grp 1 timestamp, process, Lit '' '', Grp 2 (Plus (Chr is_upper)), Lit '':'', blanks, Grp 3 rest_of_line],
             [(1, ''timestamp''), (2, ''level''), (3, ''message'')]),
            (Grp 1 rest_of_line, [(1, ''message'')])]\<rparr>)"

subsection \<open>The records are the lines\<close>

definition kept_lines :: "log_interface \<Rightarrow> string list \<Rightarrow> string list" where
  "kept_lines li lines = filter (\<lambda>l. \<not> is_skipped_line li l) (map (log_line li) lines)"

text \<open>A record: a line, then lines that do not start a record.\<close>

definition is_record :: "log_interface \<Rightarrow> string list \<Rightarrow> bool" where
  "is_record li g \<longleftrightarrow> g \<noteq> [] \<and> list_all (\<lambda>l. \<not> is_new_log_line li l) (tl g)"

lemma read_lines_groups:
  assumes "is_record li buffer"
  shows "\<exists>groups. groups \<noteq> [] \<and> read_lines li buffer lines = map log_text groups \<and> concat groups = buffer @ kept_lines li lines \<and>
    list_all (is_record li) groups \<and> list_all (\<lambda>g. is_new_log_line li (hd g)) (tl groups) \<and> hd (hd groups) = hd buffer"
  using assms
proof (induction lines arbitrary: buffer)
  case Nil
  then show ?case by (intro exI [of _ "[buffer]"]) (simp add: kept_lines_def)
next
  case (Cons raw lines)
  let ?line = "log_line li raw"
  consider "is_skipped_line li ?line" | "\<not> is_skipped_line li ?line" "is_new_log_line li ?line"
    | "\<not> is_skipped_line li ?line" "\<not> is_new_log_line li ?line" by blast
  then show ?case
  proof cases
    case 1
    then show ?thesis using Cons.IH [OF Cons.prems] by (simp add: kept_lines_def)
  next
    case 2
    have "is_record li [?line]" by (simp add: is_record_def)
    from Cons.IH [OF this] obtain groups where "groups \<noteq> []" "read_lines li [?line] lines = map log_text groups"
      "concat groups = [?line] @ kept_lines li lines" "list_all (is_record li) groups"
      "list_all (\<lambda>g. is_new_log_line li (hd g)) (tl groups)" "hd (hd groups) = ?line" by auto
    moreover have "buffer \<noteq> []" using Cons.prems by (simp add: is_record_def)
    ultimately show ?thesis using 2 Cons.prems
      by (intro exI [of _ "buffer # groups"]) (cases groups; simp add: kept_lines_def)
  next
    case 3
    then have "is_record li (buffer @ [?line])" using Cons.prems by (simp add: is_record_def)
    from Cons.IH [OF this] show ?thesis using 3 Cons.prems by (auto simp: is_record_def kept_lines_def)
  qed
qed

lemma read_lines_skip:
  "kept_lines li lines = [] \<Longrightarrow> read_lines li [] lines = [log_text []]"
  by (induction lines) (auto simp: kept_lines_def split: if_splits)

lemma read_lines_start:
  "kept_lines li lines = l # ls \<Longrightarrow> \<exists>lines'. read_lines li [] lines = read_lines li [l] lines' \<and> kept_lines li lines' = ls"
proof (induction lines)
  case (Cons raw lines)
  then show ?case by (cases "is_skipped_line li (log_line li raw)") (auto simp: kept_lines_def)
qed (simp add: kept_lines_def)

text \<open>C21.  The records of a log file are its lines: no line that is kept is lost, repeated or moved, a record begins
  with a line that starts one (the first record with the first line, whatever it is) and none of its other
  lines does.\<close>

theorem log_records_partition:
  assumes "kept_lines li lines \<noteq> []"
  shows "\<exists>groups. read_lines li [] lines = map log_text groups \<and> concat groups = kept_lines li lines \<and>
    list_all (is_record li) groups \<and> list_all (\<lambda>g. is_new_log_line li (hd g)) (tl groups)"
proof -
  obtain l ls where l: "kept_lines li lines = l # ls" using assms by (cases "kept_lines li lines") auto
  then obtain lines' where "read_lines li [] lines = read_lines li [l] lines'" "kept_lines li lines' = ls"
    using read_lines_start by blast
  with l show ?thesis using read_lines_groups [of li "[l]" lines'] by (auto simp: is_record_def)
qed

theorem log_records_partition_witness:
  "\<exists>groups. read_lines postgres_stdout [] [''2024-01-31 10:20:30.123 UTC [7] LOG:  ready'', ''detail''] = map log_text groups \<and>
    concat groups = kept_lines postgres_stdout [''2024-01-31 10:20:30.123 UTC [7] LOG:  ready'', ''detail''] \<and>
    list_all (is_record postgres_stdout) groups \<and> list_all (\<lambda>g. is_new_log_line postgres_stdout (hd g)) (tl groups)"
proof (rule log_records_partition)
  show "kept_lines postgres_stdout [''2024-01-31 10:20:30.123 UTC [7] LOG:  ready'', ''detail''] \<noteq> []" by code_simp
qed

text \<open>An empty file, or one with blank lines only, still gives a record.\<close>

lemma empty_file_record: "read_files (library_stdout ''python'') [Some []] = [[nl]]"
  by code_simp

text \<open>A record of a log of PostgreSQL, parsed.\<close>

lemma postgres_record:
  "load_data postgres_stdout [Some [''2024-01-31 10:20:30.123 UTC [7] LOG:  ready'', ''detail'']] =
     [[(''timestamp'', ''2024-01-31 10:20:30.123 UTC''), (''level'', ''LOG''), (''message'', ''ready''),
       (''raw'', log_text [''2024-01-31 10:20:30.123 UTC [7] LOG:  ready'', ''detail''])]]"
  by code_simp

end
