(* ===== verification/Spec2Isabelle.thy ===== *)
theory Spec2Isabelle
  imports Manifest_Parser Metrics_V3 Interface_Core Mocked_Response Compute_Scenarios
    Trace_V1_Roundtrip Deserializer Features Test_Session Trace_Context
    Easy_Wins Ci_Data Rc_Apply Backend_Session Proxy_Session Library_Appsec Backend_Interface
    Otel_Interface Test_Agent_Interface Log_Interface
begin

text \<open>
  \<^bold>\<open>A verification library of the core logic of system-tests.\<close>

  system-tests runs one suite of tests against the tracers of every language.  A manifest
  says which tests a component is expected to pass; a proxy captures the traffic between the
  tracer, the agent and the backend, decodes it and may answer in their place; validators wait
  for the captured data and check it; scripts of the continuous integration compute what to run.
  This library models these parts.  Everything is a total function on explicit values: a function
  that may raise returns \<open>'a res\<close>, with the class of the exception on the left.

  \<^bold>\<open>Shared theories.\<close>  \<open>Prelude\<close> holds results and the loops over them, \<open>Py_Dict\<close> the
  insertion-ordered dictionaries with their contract as the locales \<open>ordered_dict\<close> and
  \<open>grouping_dict\<close> (interpreted on association lists), \<open>Py_Str\<close> the string methods, \<open>Py_Re\<close> a
  backtracking matcher with groups and its soundness and completeness for the language of a
  pattern, \<open>Py_Fnmatch\<close> shell patterns, \<open>Py_Bytes\<close> and \<open>Py_Base64\<close> codecs, \<open>Py_Json\<close> and
  \<open>Py_Value\<close> the dynamically typed values of JSON and of msgpack, \<open>Py_Gen\<close> generators, as what they yield
  and how they end.

  \<^bold>\<open>Manifest.\<close>  \<open>Component_Version\<close> (\<open>utils/_context/component_version.py\<close>): the rewriting of
  Python and Ruby versions, comparison, printing, the set of known versions.  \<open>Semver_Range\<close> and
  \<open>Declaration\<close> (\<open>utils/manifest/_internal/types.py\<close>, \<open>declaration.py\<close>): version ranges and
  the declarations of a manifest with their parser.  \<open>Manifest_Rule\<close> (\<open>rule.py\<close>, \<open>core.py\<close>):
  which conditions apply to a test.  \<open>Manifest_Parser\<close> (\<open>parser.py\<close>): from the YAML values of
  the files to well typed conditions.  The lemmas show what each accepted text means, that a loaded
  manifest is well typed, that matching is by path segment and loses no condition.

  \<^bold>\<open>Proxy.\<close>  \<open>Metrics_V3\<close> (\<open>utils/proxy/_decoders/metrics_v3.py\<close>), \<open>Trace_V1\<close>
  (\<open>traces/trace_v1.py\<close>), \<open>Otlp_V1\<close> (\<open>traces/otlp_v1.py\<close>) and \<open>Deserializer\<close>
  (\<open>_deserializer.py\<close>, which calls the three) decode the messages; \<open>Trace_V1_Roundtrip\<close> proves
  that a trace with streamed texts is read back.  \<open>Mocked_Response\<close> (\<open>mocked_response.py\<close>)
  answers requests; the locale \<open>replayed_sequence\<close> is the contract of the mocks that replay a
  list of responses, interpreted on both.  \<open>Proxy_Core\<close> (\<open>core.py\<close>, \<open>ports.py\<close>) holds the two hooks
  of the proxy: where a flow is sent, the mocks applied to it and the message recorded of it.
  \<open>Proxy_Session\<close> runs flows through both hooks: every exchange is recorded in a file of its own,
  and a configuration sent to the command port reaches the tracer that polls for it.

  \<^bold>\<open>Mocked backend.\<close>  The server that stands in for the backend (\<open>utils/mocked_backend\<close>).
  \<open>Ffe_Backend\<close> (\<open>_backend_ffe.py\<close>): the timelines of the feature flag responses, an instance of
  \<open>replayed_sequence\<close>, their counters as invariants of the reachable states, and the handlers.
  \<open>Mocked_Backend\<close> (\<open>_request_handler.py\<close>, \<open>_backend.py\<close>, \<open>_backend_rc.py\<close>): reading a request, the
  choice of its handler and its recording; a chunked body is read back whole.  \<open>Backend_Session\<close>
  (\<open>_client.py\<close>): sessions of requests, the files of the messages, and the delivery of a
  configuration to the agent, composed from \<open>send_state\<close>, the control endpoint and the poll.

  \<^bold>\<open>Interfaces.\<close>  \<open>Interface_Core\<close> (\<open>utils/interfaces/_core.py\<close>): the validation loops as
  functions, and \<open>ingest_file\<close>/\<open>wait_for\<close> as a step relation between the watchdog thread and
  the waiting thread, with an invariant of the reachable states and two runs that show races.
  The interfaces of the tests query what is captured.  \<open>Span_Link\<close> and \<open>Dd_Trace\<close>
  (\<open>utils/dd_types\<close>): span links, traces and spans of the tracers and of the agent in all their formats;
  the links and the request ids that are read do not depend on the format.  \<open>Library_Interface\<close> and
  \<open>Library_Appsec\<close> (\<open>_library/core.py\<close>, \<open>telemetry.py\<close>, \<open>miscs.py\<close>, \<open>appsec.py\<close>,
  \<open>_misc_validators.py\<close>): the spans of a request, which are shown to be those that carry its id, the
  checks of telemetry, of remote configuration and of attacks.  \<open>Backend_Interface\<close>
  (\<open>_mocked_backend.py\<close>): the same for what the backend receives.  \<open>Otel_Interface\<close>
  (\<open>_open_telemetry.py\<close>): the correlation of spans with their descendants, a loop whose end is proved by
  a measure and whose result is the set defined by rules.  \<open>Test_Agent_Interface\<close> (\<open>_test_agent.py\<close>): the
  telemetry of the test agent and its configurations.  \<open>Log_Interface\<close> (\<open>_logs.py\<close>): the records of the
  logs and the patterns that parse them.

  \<^bold>\<open>Continuous integration.\<close>  \<open>Compute_Scenarios\<close>
  (\<open>utils/scripts/compute_libraries_and_scenarios.py\<close>): libraries and scenarios selected from the
  modified files, and that the order of the files is irrelevant.  \<open>Workflow_Data\<close>
  (\<open>utils/scripts/ci_orchestrators/workflow_data.py\<close>): the matrices of machines and images, and
  the jobs of the end-to-end workflow, packed to a desired time and merged until they fit the
  runners; the jobs are objects in a store, since the loop that merges them deletes and changes
  jobs it still refers to, and that loop is a partial function whose termination is proved in
  \<open>Workflow_Jobs\<close>, with what it keeps.  \<open>Ci_Data\<close>
  (\<open>utils/scripts/compute-workflow-parameters.py\<close>): the parameters of a run; selection, support
  and packing are composed to the statement that a selected scenario runs exactly once per weblog.

  \<^bold>\<open>Remote configuration.\<close>  \<open>Rc_Tuf\<close> (\<open>utils/proxy/tuf.py\<close>,
  \<open>rc_response_builder.py\<close>): the signed documents and their chain of hashes.  \<open>Rc_Command\<close>,
  \<open>Rc_State\<close> and \<open>Rc_Apply\<close> (\<open>utils/_remote_config.py\<close>): the payloads of the commands, the
  files a test has configured with the operations on them, and the wait for the library.  The
  wait is a scan of the requests seen and those that arrive with the callback of the code, so
  that its answers can be related to what the library has reported: no answer before a report, an
  answer once every file is reported.  \<open>Rc_Apply\<close> runs the operations of a session from the
  initial state and shows that the served files match the signed hashes after any of them.

  \<^bold>\<open>Test session.\<close>  \<open>Features\<close> (\<open>utils/_features.py\<close>): the table of the features with their
  identifiers and owners, and the decorator that marks a test.  \<open>Test_Session\<close>
  (\<open>utils/_decorators.py\<close> and the hooks of \<open>conftest.py\<close>): the markers that a declaration puts
  on a test, the selection of the collected tests for a scenario, what is reported of them.  The
  lemmas show which tests run and what a declaration does to a test.

  \<^bold>\<open>Easy wins.\<close>  The script that activates the tests that pass
  (\<open>utils/scripts/activate_easy_wins\<close>).  \<open>Activation_Report\<close> (\<open>test_artifact.py\<close>, \<open>types.py\<close>): the
  results of the tests of a context in a trie, and the rules that keep the failing ones off, which
  are shown to match exactly these.  \<open>Manifest_Editor\<close> (\<open>manifest_editor.py\<close>): from the conditions
  of a test to edits of the documents of the manifest, with the text transformation of the anchors.
  \<open>Easy_Wins\<close> (\<open>core.py\<close>, \<open>logger.py\<close>): \<open>update_manifest\<close>, which joins the two, and its counts; a
  run on a small manifest is evaluated from the reports to the written documents.

  \<^bold>\<open>Trace context.\<close>  \<open>Trace_Context\<close> (\<open>utils/docker_fixtures/spec/tracecontext.py\<close>): the
  parsers of the two W3C headers and the tracestate with its operations; a parsed header is read
  back from its printed form.

  \<^bold>\<open>Parameters.\<close>  Code outside the repository is an argument: \<open>semantic_version\<close> in
  \<open>Component_Version\<close>, floating point in \<open>Metrics_V3\<close>, msgpack, JSON, gzip, protobuf and the
  multipart decoder in the record \<open>http_lib\<close>, the registry of scenarios in \<open>Compute_Scenarios\<close>,
  JSON texts, hashes, signatures and the protobuf encoding in the record \<open>codec\<close> of \<open>Rc_Tuf\<close>,
  decompressors and fixtures in the records of the mocked backend and the proxy (\<open>server_env\<close>,
  \<open>ffe_env\<close>, \<open>decoders\<close>), floating point sums in \<open>Workflow_Data\<close>, \<open>pygtrie\<close> (\<open>trie_lib\<close>, with its documented behaviour) and the order in which sets are iterated
  (\<open>set_order\<close>) in the script of the easy wins.
  No theorem assumes more of them than what its statement shows.

  \<^bold>\<open>Bounds.\<close>  No definition takes fuel: loops are structural, or partial functions into an
  option that are proved to return, or come with a measure (the length
  of the remaining bytes in the decoders, the size of the value in the nested traces, the
  remaining input in the matcher).  Identifiers are read at 64 bits, bytes are 8-bit words.

  \<^bold>\<open>Not modelled.\<close>  Containers, virtual machines, Kubernetes and the build images (they start
  processes), the weblog applications, the HTTP clients of the test agent, the tests themselves,
  and the scripts that only call services.  Of the interfaces, the objects that hold the captured data are
  arguments of the queries, and the threading events and log messages are left out.
\<close>

end
